(* ===== verification/Prelude.thy ===== *)
theory Prelude
  imports Main "HOL-Library.Word"
begin

text \<open>
  What every component of the development shares: names for the machine integers of the code,
  the outcome of a C++ call (a returned value, a thrown exception or undefined behaviour, each
  with the state it leaves), sequencing of such calls, decimal printing, and byte-block copies.
\<close>

type_synonym u8 = "8 word"
type_synonym u16 = "16 word"
type_synonym u32 = "32 word"
type_synonym u64 = "64 word"

named_theorems seq_simps "evaluation of sequenced calls"
named_theorems blk_simps "facts on copied byte blocks"

subsection \<open>Outcomes of a call\<close>

text \<open>
  \<open>Ret a s\<close>: the call returned \<open>a\<close> and left the state \<open>s\<close>. \<open>Exc e s\<close>: it threw \<open>e\<close>,
  the state being \<open>s\<close>. \<open>UB\<close>: it reached undefined behaviour (a double free, a copy through
  a pointer that is no live block, a read past a block).
\<close>

datatype ('e, 's, 'a) outcome = Ret 'a 's | Exc 'e 's | UB | Terminate | Blocked 's

fun call_then :: "('e, 's, 'a) outcome \<Rightarrow> ('a \<Rightarrow> 's \<Rightarrow> ('e, 's, 'b) outcome) \<Rightarrow> ('e, 's, 'b) outcome" where
  "call_then (Ret a s) k = k a s"
| "call_then (Exc e s) k = Exc e s"
| "call_then UB k = UB"
| "call_then Terminate k = Terminate"
| "call_then (Blocked s) k = Blocked s"

text \<open>A call on a part of the state, seen as a call on the whole.\<close>

fun lift_call :: "('s \<Rightarrow> 't) \<Rightarrow> ('e, 's, 'a) outcome \<Rightarrow> ('e, 't, 'a) outcome" where
  "lift_call f (Ret a s) = Ret a (f s)"
| "lift_call f (Exc e s) = Exc e (f s)"
| "lift_call f UB = UB"
| "lift_call f Terminate = Terminate"
| "lift_call f (Blocked s) = Blocked (f s)"

declare call_then.simps [seq_simps] lift_call.simps [seq_simps]

lemma call_then_Ret_iff:
  "call_then r k = Ret b t \<longleftrightarrow> (\<exists>a s. r = Ret a s \<and> k a s = Ret b t)"
  by (cases r) auto

lemma call_then_Exc_iff:
  "call_then r k = Exc e t \<longleftrightarrow> r = Exc e t \<or> (\<exists>a s. r = Ret a s \<and> k a s = Exc e t)"
  by (cases r) auto

lemma lift_call_Ret_iff:
  "lift_call f r = Ret a t \<longleftrightarrow> (\<exists>s. r = Ret a s \<and> t = f s)"
  by (cases r) auto

lemma lift_call_Exc_iff:
  "lift_call f r = Exc e t \<longleftrightarrow> (\<exists>s. r = Exc e s \<and> t = f s)"
  by (cases r) auto

lemma lift_call_UB_iff [simp]: "lift_call f r = UB \<longleftrightarrow> r = UB"
  by (cases r) auto

definition no_exc :: "('e, 's, 'a) outcome \<Rightarrow> bool" where
  "no_exc r \<longleftrightarrow> (case r of Exc e s \<Rightarrow> False | _ \<Rightarrow> True)"

lemma no_exc_simps [simp]: "no_exc (Ret a s)" "\<not> no_exc (Exc e s)" "no_exc UB" "no_exc Terminate" "no_exc (Blocked s)"
  by (simp_all add: no_exc_def)

lemma no_exc_call_then [simp]: "no_exc (call_then r k) \<longleftrightarrow> no_exc r \<and> (\<forall>a s. r = Ret a s \<longrightarrow> no_exc (k a s))"
  by (cases r) auto

lemma no_exc_lift_call [simp]: "no_exc (lift_call f r) \<longleftrightarrow> no_exc r"
  by (cases r) auto

text \<open>Returned or threw: neither undefined behaviour, nor termination, nor a wait.\<close>

definition settled :: "('e, 's, 'a) outcome \<Rightarrow> bool" where
  "settled r \<longleftrightarrow> (\<exists>a s. r = Ret a s) \<or> (\<exists>e s. r = Exc e s)"

lemma settled_simps [simp]: "settled (Ret a s)" "settled (Exc e s)" "\<not> settled UB" "\<not> settled Terminate" "\<not> settled (Blocked s)"
  by (simp_all add: settled_def)

lemma settled_call_then [simp]: "settled (call_then r k) \<longleftrightarrow> settled r \<and> (\<forall>a s. r = Ret a s \<longrightarrow> settled (k a s))"
  by (cases r) auto

lemma settled_cases:
  assumes "settled r"
  obtains a s where "r = Ret a s" | e s where "r = Exc e s"
  using assms by (auto simp: settled_def)

text \<open>Every state the call can leave satisfies \<open>P\<close>.\<close>

definition ensures :: "('s \<Rightarrow> bool) \<Rightarrow> ('e, 's, 'a) outcome \<Rightarrow> bool" where
  "ensures P r = (case r of Ret a s \<Rightarrow> P s | Exc e s \<Rightarrow> P s | Blocked s \<Rightarrow> P s | UB \<Rightarrow> True | Terminate \<Rightarrow> True)"

named_theorems ensures_intros "rules for what every outcome of a call satisfies"

lemma ensures_simps [simp]:
  "ensures P (Ret a s) = P s" "ensures P (Exc e s) = P s" "ensures P (Blocked s) = P s" "ensures P UB" "ensures P Terminate"
  by (simp_all add: ensures_def)

lemma ensures_Ret [ensures_intros]: "P s \<Longrightarrow> ensures P (Ret a s)"
  by simp

lemma ensures_then [ensures_intros]:
  "ensures P r \<Longrightarrow> (\<And>a s. P s \<Longrightarrow> ensures P (k a s)) \<Longrightarrow> ensures P (call_then r k)"
  by (cases r) auto

lemma ensures_lift: "ensures P (lift_call f r) = ensures (\<lambda>s. P (f s)) r"
  by (cases r) auto

lemma ensures_lift_all [ensures_intros]: "(\<And>s. P (f s)) \<Longrightarrow> ensures P (lift_call f r)"
  by (cases r) auto

lemma ensures_mono: "ensures P r \<Longrightarrow> (\<And>s. P s \<Longrightarrow> Q s) \<Longrightarrow> ensures Q r"
  by (cases r) auto

lemma ensures_RetD: "ensures P r \<Longrightarrow> r = Ret a s \<Longrightarrow> P s"
  by simp

subsection \<open>Decimal printing (\<open>std::to_string\<close>)\<close>

definition digit_char :: "nat \<Rightarrow> char" where
  "digit_char d = char_of (48 + d)"

fun nat_to_string :: "nat \<Rightarrow> string" where
  "nat_to_string n =
     (if n < 10 then [digit_char n] else nat_to_string (n div 10) @ [digit_char (n mod 10)])"

declare nat_to_string.simps [simp del]

definition int_to_string :: "int \<Rightarrow> string" where
  "int_to_string i = (if i < 0 then ''-'' @ nat_to_string (nat (- i)) else nat_to_string (nat i))"

lemma nat_to_string_nonempty [simp]: "nat_to_string n \<noteq> []"
  by (subst nat_to_string.simps) simp

subsection \<open>Byte blocks\<close>

text \<open>
  \<open>copy_into dst off src n\<close> is \<open>memcpy(dst + off, src, n)\<close> on blocks given as byte lists.
\<close>

definition copy_into :: "'a list \<Rightarrow> nat \<Rightarrow> 'a list \<Rightarrow> nat \<Rightarrow> 'a list" where
  "copy_into dst off src n = take off dst @ take n src @ drop (off + n) dst"

lemma length_copy_into [simp, blk_simps]:
  "off + n \<le> length dst \<Longrightarrow> n \<le> length src \<Longrightarrow> length (copy_into dst off src n) = length dst"
  by (simp add: copy_into_def)

lemma copy_into_full [blk_simps]:
  "n \<le> length src \<Longrightarrow> take n (copy_into dst 0 src n) = take n src"
  by (simp add: copy_into_def)

lemma nth_copy_into [blk_simps]:
  assumes "off + n \<le> length dst" and "n \<le> length src" and "i < length dst"
  shows "copy_into dst off src n ! i = (if off \<le> i \<and> i < off + n then src ! (i - off) else dst ! i)"
  using assms by (auto simp: copy_into_def nth_append min_def)

lemma copy_into_zero [simp]: "copy_into dst off src 0 = dst"
  by (simp add: copy_into_def)

subsection \<open>The length of a number in bits\<close>

fun bit_len :: "nat \<Rightarrow> nat" where
  "bit_len n = (if n = 0 then 0 else Suc (bit_len (n div 2)))"

declare bit_len.simps [simp del]

lemma bit_len_le: "n < 2 ^ k \<Longrightarrow> bit_len n \<le> k"
proof (induction k arbitrary: n)
  case 0
  then show ?case by (simp add: bit_len.simps)
next
  case (Suc k)
  show ?case
  proof (cases "n = 0")
    case False
    have "n div 2 < 2 ^ k" using Suc.prems by simp
    from Suc.IH [OF this] False show ?thesis by (subst bit_len.simps) simp
  qed (simp add: bit_len.simps)
qed

lemma bit_len_eq:
  assumes "2 ^ k \<le> n" and "n < 2 ^ Suc k"
  shows "bit_len n = Suc k"
  using assms
proof (induction k arbitrary: n)
  case 0
  then have "n = 1" by simp
  then show ?case by (simp add: bit_len.simps [of "Suc 0"] bit_len.simps [of 0])
next
  case (Suc k)
  then have "bit_len (n div 2) = Suc k" by (intro Suc.IH) auto
  then show ?case using Suc.prems by (subst bit_len.simps) auto
qed

end
