(* ===== verification/Edk_Exception.thy ===== *)
theory Edk_Exception
  imports Prelude
begin

text \<open>
  \<open>edk::Exception\<close> (easydk/include/cxxutil/exception.h): the error codes, their printed names and
  the message a thrown exception carries. The models of the other components throw
  \<open>throw code description\<close>: the source position that the macro \<open>THROW_EXCEPTION\<close> adds is only
  printed, so it is an argument of \<open>what\<close> and not a part of the exception value.
\<close>

datatype exn_code =
  INTERNAL | UNSUPPORTED | INVALID_ARG | MEMORY | TIMEOUT | INIT_FAILED | UNAVAILABLE

fun CodeString :: "exn_code \<Rightarrow> string" where
  "CodeString INTERNAL = ''INTERNAL''"
| "CodeString UNSUPPORTED = ''UNSUPPORTED''"
| "CodeString INVALID_ARG = ''INVALID_ARG''"
| "CodeString MEMORY = ''MEMORY''"
| "CodeString TIMEOUT = ''TIMEOUT''"
| "CodeString _ = ''UNKNOWN''"

record exn =
  ErrorCode :: exn_code
  err_desc :: string

definition throw :: "exn_code \<Rightarrow> string \<Rightarrow> exn" where
  "throw c d = \<lparr>ErrorCode = c, err_desc = d\<rparr>"

lemma throw_sel [simp]: "ErrorCode (throw c d) = c" "err_desc (throw c d) = d"
  by (simp_all add: throw_def)

text \<open>\<open>file.substr(file.find_last_of('/') + 1)\<close>; without a slash, \<open>npos + 1\<close> wraps to 0.\<close>

definition after_last_slash :: "string \<Rightarrow> string" where
  "after_last_slash f = rev (takeWhile (\<lambda>c. c \<noteq> CHR ''/'') (rev f))"

definition exception_msg :: "exn_code \<Rightarrow> string \<Rightarrow> nat \<Rightarrow> string \<Rightarrow> string \<Rightarrow> string" where
  "exception_msg c file line func d =
     after_last_slash file @ '':'' @ nat_to_string line @ '' ('' @ func @ '') '' @ CodeString c @ ''] '' @ d"

type_synonym ('s, 'a) run = "(exn, 's, 'a) outcome"

lemma after_last_slash_no_slash: "CHR ''/'' \<notin> set (after_last_slash f)"
  by (auto simp: after_last_slash_def dest: set_takeWhileD)

lemma takeWhile_snoc_stop: "\<not> P x \<Longrightarrow> takeWhile P (xs @ x # ys) = takeWhile P xs"
  by (induction xs) auto

lemma rev_takeWhile_rev_all: "\<forall>x\<in>set xs. P x \<Longrightarrow> rev (takeWhile P (rev xs)) = xs"
  by (metis rev_rev_ident set_rev takeWhile_eq_all_conv)

lemma after_last_slash_plain: "CHR ''/'' \<notin> set f \<Longrightarrow> after_last_slash f = f"
  unfolding after_last_slash_def by (rule rev_takeWhile_rev_all) auto

lemma after_last_slash_path: "CHR ''/'' \<notin> set f \<Longrightarrow> after_last_slash (dir @ ''/'' @ f) = f"
  using after_last_slash_plain [of f] by (simp add: after_last_slash_def takeWhile_snoc_stop)

end
