(* ===== verification/Buffer_Spec.thy ===== *)
theory Buffer_Spec
  imports Prelude
begin

text \<open>
  The contract of a buffer that is read and written from two sides: whatever side is used, a read
  returns the value last written. A client's history is a list of accesses; the operations are
  partial, \<open>None\<close> standing for an access that threw.
\<close>

datatype 'v access = Read_Host | Read_Dev | Write_Host 'v | Write_Dev 'v

text \<open>The reads a client sees on a plain cell holding \<open>v\<close>, and the value it ends with.\<close>

fun cell_reads :: "'v \<Rightarrow> 'v access list \<Rightarrow> 'v list" where
  "cell_reads v [] = []"
| "cell_reads v (Read_Host # as) = v # cell_reads v as"
| "cell_reads v (Read_Dev # as) = v # cell_reads v as"
| "cell_reads v (Write_Host w # as) = cell_reads w as"
| "cell_reads v (Write_Dev w # as) = cell_reads w as"

fun cell_final :: "'v \<Rightarrow> 'v access list \<Rightarrow> 'v" where
  "cell_final v [] = v"
| "cell_final v (Write_Host w # as) = cell_final w as"
| "cell_final v (Write_Dev w # as) = cell_final w as"
| "cell_final v (_ # as) = cell_final v as"

fun written :: "'v access list \<Rightarrow> 'v list" where
  "written [] = []"
| "written (Write_Host w # as) = w # written as"
| "written (Write_Dev w # as) = w # written as"
| "written (_ # as) = written as"

fun run_accesses ::
    "('s \<Rightarrow> ('s \<times> 'v) option) \<Rightarrow> ('s \<Rightarrow> ('s \<times> 'v) option) \<Rightarrow>
     ('v \<Rightarrow> 's \<Rightarrow> 's option) \<Rightarrow> ('v \<Rightarrow> 's \<Rightarrow> 's option) \<Rightarrow>
     's \<Rightarrow> 'v access list \<Rightarrow> ('s \<times> 'v list) option" where
  "run_accesses rh rd wh wd s [] = Some (s, [])"
| "run_accesses rh rd wh wd s (Read_Host # as) =
     Option.bind (rh s) (\<lambda>(t, v). map_option (\<lambda>(u, vs). (u, v # vs)) (run_accesses rh rd wh wd t as))"
| "run_accesses rh rd wh wd s (Read_Dev # as) =
     Option.bind (rd s) (\<lambda>(t, v). map_option (\<lambda>(u, vs). (u, v # vs)) (run_accesses rh rd wh wd t as))"
| "run_accesses rh rd wh wd s (Write_Host w # as) = Option.bind (wh w s) (\<lambda>t. run_accesses rh rd wh wd t as)"
| "run_accesses rh rd wh wd s (Write_Dev w # as) = Option.bind (wd w s) (\<lambda>t. run_accesses rh rd wh wd t as)"

locale two_sided_buffer =
  fixes read_host :: "'s \<Rightarrow> ('s \<times> 'v) option"
    and read_dev :: "'s \<Rightarrow> ('s \<times> 'v) option"
    and write_host :: "'v \<Rightarrow> 's \<Rightarrow> 's option"
    and write_dev :: "'v \<Rightarrow> 's \<Rightarrow> 's option"
    and holds :: "'s \<Rightarrow> 'v option"
    and inv :: "'s \<Rightarrow> bool"
    and fits :: "'s \<Rightarrow> 'v \<Rightarrow> bool"
  assumes read_host: "inv s \<Longrightarrow> read_host s = Some (t, v) \<Longrightarrow>
      inv t \<and> holds t = Some v \<and> (\<forall>w. holds s = Some w \<longrightarrow> w = v) \<and> fits t = fits s"
    and read_dev: "inv s \<Longrightarrow> read_dev s = Some (t, v) \<Longrightarrow>
      inv t \<and> holds t = Some v \<and> (\<forall>w. holds s = Some w \<longrightarrow> w = v) \<and> fits t = fits s"
    and write_host: "inv s \<Longrightarrow> fits s w \<Longrightarrow> write_host w s = Some t \<Longrightarrow>
      inv t \<and> holds t = Some w \<and> fits t = fits s"
    and write_dev: "inv s \<Longrightarrow> fits s w \<Longrightarrow> write_dev w s = Some t \<Longrightarrow>
      inv t \<and> holds t = Some w \<and> fits t = fits s"
begin

lemma reads_of_holding:
  assumes "inv s" and "holds s = Some v" and "\<forall>w \<in> set (written as). fits s w"
    and "run_accesses read_host read_dev write_host write_dev s as = Some (t, vs)"
  shows "vs = cell_reads v as \<and> holds t = Some (cell_final v as) \<and> inv t"
  using assms
proof (induction as arbitrary: s v vs)
  case Nil
  then show ?case by simp
next
  case (Cons a as)
  show ?case
  proof (cases a)
    case Read_Host
    with Cons.prems obtain u us where "read_host s = Some (u, v)" "vs = v # us"
      "run_accesses read_host read_dev write_host write_dev u as = Some (t, us)"
      by (auto simp: Option.bind_eq_Some_conv dest: read_host)
    with Read_Host Cons.prems Cons.IH [of u v us] read_host [of s u v] show ?thesis by simp
  next
    case Read_Dev
    with Cons.prems obtain u us where "read_dev s = Some (u, v)" "vs = v # us"
      "run_accesses read_host read_dev write_host write_dev u as = Some (t, us)"
      by (auto simp: Option.bind_eq_Some_conv dest: read_dev)
    with Read_Dev Cons.prems Cons.IH [of u v us] read_dev [of s u v] show ?thesis by simp
  next
    case (Write_Host w)
    with Cons.prems obtain u where "write_host w s = Some u"
      "run_accesses read_host read_dev write_host write_dev u as = Some (t, vs)"
      by (auto simp: Option.bind_eq_Some_conv)
    with Write_Host Cons.prems Cons.IH [of u w vs] write_host [of s w u] show ?thesis by simp
  next
    case (Write_Dev w)
    with Cons.prems obtain u where "write_dev w s = Some u"
      "run_accesses read_host read_dev write_host write_dev u as = Some (t, vs)"
      by (auto simp: Option.bind_eq_Some_conv)
    with Write_Dev Cons.prems Cons.IH [of u w vs] write_dev [of s w u] show ?thesis by simp
  qed
qed

lemma reads_after_write_host:
  assumes "inv s" and "fits s w" and "\<forall>x \<in> set (written as). fits s x"
    and "run_accesses read_host read_dev write_host write_dev s (Write_Host w # as) = Some (t, vs)"
  shows "vs = cell_reads w as"
  using assms write_host [of s w] reads_of_holding [of _ w as t vs]
  by (auto simp: Option.bind_eq_Some_conv)

lemma reads_after_write_dev:
  assumes "inv s" and "fits s w" and "\<forall>x \<in> set (written as). fits s x"
    and "run_accesses read_host read_dev write_host write_dev s (Write_Dev w # as) = Some (t, vs)"
  shows "vs = cell_reads w as"
  using assms write_dev [of s w] reads_of_holding [of _ w as t vs]
  by (auto simp: Option.bind_eq_Some_conv)

end

text \<open>A buffer whose accesses never fail: then every history runs to its end.\<close>

locale reliable_buffer = two_sided_buffer +
  assumes read_host_returns: "inv s \<Longrightarrow> read_host s \<noteq> None"
    and read_dev_returns: "inv s \<Longrightarrow> read_dev s \<noteq> None"
    and write_host_returns: "inv s \<Longrightarrow> write_host w s \<noteq> None"
    and write_dev_returns: "inv s \<Longrightarrow> write_dev w s \<noteq> None"
begin

lemma run_returns:
  assumes "inv s" and "\<forall>w \<in> set (written as). fits s w"
  shows "\<exists>t vs. run_accesses read_host read_dev write_host write_dev s as = Some (t, vs)"
  using assms
proof (induction as arbitrary: s)
  case Nil
  then show ?case by simp
next
  case (Cons a as)
  show ?case
  proof (cases a)
    case Read_Host
    from read_host_returns [OF Cons.prems(1)] obtain t v where t: "read_host s = Some (t, v)" by auto
    from read_host [OF Cons.prems(1) t] Cons.prems Read_Host Cons.IH [of t] obtain u vs where
      "run_accesses read_host read_dev write_host write_dev t as = Some (u, vs)" by auto
    with t Read_Host show ?thesis by simp
  next
    case Read_Dev
    from read_dev_returns [OF Cons.prems(1)] obtain t v where t: "read_dev s = Some (t, v)" by auto
    from read_dev [OF Cons.prems(1) t] Cons.prems Read_Dev Cons.IH [of t] obtain u vs where
      "run_accesses read_host read_dev write_host write_dev t as = Some (u, vs)" by auto
    with t Read_Dev show ?thesis by simp
  next
    case (Write_Host w)
    from write_host_returns [OF Cons.prems(1)] obtain t where t: "write_host w s = Some t" by auto
    from write_host [OF Cons.prems(1) _ t] Cons.prems Write_Host Cons.IH [of t] t show ?thesis by simp
  next
    case (Write_Dev w)
    from write_dev_returns [OF Cons.prems(1)] obtain t where t: "write_dev w s = Some t" by auto
    from write_dev [OF Cons.prems(1) _ t] Cons.prems Write_Dev Cons.IH [of t] t show ?thesis by simp
  qed
qed

end

end
