(* ===== verification/Mlu_Memory_Op.thy ===== *)
theory Mlu_Memory_Op
  imports Edk_Exception
begin

text \<open>
  Host memory, device (MLU) memory and the raw memory operations of
  easydk/src/easyinfer/mlu_memory_op.cpp: \<open>AllocMlu\<close>, \<open>FreeMlu\<close>, \<open>MemcpyH2D\<close>, \<open>MemcpyD2H\<close>,
  \<open>MemcpyD2D\<close>, \<open>TypeSize\<close>. The CNRT driver they call is not part of the repository: it is the
  argument \<open>rt\<close> of the definitions, and \<open>cnrt_ok\<close> states what its documentation promises.
  \<open>malloc\<close> and \<open>free\<close> are the C library's: a request either fails with a null pointer or
  yields a live block that was not live before, and freeing what is no live block is undefined.
\<close>

subsection \<open>Memory\<close>

type_synonym addr = nat

text \<open>
  \<open>hmem\<close> and \<open>dmem\<close> map the address of every live block to its bytes; address 0 is the null
  pointer. \<open>hfree\<close> is how many bytes \<open>malloc\<close> can still hand out, \<open>hnext\<close> the address of its
  next block and \<open>hjunk\<close> the byte a fresh block is filled with.
\<close>

record mach =
  hmem :: "addr \<Rightarrow> u8 list option"
  dmem :: "addr \<Rightarrow> u8 list option"
  hfree :: nat
  hnext :: addr
  hjunk :: u8

definition malloc :: "nat \<Rightarrow> mach \<Rightarrow> addr \<times> mach" where
  "malloc n m =
     (if n \<le> hfree m
      then (hnext m, m\<lparr>hmem := (hmem m)(hnext m := Some (replicate n (hjunk m))),
                       hfree := hfree m - n, hnext := Suc (hnext m)\<rparr>)
      else (0, m))"

definition free :: "addr \<Rightarrow> mach \<Rightarrow> (exn, mach, unit) outcome" where
  "free p m =
     (if p = 0 then Ret () m
      else case hmem m p of
             None \<Rightarrow> UB
           | Some b \<Rightarrow> Ret () (m\<lparr>hmem := (hmem m)(p := None), hfree := hfree m + length b\<rparr>))"

definition mach_ok :: "mach \<Rightarrow> bool" where
  "mach_ok m \<longleftrightarrow> hnext m \<noteq> 0 \<and> (\<forall>a. hnext m \<le> a \<longrightarrow> hmem m a = None) \<and> hmem m 0 = None \<and> dmem m 0 = None"

subsection \<open>The CNRT driver\<close>

datatype cnrtRet = CNRT_RET_SUCCESS | CNRT_RET_ERR nat

datatype cnrtMemTransDir = HOST2DEV | DEV2HOST | DEV2DEV

record cnrt =
  cnrtMalloc :: "nat \<Rightarrow> mach \<Rightarrow> cnrtRet \<times> addr \<times> mach"
  cnrtFree :: "addr \<Rightarrow> mach \<Rightarrow> cnrtRet \<times> mach"
  cnrtMemcpy :: "addr \<Rightarrow> addr \<Rightarrow> nat \<Rightarrow> cnrtMemTransDir \<Rightarrow> mach \<Rightarrow> cnrtRet \<times> mach"

text \<open>
  What the driver promises, for calls on live blocks: a successful allocation returns a fresh
  block of the size asked for, a successful release drops the block, a successful copy moves
  exactly the bytes asked for, and a call that fails leaves both memories as they were.
\<close>

definition cnrt_malloc_ok :: "cnrt \<Rightarrow> bool" where
  "cnrt_malloc_ok rt \<longleftrightarrow>
     (\<forall>n m r p m'. cnrtMalloc rt n m = (r, p, m') \<longrightarrow>
        (r = CNRT_RET_SUCCESS \<longrightarrow>
           p \<noteq> 0 \<and> dmem m p = None \<and> (\<exists>b. length b = n \<and> m' = m\<lparr>dmem := (dmem m)(p := Some b)\<rparr>)) \<and>
        (r \<noteq> CNRT_RET_SUCCESS \<longrightarrow> m' = m))"

definition cnrt_free_ok :: "cnrt \<Rightarrow> bool" where
  "cnrt_free_ok rt \<longleftrightarrow>
     (\<forall>p m r m'. dmem m p \<noteq> None \<longrightarrow> cnrtFree rt p m = (r, m') \<longrightarrow>
        (r = CNRT_RET_SUCCESS \<longrightarrow> m' = m\<lparr>dmem := (dmem m)(p := None)\<rparr>) \<and>
        (r \<noteq> CNRT_RET_SUCCESS \<longrightarrow> m' = m))"

definition cnrt_h2d_ok :: "cnrt \<Rightarrow> bool" where
  "cnrt_h2d_ok rt \<longleftrightarrow>
     (\<forall>d s n m r m' db hb. dmem m d = Some db \<longrightarrow> hmem m s = Some hb \<longrightarrow> n \<le> length db \<longrightarrow> n \<le> length hb \<longrightarrow>
        cnrtMemcpy rt d s n HOST2DEV m = (r, m') \<longrightarrow>
        (r = CNRT_RET_SUCCESS \<longrightarrow> m' = m\<lparr>dmem := (dmem m)(d := Some (copy_into db 0 hb n))\<rparr>) \<and>
        (r \<noteq> CNRT_RET_SUCCESS \<longrightarrow> m' = m))"

definition cnrt_d2h_ok :: "cnrt \<Rightarrow> bool" where
  "cnrt_d2h_ok rt \<longleftrightarrow>
     (\<forall>d s n m r m' db hb. hmem m d = Some hb \<longrightarrow> dmem m s = Some db \<longrightarrow> n \<le> length db \<longrightarrow> n \<le> length hb \<longrightarrow>
        cnrtMemcpy rt d s n DEV2HOST m = (r, m') \<longrightarrow>
        (r = CNRT_RET_SUCCESS \<longrightarrow> m' = m\<lparr>hmem := (hmem m)(d := Some (copy_into hb 0 db n))\<rparr>) \<and>
        (r \<noteq> CNRT_RET_SUCCESS \<longrightarrow> m' = m))"

definition cnrt_ok :: "cnrt \<Rightarrow> bool" where
  "cnrt_ok rt \<longleftrightarrow> cnrt_malloc_ok rt \<and> cnrt_free_ok rt \<and> cnrt_h2d_ok rt \<and> cnrt_d2h_ok rt"

text \<open>
  A driver that is not only correct but never refuses: what the theorems that an access returns
  assume, beside the contract.
\<close>

definition cnrt_reliable :: "cnrt \<Rightarrow> bool" where
  "cnrt_reliable rt \<longleftrightarrow>
     (\<forall>n m. finite (dom (dmem m)) \<longrightarrow> fst (cnrtMalloc rt n m) = CNRT_RET_SUCCESS) \<and>
     (\<forall>d s n m. dmem m d \<noteq> None \<longrightarrow> hmem m s \<noteq> None \<longrightarrow>
        fst (cnrtMemcpy rt d s n HOST2DEV m) = CNRT_RET_SUCCESS) \<and>
     (\<forall>d s n m. hmem m d \<noteq> None \<longrightarrow> dmem m s \<noteq> None \<longrightarrow>
        fst (cnrtMemcpy rt d s n DEV2HOST m) = CNRT_RET_SUCCESS)"

subsection \<open>The operations of \<open>MluMemoryOp\<close>\<close>

datatype DataType = UINT8 | FLOAT32 | FLOAT16 | INT16 | INT32

fun TypeSize :: "DataType \<Rightarrow> nat" where
  "TypeSize UINT8 = 1"
| "TypeSize FLOAT32 = 4"
| "TypeSize FLOAT16 = 2"
| "TypeSize INT16 = 2"
| "TypeSize INT32 = 4"

fun cnrt_code :: "cnrtRet \<Rightarrow> nat" where
  "cnrt_code CNRT_RET_SUCCESS = 0"
| "cnrt_code (CNRT_RET_ERR n) = n"

definition CHECK_CNRT_RET :: "cnrtRet \<Rightarrow> string \<Rightarrow> 'a \<Rightarrow> mach \<Rightarrow> (mach, 'a) run" where
  "CHECK_CNRT_RET r str a m =
     (if r \<noteq> CNRT_RET_SUCCESS
      then Exc (throw MEMORY (str @ '' cnrt error code: '' @ nat_to_string (cnrt_code r))) m
      else Ret a m)"

definition AllocMlu :: "cnrt \<Rightarrow> nat \<Rightarrow> mach \<Rightarrow> (mach, addr) run" where
  "AllocMlu rt nBytes m =
     (let (r, p, m') = cnrtMalloc rt nBytes m in CHECK_CNRT_RET r ''Mlu malloc failed.'' p m')"

text \<open>A failing release is only logged: \<open>FreeMlu\<close> always returns.\<close>

definition FreeMlu :: "cnrt \<Rightarrow> addr \<Rightarrow> mach \<Rightarrow> (mach, unit) run" where
  "FreeMlu rt p m = (let (r, m') = cnrtFree rt p m in Ret () m')"

definition MemcpyH2D :: "cnrt \<Rightarrow> addr \<Rightarrow> addr \<Rightarrow> nat \<Rightarrow> mach \<Rightarrow> (mach, unit) run" where
  "MemcpyH2D rt mlu_dst cpu_src nBytes m =
     (let (r, m') = cnrtMemcpy rt mlu_dst cpu_src nBytes HOST2DEV m
      in CHECK_CNRT_RET r ''Memcpy host to device failed.'' () m')"

definition MemcpyD2H :: "cnrt \<Rightarrow> addr \<Rightarrow> addr \<Rightarrow> nat \<Rightarrow> mach \<Rightarrow> (mach, unit) run" where
  "MemcpyD2H rt cpu_dst mlu_src nBytes m =
     (let (r, m') = cnrtMemcpy rt cpu_dst mlu_src nBytes DEV2HOST m
      in CHECK_CNRT_RET r ''Memcpy host to device failed.'' () m')"

definition MemcpyD2D :: "cnrt \<Rightarrow> addr \<Rightarrow> addr \<Rightarrow> nat \<Rightarrow> mach \<Rightarrow> (mach, unit) run" where
  "MemcpyD2D rt mlu_dst mlu_src nBytes m =
     (let (r, m') = cnrtMemcpy rt mlu_dst mlu_src nBytes DEV2DEV m
      in CHECK_CNRT_RET r ''Memcpy device to device failed.'' () m')"

subsection \<open>What they do under the driver's contract\<close>

lemma malloc_cases:
  obtains (ok) "n \<le> hfree m"
      "malloc n m = (hnext m, m\<lparr>hmem := (hmem m)(hnext m := Some (replicate n (hjunk m))),
                                hfree := hfree m - n, hnext := Suc (hnext m)\<rparr>)"
    | (fail) "hfree m < n" "malloc n m = (0, m)"
  by (cases "n \<le> hfree m") (auto simp: malloc_def not_le)

lemma mach_ok_simps:
  assumes "mach_ok m"
  shows "hnext m \<noteq> 0" "hmem m 0 = None" "dmem m 0 = None" "hmem m (hnext m) = None"
  using assms by (auto simp: mach_ok_def)

lemma mach_ok_malloc: "mach_ok m \<Longrightarrow> malloc n m = (p, m') \<Longrightarrow> mach_ok m'"
  by (auto simp: malloc_def mach_ok_def split: if_splits)

lemma AllocMlu_cases:
  assumes "cnrt_ok rt"
  obtains (ok) p b where "AllocMlu rt n m = Ret p (m\<lparr>dmem := (dmem m)(p := Some b)\<rparr>)"
      "length b = n" "p \<noteq> 0" "dmem m p = None"
    | (exc) e where "AllocMlu rt n m = Exc e m" "ErrorCode e = MEMORY"
proof -
  obtain r p m' where call: "cnrtMalloc rt n m = (r, p, m')"
    by (cases "cnrtMalloc rt n m")
  have "cnrt_malloc_ok rt" using assms by (simp add: cnrt_ok_def)
  note law = this [unfolded cnrt_malloc_ok_def, rule_format, OF call]
  show ?thesis
  proof (cases "r = CNRT_RET_SUCCESS")
    case True
    with law obtain b where "p \<noteq> 0" "dmem m p = None" "length b = n"
        "m' = m\<lparr>dmem := (dmem m)(p := Some b)\<rparr>" by blast
    with True call show ?thesis by (intro ok [of p b]) (auto simp: AllocMlu_def CHECK_CNRT_RET_def)
  next
    case False
    with law call have "AllocMlu rt n m =
        Exc (throw MEMORY (''Mlu malloc failed.'' @ '' cnrt error code: '' @ nat_to_string (cnrt_code r))) m"
      by (simp add: AllocMlu_def CHECK_CNRT_RET_def)
    then show ?thesis by (rule exc) simp
  qed
qed

lemma FreeMlu_cases:
  assumes "cnrt_ok rt" and "dmem m p \<noteq> None"
  obtains (freed) "FreeMlu rt p m = Ret () (m\<lparr>dmem := (dmem m)(p := None)\<rparr>)"
    | (kept) "FreeMlu rt p m = Ret () m"
proof -
  obtain r m' where call: "cnrtFree rt p m = (r, m')" by (cases "cnrtFree rt p m")
  have "cnrt_free_ok rt" using assms(1) by (simp add: cnrt_ok_def)
  note law = this [unfolded cnrt_free_ok_def, rule_format, OF assms(2) call]
  show ?thesis
    using law call freed kept by (cases "r = CNRT_RET_SUCCESS") (auto simp: FreeMlu_def)
qed

lemma MemcpyH2D_cases:
  assumes "cnrt_ok rt" and "dmem m d = Some db" and "hmem m s = Some hb"
    and "n \<le> length db" and "n \<le> length hb"
  obtains (ok) "MemcpyH2D rt d s n m = Ret () (m\<lparr>dmem := (dmem m)(d := Some (copy_into db 0 hb n))\<rparr>)"
    | (exc) e where "MemcpyH2D rt d s n m = Exc e m" "ErrorCode e = MEMORY"
proof -
  obtain r m' where call: "cnrtMemcpy rt d s n HOST2DEV m = (r, m')"
    by (cases "cnrtMemcpy rt d s n HOST2DEV m")
  have "cnrt_h2d_ok rt" using assms(1) by (simp add: cnrt_ok_def)
  note law = this [unfolded cnrt_h2d_ok_def, rule_format, OF assms(2-5) call]
  show ?thesis
  proof (cases "r = CNRT_RET_SUCCESS")
    case True
    with law call show ?thesis by (intro ok) (simp add: MemcpyH2D_def CHECK_CNRT_RET_def)
  next
    case False
    with law call have "\<exists>e. MemcpyH2D rt d s n m = Exc e m \<and> ErrorCode e = MEMORY"
      by (simp add: MemcpyH2D_def CHECK_CNRT_RET_def)
    then show ?thesis using exc by blast
  qed
qed

lemma MemcpyD2H_cases:
  assumes "cnrt_ok rt" and "hmem m d = Some hb" and "dmem m s = Some db"
    and "n \<le> length db" and "n \<le> length hb"
  obtains (ok) "MemcpyD2H rt d s n m = Ret () (m\<lparr>hmem := (hmem m)(d := Some (copy_into hb 0 db n))\<rparr>)"
    | (exc) e where "MemcpyD2H rt d s n m = Exc e m" "ErrorCode e = MEMORY"
proof -
  obtain r m' where call: "cnrtMemcpy rt d s n DEV2HOST m = (r, m')"
    by (cases "cnrtMemcpy rt d s n DEV2HOST m")
  have "cnrt_d2h_ok rt" using assms(1) by (simp add: cnrt_ok_def)
  note law = this [unfolded cnrt_d2h_ok_def, rule_format, OF assms(2-5) call]
  show ?thesis
  proof (cases "r = CNRT_RET_SUCCESS")
    case True
    with law call show ?thesis by (intro ok) (simp add: MemcpyD2H_def CHECK_CNRT_RET_def)
  next
    case False
    with law call have "\<exists>e. MemcpyD2H rt d s n m = Exc e m \<and> ErrorCode e = MEMORY"
      by (simp add: MemcpyD2H_def CHECK_CNRT_RET_def)
    then show ?thesis using exc by blast
  qed
qed

lemma AllocMlu_reliable:
  "cnrt_reliable rt \<Longrightarrow> finite (dom (dmem m)) \<Longrightarrow> no_exc (AllocMlu rt n m)"
  by (cases "cnrtMalloc rt n m") (auto simp: cnrt_reliable_def AllocMlu_def CHECK_CNRT_RET_def dest!: spec [of _ n] spec [of _ m])

lemma MemcpyH2D_reliable:
  assumes "cnrt_reliable rt" and "dmem m d = Some db" and "hmem m s = Some hb"
  shows "no_exc (MemcpyH2D rt d s n m)"
proof -
  have "fst (cnrtMemcpy rt d s n HOST2DEV m) = CNRT_RET_SUCCESS"
    using assms by (simp add: cnrt_reliable_def)
  then show ?thesis
    by (cases "cnrtMemcpy rt d s n HOST2DEV m") (simp add: MemcpyH2D_def CHECK_CNRT_RET_def)
qed

lemma MemcpyD2H_reliable:
  assumes "cnrt_reliable rt" and "hmem m d = Some hb" and "dmem m s = Some db"
  shows "no_exc (MemcpyD2H rt d s n m)"
proof -
  have "fst (cnrtMemcpy rt d s n DEV2HOST m) = CNRT_RET_SUCCESS"
    using assms by (simp add: cnrt_reliable_def)
  then show ?thesis
    by (cases "cnrtMemcpy rt d s n DEV2HOST m") (simp add: MemcpyD2H_def CHECK_CNRT_RET_def)
qed

subsection \<open>A reference driver\<close>

text \<open>
  The smallest driver that keeps the contract: a bump allocator over the device memory that
  never fails on live blocks. It instantiates the driver in closed examples.
\<close>

definition ref_cnrt :: "(mach \<Rightarrow> addr) \<Rightarrow> cnrt" where
  "ref_cnrt fresh =
     \<lparr>cnrtMalloc = (\<lambda>n m. if fresh m \<noteq> 0 \<and> dmem m (fresh m) = None
                           then (CNRT_RET_SUCCESS, fresh m,
                                 m\<lparr>dmem := (dmem m)(fresh m := Some (replicate n 0))\<rparr>)
                           else (CNRT_RET_ERR 1, 0, m)),
      cnrtFree = (\<lambda>p m. case dmem m p of None \<Rightarrow> (CNRT_RET_ERR 2, m)
                        | Some _ \<Rightarrow> (CNRT_RET_SUCCESS, m\<lparr>dmem := (dmem m)(p := None)\<rparr>)),
      cnrtMemcpy = (\<lambda>d s n dir m.
        case dir of
          HOST2DEV \<Rightarrow> (case (dmem m d, hmem m s) of
              (Some db, Some hb) \<Rightarrow> (CNRT_RET_SUCCESS, m\<lparr>dmem := (dmem m)(d := Some (copy_into db 0 hb n))\<rparr>)
            | _ \<Rightarrow> (CNRT_RET_ERR 3, m))
        | DEV2HOST \<Rightarrow> (case (hmem m d, dmem m s) of
              (Some hb, Some db) \<Rightarrow> (CNRT_RET_SUCCESS, m\<lparr>hmem := (hmem m)(d := Some (copy_into hb 0 db n))\<rparr>)
            | _ \<Rightarrow> (CNRT_RET_ERR 3, m))
        | DEV2DEV \<Rightarrow> (case (dmem m d, dmem m s) of
              (Some db, Some sb) \<Rightarrow> (CNRT_RET_SUCCESS, m\<lparr>dmem := (dmem m)(d := Some (copy_into db 0 sb n))\<rparr>)
            | _ \<Rightarrow> (CNRT_RET_ERR 3, m)))\<rparr>"

lemma ref_cnrt_ok: "cnrt_ok (ref_cnrt fresh)"
  by (auto simp: cnrt_ok_def cnrt_malloc_ok_def cnrt_free_ok_def cnrt_h2d_ok_def cnrt_d2h_ok_def
      ref_cnrt_def split: if_splits option.splits) (metis length_replicate)

lemma ref_cnrt_calls:
  "cnrtMalloc (ref_cnrt fresh) n m = (if fresh m \<noteq> 0 \<and> dmem m (fresh m) = None
     then (CNRT_RET_SUCCESS, fresh m, m\<lparr>dmem := (dmem m)(fresh m := Some (replicate n 0))\<rparr>) else (CNRT_RET_ERR 1, 0, m))"
  "dmem m d = Some db \<Longrightarrow> hmem m h = Some hb \<Longrightarrow>
     cnrtMemcpy (ref_cnrt fresh) d h n HOST2DEV m = (CNRT_RET_SUCCESS, m\<lparr>dmem := (dmem m)(d := Some (copy_into db 0 hb n))\<rparr>)"
  by (simp_all add: ref_cnrt_def)

lemma ref_cnrt_free:
  "dmem m p = Some b \<Longrightarrow> cnrtFree (ref_cnrt fresh) p m = (CNRT_RET_SUCCESS, m\<lparr>dmem := (dmem m)(p := None)\<rparr>)"
  by (simp add: ref_cnrt_def)

definition next_dev_addr :: "mach \<Rightarrow> addr" where
  "next_dev_addr m = Suc (Max (insert 0 (dom (dmem m))))"

lemma next_dev_addr_fresh: "finite (dom (dmem m)) \<Longrightarrow> next_dev_addr m \<noteq> 0 \<and> dmem m (next_dev_addr m) = None"
proof -
  assume "finite (dom (dmem m))"
  then have "next_dev_addr m \<notin> dom (dmem m)"
    by (metis Max_ge Suc_n_not_le_n finite_insert insertI2 next_dev_addr_def)
  then show ?thesis by (auto simp: next_dev_addr_def)
qed

lemma ref_cnrt_reliable: "cnrt_reliable (ref_cnrt next_dev_addr)"
  by (auto simp: cnrt_reliable_def ref_cnrt_def next_dev_addr_fresh)

end
