(* ===== verification/Synced_Memory.thy ===== *)
theory Synced_Memory
  imports Mlu_Memory_Op Buffer_Spec
begin

text \<open>
  \<open>GstSyncedMemory\<close> (gst-libs/common/synced_memory.{h,cpp}): one logical buffer with a host copy
  and a device copy, and a head that says which copy is current. Each operation works on the
  machine's memories and on the object, so its state is a pair. The lemmas show that the object
  is well formed after every operation, that a read on either side returns the bytes last
  written on either side, and what each error path leaves behind.
\<close>

subsection \<open>The object\<close>

datatype CNSyncHead =
  GST_SYNCHEAD_UNINITIALIZED | GST_SYNCHEAD_AT_CPU | GST_SYNCHEAD_AT_MLU | GST_SYNCHEAD_SYNCED

record GstSyncedMemory =
  host_ptr :: addr
  dev_ptr :: addr
  own_host_data :: bool
  own_dev_data :: bool
  head :: CNSyncHead
  mem_size :: nat
  err_msg :: string
  ctx_dev_id :: int

type_synonym sm_state = "mach \<times> GstSyncedMemory"

text \<open>\<open>snprintf\<close> into the 1024 byte message field keeps 1023 characters and the final zero.\<close>

definition SYNCMEM_ERRMSG_LENGTH :: nat where
  "SYNCMEM_ERRMSG_LENGTH = 1024"

definition set_err :: "string \<Rightarrow> GstSyncedMemory \<Rightarrow> GstSyncedMemory" where
  "set_err msg s = s\<lparr>err_msg := take (SYNCMEM_ERRMSG_LENGTH - 1) msg\<rparr>"

definition cn_syncedmem_new :: "nat \<Rightarrow> GstSyncedMemory option" where
  "cn_syncedmem_new n =
     (if n \<noteq> 0
      then Some \<lparr>host_ptr = 0, dev_ptr = 0, own_host_data = False, own_dev_data = False,
                 head = GST_SYNCHEAD_UNINITIALIZED, mem_size = n, err_msg = [], ctx_dev_id = 0\<rparr>
      else None)"

text \<open>Calls on the memories alone, and updates of the object alone.\<close>

definition on_mach :: "(mach \<Rightarrow> (mach, 'a) run) \<Rightarrow> sm_state \<Rightarrow> (sm_state, 'a) run" where
  "on_mach f ms = lift_call (\<lambda>m. (m, snd ms)) (f (fst ms))"

text \<open>
  \<open>cn_syncedmem_free\<close>. \<open>FreeMlu\<close> never throws, so the handler that stores a message and returns
  false is never entered; it is kept, as the code has it. The object itself is gone afterwards:
  the state returned is the machine's, with the object as it was when it was deleted.
\<close>

definition free_dev_or_fail :: "cnrt \<Rightarrow> sm_state \<Rightarrow> (sm_state \<Rightarrow> (sm_state, bool) run) \<Rightarrow> (sm_state, bool) run" where
  "free_dev_or_fail rt ms k =
     (case FreeMlu rt (dev_ptr (snd ms)) (fst ms) of
        Ret _ m \<Rightarrow> k (m, snd ms)
      | Exc e m \<Rightarrow> Ret False (m, set_err (err_desc e) (snd ms))
      | UB \<Rightarrow> UB
      | Terminate \<Rightarrow> Terminate
      | Blocked m \<Rightarrow> Blocked (m, snd ms))"

definition cn_syncedmem_free :: "cnrt \<Rightarrow> sm_state \<Rightarrow> (sm_state, bool) run" where
  "cn_syncedmem_free rt ms =
     call_then
       (if host_ptr (snd ms) \<noteq> 0 \<and> own_host_data (snd ms)
        then call_then (on_mach (free (host_ptr (snd ms))) ms)
               (\<lambda>_ (m, s). Ret () (m, s\<lparr>own_host_data := False\<rparr>))
        else Ret () ms)
       (\<lambda>_ (m, s).
          if dev_ptr s \<noteq> 0 \<and> own_dev_data s
          then free_dev_or_fail rt (m, s) (\<lambda>(m, s). Ret True (m, s\<lparr>own_dev_data := False\<rparr>))
          else Ret True (m, s))"

subsection \<open>Moving the current copy\<close>

definition malloc_host :: "sm_state \<Rightarrow> sm_state" where
  "malloc_host ms =
     (let (m, s) = ms; (p, m') = malloc (mem_size s) m in (m', s\<lparr>host_ptr := p, own_host_data := True\<rparr>))"

definition alloc_dev :: "cnrt \<Rightarrow> sm_state \<Rightarrow> (sm_state, unit) run" where
  "alloc_dev rt ms =
     call_then (on_mach (AllocMlu rt (mem_size (snd ms))) ms)
       (\<lambda>p (m, s). Ret () (m, s\<lparr>dev_ptr := p, own_dev_data := True\<rparr>))"

definition set_head :: "CNSyncHead \<Rightarrow> sm_state \<Rightarrow> sm_state" where
  "set_head h ms = (fst ms, (snd ms)\<lparr>head := h\<rparr>)"

definition to_cpu :: "cnrt \<Rightarrow> sm_state \<Rightarrow> (sm_state, unit) run" where
  "to_cpu rt ms =
     (case head (snd ms) of
        GST_SYNCHEAD_UNINITIALIZED \<Rightarrow> Ret () (set_head GST_SYNCHEAD_AT_CPU (malloc_host ms))
      | GST_SYNCHEAD_AT_MLU \<Rightarrow>
          (let ms1 = (if host_ptr (snd ms) = 0 then malloc_host ms else ms)
           in call_then (on_mach (MemcpyD2H rt (host_ptr (snd ms1)) (dev_ptr (snd ms1)) (mem_size (snd ms1))) ms1)
                (\<lambda>_ ms2. Ret () (set_head GST_SYNCHEAD_SYNCED ms2)))
      | GST_SYNCHEAD_AT_CPU \<Rightarrow> Ret () ms
      | GST_SYNCHEAD_SYNCED \<Rightarrow> Ret () ms)"

definition to_mlu :: "cnrt \<Rightarrow> sm_state \<Rightarrow> (sm_state, unit) run" where
  "to_mlu rt ms =
     (case head (snd ms) of
        GST_SYNCHEAD_UNINITIALIZED \<Rightarrow>
          call_then (alloc_dev rt ms) (\<lambda>_ ms1. Ret () (set_head GST_SYNCHEAD_AT_MLU ms1))
      | GST_SYNCHEAD_AT_CPU \<Rightarrow>
          call_then (if dev_ptr (snd ms) = 0 then alloc_dev rt ms else Ret () ms)
            (\<lambda>_ ms1. call_then
               (on_mach (MemcpyH2D rt (dev_ptr (snd ms1)) (host_ptr (snd ms1)) (mem_size (snd ms1))) ms1)
               (\<lambda>_ ms2. Ret () (set_head GST_SYNCHEAD_SYNCED ms2)))
      | GST_SYNCHEAD_AT_MLU \<Rightarrow> Ret () ms
      | GST_SYNCHEAD_SYNCED \<Rightarrow> Ret () ms)"

subsection \<open>Getters and setters\<close>

definition cn_syncedmem_get_host_data :: "cnrt \<Rightarrow> sm_state \<Rightarrow> (sm_state, addr) run" where
  "cn_syncedmem_get_host_data rt ms = call_then (to_cpu rt ms) (\<lambda>_ ms1. Ret (host_ptr (snd ms1)) ms1)"

definition cn_syncedmem_get_dev_data :: "cnrt \<Rightarrow> sm_state \<Rightarrow> (sm_state, addr) run" where
  "cn_syncedmem_get_dev_data rt ms = call_then (to_mlu rt ms) (\<lambda>_ ms1. Ret (dev_ptr (snd ms1)) ms1)"

definition cn_syncedmem_get_mutable_host_data :: "cnrt \<Rightarrow> sm_state \<Rightarrow> (sm_state, addr) run" where
  "cn_syncedmem_get_mutable_host_data rt ms =
     call_then (to_cpu rt ms) (\<lambda>_ ms1. Ret (host_ptr (snd ms1)) (set_head GST_SYNCHEAD_AT_CPU ms1))"

definition cn_syncedmem_get_mutable_dev_data :: "cnrt \<Rightarrow> sm_state \<Rightarrow> (sm_state, addr) run" where
  "cn_syncedmem_get_mutable_dev_data rt ms =
     call_then (to_mlu rt ms) (\<lambda>_ ms1. Ret (dev_ptr (snd ms1)) (set_head GST_SYNCHEAD_AT_MLU ms1))"

definition cn_syncedmem_set_host_data :: "addr \<Rightarrow> sm_state \<Rightarrow> (sm_state, bool) run" where
  "cn_syncedmem_set_host_data data ms =
     (if data = 0 then Ret False (fst ms, set_err ''data is NULL.'' (snd ms))
      else call_then
             (if own_host_data (snd ms) then on_mach (free (host_ptr (snd ms))) ms else Ret () ms)
             (\<lambda>_ (m, s). Ret True (m, s\<lparr>host_ptr := data, head := GST_SYNCHEAD_AT_CPU, own_host_data := False\<rparr>)))"

definition cn_syncedmem_set_dev_data :: "cnrt \<Rightarrow> addr \<Rightarrow> sm_state \<Rightarrow> (sm_state, bool) run" where
  "cn_syncedmem_set_dev_data rt data ms =
     (if data = 0 then Ret False (fst ms, set_err ''data is NULL.'' (snd ms))
      else (let fin = (\<lambda>(m, s). Ret True (m, s\<lparr>dev_ptr := data, head := GST_SYNCHEAD_AT_MLU, own_dev_data := False\<rparr>))
            in if own_dev_data (snd ms) then free_dev_or_fail rt ms fin else fin ms))"

text \<open>
  \<open>check\<close> is \<open>MluContext::CheckDeviceId\<close>, whose answer comes from the driver. The channel is
  checked and then dropped.
\<close>

definition cn_syncedmem_set_device_context ::
    "(int \<Rightarrow> bool) \<Rightarrow> int \<Rightarrow> int \<Rightarrow> GstSyncedMemory \<Rightarrow> bool \<times> GstSyncedMemory" where
  "cn_syncedmem_set_device_context check dev_id ddr_chn s =
     (if \<not> check dev_id then (False, set_err (''Cannot find device '' @ int_to_string dev_id) s)
      else if ddr_chn < 0 \<or> ddr_chn \<ge> 4
           then (False, set_err (''Invalid ddr channel [0,4) : '' @ int_to_string ddr_chn) s)
      else (True, s\<lparr>ctx_dev_id := dev_id\<rparr>))"

definition cn_syncedmem_get_dev_id :: "GstSyncedMemory \<Rightarrow> int" where
  "cn_syncedmem_get_dev_id s = ctx_dev_id s"

definition cn_syncedmem_get_last_errmsg :: "GstSyncedMemory \<Rightarrow> string" where
  "cn_syncedmem_get_last_errmsg s = err_msg s"

definition cn_syncedmem_get_head :: "GstSyncedMemory \<Rightarrow> CNSyncHead" where
  "cn_syncedmem_get_head s = head s"

definition cn_syncedmem_get_size :: "GstSyncedMemory \<Rightarrow> nat" where
  "cn_syncedmem_get_size s = mem_size s"

lemmas sm_ops =
  cn_syncedmem_get_host_data_def cn_syncedmem_get_dev_data_def
  cn_syncedmem_get_mutable_host_data_def cn_syncedmem_get_mutable_dev_data_def
  on_mach_def alloc_dev_def set_head_def


subsection \<open>Well-formedness and the logical contents\<close>

definition blk_ok :: "(addr \<Rightarrow> u8 list option) \<Rightarrow> addr \<Rightarrow> nat \<Rightarrow> bool" where
  "blk_ok mem p n \<longleftrightarrow> p \<noteq> 0 \<and> (case mem p of None \<Rightarrow> False | Some b \<Rightarrow> n \<le> length b)"

definition bytes_at :: "(addr \<Rightarrow> u8 list option) \<Rightarrow> addr \<Rightarrow> nat \<Rightarrow> u8 list" where
  "bytes_at mem p n = (case mem p of None \<Rightarrow> [] | Some b \<Rightarrow> take n b)"

text \<open>
  The pointers are null or live blocks of at least \<open>mem_size\<close> bytes, an owned pointer is not
  null, the head names a side whose pointer is not null, and two synchronised sides agree.
\<close>

definition sm_wf :: "sm_state \<Rightarrow> bool" where
  "sm_wf ms \<longleftrightarrow> (case ms of (m, s) \<Rightarrow>
     mach_ok m \<and> 0 < mem_size s \<and>
     (host_ptr s \<noteq> 0 \<longrightarrow> blk_ok (hmem m) (host_ptr s) (mem_size s)) \<and>
     (dev_ptr s \<noteq> 0 \<longrightarrow> blk_ok (dmem m) (dev_ptr s) (mem_size s)) \<and>
     (own_host_data s \<longrightarrow> host_ptr s \<noteq> 0) \<and> (own_dev_data s \<longrightarrow> dev_ptr s \<noteq> 0) \<and>
     (head s = GST_SYNCHEAD_UNINITIALIZED \<longrightarrow> host_ptr s = 0 \<and> dev_ptr s = 0) \<and>
     (head s = GST_SYNCHEAD_AT_CPU \<longrightarrow> host_ptr s \<noteq> 0) \<and>
     (head s = GST_SYNCHEAD_AT_MLU \<longrightarrow> dev_ptr s \<noteq> 0) \<and>
     (head s = GST_SYNCHEAD_SYNCED \<longrightarrow> host_ptr s \<noteq> 0 \<and> dev_ptr s \<noteq> 0 \<and>
        bytes_at (hmem m) (host_ptr s) (mem_size s) = bytes_at (dmem m) (dev_ptr s) (mem_size s)))"

definition content :: "sm_state \<Rightarrow> u8 list option" where
  "content ms = (case ms of (m, s) \<Rightarrow>
     case head s of
       GST_SYNCHEAD_UNINITIALIZED \<Rightarrow> None
     | GST_SYNCHEAD_AT_MLU \<Rightarrow> Some (bytes_at (dmem m) (dev_ptr s) (mem_size s))
     | _ \<Rightarrow> Some (bytes_at (hmem m) (host_ptr s) (mem_size s)))"

text \<open>The host allocation that reading the host side may need has room.\<close>

definition host_room :: "sm_state \<Rightarrow> bool" where
  "host_room ms \<longleftrightarrow> host_ptr (snd ms) = 0 \<longrightarrow> mem_size (snd ms) \<le> hfree (fst ms)"

text \<open>
  Every live block of the memories other than the two copies of the object is as it was, and a
  device memory with finitely many blocks keeps finitely many.
\<close>

definition sm_frame :: "sm_state \<Rightarrow> sm_state \<Rightarrow> bool" where
  "sm_frame ms ms' \<longleftrightarrow> (case (ms, ms') of ((m, s), (m', s')) \<Rightarrow>
     mem_size s' = mem_size s \<and> ctx_dev_id s' = ctx_dev_id s \<and>
     (finite (dom (dmem m)) \<longrightarrow> finite (dom (dmem m'))) \<and>
     (\<forall>a b. hmem m a = Some b \<longrightarrow> a \<noteq> host_ptr s \<longrightarrow> hmem m' a = Some b) \<and>
     (\<forall>a b. dmem m a = Some b \<longrightarrow> a \<noteq> dev_ptr s \<longrightarrow> dmem m' a = Some b))"

definition sm_effect :: "sm_state \<Rightarrow> (sm_state, 'a) run \<Rightarrow> ('a \<Rightarrow> sm_state \<Rightarrow> bool) \<Rightarrow> bool" where
  "sm_effect ms r P \<longleftrightarrow>
     (case r of
        Ret a ms' \<Rightarrow> sm_wf ms' \<and> sm_frame ms ms' \<and> P a ms'
      | Exc e ms' \<Rightarrow> ErrorCode e = MEMORY \<and> sm_wf ms' \<and> sm_frame ms ms' \<and> content ms' = content ms
      | _ \<Rightarrow> False)"

lemma sm_effect_simps [simp]:
  "sm_effect ms (Ret a ms') P \<longleftrightarrow> sm_wf ms' \<and> sm_frame ms ms' \<and> P a ms'"
  "sm_effect ms (Exc e ms') P \<longleftrightarrow>
     ErrorCode e = MEMORY \<and> sm_wf ms' \<and> sm_frame ms ms' \<and> content ms' = content ms"
  "\<not> sm_effect ms UB P" "\<not> sm_effect ms Terminate P" "\<not> sm_effect ms (Blocked t) P"
  by (simp_all add: sm_effect_def)

lemma sm_effect_mono: "sm_effect ms r P \<Longrightarrow> (\<And>a t. P a t \<Longrightarrow> Q a t) \<Longrightarrow> sm_effect ms r Q"
  by (cases r) auto

lemma sm_effect_not_UB: "sm_effect ms r P \<Longrightarrow> r \<noteq> UB"
  by auto

lemma sm_effect_RetD: "sm_effect ms r P \<Longrightarrow> r = Ret a ms' \<Longrightarrow> sm_wf ms' \<and> sm_frame ms ms' \<and> P a ms'"
  by simp

lemma blk_okE:
  assumes "blk_ok mem p n"
  obtains b where "mem p = Some b" "n \<le> length b" "p \<noteq> 0"
  using assms by (auto simp: blk_ok_def split: option.splits)

lemma sm_frame_refl [simp]: "sm_frame ms ms"
  by (simp add: sm_frame_def split: prod.splits)

lemma blk_ok_iff: "blk_ok mem p n \<longleftrightarrow> p \<noteq> 0 \<and> (\<exists>b. mem p = Some b \<and> n \<le> length b)"
  by (auto simp: blk_ok_def split: option.splits)

lemma bytes_at_Some [simp]: "mem p = Some b \<Longrightarrow> bytes_at mem p n = take n b"
  by (simp add: bytes_at_def)

lemma bytes_at_upd: "bytes_at (mem(p := c)) q n = (if q = p then (case c of None \<Rightarrow> [] | Some b \<Rightarrow> take n b) else bytes_at mem q n)"
  by (simp add: bytes_at_def)

lemmas sm_defs = sm_wf_def content_def sm_frame_def blk_ok_iff bytes_at_upd mach_ok_def host_room_def

definition fresh_or_same :: "sm_state \<Rightarrow> sm_state \<Rightarrow> bool" where
  "fresh_or_same ms ms1 \<longleftrightarrow>
     (host_ptr (snd ms1) = host_ptr (snd ms) \<or> hmem (fst ms) (host_ptr (snd ms1)) = None) \<and>
     (dev_ptr (snd ms1) = dev_ptr (snd ms) \<or> dmem (fst ms) (dev_ptr (snd ms1)) = None)"

lemma fresh_or_same_refl [simp]: "fresh_or_same ms ms"
  by (simp add: fresh_or_same_def)

lemma sm_frame_trans:
  assumes "sm_frame ms ms1" and "sm_frame ms1 ms2" and "fresh_or_same ms ms1"
  shows "sm_frame ms ms2"
  using assms by (cases ms; cases ms1; cases ms2) (fastforce simp: sm_frame_def fresh_or_same_def)

lemma sm_effect_from:
  assumes "sm_effect ms1 r P" and "sm_frame ms ms1" and "fresh_or_same ms ms1" and "content ms1 = content ms"
    and "\<And>a t. P a t \<Longrightarrow> Q a t"
  shows "sm_effect ms r Q"
  using assms by (cases r) (auto dest: sm_frame_trans)

lemma cn_syncedmem_new_wf:
  "mach_ok m \<Longrightarrow> cn_syncedmem_new n = Some s \<Longrightarrow> sm_wf (m, s) \<and> content (m, s) = None \<and> mem_size s = n"
  by (auto simp: cn_syncedmem_new_def sm_wf_def content_def split: if_splits)

subsection \<open>Effect of each operation\<close>

lemma malloc_host_room:
  assumes "mem_size s \<le> hfree m"
  shows "malloc_host (m, s) =
     (m\<lparr>hmem := (hmem m)(hnext m := Some (replicate (mem_size s) (hjunk m))),
        hfree := hfree m - mem_size s, hnext := Suc (hnext m)\<rparr>,
      s\<lparr>host_ptr := hnext m, own_host_data := True\<rparr>)"
  using assms by (simp add: malloc_host_def malloc_def)

lemma mach_ok_dmem_upd [simp]: "mach_ok m \<Longrightarrow> p \<noteq> 0 \<Longrightarrow> mach_ok (m\<lparr>dmem := (dmem m)(p := b)\<rparr>)"
  by (simp add: mach_ok_def)

lemma mach_ok_hmem_upd [simp]: "mach_ok m \<Longrightarrow> hmem m p = Some c \<Longrightarrow> mach_ok (m\<lparr>hmem := (hmem m)(p := b)\<rparr>)"
  by (auto simp: mach_ok_def)

lemma malloc_host_wf:
  assumes "sm_wf ms" and "host_ptr (snd ms) = 0" and "mem_size (snd ms) \<le> hfree (fst ms)"
    and "head (snd ms) \<noteq> GST_SYNCHEAD_UNINITIALIZED"
  shows "sm_wf (malloc_host ms)" and "sm_frame ms (malloc_host ms)" and "content (malloc_host ms) = content ms"
    and "host_ptr (snd (malloc_host ms)) \<noteq> 0" and "fresh_or_same ms (malloc_host ms)"
    and "head (snd (malloc_host ms)) = head (snd ms)" and "mem_size (snd (malloc_host ms)) = mem_size (snd ms)"
proof -
  obtain m s where ms: "ms = (m, s)" by (cases ms)
  note eq = malloc_host_room [of s m]
  show "sm_wf (malloc_host ms)" "sm_frame ms (malloc_host ms)" "content (malloc_host ms) = content ms"
    "host_ptr (snd (malloc_host ms)) \<noteq> 0" "fresh_or_same ms (malloc_host ms)"
    "head (snd (malloc_host ms)) = head (snd ms)" "mem_size (snd (malloc_host ms)) = mem_size (snd ms)"
    using assms by (auto simp: ms eq sm_defs fresh_or_same_def split: CNSyncHead.splits)
qed

lemma d2h_effect:
  assumes rt: "cnrt_ok rt" and wf: "sm_wf ms" and hd: "head (snd ms) = GST_SYNCHEAD_AT_MLU"
    and hp: "host_ptr (snd ms) \<noteq> 0"
  shows "sm_effect ms
     (call_then (on_mach (MemcpyD2H rt (host_ptr (snd ms)) (dev_ptr (snd ms)) (mem_size (snd ms))) ms)
        (\<lambda>_ ms2. Ret () (set_head GST_SYNCHEAD_SYNCED ms2)))
     (\<lambda>_ ms'. head (snd ms') = GST_SYNCHEAD_SYNCED \<and> content ms' = content ms)"
proof -
  obtain m s where ms: "ms = (m, s)" by (cases ms)
  from wf hp obtain hb where hb: "hmem m (host_ptr s) = Some hb" "mem_size s \<le> length hb"
    by (auto simp: ms sm_wf_def elim: blk_okE)
  from wf hd obtain db where db: "dmem m (dev_ptr s) = Some db" "mem_size s \<le> length db" "dev_ptr s \<noteq> 0"
    by (auto simp: ms sm_wf_def elim: blk_okE)
  show ?thesis
  proof (rule MemcpyD2H_cases [OF rt hb(1) db(1) db(2) hb(2)], goal_cases)
    case 1
    then show ?case using wf hd hp hb db
      by (auto simp: ms on_mach_def set_head_def sm_defs copy_into_full)
  next
    case (2 e)
    then show ?case using wf by (simp add: ms on_mach_def)
  qed
qed

lemma to_cpu_effect:
  assumes rt: "cnrt_ok rt" and wf: "sm_wf ms" and room: "host_room ms"
  shows "sm_effect ms (to_cpu rt ms)
     (\<lambda>_ ms'. head (snd ms') \<in> {GST_SYNCHEAD_AT_CPU, GST_SYNCHEAD_SYNCED} \<and>
              (content ms \<noteq> None \<longrightarrow> content ms' = content ms))"
proof (cases "head (snd ms)")
  case GST_SYNCHEAD_UNINITIALIZED
  with wf room show ?thesis
    by (cases ms) (auto simp: to_cpu_def malloc_host_room set_head_def sm_defs)
next
  case GST_SYNCHEAD_AT_CPU
  with wf show ?thesis by (simp add: to_cpu_def)
next
  case GST_SYNCHEAD_SYNCED
  with wf show ?thesis by (simp add: to_cpu_def)
next
  case GST_SYNCHEAD_AT_MLU
  define ms1 where "ms1 = (if host_ptr (snd ms) = 0 then malloc_host ms else ms)"
  have ms1: "sm_wf ms1" "sm_frame ms ms1" "content ms1 = content ms" "host_ptr (snd ms1) \<noteq> 0"
    "head (snd ms1) = GST_SYNCHEAD_AT_MLU" and fos: "fresh_or_same ms ms1"
    using GST_SYNCHEAD_AT_MLU wf room malloc_host_wf [OF wf]
    by (auto simp: ms1_def host_room_def)
  have "sm_effect ms1 (to_cpu rt ms)
     (\<lambda>_ ms'. head (snd ms') = GST_SYNCHEAD_SYNCED \<and> content ms' = content ms1)"
    using d2h_effect [OF rt ms1(1) ms1(5) ms1(4)] GST_SYNCHEAD_AT_MLU
    by (simp add: to_cpu_def ms1_def Let_def)
  then show ?thesis
    by (rule sm_effect_from) (use ms1 fos in auto)
qed

definition host_side_same :: "sm_state \<Rightarrow> sm_state \<Rightarrow> bool" where
  "host_side_same ms ms' \<longleftrightarrow>
     hfree (fst ms') = hfree (fst ms) \<and> host_ptr (snd ms') = host_ptr (snd ms) \<and> hmem (fst ms') = hmem (fst ms) \<and>
     own_host_data (snd ms') = own_host_data (snd ms)"

lemma alloc_dev_cases:
  assumes rt: "cnrt_ok rt"
  obtains (ok) p b where "alloc_dev rt (m, s) =
       Ret () (m\<lparr>dmem := (dmem m)(p := Some b)\<rparr>, s\<lparr>dev_ptr := p, own_dev_data := True\<rparr>)"
      "length b = mem_size s" "p \<noteq> 0" "dmem m p = None"
    | (exc) e where "alloc_dev rt (m, s) = Exc e (m, s)" "ErrorCode e = MEMORY"
proof (rule AllocMlu_cases [OF rt, of "mem_size s" m], goal_cases)
  case (1 p b)
  then show ?case by (intro ok [of p b]) (simp_all add: alloc_dev_def on_mach_def)
next
  case (2 e)
  then show ?case by (intro exc [of e]) (simp_all add: alloc_dev_def on_mach_def)
qed

lemma h2d_effect:
  assumes rt: "cnrt_ok rt" and wf: "sm_wf ms" and hd: "head (snd ms) = GST_SYNCHEAD_AT_CPU"
    and dp: "dev_ptr (snd ms) \<noteq> 0"
  shows "sm_effect ms
     (call_then (on_mach (MemcpyH2D rt (dev_ptr (snd ms)) (host_ptr (snd ms)) (mem_size (snd ms))) ms)
        (\<lambda>_ ms2. Ret () (set_head GST_SYNCHEAD_SYNCED ms2)))
     (\<lambda>_ ms'. head (snd ms') = GST_SYNCHEAD_SYNCED \<and> content ms' = content ms \<and> host_side_same ms ms')"
proof -
  obtain m s where ms: "ms = (m, s)" by (cases ms)
  from wf dp obtain db where db: "dmem m (dev_ptr s) = Some db" "mem_size s \<le> length db"
    by (auto simp: ms sm_wf_def elim: blk_okE)
  from wf hd obtain hb where hb: "hmem m (host_ptr s) = Some hb" "mem_size s \<le> length hb" "host_ptr s \<noteq> 0"
    by (auto simp: ms sm_wf_def elim: blk_okE)
  show ?thesis
  proof (rule MemcpyH2D_cases [OF rt db(1) hb(1) db(2) hb(2)], goal_cases)
    case 1
    then show ?case using wf hd dp hb db
      by (auto simp: ms on_mach_def set_head_def sm_defs copy_into_full host_side_same_def)
  next
    case (2 e)
    then show ?case using wf by (simp add: ms on_mach_def)
  qed
qed

lemma alloc_dev_effect:
  assumes rt: "cnrt_ok rt" and wf: "sm_wf ms" and hd: "head (snd ms) = GST_SYNCHEAD_AT_CPU"
    and dp: "dev_ptr (snd ms) = 0"
  shows "sm_effect ms (alloc_dev rt ms)
     (\<lambda>_ ms'. head (snd ms') = GST_SYNCHEAD_AT_CPU \<and> dev_ptr (snd ms') \<noteq> 0 \<and>
              fresh_or_same ms ms' \<and> content ms' = content ms \<and> host_side_same ms ms')"
proof -
  obtain m s where ms: "ms = (m, s)" by (cases ms)
  show ?thesis
  proof (rule alloc_dev_cases [OF rt, of m s], goal_cases)
    case (1 p b)
    then show ?case using wf hd dp by (auto simp: ms sm_defs fresh_or_same_def host_side_same_def)
  next
    case (2 e)
    then show ?case using wf by (simp add: ms)
  qed
qed

lemma to_mlu_effect:
  assumes rt: "cnrt_ok rt" and wf: "sm_wf ms"
  shows "sm_effect ms (to_mlu rt ms)
     (\<lambda>_ ms'. head (snd ms') \<in> {GST_SYNCHEAD_AT_MLU, GST_SYNCHEAD_SYNCED} \<and>
              (content ms \<noteq> None \<longrightarrow> content ms' = content ms) \<and> host_side_same ms ms')"
proof (cases "head (snd ms)")
  case GST_SYNCHEAD_UNINITIALIZED
  obtain m s where ms: "ms = (m, s)" by (cases ms)
  show ?thesis
  proof (rule alloc_dev_cases [OF rt, of m s], goal_cases)
    case (1 p b)
    then show ?case using wf GST_SYNCHEAD_UNINITIALIZED
      by (auto simp: ms to_mlu_def set_head_def sm_defs host_side_same_def)
  next
    case (2 e)
    then show ?case using wf GST_SYNCHEAD_UNINITIALIZED by (simp add: ms to_mlu_def)
  qed
next
  case GST_SYNCHEAD_AT_MLU
  with wf show ?thesis by (simp add: to_mlu_def host_side_same_def)
next
  case GST_SYNCHEAD_SYNCED
  with wf show ?thesis by (simp add: to_mlu_def host_side_same_def)
next
  case hd: GST_SYNCHEAD_AT_CPU
  show ?thesis
  proof (cases "dev_ptr (snd ms) = 0")
    case False
    have "sm_effect ms (to_mlu rt ms)
       (\<lambda>_ ms'. head (snd ms') = GST_SYNCHEAD_SYNCED \<and> content ms' = content ms \<and> host_side_same ms ms')"
      using h2d_effect [OF rt wf hd False] hd False by (simp add: to_mlu_def)
    then show ?thesis by (rule sm_effect_from) auto
  next
    case True
    note al = alloc_dev_effect [OF rt wf hd True]
    show ?thesis
    proof (cases "alloc_dev rt ms")
      case (Ret a ms1)
      with al have ms1: "sm_wf ms1" "sm_frame ms ms1" "head (snd ms1) = GST_SYNCHEAD_AT_CPU"
        "dev_ptr (snd ms1) \<noteq> 0" "fresh_or_same ms ms1" "content ms1 = content ms"
        "host_side_same ms ms1" by auto
      have "sm_effect ms1 (to_mlu rt ms)
         (\<lambda>_ ms'. head (snd ms') = GST_SYNCHEAD_SYNCED \<and> content ms' = content ms1 \<and> host_side_same ms1 ms')"
        using h2d_effect [OF rt ms1(1) ms1(3) ms1(4)] hd True Ret by (simp add: to_mlu_def)
      then show ?thesis by (rule sm_effect_from) (use ms1 in \<open>auto simp: host_side_same_def\<close>)
    next
      case (Exc e ms1)
      with al hd True show ?thesis by (simp add: to_mlu_def)
    qed (use al in simp_all)
  qed
qed

lemma sm_effect_then:
  assumes "sm_effect ms r P" and "\<And>a ms1. P a ms1 \<Longrightarrow> sm_wf ms1 \<Longrightarrow> sm_frame ms ms1 \<Longrightarrow> sm_effect ms (k a ms1) Q"
  shows "sm_effect ms (call_then r k) Q"
  using assms by (cases r) auto

lemma to_cpu_host_ptr:
  "sm_wf ms1 \<Longrightarrow> head (snd ms1) \<in> {GST_SYNCHEAD_AT_CPU, GST_SYNCHEAD_SYNCED} \<Longrightarrow>
   0 < host_ptr (snd ms1) \<and> content ms1 = Some (bytes_at (hmem (fst ms1)) (host_ptr (snd ms1)) (mem_size (snd ms1)))"
  by (cases ms1) (auto simp: sm_wf_def content_def)

lemma to_mlu_dev_ptr:
  "sm_wf ms1 \<Longrightarrow> head (snd ms1) \<in> {GST_SYNCHEAD_AT_MLU, GST_SYNCHEAD_SYNCED} \<Longrightarrow>
   0 < dev_ptr (snd ms1) \<and> content ms1 = Some (bytes_at (dmem (fst ms1)) (dev_ptr (snd ms1)) (mem_size (snd ms1)))"
  by (cases ms1) (auto simp: sm_wf_def content_def)

lemma get_host_effect:
  assumes "cnrt_ok rt" and "sm_wf ms" and "host_room ms"
  shows "sm_effect ms (cn_syncedmem_get_host_data rt ms)
     (\<lambda>p ms'. p = host_ptr (snd ms') \<and> p \<noteq> 0 \<and>
        content ms' = Some (bytes_at (hmem (fst ms')) p (mem_size (snd ms'))) \<and>
        (content ms \<noteq> None \<longrightarrow> content ms' = content ms))"
  unfolding cn_syncedmem_get_host_data_def
  by (rule sm_effect_then [OF to_cpu_effect [OF assms]]) (use to_cpu_host_ptr in \<open>auto; metis\<close>)

lemma get_dev_effect:
  assumes "cnrt_ok rt" and "sm_wf ms"
  shows "sm_effect ms (cn_syncedmem_get_dev_data rt ms)
     (\<lambda>p ms'. p = dev_ptr (snd ms') \<and> p \<noteq> 0 \<and>
        content ms' = Some (bytes_at (dmem (fst ms')) p (mem_size (snd ms'))) \<and>
        (content ms \<noteq> None \<longrightarrow> content ms' = content ms) \<and> host_side_same ms ms')"
  unfolding cn_syncedmem_get_dev_data_def
  by (rule sm_effect_then [OF to_mlu_effect [OF assms]]) (use to_mlu_dev_ptr in \<open>auto; metis\<close>)

lemma set_head_wf:
  assumes "sm_wf ms"
  shows "head (snd ms) \<in> {GST_SYNCHEAD_AT_CPU, GST_SYNCHEAD_SYNCED} \<Longrightarrow> sm_wf (set_head GST_SYNCHEAD_AT_CPU ms)"
    and "head (snd ms) \<in> {GST_SYNCHEAD_AT_MLU, GST_SYNCHEAD_SYNCED} \<Longrightarrow> sm_wf (set_head GST_SYNCHEAD_AT_MLU ms)"
  using assms by (cases ms; auto simp: sm_wf_def set_head_def)+

lemma set_head_sel [simp]:
  "fst (set_head h ms) = fst ms" "host_ptr (snd (set_head h ms)) = host_ptr (snd ms)"
  "dev_ptr (snd (set_head h ms)) = dev_ptr (snd ms)" "mem_size (snd (set_head h ms)) = mem_size (snd ms)"
  "head (snd (set_head h ms)) = h" "own_host_data (snd (set_head h ms)) = own_host_data (snd ms)"
  "own_dev_data (snd (set_head h ms)) = own_dev_data (snd ms)"
  by (simp_all add: set_head_def)

lemma sm_frame_set_head [simp]: "sm_frame ms (set_head h ms1) \<longleftrightarrow> sm_frame ms ms1"
  by (cases ms; cases ms1) (simp add: sm_frame_def set_head_def)

lemma content_set_head [simp]:
  "content (set_head GST_SYNCHEAD_AT_CPU ms) = Some (bytes_at (hmem (fst ms)) (host_ptr (snd ms)) (mem_size (snd ms)))"
  "content (set_head GST_SYNCHEAD_AT_MLU ms) = Some (bytes_at (dmem (fst ms)) (dev_ptr (snd ms)) (mem_size (snd ms)))"
  by (simp_all add: content_def set_head_def split: prod.splits)

lemma get_mutable_host_effect:
  assumes "cnrt_ok rt" and "sm_wf ms" and "host_room ms"
  shows "sm_effect ms (cn_syncedmem_get_mutable_host_data rt ms)
     (\<lambda>p ms'. p = host_ptr (snd ms') \<and> p \<noteq> 0 \<and> head (snd ms') = GST_SYNCHEAD_AT_CPU \<and>
        (content ms \<noteq> None \<longrightarrow> content ms' = content ms))"
  unfolding cn_syncedmem_get_mutable_host_data_def
  by (rule sm_effect_then [OF to_cpu_effect [OF assms]])
    (use to_cpu_host_ptr set_head_wf(1) in \<open>auto; metis\<close>)

lemma get_mutable_dev_effect:
  assumes "cnrt_ok rt" and "sm_wf ms"
  shows "sm_effect ms (cn_syncedmem_get_mutable_dev_data rt ms)
     (\<lambda>p ms'. p = dev_ptr (snd ms') \<and> p \<noteq> 0 \<and> head (snd ms') = GST_SYNCHEAD_AT_MLU \<and>
        (content ms \<noteq> None \<longrightarrow> content ms' = content ms) \<and> host_side_same ms ms')"
  unfolding cn_syncedmem_get_mutable_dev_data_def
  by (rule sm_effect_then [OF to_mlu_effect [OF assms]])
    (use to_mlu_dev_ptr set_head_wf(2) in \<open>auto simp: host_side_same_def; metis\<close>)

subsection \<open>Client accesses and the two-sided contract\<close>

text \<open>
  A client reads through the pointer of a getter, and writes \<open>mem_size\<close> bytes through the pointer
  of a mutable getter.
\<close>

definition run_value :: "('s, 'a) run \<Rightarrow> ('s \<times> 'a) option" where
  "run_value r = (case r of Ret a s \<Rightarrow> Some (s, a) | _ \<Rightarrow> None)"

definition store_bytes :: "(addr \<Rightarrow> u8 list option) \<Rightarrow> addr \<Rightarrow> u8 list \<Rightarrow> (addr \<Rightarrow> u8 list option)" where
  "store_bytes mem p bs = (case mem p of None \<Rightarrow> mem | Some b \<Rightarrow> mem(p := Some (copy_into b 0 bs (length bs))))"

definition sm_read_host :: "cnrt \<Rightarrow> sm_state \<Rightarrow> (sm_state \<times> u8 list) option" where
  "sm_read_host rt ms =
     map_option (\<lambda>(ms', p). (ms', bytes_at (hmem (fst ms')) p (mem_size (snd ms'))))
       (run_value (cn_syncedmem_get_host_data rt ms))"

definition sm_read_dev :: "cnrt \<Rightarrow> sm_state \<Rightarrow> (sm_state \<times> u8 list) option" where
  "sm_read_dev rt ms =
     map_option (\<lambda>(ms', p). (ms', bytes_at (dmem (fst ms')) p (mem_size (snd ms'))))
       (run_value (cn_syncedmem_get_dev_data rt ms))"

definition sm_write_host :: "cnrt \<Rightarrow> u8 list \<Rightarrow> sm_state \<Rightarrow> sm_state option" where
  "sm_write_host rt bs ms =
     map_option (\<lambda>((m, s), p). (m\<lparr>hmem := store_bytes (hmem m) p bs\<rparr>, s))
       (run_value (cn_syncedmem_get_mutable_host_data rt ms))"

definition sm_write_dev :: "cnrt \<Rightarrow> u8 list \<Rightarrow> sm_state \<Rightarrow> sm_state option" where
  "sm_write_dev rt bs ms =
     map_option (\<lambda>((m, s), p). (m\<lparr>dmem := store_bytes (dmem m) p bs\<rparr>, s))
       (run_value (cn_syncedmem_get_mutable_dev_data rt ms))"

definition sm_inv :: "cnrt \<Rightarrow> sm_state \<Rightarrow> bool" where
  "sm_inv rt ms \<longleftrightarrow> cnrt_ok rt \<and> sm_wf ms \<and> host_room ms"

definition sm_fits :: "sm_state \<Rightarrow> u8 list \<Rightarrow> bool" where
  "sm_fits ms bs \<longleftrightarrow> length bs = mem_size (snd ms)"

lemma run_value_Some: "run_value r = Some (t, a) \<longleftrightarrow> r = Ret a t"
  by (auto simp: run_value_def split: outcome.splits)

lemma sm_frame_size: "sm_frame ms ms' \<Longrightarrow> mem_size (snd ms') = mem_size (snd ms)"
  by (cases ms; cases ms') (simp add: sm_frame_def)

lemma host_room_same: "host_side_same ms ms' \<Longrightarrow> sm_frame ms ms' \<Longrightarrow> host_room ms \<Longrightarrow> host_room ms'"
  using sm_frame_size [of ms ms'] by (simp add: host_side_same_def host_room_def)

lemma store_host_wf:
  assumes "sm_wf (m, s)" and "head s = GST_SYNCHEAD_AT_CPU" and "length bs = mem_size s"
  shows "sm_wf (m\<lparr>hmem := store_bytes (hmem m) (host_ptr s) bs\<rparr>, s)"
    and "content (m\<lparr>hmem := store_bytes (hmem m) (host_ptr s) bs\<rparr>, s) = Some bs"
proof -
  from assms obtain b where b: "hmem m (host_ptr s) = Some b" "mem_size s \<le> length b" "host_ptr s \<noteq> 0"
    by (auto simp: sm_wf_def elim: blk_okE)
  show "sm_wf (m\<lparr>hmem := store_bytes (hmem m) (host_ptr s) bs\<rparr>, s)"
    using assms b by (auto simp: sm_defs store_bytes_def)
  show "content (m\<lparr>hmem := store_bytes (hmem m) (host_ptr s) bs\<rparr>, s) = Some bs"
    using assms b by (simp add: content_def store_bytes_def copy_into_def bytes_at_def)
qed

lemma store_dev_wf:
  assumes "sm_wf (m, s)" and "head s = GST_SYNCHEAD_AT_MLU" and "length bs = mem_size s"
  shows "sm_wf (m\<lparr>dmem := store_bytes (dmem m) (dev_ptr s) bs\<rparr>, s)"
    and "content (m\<lparr>dmem := store_bytes (dmem m) (dev_ptr s) bs\<rparr>, s) = Some bs"
proof -
  from assms obtain b where b: "dmem m (dev_ptr s) = Some b" "mem_size s \<le> length b" "dev_ptr s \<noteq> 0"
    by (auto simp: sm_wf_def elim: blk_okE)
  show "sm_wf (m\<lparr>dmem := store_bytes (dmem m) (dev_ptr s) bs\<rparr>, s)"
    using assms b by (auto simp: sm_defs store_bytes_def)
  show "content (m\<lparr>dmem := store_bytes (dmem m) (dev_ptr s) bs\<rparr>, s) = Some bs"
    using assms b by (simp add: content_def store_bytes_def copy_into_def bytes_at_def)
qed

lemma sm_fits_frame: "sm_frame ms ms' \<Longrightarrow> sm_fits ms' = sm_fits ms"
  by (rule ext) (simp add: sm_fits_def sm_frame_size)

interpretation smb: two_sided_buffer "sm_read_host rt" "sm_read_dev rt" "sm_write_host rt" "sm_write_dev rt"
  content "sm_inv rt" sm_fits
proof (unfold_locales, goal_cases)
  case (1 s t v)
  then show ?case
    using get_host_effect [of rt s]
    by (auto simp: sm_inv_def sm_read_host_def run_value_Some sm_fits_frame host_room_def)
next
  case (2 s t v)
  then show ?case
    using get_dev_effect [of rt s]
    by (auto simp: sm_inv_def sm_read_dev_def run_value_Some sm_fits_frame host_room_same)
next
  case (3 s w t)
  then obtain m' s' where r: "cn_syncedmem_get_mutable_host_data rt s = Ret (host_ptr s') (m', s')"
    "sm_wf (m', s')" "sm_frame s (m', s')" "host_ptr s' \<noteq> 0" "head s' = GST_SYNCHEAD_AT_CPU"
    "t = (m'\<lparr>hmem := store_bytes (hmem m') (host_ptr s') w\<rparr>, s')"
    using get_mutable_host_effect [of rt s] by (auto simp: sm_inv_def sm_write_host_def run_value_Some)
  with 3 store_host_wf [of m' s' w] show ?case
    by (auto simp: sm_inv_def host_room_def sm_fits_def dest!: sm_frame_size)
next
  case (4 s w t)
  then obtain m' s' where r: "cn_syncedmem_get_mutable_dev_data rt s = Ret (dev_ptr s') (m', s')"
    "sm_wf (m', s')" "sm_frame s (m', s')" "head s' = GST_SYNCHEAD_AT_MLU" "host_side_same s (m', s')"
    "t = (m'\<lparr>dmem := store_bytes (dmem m') (dev_ptr s') w\<rparr>, s')"
    using get_mutable_dev_effect [of rt s] by (auto simp: sm_inv_def sm_write_dev_def run_value_Some)
  with 4 store_dev_wf [of m' s' w] show ?case
    by (auto simp: sm_inv_def host_room_def sm_fits_def host_side_same_def dest!: sm_frame_size)
qed

subsection \<open>With a driver that never refuses\<close>

definition sm_live_inv :: "cnrt \<Rightarrow> sm_state \<Rightarrow> bool" where
  "sm_live_inv rt ms \<longleftrightarrow> sm_inv rt ms \<and> cnrt_reliable rt \<and> finite (dom (dmem (fst ms)))"

lemma no_exc_on_mach [simp]: "no_exc (on_mach f ms) \<longleftrightarrow> no_exc (f (fst ms))"
  by (simp add: on_mach_def)

lemma alloc_dev_no_exc:
  "cnrt_reliable rt \<Longrightarrow> finite (dom (dmem (fst ms))) \<Longrightarrow> no_exc (alloc_dev rt ms)"
  by (auto simp: alloc_dev_def AllocMlu_reliable split: prod.splits)

lemma to_cpu_no_exc:
  assumes "sm_live_inv rt ms"
  shows "no_exc (to_cpu rt ms)"
proof (cases "head (snd ms)")
  case GST_SYNCHEAD_AT_MLU
  define ms1 where "ms1 = (if host_ptr (snd ms) = 0 then malloc_host ms else ms)"
  from assms have wf: "sm_wf ms" and room: "host_room ms" and rel: "cnrt_reliable rt"
    by (auto simp: sm_live_inv_def sm_inv_def)
  have wf1: "sm_wf ms1" and "host_ptr (snd ms1) \<noteq> 0" "head (snd ms1) = GST_SYNCHEAD_AT_MLU"
    using GST_SYNCHEAD_AT_MLU room malloc_host_wf [OF wf] wf by (auto simp: ms1_def host_room_def)
  then obtain hb db where "hmem (fst ms1) (host_ptr (snd ms1)) = Some hb" "dmem (fst ms1) (dev_ptr (snd ms1)) = Some db"
    by (cases ms1) (auto simp: sm_wf_def elim!: blk_okE)
  with rel have "no_exc (MemcpyD2H rt (host_ptr (snd ms1)) (dev_ptr (snd ms1)) (mem_size (snd ms1)) (fst ms1))"
    by (rule MemcpyD2H_reliable)
  then show ?thesis using GST_SYNCHEAD_AT_MLU
    by (simp add: to_cpu_def Let_def flip: ms1_def)
qed (simp_all add: to_cpu_def)

lemma to_mlu_no_exc:
  assumes "sm_live_inv rt ms"
  shows "no_exc (to_mlu rt ms)"
proof -
  from assms have wf: "sm_wf ms" and rel: "cnrt_reliable rt" and fin: "finite (dom (dmem (fst ms)))"
    and rt: "cnrt_ok rt" by (auto simp: sm_live_inv_def sm_inv_def)
  have copy: "no_exc (MemcpyH2D rt (dev_ptr (snd t)) (host_ptr (snd t)) (mem_size (snd t)) (fst t))"
    if "sm_wf t" "head (snd t) = GST_SYNCHEAD_AT_CPU" "dev_ptr (snd t) \<noteq> 0" for t
  proof -
    from that obtain hb db where "hmem (fst t) (host_ptr (snd t)) = Some hb" "dmem (fst t) (dev_ptr (snd t)) = Some db"
      by (cases t) (auto simp: sm_wf_def elim!: blk_okE)
    then show ?thesis using MemcpyH2D_reliable [OF rel] by blast
  qed
  show ?thesis
  proof (cases "head (snd ms)")
    case hd: GST_SYNCHEAD_AT_CPU
    show ?thesis
    proof (cases "dev_ptr (snd ms) = 0")
      case True
      have "sm_wf t \<and> head (snd t) = GST_SYNCHEAD_AT_CPU \<and> dev_ptr (snd t) \<noteq> 0" if "alloc_dev rt ms = Ret a t" for a t
        using alloc_dev_effect [OF rt wf hd True] that by simp
      then show ?thesis using hd True by (simp add: to_mlu_def alloc_dev_no_exc [OF rel fin] copy)
    qed (use hd wf in \<open>simp add: to_mlu_def copy\<close>)
  qed (simp_all add: to_mlu_def alloc_dev_no_exc [OF rel fin])
qed

lemma getters_return:
  assumes "sm_live_inv rt ms"
  shows "run_value (cn_syncedmem_get_host_data rt ms) \<noteq> None"
    and "run_value (cn_syncedmem_get_dev_data rt ms) \<noteq> None"
    and "run_value (cn_syncedmem_get_mutable_host_data rt ms) \<noteq> None"
    and "run_value (cn_syncedmem_get_mutable_dev_data rt ms) \<noteq> None"
proof -
  from assms have *: "cnrt_ok rt" "sm_wf ms" "host_room ms" by (auto simp: sm_live_inv_def sm_inv_def)
  obtain a t where t: "to_cpu rt ms = Ret a t"
    using to_cpu_effect [OF *] to_cpu_no_exc [OF assms] by (cases "to_cpu rt ms") auto
  obtain b u where u: "to_mlu rt ms = Ret b u"
    using to_mlu_effect [OF *(1,2)] to_mlu_no_exc [OF assms] by (cases "to_mlu rt ms") auto
  show "run_value (cn_syncedmem_get_host_data rt ms) \<noteq> None"
    "run_value (cn_syncedmem_get_dev_data rt ms) \<noteq> None"
    "run_value (cn_syncedmem_get_mutable_host_data rt ms) \<noteq> None"
    "run_value (cn_syncedmem_get_mutable_dev_data rt ms) \<noteq> None"
    by (simp_all add: sm_ops t u run_value_def)
qed

lemma finite_dom_store [simp]: "finite (dom (store_bytes mem p bs)) \<longleftrightarrow> finite (dom mem)"
  by (auto simp: store_bytes_def split: option.splits)

lemma sm_frame_finite: "sm_frame ms ms' \<Longrightarrow> finite (dom (dmem (fst ms))) \<Longrightarrow> finite (dom (dmem (fst ms')))"
  by (cases ms; cases ms') (simp add: sm_frame_def)

lemma access_finite:
  assumes "sm_inv rt ms" and "finite (dom (dmem (fst ms)))"
  shows "sm_read_host rt ms = Some (t, v) \<Longrightarrow> finite (dom (dmem (fst t)))"
    and "sm_read_dev rt ms = Some (t, v) \<Longrightarrow> finite (dom (dmem (fst t)))"
    and "sm_write_host rt w ms = Some t \<Longrightarrow> finite (dom (dmem (fst t)))"
    and "sm_write_dev rt w ms = Some t \<Longrightarrow> finite (dom (dmem (fst t)))"
proof -
  from assms have *: "cnrt_ok rt" "sm_wf ms" "host_room ms" by (auto simp: sm_inv_def)
  note fin = sm_frame_finite [OF _ assms(2)]
  show "finite (dom (dmem (fst t)))" if "sm_read_host rt ms = Some (t, v)"
    using that get_host_effect [OF *] by (intro fin) (auto simp: sm_read_host_def run_value_Some)
  show "finite (dom (dmem (fst t)))" if "sm_read_dev rt ms = Some (t, v)"
    using that get_dev_effect [OF *(1,2)] by (intro fin) (auto simp: sm_read_dev_def run_value_Some)
  show "finite (dom (dmem (fst t)))" if w: "sm_write_host rt w ms = Some t"
  proof -
    from w obtain m s p where r: "cn_syncedmem_get_mutable_host_data rt ms = Ret p (m, s)" "dmem (fst t) = dmem m"
      by (auto simp: sm_write_host_def run_value_Some)
    with get_mutable_host_effect [OF *] fin [of "(m, s)"] show ?thesis by simp
  qed
  show "finite (dom (dmem (fst t)))" if w: "sm_write_dev rt w ms = Some t"
  proof -
    from w obtain m s p where r: "cn_syncedmem_get_mutable_dev_data rt ms = Ret p (m, s)"
      "dmem (fst t) = store_bytes (dmem m) p w"
      by (auto simp: sm_write_dev_def run_value_Some)
    with get_mutable_dev_effect [OF *(1,2)] fin [of "(m, s)"] show ?thesis by simp
  qed
qed

lemma sm_live_invI:
  "sm_live_inv rt ms \<Longrightarrow> sm_inv rt t \<Longrightarrow> finite (dom (dmem (fst t))) \<Longrightarrow> sm_live_inv rt t"
  by (simp add: sm_live_inv_def)

lemma sm_live_invD: "sm_live_inv rt ms \<Longrightarrow> sm_inv rt ms" "sm_live_inv rt ms \<Longrightarrow> finite (dom (dmem (fst ms)))"
  by (simp_all add: sm_live_inv_def)

interpretation smr: reliable_buffer "sm_read_host rt" "sm_read_dev rt" "sm_write_host rt" "sm_write_dev rt"
  content "sm_live_inv rt" sm_fits
proof (unfold_locales, goal_cases)
  case (1 s t v)
  then show ?case
    using smb.read_host [of rt s t v] access_finite(1) [of rt s t v] by (blast dest: sm_live_invD intro: sm_live_invI)
next
  case (2 s t v)
  then show ?case
    using smb.read_dev [of rt s t v] access_finite(2) [of rt s t v] by (blast dest: sm_live_invD intro: sm_live_invI)
next
  case (3 s w t)
  then show ?case
    using smb.write_host [of rt s w t] access_finite(3) [of rt s w t] by (blast dest: sm_live_invD intro: sm_live_invI)
next
  case (4 s w t)
  then show ?case
    using smb.write_dev [of rt s w t] access_finite(4) [of rt s w t] by (blast dest: sm_live_invD intro: sm_live_invI)
next
  case (5 s)
  then show ?case using getters_return(1) [of rt s] by (simp add: sm_read_host_def)
next
  case (6 s)
  then show ?case using getters_return(2) [of rt s] by (simp add: sm_read_dev_def)
next
  case (7 s w)
  then show ?case using getters_return(3) [of rt s] by (simp add: sm_write_host_def)
next
  case (8 s w)
  then show ?case using getters_return(4) [of rt s] by (simp add: sm_write_dev_def)
qed

subsection \<open>Setters and release\<close>

lemma free_dev_ret:
  assumes rt: "cnrt_ok rt" and live: "dmem m (dev_ptr s) \<noteq> None"
  shows "\<exists>m'. free_dev_or_fail rt (m, s) k = k (m', s) \<and> hmem m' = hmem m \<and> hnext m' = hnext m \<and>
           hfree m' = hfree m \<and> (dmem m' = (dmem m)(dev_ptr s := None) \<or> m' = m)"
proof (rule FreeMlu_cases [OF rt live], goal_cases)
  case 1
  then show ?case by (intro exI [of _ "m\<lparr>dmem := (dmem m)(dev_ptr s := None)\<rparr>"]) (simp add: free_dev_or_fail_def)
next
  case 2
  then show ?case by (intro exI [of _ m]) (simp add: free_dev_or_fail_def)
qed

lemma sm_wf_live:
  assumes "sm_wf (m, s)"
  shows "own_host_data s \<Longrightarrow> \<exists>b. hmem m (host_ptr s) = Some b \<and> mem_size s \<le> length b \<and> host_ptr s \<noteq> 0"
    and "own_dev_data s \<Longrightarrow> \<exists>b. dmem m (dev_ptr s) = Some b \<and> mem_size s \<le> length b \<and> dev_ptr s \<noteq> 0"
  using assms by (auto simp: sm_wf_def blk_ok_iff)

definition demo_mach :: mach where
  "demo_mach = \<lparr>hmem = (\<lambda>_. None)(1 := Some [1, 2]), dmem = \<lambda>_. None, hfree = 64, hnext = 2, hjunk = 205\<rparr>"

definition demo_mem :: GstSyncedMemory where
  "demo_mem = \<lparr>host_ptr = 1, dev_ptr = 0, own_host_data = False, own_dev_data = False,
               head = GST_SYNCHEAD_AT_CPU, mem_size = 2, err_msg = [], ctx_dev_id = 0\<rparr>"

lemma demo_wf: "sm_wf (demo_mach, demo_mem)" "host_room (demo_mach, demo_mem)"
  "content (demo_mach, demo_mem) = Some [1, 2]" "finite (dom (dmem demo_mach))"
  by (auto simp: sm_defs demo_mach_def demo_mem_def bytes_at_def)

subsection \<open>Properties\<close>

text \<open>C1: coherence of the synchronised buffer. With a driver that keeps its contract and never
  refuses, every history of reads and writes through the host and device getters runs to its end,
  and each read on either side returns what a plain memory cell would: the value last written on
  either side. The object stays well formed.\<close>

theorem sm_history_agrees:
  assumes "sm_live_inv rt ms" and "content ms = Some v"
    and "\<forall>w \<in> set (written as). length w = mem_size (snd ms)"
  shows "\<exists>ms'. run_accesses (sm_read_host rt) (sm_read_dev rt) (sm_write_host rt) (sm_write_dev rt) ms as
                 = Some (ms', cell_reads v as) \<and>
               content ms' = Some (cell_final v as) \<and> sm_wf ms'"
proof -
  have fits: "\<forall>w \<in> set (written as). sm_fits ms w" using assms(3) by (simp add: sm_fits_def)
  from smr.run_returns [OF assms(1) fits] obtain ms' vs where
    "run_accesses (sm_read_host rt) (sm_read_dev rt) (sm_write_host rt) (sm_write_dev rt) ms as = Some (ms', vs)"
    by blast
  with smr.reads_of_holding [OF assms(1,2) fits this] show ?thesis by (simp add: sm_live_inv_def sm_inv_def)
qed

theorem sm_history_agrees_witness:
  "\<exists>ms'. run_accesses (sm_read_host (ref_cnrt next_dev_addr)) (sm_read_dev (ref_cnrt next_dev_addr))
           (sm_write_host (ref_cnrt next_dev_addr)) (sm_write_dev (ref_cnrt next_dev_addr))
           (demo_mach, demo_mem) [Read_Dev, Write_Dev [7, 8], Read_Host]
         = Some (ms', [[1, 2], [7, 8]])"
proof -
  have "sm_live_inv (ref_cnrt next_dev_addr) (demo_mach, demo_mem)"
    by (simp add: sm_live_inv_def sm_inv_def ref_cnrt_ok ref_cnrt_reliable demo_wf)
  from sm_history_agrees [OF this demo_wf(3), of "[Read_Dev, Write_Dev [7, 8], Read_Host]"]
  show ?thesis by (auto simp: demo_mem_def)
qed





text \<open>setting the host data. A null pointer is refused and changes nothing but the message.
  Any other live block of the right size becomes the current copy and what the buffer holds; the
  block the object had allocated is released, a block it did not allocate is not.\<close>

theorem sm_set_host_data:
  assumes "sm_wf (m, s)" and "blk_ok (hmem m) data (mem_size s)" and "own_host_data s \<Longrightarrow> data \<noteq> host_ptr s"
  shows "cn_syncedmem_set_host_data 0 (m, s) = Ret False (m, s\<lparr>err_msg := ''data is NULL.''\<rparr>) \<and>
         (\<exists>m'. cn_syncedmem_set_host_data data (m, s) =
                 Ret True (m', s\<lparr>host_ptr := data, head := GST_SYNCHEAD_AT_CPU, own_host_data := False\<rparr>) \<and>
               hmem m' = (if own_host_data s then (hmem m)(host_ptr s := None) else hmem m) \<and>
               sm_wf (m', s\<lparr>host_ptr := data, head := GST_SYNCHEAD_AT_CPU, own_host_data := False\<rparr>) \<and>
               content (m', s\<lparr>host_ptr := data, head := GST_SYNCHEAD_AT_CPU, own_host_data := False\<rparr>)
                 = Some (bytes_at (hmem m) data (mem_size s)))"
proof (intro conjI)
  show "cn_syncedmem_set_host_data 0 (m, s) = Ret False (m, s\<lparr>err_msg := ''data is NULL.''\<rparr>)"
    by (simp add: cn_syncedmem_set_host_data_def set_err_def SYNCMEM_ERRMSG_LENGTH_def)
next
  from assms(2) obtain b where b: "hmem m data = Some b" "mem_size s \<le> length b" "data \<noteq> 0" by (rule blk_okE)
  define m' where "m' = (if own_host_data s
     then m\<lparr>hmem := (hmem m)(host_ptr s := None), hfree := hfree m + length (the (hmem m (host_ptr s)))\<rparr> else m)"
  let ?s = "s\<lparr>host_ptr := data, head := GST_SYNCHEAD_AT_CPU, own_host_data := False\<rparr>"
  have call: "cn_syncedmem_set_host_data data (m, s) = Ret True (m', ?s)"
    using sm_wf_live(1) [OF assms(1)] b by (auto simp: cn_syncedmem_set_host_data_def m'_def on_mach_def free_def)
  have wf: "sm_wf (m', ?s)"
    using assms(1,3) b by (auto simp: sm_defs m'_def)
  have "hmem m' data = hmem m data" using assms(3) by (simp add: m'_def)
  then have "content (m', ?s) = Some (bytes_at (hmem m) data (mem_size s))"
    by (simp add: content_def bytes_at_def)
  with call wf show "\<exists>m'. cn_syncedmem_set_host_data data (m, s) = Ret True (m', ?s) \<and>
      hmem m' = (if own_host_data s then (hmem m)(host_ptr s := None) else hmem m) \<and>
      sm_wf (m', ?s) \<and> content (m', ?s) = Some (bytes_at (hmem m) data (mem_size s))"
    by (intro exI [of _ m']) (simp add: m'_def)
qed

theorem sm_set_host_data_witness:
  "\<exists>m'. cn_syncedmem_set_host_data 1 (demo_mach, demo_mem) =
     Ret True (m', demo_mem\<lparr>host_ptr := 1, head := GST_SYNCHEAD_AT_CPU, own_host_data := False\<rparr>)"
proof -
  have "blk_ok (hmem demo_mach) 1 (mem_size demo_mem)" "\<not> own_host_data demo_mem"
    by (simp_all add: blk_ok_def demo_mach_def demo_mem_def)
  with sm_set_host_data [OF demo_wf(1), of 1] show ?thesis by blast
qed

text \<open>the result of malloc is not checked. When the host allocation fails on a fresh object,
  get_host_data returns the null pointer and still moves the head to the host side and marks the
  null pointer as owned: the object is no longer well formed.\<close>

theorem sm_malloc_failure:
  assumes "mach_ok m" and "hfree m < mem_size s" and "head s = GST_SYNCHEAD_UNINITIALIZED"
  shows "\<exists>ms'. cn_syncedmem_get_host_data rt (m, s) = Ret 0 ms' \<and>
           head (snd ms') = GST_SYNCHEAD_AT_CPU \<and> own_host_data (snd ms') \<and> \<not> sm_wf ms'"
  using assms by (auto simp: sm_ops to_cpu_def malloc_host_def malloc_def sm_wf_def)

theorem sm_malloc_failure_witness:
  "\<exists>ms'. cn_syncedmem_get_host_data (ref_cnrt next_dev_addr)
            (demo_mach\<lparr>hfree := 1\<rparr>, demo_mem\<lparr>head := GST_SYNCHEAD_UNINITIALIZED\<rparr>) = Ret 0 ms'"
proof -
  have "mach_ok (demo_mach\<lparr>hfree := 1\<rparr>)" by (simp add: mach_ok_def demo_mach_def)
  moreover have "hfree (demo_mach\<lparr>hfree := 1\<rparr>) < mem_size (demo_mem\<lparr>head := GST_SYNCHEAD_UNINITIALIZED\<rparr>)"
    by (simp add: demo_mem_def)
  ultimately show ?thesis using sm_malloc_failure by fastforce
qed

end
