(* ===== verification/Codec_Session.thy ===== *)
theory Codec_Session
  imports Prelude
begin

text \<open>
  What the four clients of the codec library share: the library's constants and records as the
  code uses them, the events its callback raises, and the contract of a codec session. Each
  client (the cnvideo_dec and cnvideo_enc elements, EasyDecode and EasyEncode) owns a codec
  handle, an event queue, an event thread that pops one event at a time, and two end-of-stream
  flags. The codec library is not part of the repository; its answers are an argument of the
  clients' definitions.
\<close>

subsection \<open>Constants of the codec library\<close>

datatype cncodecType =
  CNCODEC_MPEG2 | CNCODEC_MPEG4 | CNCODEC_H264 | CNCODEC_HEVC | CNCODEC_VP8 | CNCODEC_VP9 | CNCODEC_AVS | CNCODEC_JPEG

datatype cncodecPixelFormat =
  CNCODEC_PIX_FMT_NV12 | CNCODEC_PIX_FMT_NV21 | CNCODEC_PIX_FMT_I420 | CNCODEC_PIX_FMT_YV12
| CNCODEC_PIX_FMT_YUYV | CNCODEC_PIX_FMT_UYVY | CNCODEC_PIX_FMT_YVYU | CNCODEC_PIX_FMT_VYUY
| CNCODEC_PIX_FMT_P010 | CNCODEC_PIX_FMT_YUV420_10BIT | CNCODEC_PIX_FMT_YUV444_10BIT
| CNCODEC_PIX_FMT_ARGB | CNCODEC_PIX_FMT_ABGR | CNCODEC_PIX_FMT_BGRA | CNCODEC_PIX_FMT_RGBA
| CNCODEC_PIX_FMT_AYUV | CNCODEC_PIX_FMT_RGB565 | CNCODEC_PIX_FMT_RAW | CNCODEC_PIX_FMT_TOTAL_COUNT

datatype cncodecColorSpace =
  CNCODEC_COLOR_SPACE_BT_709 | CNCODEC_COLOR_SPACE_BT_601 | CNCODEC_COLOR_SPACE_BT_2020
| CNCODEC_COLOR_SPACE_BT_601_ER | CNCODEC_COLOR_SPACE_BT_709_ER

text \<open>Return codes: success, minus CNCODEC_TIMEOUT, or any other code.\<close>

datatype cncodecRet = CNCODEC_SUCCESS | CNCODEC_TIMED_OUT | CNCODEC_ERR int

datatype vpu_instance = INSTANCE_AUTO | INSTANCE nat

record cnvideoDecCreateInfo =
  ci_codec :: cncodecType
  ci_pixelFmt :: cncodecPixelFormat
  ci_colorSpace :: cncodecColorSpace
  ci_width :: u32
  ci_height :: u32
  ci_bitDepthMinus8 :: nat
  ci_progressive :: bool
  ci_inputBufNum :: u32
  ci_outputBufNum :: u32
  ci_deviceId :: int
  ci_instance :: vpu_instance

record cnvideoDecSequenceInfo =
  si_codec :: cncodecType
  si_width :: u32
  si_height :: u32
  si_minInputBufNum :: u32
  si_minOutputBufNum :: u32

text \<open>A frame of the codec: its address, and per plane a stride and a device address.\<close>

record cncodecFrame =
  f_id :: nat
  f_width :: u32
  f_height :: u32
  f_stride :: "u32 list"
  f_plane :: "nat list"
  f_planeNum :: nat
  f_channel :: u32

subsection \<open>Events\<close>

datatype cb_event =
  CB_NEW_FRAME | CB_SEQUENCE | CB_EOS | CB_SW_RESET | CB_HW_RESET | CB_OUT_OF_MEMORY
| CB_ABORT_ERROR | CB_STREAM_CORRUPT | CB_UNKNOWN nat

text \<open>
  Which events make an event thread abort the codec: all but the end of the stream and, from
  library version 1.6.0 on, a corrupt stream.
\<close>

fun aborts :: "nat \<Rightarrow> cb_event \<Rightarrow> bool" where
  "aborts ver CB_EOS = False"
| "aborts ver CB_STREAM_CORRUPT = (\<not> 10600 \<le> ver)"
| "aborts ver _ = True"

text \<open>
  An event that ends the session: the end of the stream, or an abort.
\<close>

definition ends_session :: "nat \<Rightarrow> cb_event \<Rightarrow> bool" where
  "ends_session ver e \<longleftrightarrow> e = CB_EOS \<or> aborts ver e"

text \<open>
  The \<open>std::thread\<close> object of the event loop: default constructed or joined, running, or
  finished but not joined. In the last two it is joinable.
\<close>

datatype loop_thread = No_Thread | Looping | Loop_Done

definition joinable :: "loop_thread \<Rightarrow> bool" where
  "joinable t \<longleftrightarrow> t \<noteq> No_Thread"

subsection \<open>The contract of a session's event loop\<close>

text \<open>
  \<open>dispatch\<close> is the switch of the event loop, \<open>runner\<close> the loop until it returns or waits.
\<close>

locale event_session =
  fixes ver :: nat
    and handle :: "'s \<Rightarrow> bool"
    and got :: "'s \<Rightarrow> bool"
    and queue :: "'s \<Rightarrow> cb_event list"
    and pop :: "'s \<Rightarrow> 's"
    and push :: "cb_event \<Rightarrow> 's \<Rightarrow> 's"
    and dispatch :: "cb_event \<Rightarrow> 's \<Rightarrow> 's"
    and rest :: "'s \<Rightarrow> 's"
    and runner :: "'s \<Rightarrow> 's"
  assumes pop_queue: "queue (pop s) = tl (queue s)" and pop_got: "got (pop s) = got s"
    and pop_handle: "handle (pop s) = handle s"
    and push_queue: "queue (push e s) = queue s @ [e]" and push_got: "got (push e s) = got s"
    and push_handle: "handle (push e s) = handle s"
    and dispatch_queue: "queue (dispatch e s) = queue s"
    and dispatch_eos: "got (dispatch CB_EOS s)" "handle (dispatch CB_EOS s) = handle s"
    and dispatch_abort: "aborts ver e \<Longrightarrow> got (dispatch e s) = (got s \<or> handle s)"
      "aborts ver e \<Longrightarrow> \<not> handle (dispatch e s)"
    and dispatch_other: "\<not> ends_session ver e \<Longrightarrow> got (dispatch e s) = got s"
      "\<not> ends_session ver e \<Longrightarrow> handle (dispatch e s) = handle s"
    and rest_same: "queue (rest s) = queue s" "got (rest s) = got s" "handle (rest s) = handle s"
    and runner_empty: "queue s = [] \<Longrightarrow> runner s = rest s"
    and runner_next: "queue s = e # q \<Longrightarrow> runner s = runner (dispatch e (pop s))"
begin

lemma runner_drains: "queue (runner s) = []"
proof (induction "queue s" arbitrary: s)
  case Nil
  then show ?case by (simp add: runner_empty rest_same)
next
  case (Cons e q)
  from Cons.hyps(2) have "queue (dispatch e (pop s)) = q"
    by (simp add: dispatch_queue pop_queue flip: Cons.hyps(2))
  with Cons.hyps(1) [of "dispatch e (pop s)"] show ?case
    by (simp add: runner_next [OF Cons.hyps(2) [symmetric]])
qed

lemma runner_outcome:
  "got (runner s) = (got s \<or> CB_EOS \<in> set (queue s) \<or> (handle s \<and> (\<exists>e\<in>set (queue s). aborts ver e))) \<and>
   handle (runner s) = (handle s \<and> \<not> (\<exists>e\<in>set (queue s). aborts ver e))"
proof (induction "queue s" arbitrary: s)
  case Nil
  then show ?case by (simp add: runner_empty rest_same flip: Nil)
next
  case (Cons e q)
  let ?t = "dispatch e (pop s)"
  from Cons.hyps(2) have q: "queue ?t = q"
    by (simp add: dispatch_queue pop_queue flip: Cons.hyps(2))
  note IH = Cons.hyps(1) [OF q [symmetric], unfolded q]
  note step = runner_next [OF Cons.hyps(2) [symmetric]]
  show ?case
  proof (cases "e = CB_EOS")
    case True
    then show ?thesis using IH
      by (simp add: step dispatch_eos pop_handle flip: Cons.hyps(2))
  next
    case ne: False
    show ?thesis
    proof (cases "aborts ver e")
      case True
      then show ?thesis using IH ne
        by (simp add: step dispatch_abort pop_handle pop_got flip: Cons.hyps(2)) blast
    next
      case False
      with ne have "\<not> ends_session ver e" by (simp add: ends_session_def)
      then show ?thesis using IH ne False
        by (simp add: step dispatch_other pop_handle pop_got flip: Cons.hyps(2))
    qed
  qed
qed

lemma runner_got_iff:
  assumes "handle s"
  shows "got (runner s) \<longleftrightarrow> got s \<or> (\<exists>e\<in>set (queue s). ends_session ver e)"
  using runner_outcome [of s] assms by (auto simp: ends_session_def)

lemma runner_keeps_got: "got s \<Longrightarrow> got (runner s)"
  using runner_outcome [of s] by simp

end

text \<open>
  A session that can be closed: ask the codec for the end of the stream, wait until the event
  loop has seen it, join the loop and tear the codec down. \<open>es\<close> are the events the codec raises
  during the wait; \<open>alive\<close> says that the event thread is running, so that someone pops them.
\<close>

locale closable_session = event_session ver handle got queue pop push dispatch rest runner
  for ver :: nat and handle :: "'s \<Rightarrow> bool" and got :: "'s \<Rightarrow> bool" and queue :: "'s \<Rightarrow> cb_event list"
    and pop :: "'s \<Rightarrow> 's" and push :: "cb_event \<Rightarrow> 's \<Rightarrow> 's" and dispatch :: "cb_event \<Rightarrow> 's \<Rightarrow> 's"
    and rest :: "'s \<Rightarrow> 's" and runner :: "'s \<Rightarrow> 's" +
  fixes alive :: "'s \<Rightarrow> bool"
    and begin_close :: "'s \<Rightarrow> 's option"
    and wait :: "cb_event list \<Rightarrow> 's \<Rightarrow> 's"
    and finish :: "'s \<Rightarrow> 's"
    and close :: "cb_event list \<Rightarrow> 's \<Rightarrow> ('e, 's, bool) outcome"
  assumes begin_close: "begin_close s = Some t \<Longrightarrow>
        queue t = queue s \<and> handle t = handle s \<and> alive t = alive s \<and> got t = (got s \<or> \<not> handle s)"
    and wait_alive: "alive s \<Longrightarrow> wait es s = runner (fold push es s)"
    and finish_handle: "\<not> handle (finish s)"
    and close_step: "begin_close s = Some t \<Longrightarrow> close es s =
        (let u = (if got t then t else wait es t) in if got u then Ret True (finish u) else Blocked u)"
begin

lemma push_all: "queue (fold push es s) = queue s @ es \<and> got (fold push es s) = got s \<and> handle (fold push es s) = handle s"
  by (induction es arbitrary: s) (simp_all add: push_queue push_got push_handle)

lemma close_returns_iff:
  assumes "begin_close s = Some t" and "got s \<or> \<not> handle s \<or> alive s"
  shows "(\<exists>u. close es s = Ret True u) \<longleftrightarrow>
     got s \<or> \<not> handle s \<or> (\<exists>e \<in> set (queue s @ es). ends_session ver e)"
proof (cases "got t")
  case True
  with begin_close [OF assms(1)] close_step [OF assms(1), of es] show ?thesis by auto
next
  case False
  with begin_close [OF assms(1)] assms(2) have t: "handle t" "handle s" "\<not> got s" "queue t = queue s" "alive t" by auto
  have "got (wait es t) \<longleftrightarrow> (\<exists>e \<in> set (queue s @ es). ends_session ver e)"
    using runner_got_iff [of "fold push es t"] t False push_all [of es t] by (simp add: wait_alive)
  with False t close_step [OF assms(1), of es] show ?thesis by (auto simp: Let_def)
qed

lemma close_returns_or_blocks:
  assumes "begin_close s = Some t"
  shows "(\<exists>u. close es s = Ret True u \<and> \<not> handle u) \<or> (\<exists>u. close es s = Blocked u)"
  using close_step [OF assms, of es] by (auto simp: Let_def finish_handle)

end

end
