(* ===== verification/Id_Pool.thy ===== *)
theory Id_Pool
  imports Prelude
begin

text \<open>
  The contract of a pool of identifiers: the slots of the time marks of a task queue, the stream
  ids of the decoder elements. Clients acquire an identifier and give it back; the contract says
  that an identifier is never handed out while it is held. \<open>run_pool\<close> is a history of clients.
\<close>

datatype pool_op = Acquire | Give_Back nat

text \<open>\<open>Give_Back n\<close>: the n-th live client releases; out of range nothing happens.\<close>

fun run_pool :: "('s \<Rightarrow> ('i \<times> 's) option) \<Rightarrow> ('i \<Rightarrow> 's \<Rightarrow> 's) \<Rightarrow> pool_op list \<Rightarrow> 'i list \<Rightarrow> 's \<Rightarrow> 'i list \<times> 's" where
  "run_pool acquire release [] live s = (live, s)"
| "run_pool acquire release (Acquire # ops) live s =
     (case acquire s of None \<Rightarrow> run_pool acquire release ops live s
      | Some (i, t) \<Rightarrow> run_pool acquire release ops (live @ [i]) t)"
| "run_pool acquire release (Give_Back n # ops) live s =
     (if n < length live
      then run_pool acquire release ops (take n live @ drop (Suc n) live) (release (live ! n) s)
      else run_pool acquire release ops live s)"

lemma remove_nth_distinct:
  assumes "distinct live" and "n < length live"
  shows "distinct (take n live @ drop (Suc n) live) \<and> set (take n live @ drop (Suc n) live) = set live - {live ! n}"
proof -
  have eq: "live = take n live @ live ! n # drop (Suc n) live"
    using assms(2) by (rule id_take_nth_drop)
  have d: "distinct (take n live @ live ! n # drop (Suc n) live)"
    using assms(1) eq by simp
  have "set live = insert (live ! n) (set (take n live) \<union> set (drop (Suc n) live))"
    by (subst eq) simp
  moreover have "live ! n \<notin> set (take n live)" "live ! n \<notin> set (drop (Suc n) live)"
    using d by auto
  ultimately show ?thesis using d by auto
qed

locale id_pool =
  fixes ok :: "'s \<Rightarrow> bool"
    and held :: "'s \<Rightarrow> 'i set"
    and acquire :: "'s \<Rightarrow> ('i \<times> 's) option"
    and release :: "'i \<Rightarrow> 's \<Rightarrow> 's"
  assumes acquire_fresh: "ok s \<Longrightarrow> acquire s = Some (i, t) \<Longrightarrow> i \<notin> held s \<and> held t = insert i (held s) \<and> ok t"
    and release_frees: "ok s \<Longrightarrow> i \<in> held s \<Longrightarrow> held (release i s) = held s - {i} \<and> ok (release i s)"
begin

lemma pool_history:
  assumes "ok s" and "distinct live" and "set live = held s"
  shows "case run_pool acquire release ops live s of
           (live', t) \<Rightarrow> ok t \<and> distinct live' \<and> set live' = held t"
  using assms
proof (induction ops arbitrary: live s)
  case Nil
  then show ?case by simp
next
  case (Cons a ops)
  show ?case
  proof (cases a)
    case Acquire
    show ?thesis
    proof (cases "acquire s")
      case None
      then show ?thesis using Cons Acquire by simp
    next
      case (Some r)
      obtain i t where r: "r = (i, t)" by (cases r)
      have f: "i \<notin> held s \<and> held t = insert i (held s) \<and> ok t"
        using acquire_fresh [OF Cons.prems(1)] Some r by simp
      have "distinct (live @ [i])" "set (live @ [i]) = held t"
        using f Cons.prems by auto
      from Cons.IH [OF _ this] f show ?thesis
        by (simp add: Acquire Some r)
    qed
  next
    case (Give_Back n)
    show ?thesis
    proof (cases "n < length live")
      case False
      then show ?thesis using Cons Give_Back by simp
    next
      case True
      note rm = remove_nth_distinct [OF Cons.prems(2) True]
      have "live ! n \<in> held s" using Cons.prems(3) True nth_mem by blast
      note f = release_frees [OF Cons.prems(1) this]
      have "distinct (take n live @ drop (Suc n) live)"
        "set (take n live @ drop (Suc n) live) = held (release (live ! n) s)"
        using rm f Cons.prems(3) by simp_all
      from Cons.IH [OF _ this] f show ?thesis by (simp add: Give_Back True)
    qed
  qed
qed

end

end
