(* ===== verification/Mlu_Context.thy ===== *)
theory Mlu_Context
  imports Edk_Exception Mlu_Memory_Op Id_Pool
begin

text \<open>
  easydk/src/device/mlu_context.cpp with internal/mlu_task_queue.h: the one-time initialisation of
  the runtime, binding a device to a thread, the core version, and the time marks of a task queue.
  The driver's answers are an argument: \<open>ext\<close> gives the return code of the newest call of a
  trace. \<open>major\<close> is \<open>CNRT_MAJOR_VERSION\<close>.
\<close>

subsection \<open>Device context\<close>

datatype dev_call =
  Call_cnrtInit nat | Call_cnrtGetDeviceCount | Call_cnrtGetDeviceHandle int | Call_cnrtSetCurrentDevice int
| Call_cnrtSetDevice int | Call_cnrtSetDeviceFlag nat | Call_cnrtGetDeviceInfo int | Call_cnrtGetDeviceProperties int

datatype CoreVersion = CV_INVALID | CV_MLU220 | CV_MLU270 | CV_MLU370 | CV_CE3226

datatype cnrtCoreVersion = CNRT_MLU220 | CNRT_MLU270 | CNRT_OTHER nat

record dev_lib =
  dl_ret :: "dev_call list \<Rightarrow> cnrtRet"
  dl_count :: "dev_call list \<Rightarrow> nat"
  dl_core :: "int \<Rightarrow> cnrtCoreVersion"
  dl_name :: "int \<Rightarrow> string"

record dev_state =
  is_initialized :: bool
  dev_trace :: "dev_call list"

definition CALL_CNRT_FUNC :: "cnrtRet \<Rightarrow> string \<Rightarrow> 's \<Rightarrow> ('s, unit) run" where
  "CALL_CNRT_FUNC r msg s =
     (if r \<noteq> CNRT_RET_SUCCESS
      then Exc (throw INTERNAL (msg @ '', cnrt error code : '' @ nat_to_string (cnrt_code r))) s
      else Ret () s)"

definition dev_call :: "dev_lib \<Rightarrow> dev_call \<Rightarrow> string \<Rightarrow> dev_state \<Rightarrow> (dev_state, unit) run" where
  "dev_call d c msg s =
     (let s = s\<lparr>dev_trace := c # dev_trace s\<rparr> in CALL_CNRT_FUNC (dl_ret d (dev_trace s)) msg s)"

definition CnrtInitTool_Init :: "nat \<Rightarrow> dev_lib \<Rightarrow> dev_state \<Rightarrow> (dev_state, unit) run" where
  "CnrtInitTool_Init major d s =
     (if major < 5 \<and> \<not> is_initialized s
      then call_then (dev_call d (Call_cnrtInit 0) ''Init cambricon runtime failed.'' s) (\<lambda>_ s.
           call_then (dev_call d Call_cnrtGetDeviceCount ''Get device count failed.'' s) (\<lambda>_ s.
             if dl_count d (dev_trace s) = 0
             then Exc (throw UNAVAILABLE ''No device found.'') s
             else Ret () (s\<lparr>is_initialized := True\<rparr>)))
      else Ret () s)"

definition CheckDeviceId :: "nat \<Rightarrow> dev_lib \<Rightarrow> int \<Rightarrow> dev_state \<Rightarrow> (dev_state, bool) run" where
  "CheckDeviceId major d i s =
     call_then (CnrtInitTool_Init major d s) (\<lambda>_ s.
       let s = s\<lparr>dev_trace := Call_cnrtGetDeviceHandle i # dev_trace s\<rparr>
       in Ret (CNRT_RET_SUCCESS = dl_ret d (dev_trace s)) s)"

definition GetDeviceNum :: "nat \<Rightarrow> dev_lib \<Rightarrow> dev_state \<Rightarrow> (dev_state, nat) run" where
  "GetDeviceNum major d s =
     call_then (CnrtInitTool_Init major d s) (\<lambda>_ s.
       call_then (dev_call d Call_cnrtGetDeviceCount ''Get device count failed.'' s) (\<lambda>_ s.
         Ret (dl_count d (dev_trace s)) s))"

definition BindDevice :: "nat \<Rightarrow> dev_lib \<Rightarrow> int \<Rightarrow> dev_state \<Rightarrow> (dev_state, unit) run" where
  "BindDevice major d dev_id s =
     call_then (CnrtInitTool_Init major d s) (\<lambda>_ s.
       if major < 5
       then call_then (dev_call d (Call_cnrtGetDeviceHandle dev_id) ''Get device failed.'' s) (\<lambda>_ s.
            call_then (dev_call d (Call_cnrtSetCurrentDevice dev_id) ''Set current device failed.'' s) (\<lambda>_ s.
              dev_call d (Call_cnrtSetDeviceFlag 1) ''Set device flag failed.'' s))
       else dev_call d (Call_cnrtSetDevice dev_id) ''Set device failed.'' s)"

definition name_list_table :: "(string \<times> CoreVersion) list" where
  "name_list_table = [(''MLU270'', CV_MLU270), (''MLU220'', CV_MLU220), (''MLU370'', CV_MLU370), (''CE3226'', CV_CE3226)]"

fun find_core :: "(string \<times> CoreVersion) list \<Rightarrow> string \<Rightarrow> CoreVersion" where
  "find_core [] name = CV_INVALID"
| "find_core ((n, v) # t) name = (if take (length n) name = n then v else find_core t name)"

definition GetCoreVersion :: "nat \<Rightarrow> dev_lib \<Rightarrow> int \<Rightarrow> dev_state \<Rightarrow> (dev_state, CoreVersion) run" where
  "GetCoreVersion major d dev_id s =
     call_then (CnrtInitTool_Init major d s) (\<lambda>_ s.
       if major < 5
       then call_then (dev_call d (Call_cnrtGetDeviceInfo dev_id) ''Get device info failed.'' s) (\<lambda>_ s.
              Ret (case dl_core d dev_id of CNRT_MLU220 \<Rightarrow> CV_MLU220 | CNRT_MLU270 \<Rightarrow> CV_MLU270
                   | CNRT_OTHER _ \<Rightarrow> CV_INVALID) s)
       else call_then (dev_call d (Call_cnrtGetDeviceProperties dev_id) ''Get device properties failed'' s) (\<lambda>_ s.
              Ret (find_core name_list_table (dl_name d dev_id)) s))"

lemma CALL_CNRT_FUNC_Ret [simp]: "CALL_CNRT_FUNC r msg s = Ret u t \<longleftrightarrow> r = CNRT_RET_SUCCESS \<and> t = s"
  by (auto simp: CALL_CNRT_FUNC_def)

lemma CALL_CNRT_FUNC_total: "CALL_CNRT_FUNC r msg s \<noteq> UB" "CALL_CNRT_FUNC r msg s \<noteq> Terminate" "CALL_CNRT_FUNC r msg s \<noteq> Blocked t"
  by (auto simp: CALL_CNRT_FUNC_def)

lemma dev_call_cases:
  obtains "dev_call d c msg s = Ret () (s\<lparr>dev_trace := c # dev_trace s\<rparr>)" "dl_ret d (c # dev_trace s) = CNRT_RET_SUCCESS"
  | e where "dev_call d c msg s = Exc e (s\<lparr>dev_trace := c # dev_trace s\<rparr>)" "dl_ret d (c # dev_trace s) \<noteq> CNRT_RET_SUCCESS"
      "ErrorCode e = INTERNAL"
  by (cases "dl_ret d (c # dev_trace s)") (auto simp: dev_call_def CALL_CNRT_FUNC_def)

lemma dev_call_Ret [simp]:
  "dev_call d c msg s = Ret u t \<longleftrightarrow> dl_ret d (c # dev_trace s) = CNRT_RET_SUCCESS \<and> t = s\<lparr>dev_trace := c # dev_trace s\<rparr>"
  by (auto simp: dev_call_def Let_def)

text \<open>The runtime is initialised exactly once: the flag is never reset and set only on success.\<close>

lemma Init_idempotent:
  assumes "CnrtInitTool_Init major d s = Ret () t"
  shows "CnrtInitTool_Init major d t = Ret () t"
  using assms by (auto simp: CnrtInitTool_Init_def call_then_Ret_iff split: if_splits)

lemma Init_once:
  assumes "CnrtInitTool_Init major d s = Ret () t" and "major < 5"
  shows "is_initialized t" and "is_initialized s \<Longrightarrow> t = s"
  using assms by (auto simp: CnrtInitTool_Init_def call_then_Ret_iff split: if_splits)

subsection \<open>Task queue and its time marks\<close>

datatype queue_call = Call_NotifierCreate | Call_PlaceNotifier nat nat | Call_QueueSync nat | Call_NotifierDuration nat nat

text \<open>
  \<open>marks\<close> holds the notifier handle of every time mark; \<open>marks_valid\<close> whether the slot is free.
  \<open>tq_new\<close> is the handle the driver gives the next notifier.
\<close>

record MluTaskQueue =
  tq_queue :: nat
  marks :: "nat list"
  marks_valid :: "bool list"
  tq_trace :: "queue_call list"

record queue_lib =
  ql_ret :: "queue_call list \<Rightarrow> cnrtRet"
  ql_handle :: "queue_call list \<Rightarrow> nat"
  ql_duration :: "queue_call list \<Rightarrow> int"

definition queue_call :: "queue_lib \<Rightarrow> queue_call \<Rightarrow> string \<Rightarrow> MluTaskQueue \<Rightarrow> (MluTaskQueue, unit) run" where
  "queue_call q c msg s =
     (let s = s\<lparr>tq_trace := c # tq_trace s\<rparr> in CALL_CNRT_FUNC (ql_ret q (tq_trace s)) msg s)"

definition emplace_mark :: "queue_lib \<Rightarrow> MluTaskQueue \<Rightarrow> (MluTaskQueue, unit) run" where
  "emplace_mark q s =
     call_then (queue_call q Call_NotifierCreate ''Create notifier failed'' s) (\<lambda>_ s.
       Ret () (s\<lparr>marks := marks s @ [ql_handle q (tq_trace s)], marks_valid := marks_valid s @ [True]\<rparr>))"

text \<open>The constructor of the private part: two marks to start with.\<close>

definition MluTaskQueue_new :: "queue_lib \<Rightarrow> nat \<Rightarrow> (MluTaskQueue, unit) run" where
  "MluTaskQueue_new q cnrt_q =
     call_then (emplace_mark q \<lparr>tq_queue = 0, marks = [], marks_valid = [], tq_trace = []\<rparr>) (\<lambda>_ s.
       call_then (emplace_mark q s) (\<lambda>_ s. Ret () (s\<lparr>tq_queue := cnrt_q\<rparr>)))"

text \<open>A client's mark: whether it still carries its release function, and its slot.\<close>

record Mark =
  release_ok :: bool
  idx :: nat

fun first_valid :: "bool list \<Rightarrow> nat" where
  "first_valid [] = 0"
| "first_valid (v # vs) = (if v then 0 else Suc (first_valid vs))"

definition marks_max_num :: nat where "marks_max_num = 40"

definition PlaceMark :: "queue_lib \<Rightarrow> MluTaskQueue \<Rightarrow> (MluTaskQueue, Mark) run" where
  "PlaceMark q s =
     (let i = first_valid (marks_valid s);
          place = (\<lambda>s. call_then (queue_call q (Call_PlaceNotifier (marks s ! i) (tq_queue s)) ''cnrt::PlaceNotifier failed'' s)
                    (\<lambda>_ s. Ret \<lparr>release_ok = True, idx = i\<rparr> (s\<lparr>marks_valid := (marks_valid s)[i := False]\<rparr>)))
      in if i = length (marks_valid s)
         then if length (marks s) > marks_max_num
              then Exc (throw UNAVAILABLE ''marks number reach up limit, please donot store marks'') s
              else call_then (emplace_mark q s) (\<lambda>_ s. place s)
         else place s)"

text \<open>The destructor of a client's mark, and the move assignment \<open>a = std::move(b)\<close>.\<close>

definition Mark_destroy :: "Mark \<Rightarrow> MluTaskQueue \<Rightarrow> MluTaskQueue" where
  "Mark_destroy m s = (if release_ok m then s\<lparr>marks_valid := (marks_valid s)[idx m := True]\<rparr> else s)"

definition Mark_move :: "Mark \<Rightarrow> Mark \<times> Mark" where
  "Mark_move other = (other, other\<lparr>release_ok := False\<rparr>)"

definition Mark_move_assign :: "Mark \<Rightarrow> Mark \<Rightarrow> Mark \<times> Mark" where
  "Mark_move_assign a b = (\<lparr>release_ok = release_ok b, idx = idx b\<rparr>, b\<lparr>release_ok := False\<rparr>)"

definition mark_Count :: "queue_lib \<Rightarrow> Mark \<Rightarrow> Mark \<Rightarrow> MluTaskQueue \<Rightarrow> (MluTaskQueue, int) run" where
  "mark_Count q a b s =
     (if length (marks s) \<le> idx a \<or> length (marks s) \<le> idx b
      then Exc (throw INVALID_ARG ''Marks not exist'') s
      else if marks_valid s ! idx a \<or> marks_valid s ! idx b
      then Exc (throw INVALID_ARG ''Marks has not been placed'') s
      else call_then (queue_call q (Call_NotifierDuration (marks s ! idx a) (marks s ! idx b)) ''Calculate elapsed time failed.'' s)
             (\<lambda>_ s. Ret (ql_duration q (tq_trace s)) s))"

definition queue_Sync :: "queue_lib \<Rightarrow> MluTaskQueue \<Rightarrow> (MluTaskQueue, unit) run" where
  "queue_Sync q s = (if tq_queue s = 0 then Terminate else queue_call q (Call_QueueSync (tq_queue s)) ''Sync queue failed.'' s)"

subsection \<open>The marks are a pool of slots\<close>

definition tq_ok :: "MluTaskQueue \<Rightarrow> bool" where
  "tq_ok s \<longleftrightarrow> length (marks_valid s) = length (marks s) \<and> length (marks s) \<le> Suc marks_max_num"

definition held_slots :: "MluTaskQueue \<Rightarrow> nat set" where
  "held_slots s = {i. i < length (marks_valid s) \<and> \<not> marks_valid s ! i}"

definition acquire_mark :: "queue_lib \<Rightarrow> MluTaskQueue \<Rightarrow> (nat \<times> MluTaskQueue) option" where
  "acquire_mark q s = (case PlaceMark q s of Ret m t \<Rightarrow> Some (idx m, t) | _ \<Rightarrow> None)"

definition release_mark :: "nat \<Rightarrow> MluTaskQueue \<Rightarrow> MluTaskQueue" where
  "release_mark i s = Mark_destroy \<lparr>release_ok = True, idx = i\<rparr> s"

lemma queue_call_Ret [simp]:
  "queue_call q c msg s = Ret u t \<longleftrightarrow> ql_ret q (c # tq_trace s) = CNRT_RET_SUCCESS \<and> t = s\<lparr>tq_trace := c # tq_trace s\<rparr>"
  by (auto simp: queue_call_def Let_def)

lemma queue_call_Exc [simp]:
  "queue_call q c msg s = Exc e t \<longleftrightarrow> ql_ret q (c # tq_trace s) \<noteq> CNRT_RET_SUCCESS \<and> t = s\<lparr>tq_trace := c # tq_trace s\<rparr> \<and>
     e = throw INTERNAL (msg @ '', cnrt error code : '' @ nat_to_string (cnrt_code (ql_ret q (c # tq_trace s))))"
  by (auto simp: queue_call_def CALL_CNRT_FUNC_def Let_def)

lemma first_valid_le: "first_valid vs \<le> length vs"
  by (induction vs) auto

lemma first_valid_nth: "first_valid vs < length vs \<Longrightarrow> vs ! first_valid vs"
  by (induction vs) (auto split: if_splits)

lemma first_valid_none: "first_valid vs = length vs \<longleftrightarrow> (\<forall>i<length vs. \<not> vs ! i)"
proof
  assume "first_valid vs = length vs"
  then show "\<forall>i<length vs. \<not> vs ! i"
    by (induction vs) (auto split: if_splits simp: less_Suc_eq_0_disj)
next
  assume "\<forall>i<length vs. \<not> vs ! i"
  then show "first_valid vs = length vs"
    using first_valid_le [of vs] first_valid_nth [of vs] by (metis le_neq_implies_less)
qed

lemma PlaceMark_Ret:
  assumes "tq_ok s" and "PlaceMark q s = Ret m t"
  shows "release_ok m" and "idx m = first_valid (marks_valid s)" and "tq_ok t"
    and "idx m < length (marks_valid t)" and "idx m \<notin> held_slots s" and "held_slots t = insert (idx m) (held_slots s)"
proof -
  have le: "first_valid (marks_valid s) \<le> length (marks_valid s)" by (rule first_valid_le)
  show "release_ok m" and "idx m = first_valid (marks_valid s)" and "tq_ok t" and "idx m < length (marks_valid t)"
    using assms le
    by (auto simp: PlaceMark_def emplace_mark_def call_then_Ret_iff Let_def tq_ok_def marks_max_num_def split: if_splits)
  show "idx m \<notin> held_slots s"
    using assms le first_valid_nth [of "marks_valid s"]
    by (auto simp: PlaceMark_def emplace_mark_def call_then_Ret_iff Let_def held_slots_def split: if_splits)
  show "held_slots t = insert (idx m) (held_slots s)"
    using assms le
    by (auto simp: PlaceMark_def emplace_mark_def call_then_Ret_iff Let_def held_slots_def nth_list_update nth_append
             split: if_splits)
qed

lemma Mark_destroy_slot:
  assumes "tq_ok s" and "i \<in> held_slots s"
  shows "held_slots (release_mark i s) = held_slots s - {i} \<and> tq_ok (release_mark i s)"
  using assms by (auto simp: release_mark_def Mark_destroy_def held_slots_def tq_ok_def nth_list_update)

interpretation tqp: id_pool tq_ok held_slots "acquire_mark q" release_mark for q
proof (unfold_locales, goal_cases)
  case (1 s i t)
  then obtain m where m: "PlaceMark q s = Ret m t" "i = idx m"
    by (auto simp: acquire_mark_def split: outcome.splits)
  with PlaceMark_Ret [OF 1(1) m(1)] show ?case by simp
next
  case (2 s i)
  then show ?case by (rule Mark_destroy_slot)
qed

lemma held_slots_finite: "finite (held_slots s)"
  by (simp add: held_slots_def)

lemma held_slots_full:
  assumes "first_valid (marks_valid s) = length (marks_valid s)"
  shows "card (held_slots s) = length (marks_valid s)"
proof -
  have "held_slots s = {..<length (marks_valid s)}"
    using assms by (auto simp: held_slots_def first_valid_none)
  then show ?thesis by simp
qed

lemma held_slots_le: "card (held_slots s) \<le> length (marks_valid s)"
proof -
  have "held_slots s \<subseteq> {..<length (marks_valid s)}" by (auto simp: held_slots_def)
  from card_mono [OF _ this] show ?thesis by simp
qed

text \<open>A driver that accepts every call, its handles numbered by the length of the trace.\<close>

definition ref_queue_lib :: queue_lib where
  "ref_queue_lib = \<lparr>ql_ret = (\<lambda>_. CNRT_RET_SUCCESS), ql_handle = length, ql_duration = (\<lambda>_. 0)\<rparr>"



text \<open>\<open>PlaceMark\<close> refuses with UNAVAILABLE exactly when 41 marks are in use, one more than
  its constant \<open>marks_max_num = 40\<close> says; and then nothing has changed.\<close>

theorem PlaceMark_unavailable:
  assumes "tq_ok s"
  shows "((\<exists>e t. PlaceMark q s = Exc e t \<and> ErrorCode e = UNAVAILABLE) \<longleftrightarrow> card (held_slots s) = 41) \<and>
     (card (held_slots s) = 41 \<longrightarrow> (\<exists>e. PlaceMark q s = Exc e s))"
proof -
  have eq: "length (marks_valid s) = length (marks s)" "length (marks s) \<le> 41"
    using assms by (simp_all add: tq_ok_def marks_max_num_def)
  have key: "card (held_slots s) = 41 \<longleftrightarrow>
      first_valid (marks_valid s) = length (marks_valid s) \<and> length (marks s) > 40"
  proof
    assume c: "card (held_slots s) = 41"
    have sub: "held_slots s \<subseteq> {..<length (marks_valid s)}" by (auto simp: held_slots_def)
    have len: "length (marks_valid s) = 41" using c held_slots_le [of s] eq by simp
    have "held_slots s = {..<length (marks_valid s)}"
      by (rule card_subset_eq [OF _ sub]) (simp_all add: c len)
    then have "first_valid (marks_valid s) = length (marks_valid s)"
      by (auto simp: first_valid_none held_slots_def)
    with len eq show "first_valid (marks_valid s) = length (marks_valid s) \<and> length (marks s) > 40" by simp
  next
    assume "first_valid (marks_valid s) = length (marks_valid s) \<and> length (marks s) > 40"
    with eq held_slots_full [of s] show "card (held_slots s) = 41" by simp
  qed
  have "(\<exists>e t. PlaceMark q s = Exc e t \<and> ErrorCode e = UNAVAILABLE) \<longleftrightarrow> card (held_slots s) = 41"
    unfolding key
    by (auto simp: PlaceMark_def emplace_mark_def Let_def marks_max_num_def call_then_Exc_iff split: if_splits)
  moreover have "card (held_slots s) = 41 \<longrightarrow> (\<exists>e. PlaceMark q s = Exc e s)"
    unfolding key by (auto simp: PlaceMark_def Let_def marks_max_num_def)
  ultimately show ?thesis by blast
qed

theorem PlaceMark_unavailable_witness:
  "\<exists>e. PlaceMark ref_queue_lib \<lparr>tq_queue = 7, marks = replicate 41 9, marks_valid = replicate 41 False, tq_trace = []\<rparr> =
     Exc e \<lparr>tq_queue = 7, marks = replicate 41 9, marks_valid = replicate 41 False, tq_trace = []\<rparr>"
proof -
  let ?s = "\<lparr>tq_queue = 7, marks = replicate 41 9, marks_valid = replicate 41 False, tq_trace = []\<rparr>"
  have "held_slots ?s = {..<41}" by (auto simp: held_slots_def)
  then have "card (held_slots ?s) = 41" by simp
  with PlaceMark_unavailable [of ?s ref_queue_lib] show ?thesis by (simp add: tq_ok_def marks_max_num_def)
qed

text \<open>Move assignment loses a slot: after \<open>a = std::move(b)\<close> of two live marks, destroying
  both leaves the slot that \<open>a\<close> had held marked as in use, although no mark refers to it.\<close>

theorem Mark_move_assign_leaks:
  assumes "tq_ok s" and "release_ok a" and "release_ok b" and "idx a \<noteq> idx b"
    and "idx a \<in> held_slots s" and "idx b \<in> held_slots s"
  shows "case Mark_move_assign a b of (a', b') \<Rightarrow>
     held_slots (Mark_destroy a' (Mark_destroy b' s)) = held_slots s - {idx b} \<and>
     idx a \<in> held_slots (Mark_destroy a' (Mark_destroy b' s))"
  using assms by (auto simp: Mark_move_assign_def Mark_destroy_def held_slots_def nth_list_update)

theorem Mark_move_assign_leaks_witness:
  "0 \<in> held_slots (Mark_destroy \<lparr>release_ok = True, idx = 1\<rparr> (Mark_destroy \<lparr>release_ok = False, idx = 1\<rparr>
     \<lparr>tq_queue = 7, marks = [1, 2], marks_valid = [False, False], tq_trace = []\<rparr>))"
  using Mark_move_assign_leaks [of "\<lparr>tq_queue = 7, marks = [1, 2], marks_valid = [False, False], tq_trace = []\<rparr>"
      "\<lparr>release_ok = True, idx = 0\<rparr>" "\<lparr>release_ok = True, idx = 1\<rparr>"]
  by (simp add: tq_ok_def marks_max_num_def held_slots_def Mark_move_assign_def)

end
