(* ===== verification/Gst_Types.thy ===== *)
theory Gst_Types
  imports Mlu_Context Codec_Session "HOL-Library.Multiset"
begin

text \<open>
  What the three GStreamer elements share: the picture formats and stream descriptions they read,
  the parts of the element life cycle they act on, \<open>set_cnrt_env\<close> and \<open>ScopeGuard\<close> of
  gst-libs/common/utils.h, and the table that spreads decoders over the VPU instances.
  Answers of GStreamer itself (caps negotiation, parent class) are arguments of the definitions.
\<close>

datatype GstVideoFormat =
  GST_VIDEO_FORMAT_NV12 | GST_VIDEO_FORMAT_NV21 | GST_VIDEO_FORMAT_I420 | GST_VIDEO_FORMAT_RGB
| GST_VIDEO_FORMAT_BGR | GST_VIDEO_FORMAT_RGBA | GST_VIDEO_FORMAT_BGRA | GST_VIDEO_FORMAT_ARGB
| GST_VIDEO_FORMAT_ABGR | GST_VIDEO_FORMAT_OTHER nat

datatype interlace_mode = GST_VIDEO_INTERLACE_MODE_PROGRESSIVE | GST_VIDEO_INTERLACE_MODE_OTHER

record GstVideoInfo =
  vi_format :: GstVideoFormat
  vi_interlace :: interlace_mode
  vi_width :: int
  vi_height :: int
  vi_fps_n :: int
  vi_fps_d :: int
  vi_stride :: "int list"

datatype gst_state = STATE_VOID | STATE_NULL | STATE_READY | STATE_PAUSED | STATE_PLAYING

fun at_most_ready :: "gst_state \<Rightarrow> bool" where
  "at_most_ready STATE_PAUSED = False"
| "at_most_ready STATE_PLAYING = False"
| "at_most_ready _ = True"

datatype state_change =
  NULL_TO_READY | READY_TO_PAUSED | PAUSED_TO_PLAYING | PLAYING_TO_PAUSED | PAUSED_TO_READY | READY_TO_NULL

datatype change_return = STATE_CHANGE_SUCCESS | STATE_CHANGE_FAILURE | STATE_CHANGE_ASYNC

datatype flow_return = GST_FLOW_OK | GST_FLOW_ERROR | GST_FLOW_OTHER int

definition GST_CLOCK_TIME_NONE :: u64 where "GST_CLOCK_TIME_NONE = - 1"

definition no_info :: GstVideoInfo where
  "no_info = \<lparr>vi_format = GST_VIDEO_FORMAT_OTHER 0, vi_interlace = GST_VIDEO_INTERLACE_MODE_PROGRESSIVE,
     vi_width = 0, vi_height = 0, vi_fps_n = 0, vi_fps_d = 0, vi_stride = []\<rparr>"

text \<open>Fixed-size C arrays of which only a prefix is given: the rest is zero.\<close>

definition nth0 :: "'a::zero list \<Rightarrow> nat \<Rightarrow> 'a" where
  "nth0 xs i = (if i < length xs then xs ! i else 0)"

lemma nth0_Cons [simp]: "nth0 (x # xs) 0 = x" "nth0 (x # xs) (Suc i) = nth0 xs i" "nth0 [] i = 0" "nth0 (x # y # xs) 2 = nth0 xs 0"
  by (simp_all add: nth0_def)

subsection \<open>Binding the device\<close>

text \<open>
  The caught exception's text goes to the element's bus; here it is the second component.
\<close>

definition set_cnrt_env :: "nat \<Rightarrow> dev_lib \<Rightarrow> int \<Rightarrow> dev_state \<Rightarrow> (dev_state, bool \<times> exn option) run" where
  "set_cnrt_env major d device_id s =
     (case BindDevice major d device_id s of
        Ret _ t \<Rightarrow> Ret (True, None) t
      | Exc e t \<Rightarrow> Ret (False, Some e) t
      | UB \<Rightarrow> UB | Terminate \<Rightarrow> Terminate | Blocked t \<Rightarrow> Blocked t)"

definition ScopeGuard :: "('s \<Rightarrow> 's) \<Rightarrow> ('s, 'a) run \<Rightarrow> ('s, 'a) run" where
  "ScopeGuard c r = (case r of Ret a s \<Rightarrow> Ret a (c s) | Exc e s \<Rightarrow> Exc e (c s) | UB \<Rightarrow> UB
      | Terminate \<Rightarrow> Terminate | Blocked s \<Rightarrow> Blocked s)"

lemma dev_call_settled [simp]: "settled (dev_call d c msg s)"
  by (simp add: dev_call_def CALL_CNRT_FUNC_def Let_def)

lemma BindDevice_settled: "settled (BindDevice major d i s)"
proof -
  have "settled (CnrtInitTool_Init major d s)" by (auto simp: CnrtInitTool_Init_def)
  then show ?thesis by (auto simp: BindDevice_def)
qed

lemma set_cnrt_env_returns: "\<exists>b e t. set_cnrt_env major d i s = Ret (b, e) t \<and> (b \<longleftrightarrow> e = None)"
  by (rule settled_cases [OF BindDevice_settled [of major d i s]]) (auto simp: set_cnrt_env_def)

text \<open>A driver with one device that accepts every call.\<close>

definition ref_dev_lib :: dev_lib where
  "ref_dev_lib = \<lparr>dl_ret = (\<lambda>_. CNRT_RET_SUCCESS), dl_count = (\<lambda>_. 1), dl_core = (\<lambda>_. CNRT_MLU270), dl_name = (\<lambda>_. ''MLU270'')\<rparr>"

definition ref_dev_state :: dev_state where
  "ref_dev_state = \<lparr>is_initialized = True, dev_trace = []\<rparr>"

lemma ref_set_cnrt_env [simp]:
  "set_cnrt_env 5 ref_dev_lib i s = Ret (True, None) (s\<lparr>dev_trace := Call_cnrtSetDevice i # dev_trace s\<rparr>)"
  by (simp add: set_cnrt_env_def BindDevice_def CnrtInitTool_Init_def ref_dev_lib_def dev_call_def CALL_CNRT_FUNC_def)

subsection \<open>VPU turbo mode\<close>

text \<open>\<open>g_vpudec_instances\<close>, and the copy of it in cnvideo_dec.\<close>

definition g_vpudec_instances :: "nat list" where
  "g_vpudec_instances =
    [0, 1, 2, 3, 4, 5, 0, 1, 2, 3,
     4, 5, 0, 1, 2, 3, 4, 5, 0, 1,
     2, 3, 4, 5, 0, 1, 2, 3, 4, 5,
     0, 1, 2, 3, 4, 5, 0, 1, 2, 3,
     4, 5, 0, 1, 2, 3, 4, 5, 0, 1,
     2, 3, 4, 5, 0, 1, 2, 3, 4, 5,
     0, 1, 2, 3, 4, 5, 0, 1, 2, 3,
     4, 5, 0, 1, 2, 3, 4, 5, 0, 1,
     3, 4, 5, 0, 5, 0, 5, 0, 5, 0,
     5, 0, 5, 0, 5, 3, 5, 5, 2, 2]"

text \<open>
  The number of decoders that get instance \<open>i\<close> out of any hundred created one after the other,
  the counter starting at \<open>c\<close>: the comment "100 channels:20+14+15+15+14+22" of the table.
\<close>

definition vpu_share :: "nat \<Rightarrow> nat \<Rightarrow> nat" where
  "vpu_share c i = length (filter (\<lambda>k. g_vpudec_instances ! (k mod 100) = i) [c ..< c + 100])"

lemma mod_window:
  "mset (map (\<lambda>k. k mod n) [c ..< c + n]) = mset [0..<n]" for n :: nat
proof (induction c)
  case 0
  have "map (\<lambda>k. k mod n) [0..<n] = [0..<n]" by (rule map_idI) simp
  then show ?case by simp
next
  case (Suc c)
  have "mset (map (\<lambda>k. k mod n) [Suc c ..< Suc c + n]) = mset (map (\<lambda>k. k mod n) [c ..< c + n])"
  proof (cases n)
    case (Suc m)
    have "[c ..< c + n] = c # [Suc c ..< c + n]" using Suc by (simp add: upt_conv_Cons)
    moreover have "[Suc c ..< Suc c + n] = [Suc c ..< c + n] @ [c + n]" using Suc by simp
    ultimately show ?thesis by (simp only: map_append list.map mod_add_self2 mset_append mset.simps) simp
  qed simp
  with Suc.IH show ?case by simp
qed

lemma vpu_share_any: "vpu_share c i = vpu_share 0 i"
proof -
  let ?P = "\<lambda>k. g_vpudec_instances ! k = i"
  have "vpu_share c i = size (filter_mset ?P (mset (map (\<lambda>k. k mod 100) [c ..< c + 100])))" for c
    unfolding vpu_share_def mset_filter [symmetric] size_mset filter_map by (simp add: comp_def)
  then show ?thesis by (simp only: mod_window)
qed

lemma vpu_share_count: "vpu_share c i = length (filter (\<lambda>x. x = i) g_vpudec_instances)"
proof -
  have len: "length g_vpudec_instances = 100" by (simp add: g_vpudec_instances_def)
  have "g_vpudec_instances = map (\<lambda>k. g_vpudec_instances ! k) [0..<100]"
    using map_nth [of g_vpudec_instances] by (simp add: len)
  then have "length (filter (\<lambda>x. x = i) g_vpudec_instances) =
      length (filter (\<lambda>x. x = i) (map (\<lambda>k. g_vpudec_instances ! k) [0..<100]))" by simp
  also have "\<dots> = length (filter (\<lambda>k. g_vpudec_instances ! k = i) [0..<100])"
    by (simp only: filter_map comp_def length_map)
  also have "\<dots> = vpu_share 0 i"
    unfolding vpu_share_def by (intro arg_cong [where f = length] filter_cong) simp_all
  finally show ?thesis using vpu_share_any [of c i] by simp
qed

text \<open>The turbo table deals the decoders out as its comment says: of any hundred decoders
  created one after the other, wherever the counter stands, the instances 0 to 5 get 20, 14, 15,
  15, 14 and 22, and no other instance gets one.\<close>

theorem vpu_turbo_shares:
  "map (vpu_share c) [0..<6] = [20, 14, 15, 15, 14, 22] \<and> length g_vpudec_instances = 100"
proof -
  have "[0..<6] = [0, 1, 2, 3, 4, 5::nat]" by (simp add: upt_rec numeral_nat)
  then show ?thesis by (simp add: vpu_share_count) (simp add: g_vpudec_instances_def)
qed

end
