(* ===== verification/Frame_Copy.thy ===== *)
theory Frame_Copy
  imports Edk_Exception
begin

text \<open>
  Copying a picture out of device memory and dropping the padding of its rows: \<open>clear_alignment\<close>,
  which the elements cnvideo_dec and cnconvert both have, \<open>copy_frame_d2h\<close> of cnvideo_dec. Sizes
  and offsets are computed in 32 bits, as \<open>uint32_t\<close> products are (\<open>m32\<close>); a copy that would leave
  its source or destination block is undefined behaviour (\<open>None\<close>). \<open>pack\<close> is the reference: the
  first \<open>w\<close> bytes of each of \<open>h\<close> rows that lie \<open>stride\<close> bytes apart.
\<close>

definition m32 :: "nat \<Rightarrow> nat" where
  "m32 x = x mod 2 ^ 32"

lemma m32_id [simp]: "x < 4294967296 \<Longrightarrow> m32 x = x"
  by (simp add: m32_def)

subsection \<open>Checked block copies\<close>

definition put :: "u8 list \<Rightarrow> nat \<Rightarrow> u8 list \<Rightarrow> u8 list option" where
  "put buf off bs = (if off + length bs \<le> length buf then Some (copy_into buf off bs (length bs)) else None)"

definition blit :: "u8 list \<Rightarrow> nat \<Rightarrow> u8 list \<Rightarrow> nat \<Rightarrow> nat \<Rightarrow> u8 list option" where
  "blit dst doff src soff n = (if soff + n \<le> length src then put dst doff (take n (drop soff src)) else None)"

fun for_rows :: "(nat \<Rightarrow> 'a \<Rightarrow> 'a option) \<Rightarrow> nat list \<Rightarrow> 'a \<Rightarrow> 'a option" where
  "for_rows step [] d = Some d"
| "for_rows step (i # is) d = Option.bind (step i d) (for_rows step is)"

lemma for_rows_snoc: "for_rows step (is @ [i]) d = Option.bind (for_rows step is d) (step i)"
proof (induction "is" arbitrary: d)
  case (Cons j js)
  then show ?case by (cases "step j d") simp_all
next
  case Nil
  then show ?case by (cases "step i d") simp_all
qed

definition pack :: "nat \<Rightarrow> nat \<Rightarrow> nat \<Rightarrow> nat \<Rightarrow> 'a list \<Rightarrow> 'a list" where
  "pack w h stride off src = concat (map (\<lambda>i. take w (drop (off + i * stride) src)) [0..<h])"

lemma pack_Suc: "pack w (Suc h) s off src = pack w h s off src @ take w (drop (off + h * s) src)"
  by (simp add: pack_def)

lemma pack_0 [simp]: "pack w 0 s off src = []"
  by (simp add: pack_def)

lemma rows_fit:
  assumes "Suc h \<le> H" and "w \<le> (s::nat)" and "off + H * s \<le> n"
  shows "off + h * s + w \<le> n"
proof -
  have "Suc h * s \<le> H * s" using assms(1) by (rule mult_le_mono1)
  then show ?thesis using assms(2,3) by simp
qed

lemma length_pack [simp]:
  assumes "off + h * s \<le> length src" and "w \<le> s"
  shows "length (pack w h s off src) = w * h"
  using assms
proof (induction h)
  case (Suc h)
  have "off + h * s + w \<le> length src" using rows_fit [of h "Suc h" w s off "length src"] Suc.prems by simp
  then have "length (take w (drop (off + h * s) src)) = w" by simp
  then show ?case using Suc by (simp add: pack_Suc)
qed simp

lemma pack_tight:
  assumes "off + h * w \<le> length src"
  shows "pack w h w off src = take (h * w) (drop off src)"
  using assms
proof (induction h)
  case (Suc h)
  have "take (Suc h * w) (drop off src) = take (h * w) (drop off src) @ take w (drop (h * w) (drop off src))"
    using take_add [of "h * w" w "drop off src"] by (simp add: add.commute)
  then show ?case using Suc by (simp add: pack_Suc add.commute)
qed simp

lemma pack_shift: "pack w h s (off + k) src = pack w h s k (drop off src)"
  by (simp add: pack_def ac_simps)

lemma pack_append1:
  assumes "k + h * s \<le> length a" and "w \<le> s"
  shows "pack w h s k (a @ b) = pack w h s k a"
  using assms
proof (induction h)
  case (Suc h)
  have "k + h * s + w \<le> length a" using rows_fit [of h "Suc h" w s k "length a"] Suc.prems by simp
  then show ?case using Suc by (simp add: pack_Suc)
qed simp

lemma pack_append2: "pack w h s (length a) (a @ b) = pack w h s 0 b"
  by (simp add: pack_def)

subsection \<open>Composition of copies\<close>

definition fill :: "'a list \<Rightarrow> nat \<Rightarrow> 'a list \<Rightarrow> 'a list" where
  "fill d off bs = copy_into d off bs (length bs)"

lemma length_fill [simp]: "off + length bs \<le> length d \<Longrightarrow> length (fill d off bs) = length d"
  by (simp add: fill_def)

lemma nth_fill:
  "off + length bs \<le> length d \<Longrightarrow> i < length d \<Longrightarrow>
   fill d off bs ! i = (if off \<le> i \<and> i < off + length bs then bs ! (i - off) else d ! i)"
  by (simp add: fill_def nth_copy_into)

lemma fill_Nil [simp]: "fill d off [] = d"
  by (simp add: fill_def)

lemma fill_extend:
  assumes "off + length a + length b \<le> length d"
  shows "fill (fill d off a) (off + length a) b = fill d off (a @ b)"
  by (rule nth_equalityI) (use assms in \<open>auto simp: nth_fill nth_append\<close>)

lemma fill_commute:
  assumes "p + length a \<le> q" and "q + length b \<le> length d"
  shows "fill (fill d q b) p a = fill (fill d p a) q b"
  by (rule nth_equalityI) (use assms in \<open>auto simp: nth_fill\<close>)

lemma fill_2:
  assumes "length a + length b = length d"
  shows "fill (fill d 0 a) (length a) b = a @ b"
  by (rule nth_equalityI) (use assms in \<open>auto simp: nth_fill nth_append\<close>)

lemma fill_3:
  assumes "length a + length b + length c = length d"
  shows "fill (fill (fill d 0 a) (length a) b) (length a + length b) c = a @ b @ c"
  by (rule nth_equalityI) (use assms in \<open>auto simp: nth_fill nth_append\<close>)

lemma blit_fill:
  "soff + n \<le> length src \<Longrightarrow> doff + n \<le> length d \<Longrightarrow> blit d doff src soff n = Some (fill d doff (take n (drop soff src)))"
  by (simp add: blit_def put_def fill_def)

text \<open>One more row at the end of what has been packed so far.\<close>

lemma blit_row:
  assumes "soff + h * s + w \<le> length src" and "w \<le> s" and "doff + w * h + w \<le> length d"
  shows "blit (fill d doff (pack w h s soff src)) (doff + w * h) src (soff + h * s) w =
           Some (fill d doff (pack w (Suc h) s soff src))"
proof -
  have l: "length (pack w h s soff src) = w * h" using assms by simp
  have "blit (fill d doff (pack w h s soff src)) (doff + w * h) src (soff + h * s) w =
          Some (fill (fill d doff (pack w h s soff src)) (doff + w * h) (take w (drop (soff + h * s) src)))"
    using assms l by (intro blit_fill) simp_all
  also have "\<dots> = Some (fill d doff (pack w (Suc h) s soff src))"
    using fill_extend [of doff "pack w h s soff src" "take w (drop (soff + h * s) src)" d] assms l
    by (simp add: pack_Suc)
  finally show ?thesis .
qed

lemma pack_row_lengths:
  assumes "soff + h * s + w \<le> length src" and "w \<le> s"
  shows "length (pack w h s soff src) = w * h" and "length (pack w (Suc h) s soff src) = w * h + w"
proof -
  show 1: "length (pack w h s soff src) = w * h" using assms by (intro length_pack) linarith+
  show "length (pack w (Suc h) s soff src) = w * h + w" using assms(1) by (simp add: pack_Suc 1)
qed

text \<open>The same in front of a region that is already filled.\<close>

lemma blit_under:
  assumes "soff + h * s + w \<le> length src" and "w \<le> s" and "doff + w * h + w \<le> q" and "q + length b \<le> length d"
  shows "blit (fill (fill d doff (pack w h s soff src)) q b) (doff + w * h) src (soff + h * s) w =
           Some (fill (fill d doff (pack w (Suc h) s soff src)) q b)"
proof -
  note l = pack_row_lengths [OF assms(1,2)]
  have 1: "fill (fill d q b) doff (pack w h s soff src) = fill (fill d doff (pack w h s soff src)) q b"
    using assms l by (intro fill_commute) simp_all
  have 2: "fill (fill d q b) doff (pack w (Suc h) s soff src) = fill (fill d doff (pack w (Suc h) s soff src)) q b"
    using assms l by (intro fill_commute) simp_all
  have "doff + w * h + w \<le> length (fill d q b)" using assms(3,4) by simp
  from blit_row [OF assms(1,2) this] show ?thesis unfolding 1 2 .
qed

subsection \<open>The rows of a picture, padding dropped\<close>

text \<open>
  The loop bodies: a row of luma in every round, a row of chroma in every even one. \<open>w\<close>, \<open>h\<close>,
  \<open>s0\<close>, \<open>s1\<close>, \<open>s2\<close> are the frame's width, height and strides.
\<close>

definition nv_row :: "nat \<Rightarrow> nat \<Rightarrow> nat \<Rightarrow> nat \<Rightarrow> u8 list \<Rightarrow> nat \<Rightarrow> u8 list \<Rightarrow> u8 list option" where
  "nv_row w h s0 s1 src i dst =
     Option.bind (blit dst (m32 (i * w)) src (m32 (i * s0)) w) (\<lambda>dst.
       if i mod 2 = 0
       then blit dst (m32 (w * h) + m32 (i * w) div 2) src (m32 (s0 * h) + m32 (i * s1) div 2) w
       else Some dst)"

definition i420_row :: "nat \<Rightarrow> nat \<Rightarrow> nat \<Rightarrow> nat \<Rightarrow> nat \<Rightarrow> u8 list \<Rightarrow> nat \<Rightarrow> u8 list \<Rightarrow> u8 list option" where
  "i420_row w h s0 s1 s2 src i dst =
     Option.bind (blit dst (m32 (i * w)) src (m32 (i * s0)) w) (\<lambda>dst.
       if i mod 2 = 0
       then Option.bind (blit dst (m32 (w * h) + m32 (i * w) div 4) src (m32 (s0 * h) + m32 (i * s1) div 2) (w div 2)) (\<lambda>dst.
            blit dst (m32 (w * h) + m32 (w * h) div 4 + m32 (i * w) div 4)
                 src (m32 (s0 * h) + m32 (s1 * h) div 2 + m32 (i * s2) div 2) (w div 2))
       else Some dst)"

definition clear_alignment :: "bool \<Rightarrow> nat \<Rightarrow> nat \<Rightarrow> nat \<Rightarrow> nat \<Rightarrow> nat \<Rightarrow> u8 list \<Rightarrow> u8 list \<Rightarrow> u8 list option" where
  "clear_alignment i420 w h s0 s1 s2 src dst =
     (if i420 then for_rows (i420_row w h s0 s1 s2 src) [0..<h] dst
      else for_rows (nv_row w h s0 s1 src) [0..<h] dst)"

lemma mult_bounds:
  assumes "k < h" and "x * h < (n::nat)"
  shows "k * x < n" and "x * k + x \<le> x * h"
proof -
  have "x * Suc k \<le> x * h" using assms(1) by (intro mult_le_mono2) simp
  then show "x * k + x \<le> x * h" by simp
  with assms(2) show "k * x < n" by (simp add: mult.commute)
qed

lemma nv_rows:
  assumes "even h" and "w \<le> s0" and "w \<le> s1" and "s0 * h < 2 ^ 32" and "s1 * h < 2 ^ 32"
    and src: "s0 * h + h div 2 * s1 \<le> length src" and dst: "w * h + w * (h div 2) = length dst"
    and "k \<le> h"
  shows "for_rows (nv_row w h s0 s1 src) [0..<k] dst =
     Some (fill (fill dst 0 (pack w k s0 0 src)) (w * h) (pack w ((k + 1) div 2) s1 (s0 * h) src))"
  using \<open>k \<le> h\<close>
proof (induction k)
  case 0
  then show ?case by simp
next
  case (Suc k)
  let ?Y = "\<lambda>k. pack w k s0 0 src" and ?U = "\<lambda>k. pack w k s1 (s0 * h) src"
  let ?u = "(k + 1) div 2"
  have k: "k < h" using Suc.prems by simp
  have wh: "w * h < 2 ^ 32" by (rule le_less_trans [OF mult_le_mono1 [OF assms(2)] assms(4)])
  note b = mult_bounds [OF k wh] mult_bounds [OF k assms(4)] mult_bounds [OF k assms(5)]
  have lenY: "length (?Y m) = w * m" if "m \<le> h" for m
  proof -
    have "m * s0 \<le> h * s0" using that by (rule mult_le_mono1)
    then have "0 + m * s0 \<le> length src" using src mult.commute [of h s0] by linarith
    then show ?thesis using assms(2) by (rule length_pack)
  qed
  have lenU: "length (?U m) = w * m" if "m \<le> h div 2" for m
  proof -
    have "m * s1 \<le> h div 2 * s1" using that by (rule mult_le_mono1)
    then have "s0 * h + m * s1 \<le> length src" using src by linarith
    then show ?thesis using assms(3) by (rule length_pack)
  qed
  have u: "?u \<le> h div 2" using k assms(1) by presburger
  have wu: "w * ?u \<le> w * (h div 2)" using u by (rule mult_le_mono2)
  have row: "k * s0 + w \<le> length src" using b(4) assms(2) src by (simp add: mult.commute)
  have "w * h + length (?U ?u) \<le> length dst" using lenU [OF u] wu dst by linarith
  from blit_under [of 0 k s0 w src 0 "w * h", OF _ assms(2) _ this] row b(2)
  have first: "blit (fill (fill dst 0 (?Y k)) (w * h) (?U ?u)) (k * w) src (k * s0) w =
       Some (fill (fill dst 0 (?Y (Suc k))) (w * h) (?U ?u))"
    by (simp only: add_0 mult.commute [of w k])
  show ?case
  proof (cases "even k")
    case False
    then have "(Suc k + 1) div 2 = ?u" "k mod 2 = 1" by presburger+
    with Suc k first b(1,3) wh assms(4) show ?thesis
      by (simp add: for_rows_snoc nv_row_def)
  next
    case True
    then obtain j where j: "k = 2 * j" by blast
    have jh: "Suc j \<le> h div 2" using k j assms(1) by presburger
    have wj: "w * Suc j \<le> w * (h div 2)" using jh by (rule mult_le_mono2)
    have sj: "Suc j * s1 \<le> h div 2 * s1" using jh by (rule mult_le_mono1)
    have "blit (fill (fill dst 0 (?Y (Suc k))) (w * h) (?U j)) (w * h + w * j) src (s0 * h + j * s1) w =
        Some (fill (fill dst 0 (?Y (Suc k))) (w * h) (?U (Suc j)))"
      using wj sj src dst assms(3) lenY [OF Suc.prems] b(2) by (intro blit_row) simp_all
    moreover have "(Suc k + 1) div 2 = Suc j" "(k + 1) div 2 = j" using j by simp_all
    moreover have "m32 (k * w) div 2 = w * j" "m32 (k * s1) div 2 = j * s1"
      using b(1,5) j by simp_all
    ultimately show ?thesis using Suc k first b(1,3) wh assms(4) True
      by (simp add: for_rows_snoc nv_row_def)
  qed
qed

text \<open>
  Dropping the padding of a semi-planar picture of even height yields its tight rows of luma
  followed by its tight rows of chroma, and touches nothing outside the blocks.
\<close>

lemma clear_alignment_nv:
  assumes "even h" and "w \<le> s0" and "w \<le> s1" and "s0 * h < 2 ^ 32" and "s1 * h < 2 ^ 32"
    and src: "s0 * h + h div 2 * s1 \<le> length src" and dst: "length dst = w * h + w * (h div 2)"
  shows "clear_alignment False w h s0 s1 s2 src dst = Some (pack w h s0 0 src @ pack w (h div 2) s1 (s0 * h) src)"
proof -
  have h: "(h + 1) div 2 = h div 2" using assms(1) by presburger
  have "for_rows (nv_row w h s0 s1 src) [0..<h] dst =
     Some (fill (fill dst 0 (pack w h s0 0 src)) (w * h) (pack w (h div 2) s1 (s0 * h) src))"
    using nv_rows [OF assms(1-6) dst [symmetric], of h] h by simp
  moreover have "fill (fill dst 0 (pack w h s0 0 src)) (w * h) (pack w (h div 2) s1 (s0 * h) src) =
     pack w h s0 0 src @ pack w (h div 2) s1 (s0 * h) src"
  proof -
    have l: "length (pack w h s0 0 src) = w * h" "length (pack w (h div 2) s1 (s0 * h) src) = w * (h div 2)"
      using src assms(2,3) by (simp_all add: mult.commute)
    with dst fill_2 [of "pack w h s0 0 src" "pack w (h div 2) s1 (s0 * h) src" dst] show ?thesis by simp
  qed
  ultimately show ?thesis by (simp add: clear_alignment_def)
qed

lemma blit_length: "blit d doff src soff n = Some e \<Longrightarrow> length e = length d"
  by (auto simp: blit_def put_def split: if_splits)

lemma blit_below_fill:
  assumes "doff + n \<le> q" and "q + length b \<le> length d"
  shows "blit (fill d q b) doff src soff n = map_option (\<lambda>d. fill d q b) (blit d doff src soff n)"
proof (cases "soff + n \<le> length src")
  case False
  then show ?thesis by (simp add: blit_def)
next
  case True
  have "fill (fill d q b) doff (take n (drop soff src)) = fill (fill d doff (take n (drop soff src))) q b"
    using assms True by (intro fill_commute) simp_all
  with True assms show ?thesis by (simp add: blit_fill)
qed

lemma i420_rows:
  assumes w: "w = 2 * cw" and h: "h = 2 * hh" and "w \<le> s0" and "cw \<le> s1" and "cw \<le> s2"
    and "s0 * h < 2 ^ 32" and "s1 * h < 2 ^ 32" and "s2 * h < 2 ^ 32"
    and src: "s0 * h + s1 * hh + s2 * hh \<le> length src" and dst: "length dst = w * h + cw * hh + cw * hh"
    and "k \<le> h"
  shows "for_rows (i420_row w h s0 s1 s2 src) [0..<k] dst =
     Some (fill (fill (fill dst 0 (pack w k s0 0 src))
                      (w * h) (pack cw ((k + 1) div 2) s1 (s0 * h) src))
                (w * h + cw * hh) (pack cw ((k + 1) div 2) s2 (s0 * h + s1 * hh) src))"
  using \<open>k \<le> h\<close>
proof (induction k)
  case 0
  then show ?case by simp
next
  case (Suc k)
  let ?Y = "\<lambda>k. pack w k s0 0 src" and ?U = "\<lambda>k. pack cw k s1 (s0 * h) src"
    and ?V = "\<lambda>k. pack cw k s2 (s0 * h + s1 * hh) src"
  let ?u = "(k + 1) div 2"
  have k: "k < h" using Suc.prems by simp
  have wh: "w * h < 2 ^ 32" by (rule le_less_trans [OF mult_le_mono1 [OF assms(3)] assms(6)])
  note b = mult_bounds [OF k wh] mult_bounds [OF k assms(6)] mult_bounds [OF k assms(7)] mult_bounds [OF k assms(8)]
  have u: "?u \<le> hh" using k h by presburger
  have le: "m * s1 \<le> s1 * hh" "m * s2 \<le> s2 * hh" "cw * m \<le> cw * hh" if "m \<le> hh" for m
    using that by (simp_all add: mult.commute mult_le_mono2)
  have lenU: "length (?U m) = cw * m" and lenV: "length (?V m) = cw * m" if "m \<le> hh" for m
    using le [OF that] src by (intro length_pack assms(4,5); linarith)+
  have row: "k * s0 + w \<le> length src" using b(4) assms(3) src by (simp add: mult.commute)
  have lenY: "length (?Y k) = w * k" "length (?Y (Suc k)) = w * k + w"
    using pack_row_lengths [of 0 k s0 w src] row assms(3) by simp_all
  have whd: "w * h + cw * hh + cw * hh \<le> length dst" using dst by simp
  have Y: "blit (fill dst 0 (?Y k)) (k * w) src (k * s0) w = Some (fill dst 0 (?Y (Suc k)))"
    using blit_row [of 0 k s0 w src 0 dst] row assms(3) b(2) whd by (simp add: mult.commute)
  have luv: "w * h + cw * hh + length (?V ?u) \<le> length dst" "w * h + length (?U ?u) \<le> w * h + cw * hh"
    using lenU [OF u] lenV [OF u] le(3) [OF u] whd by linarith+
  have first: "blit (fill (fill (fill dst 0 (?Y k)) (w * h) (?U ?u)) (w * h + cw * hh) (?V ?u)) (k * w) src (k * s0) w =
      Some (fill (fill (fill dst 0 (?Y (Suc k))) (w * h) (?U ?u)) (w * h + cw * hh) (?V ?u))"
    using Y luv b(2) whd lenY(1) by (simp add: blit_below_fill mult.commute [of k w])
  show ?case
  proof (cases "even k")
    case False
    then have "(Suc k + 1) div 2 = ?u" "k mod 2 = 1" by presburger+
    with Suc k first b(1,3) wh assms(6) show ?thesis by (simp add: for_rows_snoc i420_row_def)
  next
    case True
    then obtain j where j: "k = 2 * j" by blast
    have jh: "Suc j \<le> hh" using k j h by presburger
    note lj = le [OF jh] le [of j] lenU [of j] lenV [of j] lenU [OF jh] lenV [OF jh]
    have off: "m32 (k * w) = k * w" "m32 (k * s0) = k * s0" "m32 (k * s1) = k * s1" "m32 (k * s2) = k * s2"
      "m32 (w * h) = w * h" "m32 (s0 * h) = s0 * h" "m32 (s1 * h) = s1 * h"
      using b(1,3,5,7) wh assms(6,7) by simp_all
    have quot: "k * w div 4 = cw * j" "k * s1 div 2 = j * s1" "k * s2 div 2 = j * s2"
      "w * h div 4 = cw * hh" "s1 * h div 2 = s1 * hh"
      using j w h by simp_all
    let ?X = "fill dst 0 (?Y (Suc k))"
    have lX: "length ?X = length dst" using lenY b(2) whd by simp
    have U: "blit (fill ?X (w * h) (?U j)) (w * h + cw * j) src (s0 * h + j * s1) cw =
        Some (fill ?X (w * h) (?U (Suc j)))"
      using lj(1,3) src assms(4) lX whd by (intro blit_row) simp_all
    have V: "blit (fill (fill ?X (w * h) (?U (Suc j))) (w * h + cw * hh) (?V j)) (w * h + cw * hh + cw * j) src
               (s0 * h + s1 * hh + j * s2) cw =
        Some (fill (fill ?X (w * h) (?U (Suc j))) (w * h + cw * hh) (?V (Suc j)))"
      using lj src assms(5) lX whd jh by (intro blit_row) simp_all
    have "blit (fill (fill ?X (w * h) (?U j)) (w * h + cw * hh) (?V j)) (w * h + cw * j) src (s0 * h + j * s1) cw =
       Some (fill (fill ?X (w * h) (?U (Suc j))) (w * h + cw * hh) (?V j))"
      using U lj jh lX whd by (simp add: blit_below_fill)
    with V have chroma: "Option.bind
         (blit (fill (fill ?X (w * h) (?U j)) (w * h + cw * hh) (?V j)) (w * h + cw * j) src (s0 * h + j * s1) cw)
         (\<lambda>dst. blit dst (w * h + cw * hh + cw * j) src (s0 * h + s1 * hh + j * s2) cw) =
       Some (fill (fill ?X (w * h) (?U (Suc j))) (w * h + cw * hh) (?V (Suc j)))"
      by simp
    have e: "(Suc k + 1) div 2 = Suc j" "(k + 1) div 2 = j" "k mod 2 = 0" "w div 2 = cw" using j w by simp_all
    show ?thesis
      using Suc.IH [OF less_imp_le [OF k], unfolded e] first [unfolded e] chroma
      by (simp only: upt_Suc_append for_rows_snoc i420_row_def e off quot Option.bind.bind_lunit if_True refl le0)
  qed
qed

lemma clear_alignment_i420:
  assumes w: "w = 2 * cw" and h: "h = 2 * hh" and "w \<le> s0" and "cw \<le> s1" and "cw \<le> s2"
    and "s0 * h < 2 ^ 32" and "s1 * h < 2 ^ 32" and "s2 * h < 2 ^ 32"
    and src: "s0 * h + s1 * hh + s2 * hh \<le> length src" and dst: "length dst = w * h + cw * hh + cw * hh"
  shows "clear_alignment True w h s0 s1 s2 src dst =
     Some (pack w h s0 0 src @ pack cw hh s1 (s0 * h) src @ pack cw hh s2 (s0 * h + s1 * hh) src)"
proof -
  let ?Y = "pack w h s0 0 src" and ?U = "pack cw hh s1 (s0 * h) src" and ?V = "pack cw hh s2 (s0 * h + s1 * hh) src"
  have "(h + 1) div 2 = hh" using h by simp
  with i420_rows [OF assms, of h] have
    "clear_alignment True w h s0 s1 s2 src dst = Some (fill (fill (fill dst 0 ?Y) (w * h) ?U) (w * h + cw * hh) ?V)"
    by (simp add: clear_alignment_def)
  moreover have "length ?Y = w * h" "length ?U = cw * hh" "length ?V = cw * hh"
    using src mult.commute [of s0 h] mult.commute [of s1 hh] mult.commute [of s2 hh]
    by (intro length_pack assms(3-5); linarith)+
  ultimately show ?thesis using fill_3 [of ?Y ?U ?V dst] dst by simp
qed

text \<open>The packed formats of cnconvert: \<open>ch\<close> bytes a pixel, one plane.\<close>

definition rgb_row :: "nat \<Rightarrow> nat \<Rightarrow> nat \<Rightarrow> u8 list \<Rightarrow> nat \<Rightarrow> u8 list \<Rightarrow> u8 list option" where
  "rgb_row w ch s0 src i dst = blit dst (m32 (i * w * ch)) src (m32 (i * s0)) (m32 (w * ch))"

lemma rgb_rows:
  assumes "w * ch \<le> s0" and "s0 * h < 2 ^ 32" and src: "h * s0 \<le> length src" and dst: "length dst = w * ch * h"
    and "k \<le> h"
  shows "for_rows (rgb_row w ch s0 src) [0..<k] dst = Some (fill dst 0 (pack (w * ch) k s0 0 src))"
  using \<open>k \<le> h\<close>
proof (induction k)
  case 0
  then show ?case by simp
next
  case (Suc k)
  have k: "k < h" using Suc.prems by simp
  have wh: "w * ch * h < 2 ^ 32" by (rule le_less_trans [OF mult_le_mono1 [OF assms(1)] assms(2)])
  note b = mult_bounds [OF k wh] mult_bounds [OF k assms(2)]
  have c: "w * ch < 2 ^ 32" using b(2) wh by linarith
  have row: "k * s0 + w * ch \<le> length src" using b(4) assms(1) src by (simp add: mult.commute)
  have "blit (fill dst 0 (pack (w * ch) k s0 0 src)) (k * w * ch) src (k * s0) (w * ch) =
      Some (fill dst 0 (pack (w * ch) (Suc k) s0 0 src))"
    using blit_row [of 0 k s0 "w * ch" src 0 dst] row assms(1) b(2) dst by (simp add: ac_simps)
  with Suc k b(1,3) c show ?case by (simp add: for_rows_snoc rgb_row_def mult.assoc)
qed

lemma clear_alignment_rgb:
  assumes "w * ch \<le> s0" and "s0 * h < 2 ^ 32" and "h * s0 \<le> length src" and "length dst = w * ch * h"
  shows "for_rows (rgb_row w ch s0 src) [0..<h] dst = Some (pack (w * ch) h s0 0 src)"
proof -
  have "length (pack (w * ch) h s0 0 src) = length dst"
    using length_pack [of 0 h s0 src "w * ch"] assms by simp
  with fill_2 [of "pack (w * ch) h s0 0 src" "[]" dst] rgb_rows [OF assms, of h] show ?thesis by simp
qed

end
