(* ===== verification/Mlu_Frame.thy ===== *)
theory Mlu_Frame
  imports Synced_Memory
begin

text \<open>
  Frames in device memory and the buffer meta that carries them: gst-libs/common/gst_mlu_frame.cpp,
  gst_mlu_frame.h, mlu_memory_meta.cpp and frame_deallocator.h. A frame is a reference-counted
  mini object with up to six planes of synced memory and a deallocator; every meta on a buffer
  holds one reference. The heap of frames, the reference counts and the calls of the deallocators
  are the state; \<open>meta_step\<close> is what elements and GStreamer do with metas.
\<close>

subsection \<open>Frames\<close>

definition MAXIMUM_PLANE :: nat where "MAXIMUM_PLANE = 6"

record 'd GstMluFrame =
  fr_device_id :: int
  channel_id :: u32
  fr_stride :: "u32 list"
  n_planes :: nat
  fr_width :: u32
  fr_height :: u32
  fr_data :: "GstSyncedMemory option list"
  deallocator :: "'d option"

text \<open>
  The reference count is kept with the frame; \<open>fr_calls\<close> lists the \<open>deallocate()\<close> calls made and
  \<open>fr_freed\<close> the frames whose storage was released, the newest first.
\<close>

record 'd frames =
  fr_heap :: "nat \<Rightarrow> (nat \<times> 'd GstMluFrame) option"
  fr_next :: nat
  fr_mach :: mach
  fr_calls :: "'d list"
  fr_freed :: "nat list"

definition empty_frame :: "'d GstMluFrame" where
  "empty_frame = \<lparr>fr_device_id = 0, channel_id = 0, fr_stride = replicate MAXIMUM_PLANE 0, n_planes = 0,
     fr_width = 0, fr_height = 0, fr_data = replicate MAXIMUM_PLANE None, deallocator = None\<rparr>"

definition gst_mlu_frame_new :: "'d frames \<Rightarrow> nat \<times> 'd frames" where
  "gst_mlu_frame_new w =
     (fr_next w, w\<lparr>fr_heap := (fr_heap w)(fr_next w \<mapsto> (1, empty_frame)), fr_next := Suc (fr_next w)\<rparr>)"

text \<open>The planes are released in order; a plane that is a null pointer is dereferenced.\<close>

fun free_planes :: "cnrt \<Rightarrow> GstSyncedMemory option list \<Rightarrow> mach \<Rightarrow> (mach, unit) run" where
  "free_planes rt [] m = Ret () m"
| "free_planes rt (None # ps) m = UB"
| "free_planes rt (Some s # ps) m =
     (case cn_syncedmem_free rt (m, s) of
        Ret ok (m', s') \<Rightarrow> free_planes rt ps m'
      | Exc e (m', s') \<Rightarrow> Exc e m' | UB \<Rightarrow> UB | Terminate \<Rightarrow> Terminate | Blocked (m', s') \<Rightarrow> Blocked m')"

definition gst_mlu_frame_free :: "cnrt \<Rightarrow> nat \<Rightarrow> 'd GstMluFrame \<Rightarrow> 'd frames \<Rightarrow> ('d frames, unit) run" where
  "gst_mlu_frame_free rt f fr w =
     (let w = (case deallocator fr of None \<Rightarrow> w | Some d \<Rightarrow> w\<lparr>fr_calls := d # fr_calls w\<rparr>)
      in if MAXIMUM_PLANE < n_planes fr then UB
         else lift_call (\<lambda>m. w\<lparr>fr_mach := m, fr_heap := (fr_heap w)(f := None), fr_freed := f # fr_freed w\<rparr>)
                (free_planes rt (take (n_planes fr) (fr_data fr)) (fr_mach w)))"

definition gst_mlu_frame_ref :: "nat \<Rightarrow> 'd frames \<Rightarrow> ('d frames, nat) run" where
  "gst_mlu_frame_ref f w =
     (case fr_heap w f of None \<Rightarrow> UB
      | Some (n, fr) \<Rightarrow> Ret f (w\<lparr>fr_heap := (fr_heap w)(f \<mapsto> (Suc n, fr))\<rparr>))"

definition gst_mlu_frame_unref :: "cnrt \<Rightarrow> nat \<Rightarrow> 'd frames \<Rightarrow> ('d frames, unit) run" where
  "gst_mlu_frame_unref rt f w =
     (case fr_heap w f of None \<Rightarrow> UB
      | Some (n, fr) \<Rightarrow>
          if n = 1 then gst_mlu_frame_free rt f fr w
          else Ret () (w\<lparr>fr_heap := (fr_heap w)(f \<mapsto> (n - 1, fr))\<rparr>))"

subsection \<open>The buffer meta\<close>

text \<open>A frame pointer of 0 is null.\<close>

record MluMemoryMeta =
  meta_src :: "string option"
  meta_frame :: nat

definition gst_mlu_memory_meta_init :: "MluMemoryMeta \<Rightarrow> MluMemoryMeta" where
  "gst_mlu_memory_meta_init m = m\<lparr>meta_src := None\<rparr>"

definition gst_buffer_add_mlu_memory_meta :: "nat \<Rightarrow> string option \<Rightarrow> MluMemoryMeta" where
  "gst_buffer_add_mlu_memory_meta frame src =
     (gst_mlu_memory_meta_init \<lparr>meta_src = None, meta_frame = 0\<rparr>)\<lparr>meta_src := src, meta_frame := frame\<rparr>"

definition gst_mlu_memory_meta_free :: "cnrt \<Rightarrow> MluMemoryMeta \<Rightarrow> 'd frames \<Rightarrow> ('d frames, unit) run" where
  "gst_mlu_memory_meta_free rt m w = (if meta_frame m \<noteq> 0 then gst_mlu_frame_unref rt (meta_frame m) w else Ret () w)"

text \<open>
  \<open>is_copy\<close>: the transform is a copy; \<open>region\<close>: only a part of the buffer is copied. The result is
  the meta of the target buffer, if one was added.
\<close>

definition gst_mlu_memory_meta_transform ::
    "bool \<Rightarrow> bool \<Rightarrow> MluMemoryMeta \<Rightarrow> 'd frames \<Rightarrow> ('d frames, MluMemoryMeta option) run" where
  "gst_mlu_memory_meta_transform is_copy region m w =
     (if is_copy \<and> \<not> region
      then call_then (gst_mlu_frame_ref (meta_frame m) w) (\<lambda>f w.
             Ret (Some (gst_buffer_add_mlu_memory_meta f (meta_src m))) w)
      else Ret None w)"

subsection \<open>Releasing planes\<close>

definition owned_host :: "GstSyncedMemory \<Rightarrow> addr list" where
  "owned_host s = (if own_host_data s then [host_ptr s] else [])"

definition owned_dev :: "GstSyncedMemory \<Rightarrow> addr list" where
  "owned_dev s = (if own_dev_data s then [dev_ptr s] else [])"

definition plane_live :: "mach \<Rightarrow> GstSyncedMemory \<Rightarrow> bool" where
  "plane_live m s \<longleftrightarrow> (own_host_data s \<longrightarrow> host_ptr s \<noteq> 0 \<and> hmem m (host_ptr s) \<noteq> None) \<and>
     (own_dev_data s \<longrightarrow> dev_ptr s \<noteq> 0 \<and> dmem m (dev_ptr s) \<noteq> None)"

lemma sm_wf_plane_live: "sm_wf (m, s) \<Longrightarrow> plane_live m s"
  by (auto simp: sm_wf_def plane_live_def blk_ok_iff)

definition host_owned :: "GstSyncedMemory option list \<Rightarrow> addr list" where
  "host_owned ps = concat (map (\<lambda>p. case p of None \<Rightarrow> [] | Some s \<Rightarrow> owned_host s) ps)"

definition dev_owned :: "GstSyncedMemory option list \<Rightarrow> addr list" where
  "dev_owned ps = concat (map (\<lambda>p. case p of None \<Rightarrow> [] | Some s \<Rightarrow> owned_dev s) ps)"

definition planes_live :: "mach \<Rightarrow> GstSyncedMemory option list \<Rightarrow> bool" where
  "planes_live m ps \<longleftrightarrow> (\<forall>p\<in>set ps. \<exists>s. p = Some s \<and> plane_live m s) \<and> distinct (host_owned ps) \<and> distinct (dev_owned ps)"

lemma owned_Cons [simp]:
  "host_owned (Some s # ps) = owned_host s @ host_owned ps" "dev_owned (Some s # ps) = owned_dev s @ dev_owned ps"
  "host_owned [] = []" "dev_owned [] = []"
  by (simp_all add: host_owned_def dev_owned_def)

lemma free_plane:
  assumes "cnrt_ok rt" and "plane_live m s"
  shows "\<exists>m' s'. cn_syncedmem_free rt (m, s) = Ret True (m', s') \<and>
     (\<forall>a. hmem m' a = (if a \<in> set (owned_host s) then None else hmem m a)) \<and>
     (\<forall>a. dmem m' a = dmem m a \<or> a \<in> set (owned_dev s))"
proof -
  define mh where "mh = (if own_host_data s
     then m\<lparr>hmem := (hmem m)(host_ptr s := None), hfree := hfree m + length (the (hmem m (host_ptr s)))\<rparr> else m)"
  define sh where "sh = (if own_host_data s then s\<lparr>own_host_data := False\<rparr> else s)"
  have host: "(if host_ptr s \<noteq> 0 \<and> own_host_data s
        then call_then (on_mach (free (host_ptr s)) (m, s)) (\<lambda>_ (m, s). Ret () (m, s\<lparr>own_host_data := False\<rparr>))
        else Ret () (m, s)) = Ret () (mh, sh)"
    using assms(2) by (auto simp: plane_live_def mh_def sh_def on_mach_def free_def)
  have mem: "dmem mh = dmem m" "dev_ptr sh = dev_ptr s" "own_dev_data sh = own_dev_data s"
    "\<forall>a. hmem mh a = (if a \<in> set (owned_host s) then None else hmem m a)"
    by (auto simp: mh_def sh_def owned_host_def)
  have call: "cn_syncedmem_free rt (m, s) =
     (if dev_ptr sh \<noteq> 0 \<and> own_dev_data sh
      then free_dev_or_fail rt (mh, sh) (\<lambda>(m, s). Ret True (m, s\<lparr>own_dev_data := False\<rparr>))
      else Ret True (mh, sh))"
    unfolding cn_syncedmem_free_def snd_conv host by simp
  show ?thesis
  proof (cases "own_dev_data s")
    case False
    then have "cn_syncedmem_free rt (m, s) = Ret True (mh, sh)" by (simp add: call mem)
    with mem show ?thesis by (intro exI [of _ mh] exI [of _ sh]) simp
  next
    case True
    with assms(2) mem have live: "dmem mh (dev_ptr sh) \<noteq> None" "dev_ptr sh \<noteq> 0" by (auto simp: plane_live_def)
    from free_dev_ret [OF assms(1) live(1), of "\<lambda>(m, s). Ret True (m, s\<lparr>own_dev_data := False\<rparr>)"]
    obtain m' where m': "cn_syncedmem_free rt (m, s) = Ret True (m', sh\<lparr>own_dev_data := False\<rparr>)"
      "hmem m' = hmem mh" "dmem m' = (dmem mh)(dev_ptr sh := None) \<or> m' = mh"
      using True live(2) mem(3) by (auto simp: call)
    have "\<forall>a. dmem m' a = dmem m a \<or> a \<in> set (owned_dev s)"
      using m'(3) mem(1,2) True by (auto simp: owned_dev_def)
    with m' mem(4) show ?thesis by (intro exI [of _ m'] exI [of _ "sh\<lparr>own_dev_data := False\<rparr>"]) simp
  qed
qed

lemma plane_live_kept:
  assumes "plane_live m s"
    and "\<forall>a. hmem m' a = (if a \<in> H then None else hmem m a)" and "\<forall>a. dmem m' a = dmem m a \<or> a \<in> D"
    and "set (owned_host s) \<inter> H = {}" and "set (owned_dev s) \<inter> D = {}"
  shows "plane_live m' s"
proof (unfold plane_live_def, intro conjI impI)
  assume o: "own_host_data s"
  then show "host_ptr s \<noteq> 0" using assms(1) by (simp add: plane_live_def)
  have "host_ptr s \<notin> H" using assms(4) o by (simp add: owned_host_def)
  then show "hmem m' (host_ptr s) \<noteq> None" using assms(1,2) o by (simp add: plane_live_def)
next
  assume o: "own_dev_data s"
  then show "dev_ptr s \<noteq> 0" using assms(1) by (simp add: plane_live_def)
  have "dev_ptr s \<notin> D" using assms(5) o by (simp add: owned_dev_def)
  then have "dmem m' (dev_ptr s) = dmem m (dev_ptr s)" using assms(3) by blast
  then show "dmem m' (dev_ptr s) \<noteq> None" using assms(1) o by (simp add: plane_live_def)
qed

lemma owned_subset:
  "Some s \<in> set ps \<Longrightarrow> set (owned_host s) \<subseteq> set (host_owned ps) \<and> set (owned_dev s) \<subseteq> set (dev_owned ps)"
  by (force simp: host_owned_def dev_owned_def)

lemma planes_live_kept:
  assumes "planes_live m ps"
    and "\<forall>a. hmem m' a = (if a \<in> H then None else hmem m a)" and "\<forall>a. dmem m' a = dmem m a \<or> a \<in> D"
    and "set (host_owned ps) \<inter> H = {}" and "set (dev_owned ps) \<inter> D = {}"
  shows "planes_live m' ps"
proof -
  have "plane_live m' s" if "Some s \<in> set ps" for s
  proof (rule plane_live_kept [OF _ assms(2,3)])
    show "plane_live m s" using assms(1) that by (auto simp: planes_live_def)
    show "set (owned_host s) \<inter> H = {}" "set (owned_dev s) \<inter> D = {}"
      using owned_subset [OF that] assms(4,5) by blast+
  qed
  then show ?thesis using assms(1) by (force simp: planes_live_def)
qed

text \<open>All planes of a frame: exactly the host blocks they own are freed, each once.\<close>

lemma free_planes_exact:
  assumes "cnrt_ok rt" and "planes_live m ps"
  shows "\<exists>m'. free_planes rt ps m = Ret () m' \<and>
     (\<forall>a. hmem m' a = (if a \<in> set (host_owned ps) then None else hmem m a)) \<and>
     (\<forall>a. dmem m' a = dmem m a \<or> a \<in> set (dev_owned ps))"
  using assms(2)
proof (induction ps arbitrary: m)
  case Nil
  then show ?case by simp
next
  case (Cons p ps)
  then obtain s where p: "p = Some s" and live: "plane_live m s" by (auto simp: planes_live_def)
  from free_plane [OF assms(1) live] obtain m1 s1 where
    1: "cn_syncedmem_free rt (m, s) = Ret True (m1, s1)"
      "\<forall>a. hmem m1 a = (if a \<in> set (owned_host s) then None else hmem m a)"
      "\<forall>a. dmem m1 a = dmem m a \<or> a \<in> set (owned_dev s)" by blast
  have "planes_live m ps" using Cons.prems p by (auto simp: planes_live_def)
  moreover have "set (host_owned ps) \<inter> set (owned_host s) = {}" "set (dev_owned ps) \<inter> set (owned_dev s) = {}"
    using Cons.prems p by (auto simp: planes_live_def)
  ultimately have "planes_live m1 ps" by (rule planes_live_kept [OF _ 1(2,3)])
  from Cons.IH [OF this] obtain m2 where
    2: "free_planes rt ps m1 = Ret () m2" "\<forall>a. hmem m2 a = (if a \<in> set (host_owned ps) then None else hmem m1 a)"
      "\<forall>a. dmem m2 a = dmem m1 a \<or> a \<in> set (dev_owned ps)" by blast
  show ?case
    by (rule exI [of _ m2]) (use 1 2 p in \<open>auto, metis\<close>)
qed

subsection \<open>The life of a frame\<close>

definition planes :: "'d GstMluFrame \<Rightarrow> GstSyncedMemory option list" where
  "planes fr = take (n_planes fr) (fr_data fr)"

definition refs :: "MluMemoryMeta list \<Rightarrow> nat \<Rightarrow> nat" where
  "refs ms f = length (filter (\<lambda>m. meta_frame m = f) ms)"

lemma refs_simps [simp]:
  "refs [] f = 0" "refs (ms @ [m]) f = refs ms f + (if meta_frame m = f then 1 else 0)"
  by (simp_all add: refs_def)

lemma refs_drop:
  assumes "i < length ms"
  shows "refs ms f = refs (take i ms @ drop (Suc i) ms) f + (if meta_frame (ms ! i) = f then 1 else 0)"
proof -
  have eq: "ms = take i ms @ ms ! i # drop (Suc i) ms" using assms by (rule id_take_nth_drop)
  show ?thesis unfolding refs_def by (subst eq) simp
qed

text \<open>No block that the planes own is released behind their back.\<close>

definition keeps_blocks :: "mach \<Rightarrow> mach \<Rightarrow> bool" where
  "keeps_blocks m m' \<longleftrightarrow> (\<forall>a. (hmem m a \<noteq> None \<longrightarrow> hmem m' a \<noteq> None) \<and> (dmem m a \<noteq> None \<longrightarrow> dmem m' a \<noteq> None))"

definition apart :: "'d GstMluFrame \<Rightarrow> 'd GstMluFrame \<Rightarrow> bool" where
  "apart a b \<longleftrightarrow> set (host_owned (planes a)) \<inter> set (host_owned (planes b)) = {} \<and>
     set (dev_owned (planes a)) \<inter> set (dev_owned (planes b)) = {}"

text \<open>
  What happens to metas: an element makes a frame, fills its fields (planes of its own) and hangs
  it on a buffer; a buffer is copied; a buffer is released; other code uses the memories.
\<close>

inductive meta_step :: "cnrt \<Rightarrow> MluMemoryMeta list \<times> 'd frames \<Rightarrow> MluMemoryMeta list \<times> 'd frames \<Rightarrow> bool"
  for rt :: cnrt where
  add_frame: "gst_mlu_frame_new w = (f, w1) \<Longrightarrow> n_planes fr \<le> MAXIMUM_PLANE \<Longrightarrow> planes_live (fr_mach w) (planes fr) \<Longrightarrow>
     (\<forall>g n fr'. fr_heap w g = Some (n, fr') \<longrightarrow> apart fr fr') \<Longrightarrow>
     meta_step rt (ms, w) (ms @ [gst_buffer_add_mlu_memory_meta f src], w1\<lparr>fr_heap := (fr_heap w1)(f \<mapsto> (1, fr))\<rparr>)"
| copy_buffer: "i < length ms \<Longrightarrow> gst_mlu_memory_meta_transform True region (ms ! i) w = Ret (Some m) w' \<Longrightarrow>
     meta_step rt (ms, w) (ms @ [m], w')"
| release_buffer: "i < length ms \<Longrightarrow> gst_mlu_memory_meta_free rt (ms ! i) w = Ret () w' \<Longrightarrow>
     meta_step rt (ms, w) (take i ms @ drop (Suc i) ms, w')"
| use_memory: "keeps_blocks (fr_mach w) m' \<Longrightarrow> meta_step rt (ms, w) (ms, w\<lparr>fr_mach := m'\<rparr>)"

inductive meta_reach :: "cnrt \<Rightarrow> MluMemoryMeta list \<times> 'd frames \<Rightarrow> bool" for rt :: cnrt where
  start: "meta_reach rt ([], \<lparr>fr_heap = (\<lambda>_. None), fr_next = 1, fr_mach = m, fr_calls = [], fr_freed = []\<rparr>)"
| step: "meta_reach rt st \<Longrightarrow> meta_step rt st st' \<Longrightarrow> meta_reach rt st'"

definition meta_inv :: "MluMemoryMeta list \<Rightarrow> 'd frames \<Rightarrow> bool" where
  "meta_inv ms w \<longleftrightarrow> 0 < fr_next w \<and>
     (\<forall>f. fr_heap w f = None \<longrightarrow> refs ms f = 0) \<and>
     (\<forall>f n fr. fr_heap w f = Some (n, fr) \<longrightarrow> n = refs ms f \<and> 0 < n \<and> 0 < f \<and> f < fr_next w \<and>
        n_planes fr \<le> MAXIMUM_PLANE \<and> planes_live (fr_mach w) (planes fr)) \<and>
     (\<forall>f g n n' fr fr'. f \<noteq> g \<longrightarrow> fr_heap w f = Some (n, fr) \<longrightarrow> fr_heap w g = Some (n', fr') \<longrightarrow> apart fr fr') \<and>
     distinct (fr_freed w) \<and> (\<forall>f\<in>set (fr_freed w). f < fr_next w \<and> fr_heap w f = None)"

lemma meta_invD:
  assumes "meta_inv ms w"
  shows "0 < fr_next w" and "fr_heap w f = None \<Longrightarrow> refs ms f = 0"
    and "fr_heap w f = Some (n, fr) \<Longrightarrow> n = refs ms f \<and> 0 < n \<and> 0 < f \<and> f < fr_next w \<and>
        n_planes fr \<le> MAXIMUM_PLANE \<and> planes_live (fr_mach w) (planes fr)"
    and "f \<noteq> g \<Longrightarrow> fr_heap w f = Some (n, fr) \<Longrightarrow> fr_heap w g = Some (n', fr') \<Longrightarrow> apart fr fr'"
    and "distinct (fr_freed w)" and "f \<in> set (fr_freed w) \<Longrightarrow> f < fr_next w \<and> fr_heap w f = None"
  using assms unfolding meta_inv_def by blast+

lemma refs_pos: "i < length ms \<Longrightarrow> 0 < refs ms (meta_frame (ms ! i))"
  using refs_drop [of i ms] by simp

text \<open>Releasing the meta of a buffer: it drops a reference, the last one frees the frame.\<close>

lemma meta_free_effect:
  assumes rt: "cnrt_ok rt" and inv: "meta_inv ms w" and i: "i < length ms" and f: "f = meta_frame (ms ! i)"
  obtains n fr where "fr_heap w f = Some (n, fr)" "1 < n"
      "gst_mlu_memory_meta_free rt (ms ! i) w = Ret () (w\<lparr>fr_heap := (fr_heap w)(f \<mapsto> (n - 1, fr))\<rparr>)"
  | fr m' where "fr_heap w f = Some (1, fr)"
      "gst_mlu_memory_meta_free rt (ms ! i) w = Ret () (w\<lparr>fr_mach := m', fr_heap := (fr_heap w)(f := None),
          fr_freed := f # fr_freed w, fr_calls := (case deallocator fr of None \<Rightarrow> [] | Some d \<Rightarrow> [d]) @ fr_calls w\<rparr>)"
      "\<forall>a. hmem m' a = (if a \<in> set (host_owned (planes fr)) then None else hmem (fr_mach w) a)"
      "\<forall>a. dmem m' a = dmem (fr_mach w) a \<or> a \<in> set (dev_owned (planes fr))"
proof -
  have "0 < refs ms f" using refs_pos [OF i] f by simp
  with meta_invD(2) [OF inv, of f] obtain n fr where h: "fr_heap w f = Some (n, fr)" by (cases "fr_heap w f") auto
  note d = meta_invD(3) [OF inv h]
  show ?thesis
  proof (cases "n = 1")
    case False
    with d h f have "1 < n" "gst_mlu_memory_meta_free rt (ms ! i) w = Ret () (w\<lparr>fr_heap := (fr_heap w)(f \<mapsto> (n - 1, fr))\<rparr>)"
      by (simp_all add: gst_mlu_memory_meta_free_def gst_mlu_frame_unref_def)
    with h that(1) show ?thesis by blast
  next
    case True
    from free_planes_exact [OF rt, of "fr_mach w" "planes fr"] d obtain m' where
      m': "free_planes rt (planes fr) (fr_mach w) = Ret () m'"
        "\<forall>a. hmem m' a = (if a \<in> set (host_owned (planes fr)) then None else hmem (fr_mach w) a)"
        "\<forall>a. dmem m' a = dmem (fr_mach w) a \<or> a \<in> set (dev_owned (planes fr))" by blast
    have "gst_mlu_memory_meta_free rt (ms ! i) w = Ret () (w\<lparr>fr_mach := m', fr_heap := (fr_heap w)(f := None),
          fr_freed := f # fr_freed w, fr_calls := (case deallocator fr of None \<Rightarrow> [] | Some d \<Rightarrow> [d]) @ fr_calls w\<rparr>)"
      using d h f True m'(1)
      by (simp add: gst_mlu_memory_meta_free_def gst_mlu_frame_unref_def gst_mlu_frame_free_def planes_def split: option.split)
    with h True m'(2,3) that(2) show ?thesis by blast
  qed
qed

lemma planes_live_keeps: "planes_live m ps \<Longrightarrow> keeps_blocks m m' \<Longrightarrow> planes_live m' ps"
  by (force simp: planes_live_def keeps_blocks_def plane_live_def)

lemma meta_inv_add:
  assumes "meta_inv ms w" and "gst_mlu_frame_new w = (f, w1)" and "n_planes fr \<le> MAXIMUM_PLANE"
    and "planes_live (fr_mach w) (planes fr)" and "\<forall>g n fr'. fr_heap w g = Some (n, fr') \<longrightarrow> apart fr fr'"
    and "meta_frame m = f"
  shows "meta_inv (ms @ [m]) (w1\<lparr>fr_heap := (fr_heap w1)(f \<mapsto> (1, fr))\<rparr>)"
proof -
  have f: "f = fr_next w" and w1: "w1 = w\<lparr>fr_heap := (fr_heap w)(f \<mapsto> (1, empty_frame)), fr_next := Suc f\<rparr>"
    using assms(2) by (auto simp: gst_mlu_frame_new_def)
  note d = meta_invD [OF assms(1)]
  have none: "fr_heap w f = None" using d(3) [of f] f by (cases "fr_heap w f") auto
  have sym: "apart fr' fr" if "fr_heap w g = Some (n, fr')" for g n fr'
    using assms(5) that unfolding apart_def by blast
  show ?thesis
    unfolding meta_inv_def w1
  proof (intro conjI allI impI ballI, goal_cases)
    case (2 g) then show ?case using d(2) [of g] assms(6) by (auto split: if_splits)
  next
    case (3 g n fr') then show ?case using d(3) [of g n fr'] d(2) [OF none] assms(6) f d(1) by (auto split: if_splits)
  next
    case (4 g n fr') then show ?case using d(3) [of g n fr'] by (auto split: if_splits)
  next
    case (5 g n fr') then show ?case using d(3) [of g n fr'] d(1) f by (auto split: if_splits)
  next
    case (6 g n fr') then show ?case using d(3) [of g n fr'] f by (auto split: if_splits)
  next
    case (7 g n fr') then show ?case using d(3) [of g n fr'] assms(3) by (auto split: if_splits)
  next
    case (8 g n fr') then show ?case using d(3) [of g n fr'] assms(4) by (auto split: if_splits)
  next
    case (9 g h n n' a b)
    then show ?case using d(4) [of g h n a n' b] assms(5) sym by (auto split: if_splits)
  qed (use d f none in \<open>auto simp: less_Suc_eq dest: d(6)\<close>)
qed

lemma meta_inv_count:
  assumes "meta_inv ms w" and h: "fr_heap w f = Some (n, fr)"
    and "\<And>g. refs ms' g = (if g = f then n' else refs ms g)" and "0 < n'"
  shows "meta_inv ms' (w\<lparr>fr_heap := (fr_heap w)(f \<mapsto> (n', fr))\<rparr>)"
proof -
  note d = meta_invD [OF assms(1)]
  note df = d(3) [OF h]
  have fresh: "f \<notin> set (fr_freed w)" using d(6) [of f] h by auto
  show ?thesis unfolding meta_inv_def
  proof (intro conjI allI impI ballI, goal_cases)
    case (9 g k a b x y)
    then show ?case using d(4) [of g k] h by (auto split: if_splits)
  next
    case (3 g a x) then show ?case using d(3) [of g a x] assms(3) [of g] by (auto split: if_splits)
  next
    case (4 g a x) then show ?case using d(3) [of g a x] assms(4) by (auto split: if_splits)
  qed (use d df assms(3) fresh in \<open>auto split: if_splits\<close>)
qed

lemma meta_inv_freed:
  assumes "meta_inv ms w" and h: "fr_heap w f = Some (1, fr)" and "\<And>g. refs ms' g = (if g = f then 0 else refs ms g)"
    and "\<forall>a. hmem m' a = (if a \<in> set (host_owned (planes fr)) then None else hmem (fr_mach w) a)"
    and "\<forall>a. dmem m' a = dmem (fr_mach w) a \<or> a \<in> set (dev_owned (planes fr))"
  shows "meta_inv ms' (w\<lparr>fr_mach := m', fr_heap := (fr_heap w)(f := None), fr_freed := f # fr_freed w, fr_calls := c\<rparr>)"
proof -
  note d = meta_invD [OF assms(1)]
  note df = d(3) [OF h]
  have fresh: "f \<notin> set (fr_freed w)" using d(6) [of f] h by auto
  have live: "planes_live m' (planes fr')" if "g \<noteq> f" "fr_heap w g = Some (n, fr')" for g n fr'
    using d(3) [OF that(2)] d(4) [OF that(1) that(2) h] by (intro planes_live_kept [OF _ assms(4,5)]) (auto simp: apart_def)
  show ?thesis unfolding meta_inv_def
  proof (intro conjI allI impI ballI, goal_cases)
    case (9 g k a b x y)
    then show ?case using d(4) [of g k] by (auto split: if_splits)
  next
    case (3 g a x) then show ?case using d(3) [of g a x] assms(3) [of g] by (auto split: if_splits)
  next
    case (8 g a x) then show ?case using live [of g a x] by (auto split: if_splits)
  qed (use d df assms(3) fresh in \<open>auto split: if_splits\<close>)
qed

lemma meta_step_inv:
  assumes rt: "cnrt_ok rt" and "meta_step rt (ms, w) (ms', w')" and inv: "meta_inv ms w"
  shows "meta_inv ms' w'"
  using assms(2)
proof cases
  case (add_frame f w1 fr src)
  then show ?thesis
    using meta_inv_add [OF inv add_frame(3,4,5,6)] by (simp add: gst_buffer_add_mlu_memory_meta_def)
next
  case (copy_buffer i region m)
  let ?f = "meta_frame (ms ! i)"
  have "0 < refs ms ?f" using refs_pos [OF copy_buffer(2)] .
  with meta_invD(2) [OF inv, of ?f] obtain n fr where h: "fr_heap w ?f = Some (n, fr)" by (cases "fr_heap w ?f") auto
  with copy_buffer have w': "w' = w\<lparr>fr_heap := (fr_heap w)(?f \<mapsto> (Suc n, fr))\<rparr>" and m: "meta_frame m = ?f"
    by (auto simp: gst_mlu_memory_meta_transform_def gst_mlu_frame_ref_def gst_buffer_add_mlu_memory_meta_def split: if_splits)
  show ?thesis unfolding w' copy_buffer(1)
    by (rule meta_inv_count [OF inv h]) (use m meta_invD(3) [OF inv h] in auto)
next
  case (release_buffer i)
  let ?ms = "take i ms @ drop (Suc i) ms"
  note r = refs_drop [OF release_buffer(2)]
  show ?thesis
  proof (rule meta_free_effect [OF rt inv release_buffer(2) refl], goal_cases)
    case (1 n fr)
    from 1(3) release_buffer(3) have w': "w' = w\<lparr>fr_heap := (fr_heap w)(meta_frame (ms ! i) \<mapsto> (n - 1, fr))\<rparr>" by simp
    have "refs ?ms g = (if g = meta_frame (ms ! i) then n - 1 else refs ms g)" for g
      using r [of g] meta_invD(3) [OF inv 1(1)] by auto
    with 1(2) show ?case unfolding w' release_buffer(1) by (intro meta_inv_count [OF inv 1(1)]) auto
  next
    case (2 fr m')
    have "refs ?ms g = (if g = meta_frame (ms ! i) then 0 else refs ms g)" for g
      using r [of g] meta_invD(3) [OF inv 2(1)] by auto
    from meta_inv_freed [OF inv 2(1) this 2(3,4)] 2(2) release_buffer show ?case by simp
  qed
next
  case (use_memory m')
  then show ?thesis using inv planes_live_keeps [OF _ use_memory(3)] unfolding meta_inv_def by simp
qed

lemma meta_reach_inv:
  assumes "cnrt_ok rt" and "meta_reach rt st"
  shows "meta_inv (fst st) (snd st)"
  using assms(2)
proof induction
  case (start m)
  then show ?case by (simp add: meta_inv_def)
next
  case (step st st')
  then show ?case using meta_step_inv [OF assms(1)] by (cases st; cases st') auto
qed

text \<open>C5: However buffers that carry a device frame are created, copied and released, a frame is
  alive exactly while some buffer's meta refers to it; no frame is freed twice; releasing a meta
  never reaches undefined behaviour, frees the frame exactly when it was the last reference and
  then, and only then, runs the frame's deallocator once; and a buffer can always be copied.\<close>

theorem frame_lifetime:
  assumes rt: "cnrt_ok rt" and reach: "meta_reach rt (ms, w)"
  shows "(\<forall>f. fr_heap w f \<noteq> None \<longleftrightarrow> 0 < refs ms f) \<and> distinct (fr_freed w) \<and>
    (\<forall>i<length ms. let f = meta_frame (ms ! i) in
       (\<exists>w' n fr. gst_mlu_memory_meta_free rt (ms ! i) w = Ret () w' \<and> fr_heap w f = Some (n, fr) \<and>
          (f \<in> set (fr_freed w') \<longleftrightarrow> refs ms f = 1) \<and>
          fr_calls w' = (if refs ms f = 1 then (case deallocator fr of None \<Rightarrow> [] | Some d \<Rightarrow> [d]) else []) @ fr_calls w) \<and>
       (\<exists>m w'. gst_mlu_memory_meta_transform True False (ms ! i) w = Ret (Some m) w'))"
proof -
  from meta_reach_inv [OF rt reach] have inv: "meta_inv ms w" by simp
  note d = meta_invD [OF inv]
  have live: "fr_heap w f \<noteq> None \<longleftrightarrow> 0 < refs ms f" for f
    using d(2) [of f] d(3) [of f] by fastforce
  have rel: "(\<exists>w' n fr. gst_mlu_memory_meta_free rt (ms ! i) w = Ret () w' \<and> fr_heap w f = Some (n, fr) \<and>
          (f \<in> set (fr_freed w') \<longleftrightarrow> refs ms f = 1) \<and>
          fr_calls w' = (if refs ms f = 1 then (case deallocator fr of None \<Rightarrow> [] | Some d \<Rightarrow> [d]) else []) @ fr_calls w)"
    if i: "i < length ms" and f: "f = meta_frame (ms ! i)" for i f
  proof (rule meta_free_effect [OF rt inv i f], goal_cases)
    case (1 n fr)
    with d(3) [OF 1(1)] d(6) [of f] show ?case by auto
  next
    case (2 fr m')
    with d(3) [OF 2(1)] show ?case by auto
  qed
  have copy: "\<exists>m w'. gst_mlu_memory_meta_transform True False (ms ! i) w = Ret (Some m) w'" if i: "i < length ms" for i
    using refs_pos [OF i] live [of "meta_frame (ms ! i)"]
    by (auto simp: gst_mlu_memory_meta_transform_def gst_mlu_frame_ref_def)
  show ?thesis using live rel copy d(5) unfolding Let_def by blast
qed

definition demo_frame :: "nat GstMluFrame" where
  "demo_frame = empty_frame\<lparr>deallocator := Some 9\<rparr>"

definition demo_frames :: "nat frames" where
  "demo_frames = \<lparr>fr_heap = (\<lambda>_. None)(1 \<mapsto> (2, demo_frame)), fr_next = 2, fr_mach = demo_mach, fr_calls = [], fr_freed = []\<rparr>"

lemma demo_frames_reach:
  "meta_reach rt ([\<lparr>meta_src = None, meta_frame = 1\<rparr>, \<lparr>meta_src = None, meta_frame = 1\<rparr>], demo_frames)"
proof -
  let ?w0 = "\<lparr>fr_heap = (\<lambda>_. None), fr_next = 1, fr_mach = demo_mach, fr_calls = [], fr_freed = []\<rparr> :: nat frames"
  let ?m = "\<lparr>meta_src = None, meta_frame = 1\<rparr> :: MluMemoryMeta"
  have 1: "meta_reach rt ([], ?w0)" by (rule meta_reach.start)
  obtain w1 where w1: "gst_mlu_frame_new ?w0 = (1, w1)" "w1 = ?w0\<lparr>fr_heap := (\<lambda>_. None)(1 \<mapsto> (1, empty_frame)), fr_next := 2\<rparr>"
    by (simp add: gst_mlu_frame_new_def)
  have "meta_step rt ([], ?w0) ([] @ [gst_buffer_add_mlu_memory_meta 1 None], w1\<lparr>fr_heap := (fr_heap w1)(1 \<mapsto> (1, demo_frame))\<rparr>)"
    by (rule meta_step.add_frame [OF w1(1)])
      (simp_all add: demo_frame_def empty_frame_def MAXIMUM_PLANE_def planes_live_def planes_def)
  from meta_reach.step [OF 1 this] w1(2)
  have 2: "meta_reach rt ([?m], ?w0\<lparr>fr_heap := (\<lambda>_. None)(1 \<mapsto> (1, demo_frame)), fr_next := 2\<rparr>)"
    by (simp add: gst_buffer_add_mlu_memory_meta_def gst_mlu_memory_meta_init_def)
  have "meta_step rt ([?m], ?w0\<lparr>fr_heap := (\<lambda>_. None)(1 \<mapsto> (1, demo_frame)), fr_next := 2\<rparr>) ([?m] @ [?m], demo_frames)"
    by (rule meta_step.copy_buffer [where i = 0 and region = False])
      (simp_all add: gst_mlu_memory_meta_transform_def gst_mlu_frame_ref_def gst_buffer_add_mlu_memory_meta_def
        gst_mlu_memory_meta_init_def demo_frames_def numeral_2_eq_2)
  from meta_reach.step [OF 2 this] show ?thesis by simp
qed

theorem frame_lifetime_witness:
  "\<exists>w'. gst_mlu_memory_meta_free (ref_cnrt next_dev_addr) \<lparr>meta_src = None, meta_frame = 1\<rparr> demo_frames = Ret () w' \<and>
     1 \<notin> set (fr_freed w') \<and> fr_calls w' = []"
  using frame_lifetime [OF ref_cnrt_ok demo_frames_reach, of next_dev_addr]
  by (fastforce simp: refs_def demo_frames_def Let_def)

end
