(* ===== verification/Cnvideo_Dec.thy ===== *)
theory Cnvideo_Dec
  imports Gst_Types Mlu_Frame Frame_Copy
begin

text \<open>
  The element cnvideo_dec (gst/decode/gstcnvideo_dec.cpp): a GStreamer element around a decoder
  handle of the codec library. \<open>GstCnvideodec\<close> is its state; \<open>d_trace\<close> lists what it did to the
  outside world, the newest first, and the answers of the library are functions of that trace.
  A function \<open>foo\<close> of the source is \<open>dec_foo\<close> here where another component has one of that name.
\<close>

subsection \<open>What the element does to the outside\<close>

text \<open>The deallocator of a decoded frame: whether it holds a decoder handle, and the frame.\<close>

type_synonym dec_dealloc = "bool \<times> nat"

datatype dec_payload = On_Cpu "u8 list" | On_Mlu "dec_dealloc GstMluFrame"

record dec_buffer =
  buf_payload :: dec_payload
  buf_pts :: u64
  buf_duration :: u64

datatype dec_act =
  Act_Feed_Eos | Act_Feed "u8 list" u64 bool | Act_Create cnvideoDecCreateInfo | Act_SetAttr int
| Act_Start cnvideoDecCreateInfo | Act_Stop | Act_Destroy | Act_Abort | Act_AddRef nat | Act_ReleaseRef nat
| Act_Push dec_buffer | Act_Push_Eos | Act_Bus string | Act_Map | Act_Unmap | Act_Unref

record dec_env =
  e_ver :: nat
  e_major :: nat
  e_dev :: dev_lib
  e_codec :: "dec_act list \<Rightarrow> cncodecRet"
  e_turbo :: bool
  e_rt :: cnrt
  e_d2h :: "addr \<Rightarrow> nat \<Rightarrow> exn + u8 list"
  e_pad_eos :: bool
  e_junk :: u8

record GstCnvideodec =
  d_silent :: bool
  d_device_id :: int
  d_stream_id :: u32
  d_input_buffer_num :: u32
  d_output_buffer_num :: u32
  d_decode :: bool
  d_params :: cnvideoDecCreateInfo
  d_codec_type :: cncodecType
  d_sink_info :: GstVideoInfo
  d_src_info :: GstVideoInfo
  d_output_on_cpu :: bool
  d_send_eos :: bool
  d_got_eos :: bool
  d_duration :: u64
  d_loop :: loop_thread
  d_queue :: "cb_event list"
  d_gst_state :: gst_state
  d_dev :: dev_state
  d_env_init :: bool
  d_env_feed :: bool
  d_env_frame :: bool
  d_vpu_inst_cnt :: nat
  d_mach :: mach
  d_trace :: "dec_act list"

text \<open>\<open>d_env_*\<close> are the \<open>thread_local\<close> flags of the calling thread, one per function that has one.\<close>

definition dec_do :: "dec_act \<Rightarrow> GstCnvideodec \<Rightarrow> GstCnvideodec" where
  "dec_do a s = s\<lparr>d_trace := a # d_trace s\<rparr>"

definition dec_ret :: "dec_env \<Rightarrow> GstCnvideodec \<Rightarrow> cncodecRet" where
  "dec_ret E s = e_codec E (d_trace s)"

definition dec_set_cnrt_env :: "dec_env \<Rightarrow> GstCnvideodec \<Rightarrow> (GstCnvideodec, bool) run" where
  "dec_set_cnrt_env E s =
     call_then (lift_call (\<lambda>t. s\<lparr>d_dev := t\<rparr>) (set_cnrt_env (e_major E) (e_dev E) (d_device_id s) (d_dev s)))
       (\<lambda>(ok, e) s. Ret ok (if ok then s else dec_do (Act_Bus ''set mlu environment failed'') s))"

text \<open>
  The opening of three functions: bind the device once per thread, the flag being the thread's.
\<close>

definition dec_bind_once :: "dec_env \<Rightarrow> bool \<Rightarrow> (GstCnvideodec \<Rightarrow> GstCnvideodec) \<Rightarrow> GstCnvideodec \<Rightarrow> (GstCnvideodec, bool) run" where
  "dec_bind_once E cnrt_env set_flag s =
     (if cnrt_env then Ret True s
      else call_then (dec_set_cnrt_env E s) (\<lambda>ok s. Ret ok (if ok then set_flag s else s)))"

definition dec_release_buffer :: "dec_env \<Rightarrow> bool \<Rightarrow> nat \<Rightarrow> GstCnvideodec \<Rightarrow> GstCnvideodec" where
  "dec_release_buffer E decode buf_id s =
     (if decode
      then let s = dec_do (Act_ReleaseRef buf_id) s
           in if dec_ret E s \<noteq> CNCODEC_SUCCESS then dec_do (Act_Bus ''cnvideoDecode Release reference failed'') s else s
      else s)"

text \<open>\<open>DecodeFrameDeallocator::deallocate\<close>.\<close>

definition DecodeFrameDeallocator_deallocate :: "dec_env \<Rightarrow> dec_dealloc \<Rightarrow> GstCnvideodec \<Rightarrow> GstCnvideodec" where
  "DecodeFrameDeallocator_deallocate E d s = dec_release_buffer E (fst d) (snd d) s"

subsection \<open>Stream ids\<close>

text \<open>
  \<open>g_stream_id\<close> and \<open>g_stream_id_set\<close>. The allocation loop does not end when all ids are taken.
\<close>

record stream_ids =
  g_stream_id :: u32
  g_stream_id_set :: "u32 set"

partial_function (option) next_free_id :: "u32 \<Rightarrow> u32 set \<Rightarrow> u32 option" where
  "next_free_id g ids = (if g \<in> ids then next_free_id (g + 1) ids else Some g)"

definition alloc_stream_id :: "stream_ids \<Rightarrow> (u32 \<times> stream_ids) option" where
  "alloc_stream_id r =
     (case next_free_id (g_stream_id r) (g_stream_id_set r) of
        None \<Rightarrow> None
      | Some i \<Rightarrow> Some (i, \<lparr>g_stream_id = i + 1, g_stream_id_set = insert i (g_stream_id_set r)\<rparr>))"

definition erase_stream_id :: "u32 \<Rightarrow> stream_ids \<Rightarrow> stream_ids" where
  "erase_stream_id i r = r\<lparr>g_stream_id_set := g_stream_id_set r - {i}\<rparr>"

subsection \<open>Construction, properties, destruction\<close>

definition DEC_DEFAULT_DEVICE_ID :: int where "DEC_DEFAULT_DEVICE_ID = 0"
definition DEC_DEFAULT_INPUT_BUFFER_NUM :: u32 where "DEC_DEFAULT_INPUT_BUFFER_NUM = 4"
definition DEC_DEFAULT_OUTPUT_BUFFER_NUM :: u32 where "DEC_DEFAULT_OUTPUT_BUFFER_NUM = 4"

definition zero_create_info :: cnvideoDecCreateInfo where
  "zero_create_info = \<lparr>ci_codec = CNCODEC_MPEG2, ci_pixelFmt = CNCODEC_PIX_FMT_NV12, ci_colorSpace = CNCODEC_COLOR_SPACE_BT_709,
     ci_width = 0, ci_height = 0, ci_bitDepthMinus8 = 0, ci_progressive = False, ci_inputBufNum = 0, ci_outputBufNum = 0,
     ci_deviceId = 0, ci_instance = INSTANCE_AUTO\<rparr>"

text \<open>The private part of the element is zeroed by GObject before \<open>gst_cnvideodec_init\<close> runs.\<close>

definition gst_cnvideodec_init :: "mach \<Rightarrow> dev_state \<Rightarrow> stream_ids \<Rightarrow> (GstCnvideodec \<times> stream_ids) option" where
  "gst_cnvideodec_init m dev r =
     (case alloc_stream_id r of None \<Rightarrow> None
      | Some (i, r') \<Rightarrow> Some
         (\<lparr>d_silent = False, d_device_id = DEC_DEFAULT_DEVICE_ID, d_stream_id = i,
           d_input_buffer_num = DEC_DEFAULT_INPUT_BUFFER_NUM, d_output_buffer_num = DEC_DEFAULT_OUTPUT_BUFFER_NUM,
           d_decode = False, d_params = zero_create_info, d_codec_type = CNCODEC_H264, d_sink_info = no_info,
           d_src_info = no_info, d_output_on_cpu = False, d_send_eos = False, d_got_eos = False,
           d_duration = GST_CLOCK_TIME_NONE, d_loop = No_Thread, d_queue = [], d_gst_state = STATE_NULL,
           d_dev = dev, d_env_init = False, d_env_feed = False, d_env_frame = False, d_vpu_inst_cnt = 0,
           d_mach = m, d_trace = []\<rparr>, r'))"

datatype dec_property = PROP_SILENT bool | PROP_DEVICE_ID int | PROP_STREAM_ID u32
| PROP_INPUT_BUFFER_NUM u32 | PROP_OUTPUT_BUFFER_NUM u32 | PROP_UNKNOWN

text \<open>The ranges and defaults installed by \<open>gst_cnvideodec_class_init\<close>.\<close>

fun dec_property_range :: "dec_property \<Rightarrow> bool" where
  "dec_property_range (PROP_DEVICE_ID i) = (-1 \<le> i \<and> i \<le> 10)"
| "dec_property_range (PROP_STREAM_ID i) = (i \<le> 255)"
| "dec_property_range (PROP_INPUT_BUFFER_NUM n) = (n \<le> 20)"
| "dec_property_range (PROP_OUTPUT_BUFFER_NUM n) = (n \<le> 20)"
| "dec_property_range _ = True"

fun gst_cnvideodec_set_property :: "dec_property \<Rightarrow> GstCnvideodec \<times> stream_ids \<Rightarrow> GstCnvideodec \<times> stream_ids" where
  "gst_cnvideodec_set_property (PROP_SILENT b) (s, r) = (s\<lparr>d_silent := b\<rparr>, r)"
| "gst_cnvideodec_set_property (PROP_DEVICE_ID i) (s, r) = (s\<lparr>d_device_id := i\<rparr>, r)"
| "gst_cnvideodec_set_property (PROP_STREAM_ID i) (s, r) =
     (let tmp = d_stream_id s; r = erase_stream_id (d_stream_id s) r
      in if i \<in> g_stream_id_set r
         then (s\<lparr>d_stream_id := tmp\<rparr>, r\<lparr>g_stream_id_set := insert tmp (g_stream_id_set r)\<rparr>)
         else (s\<lparr>d_stream_id := i\<rparr>, r\<lparr>g_stream_id_set := insert i (g_stream_id_set r)\<rparr>))"
| "gst_cnvideodec_set_property (PROP_INPUT_BUFFER_NUM n) (s, r) = (s\<lparr>d_input_buffer_num := n\<rparr>, r)"
| "gst_cnvideodec_set_property (PROP_OUTPUT_BUFFER_NUM n) (s, r) = (s\<lparr>d_output_buffer_num := n\<rparr>, r)"
| "gst_cnvideodec_set_property PROP_UNKNOWN (s, r) = (s, r)"

text \<open>Which property is asked for is given by a value of it; the answer carries the current one.\<close>

fun gst_cnvideodec_get_property :: "dec_property \<Rightarrow> GstCnvideodec \<Rightarrow> dec_property" where
  "gst_cnvideodec_get_property (PROP_SILENT _) s = PROP_SILENT (d_silent s)"
| "gst_cnvideodec_get_property (PROP_DEVICE_ID _) s = PROP_DEVICE_ID (d_device_id s)"
| "gst_cnvideodec_get_property (PROP_STREAM_ID _) s = PROP_STREAM_ID (d_stream_id s)"
| "gst_cnvideodec_get_property (PROP_INPUT_BUFFER_NUM _) s = PROP_INPUT_BUFFER_NUM (d_input_buffer_num s)"
| "gst_cnvideodec_get_property (PROP_OUTPUT_BUFFER_NUM _) s = PROP_OUTPUT_BUFFER_NUM (d_output_buffer_num s)"
| "gst_cnvideodec_get_property PROP_UNKNOWN s = PROP_UNKNOWN"

text \<open>Destroying a joinable \<open>std::thread\<close> (a member of \<open>priv->cpp\<close>) terminates the program.\<close>

definition gst_cnvideodec_finalize :: "GstCnvideodec \<Rightarrow> stream_ids \<Rightarrow> (stream_ids, unit) run" where
  "gst_cnvideodec_finalize s r =
     (let r = erase_stream_id (d_stream_id s) r in if joinable (d_loop s) then Terminate else Ret () r)"

subsection \<open>Events of the codec\<close>

definition dec_handle_eos :: "GstCnvideodec \<Rightarrow> GstCnvideodec" where
  "dec_handle_eos s =
     (let s = s\<lparr>d_got_eos := True\<rparr> in if at_most_ready (d_gst_state s) then s else dec_do Act_Push_Eos s)"

definition dec_abort_decoder :: "GstCnvideodec \<Rightarrow> GstCnvideodec" where
  "dec_abort_decoder s =
     (if d_decode s
      then (dec_handle_eos ((dec_do Act_Abort s)\<lparr>d_decode := False\<rparr>))\<lparr>d_got_eos := True\<rparr>
      else s)"

text \<open>The switch of the event loop; \<open>STREAM_CORRUPT\<close> has an arm from version 1.6.0 on.\<close>

definition dec_dispatch :: "nat \<Rightarrow> cb_event \<Rightarrow> GstCnvideodec \<Rightarrow> GstCnvideodec" where
  "dec_dispatch ver e s =
     (if e = CB_EOS then dec_handle_eos s
      else if e = CB_SW_RESET \<or> e = CB_HW_RESET
      then dec_abort_decoder (dec_do (Act_Bus ''Decode firmware crash event'') s)
      else if e = CB_OUT_OF_MEMORY then dec_abort_decoder (dec_do (Act_Bus ''Out of memory error thrown from cncodec'') s)
      else if e = CB_ABORT_ERROR then dec_abort_decoder (dec_do (Act_Bus ''Abort error thrown from cncodec'') s)
      else if e = CB_STREAM_CORRUPT \<and> 10600 \<le> ver then s
      else dec_abort_decoder (dec_do (Act_Bus ''Unknown event type'') s))"

text \<open>
  The event loop, from a moment it holds the queue until it returns or waits for an event: it
  returns when the queue is empty and the end of the stream was seen.
\<close>

lemma dec_dispatch_queue [simp]: "d_queue (dec_dispatch ver e s) = d_queue s"
  by (simp add: dec_dispatch_def dec_handle_eos_def dec_abort_decoder_def dec_do_def Let_def)

definition dec_pop :: "GstCnvideodec \<Rightarrow> GstCnvideodec" where
  "dec_pop s = s\<lparr>d_queue := tl (d_queue s)\<rparr>"

definition dec_rest :: "GstCnvideodec \<Rightarrow> GstCnvideodec" where
  "dec_rest s = s\<lparr>d_loop := (if d_got_eos s then Loop_Done else Looping)\<rparr>"

function dec_event_task_runner :: "nat \<Rightarrow> GstCnvideodec \<Rightarrow> GstCnvideodec" where
  "dec_event_task_runner ver s =
     (case d_queue s of [] \<Rightarrow> dec_rest s
      | e # q \<Rightarrow> dec_event_task_runner ver (dec_dispatch ver e (dec_pop s)))"
  by auto
termination
  by (relation "measure (\<lambda>(ver, s). length (d_queue s))") (simp_all add: dec_pop_def)

declare dec_event_task_runner.simps [simp del]

definition dec_handle_event :: "cb_event \<Rightarrow> GstCnvideodec \<Rightarrow> GstCnvideodec" where
  "dec_handle_event e s = s\<lparr>d_queue := d_queue s @ [e]\<rparr>"

definition dec_video_format_cast :: "GstVideoFormat \<Rightarrow> cncodecPixelFormat" where
  "dec_video_format_cast fmt =
     (case fmt of GST_VIDEO_FORMAT_NV12 \<Rightarrow> CNCODEC_PIX_FMT_NV12
      | GST_VIDEO_FORMAT_NV21 \<Rightarrow> CNCODEC_PIX_FMT_NV21
      | GST_VIDEO_FORMAT_I420 \<Rightarrow> CNCODEC_PIX_FMT_I420
      | _ \<Rightarrow> CNCODEC_PIX_FMT_NV12)"

definition dec_handle_sequence :: "dec_env \<Rightarrow> cnvideoDecSequenceInfo \<Rightarrow> GstCnvideodec \<Rightarrow> GstCnvideodec" where
  "dec_handle_sequence E info s =
     (let p = d_params s;
          p = p\<lparr>ci_codec := si_codec info, ci_pixelFmt := dec_video_format_cast (vi_format (d_src_info s)),
                ci_width := si_width info, ci_height := si_height info\<rparr>;
          p = (if si_minInputBufNum info > ci_inputBufNum p then p\<lparr>ci_inputBufNum := si_minInputBufNum info\<rparr> else p);
          p = (if si_minOutputBufNum info > ci_outputBufNum p then p\<lparr>ci_outputBufNum := si_minOutputBufNum info\<rparr> else p);
          s = dec_do (Act_Start p) (s\<lparr>d_params := p\<rparr>)
      in if dec_ret E s \<noteq> CNCODEC_SUCCESS then dec_do (Act_Bus ''Start Decoder failed'') s else s)"

subsection \<open>Decoded frames\<close>

text \<open>
  \<open>GstAllocator\<close> memory of \<open>n\<close> bytes, and \<open>MemcpyD2H\<close> into it at an offset. A copy that leaves the
  memory is undefined behaviour.
\<close>

definition copy_d2h :: "dec_env \<Rightarrow> u8 list \<Rightarrow> nat \<Rightarrow> addr \<Rightarrow> nat \<Rightarrow> 's \<Rightarrow> ('s, u8 list) run" where
  "copy_d2h E mem off p n s =
     (case e_d2h E p n of Inl e \<Rightarrow> Exc e s
      | Inr bs \<Rightarrow> (case put mem off bs of None \<Rightarrow> UB | Some mem' \<Rightarrow> Ret mem' s))"

definition f_str :: "cncodecFrame \<Rightarrow> nat \<Rightarrow> nat" where
  "f_str f i = unat (nth0 (f_stride f) i)"

definition dec_copy_frame_d2h :: "dec_env \<Rightarrow> cncodecFrame \<Rightarrow> GstCnvideodec \<Rightarrow> (GstCnvideodec, u8 list option) run" where
  "dec_copy_frame_d2h E f s =
     (let w = unat (f_width f); h = unat (f_height f);
          mem = replicate (m32 (f_str f 0 * h * 3) div 2) (e_junk E);
          fmt = vi_format (d_src_info s);
          i420 = (fmt = GST_VIDEO_FORMAT_I420);
          y = m32 (f_str f 0 * h);
          finish = (\<lambda>mem s.
            if f_str f 0 \<noteq> w
            then (case clear_alignment i420 w h (f_str f 0) (f_str f 1) (f_str f 2) mem
                         (replicate (m32 (w * h * 3) div 2) (e_junk E)) of
                    None \<Rightarrow> UB | Some cp \<Rightarrow> Ret (Some cp) s)
            else Ret (Some mem) s)
      in if fmt = GST_VIDEO_FORMAT_NV12 \<or> fmt = GST_VIDEO_FORMAT_NV21
         then call_then (copy_d2h E mem 0 (nth0 (f_plane f) 0) y s) (\<lambda>mem s.
              call_then (copy_d2h E mem y (nth0 (f_plane f) 1) (m32 (f_str f 1 * h) div 2) s) finish)
         else if i420
         then call_then (copy_d2h E mem 0 (nth0 (f_plane f) 0) y s) (\<lambda>mem s.
              call_then (copy_d2h E mem y (nth0 (f_plane f) 1) (m32 (f_str f 1 * h) div 2) s) (\<lambda>mem s.
              call_then (copy_d2h E mem (y + m32 (f_str f 1 * h) div 2) (nth0 (f_plane f) 2) (m32 (f_str f 2 * h) div 2) s)
                finish))
         else Ret None (dec_do (Act_Bus ''unsupport pixel format'') s))"

text \<open>
  The synced memory of a plane: half the size for the chroma planes. \<open>cn_syncedmem_new\<close> yields a
  null pointer for size 0, which the next call dereferences.
\<close>

definition dec_plane :: "dec_env \<Rightarrow> cncodecFrame \<Rightarrow> nat \<Rightarrow> mach \<Rightarrow> (mach, GstSyncedMemory option) run" where
  "dec_plane E f i m =
     (let size = m32 (f_str f i * unat (f_height f));
          size = (if i = 0 then size else size div 2)
      in case cn_syncedmem_new size of None \<Rightarrow> UB
         | Some sm \<Rightarrow>
             (case cn_syncedmem_set_dev_data (e_rt E) (nth0 (f_plane f) i) (m, sm) of
                Ret ok (m', sm') \<Rightarrow> Ret (Some sm') m'
              | Exc e (m', sm') \<Rightarrow> Exc e m' | UB \<Rightarrow> UB | Terminate \<Rightarrow> Terminate | Blocked (m', sm') \<Rightarrow> Blocked m'))"

fun dec_planes :: "dec_env \<Rightarrow> cncodecFrame \<Rightarrow> nat list \<Rightarrow> mach \<Rightarrow> (mach, GstSyncedMemory option list) run" where
  "dec_planes E f [] m = Ret [] m"
| "dec_planes E f (i # is) m =
     call_then (dec_plane E f i m) (\<lambda>p m. call_then (dec_planes E f is m) (\<lambda>ps m. Ret (p # ps) m))"

definition dec_mlu_frame :: "dec_env \<Rightarrow> cncodecFrame \<Rightarrow> GstCnvideodec \<Rightarrow> (GstCnvideodec, dec_dealloc GstMluFrame) run" where
  "dec_mlu_frame E f s =
     (if MAXIMUM_PLANE < f_planeNum f then UB
      else call_then (lift_call (\<lambda>m. s\<lparr>d_mach := m\<rparr>) (dec_planes E f [0..<f_planeNum f] (d_mach s))) (\<lambda>ps s.
        Ret (empty_frame\<lparr>fr_data := ps @ replicate (MAXIMUM_PLANE - f_planeNum f) None,
               fr_device_id := d_device_id s, channel_id := f_channel f, n_planes := f_planeNum f,
               fr_height := f_height f, fr_width := f_width f,
               fr_stride := map (nth0 (f_stride f)) [0..<f_planeNum f] @ replicate (MAXIMUM_PLANE - f_planeNum f) 0,
               deallocator := Some (d_decode s, f_id f)\<rparr>) s))"

text \<open>Pushing the buffer downstream, or dropping it when the pad is at its end already.\<close>

definition dec_push_buffer :: "dec_env \<Rightarrow> dec_payload \<Rightarrow> u64 \<Rightarrow> GstCnvideodec \<Rightarrow> GstCnvideodec" where
  "dec_push_buffer E pl pts s =
     (if \<not> e_pad_eos E
      then dec_do (Act_Push \<lparr>buf_payload = pl, buf_pts = pts, buf_duration = d_duration s\<rparr>) s
      else case pl of On_Cpu _ \<Rightarrow> s
         | On_Mlu fr \<Rightarrow> (case deallocator fr of None \<Rightarrow> s | Some d \<Rightarrow> DecodeFrameDeallocator_deallocate E d s))"

text \<open>\<open>pts\<close> is the time stamp the codec reports with the frame.\<close>

definition dec_handle_frame :: "dec_env \<Rightarrow> cncodecFrame \<Rightarrow> u64 \<Rightarrow> GstCnvideodec \<Rightarrow> (GstCnvideodec, unit) run" where
  "dec_handle_frame E f pts s =
     call_then (dec_bind_once E (d_env_frame s) (\<lambda>s. s\<lparr>d_env_frame := True\<rparr>) s)
       (\<lambda>ok s.
          if \<not> ok then Ret () s
          else if at_most_ready (d_gst_state s) then Ret () (dec_release_buffer E (d_decode s) (f_id f) s)
          else if d_output_on_cpu s
          then call_then (dec_copy_frame_d2h E f s) (\<lambda>mem s.
                 let s = dec_do (Act_ReleaseRef (f_id f)) (dec_do (Act_AddRef (f_id f)) s)
                 in case mem of None \<Rightarrow> Ret () s | Some bs \<Rightarrow> Ret () (dec_push_buffer E (On_Cpu bs) pts s))
          else call_then (dec_mlu_frame E f s) (\<lambda>fr s.
                 Ret () (dec_push_buffer E (On_Mlu fr) pts (dec_do (Act_AddRef (f_id f)) s))))"

text \<open>The callback the codec runs in its own thread.\<close>

datatype dec_callback = CB_Frame cncodecFrame u64 | CB_Sequence cnvideoDecSequenceInfo | CB_Event cb_event

fun dec_event_handler :: "dec_env \<Rightarrow> dec_callback \<Rightarrow> GstCnvideodec \<Rightarrow> (GstCnvideodec, unit) run" where
  "dec_event_handler E (CB_Frame f pts) s = dec_handle_frame E f pts s"
| "dec_event_handler E (CB_Sequence info) s = Ret () (dec_handle_sequence E info s)"
| "dec_event_handler E (CB_Event e) s = Ret () (dec_handle_event e s)"

subsection \<open>Opening and closing the decoder\<close>

text \<open>
  The parameters of a new decoder. In turbo mode the next entry of the instance table is used;
  the counter is a static of the function.
\<close>

definition dec_create_params :: "dec_env \<Rightarrow> GstCnvideodec \<Rightarrow> GstCnvideodec" where
  "dec_create_params E s =
     (let (inst, s) = (if e_turbo E
            then (INSTANCE (g_vpudec_instances ! (d_vpu_inst_cnt s mod 100)), s\<lparr>d_vpu_inst_cnt := Suc (d_vpu_inst_cnt s)\<rparr>)
            else (INSTANCE_AUTO, s))
      in s\<lparr>d_params := \<lparr>ci_codec = d_codec_type s,
             ci_pixelFmt = dec_video_format_cast (vi_format (d_src_info s)),
             ci_colorSpace = CNCODEC_COLOR_SPACE_BT_709,
             ci_width = word_of_int (vi_width (d_sink_info s)),
             ci_height = word_of_int (vi_height (d_sink_info s)),
             ci_bitDepthMinus8 = 0,
             ci_progressive = (vi_interlace (d_sink_info s) = GST_VIDEO_INTERLACE_MODE_PROGRESSIVE),
             ci_inputBufNum = d_input_buffer_num s, ci_outputBufNum = d_output_buffer_num s,
             ci_deviceId = d_device_id s, ci_instance = inst\<rparr>\<rparr>)"

text \<open>
  The rest of \<open>init_decoder\<close> once the device is bound. Assigning a thread to the joinable
  \<open>event_loop\<close> terminates the program. A failing \<open>cnvideoDecSetAttributes\<close> drops the handle without
  destroying the decoder.
\<close>

definition dec_open :: "dec_env \<Rightarrow> GstCnvideodec \<Rightarrow> (GstCnvideodec, bool) run" where
  "dec_open E s =
     (if joinable (d_loop s) then Terminate
      else let s = dec_create_params E (s\<lparr>d_loop := Looping\<rparr>);
               s = dec_do (Act_Create (d_params s)) s
           in if dec_ret E s \<noteq> CNCODEC_SUCCESS
              then Ret False ((dec_do (Act_Bus ''Create video decode instance failed'') s)\<lparr>d_decode := False\<rparr>)
              else let s = dec_do (Act_SetAttr 1) (s\<lparr>d_decode := True\<rparr>)
                   in if dec_ret E s \<noteq> CNCODEC_SUCCESS
                      then Ret False ((dec_do (Act_Bus ''cnvideo decode set attributes faild'') s)\<lparr>d_decode := False\<rparr>)
                      else Ret True s)"

definition gst_cnvideodec_init_decoder :: "dec_env \<Rightarrow> GstCnvideodec \<Rightarrow> (GstCnvideodec, bool) run" where
  "gst_cnvideodec_init_decoder E s =
     call_then (dec_bind_once E (d_env_init s) (\<lambda>s. s\<lparr>d_env_init := True\<rparr>) s)
       (\<lambda>ok s. if ok then dec_open E s else Ret False s)"

definition dec_request_eos :: "dec_env \<Rightarrow> GstCnvideodec \<Rightarrow> GstCnvideodec" where
  "dec_request_eos E s =
     (if d_got_eos s then s
      else if \<not> d_send_eos s \<and> d_decode s
      then let s = dec_do Act_Feed_Eos s;
               s = (if dec_ret E s \<noteq> CNCODEC_SUCCESS then dec_do (Act_Bus ''cnvideo Decode feed data failed'') s else s)
           in s\<lparr>d_send_eos := True\<rparr>
      else if \<not> d_decode s then s\<lparr>d_got_eos := True\<rparr> else s)"

text \<open>
  The codec raises the events \<open>es\<close> while \<open>destroy_decoder\<close> waits; the event thread, if it runs,
  pops them. \<open>dec_join\<close> lets it finish.
\<close>

definition dec_run_loop :: "dec_env \<Rightarrow> GstCnvideodec \<Rightarrow> GstCnvideodec" where
  "dec_run_loop E s = (if d_loop s = Looping then dec_event_task_runner (e_ver E) s else s)"

definition dec_wait_eos :: "dec_env \<Rightarrow> cb_event list \<Rightarrow> GstCnvideodec \<Rightarrow> GstCnvideodec" where
  "dec_wait_eos E es s = dec_run_loop E (fold dec_handle_event es s)"

definition dec_join :: "dec_env \<Rightarrow> GstCnvideodec \<Rightarrow> GstCnvideodec" where
  "dec_join E s = (dec_run_loop E s)\<lparr>d_loop := No_Thread\<rparr>"

definition dec_teardown :: "GstCnvideodec \<Rightarrow> GstCnvideodec" where
  "dec_teardown s = (if d_decode s then (dec_do Act_Destroy (dec_do Act_Stop s))\<lparr>d_decode := False\<rparr> else s)"

definition dec_close :: "dec_env \<Rightarrow> cb_event list \<Rightarrow> GstCnvideodec \<Rightarrow> (GstCnvideodec, bool) run" where
  "dec_close E es s =
     (let t = dec_request_eos E s; u = (if d_got_eos t then t else dec_wait_eos E es t)
      in if d_got_eos u then Ret True (dec_teardown (dec_join E u)) else Blocked u)"

definition gst_cnvideodec_destroy_decoder :: "dec_env \<Rightarrow> cb_event list \<Rightarrow> GstCnvideodec \<Rightarrow> (GstCnvideodec, bool) run" where
  "gst_cnvideodec_destroy_decoder E es s =
     call_then (dec_set_cnrt_env E s) (\<lambda>ok s. if ok then dec_close E es s else Ret False s)"

subsection \<open>Pads and states\<close>

text \<open>
  What GStreamer answers while caps are negotiated: whether the upstream caps meet the template,
  their name and stream description, whether the downstream caps are any or empty, whether the
  source pad takes them, the stream description they fix, and their memory feature.
\<close>

record dec_caps =
  dc_empty :: bool
  dc_name :: string
  dc_sink_info :: "GstVideoInfo option"
  dc_peer_any :: bool
  dc_peer_empty :: bool
  dc_set_ok :: bool
  dc_src_info :: "GstVideoInfo option"
  dc_memory_mlu :: bool

definition dec_codec_of_name :: "string \<Rightarrow> cncodecType option" where
  "dec_codec_of_name n =
     (if n = ''video/x-h264'' then Some CNCODEC_H264 else if n = ''video/x-h265'' then Some CNCODEC_HEVC else None)"

text \<open>\<open>set_caps\<close> down to the point where the stream is known: the codec is not touched yet.\<close>

definition dec_negotiate :: "dec_caps \<Rightarrow> GstCnvideodec \<Rightarrow> bool \<times> GstCnvideodec" where
  "dec_negotiate c s =
     (if dc_empty c then (False, s)
      else case dec_codec_of_name (dc_name c) of
        None \<Rightarrow> (False, s)
      | Some codec \<Rightarrow>
        let s = s\<lparr>d_codec_type := codec\<rparr>
        in case dc_sink_info c of None \<Rightarrow> (False, s)
           | Some sink \<Rightarrow>
             let s = s\<lparr>d_sink_info := sink\<rparr>
             in if vi_width sink = 0 \<or> vi_height sink = 0 then (False, s)
                else if dc_peer_any c \<or> dc_peer_empty c then (False, s)
                else if \<not> dc_set_ok c then (False, s)
                else case dc_src_info c of None \<Rightarrow> (False, s)
                  | Some src \<Rightarrow>
                    let src = src\<lparr>vi_width := vi_width sink, vi_height := vi_height sink,
                                  vi_fps_n := vi_fps_n sink, vi_fps_d := vi_fps_d sink\<rparr>;
                        s = s\<lparr>d_src_info := src\<rparr>
                    in if vi_format src \<notin> {GST_VIDEO_FORMAT_NV12, GST_VIDEO_FORMAT_NV21, GST_VIDEO_FORMAT_I420}
                       then (False, s)
                       else (True, s\<lparr>d_output_on_cpu := \<not> dc_memory_mlu c\<rparr>))"

definition gst_cnvideodec_set_caps :: "dec_env \<Rightarrow> cb_event list \<Rightarrow> dec_caps \<Rightarrow> GstCnvideodec \<Rightarrow> (GstCnvideodec, bool) run" where
  "gst_cnvideodec_set_caps E es c s =
     (let (ok, s) = dec_negotiate c s
      in if \<not> ok then Ret False s
         else call_then (if d_decode s then gst_cnvideodec_destroy_decoder E es s else Ret True s)
                (\<lambda>ok s. if \<not> ok then Ret False s
                        else gst_cnvideodec_init_decoder E (s\<lparr>d_send_eos := False, d_got_eos := False\<rparr>)))"

text \<open>
  The answer of the end-of-stream arm: the variable that takes the codec's return code is a new
  one, so the event is always answered with FALSE.
\<close>

datatype dec_event = EVENT_CAPS dec_caps | EVENT_EOS | EVENT_OTHER bool

fun gst_cnvideodec_sink_event :: "dec_env \<Rightarrow> cb_event list \<Rightarrow> dec_event \<Rightarrow> GstCnvideodec \<Rightarrow> (GstCnvideodec, bool) run" where
  "gst_cnvideodec_sink_event E es (EVENT_CAPS c) s = gst_cnvideodec_set_caps E es c s"
| "gst_cnvideodec_sink_event E es EVENT_EOS s =
     (let s = dec_do Act_Feed_Eos (s\<lparr>d_send_eos := True\<rparr>)
      in Ret False (if dec_ret E s \<noteq> CNCODEC_SUCCESS then dec_do (Act_Bus ''cnvideo Decode feed data failed'') s else s))"
| "gst_cnvideodec_sink_event E es (EVENT_OTHER dflt) s = Ret dflt s"

text \<open>An input buffer: whether it can be mapped, its bytes (none for a null pointer), its times.\<close>

record dec_input =
  in_map_ok :: bool
  in_data :: "u8 list option"
  in_pts :: u64
  in_duration :: u64

text \<open>The rest of \<open>feed_data\<close> once the buffer is mapped and the device bound.\<close>

definition dec_feed_mapped :: "dec_env \<Rightarrow> dec_input \<Rightarrow> GstCnvideodec \<Rightarrow> (GstCnvideodec, bool) run" where
  "dec_feed_mapped E b s =
     (case in_data b of
        None \<Rightarrow> Ret True (dec_do Act_Unmap s)
      | Some bs \<Rightarrow>
          if bs = [] then Ret True (dec_do Act_Unmap s)
          else let s = dec_do (Act_Feed bs (in_pts b) (10600 \<le> e_ver E)) s
               in if dec_ret E s \<noteq> CNCODEC_SUCCESS then Ret False (dec_do Act_Unmap s)
                  else Ret True (dec_do Act_Unmap s))"

definition dec_feed_data :: "dec_env \<Rightarrow> dec_input \<Rightarrow> GstCnvideodec \<Rightarrow> (GstCnvideodec, bool) run" where
  "dec_feed_data E b s =
     (if \<not> in_map_ok b then Ret False (dec_do (Act_Bus ''buffer map failed'') s)
      else call_then (dec_bind_once E (d_env_feed s) (\<lambda>s. s\<lparr>d_env_feed := True\<rparr>) (dec_do Act_Map s))
             (\<lambda>ok s. if ok then dec_feed_mapped E b s else Ret False s))"

definition gst_cnvideodec_chain :: "dec_env \<Rightarrow> dec_input \<Rightarrow> GstCnvideodec \<Rightarrow> (GstCnvideodec, flow_return) run" where
  "gst_cnvideodec_chain E b s =
     (if d_send_eos s then Ret GST_FLOW_OK (dec_do Act_Unref s)
      else call_then (dec_feed_data E b (s\<lparr>d_duration := in_duration b\<rparr>)) (\<lambda>ok s.
             if ok then Ret GST_FLOW_OK (dec_do Act_Unref s) else Ret GST_FLOW_ERROR s))"

text \<open>\<open>parent\<close> is the answer of the parent class.\<close>

definition gst_cnvideodec_change_state ::
    "dec_env \<Rightarrow> cb_event list \<Rightarrow> change_return \<Rightarrow> state_change \<Rightarrow> GstCnvideodec \<Rightarrow> (GstCnvideodec, change_return) run" where
  "gst_cnvideodec_change_state E es parent tr s =
     (if parent = STATE_CHANGE_FAILURE then Ret parent s
      else if tr = READY_TO_NULL \<and> d_decode s
      then call_then (gst_cnvideodec_destroy_decoder E es s) (\<lambda>_ s. Ret parent s)
      else Ret parent s)"

subsection \<open>The session contract\<close>

lemmas dec_event_simps =
  dec_dispatch_def dec_handle_eos_def dec_abort_decoder_def dec_do_def Let_def

lemma dec_dispatch_got:
  "d_got_eos (dec_dispatch ver e s) = (d_got_eos s \<or> e = CB_EOS \<or> (aborts ver e \<and> d_decode s))"
  by (cases e) (auto simp: dec_event_simps)

lemma dec_dispatch_decode: "d_decode (dec_dispatch ver e s) = (d_decode s \<and> \<not> aborts ver e)"
  by (cases e) (auto simp: dec_event_simps)

lemma dec_dispatch_loop [simp]: "d_loop (dec_dispatch ver e s) = d_loop s"
  by (simp add: dec_event_simps)

definition dec_begin_close :: "dec_env \<Rightarrow> GstCnvideodec \<Rightarrow> GstCnvideodec option" where
  "dec_begin_close E s = Some (dec_request_eos E s)"

lemma dec_request_eos_sel [simp]:
  "d_queue (dec_request_eos E s) = d_queue s" "d_decode (dec_request_eos E s) = d_decode s"
  "d_loop (dec_request_eos E s) = d_loop s" "d_got_eos (dec_request_eos E s) = (d_got_eos s \<or> \<not> d_decode s)"
  by (auto simp: dec_request_eos_def dec_do_def Let_def)

lemma fold_dec_handle_event: "fold dec_handle_event es s = s\<lparr>d_queue := d_queue s @ es\<rparr>"
  by (induction es arbitrary: s) (simp_all add: dec_handle_event_def)

interpretation dec: closable_session "e_ver E" d_decode d_got_eos d_queue dec_pop dec_handle_event
    "dec_dispatch (e_ver E)" dec_rest "dec_event_task_runner (e_ver E)"
    "\<lambda>s. d_loop s = Looping" "dec_begin_close E" "dec_wait_eos E" "\<lambda>s. dec_teardown (dec_join E s)" "dec_close E"
  for E
proof (unfold_locales, goal_cases)
  case (17 s)
  then show ?case by (simp add: dec_event_task_runner.simps)
next
  case (18 s e q)
  then show ?case by (subst dec_event_task_runner.simps) simp
next
  case (19 s t)
  then show ?case by (auto simp: dec_begin_close_def)
next
  case (20 s es)
  then show ?case by (simp add: dec_wait_eos_def dec_run_loop_def fold_dec_handle_event)
next
  case (21 s)
  then show ?case by (simp add: dec_teardown_def dec_do_def)
next
  case (22 s t es)
  then show ?case by (simp add: dec_close_def dec_begin_close_def)
qed (auto simp: dec_pop_def dec_handle_event_def dec_dispatch_got dec_dispatch_decode dec_rest_def ends_session_def)

lemma dec_runner_loop: "d_loop (dec_event_task_runner ver s) = (if d_got_eos (dec_event_task_runner ver s) then Loop_Done else Looping)"
proof (induction ver s rule: dec_event_task_runner.induct)
  case (1 ver s)
  then show ?case
    by (subst (1 2) dec_event_task_runner.simps) (simp add: dec_rest_def split: list.split)
qed

subsection \<open>Invariant of the element\<close>

text \<open>
  Decoders the library has created and neither destroyed nor aborted, and decoders dropped because
  setting their attributes failed, counted along a trace.
\<close>

fun live_handles :: "(dec_act list \<Rightarrow> cncodecRet) \<Rightarrow> dec_act list \<Rightarrow> int" where
  "live_handles codec [] = 0"
| "live_handles codec (a # t) = live_handles codec t +
     (case a of Act_Create p \<Rightarrow> if codec (a # t) = CNCODEC_SUCCESS then 1 else 0
      | Act_Destroy \<Rightarrow> -1 | Act_Abort \<Rightarrow> -1 | _ \<Rightarrow> 0)"

fun dropped_handles :: "(dec_act list \<Rightarrow> cncodecRet) \<Rightarrow> dec_act list \<Rightarrow> int" where
  "dropped_handles codec [] = 0"
| "dropped_handles codec (a # t) = dropped_handles codec t +
     (case a of Act_SetAttr n \<Rightarrow> if codec (a # t) = CNCODEC_SUCCESS then 0 else 1 | _ \<Rightarrow> 0)"

definition dec_inv :: "dec_env \<Rightarrow> GstCnvideodec \<Rightarrow> bool" where
  "dec_inv E s \<longleftrightarrow> (d_decode s \<longrightarrow> joinable (d_loop s) \<and> (d_got_eos s \<or> d_loop s = Looping)) \<and>
     live_handles (e_codec E) (d_trace s) = (if d_decode s then 1 else 0) + dropped_handles (e_codec E) (d_trace s)"

definition env_state :: "dec_act list \<Rightarrow> dev_state \<Rightarrow> GstCnvideodec \<Rightarrow> GstCnvideodec" where
  "env_state bus dev s = s\<lparr>d_dev := dev, d_trace := bus @ d_trace s\<rparr>"

lemma dec_set_cnrt_env_cases:
  obtains dev where "dec_set_cnrt_env E s = Ret True (env_state [] dev s)"
  | dev where "dec_set_cnrt_env E s = Ret False (env_state [Act_Bus ''set mlu environment failed''] dev s)"
proof -
  from set_cnrt_env_returns [of "e_major E" "e_dev E" "d_device_id s" "d_dev s"] obtain b e t
    where "set_cnrt_env (e_major E) (e_dev E) (d_device_id s) (d_dev s) = Ret (b, e) t" by blast
  then have "dec_set_cnrt_env E s = Ret b (if b then env_state [] t s else env_state [Act_Bus ''set mlu environment failed''] t s)"
    by (simp add: dec_set_cnrt_env_def dec_do_def env_state_def)
  then show ?thesis by (cases b) (rule that(1), simp, rule that(2), simp)
qed

lemma env_state_sel [simp]:
  "d_decode (env_state b v s) = d_decode s" "d_got_eos (env_state b v s) = d_got_eos s" "d_loop (env_state b v s) = d_loop s"
  "d_queue (env_state b v s) = d_queue s" "d_send_eos (env_state b v s) = d_send_eos s"
  "d_trace (env_state b v s) = b @ d_trace s" "d_gst_state (env_state b v s) = d_gst_state s"
  "d_src_info (env_state b v s) = d_src_info s" "d_output_on_cpu (env_state b v s) = d_output_on_cpu s"
  by (simp_all add: env_state_def)

lemma dec_do_sel [simp]:
  "d_decode (dec_do a s) = d_decode s" "d_got_eos (dec_do a s) = d_got_eos s" "d_loop (dec_do a s) = d_loop s"
  "d_queue (dec_do a s) = d_queue s" "d_trace (dec_do a s) = a # d_trace s" "d_send_eos (dec_do a s) = d_send_eos s"
  by (simp_all add: dec_do_def)

text \<open>Steps that leave handle, loop and flags alone and neither create nor drop a decoder.\<close>

definition quiet :: "dec_act \<Rightarrow> bool" where
  "quiet a \<longleftrightarrow> (case a of Act_Create _ \<Rightarrow> False | Act_SetAttr _ \<Rightarrow> False | Act_Destroy \<Rightarrow> False | Act_Abort \<Rightarrow> False | _ \<Rightarrow> True)"

definition dec_quiet :: "GstCnvideodec \<Rightarrow> GstCnvideodec \<Rightarrow> bool" where
  "dec_quiet s t \<longleftrightarrow> d_decode t = d_decode s \<and> d_loop t = d_loop s \<and> d_got_eos t = d_got_eos s \<and>
     (\<exists>as. d_trace t = as @ d_trace s \<and> (\<forall>a\<in>set as. quiet a))"

lemma quiet_handles:
  "\<forall>a\<in>set as. quiet a \<Longrightarrow> live_handles c (as @ t) = live_handles c t \<and> dropped_handles c (as @ t) = dropped_handles c t"
  by (induction as) (auto simp: quiet_def split: dec_act.splits)

lemma dec_quiet_inv: "dec_quiet s t \<Longrightarrow> dec_inv E s \<Longrightarrow> dec_inv E t"
  using quiet_handles by (auto simp: dec_quiet_def dec_inv_def)

lemma dec_quiet_refl [simp]: "dec_quiet s s"
  unfolding dec_quiet_def by (intro conjI exI [of _ "[]"]) simp_all

lemma dec_quiet_trans:
  assumes "dec_quiet s t" and "dec_quiet t u"
  shows "dec_quiet s u"
proof -
  from assms obtain as bs where "d_trace t = as @ d_trace s" "\<forall>a\<in>set as. quiet a"
    "d_trace u = bs @ d_trace t" "\<forall>a\<in>set bs. quiet a" by (auto simp: dec_quiet_def)
  then have "d_trace u = (bs @ as) @ d_trace s \<and> (\<forall>a\<in>set (bs @ as). quiet a)" by auto
  with assms show ?thesis unfolding dec_quiet_def by auto
qed

lemma dec_quiet_do: "quiet a \<Longrightarrow> dec_quiet s t \<Longrightarrow> dec_quiet s (dec_do a t)"
  by (rule dec_quiet_trans, assumption) (auto simp: dec_quiet_def intro!: exI [of _ "[a]"])

lemma dec_quiet_upd:
  assumes "dec_quiet s t" and "d_decode u = d_decode t" and "d_loop u = d_loop t" and "d_got_eos u = d_got_eos t" and "d_trace u = d_trace t"
  shows "dec_quiet s u"
  using assms by (simp add: dec_quiet_def)

lemma quiet_simps [simp]:
  "quiet Act_Feed_Eos" "quiet (Act_Feed bs p f)" "quiet (Act_Start i)" "quiet Act_Stop" "quiet (Act_AddRef n)" "quiet (Act_ReleaseRef n)"
  "quiet (Act_Push b)" "quiet Act_Push_Eos" "quiet (Act_Bus m)" "quiet Act_Map" "quiet Act_Unmap" "quiet Act_Unref"
  by (simp_all add: quiet_def)

lemma dec_quiet_env: "dec_quiet s t \<Longrightarrow> \<forall>a\<in>set b. quiet a \<Longrightarrow> dec_quiet s (env_state b v t)"
  by (rule dec_quiet_trans, assumption) (auto simp: dec_quiet_def intro!: exI [of _ b])

lemma dec_release_buffer_quiet: "dec_quiet s (dec_release_buffer E h n s)"
  by (auto simp: dec_release_buffer_def Let_def intro!: dec_quiet_do)

lemma dec_push_buffer_quiet: "dec_quiet s (dec_push_buffer E pl pts s)"
  by (auto simp: dec_push_buffer_def DecodeFrameDeallocator_deallocate_def dec_release_buffer_quiet
      intro!: dec_quiet_do split: dec_payload.split option.split)

lemma dec_handle_sequence_quiet: "dec_quiet s (dec_handle_sequence E i s)"
  unfolding dec_handle_sequence_def Let_def
  by (auto intro!: dec_quiet_do dec_quiet_upd [OF dec_quiet_refl [of s]])

lemma dec_handle_event_quiet: "dec_quiet s (dec_handle_event e s)"
  by (auto simp: dec_handle_event_def intro!: dec_quiet_upd [OF dec_quiet_refl [of s]])

lemma dec_bind_once_cases:
  obtains dev where "dec_bind_once E c f s = Ret True (if c then s else f (env_state [] dev s))"
  | dev where "dec_bind_once E c f s = Ret False (env_state [Act_Bus ''set mlu environment failed''] dev s)" "\<not> c"
proof (cases c)
  case True
  then have "dec_bind_once E c f s = Ret True (if c then s else f (env_state [] (d_dev s) s))" by (simp add: dec_bind_once_def)
  then show ?thesis by (rule that(1))
next
  case False
  show ?thesis
  proof (rule dec_set_cnrt_env_cases [of E s], goal_cases)
    case (1 dev)
    with False have "dec_bind_once E c f s = Ret True (if c then s else f (env_state [] dev s))" by (simp add: dec_bind_once_def)
    then show ?case by (rule that(1))
  next
    case (2 dev)
    with False have "dec_bind_once E c f s = Ret False (env_state [Act_Bus ''set mlu environment failed''] dev s)"
      by (simp add: dec_bind_once_def)
    then show ?case using False by (rule that(2))
  qed
qed

definition flag_only :: "(GstCnvideodec \<Rightarrow> GstCnvideodec) \<Rightarrow> bool" where
  "flag_only f \<longleftrightarrow> (\<forall>s. d_decode (f s) = d_decode s \<and> d_loop (f s) = d_loop s \<and> d_got_eos (f s) = d_got_eos s \<and>
     d_trace (f s) = d_trace s \<and> d_queue (f s) = d_queue s \<and> d_send_eos (f s) = d_send_eos s \<and> d_gst_state (f s) = d_gst_state s)"

lemma flag_only_env [simp]:
  "flag_only (\<lambda>s. s\<lparr>d_env_frame := True\<rparr>)" "flag_only (\<lambda>s. s\<lparr>d_env_init := True\<rparr>)" "flag_only (\<lambda>s. s\<lparr>d_env_feed := True\<rparr>)"
  by (simp_all add: flag_only_def)

lemma dec_bind_once_Ret:
  assumes "dec_bind_once E c f s = Ret ok t" and "flag_only f"
  shows "dec_quiet s t \<and> d_queue t = d_queue s \<and> d_send_eos t = d_send_eos s"
proof (rule dec_bind_once_cases [of E c f s], goal_cases)
  case (1 dev)
  have "dec_quiet s (f (env_state [] dev s))"
    by (rule dec_quiet_upd [of s "env_state [] dev s"]) (use assms(2) in \<open>auto simp: flag_only_def intro: dec_quiet_env\<close>)
  with 1 assms show ?case by (auto simp: flag_only_def split: if_splits)
next
  case (2 dev)
  with assms show ?case by (auto intro: dec_quiet_env)
qed

lemma dec_bind_once_settled: "settled (dec_bind_once E c f s)"
  by (rule dec_bind_once_cases [of E c f s]) auto

lemma copy_d2h_Ret: "copy_d2h E mem off p n s = Ret mem' t \<Longrightarrow> t = s"
  by (auto simp: copy_d2h_def split: sum.splits option.splits)

lemma dec_copy_frame_quiet:
  assumes "dec_copy_frame_d2h E f s = Ret r t"
  shows "dec_quiet s t"
  using assms unfolding dec_copy_frame_d2h_def Let_def
  by (auto simp: call_then_Ret_iff dest!: copy_d2h_Ret intro!: dec_quiet_do split: if_splits option.splits)

lemma dec_mlu_frame_quiet: "dec_mlu_frame E f s = Ret r t \<Longrightarrow> dec_quiet s t"
  by (auto simp: dec_mlu_frame_def call_then_Ret_iff lift_call_Ret_iff
      intro!: dec_quiet_upd [OF dec_quiet_refl [of s]] split: if_splits)

lemma dec_handle_frame_quiet:
  assumes "dec_handle_frame E f pts s = Ret r t"
  shows "dec_quiet s t"
proof -
  from assms obtain ok u where u: "dec_bind_once E (d_env_frame s) (\<lambda>s. s\<lparr>d_env_frame := True\<rparr>) s = Ret ok u"
    and k: "(if \<not> ok then Ret () u
          else if at_most_ready (d_gst_state u) then Ret () (dec_release_buffer E (d_decode u) (f_id f) u)
          else if d_output_on_cpu u
          then call_then (dec_copy_frame_d2h E f u) (\<lambda>mem s.
                 let s = dec_do (Act_ReleaseRef (f_id f)) (dec_do (Act_AddRef (f_id f)) s)
                 in case mem of None \<Rightarrow> Ret () s | Some bs \<Rightarrow> Ret () (dec_push_buffer E (On_Cpu bs) pts s))
          else call_then (dec_mlu_frame E f u) (\<lambda>fr s.
                 Ret () (dec_push_buffer E (On_Mlu fr) pts (dec_do (Act_AddRef (f_id f)) s)))) = Ret r t"
    unfolding dec_handle_frame_def call_then_Ret_iff by blast
  have "dec_quiet u t"
    using k
    by (auto simp: call_then_Ret_iff Let_def dec_release_buffer_quiet split: if_splits option.splits
        intro!: dec_quiet_trans [OF _ dec_push_buffer_quiet] dec_quiet_do
        dest!: dec_copy_frame_quiet dec_mlu_frame_quiet)
  with dec_bind_once_Ret [OF u] show ?thesis by (auto intro: dec_quiet_trans)
qed

lemma dec_event_handler_quiet: "dec_event_handler E c s = Ret r t \<Longrightarrow> dec_quiet s t"
  by (cases c) (auto simp: dec_handle_frame_quiet dec_handle_sequence_quiet dec_handle_event_quiet)

lemma dec_feed_data_quiet:
  assumes "dec_feed_data E b s = Ret r t"
  shows "dec_quiet s t"
proof (cases "in_map_ok b")
  case False
  with assms show ?thesis by (auto simp: dec_feed_data_def intro!: dec_quiet_do)
next
  case True
  with assms obtain ok u where u: "dec_bind_once E (d_env_feed s) (\<lambda>s. s\<lparr>d_env_feed := True\<rparr>) (dec_do Act_Map s) = Ret ok u"
    and k: "(if ok then dec_feed_mapped E b u else Ret False u) = Ret r t"
    by (auto simp: dec_feed_data_def call_then_Ret_iff)
  have "dec_quiet u t"
    using k by (auto simp: dec_feed_mapped_def Let_def intro!: dec_quiet_do split: if_splits option.splits)
  moreover have "dec_quiet s u" using dec_bind_once_Ret [OF u] dec_quiet_do [of Act_Map s s] by (auto intro: dec_quiet_trans)
  ultimately show ?thesis by (rule dec_quiet_trans [rotated])
qed

lemma gst_cnvideodec_chain_quiet:
  assumes "gst_cnvideodec_chain E b s = Ret r t"
  shows "dec_quiet s t"
proof (cases "d_send_eos s")
  case True
  with assms show ?thesis by (auto simp: gst_cnvideodec_chain_def intro!: dec_quiet_do)
next
  case False
  with assms obtain ok u where u: "dec_feed_data E b (s\<lparr>d_duration := in_duration b\<rparr>) = Ret ok u"
    and t: "t = u \<or> t = dec_do Act_Unref u"
    by (auto simp: gst_cnvideodec_chain_def call_then_Ret_iff split: if_splits)
  have "dec_quiet s (s\<lparr>d_duration := in_duration b\<rparr>)" by (rule dec_quiet_upd [OF dec_quiet_refl]) simp_all
  from dec_quiet_trans [OF this dec_feed_data_quiet [OF u]] t show ?thesis by (auto intro: dec_quiet_do)
qed

lemma live_handles_simps:
  "live_handles c (Act_Abort # t) = live_handles c t - 1" "live_handles c (Act_Destroy # t) = live_handles c t - 1"
  "live_handles c (Act_Bus m # t) = live_handles c t" "live_handles c (Act_Push_Eos # t) = live_handles c t"
  "dropped_handles c (Act_Abort # t) = dropped_handles c t" "dropped_handles c (Act_Destroy # t) = dropped_handles c t"
  "dropped_handles c (Act_Bus m # t) = dropped_handles c t" "dropped_handles c (Act_Push_Eos # t) = dropped_handles c t"
  by simp_all

lemma dec_inv_eos: "dec_inv E s \<Longrightarrow> dec_inv E (dec_handle_eos s)"
  by (auto simp: dec_inv_def dec_handle_eos_def Let_def dec_do_def)

lemma dec_inv_abort: "dec_inv E s \<Longrightarrow> dec_inv E (dec_abort_decoder s)"
  by (auto simp: dec_inv_def dec_abort_decoder_def dec_handle_eos_def Let_def dec_do_def)

lemma dec_inv_bus: "dec_inv E s \<Longrightarrow> dec_inv E (dec_do (Act_Bus m) s)"
  by (simp add: dec_inv_def dec_do_def)

lemma dec_inv_dispatch: "dec_inv E s \<Longrightarrow> dec_inv E (dec_dispatch ver e s)"
  by (auto simp: dec_dispatch_def intro: dec_inv_eos dec_inv_abort dec_inv_bus)

lemma dec_inv_pop: "dec_inv E s \<Longrightarrow> dec_inv E (dec_pop s)"
  by (simp add: dec_inv_def dec_pop_def)

lemma dec_inv_rest: "dec_inv E s \<Longrightarrow> dec_inv E (dec_rest s)"
  by (simp add: dec_inv_def dec_rest_def joinable_def)

lemma dec_inv_runner: "dec_inv E s \<Longrightarrow> dec_inv E (dec_event_task_runner ver s)"
proof (induction ver s rule: dec_event_task_runner.induct)
  case (1 ver s)
  then show ?case
    by (subst dec_event_task_runner.simps) (auto intro: dec_inv_rest dec_inv_dispatch dec_inv_pop split: list.split)
qed

lemma dec_inv_run_loop: "dec_inv E s \<Longrightarrow> dec_inv E (dec_run_loop E s)"
  by (simp add: dec_run_loop_def dec_inv_runner)

lemma dec_inv_request: "dec_inv E s \<Longrightarrow> dec_inv E (dec_request_eos E s)"
  by (auto simp: dec_inv_def dec_request_eos_def Let_def dec_do_def)

lemma dec_inv_wait: "dec_inv E s \<Longrightarrow> dec_inv E (dec_wait_eos E es s)"
  unfolding dec_wait_eos_def fold_dec_handle_event
  by (rule dec_inv_run_loop) (simp add: dec_inv_def)

lemma dec_inv_finish: "dec_inv E s \<Longrightarrow> dec_inv E (dec_teardown (dec_join E s))"
  using dec_inv_run_loop [of E s] by (auto simp: dec_inv_def dec_teardown_def dec_join_def dec_do_def)

lemma dec_finish_sel: "\<not> d_decode (dec_teardown (dec_join E s))" "d_loop (dec_teardown (dec_join E s)) = No_Thread"
  by (simp_all add: dec_teardown_def dec_join_def)

lemma dec_inv_close:
  assumes "dec_inv E s"
  shows "dec_close E es s = Ret r t \<Longrightarrow> dec_inv E t \<and> r \<and> \<not> d_decode t \<and> d_loop t = No_Thread"
    and "dec_close E es s = Blocked t \<Longrightarrow> dec_inv E t"
  using dec_inv_request [OF assms]
  by (auto simp: dec_close_def Let_def dec_finish_sel split: if_splits intro: dec_inv_wait dec_inv_finish)

lemma dec_inv_destroy:
  assumes "dec_inv E s" and "gst_cnvideodec_destroy_decoder E es s = Ret r t"
  shows "dec_inv E t \<and> (r \<longrightarrow> \<not> d_decode t \<and> d_loop t = No_Thread)"
proof (rule dec_set_cnrt_env_cases [of E s], goal_cases)
  case (1 dev)
  have "dec_inv E (env_state [] dev s)" by (rule dec_quiet_inv [OF dec_quiet_env assms(1)]) simp_all
  from dec_inv_close(1) [OF this] 1 assms(2) show ?case by (simp add: gst_cnvideodec_destroy_decoder_def)
next
  case (2 dev)
  have "dec_inv E (env_state [Act_Bus ''set mlu environment failed''] dev s)"
    by (rule dec_quiet_inv [OF dec_quiet_env assms(1)]) simp_all
  with 2 assms(2) show ?case by (auto simp: gst_cnvideodec_destroy_decoder_def)
qed

lemma dec_create_params_sel [simp]:
  "d_decode (dec_create_params E s) = d_decode s" "d_loop (dec_create_params E s) = d_loop s"
  "d_got_eos (dec_create_params E s) = d_got_eos s" "d_trace (dec_create_params E s) = d_trace s"
  "d_queue (dec_create_params E s) = d_queue s"
  by (simp_all add: dec_create_params_def split: prod.split)

lemma dec_inv_open:
  assumes "dec_inv E s" and "dec_open E s = Ret r t"
  shows "dec_inv E t \<and> (r \<longrightarrow> d_decode t \<and> d_loop t = Looping)"
proof -
  define a where "a = dec_do (Act_Create (d_params (dec_create_params E (s\<lparr>d_loop := Looping\<rparr>)))) (dec_create_params E (s\<lparr>d_loop := Looping\<rparr>))"
  define b where "b = dec_do (Act_SetAttr 1) (a\<lparr>d_decode := True\<rparr>)"
  have j: "\<not> joinable (d_loop s)" using assms(2) by (auto simp: dec_open_def)
  then have d: "\<not> d_decode s" using assms(1) by (auto simp: dec_inv_def)
  have a: "d_decode a = d_decode s" "d_loop a = Looping" "d_got_eos a = d_got_eos s"
      "d_trace a = Act_Create (d_params (dec_create_params E (s\<lparr>d_loop := Looping\<rparr>))) # d_trace s"
    by (simp_all add: a_def)
  have b: "d_decode b" "d_loop b = Looping" "d_got_eos b = d_got_eos s" "d_trace b = Act_SetAttr 1 # d_trace a"
    using a by (simp_all add: b_def)
  have r: "dec_open E s = (if dec_ret E a \<noteq> CNCODEC_SUCCESS
      then Ret False ((dec_do (Act_Bus ''Create video decode instance failed'') a)\<lparr>d_decode := False\<rparr>)
      else if dec_ret E b \<noteq> CNCODEC_SUCCESS
      then Ret False ((dec_do (Act_Bus ''cnvideo decode set attributes faild'') b)\<lparr>d_decode := False\<rparr>)
      else Ret True b)"
    using j by (simp add: dec_open_def Let_def a_def b_def)
  have live: "live_handles (e_codec E) (d_trace a) = live_handles (e_codec E) (d_trace s) + (if dec_ret E a = CNCODEC_SUCCESS then 1 else 0)"
    "dropped_handles (e_codec E) (d_trace a) = dropped_handles (e_codec E) (d_trace s)"
    "live_handles (e_codec E) (d_trace b) = live_handles (e_codec E) (d_trace a)"
    "dropped_handles (e_codec E) (d_trace b) = dropped_handles (e_codec E) (d_trace a) + (if dec_ret E b = CNCODEC_SUCCESS then 0 else 1)"
    by (simp_all add: a(4) b(4) dec_ret_def)
  have "dec_ret E a \<noteq> CNCODEC_SUCCESS \<Longrightarrow> ?thesis"
    using assms live a d by (simp add: r dec_inv_def) force
  moreover have "dec_ret E a = CNCODEC_SUCCESS \<Longrightarrow> dec_ret E b \<noteq> CNCODEC_SUCCESS \<Longrightarrow> ?thesis"
    using assms live b d by (simp add: r dec_inv_def) force
  moreover have "dec_ret E a = CNCODEC_SUCCESS \<Longrightarrow> dec_ret E b = CNCODEC_SUCCESS \<Longrightarrow> ?thesis"
    using assms live b d by (simp add: r dec_inv_def) (auto simp: joinable_def)
  ultimately show ?thesis by blast
qed

lemma dec_inv_init:
  assumes "dec_inv E s" and "gst_cnvideodec_init_decoder E s = Ret r t"
  shows "dec_inv E t \<and> (r \<longrightarrow> d_decode t \<and> d_loop t = Looping)"
proof -
  from assms(2) obtain ok u where u: "dec_bind_once E (d_env_init s) (\<lambda>s. s\<lparr>d_env_init := True\<rparr>) s = Ret ok u"
    and k: "(if ok then dec_open E u else Ret False u) = Ret r t"
    by (auto simp: gst_cnvideodec_init_decoder_def call_then_Ret_iff)
  have inv: "dec_inv E u" using dec_bind_once_Ret [OF u] assms(1) by (auto intro: dec_quiet_inv)
  show ?thesis using k inv dec_inv_open [OF inv, of r t] by (cases ok) auto
qed

lemma dec_negotiate_sel:
  assumes "dec_negotiate c s = (ok, u)"
  shows "d_decode u = d_decode s \<and> d_loop u = d_loop s \<and> d_got_eos u = d_got_eos s \<and> d_trace u = d_trace s \<and>
     d_queue u = d_queue s \<and> d_send_eos u = d_send_eos s \<and> d_device_id u = d_device_id s \<and> d_dev u = d_dev s"
  using assms by (auto simp: dec_negotiate_def Let_def split: if_splits option.splits)

lemma dec_inv_set_caps:
  assumes "dec_inv E s" and "gst_cnvideodec_set_caps E es c s = Ret r t"
  shows "dec_inv E t \<and> (r \<longrightarrow> d_decode t \<and> d_loop t = Looping)"
proof -
  obtain ok u where u: "dec_negotiate c s = (ok, u)" by (cases "dec_negotiate c s")
  have inv: "dec_inv E u" using dec_negotiate_sel [OF u] assms(1) by (simp add: dec_inv_def)
  show ?thesis
  proof (cases ok)
    case False
    with assms(2) u inv show ?thesis by (auto simp: gst_cnvideodec_set_caps_def)
  next
    case True
    with assms(2) u obtain ok2 v where v: "(if d_decode u then gst_cnvideodec_destroy_decoder E es u else Ret True u) = Ret ok2 v"
      and k: "(if \<not> ok2 then Ret False v else gst_cnvideodec_init_decoder E (v\<lparr>d_send_eos := False, d_got_eos := False\<rparr>)) = Ret r t"
      by (auto simp: gst_cnvideodec_set_caps_def call_then_Ret_iff)
    have "dec_inv E v \<and> (ok2 \<longrightarrow> \<not> d_decode v)"
      using v dec_inv_destroy [OF inv] inv by (auto split: if_splits)
    then have iv: "dec_inv E v" "ok2 \<Longrightarrow> dec_inv E (v\<lparr>d_send_eos := False, d_got_eos := False\<rparr>)"
      by (auto simp: dec_inv_def)
    show ?thesis
    proof (cases ok2)
      case True
      with k dec_inv_init [OF iv(2) [OF True], of r t] show ?thesis by simp
    next
      case False
      with k iv(1) show ?thesis by auto
    qed
  qed
qed

subsection \<open>The element's life\<close>

text \<open>
  What can happen to the element: its pads and state are driven by GStreamer, the codec calls
  back, the event thread pops one event or returns.
\<close>

inductive dec_step :: "dec_env \<Rightarrow> GstCnvideodec \<Rightarrow> GstCnvideodec \<Rightarrow> bool" for E :: dec_env where
  property: "gst_cnvideodec_set_property p (s, r) = (t, r') \<Longrightarrow> dec_step E s t"
| state: "dec_step E s (s\<lparr>d_gst_state := st\<rparr>)"
| chain: "gst_cnvideodec_chain E b s = Ret fl t \<Longrightarrow> dec_step E s t"
| event: "gst_cnvideodec_sink_event E es ev s = Ret ok t \<Longrightarrow> dec_step E s t"
| change: "gst_cnvideodec_change_state E es parent tr s = Ret ret t \<Longrightarrow> dec_step E s t"
| callback: "dec_event_handler E c s = Ret u t \<Longrightarrow> dec_step E s t"
| pop_event: "d_loop s = Looping \<Longrightarrow> d_queue s = e # q \<Longrightarrow> dec_step E s (dec_dispatch (e_ver E) e (dec_pop s))"
| loop_ends: "d_loop s = Looping \<Longrightarrow> d_queue s = [] \<Longrightarrow> d_got_eos s \<Longrightarrow> dec_step E s (s\<lparr>d_loop := Loop_Done\<rparr>)"

inductive dec_reach :: "dec_env \<Rightarrow> GstCnvideodec \<Rightarrow> bool" for E :: dec_env where
  start: "gst_cnvideodec_init m dev r = Some (s, r') \<Longrightarrow> dec_reach E s"
| step: "dec_reach E s \<Longrightarrow> dec_step E s t \<Longrightarrow> dec_reach E t"

lemma dec_set_property_quiet: "gst_cnvideodec_set_property p (s, r) = (t, r') \<Longrightarrow> dec_quiet s t"
  by (cases p) (auto simp: Let_def intro!: dec_quiet_upd [OF dec_quiet_refl [of s]] split: if_splits)

lemma dec_inv_sink_event:
  assumes "dec_inv E s" and "gst_cnvideodec_sink_event E es ev s = Ret ok t"
  shows "dec_inv E t"
proof (cases ev)
  case (EVENT_CAPS c)
  with assms dec_inv_set_caps [OF assms(1), of es c ok t] show ?thesis by simp
next
  case EVENT_EOS
  have "dec_quiet s (s\<lparr>d_send_eos := True\<rparr>)" by (rule dec_quiet_upd [OF dec_quiet_refl]) simp_all
  then have "dec_quiet s t" using EVENT_EOS assms(2) by (auto simp: Let_def intro!: dec_quiet_do split: if_splits)
  then show ?thesis using assms(1) by (rule dec_quiet_inv)
next
  case (EVENT_OTHER x)
  with assms show ?thesis by simp
qed

lemma dec_inv_change_state:
  assumes "dec_inv E s" and "gst_cnvideodec_change_state E es parent tr s = Ret ret t"
  shows "dec_inv E t"
  using assms dec_inv_destroy [OF assms(1), of es _ t]
  by (auto simp: gst_cnvideodec_change_state_def call_then_Ret_iff split: if_splits)

lemma dec_step_inv:
  assumes "dec_step E s t" and "dec_inv E s"
  shows "dec_inv E t"
  using assms(1)
proof cases
  case (property p r r') then show ?thesis using assms(2) by (blast intro: dec_quiet_inv dec_set_property_quiet)
next
  case (state st) then show ?thesis using assms(2) by (simp add: dec_inv_def)
next
  case (chain b fl) then show ?thesis using assms(2) by (blast intro: dec_quiet_inv gst_cnvideodec_chain_quiet)
next
  case (event es ev ok) then show ?thesis using assms(2) by (blast intro: dec_inv_sink_event)
next
  case (change es parent tr ret) then show ?thesis using assms(2) by (blast intro: dec_inv_change_state)
next
  case (callback c u) then show ?thesis using assms(2) by (blast intro: dec_quiet_inv dec_event_handler_quiet)
next
  case (pop_event e q) then show ?thesis using assms(2) by (simp add: dec_inv_dispatch dec_inv_pop)
next
  case loop_ends then show ?thesis using assms(2) by (simp add: dec_inv_def joinable_def)
qed

lemma dec_init_state:
  assumes "gst_cnvideodec_init m dev r = Some (s, r')"
  shows "\<not> d_decode s" and "d_trace s = []" and "d_loop s = No_Thread" and "d_queue s = []" and "\<not> d_got_eos s" and "\<not> d_send_eos s"
  using assms by (auto simp: gst_cnvideodec_init_def split: option.splits)

lemma dec_reach_inv: "dec_reach E s \<Longrightarrow> dec_inv E s"
proof (induction rule: dec_reach.induct)
  case (start m dev r s r')
  then show ?case using dec_init_state [OF start] by (simp add: dec_inv_def)
next
  case (step s t)
  then show ?case by (blast intro: dec_step_inv)
qed

text \<open>C6: In every reachable state of the decoder element, whatever GStreamer, the upstream data
  and the codec do: a decoder handle is held only while its event thread exists, and that thread
  still runs unless the end of the stream was seen; and every decoder the codec library created is
  either the one in use, or was destroyed or aborted, or was dropped because setting its
  attributes failed: the element leaks no decoder but those.\<close>

theorem dec_no_leak:
  assumes "dec_reach E s"
  shows "(d_decode s \<longrightarrow> joinable (d_loop s) \<and> (d_got_eos s \<or> d_loop s = Looping)) \<and>
     live_handles (e_codec E) (d_trace s) = (if d_decode s then 1 else 0) + dropped_handles (e_codec E) (d_trace s)"
  using dec_reach_inv [OF assms] by (simp add: dec_inv_def)

text \<open>C7: Closing the decoder in a reachable state, the device being bound: \<open>destroy_decoder\<close> returns
  TRUE exactly if the end of the stream was seen before, or there is no handle, or the codec raises
  (among the events still queued or raised while it waits) an end of stream or an event that makes
  the event thread abort; otherwise it waits for ever. When it returns, no handle and no thread is
  left.\<close>

theorem dec_destroy_returns:
  assumes "dec_reach E s" and "dec_set_cnrt_env E s = Ret True t"
  shows "((\<exists>u. gst_cnvideodec_destroy_decoder E es s = Ret True u) \<longleftrightarrow>
       d_got_eos s \<or> \<not> d_decode s \<or> (\<exists>e\<in>set (d_queue s @ es). ends_session (e_ver E) e)) \<and>
     ((\<exists>u. gst_cnvideodec_destroy_decoder E es s = Ret True u \<and> \<not> d_decode u \<and> d_loop u = No_Thread) \<or>
      (\<exists>u. gst_cnvideodec_destroy_decoder E es s = Blocked u))"
proof -
  from assms(2) obtain dev where t: "t = env_state [] dev s"
    by (rule_tac dec_set_cnrt_env_cases [of E s]) auto
  have inv: "dec_inv E s" using assms(1) by (rule dec_reach_inv)
  have eq: "gst_cnvideodec_destroy_decoder E es s = dec_close E es t"
    using assms(2) by (simp add: gst_cnvideodec_destroy_decoder_def)
  have b: "dec_begin_close E t = Some (dec_request_eos E t)" by (simp add: dec_begin_close_def)
  have alive: "d_got_eos t \<or> \<not> d_decode t \<or> d_loop t = Looping" using inv t by (auto simp: dec_inv_def)
  from dec.close_returns_iff [OF b alive, where es = es] t
  have 1: "(\<exists>u. dec_close E es t = Ret True u) \<longleftrightarrow>
      d_got_eos s \<or> \<not> d_decode s \<or> (\<exists>e\<in>set (d_queue s @ es). ends_session (e_ver E) e)" by simp
  have "dec_inv E t" unfolding t by (rule dec_quiet_inv [OF dec_quiet_env inv]) simp_all
  from dec_inv_close(1) [OF this] dec.close_returns_or_blocks [OF b, where es = es]
  have "(\<exists>u. dec_close E es t = Ret True u \<and> \<not> d_decode u \<and> d_loop u = No_Thread) \<or> (\<exists>u. dec_close E es t = Blocked u)"
    by blast
  with 1 show ?thesis unfolding eq by blast
qed

subsection \<open>A concrete run\<close>

definition demo_dec_env :: dec_env where
  "demo_dec_env = \<lparr>e_ver = 10600, e_major = 5, e_dev = ref_dev_lib, e_codec = (\<lambda>_. CNCODEC_SUCCESS), e_turbo = False,
     e_rt = ref_cnrt next_dev_addr, e_d2h = (\<lambda>p n. Inr (replicate n 0)), e_pad_eos = False, e_junk = 0\<rparr>"

definition demo_dec_info :: GstVideoInfo where
  "demo_dec_info = \<lparr>vi_format = GST_VIDEO_FORMAT_NV12, vi_interlace = GST_VIDEO_INTERLACE_MODE_PROGRESSIVE,
     vi_width = 64, vi_height = 32, vi_fps_n = 25, vi_fps_d = 1, vi_stride = [64, 64]\<rparr>"

definition demo_dec_caps :: dec_caps where
  "demo_dec_caps = \<lparr>dc_empty = False, dc_name = ''video/x-h264'', dc_sink_info = Some demo_dec_info, dc_peer_any = False,
     dc_peer_empty = False, dc_set_ok = True, dc_src_info = Some demo_dec_info, dc_memory_mlu = True\<rparr>"

definition demo_dec0 :: GstCnvideodec where
  "demo_dec0 = fst (the (gst_cnvideodec_init demo_mach ref_dev_state \<lparr>g_stream_id = 0, g_stream_id_set = {}\<rparr>))"

definition demo_dec1 :: GstCnvideodec where
  "demo_dec1 = (case gst_cnvideodec_sink_event demo_dec_env [] (EVENT_CAPS demo_dec_caps) demo_dec0 of Ret _ t \<Rightarrow> t | _ \<Rightarrow> demo_dec0)"

lemma demo_dec0: "gst_cnvideodec_init demo_mach ref_dev_state \<lparr>g_stream_id = 0, g_stream_id_set = {}\<rparr> =
   Some (demo_dec0, \<lparr>g_stream_id = 1, g_stream_id_set = {0}\<rparr>)"
  by (simp add: demo_dec0_def gst_cnvideodec_init_def alloc_stream_id_def next_free_id.simps)

lemma demo_env_ok [simp]: "e_codec demo_dec_env t = CNCODEC_SUCCESS" "e_ver demo_dec_env = 10600"
  "dec_set_cnrt_env demo_dec_env s =
     Ret True (s\<lparr>d_dev := (d_dev s)\<lparr>dev_trace := Call_cnrtSetDevice (d_device_id s) # dev_trace (d_dev s)\<rparr>\<rparr>)"
  by (simp_all add: demo_dec_env_def dec_set_cnrt_env_def)

lemma demo_dec1: "\<exists>t. gst_cnvideodec_sink_event demo_dec_env [] (EVENT_CAPS demo_dec_caps) demo_dec0 = Ret True t \<and> t = demo_dec1"
proof -
  note init = dec_init_state [OF demo_dec0]
  obtain u where u: "dec_negotiate demo_dec_caps demo_dec0 = (True, u)"
    by (simp add: dec_negotiate_def demo_dec_caps_def demo_dec_info_def dec_codec_of_name_def)
  note sel = dec_negotiate_sel [OF u]
  have "\<exists>t. gst_cnvideodec_sink_event demo_dec_env [] (EVENT_CAPS demo_dec_caps) demo_dec0 = Ret True t"
    using sel init by (simp add: gst_cnvideodec_set_caps_def u gst_cnvideodec_init_decoder_def dec_bind_once_def dec_open_def joinable_def
          dec_ret_def Let_def)
  then show ?thesis by (auto simp: demo_dec1_def)
qed

lemma demo_dec1_reach: "dec_reach demo_dec_env demo_dec1"
  using demo_dec1 dec_reach.step [OF dec_reach.start [OF demo_dec0] dec_step.event] by blast

lemma demo_dec1_state: "d_decode demo_dec1 \<and> d_loop demo_dec1 = Looping"
  using demo_dec1 dec_inv_set_caps [OF dec_reach_inv [OF dec_reach.start [OF demo_dec0]], of demo_dec_env "[]" demo_dec_caps True]
  by auto

theorem dec_no_leak_witness: "live_handles (e_codec demo_dec_env) (d_trace demo_dec1) = 1 + dropped_handles (e_codec demo_dec_env) (d_trace demo_dec1)"
  using dec_no_leak [OF demo_dec1_reach] demo_dec1_state by simp

theorem dec_destroy_returns_witness: "\<exists>u. gst_cnvideodec_destroy_decoder demo_dec_env [CB_STREAM_CORRUPT, CB_EOS] demo_dec1 = Ret True u"
  using dec_destroy_returns [OF demo_dec1_reach demo_env_ok(3), of "[CB_STREAM_CORRUPT, CB_EOS]"]
  by (simp add: ends_session_def)

text \<open>The event thread works off every event that is queued, in order, and then returns exactly
  if the end of the stream was seen: before, by an end-of-stream event, or, while a decoder is held,
  by an event that makes it abort the decoder; otherwise it waits for the next event. The decoder is
  given up exactly if one of the events aborts it.\<close>

theorem dec_event_loop_outcome:
  "d_queue (dec_event_task_runner ver s) = [] \<and>
   d_loop (dec_event_task_runner ver s) =
     (if d_got_eos s \<or> CB_EOS \<in> set (d_queue s) \<or> d_decode s \<and> (\<exists>e\<in>set (d_queue s). aborts ver e)
      then Loop_Done else Looping) \<and>
   d_decode (dec_event_task_runner ver s) = (d_decode s \<and> \<not> (\<exists>e\<in>set (d_queue s). aborts ver e))"
proof -
  define E where "E = demo_dec_env\<lparr>e_ver := ver\<rparr>"
  have v: "e_ver E = ver" by (simp add: E_def)
  from dec.runner_drains [of E s] dec.runner_outcome [of E s] dec_runner_loop [of ver s]
  show ?thesis by (simp add: v)
qed

text \<open>A decoder that failed to open, or that the event thread had to abort, takes the process down:
  the handle is gone but the event thread was never joined, the state change to NULL does not join it
  (it looks at the handle only), and destroying the element, or opening a decoder again on new caps,
  then destroys or assigns a joinable thread object, which terminates the program.\<close>

theorem dec_stale_thread_terminates:
  assumes "dec_open E s = Ret False t \<or>
     dec_reach E s \<and> d_decode s \<and> aborts (e_ver E) e \<and> t = dec_dispatch (e_ver E) e (dec_pop s)"
  shows "\<not> d_decode t \<and> gst_cnvideodec_change_state E es ret READY_TO_NULL t = Ret ret t \<and>
     gst_cnvideodec_finalize t r = Terminate \<and> dec_open E t = Terminate"
proof -
  have "\<not> d_decode t \<and> joinable (d_loop t)"
    using assms
  proof
    assume "dec_open E s = Ret False t"
    then show ?thesis by (auto simp: dec_open_def Let_def joinable_def split: if_splits)
  next
    assume a: "dec_reach E s \<and> d_decode s \<and> aborts (e_ver E) e \<and> t = dec_dispatch (e_ver E) e (dec_pop s)"
    then have "joinable (d_loop s)" using dec_reach_inv by (auto simp: dec_inv_def)
    with a show ?thesis by (simp add: dec_dispatch_decode dec_pop_def)
  qed
  then show ?thesis by (simp add: gst_cnvideodec_change_state_def gst_cnvideodec_finalize_def dec_open_def Let_def)
qed

theorem dec_stale_thread_terminates_witness:
  "gst_cnvideodec_finalize (dec_dispatch 10600 CB_HW_RESET (dec_pop demo_dec1)) \<lparr>g_stream_id = 1, g_stream_id_set = {0}\<rparr> = Terminate"
  using dec_stale_thread_terminates [of demo_dec_env demo_dec1 _ CB_HW_RESET] demo_dec1_reach demo_dec1_state by simp

text \<open>The end-of-stream event is always answered with FALSE, whatever the codec says, because the
  variable that takes the codec's code hides the one returned; and from then on input buffers are
  accepted and dropped without being fed.\<close>

theorem dec_eos_event:
  "\<exists>t. gst_cnvideodec_sink_event E es EVENT_EOS s = Ret False t \<and> d_send_eos t \<and>
     gst_cnvideodec_chain E b t = Ret GST_FLOW_OK (dec_do Act_Unref t)"
  by (auto simp: gst_cnvideodec_chain_def Let_def)

subsection \<open>Copying frames to the host\<close>

lemma put_fill: "off + length bs \<le> length d \<Longrightarrow> put d off bs = Some (fill d off bs)"
  by (simp add: put_def fill_def)


definition demo_nv_frame :: cncodecFrame where
  "demo_nv_frame = \<lparr>f_id = 1, f_width = 2, f_height = 2, f_stride = [4, 4], f_plane = [1, 2], f_planeNum = 2, f_channel = 0\<rparr>"

definition demo_nv_env :: dec_env where
  "demo_nv_env = demo_dec_env\<lparr>e_d2h := (\<lambda>p n. Inr (take n
     (if p = 1 then [100, 101, 102, 103, 104, 105, 106, 107] else if p = 2 then [200, 201, 202, 203] else [220, 221])))\<rparr>"

lemma pack_demo: "pack w 2 s off src = take w (drop off src) @ take w (drop (off + s) src)"
  by (simp add: pack_def upt_rec)

definition demo_nv_dec :: GstCnvideodec where
  "demo_nv_dec = demo_dec0\<lparr>d_src_info := demo_dec_info\<rparr>"


text \<open>An I420 frame of even width and height whose chroma strides are half the luma stride reaches
  the host as its tight rows of Y, then of U, then of V.\<close>

theorem dec_copy_i420_frame:
  assumes fmt: "vi_format (d_src_info s) = GST_VIDEO_FORMAT_I420"
    and w: "unat (f_width f) = 2 * cw" and h: "unat (f_height f) = 2 * hh"
    and st: "f_str f 0 = 2 * cs" "f_str f 1 = cs" "f_str f 2 = cs"
    and le: "cw \<le> cs" and sz: "2 * cs * (2 * hh) * 3 < 2 ^ 32"
    and Y: "e_d2h E (nth0 (f_plane f) 0) (2 * cs * (2 * hh)) = Inr y" "length y = 2 * cs * (2 * hh)"
    and U: "e_d2h E (nth0 (f_plane f) 1) (cs * hh) = Inr u" "length u = cs * hh"
    and V: "e_d2h E (nth0 (f_plane f) 2) (cs * hh) = Inr v" "length v = cs * hh"
  shows "dec_copy_frame_d2h E f s =
     Ret (Some (pack (2 * cw) (2 * hh) (2 * cs) 0 y @ pack cw hh cs 0 u @ pack cw hh cs 0 v)) s"
proof -
  let ?n = "2 * cs * (2 * hh)" and ?w = "2 * cw" and ?h = "2 * hh" and ?c = "2 * cs"
  let ?mem = "replicate (?n * 3 div 2) (e_junk E)"
  have m: "m32 ?n = ?n" "m32 (?n * 3) = ?n * 3" "m32 (cs * ?h) = cs * ?h" "cs * ?h div 2 = cs * hh"
    "?n * 3 div 2 = ?n + cs * hh + cs * hh"
    using sz by simp_all
  have wsz: "?w * ?h * 3 < 2 ^ 32"
    by (rule le_less_trans [OF mult_le_mono1 [OF mult_le_mono1] sz]) (use le in simp)
  have mw: "m32 (?w * ?h * 3) div 2 = ?w * ?h + cw * hh + cw * hh" using wsz by simp
  have p1: "put ?mem 0 y = Some (fill ?mem 0 y)" using Y(2) m(5) by (intro put_fill) simp
  have p2: "put (fill ?mem 0 y) ?n u = Some (fill (fill ?mem 0 y) ?n u)"
    using Y(2) U(2) m(5) by (intro put_fill) simp
  have p3: "put (fill (fill ?mem 0 y) ?n u) (?n + cs * hh) v = Some (y @ u @ v)"
    using put_fill [of "?n + cs * hh" v "fill (fill ?mem 0 y) ?n u"] fill_3 [of y u v ?mem] Y(2) U(2) V(2) m(5) by simp
  have clear: "clear_alignment True ?w ?h ?c cs cs (y @ u @ v) (replicate (?w * ?h + cw * hh + cw * hh) (e_junk E)) =
      Some (pack ?w ?h ?c 0 y @ pack cw hh cs 0 u @ pack cw hh cs 0 v)"
  proof -
    have "clear_alignment True ?w ?h ?c cs cs (y @ u @ v) (replicate (?w * ?h + cw * hh + cw * hh) (e_junk E)) =
      Some (pack ?w ?h ?c 0 (y @ u @ v) @ pack cw hh cs ?n (y @ u @ v) @ pack cw hh cs (?n + cs * hh) (y @ u @ v))"
      using le sz Y(2) U(2) V(2) by (intro clear_alignment_i420) (simp_all add: mult.commute)
    also have "pack ?w ?h ?c 0 (y @ u @ v) = pack ?w ?h ?c 0 y"
      using Y(2) le by (intro pack_append1) (simp_all add: mult.commute)
    also have "pack cw hh cs ?n (y @ u @ v) = pack cw hh cs 0 u"
      using pack_append2 [of cw hh cs y "u @ v"] pack_append1 [of 0 hh cs u cw v] Y(2) U(2) le by (simp add: mult.commute)
    also have "pack cw hh cs (?n + cs * hh) (y @ u @ v) = pack cw hh cs 0 v"
      using pack_append2 [of cw hh cs "y @ u" v] Y(2) U(2) by simp
    finally show ?thesis .
  qed
  have tight: "y @ u @ v = pack ?w ?h ?c 0 y @ pack cw hh cs 0 u @ pack cw hh cs 0 v" if "?c = ?w"
    using that Y(2) U(2) V(2) pack_tight [of 0 ?h ?w y] pack_tight [of 0 hh cw u] pack_tight [of 0 hh cw v]
    by (simp add: mult.commute)
  have c1: "copy_d2h E ?mem 0 (nth0 (f_plane f) 0) ?n s = Ret (fill ?mem 0 y) s"
    using Y p1 by (simp add: copy_d2h_def)
  have c2: "copy_d2h E (fill ?mem 0 y) ?n (nth0 (f_plane f) 1) (cs * hh) s = Ret (fill (fill ?mem 0 y) ?n u) s"
    using U p2 by (simp add: copy_d2h_def)
  have c3: "copy_d2h E (fill (fill ?mem 0 y) ?n u) (?n + cs * hh) (nth0 (f_plane f) 2) (cs * hh) s = Ret (y @ u @ v) s"
    using V p3 by (simp add: copy_d2h_def)
  show ?thesis
    unfolding dec_copy_frame_d2h_def Let_def st h w m mw c1
    using fmt c1 c2 c3 clear tight by (simp add: Let_def)
qed

definition demo_i420_frame :: cncodecFrame where
  "demo_i420_frame = \<lparr>f_id = 1, f_width = 2, f_height = 2, f_stride = [4, 2, 2], f_plane = [1, 2, 3], f_planeNum = 3, f_channel = 0\<rparr>"

definition demo_i420_dec :: GstCnvideodec where
  "demo_i420_dec = demo_dec0\<lparr>d_src_info := demo_dec_info\<lparr>vi_format := GST_VIDEO_FORMAT_I420\<rparr>\<rparr>"

theorem dec_copy_i420_frame_witness:
  "dec_copy_frame_d2h demo_nv_env demo_i420_frame demo_i420_dec = Ret (Some [100, 101, 104, 105, 200, 220]) demo_i420_dec"
  using dec_copy_i420_frame [of demo_i420_dec demo_i420_frame 1 1 2 demo_nv_env "[100, 101, 102, 103, 104, 105, 106, 107]" "[200, 201]" "[220, 221]"]
  by (simp add: demo_i420_dec_def demo_i420_frame_def demo_nv_env_def f_str_def pack_demo)
    (simp add: pack_def)

lemma for_rows_length:
  assumes "\<And>i d e. step i d = Some e \<Longrightarrow> length e = length d" and "for_rows step is d = Some e"
  shows "length e = length d"
  using assms(2)
proof (induction "is" arbitrary: d)
  case (Cons i js)
  then obtain c where "step i d = Some c" "for_rows step js c = Some e" by (auto simp: bind_eq_Some_conv)
  with Cons.IH assms(1) show ?case by fastforce
qed simp

lemma nv_row_length: "nv_row w h s0 s1 src i d = Some e \<Longrightarrow> length e = length d"
  by (auto simp: nv_row_def bind_eq_Some_conv dest!: blit_length split: if_splits)

text \<open>With an odd height the copying loop of a padded semi-planar frame writes one row of chroma
  more than the destination, sized \<open>width * height * 3 / 2\<close>, has room for: the last row goes past
  the end of the block.\<close>

theorem clear_alignment_odd_height:
  assumes "odd h" and "0 < w" and "w * h < 2 ^ 32" and "length dst = w * h * 3 div 2"
  shows "clear_alignment False w h s0 s1 s2 src dst = None"
proof -
  obtain k where k: "h = 2 * k + 1" using assms(1) by (auto elim: oddE)
  have last: "nv_row w h s0 s1 src (2 * k) d = None" if "length d = length dst" for d
  proof -
    have m: "m32 (w * h) = w * h" using assms(3) by simp
    have "2 * k * w \<le> w * h" using k by (simp add: algebra_simps)
    then have "2 * k * w < 2 ^ 32" using assms(3) by (rule le_less_trans)
    then have m2: "m32 (2 * k * w) = 2 * k * w" by simp
    have "2 * (w * h + k * w + w) = w * h * 3 + w" using k by (simp add: algebra_simps)
    moreover have "2 * length d \<le> w * h * 3" using that assms(4) by simp
    ultimately have "2 * length d < 2 * (w * h + k * w + w)" using assms(2) by linarith
    then have "length d < w * h + k * w + w" by simp
    then have "blit e (w * h + k * w) src (m32 (s0 * h) + m32 (2 * k * s1) div 2) w = None" if "length e = length d" for e
      using that by (simp add: blit_def put_def)
    then show ?thesis
      using m m2 blit_length [of d "2 * k * w" src "m32 (2 * k * s0)" w]
      by (cases "blit d (2 * k * w) src (m32 (2 * k * s0)) w") (simp_all add: nv_row_def)
  qed
  have "[0..<h] = [0..<2 * k] @ [2 * k]" using k by simp
  then have "clear_alignment False w h s0 s1 s2 src dst =
      Option.bind (for_rows (nv_row w h s0 s1 src) [0..<2 * k] dst) (nv_row w h s0 s1 src (2 * k))"
    by (simp only: clear_alignment_def if_False for_rows_snoc)
  also have "\<dots> = None"
    using last for_rows_length [of "nv_row w h s0 s1 src", OF nv_row_length]
    by (cases "for_rows (nv_row w h s0 s1 src) [0..<2 * k] dst") simp_all
  finally show ?thesis .
qed

theorem clear_alignment_odd_height_witness:
  "clear_alignment False 2 3 4 4 0 (replicate 100 7) (replicate 9 0) = None"
  by (rule clear_alignment_odd_height) simp_all

subsection \<open>Caps\<close>

text \<open>What \<open>set_caps\<close> and the properties have fixed; closing a decoder does not change it.\<close>

definition dec_config :: "GstCnvideodec \<Rightarrow> cncodecType \<times> GstVideoInfo \<times> GstVideoInfo \<times> bool \<times> u32 \<times> u32 \<times> int" where
  "dec_config s = (d_codec_type s, d_sink_info s, d_src_info s, d_output_on_cpu s, d_input_buffer_num s,
     d_output_buffer_num s, d_device_id s)"

lemma dec_config_do [simp]: "dec_config (dec_do a s) = dec_config s"
  by (simp add: dec_config_def dec_do_def)

lemma dec_config_dispatch [simp]: "dec_config (dec_dispatch ver e s) = dec_config s"
  by (simp add: dec_config_def dec_event_simps)

lemma dec_config_runner [simp]: "dec_config (dec_event_task_runner ver s) = dec_config s"
proof (induction ver s rule: dec_event_task_runner.induct)
  case (1 ver s)
  have "dec_config (dec_pop s) = dec_config s" "dec_config (dec_rest s) = dec_config s"
    by (simp_all add: dec_config_def dec_pop_def dec_rest_def)
  with 1 show ?case by (subst dec_event_task_runner.simps) (simp split: list.split)
qed

lemma dec_config_loop [simp]: "dec_config (s\<lparr>d_loop := l\<rparr>) = dec_config s" "dec_config (s\<lparr>d_decode := b\<rparr>) = dec_config s"
  "dec_config (s\<lparr>d_send_eos := b\<rparr>) = dec_config s" "dec_config (s\<lparr>d_got_eos := b\<rparr>) = dec_config s"
  "dec_config (s\<lparr>d_queue := q\<rparr>) = dec_config s" "dec_config (env_state bus dev s) = dec_config s"
  "dec_config (s\<lparr>d_env_init := b\<rparr>) = dec_config s" "dec_config (s\<lparr>d_vpu_inst_cnt := n\<rparr>) = dec_config s"
  by (simp_all add: dec_config_def env_state_def)

lemma dec_config_close: "dec_close E es s = Ret r t \<Longrightarrow> dec_config t = dec_config s"
  by (auto simp: dec_close_def Let_def dec_teardown_def dec_join_def dec_run_loop_def dec_wait_eos_def
      dec_request_eos_def fold_dec_handle_event split: if_splits)

lemma dec_config_destroy: "gst_cnvideodec_destroy_decoder E es s = Ret r t \<Longrightarrow> dec_config t = dec_config s"
  by (rule dec_set_cnrt_env_cases [of E s]) (auto simp: gst_cnvideodec_destroy_decoder_def dest: dec_config_close)

lemma dec_params_do [simp]: "d_params (dec_do a s) = d_params s"
  by (simp add: dec_do_def)

lemma dec_create_params_eq:
  "d_params (dec_create_params E s) = (case dec_config s of (codec, sink, src, cpu, inn, outn, dev) \<Rightarrow>
     \<lparr>ci_codec = codec, ci_pixelFmt = dec_video_format_cast (vi_format src), ci_colorSpace = CNCODEC_COLOR_SPACE_BT_709,
      ci_width = word_of_int (vi_width sink), ci_height = word_of_int (vi_height sink), ci_bitDepthMinus8 = 0,
      ci_progressive = (vi_interlace sink = GST_VIDEO_INTERLACE_MODE_PROGRESSIVE),
      ci_inputBufNum = inn, ci_outputBufNum = outn, ci_deviceId = dev,
      ci_instance = (if e_turbo E then INSTANCE (g_vpudec_instances ! (d_vpu_inst_cnt s mod 100)) else INSTANCE_AUTO)\<rparr>)"
  by (simp add: dec_create_params_def dec_config_def)

lemma dec_create_params_config [simp]:
  "dec_config (dec_create_params E s) = dec_config s" "d_send_eos (dec_create_params E s) = d_send_eos s"
  by (simp_all add: dec_create_params_def dec_config_def)

lemma dec_open_True:
  assumes "dec_open E s = Ret True t"
  shows "d_params t = d_params (dec_create_params E (s\<lparr>d_loop := Looping\<rparr>)) \<and>
     d_trace t = Act_SetAttr 1 # Act_Create (d_params t) # d_trace s \<and> dec_config t = dec_config s \<and>
     d_got_eos t = d_got_eos s \<and> d_send_eos t = d_send_eos s \<and> d_decode t \<and> d_loop t = Looping"
  using assms by (auto simp: dec_open_def Let_def split: if_splits)

lemma dec_negotiate_True:
  assumes "dec_negotiate c s = (True, u)"
  shows "\<exists>sink src. dc_sink_info c = Some sink \<and> dc_src_info c = Some src \<and> vi_width sink \<noteq> 0 \<and> vi_height sink \<noteq> 0 \<and>
     vi_format src \<in> {GST_VIDEO_FORMAT_NV12, GST_VIDEO_FORMAT_NV21, GST_VIDEO_FORMAT_I420} \<and>
     dec_codec_of_name (dc_name c) = Some (d_codec_type u) \<and>
     dec_config u = (d_codec_type u, sink, src\<lparr>vi_width := vi_width sink, vi_height := vi_height sink,
        vi_fps_n := vi_fps_n sink, vi_fps_d := vi_fps_d sink\<rparr>, \<not> dc_memory_mlu c, d_input_buffer_num s, d_output_buffer_num s, d_device_id s)"
  using assms by (auto simp: dec_negotiate_def dec_config_def Let_def split: if_splits option.splits)

text \<open>C8: When new caps are accepted, an earlier decoder has been closed and a new one is open with exactly
  the parameters the caps and the properties ask for: the codec of the caps' name, a supported
  picture format, the stream's non-zero size, its scan type, the buffer numbers and the device; the
  end-of-stream flags are reset, and creation and attribute are the last calls made to the codec.\<close>

theorem dec_set_caps_opens:
  assumes "gst_cnvideodec_set_caps E es c s = Ret True t"
  shows "\<exists>sink src tr. dc_sink_info c = Some sink \<and> dc_src_info c = Some src \<and>
     dec_codec_of_name (dc_name c) = Some (ci_codec (d_params t)) \<and>
     vi_format src \<in> {GST_VIDEO_FORMAT_NV12, GST_VIDEO_FORMAT_NV21, GST_VIDEO_FORMAT_I420} \<and>
     ci_pixelFmt (d_params t) = dec_video_format_cast (vi_format src) \<and>
     vi_width sink \<noteq> 0 \<and> vi_height sink \<noteq> 0 \<and>
     ci_width (d_params t) = word_of_int (vi_width sink) \<and> ci_height (d_params t) = word_of_int (vi_height sink) \<and>
     ci_progressive (d_params t) = (vi_interlace sink = GST_VIDEO_INTERLACE_MODE_PROGRESSIVE) \<and>
     ci_inputBufNum (d_params t) = d_input_buffer_num s \<and> ci_outputBufNum (d_params t) = d_output_buffer_num s \<and>
     ci_deviceId (d_params t) = d_device_id s \<and> d_output_on_cpu t = (\<not> dc_memory_mlu c) \<and>
     \<not> d_send_eos t \<and> \<not> d_got_eos t \<and> d_decode t \<and> d_loop t = Looping \<and>
     d_trace t = Act_SetAttr 1 # Act_Create (d_params t) # tr"
proof -
  obtain ok u where n: "dec_negotiate c s = (ok, u)" by (cases "dec_negotiate c s")
  with assms have n: "dec_negotiate c s = (True, u)" by (cases ok) (auto simp: gst_cnvideodec_set_caps_def)
  with assms obtain ok2 v where v: "(if d_decode u then gst_cnvideodec_destroy_decoder E es u else Ret True u) = Ret ok2 v"
    and k: "(if \<not> ok2 then Ret False v else gst_cnvideodec_init_decoder E (v\<lparr>d_send_eos := False, d_got_eos := False\<rparr>)) = Ret True t"
    by (auto simp: gst_cnvideodec_set_caps_def call_then_Ret_iff)
  have cv: "dec_config v = dec_config u" using v dec_config_destroy by (auto split: if_splits)
  let ?v = "v\<lparr>d_send_eos := False, d_got_eos := False\<rparr>"
  from k have init: "gst_cnvideodec_init_decoder E ?v = Ret True t" by (simp split: if_splits)
  then obtain w where w: "dec_bind_once E (d_env_init ?v) (\<lambda>s. s\<lparr>d_env_init := True\<rparr>) ?v = Ret True w" and o: "dec_open E w = Ret True t"
    by (auto simp: gst_cnvideodec_init_decoder_def call_then_Ret_iff split: if_splits)
  have "dec_config w = dec_config u \<and> \<not> d_send_eos w \<and> \<not> d_got_eos w"
    by (rule dec_bind_once_cases [of E "d_env_init ?v" "\<lambda>s. s\<lparr>d_env_init := True\<rparr>" ?v]) (use w cv in \<open>auto split: if_splits\<close>)
  then have cw: "dec_config w = dec_config u" "\<not> d_send_eos w" "\<not> d_got_eos w" by simp_all
  note op = dec_open_True [OF o]
  from dec_negotiate_True [OF n] obtain sink src where c: "dc_sink_info c = Some sink" "dc_src_info c = Some src"
    "vi_width sink \<noteq> 0" "vi_height sink \<noteq> 0" "vi_format src \<in> {GST_VIDEO_FORMAT_NV12, GST_VIDEO_FORMAT_NV21, GST_VIDEO_FORMAT_I420}"
    "dec_codec_of_name (dc_name c) = Some (d_codec_type u)"
    "dec_config u = (d_codec_type u, sink, src\<lparr>vi_width := vi_width sink, vi_height := vi_height sink,
        vi_fps_n := vi_fps_n sink, vi_fps_d := vi_fps_d sink\<rparr>, \<not> dc_memory_mlu c, d_input_buffer_num s, d_output_buffer_num s, d_device_id s)"
    by blast
  have cpu: "d_output_on_cpu t = (\<not> dc_memory_mlu c)" using op cw c(7) by (simp add: dec_config_def)
  from op have p: "d_params t = d_params (dec_create_params E (w\<lparr>d_loop := Looping\<rparr>))" by blast
  show ?thesis
    by (intro exI [of _ sink] exI [of _ src] exI [of _ "d_trace w"])
      (use op cw c cpu p in \<open>simp add: dec_create_params_eq\<close>)
qed

theorem dec_set_caps_opens_witness: "\<exists>t. gst_cnvideodec_set_caps demo_dec_env [] demo_dec_caps demo_dec0 = Ret True t \<and>
    ci_width (d_params t) = 64 \<and> ci_height (d_params t) = 32 \<and> ci_inputBufNum (d_params t) = 4"
proof -
  obtain t where t: "gst_cnvideodec_set_caps demo_dec_env [] demo_dec_caps demo_dec0 = Ret True t" using demo_dec1 by auto
  have "d_input_buffer_num demo_dec0 = 4"
    by (simp add: demo_dec0_def gst_cnvideodec_init_def alloc_stream_id_def next_free_id.simps DEC_DEFAULT_INPUT_BUFFER_NUM_def)
  with dec_set_caps_opens [OF t] t show ?thesis by (auto simp: demo_dec_caps_def demo_dec_info_def)
qed

subsection \<open>Stream ids are unique\<close>

lemma unat_pred_less: "(w :: u32) \<noteq> 0 \<Longrightarrow> unat (w - 1) < unat w"
  using unat_minus_one [of w] unat_gt_0 [of w] by simp

lemma next_free_id_finds:
  assumes "x \<notin> ids"
  shows "\<exists>i. next_free_id g ids = Some i \<and> i \<notin> ids"
proof (induction "unat (x - g)" arbitrary: g rule: less_induct)
  case less
  show ?case
  proof (cases "g \<in> ids")
    case False
    then show ?thesis by (simp add: next_free_id.simps [of g])
  next
    case True
    with assms have "x - g \<noteq> 0" by auto
    from unat_pred_less [OF this] have "unat (x - (g + 1)) < unat (x - g)" by (simp add: algebra_simps)
    from less.hyps [OF this] True show ?thesis by (simp add: next_free_id.simps [of g])
  qed
qed

lemma alloc_stream_id_fresh:
  assumes "alloc_stream_id r = Some (i, r')"
  shows "i \<notin> g_stream_id_set r \<and> g_stream_id_set r' = insert i (g_stream_id_set r)"
proof -
  from assms have i: "next_free_id (g_stream_id r) (g_stream_id_set r) = Some i"
    and r': "g_stream_id_set r' = insert i (g_stream_id_set r)"
    by (auto simp: alloc_stream_id_def split: option.splits)
  have fresh: "i \<notin> ids" if "next_free_id g ids = Some i" for g ids
  proof (rule next_free_id.raw_induct [where P = "\<lambda>g ids i. i \<notin> ids", OF _ that], goal_cases)
    case (1 f a ids y)
    show ?case
    proof (cases "a \<in> ids")
      case True
      with 1(2) have "f (a + 1) ids = Some y" by simp
      then show ?thesis by (rule 1(1))
    next
      case False
      with 1(2) show ?thesis by simp
    qed
  qed
  show ?thesis using fresh [OF i] r' by simp
qed

interpretation sid: id_pool "\<lambda>_. True" g_stream_id_set alloc_stream_id erase_stream_id
proof (unfold_locales, goal_cases)
  case (1 r i t)
  from alloc_stream_id_fresh [OF 1(2)] show ?case by simp
next
  case (2 r i)
  show ?case by (simp add: erase_stream_id_def)
qed

text \<open>
  A history of elements: one is made, the n-th is destroyed, the n-th is given another stream id.
\<close>

datatype dec_life = Make | Destroy nat | Renumber nat u32

fun dec_lives :: "mach \<Rightarrow> dev_state \<Rightarrow> dec_life list \<Rightarrow> GstCnvideodec list \<Rightarrow> stream_ids \<Rightarrow> GstCnvideodec list \<times> stream_ids" where
  "dec_lives m v [] es r = (es, r)"
| "dec_lives m v (Make # ops) es r =
     (case gst_cnvideodec_init m v r of None \<Rightarrow> dec_lives m v ops es r
      | Some (e, r') \<Rightarrow> dec_lives m v ops (es @ [e]) r')"
| "dec_lives m v (Destroy n # ops) es r =
     (if n < length es
      then (case gst_cnvideodec_finalize (es ! n) r of
              Ret _ r' \<Rightarrow> dec_lives m v ops (take n es @ drop (Suc n) es) r'
            | _ \<Rightarrow> (es, r))
      else dec_lives m v ops es r)"
| "dec_lives m v (Renumber n i # ops) es r =
     (if n < length es
      then (case gst_cnvideodec_set_property (PROP_STREAM_ID i) (es ! n, r) of
              (e, r') \<Rightarrow> dec_lives m v ops (es[n := e]) r')
      else dec_lives m v ops es r)"

definition ids_ok :: "GstCnvideodec list \<Rightarrow> stream_ids \<Rightarrow> bool" where
  "ids_ok es r \<longleftrightarrow> distinct (map d_stream_id es) \<and> set (map d_stream_id es) = g_stream_id_set r"

lemma ids_ok_make: "ids_ok es r \<Longrightarrow> gst_cnvideodec_init m v r = Some (e, r') \<Longrightarrow> ids_ok (es @ [e]) r'"
  using alloc_stream_id_fresh by (fastforce simp: ids_ok_def gst_cnvideodec_init_def split: option.splits)

lemma ids_ok_destroy:
  assumes "ids_ok es r" and "n < length es" and "gst_cnvideodec_finalize (es ! n) r = Ret u r'"
  shows "ids_ok (take n es @ drop (Suc n) es) r'"
proof -
  have r': "r' = erase_stream_id (d_stream_id (es ! n)) r"
    using assms(3) by (auto simp: gst_cnvideodec_finalize_def Let_def split: if_splits)
  have "distinct (map d_stream_id es)" "n < length (map d_stream_id es)" using assms by (simp_all add: ids_ok_def)
  from remove_nth_distinct [OF this] assms(1,2) show ?thesis
    by (simp add: ids_ok_def r' erase_stream_id_def take_map drop_map)
qed

lemma set_replace_nth: "distinct xs \<Longrightarrow> n < length xs \<Longrightarrow> set (xs[n := x]) = insert x (set xs - {xs ! n})"
  by (rule set_update_distinct)

lemma ids_ok_renumber:
  assumes ok: "ids_ok es r" and n: "n < length es" and "gst_cnvideodec_set_property (PROP_STREAM_ID i) (es ! n, r) = (e, r')"
  shows "ids_ok (es[n := e]) r'"
proof -
  let ?xs = "map d_stream_id es"
  have d: "distinct ?xs" "set ?xs = g_stream_id_set r" using ok by (auto simp: ids_ok_def)
  have mem: "d_stream_id (es ! n) \<in> set ?xs" using n by simp
  let ?j = "d_stream_id e"
  have e: "?j = (if i \<in> g_stream_id_set r - {d_stream_id (es ! n)} then d_stream_id (es ! n) else i)"
    and r': "g_stream_id_set r' = insert ?j (g_stream_id_set r - {d_stream_id (es ! n)})"
    using assms(3) by (auto simp: erase_stream_id_def Let_def split: if_splits)
  have "distinct (?xs[n := ?j])"
    using d e n by (intro distinct_list_update) auto
  moreover have "set (?xs[n := ?j]) = insert ?j (set ?xs - {?xs ! n})"
    using set_replace_nth [OF d(1), of n] n by simp
  ultimately show ?thesis using d r' n by (simp add: ids_ok_def map_update)
qed

text \<open>C10: However decoder elements are created, destroyed and given other stream ids, no two living
  elements have the same stream id, and the registry holds exactly the ids of the living ones.\<close>

theorem stream_ids_unique:
  "case dec_lives m v ops [] \<lparr>g_stream_id = g, g_stream_id_set = {}\<rparr> of
     (es, r) \<Rightarrow> distinct (map d_stream_id es) \<and> g_stream_id_set r = set (map d_stream_id es)"
proof -
  have "ids_ok es r \<Longrightarrow> case dec_lives m v ops es r of (es', r') \<Rightarrow> ids_ok es' r'" for es r
  proof (induction ops arbitrary: es r)
    case (Cons a ops)
    show ?case
    proof (cases a)
      case Make
      then show ?thesis using Cons ids_ok_make by (auto split: option.split)
    next
      case (Destroy n)
      then show ?thesis using Cons ids_ok_destroy by (auto split: outcome.split)
    next
      case (Renumber n i)
      show ?thesis
      proof (cases "n < length es")
        case True
        obtain e r' where e: "gst_cnvideodec_set_property (PROP_STREAM_ID i) (es ! n, r) = (e, r')"
          by (cases "gst_cnvideodec_set_property (PROP_STREAM_ID i) (es ! n, r)")
        from Cons.IH [OF ids_ok_renumber [OF Cons.prems True e]] Renumber True e show ?thesis by simp
      next
        case False
        with Renumber Cons show ?thesis by simp
      qed
    qed
  qed simp
  from this [of "[]" "\<lparr>g_stream_id = g, g_stream_id_set = {}\<rparr>"] show ?thesis
    by (auto simp: ids_ok_def split: prod.splits)
qed

text \<open>The loop that picks the id of a new element ends with an id not in use as long as some id is
  free; the counter of ids may have wrapped around.\<close>

theorem alloc_stream_id_total:
  assumes "g_stream_id_set r \<noteq> UNIV"
  shows "\<exists>i r'. alloc_stream_id r = Some (i, r') \<and> i \<notin> g_stream_id_set r"
proof -
  from assms obtain x where "x \<notin> g_stream_id_set r" by auto
  from next_free_id_finds [OF this, of "g_stream_id r"] show ?thesis by (auto simp: alloc_stream_id_def)
qed

theorem alloc_stream_id_total_witness:
  "\<exists>i r'. alloc_stream_id \<lparr>g_stream_id = -1, g_stream_id_set = {-1, 0, 1}\<rparr> = Some (i, r') \<and> i \<notin> {-1, 0, 1}"
proof -
  have "(2 :: u32) \<notin> {-1, 0, 1}" by simp
  then have "{-1, 0, 1} \<noteq> (UNIV :: u32 set)" by blast
  with alloc_stream_id_total [of "\<lparr>g_stream_id = -1, g_stream_id_set = {-1, 0, 1}\<rparr>"] show ?thesis by simp
qed

end
