(* ===== verification/Enc_Tables.thy ===== *)
theory Enc_Tables
  imports Main
begin

text \<open>
  The profiles and levels of gst/encode (encode_type.h, g_profile_table and g_level_table of
  gstcnvideo_enc.cpp): the element's own enumerations, the codec library's constants of the same
  meaning, and the tables that pair them with the strings written into caps.
\<close>

datatype (plugins only: code) GstVideoProfile =
  GST_VP_0 | GST_VP_H264_BASELINE | GST_VP_H264_MAIN | GST_VP_H264_HIGH | GST_VP_H264_HIGH_10
| GST_VP_H265_MAIN | GST_VP_H265_MAIN_STILL | GST_VP_H265_MAIN_INTRA | GST_VP_H265_MAIN_10 | GST_VP_MAX

datatype (plugins only: code) GstVideoLevel =
  GST_VL_0 | GST_VL_H264_1 | GST_VL_H264_1B | GST_VL_H264_11 | GST_VL_H264_12
| GST_VL_H264_13 | GST_VL_H264_2 | GST_VL_H264_21 | GST_VL_H264_22 | GST_VL_H264_3
| GST_VL_H264_31 | GST_VL_H264_32 | GST_VL_H264_4 | GST_VL_H264_41 | GST_VL_H264_42
| GST_VL_H264_5 | GST_VL_H264_51 | GST_VL_H265_MAIN_1 | GST_VL_H265_HIGH_1 | GST_VL_H265_MAIN_2
| GST_VL_H265_HIGH_2 | GST_VL_H265_MAIN_21 | GST_VL_H265_HIGH_21 | GST_VL_H265_MAIN_3 | GST_VL_H265_HIGH_3
| GST_VL_H265_MAIN_31 | GST_VL_H265_HIGH_31 | GST_VL_H265_MAIN_4 | GST_VL_H265_HIGH_4 | GST_VL_H265_MAIN_41
| GST_VL_H265_HIGH_41 | GST_VL_H265_MAIN_5 | GST_VL_H265_HIGH_5 | GST_VL_H265_MAIN_51 | GST_VL_H265_HIGH_51
| GST_VL_H265_MAIN_52 | GST_VL_H265_HIGH_52 | GST_VL_H265_MAIN_6 | GST_VL_H265_HIGH_6 | GST_VL_H265_MAIN_61
| GST_VL_H265_HIGH_61 | GST_VL_H265_MAIN_62 | GST_VL_H265_HIGH_62 | GST_VL_MAX

datatype (plugins only: code) cnvideoEncProfile =
  CNVIDEOENC_PROFILE_H264_BASELINE | CNVIDEOENC_PROFILE_H264_MAIN | CNVIDEOENC_PROFILE_H264_HIGH | CNVIDEOENC_PROFILE_H264_HIGH_10 | CNVIDEOENC_PROFILE_H265_MAIN
| CNVIDEOENC_PROFILE_H265_MAIN_STILL | CNVIDEOENC_PROFILE_H265_MAIN_INTRA | CNVIDEOENC_PROFILE_H265_MAIN_10

datatype (plugins only: code) cnvideoEncLevel =
  CNVIDEOENC_LEVEL_H264_1 | CNVIDEOENC_LEVEL_H264_1B | CNVIDEOENC_LEVEL_H264_11 | CNVIDEOENC_LEVEL_H264_12 | CNVIDEOENC_LEVEL_H264_13
| CNVIDEOENC_LEVEL_H264_2 | CNVIDEOENC_LEVEL_H264_21 | CNVIDEOENC_LEVEL_H264_22 | CNVIDEOENC_LEVEL_H264_3 | CNVIDEOENC_LEVEL_H264_31
| CNVIDEOENC_LEVEL_H264_32 | CNVIDEOENC_LEVEL_H264_4 | CNVIDEOENC_LEVEL_H264_41 | CNVIDEOENC_LEVEL_H264_42 | CNVIDEOENC_LEVEL_H264_5
| CNVIDEOENC_LEVEL_H264_51 | CNVIDEOENC_LEVEL_H265_MAIN_1 | CNVIDEOENC_LEVEL_H265_HIGH_1 | CNVIDEOENC_LEVEL_H265_MAIN_2 | CNVIDEOENC_LEVEL_H265_HIGH_2
| CNVIDEOENC_LEVEL_H265_MAIN_21 | CNVIDEOENC_LEVEL_H265_HIGH_21 | CNVIDEOENC_LEVEL_H265_MAIN_3 | CNVIDEOENC_LEVEL_H265_HIGH_3 | CNVIDEOENC_LEVEL_H265_MAIN_31
| CNVIDEOENC_LEVEL_H265_HIGH_31 | CNVIDEOENC_LEVEL_H265_MAIN_4 | CNVIDEOENC_LEVEL_H265_HIGH_4 | CNVIDEOENC_LEVEL_H265_MAIN_41 | CNVIDEOENC_LEVEL_H265_HIGH_41
| CNVIDEOENC_LEVEL_H265_MAIN_5 | CNVIDEOENC_LEVEL_H265_HIGH_5 | CNVIDEOENC_LEVEL_H265_MAIN_51 | CNVIDEOENC_LEVEL_H265_HIGH_51 | CNVIDEOENC_LEVEL_H265_MAIN_52
| CNVIDEOENC_LEVEL_H265_HIGH_52 | CNVIDEOENC_LEVEL_H265_MAIN_6 | CNVIDEOENC_LEVEL_H265_HIGH_6 | CNVIDEOENC_LEVEL_H265_MAIN_61 | CNVIDEOENC_LEVEL_H265_HIGH_61
| CNVIDEOENC_LEVEL_H265_MAIN_62 | CNVIDEOENC_LEVEL_H265_HIGH_62

definition g_profile_table :: "(GstVideoProfile \<times> cnvideoEncProfile \<times> string) list" where
  "g_profile_table =
    [(GST_VP_H264_BASELINE, CNVIDEOENC_PROFILE_H264_BASELINE, ''baseline''),
     (GST_VP_H264_MAIN, CNVIDEOENC_PROFILE_H264_MAIN, ''main''),
     (GST_VP_H264_HIGH, CNVIDEOENC_PROFILE_H264_HIGH, ''high''),
     (GST_VP_H264_HIGH_10, CNVIDEOENC_PROFILE_H264_HIGH_10, ''high-10''),
     (GST_VP_H265_MAIN, CNVIDEOENC_PROFILE_H265_MAIN, ''main''),
     (GST_VP_H265_MAIN_STILL, CNVIDEOENC_PROFILE_H265_MAIN_STILL, ''main-still-picture''),
     (GST_VP_H265_MAIN_INTRA, CNVIDEOENC_PROFILE_H265_MAIN_INTRA, ''main-intra''),
     (GST_VP_H265_MAIN_10, CNVIDEOENC_PROFILE_H265_MAIN_10, ''main-10'')]"

text \<open>Level, level string and tier string.\<close>

definition g_level_table :: "(GstVideoLevel \<times> cnvideoEncLevel \<times> string \<times> string) list" where
  "g_level_table =
    [(GST_VL_H264_1, CNVIDEOENC_LEVEL_H264_1, ''1'', ''''),
     (GST_VL_H264_1B, CNVIDEOENC_LEVEL_H264_1B, ''1b'', ''''),
     (GST_VL_H264_11, CNVIDEOENC_LEVEL_H264_11, ''1.1'', ''''),
     (GST_VL_H264_12, CNVIDEOENC_LEVEL_H264_12, ''1.2'', ''''),
     (GST_VL_H264_13, CNVIDEOENC_LEVEL_H264_13, ''1.3'', ''''),
     (GST_VL_H264_2, CNVIDEOENC_LEVEL_H264_2, ''2'', ''''),
     (GST_VL_H264_21, CNVIDEOENC_LEVEL_H264_21, ''2.1'', ''''),
     (GST_VL_H264_22, CNVIDEOENC_LEVEL_H264_22, ''2.2'', ''''),
     (GST_VL_H264_3, CNVIDEOENC_LEVEL_H264_3, ''3'', ''''),
     (GST_VL_H264_31, CNVIDEOENC_LEVEL_H264_31, ''3.1'', ''''),
     (GST_VL_H264_32, CNVIDEOENC_LEVEL_H264_32, ''3.2'', ''''),
     (GST_VL_H264_4, CNVIDEOENC_LEVEL_H264_4, ''4'', ''''),
     (GST_VL_H264_41, CNVIDEOENC_LEVEL_H264_41, ''4.1'', ''''),
     (GST_VL_H264_42, CNVIDEOENC_LEVEL_H264_42, ''4.2'', ''''),
     (GST_VL_H264_5, CNVIDEOENC_LEVEL_H264_5, ''5'', ''''),
     (GST_VL_H264_51, CNVIDEOENC_LEVEL_H264_51, ''5.1'', ''''),
     (GST_VL_H265_MAIN_1, CNVIDEOENC_LEVEL_H265_MAIN_1, ''1'', ''main''),
     (GST_VL_H265_HIGH_1, CNVIDEOENC_LEVEL_H265_HIGH_1, ''1'', ''high''),
     (GST_VL_H265_MAIN_2, CNVIDEOENC_LEVEL_H265_MAIN_2, ''2'', ''main''),
     (GST_VL_H265_HIGH_2, CNVIDEOENC_LEVEL_H265_HIGH_2, ''2'', ''high''),
     (GST_VL_H265_MAIN_21, CNVIDEOENC_LEVEL_H265_MAIN_21, ''2.1'', ''main''),
     (GST_VL_H265_HIGH_21, CNVIDEOENC_LEVEL_H265_HIGH_21, ''2.1'', ''high''),
     (GST_VL_H265_MAIN_3, CNVIDEOENC_LEVEL_H265_MAIN_3, ''3'', ''main''),
     (GST_VL_H265_HIGH_3, CNVIDEOENC_LEVEL_H265_HIGH_3, ''3'', ''high''),
     (GST_VL_H265_MAIN_31, CNVIDEOENC_LEVEL_H265_MAIN_31, ''3.1'', ''main''),
     (GST_VL_H265_HIGH_31, CNVIDEOENC_LEVEL_H265_HIGH_31, ''3.1'', ''high''),
     (GST_VL_H265_MAIN_4, CNVIDEOENC_LEVEL_H265_MAIN_4, ''4'', ''main''),
     (GST_VL_H265_HIGH_4, CNVIDEOENC_LEVEL_H265_HIGH_4, ''4'', ''high''),
     (GST_VL_H265_MAIN_41, CNVIDEOENC_LEVEL_H265_MAIN_41, ''4.1'', ''main''),
     (GST_VL_H265_HIGH_41, CNVIDEOENC_LEVEL_H265_HIGH_41, ''4.1'', ''high''),
     (GST_VL_H265_MAIN_5, CNVIDEOENC_LEVEL_H265_MAIN_5, ''5'', ''main''),
     (GST_VL_H265_HIGH_5, CNVIDEOENC_LEVEL_H265_HIGH_5, ''5'', ''high''),
     (GST_VL_H265_MAIN_51, CNVIDEOENC_LEVEL_H265_MAIN_51, ''5.1'', ''main''),
     (GST_VL_H265_HIGH_51, CNVIDEOENC_LEVEL_H265_HIGH_51, ''5.1'', ''high''),
     (GST_VL_H265_MAIN_52, CNVIDEOENC_LEVEL_H265_MAIN_52, ''5.2'', ''main''),
     (GST_VL_H265_HIGH_52, CNVIDEOENC_LEVEL_H265_HIGH_52, ''5.2'', ''high''),
     (GST_VL_H265_MAIN_6, CNVIDEOENC_LEVEL_H265_MAIN_6, ''6'', ''main''),
     (GST_VL_H265_HIGH_6, CNVIDEOENC_LEVEL_H265_HIGH_6, ''6'', ''high''),
     (GST_VL_H265_MAIN_61, CNVIDEOENC_LEVEL_H265_MAIN_61, ''6.1'', ''main''),
     (GST_VL_H265_HIGH_61, CNVIDEOENC_LEVEL_H265_HIGH_61, ''6.1'', ''high''),
     (GST_VL_H265_MAIN_62, CNVIDEOENC_LEVEL_H265_MAIN_62, ''6.2'', ''main''),
     (GST_VL_H265_HIGH_62, CNVIDEOENC_LEVEL_H265_HIGH_62, ''6.2'', ''high'')]"

text \<open>
  The values the properties profile and level accept, with their descriptions and nicks
  (\<open>gst_cnvideoenc_video_profile_get_type\<close> and \<open>gst_cnvideoenc_video_level_get_type\<close>).
\<close>

definition video_profile_values :: "(GstVideoProfile \<times> string \<times> string) list" where
  "video_profile_values =
    [(GST_VP_H264_BASELINE, ''h264 Video Profile Baseline'', ''h264 Baseline''),
     (GST_VP_H264_MAIN, ''h264 Video Profile Main'', ''h264 Main''),
     (GST_VP_H264_HIGH, ''h264 Video Profile High'', ''h264 High''),
     (GST_VP_H264_HIGH_10, ''h264 Video Profile High 10'', ''h264 High 10''),
     (GST_VP_H265_MAIN, ''h265 Video Profile Main'', ''h265 Main''),
     (GST_VP_H265_MAIN_STILL, ''h265 Video Profile Main Still'', ''h265 Main Still''),
     (GST_VP_H265_MAIN_INTRA, ''h265 Video Profile Main Intra'', ''h265 Main Intra''),
     (GST_VP_H265_MAIN_10, ''h265 Video Profile Main 10'', ''h265 Main 10'')]"

definition video_level_values :: "(GstVideoLevel \<times> string \<times> string) list" where
  "video_level_values =
    [(GST_VL_H264_1, ''H264 Video Level 1'', ''H264 1''),
     (GST_VL_H264_1B, ''H264 Video Level 1B'', ''H264 1B''),
     (GST_VL_H264_11, ''H264 Video Level 11'', ''H264 11''),
     (GST_VL_H264_12, ''H264 Video Level 12'', ''H264 12''),
     (GST_VL_H264_13, ''H264 Video Level 13'', ''H264 13''),
     (GST_VL_H264_2, ''H264 Video Level 2'', ''H264 2''),
     (GST_VL_H264_21, ''H264 Video Level 21'', ''H264 21''),
     (GST_VL_H264_22, ''H264 Video Level 22'', ''H264 22''),
     (GST_VL_H264_3, ''H264 Video Level 3'', ''H264 3''),
     (GST_VL_H264_31, ''H264 Video Level 31'', ''H264 31''),
     (GST_VL_H264_32, ''H264 Video Level 32'', ''H264 32''),
     (GST_VL_H264_4, ''H264 Video Level 4'', ''H264 4''),
     (GST_VL_H264_41, ''H264 Video Level 41'', ''H264 41''),
     (GST_VL_H264_42, ''H264 Video Level 42'', ''H264 42''),
     (GST_VL_H264_5, ''H264 Video Level 5'', ''H264 5''),
     (GST_VL_H264_51, ''H264 Video Level 51'', ''H264 51''),
     (GST_VL_H265_MAIN_1, ''H265 Video Level Main 1'', ''H265 MAIN 1''),
     (GST_VL_H265_HIGH_1, ''H265 Video Level High 1'', ''H265 HIGH 1''),
     (GST_VL_H265_MAIN_2, ''H265 Video Level Main 2'', ''H265 MAIN 2''),
     (GST_VL_H265_HIGH_2, ''H265 Video Level High 2'', ''H265 HIGH 2''),
     (GST_VL_H265_MAIN_21, ''H265 Video Level Main 21'', ''H265 MAIN 21''),
     (GST_VL_H265_HIGH_21, ''H265 Video Level High 21'', ''H265 HIGH 21''),
     (GST_VL_H265_MAIN_3, ''H265 Video Level Main 3'', ''H265 MAIN 3''),
     (GST_VL_H265_HIGH_3, ''H265 Video Level High 3'', ''H265 HIGH 3''),
     (GST_VL_H265_MAIN_31, ''H265 Video Level Main 31'', ''H265 MAIN 31''),
     (GST_VL_H265_HIGH_31, ''H265 Video Level High 31'', ''H265 HIGH 31''),
     (GST_VL_H265_MAIN_4, ''H265 Video Level Main 4'', ''H265 MAIN 4''),
     (GST_VL_H265_HIGH_4, ''H265 Video Level High 4'', ''H265 HIGH 4''),
     (GST_VL_H265_MAIN_41, ''H265 Video Level Main 41'', ''H265 MAIN 41''),
     (GST_VL_H265_HIGH_41, ''H265 Video Level High 41'', ''H265 HIGH 41''),
     (GST_VL_H265_MAIN_5, ''H265 Video Level Main 5'', ''H265 MAIN 5''),
     (GST_VL_H265_HIGH_5, ''H265 Video Level High 5'', ''H265 HIGH 5''),
     (GST_VL_H265_MAIN_51, ''H265 Video Level Main 51'', ''H265 MAIN 51''),
     (GST_VL_H265_HIGH_51, ''H265 Video Level High 51'', ''H265 HIGH 51''),
     (GST_VL_H265_MAIN_52, ''H265 Video Level Main 52'', ''H265 MAIN 52''),
     (GST_VL_H265_HIGH_52, ''H265 Video Level High 52'', ''H265 HIGH 52''),
     (GST_VL_H265_MAIN_6, ''H265 Video Level Main 6'', ''H265 MAIN 6''),
     (GST_VL_H265_HIGH_6, ''H265 Video Level High 6'', ''H265 HIGH 6''),
     (GST_VL_H265_MAIN_61, ''H265 Video Level Main 61'', ''H265 MAIN 61''),
     (GST_VL_H265_HIGH_61, ''H265 Video Level High 61'', ''H265 HIGH 61''),
     (GST_VL_H265_MAIN_62, ''H265 Video Level Main 62'', ''H265 MAIN 62''),
     (GST_VL_H265_HIGH_62, ''H265 Video Level High 62'', ''H265 HIGH 62'')]"

text \<open>The tables have an entry for every value a property can take.\<close>

lemma profile_table_covers: "map fst g_profile_table = map fst video_profile_values"
  by (simp add: g_profile_table_def video_profile_values_def)

lemma level_table_covers: "map fst g_level_table = map fst video_level_values"
  by (simp add: g_level_table_def video_level_values_def)

lemma profile_lookup: "p \<in> fst ` set video_profile_values \<Longrightarrow> \<exists>x. map_of g_profile_table p = Some x"
  using profile_table_covers by (metis list.set_map map_of_eq_None_iff not_None_eq)

lemma level_lookup: "l \<in> fst ` set video_level_values \<Longrightarrow> \<exists>x. map_of g_level_table l = Some x"
  using level_table_covers by (metis list.set_map map_of_eq_None_iff not_None_eq)

end
