(* ===== verification/Cncv.thy ===== *)
theory Cncv
  imports Gst_Types Synced_Memory
begin

text \<open>
  What cnconvert and cnvideo_enc share around the conversion library CNCV: image descriptors made
  from stream descriptions (\<open>format_cast\<close> and \<open>video_info_to_desc\<close>, which both files have), synced
  memory that is reused or grown, and the table of device pointers that is written on the host
  and read by the device. A synced memory held by an element is an option, a null pointer being
  \<open>None\<close>; the operations work on it together with the machine.
\<close>

subsection \<open>Image descriptors\<close>

datatype cncvPixelFormat =
  CNCV_PIX_FMT_NV12 | CNCV_PIX_FMT_NV21 | CNCV_PIX_FMT_I420 | CNCV_PIX_FMT_RGB | CNCV_PIX_FMT_BGR
| CNCV_PIX_FMT_RGBA | CNCV_PIX_FMT_BGRA | CNCV_PIX_FMT_ARGB | CNCV_PIX_FMT_ABGR | CNCV_PIX_FMT_INVALID

text \<open>Colour space and depth are BT.601 and 8 bits in every descriptor.\<close>

record cncvImageDescriptor =
  id_width :: int
  id_height :: int
  id_pixel_fmt :: cncvPixelFormat
  id_stride :: "int list"

text \<open>Where an image of \<open>n\<close> bytes a pixel starts and ends: the region of interest is all of it.\<close>

record cncvRect =
  roi_x :: int
  roi_y :: int
  roi_w :: int
  roi_h :: int

fun format_cast :: "GstVideoFormat \<Rightarrow> cncvPixelFormat" where
  "format_cast GST_VIDEO_FORMAT_NV12 = CNCV_PIX_FMT_NV12"
| "format_cast GST_VIDEO_FORMAT_NV21 = CNCV_PIX_FMT_NV21"
| "format_cast GST_VIDEO_FORMAT_I420 = CNCV_PIX_FMT_I420"
| "format_cast GST_VIDEO_FORMAT_RGB = CNCV_PIX_FMT_RGB"
| "format_cast GST_VIDEO_FORMAT_BGR = CNCV_PIX_FMT_BGR"
| "format_cast GST_VIDEO_FORMAT_RGBA = CNCV_PIX_FMT_RGBA"
| "format_cast GST_VIDEO_FORMAT_BGRA = CNCV_PIX_FMT_BGRA"
| "format_cast GST_VIDEO_FORMAT_ARGB = CNCV_PIX_FMT_ARGB"
| "format_cast GST_VIDEO_FORMAT_ABGR = CNCV_PIX_FMT_ABGR"
| "format_cast (GST_VIDEO_FORMAT_OTHER _) = CNCV_PIX_FMT_INVALID"

definition video_info_to_desc :: "GstVideoInfo \<Rightarrow> cncvImageDescriptor" where
  "video_info_to_desc info = \<lparr>id_width = vi_width info, id_height = vi_height info,
     id_pixel_fmt = format_cast (vi_format info),
     id_stride = map (nth0 (vi_stride info)) [0, 1, 2, 3] @ [0, 0]\<rparr>"

definition full_roi :: "cncvImageDescriptor \<Rightarrow> cncvRect" where
  "full_roi d = \<lparr>roi_x = 0, roi_y = 0, roi_w = id_width d, roi_h = id_height d\<rparr>"

text \<open>A mapped picture: its description and the bytes that can be read from each plane pointer.\<close>

record GstVideoFrame =
  gf_info :: GstVideoInfo
  gf_data :: "u8 list list"

text \<open>Products of \<open>gint\<close> values; a product that does not fit is undefined behaviour.\<close>

definition gint_mult :: "int \<Rightarrow> int \<Rightarrow> int option" where
  "gint_mult a b = (if - (2 ^ 31) \<le> a * b \<and> a * b < 2 ^ 31 then Some (a * b) else None)"

text \<open>Conversion of a \<open>gint\<close> to \<open>size_t\<close>.\<close>

definition size_t :: "int \<Rightarrow> nat" where
  "size_t i = nat (i mod 2 ^ 64)"

lemma size_t_nonneg [simp]: "0 \<le> i \<Longrightarrow> i < 2 ^ 31 \<Longrightarrow> size_t i = nat i"
  by (simp add: size_t_def)

lemma size_t_of_nat: "n < 2 ^ 31 \<Longrightarrow> size_t (int n) = n"
  by (simp add: size_t_def)

lemma gint_mult_Some: "gint_mult a b = Some c \<longleftrightarrow> c = a * b \<and> - (2 ^ 31) \<le> a * b \<and> a * b < 2 ^ 31"
  by (auto simp: gint_mult_def)

subsection \<open>Memory held by an element\<close>

type_synonym held = "mach \<times> GstSyncedMemory option"

text \<open>An operation through a pointer that may be null.\<close>

definition on_held :: "(sm_state \<Rightarrow> (sm_state, 'a) run) \<Rightarrow> held \<Rightarrow> (held, 'a) run" where
  "on_held f h = (case snd h of None \<Rightarrow> UB | Some sm \<Rightarrow> lift_call (\<lambda>(m, sm). (m, Some sm)) (f (fst h, sm)))"

text \<open>Release what is held, if anything, and forget it; the answer of \<open>cn_syncedmem_free\<close>.\<close>

definition drop_held :: "cnrt \<Rightarrow> held \<Rightarrow> (held, bool) run" where
  "drop_held rt h = (case snd h of None \<Rightarrow> Ret True h
     | Some sm \<Rightarrow> lift_call (\<lambda>(m, sm). (m, None)) (cn_syncedmem_free rt (fst h, sm)))"

text \<open>Keep the memory if it is large enough, otherwise replace it.\<close>

definition ensure_held :: "cnrt \<Rightarrow> nat \<Rightarrow> held \<Rightarrow> (held, unit) run" where
  "ensure_held rt n h =
     call_then (case snd h of Some sm \<Rightarrow> if cn_syncedmem_get_size sm < n then drop_held rt h else Ret True h
                | None \<Rightarrow> Ret True h)
       (\<lambda>_ (m, x). Ret () (m, case x of None \<Rightarrow> cn_syncedmem_new n | Some sm \<Rightarrow> Some sm))"

text \<open>A pointer as the eight bytes of a little-endian machine, and storing one in a host table.\<close>

definition ptr_bytes :: "addr \<Rightarrow> u8 list" where
  "ptr_bytes p = map (\<lambda>i. word_of_nat (p div 256 ^ i)) [0..<8]"

lemma length_ptr_bytes [simp]: "length (ptr_bytes p) = 8"
  by (simp add: ptr_bytes_def)

definition store_ptr :: "addr \<Rightarrow> nat \<Rightarrow> addr \<Rightarrow> mach \<Rightarrow> (mach, unit) run" where
  "store_ptr table i p m =
     (case hmem m table of None \<Rightarrow> UB
      | Some b \<Rightarrow> if 8 * i + 8 \<le> length b
                  then Ret () (m\<lparr>hmem := (hmem m)(table \<mapsto> copy_into b (8 * i) (ptr_bytes p) 8)\<rparr>)
                  else UB)"

lemma ensure_held_keeps:
  assumes "snd h = Some sm" and "n \<le> mem_size sm"
  shows "ensure_held rt n h = Ret () h"
  using assms by (cases h) (simp add: ensure_held_def cn_syncedmem_get_size_def)

lemma ensure_held_new [simp]: "ensure_held rt n (m, None) = Ret () (m, cn_syncedmem_new n)"
  by (simp add: ensure_held_def)

lemma ensure_held_size:
  assumes "ensure_held rt n h = Ret () (m, x)" and "0 < n"
  shows "\<exists>sm. x = Some sm \<and> n \<le> mem_size sm"
  using assms by (auto simp: ensure_held_def call_then_Ret_iff drop_held_def lift_call_Ret_iff
      cn_syncedmem_new_def cn_syncedmem_get_size_def split: option.splits if_splits)

end
