(* ===== verification/Cnvideo_Enc.thy ===== *)
theory Cnvideo_Enc
  imports Cncv Frame_Copy Enc_Tables
begin

text \<open>
  The element cnvideo_enc (gst/encode/gstcnvideo_enc.cpp): a GStreamer element around an encoder
  handle of the codec library, with a colour conversion of packed RGB input on the device. As in
  cnvideo_dec, \<open>c_trace\<close> lists what the element did to the outside, the newest first, and the
  answers of the codec, of the conversion library and of the driver are functions of that trace.
\<close>

subsection \<open>State\<close>

datatype rc_mode = CNVIDEOENC_RATE_CTRL_VBR | CNVIDEOENC_RATE_CTRL_CBR

datatype cnvideoEncGopType = GOP_TYPE_BIDIRECTIONAL | GOP_TYPE_LOW_DELAY | GOP_TYPE_PYRAMID

record cnvideoEncRateCtrl =
  rcMode :: rc_mode
  gopLength :: u32
  targetBitrate :: u32
  peakBitrate :: u32
  maxIQP :: u32
  maxPQP :: u32
  maxBQP :: u32
  minIQP :: u32
  minPQP :: u32
  minBQP :: u32
  constIQP :: u32
  constPQP :: u32
  constBQP :: u32

text \<open>The parameters of a new encoder; the codec specific part is the same for both codecs here.\<close>

record cnvideoEncCreateInfo =
  ei_deviceId :: int
  ei_width :: int
  ei_height :: int
  ei_pixelFmt :: cncodecPixelFormat
  ei_colorSpace :: cncodecColorSpace
  ei_codec :: cncodecType
  ei_inputBufNum :: u32
  ei_outputBufNum :: u32
  ei_bitStrmBufSize :: nat
  ei_fpsNumerator :: int
  ei_fpsDenominator :: int
  ei_rateCtrl :: cnvideoEncRateCtrl
  ei_profile :: cnvideoEncProfile
  ei_level :: cnvideoEncLevel
  ei_IframeInterval :: u32
  ei_BFramesNum :: u32
  ei_gopType :: cnvideoEncGopType

text \<open>An input frame of the encoder: the planes it lends and what the element fills in.\<close>

record enc_frame =
  ef_plane :: "addr list"
  ef_pixelFmt :: cncodecPixelFormat
  ef_width :: int
  ef_height :: int
  ef_stride :: "int list"
  ef_pts :: u64

text \<open>The caps the element sets on its source pad; the tier is given for H.265 only.\<close>

record enc_src_caps =
  sc_width :: int
  sc_height :: int
  sc_fps_n :: int
  sc_fps_d :: int
  sc_profile :: string
  sc_level :: string
  sc_tier :: "string option"

datatype enc_act =
  Enc_Create cnvideoEncCreateInfo | Enc_WaitInput | Enc_FeedEos | Enc_Feed enc_frame | Enc_Destroy | Enc_Abort
| Enc_AddRef addr | Enc_ReleaseRef addr | Enc_H2D addr "u8 list" | Enc_D2H addr nat
| Enc_cncvCreate | Enc_cnrtCreateQueue | Enc_cncvSetQueue | Enc_cncvDestroy | Enc_cnrtDestroyQueue
| Enc_RgbxToRgbx cncvImageDescriptor addr cncvImageDescriptor addr | Enc_SyncQueue | Enc_SetCaps enc_src_caps
| Enc_Push "u8 list" u64 | Enc_Push_Eos | Enc_Bus string | Enc_Map | Enc_Unmap | Enc_Unref

record enc_env =
  n_ver :: nat
  n_major :: nat
  n_dev :: dev_lib
  n_codec :: "enc_act list \<Rightarrow> cncodecRet"
  n_lent :: "enc_act list \<Rightarrow> addr list"
  n_ok :: "enc_act list \<Rightarrow> bool"
  n_h2d :: "enc_act list \<Rightarrow> cnrtRet"
  n_rt :: cnrt
  n_bits :: "addr \<Rightarrow> nat \<Rightarrow> u8 list"
  n_prof :: "cnvideoEncProfile \<Rightarrow> int"
  n_level :: "cnvideoEncLevel \<Rightarrow> int"
  n_pts :: "u64 \<Rightarrow> int \<Rightarrow> int \<Rightarrow> u64"

text \<open>
  \<open>n_ok\<close> answers the calls of the driver and of the conversion library, \<open>n_h2d\<close> the copies of picture
  data to the device, \<open>n_lent\<close> gives the planes of
  the input buffer just waited for, \<open>n_bits\<close> the bytes in device memory of an encoded packet;
  \<open>n_prof\<close> and \<open>n_level\<close> are the numbers of the library's enumerators; \<open>n_pts\<close> is the double
  precision expression \<open>frame_id * 1e9 / fps_n * fps_d\<close>.
\<close>

record GstCnvideoenc =
  c_silent :: bool
  c_device_id :: int
  c_codec_type :: cncodecType
  c_video_profile :: GstVideoProfile
  c_video_level :: GstVideoLevel
  c_i_frame_interval :: u32
  c_b_frame_num :: u32
  c_gop_type :: cnvideoEncGopType
  c_input_buffer_num :: u32
  c_output_buffer_num :: u32
  c_video_info :: GstVideoInfo
  c_encode :: bool
  c_rate_control :: cnvideoEncRateCtrl
  c_pixel_format :: cncodecPixelFormat
  c_send_eos :: bool
  c_got_eos :: bool
  c_first_frame :: bool
  c_frame_id :: u64
  c_workspace :: "GstSyncedMemory option"
  c_tmp_rgb :: "GstSyncedMemory option"
  c_handle :: bool
  c_cnrt_queue :: bool
  c_loop :: loop_thread
  c_queue :: "cb_event list"
  c_gst_state :: gst_state
  c_dev :: dev_state
  c_env_encode :: bool
  c_env_output :: bool
  c_mach :: mach
  c_trace :: "enc_act list"

definition enc_do :: "enc_act \<Rightarrow> GstCnvideoenc \<Rightarrow> GstCnvideoenc" where
  "enc_do a s = s\<lparr>c_trace := a # c_trace s\<rparr>"

definition enc_ret :: "enc_env \<Rightarrow> GstCnvideoenc \<Rightarrow> cncodecRet" where
  "enc_ret E s = n_codec E (c_trace s)"

definition enc_set_cnrt_env :: "enc_env \<Rightarrow> GstCnvideoenc \<Rightarrow> (GstCnvideoenc, bool) run" where
  "enc_set_cnrt_env E s =
     call_then (lift_call (\<lambda>t. s\<lparr>c_dev := t\<rparr>) (set_cnrt_env (n_major E) (n_dev E) (c_device_id s) (c_dev s)))
       (\<lambda>(ok, e) s. Ret ok (if ok then s else enc_do (Enc_Bus ''set mlu environment failed'') s))"

definition enc_bind_once :: "enc_env \<Rightarrow> bool \<Rightarrow> (GstCnvideoenc \<Rightarrow> GstCnvideoenc) \<Rightarrow> GstCnvideoenc \<Rightarrow> (GstCnvideoenc, bool) run" where
  "enc_bind_once E cnrt_env set_flag s =
     (if cnrt_env then Ret True s
      else call_then (enc_set_cnrt_env E s) (\<lambda>ok s. Ret ok (if ok then set_flag s else s)))"

text \<open>
  \<open>CNCV_SAFECALL\<close> and \<open>CNRT_SAFECALL\<close>: on failure an element error and an early return.
\<close>

definition SAFECALL :: "enc_env \<Rightarrow> enc_act \<Rightarrow> string \<Rightarrow> 'a \<Rightarrow> (GstCnvideoenc \<Rightarrow> (GstCnvideoenc, 'a) run) \<Rightarrow> GstCnvideoenc \<Rightarrow> (GstCnvideoenc, 'a) run" where
  "SAFECALL E a name val k s =
     (let s = enc_do a s in if n_ok E (c_trace s) then k s else Ret val (enc_do (Enc_Bus name) s))"

subsection \<open>Construction and properties\<close>

definition ENC_DEFAULT_QP :: u32 where "ENC_DEFAULT_QP = 51"
definition ENC_DEFAULT_BIT_RATE :: u32 where "ENC_DEFAULT_BIT_RATE = 0x100000"
definition ENC_DEFAULT_GOP_LENGTH :: u32 where "ENC_DEFAULT_GOP_LENGTH = 30"
definition ENCODE_BUFFER_SIZE :: nat where "ENCODE_BUFFER_SIZE = 0x200000"
definition COLOR_SPACE :: cncodecColorSpace where "COLOR_SPACE = CNCODEC_COLOR_SPACE_BT_709"

definition gst_cnvideoenc_init :: "mach \<Rightarrow> dev_state \<Rightarrow> GstCnvideoenc" where
  "gst_cnvideoenc_init m dev =
     \<lparr>c_silent = False, c_device_id = 0, c_codec_type = CNCODEC_H264, c_video_profile = GST_VP_H264_MAIN,
      c_video_level = GST_VL_H264_41, c_i_frame_interval = 0, c_b_frame_num = 0, c_gop_type = GOP_TYPE_BIDIRECTIONAL,
      c_input_buffer_num = 4, c_output_buffer_num = 4, c_video_info = no_info, c_encode = False,
      c_rate_control = \<lparr>rcMode = CNVIDEOENC_RATE_CTRL_CBR, gopLength = ENC_DEFAULT_GOP_LENGTH, targetBitrate = ENC_DEFAULT_BIT_RATE,
        peakBitrate = ENC_DEFAULT_BIT_RATE, maxIQP = ENC_DEFAULT_QP, maxPQP = ENC_DEFAULT_QP, maxBQP = ENC_DEFAULT_QP,
        minIQP = 0, minPQP = 0, minBQP = 0, constIQP = 0, constPQP = 0, constBQP = 0\<rparr>,
      c_pixel_format = CNCODEC_PIX_FMT_NV12, c_send_eos = False, c_got_eos = False, c_first_frame = False, c_frame_id = 0,
      c_workspace = None, c_tmp_rgb = None, c_handle = False, c_cnrt_queue = False, c_loop = No_Thread, c_queue = [],
      c_gst_state = STATE_NULL, c_dev = dev, c_env_encode = False, c_env_output = False, c_mach = m, c_trace = []\<rparr>"

datatype enc_property =
  EP_SILENT bool | EP_DEVICE_ID int | EP_INPUT_BUFFER_NUM u32 | EP_OUTPUT_BUFFER_NUM u32 | EP_RC_VBR bool
| EP_GOP_LENGTH u32 | EP_RC_BIT_RATE u32 | EP_RC_MAX_BIT_RATE u32 | EP_I_QP u32 | EP_P_QP u32 | EP_B_QP u32
| EP_MAX_QP u32 | EP_MIN_QP u32 | EP_VIDEO_PROFILE GstVideoProfile | EP_VIDEO_LEVEL GstVideoLevel
| EP_I_FRAME_INTERVAL u32 | EP_B_FRAME_NUM u32 | EP_GOP_TYPE cnvideoEncGopType | EP_CODEC_TYPE cncodecType

text \<open>The ranges of \<open>gst_cnvideoenc_class_init\<close>; the enumerations are those of the four \<open>get_type\<close> functions.\<close>

fun enc_property_range :: "enc_property \<Rightarrow> bool" where
  "enc_property_range (EP_DEVICE_ID i) = (-1 \<le> i \<and> i \<le> 20)"
| "enc_property_range (EP_INPUT_BUFFER_NUM n) = (n \<le> 20)"
| "enc_property_range (EP_OUTPUT_BUFFER_NUM n) = (n \<le> 20)"
| "enc_property_range (EP_GOP_LENGTH n) = (1 \<le> n \<and> n \<le> 65536)"
| "enc_property_range (EP_RC_BIT_RATE n) = (2 \<le> n)"
| "enc_property_range (EP_RC_MAX_BIT_RATE n) = (2 \<le> n)"
| "enc_property_range (EP_MAX_QP n) = (n \<le> 51)"
| "enc_property_range (EP_MIN_QP n) = (n \<le> 51)"
| "enc_property_range (EP_I_QP n) = (n \<le> 51)"
| "enc_property_range (EP_P_QP n) = (n \<le> 51)"
| "enc_property_range (EP_B_QP n) = (n \<le> 51)"
| "enc_property_range (EP_VIDEO_PROFILE p) = (p \<in> fst ` set video_profile_values)"
| "enc_property_range (EP_VIDEO_LEVEL l) = (l \<in> fst ` set video_level_values)"
| "enc_property_range (EP_I_FRAME_INTERVAL n) = (n \<le> 4095)"
| "enc_property_range (EP_B_FRAME_NUM n) = (n \<le> 4095)"
| "enc_property_range (EP_CODEC_TYPE c) = (c = CNCODEC_H264 \<or> c = CNCODEC_HEVC)"
| "enc_property_range _ = True"

definition upd_rc :: "(cnvideoEncRateCtrl \<Rightarrow> cnvideoEncRateCtrl) \<Rightarrow> GstCnvideoenc \<Rightarrow> GstCnvideoenc" where
  "upd_rc f s = s\<lparr>c_rate_control := f (c_rate_control s)\<rparr>"

fun gst_cnvideoenc_set_property :: "enc_property \<Rightarrow> GstCnvideoenc \<Rightarrow> GstCnvideoenc" where
  "gst_cnvideoenc_set_property (EP_SILENT b) s = s\<lparr>c_silent := b\<rparr>"
| "gst_cnvideoenc_set_property (EP_DEVICE_ID i) s = s\<lparr>c_device_id := i\<rparr>"
| "gst_cnvideoenc_set_property (EP_INPUT_BUFFER_NUM n) s = s\<lparr>c_input_buffer_num := n\<rparr>"
| "gst_cnvideoenc_set_property (EP_OUTPUT_BUFFER_NUM n) s = s\<lparr>c_output_buffer_num := n\<rparr>"
| "gst_cnvideoenc_set_property (EP_RC_VBR b) s =
     upd_rc (\<lambda>r. r\<lparr>rcMode := if b then CNVIDEOENC_RATE_CTRL_VBR else CNVIDEOENC_RATE_CTRL_CBR\<rparr>) s"
| "gst_cnvideoenc_set_property (EP_GOP_LENGTH n) s = upd_rc (\<lambda>r. r\<lparr>gopLength := n\<rparr>) s"
| "gst_cnvideoenc_set_property (EP_RC_BIT_RATE n) s = upd_rc (\<lambda>r. r\<lparr>targetBitrate := n\<rparr>) s"
| "gst_cnvideoenc_set_property (EP_RC_MAX_BIT_RATE n) s = upd_rc (\<lambda>r. r\<lparr>peakBitrate := n\<rparr>) s"
| "gst_cnvideoenc_set_property (EP_I_QP n) s = upd_rc (\<lambda>r. r\<lparr>constIQP := n\<rparr>) s"
| "gst_cnvideoenc_set_property (EP_P_QP n) s = upd_rc (\<lambda>r. r\<lparr>constPQP := n\<rparr>) s"
| "gst_cnvideoenc_set_property (EP_B_QP n) s = upd_rc (\<lambda>r. r\<lparr>constBQP := n\<rparr>) s"
| "gst_cnvideoenc_set_property (EP_MAX_QP n) s = upd_rc (\<lambda>r. r\<lparr>maxIQP := n, maxPQP := n, maxBQP := n\<rparr>) s"
| "gst_cnvideoenc_set_property (EP_MIN_QP n) s = upd_rc (\<lambda>r. r\<lparr>minIQP := n, minPQP := n, minBQP := n\<rparr>) s"
| "gst_cnvideoenc_set_property (EP_VIDEO_PROFILE p) s = s\<lparr>c_video_profile := p\<rparr>"
| "gst_cnvideoenc_set_property (EP_VIDEO_LEVEL l) s = s\<lparr>c_video_level := l\<rparr>"
| "gst_cnvideoenc_set_property (EP_I_FRAME_INTERVAL n) s = s\<lparr>c_i_frame_interval := n\<rparr>"
| "gst_cnvideoenc_set_property (EP_B_FRAME_NUM n) s = s\<lparr>c_b_frame_num := n\<rparr>"
| "gst_cnvideoenc_set_property (EP_GOP_TYPE g) s = s\<lparr>c_gop_type := g\<rparr>"
| "gst_cnvideoenc_set_property (EP_CODEC_TYPE c) s = s\<lparr>c_codec_type := c\<rparr>"

text \<open>Which property is asked for is given by a value of it.\<close>

fun gst_cnvideoenc_get_property :: "enc_property \<Rightarrow> GstCnvideoenc \<Rightarrow> enc_property" where
  "gst_cnvideoenc_get_property (EP_SILENT _) s = EP_SILENT (c_silent s)"
| "gst_cnvideoenc_get_property (EP_DEVICE_ID _) s = EP_DEVICE_ID (c_device_id s)"
| "gst_cnvideoenc_get_property (EP_INPUT_BUFFER_NUM _) s = EP_INPUT_BUFFER_NUM (c_input_buffer_num s)"
| "gst_cnvideoenc_get_property (EP_OUTPUT_BUFFER_NUM _) s = EP_OUTPUT_BUFFER_NUM (c_output_buffer_num s)"
| "gst_cnvideoenc_get_property (EP_RC_VBR _) s = EP_RC_VBR (rcMode (c_rate_control s) = CNVIDEOENC_RATE_CTRL_VBR)"
| "gst_cnvideoenc_get_property (EP_GOP_LENGTH _) s = EP_GOP_LENGTH (gopLength (c_rate_control s))"
| "gst_cnvideoenc_get_property (EP_RC_BIT_RATE _) s = EP_RC_BIT_RATE (targetBitrate (c_rate_control s))"
| "gst_cnvideoenc_get_property (EP_RC_MAX_BIT_RATE _) s = EP_RC_MAX_BIT_RATE (peakBitrate (c_rate_control s))"
| "gst_cnvideoenc_get_property (EP_I_QP _) s = EP_I_QP (constIQP (c_rate_control s))"
| "gst_cnvideoenc_get_property (EP_P_QP _) s = EP_P_QP (constPQP (c_rate_control s))"
| "gst_cnvideoenc_get_property (EP_B_QP _) s = EP_B_QP (constBQP (c_rate_control s))"
| "gst_cnvideoenc_get_property (EP_MAX_QP _) s = EP_MAX_QP (maxIQP (c_rate_control s))"
| "gst_cnvideoenc_get_property (EP_MIN_QP _) s = EP_MIN_QP (minIQP (c_rate_control s))"
| "gst_cnvideoenc_get_property (EP_VIDEO_PROFILE _) s = EP_VIDEO_PROFILE (c_video_profile s)"
| "gst_cnvideoenc_get_property (EP_VIDEO_LEVEL _) s = EP_VIDEO_LEVEL (c_video_level s)"
| "gst_cnvideoenc_get_property (EP_I_FRAME_INTERVAL _) s = EP_I_FRAME_INTERVAL (c_i_frame_interval s)"
| "gst_cnvideoenc_get_property (EP_B_FRAME_NUM _) s = EP_B_FRAME_NUM (c_b_frame_num s)"
| "gst_cnvideoenc_get_property (EP_GOP_TYPE _) s = EP_GOP_TYPE (c_gop_type s)"
| "gst_cnvideoenc_get_property (EP_CODEC_TYPE _) s = EP_CODEC_TYPE (c_codec_type s)"

subsection \<open>Caps\<close>

definition pixel_format_cast :: "GstVideoFormat \<Rightarrow> cncodecPixelFormat" where
  "pixel_format_cast f =
     (case f of GST_VIDEO_FORMAT_NV21 \<Rightarrow> CNCODEC_PIX_FMT_NV21
      | GST_VIDEO_FORMAT_NV12 \<Rightarrow> CNCODEC_PIX_FMT_NV12
      | GST_VIDEO_FORMAT_I420 \<Rightarrow> CNCODEC_PIX_FMT_I420
      | GST_VIDEO_FORMAT_BGRA \<Rightarrow> CNCODEC_PIX_FMT_BGRA
      | GST_VIDEO_FORMAT_RGBA \<Rightarrow> CNCODEC_PIX_FMT_RGBA
      | GST_VIDEO_FORMAT_ARGB \<Rightarrow> CNCODEC_PIX_FMT_ARGB
      | GST_VIDEO_FORMAT_ABGR \<Rightarrow> CNCODEC_PIX_FMT_ABGR
      | GST_VIDEO_FORMAT_RGB \<Rightarrow> CNCODEC_PIX_FMT_RGBA
      | GST_VIDEO_FORMAT_BGR \<Rightarrow> CNCODEC_PIX_FMT_RGBA
      | GST_VIDEO_FORMAT_OTHER _ \<Rightarrow> CNCODEC_PIX_FMT_RAW)"

definition is_rgb24 :: "GstVideoFormat \<Rightarrow> bool" where
  "is_rgb24 f \<longleftrightarrow> f = GST_VIDEO_FORMAT_BGR \<or> f = GST_VIDEO_FORMAT_RGB"

text \<open>
  What GStreamer answers while caps are negotiated: the stream description in the caps, whether
  the downstream caps are any or empty, and whether the source pad takes the new caps.
\<close>

record enc_caps =
  ec_info :: "GstVideoInfo option"
  ec_peer_any :: bool
  ec_peer_empty :: bool
  ec_set_ok :: bool

text \<open>
  The source caps: no result when the codec is neither H.264 nor H.265, or when a table has no
  entry (\<open>std::out_of_range\<close>, which is caught).
\<close>

definition enc_source_caps :: "GstCnvideoenc \<Rightarrow> enc_src_caps option" where
  "enc_source_caps s =
     (let i = c_video_info s in
      if c_codec_type s \<noteq> CNCODEC_H264 \<and> c_codec_type s \<noteq> CNCODEC_HEVC then None
      else case map_of g_profile_table (c_video_profile s) of None \<Rightarrow> None
        | Some (_, prof) \<Rightarrow>
          (case map_of g_level_table (c_video_level s) of None \<Rightarrow> None
           | Some (_, lev, tier) \<Rightarrow>
               Some \<lparr>sc_width = vi_width i, sc_height = vi_height i, sc_fps_n = vi_fps_n i, sc_fps_d = vi_fps_d i,
                 sc_profile = prof, sc_level = lev,
                 sc_tier = (if c_codec_type s = CNCODEC_HEVC then Some tier else None)\<rparr>))"

text \<open>\<open>set_caps\<close> as far as the codec is not touched.\<close>

definition enc_default_fps :: "GstVideoInfo \<Rightarrow> GstVideoInfo" where
  "enc_default_fps i = (if vi_fps_n i = 0 \<or> vi_fps_d i = 0 then i\<lparr>vi_fps_n := 30000, vi_fps_d := 1001\<rparr> else i)"

definition enc_negotiate :: "enc_caps \<Rightarrow> GstCnvideoenc \<Rightarrow> (GstCnvideoenc, bool) run" where
  "enc_negotiate c s =
     (case ec_info c of None \<Rightarrow> Ret False s
      | Some i \<Rightarrow>
        let s = s\<lparr>c_video_info := i\<rparr>
        in case gint_mult (vi_width i) (vi_height i) of None \<Rightarrow> UB
           | Some wh \<Rightarrow>
             if wh = 0 then Ret False s
             else let s = s\<lparr>c_pixel_format := pixel_format_cast (vi_format i)\<rparr>
             in if c_pixel_format s = CNCODEC_PIX_FMT_RAW then Ret False s
             else let s = s\<lparr>c_video_info := enc_default_fps i\<rparr>
             in if ec_peer_any c \<or> ec_peer_empty c then Ret False s
             else case enc_source_caps s of None \<Rightarrow> Ret False s
               | Some caps \<Rightarrow> Ret (ec_set_ok c) (enc_do (Enc_SetCaps caps) s))"

subsection \<open>Opening the encoder\<close>

definition on_tmp_rgb :: "(held \<Rightarrow> (held, 'a) run) \<Rightarrow> GstCnvideoenc \<Rightarrow> (GstCnvideoenc, 'a) run" where
  "on_tmp_rgb f s = lift_call (\<lambda>(m, x). s\<lparr>c_mach := m, c_tmp_rgb := x\<rparr>) (f (c_mach s, c_tmp_rgb s))"

definition on_workspace :: "(held \<Rightarrow> (held, 'a) run) \<Rightarrow> GstCnvideoenc \<Rightarrow> (GstCnvideoenc, 'a) run" where
  "on_workspace f s = lift_call (\<lambda>(m, x). s\<lparr>c_mach := m, c_workspace := x\<rparr>) (f (c_mach s, c_workspace s))"

text \<open>The conversion set-up for packed RGB input: a device copy of the input, a handle, a queue.\<close>

definition enc_create_cncv :: "enc_env \<Rightarrow> GstCnvideoenc \<Rightarrow> (GstCnvideoenc, bool) run" where
  "enc_create_cncv E s =
     (if c_handle s then Ret True s
      else SAFECALL E Enc_cncvCreate ''Call [cncvCreate(&priv->handle)] failed'' False (\<lambda>s. Ret True (s\<lparr>c_handle := True\<rparr>)) s)"

definition enc_create_queue :: "enc_env \<Rightarrow> GstCnvideoenc \<Rightarrow> (GstCnvideoenc, bool) run" where
  "enc_create_queue E s =
     (if c_cnrt_queue s then Ret True s
      else SAFECALL E Enc_cnrtCreateQueue ''Call [cnrtCreateQueue(&priv->queue)] failed'' False
             (\<lambda>s. Ret True (s\<lparr>c_cnrt_queue := True\<rparr>)) s)"

definition enc_prepare_rgb :: "enc_env \<Rightarrow> GstCnvideoenc \<Rightarrow> (GstCnvideoenc, bool) run" where
  "enc_prepare_rgb E s =
     (if \<not> is_rgb24 (vi_format (c_video_info s)) then Ret True s
      else case gint_mult (nth0 (vi_stride (c_video_info s)) 0) (vi_height (c_video_info s)) of None \<Rightarrow> UB
      | Some n \<Rightarrow>
        call_then (on_tmp_rgb (ensure_held (n_rt E) (size_t n)) s) (\<lambda>_ s.
        call_then (enc_create_cncv E s) (\<lambda>ok s. if \<not> ok then Ret False s else
        call_then (enc_create_queue E s) (\<lambda>ok s. if \<not> ok then Ret False s else
        SAFECALL E Enc_cncvSetQueue ''Call [cncvSetQueue(priv->handle, priv->queue)] failed'' False (Ret True) s))))"

text \<open>Profile and level as the codec gets them: an entry of the other codec's is replaced.\<close>

definition enc_h264_profile :: "enc_env \<Rightarrow> cnvideoEncProfile \<Rightarrow> cnvideoEncProfile" where
  "enc_h264_profile E p = (if n_prof E p > n_prof E CNVIDEOENC_PROFILE_H264_HIGH_10 then CNVIDEOENC_PROFILE_H264_HIGH else p)"

definition enc_h264_level :: "enc_env \<Rightarrow> cnvideoEncLevel \<Rightarrow> cnvideoEncLevel" where
  "enc_h264_level E l = (if n_level E l > n_level E CNVIDEOENC_LEVEL_H264_51 then CNVIDEOENC_LEVEL_H264_41 else l)"

definition enc_h265_profile :: "enc_env \<Rightarrow> cnvideoEncProfile \<Rightarrow> cnvideoEncProfile" where
  "enc_h265_profile E p = (if n_prof E p < n_prof E CNVIDEOENC_PROFILE_H265_MAIN then CNVIDEOENC_PROFILE_H265_MAIN else p)"

definition enc_h265_level :: "enc_env \<Rightarrow> cnvideoEncLevel \<Rightarrow> cnvideoEncLevel" where
  "enc_h265_level E l = (if n_level E l < n_level E CNVIDEOENC_LEVEL_H265_MAIN_1 then CNVIDEOENC_LEVEL_H265_HIGH_41 else l)"

definition enc_params :: "enc_env \<Rightarrow> GstCnvideoenc \<Rightarrow> cnvideoEncCreateInfo option" where
  "enc_params E s =
     (case (map_of g_profile_table (c_video_profile s), map_of g_level_table (c_video_level s)) of
        (Some (profile, _), Some (level, _)) \<Rightarrow>
          if c_codec_type s \<noteq> CNCODEC_H264 \<and> c_codec_type s \<noteq> CNCODEC_HEVC then None
          else Some \<lparr>ei_deviceId = c_device_id s, ei_width = vi_width (c_video_info s), ei_height = vi_height (c_video_info s),
            ei_pixelFmt = c_pixel_format s, ei_colorSpace = COLOR_SPACE, ei_codec = c_codec_type s,
            ei_inputBufNum = c_input_buffer_num s, ei_outputBufNum = c_output_buffer_num s,
            ei_bitStrmBufSize = ENCODE_BUFFER_SIZE,
            ei_fpsNumerator = vi_fps_n (c_video_info s), ei_fpsDenominator = vi_fps_d (c_video_info s),
            ei_rateCtrl = c_rate_control s,
            ei_profile = (if c_codec_type s = CNCODEC_H264 then enc_h264_profile E profile else enc_h265_profile E profile),
            ei_level = (if c_codec_type s = CNCODEC_H264 then enc_h264_level E level else enc_h265_level E level),
            ei_IframeInterval = c_i_frame_interval s, ei_BFramesNum = c_b_frame_num s, ei_gopType = c_gop_type s\<rparr>
      | _ \<Rightarrow> None)"

text \<open>
  From the start of the event loop on. Assigning a thread to a joinable \<open>event_loop\<close> terminates the
  program; the flags \<open>send_eos\<close> and \<open>got_eos\<close> keep the values of the session before.
\<close>

definition enc_open :: "enc_env \<Rightarrow> GstCnvideoenc \<Rightarrow> (GstCnvideoenc, bool) run" where
  "enc_open E s =
     (if joinable (c_loop s) then Terminate
      else let s = s\<lparr>c_loop := Looping, c_first_frame := True\<rparr>
      in case enc_params E s of None \<Rightarrow> Ret False s
         | Some p \<Rightarrow>
           let s = enc_do (Enc_Create p) s
           in if enc_ret E s \<noteq> CNCODEC_SUCCESS
              then Ret False ((enc_do (Enc_Bus ''Create video encoder failed'') s)\<lparr>c_encode := False\<rparr>)
              else Ret True (s\<lparr>c_encode := True\<rparr>))"

definition gst_cnvideoenc_init_encoder :: "enc_env \<Rightarrow> GstCnvideoenc \<Rightarrow> (GstCnvideoenc, bool) run" where
  "gst_cnvideoenc_init_encoder E s =
     call_then (enc_set_cnrt_env E s) (\<lambda>ok s. if \<not> ok then Ret False s else
     call_then (enc_prepare_rgb E s) (\<lambda>ok s. if \<not> ok then Ret False s else enc_open E s))"

subsection \<open>End of stream and events of the codec\<close>

definition enc_feed_eos :: "enc_env \<Rightarrow> GstCnvideoenc \<Rightarrow> bool \<times> GstCnvideoenc" where
  "enc_feed_eos E s =
     (if \<not> c_encode s then (True, s)
      else let s = enc_do Enc_WaitInput s
      in if enc_ret E s \<noteq> CNCODEC_SUCCESS then (False, enc_do (Enc_Bus ''cnvideoEncWaitAvailInputBuf failed'') s)
      else let s = enc_do Enc_FeedEos s
      in if enc_ret E s \<noteq> CNCODEC_SUCCESS then (False, enc_do (Enc_Bus ''cnvideoEncFeedFrame failed'') s)
      else (True, s\<lparr>c_send_eos := True\<rparr>))"

definition enc_handle_eos :: "GstCnvideoenc \<Rightarrow> GstCnvideoenc" where
  "enc_handle_eos s =
     (let s = s\<lparr>c_got_eos := True\<rparr> in if at_most_ready (c_gst_state s) then s else enc_do Enc_Push_Eos s)"

definition enc_abort_encoder :: "GstCnvideoenc \<Rightarrow> GstCnvideoenc" where
  "enc_abort_encoder s =
     (if c_encode s
      then (enc_handle_eos ((enc_do Enc_Abort s)\<lparr>c_encode := False\<rparr>))\<lparr>c_got_eos := True\<rparr>
      else enc_do (Enc_Bus ''Won't do abort, since cncodec handler has not been initialized'') s)"

definition enc_dispatch :: "nat \<Rightarrow> cb_event \<Rightarrow> GstCnvideoenc \<Rightarrow> GstCnvideoenc" where
  "enc_dispatch ver e s =
     (if e = CB_EOS then enc_handle_eos s
      else if e = CB_SW_RESET \<or> e = CB_HW_RESET
      then enc_abort_encoder (enc_do (Enc_Bus ''Encode firmware crash event'') s)
      else if e = CB_OUT_OF_MEMORY then enc_abort_encoder (enc_do (Enc_Bus ''Out of memory error thrown from cncodec'') s)
      else if e = CB_ABORT_ERROR then enc_abort_encoder (enc_do (Enc_Bus ''Abort error thrown from cncodec'') s)
      else if e = CB_STREAM_CORRUPT \<and> 10600 \<le> ver then s
      else enc_abort_encoder (enc_do (Enc_Bus ''Unknown event type'') s))"

lemmas enc_event_simps =
  enc_dispatch_def enc_handle_eos_def enc_abort_encoder_def enc_do_def Let_def

lemma enc_dispatch_queue [simp]: "c_queue (enc_dispatch ver e s) = c_queue s"
  by (simp add: enc_event_simps)

definition enc_pop :: "GstCnvideoenc \<Rightarrow> GstCnvideoenc" where
  "enc_pop s = s\<lparr>c_queue := tl (c_queue s)\<rparr>"

definition enc_rest :: "GstCnvideoenc \<Rightarrow> GstCnvideoenc" where
  "enc_rest s = s\<lparr>c_loop := (if c_got_eos s then Loop_Done else Looping)\<rparr>"

text \<open>The event loop, from a moment it holds the queue until it returns or waits.\<close>

function enc_event_task_runner :: "nat \<Rightarrow> GstCnvideoenc \<Rightarrow> GstCnvideoenc" where
  "enc_event_task_runner ver s =
     (case c_queue s of [] \<Rightarrow> enc_rest s
      | e # q \<Rightarrow> enc_event_task_runner ver (enc_dispatch ver e (enc_pop s)))"
  by auto
termination
  by (relation "measure (\<lambda>(ver, s). length (c_queue s))") (simp_all add: enc_pop_def)

declare enc_event_task_runner.simps [simp del]

definition enc_handle_event :: "cb_event \<Rightarrow> GstCnvideoenc \<Rightarrow> GstCnvideoenc" where
  "enc_handle_event e s = s\<lparr>c_queue := c_queue s @ [e]\<rparr>"

subsection \<open>Closing the encoder\<close>

definition enc_request_eos :: "enc_env \<Rightarrow> GstCnvideoenc \<Rightarrow> GstCnvideoenc" where
  "enc_request_eos E s =
     (if c_got_eos s then s
      else if \<not> c_send_eos s \<and> c_encode s then snd (enc_feed_eos E s)
      else if \<not> c_encode s then s\<lparr>c_got_eos := True\<rparr> else s)"

text \<open>The codec raises the events \<open>es\<close> while \<open>destroy_encoder\<close> waits.\<close>

definition enc_run_loop :: "enc_env \<Rightarrow> GstCnvideoenc \<Rightarrow> GstCnvideoenc" where
  "enc_run_loop E s = (if c_loop s = Looping then enc_event_task_runner (n_ver E) s else s)"

definition enc_wait_eos :: "enc_env \<Rightarrow> cb_event list \<Rightarrow> GstCnvideoenc \<Rightarrow> GstCnvideoenc" where
  "enc_wait_eos E es s = enc_run_loop E (fold enc_handle_event es s)"

definition enc_join :: "enc_env \<Rightarrow> GstCnvideoenc \<Rightarrow> GstCnvideoenc" where
  "enc_join E s = (enc_run_loop E s)\<lparr>c_loop := No_Thread\<rparr>"

definition enc_teardown :: "enc_env \<Rightarrow> GstCnvideoenc \<Rightarrow> GstCnvideoenc" where
  "enc_teardown E s =
     (if c_encode s
      then let s = enc_do Enc_Destroy s;
               s = (if enc_ret E s \<noteq> CNCODEC_SUCCESS then enc_do (Enc_Bus ''Encoder destroy failed'') s else s)
           in s\<lparr>c_encode := False\<rparr>
      else s)"

definition gst_cnvideoenc_destroy_encoder :: "enc_env \<Rightarrow> cb_event list \<Rightarrow> GstCnvideoenc \<Rightarrow> (GstCnvideoenc, bool) run" where
  "gst_cnvideoenc_destroy_encoder E es s =
     (let t = enc_request_eos E s; u = (if c_got_eos t then t else enc_wait_eos E es t)
      in if c_got_eos u then Ret True (enc_teardown E (enc_join E u)) else Blocked u)"

definition gst_cnvideoenc_set_caps :: "enc_env \<Rightarrow> cb_event list \<Rightarrow> enc_caps \<Rightarrow> GstCnvideoenc \<Rightarrow> (GstCnvideoenc, bool) run" where
  "gst_cnvideoenc_set_caps E es c s =
     call_then (enc_negotiate c s) (\<lambda>ok s. if \<not> ok then Ret False s else
     call_then (if c_encode s then gst_cnvideoenc_destroy_encoder E es s else Ret True s)
       (\<lambda>ok s. if \<not> ok then Ret False s else gst_cnvideoenc_init_encoder E s))"

datatype enc_event = ENC_EVENT_CAPS enc_caps | ENC_EVENT_EOS | ENC_EVENT_OTHER bool

fun gst_cnvideoenc_sink_event :: "enc_env \<Rightarrow> cb_event list \<Rightarrow> enc_event \<Rightarrow> GstCnvideoenc \<Rightarrow> (GstCnvideoenc, bool) run" where
  "gst_cnvideoenc_sink_event E es (ENC_EVENT_CAPS c) s = gst_cnvideoenc_set_caps E es c s"
| "gst_cnvideoenc_sink_event E es ENC_EVENT_EOS s = (let (ok, s) = enc_feed_eos E s in Ret ok s)"
| "gst_cnvideoenc_sink_event E es (ENC_EVENT_OTHER dflt) s = Ret dflt s"

definition gst_cnvideoenc_change_state ::
    "enc_env \<Rightarrow> cb_event list \<Rightarrow> change_return \<Rightarrow> state_change \<Rightarrow> GstCnvideoenc \<Rightarrow> (GstCnvideoenc, change_return) run" where
  "gst_cnvideoenc_change_state E es parent tr s =
     (if parent = STATE_CHANGE_FAILURE then Ret parent s
      else if tr = PAUSED_TO_READY then call_then (gst_cnvideoenc_destroy_encoder E es s) (\<lambda>_ s. Ret parent s)
      else Ret parent s)"

subsection \<open>Frames\<close>

text \<open>
  \<open>MemcpyH2D\<close> of \<open>n\<close> bytes from a plane of the mapped picture to device memory the codec lent.
  Reading past the end of the plane is undefined behaviour.
\<close>

definition enc_h2d :: "enc_env \<Rightarrow> addr \<Rightarrow> u8 list \<Rightarrow> nat \<Rightarrow> GstCnvideoenc \<Rightarrow> (GstCnvideoenc, unit) run" where
  "enc_h2d E p plane n s =
     (if length plane < n then UB
      else let s = enc_do (Enc_H2D p (take n plane)) s
      in lift_call (\<lambda>m. s\<lparr>c_mach := m\<rparr>) (CHECK_CNRT_RET (n_h2d E (c_trace s)) ''Memcpy host to device failed.'' () (c_mach s)))"

definition gf_plane :: "GstVideoFrame \<Rightarrow> nat \<Rightarrow> u8 list" where
  "gf_plane f i = (if i < length (gf_data f) then gf_data f ! i else [])"

text \<open>\<open>copy_frame\<close>: the byte counts come from the width, not from the stride of the picture.\<close>

definition enc_copy_frame :: "enc_env \<Rightarrow> addr list \<Rightarrow> GstVideoFrame \<Rightarrow> GstCnvideoenc \<Rightarrow> (GstCnvideoenc, bool) run" where
  "enc_copy_frame E lent f s =
     (case gint_mult (vi_width (gf_info f)) (vi_height (gf_info f)) of None \<Rightarrow> UB
      | Some fs \<Rightarrow>
        let fmt = c_pixel_format s; n = size_t fs
        in if fmt = CNCODEC_PIX_FMT_NV12 \<or> fmt = CNCODEC_PIX_FMT_NV21
           then call_then (enc_h2d E (nth0 lent 0) (gf_plane f 0) n s) (\<lambda>_ s.
                call_then (enc_h2d E (nth0 lent 1) (gf_plane f 1) (size_t (fs div 2)) s) (\<lambda>_ s. Ret True s))
           else if fmt = CNCODEC_PIX_FMT_I420
           then call_then (enc_h2d E (nth0 lent 0) (gf_plane f 0) n s) (\<lambda>_ s.
                call_then (enc_h2d E (nth0 lent 1) (gf_plane f 1) (size_t (fs div 4)) s) (\<lambda>_ s.
                call_then (enc_h2d E (nth0 lent 2) (gf_plane f 2) (size_t (fs div 4)) s) (\<lambda>_ s. Ret True s)))
           else if fmt \<in> {CNCODEC_PIX_FMT_ARGB, CNCODEC_PIX_FMT_ABGR, CNCODEC_PIX_FMT_RGBA, CNCODEC_PIX_FMT_BGRA}
           then (case gint_mult fs 4 of None \<Rightarrow> UB
                 | Some fs4 \<Rightarrow> call_then (enc_h2d E (nth0 lent 0) (gf_plane f 0) (size_t fs4) s) (\<lambda>_ s. Ret True s))
           else Ret False (enc_do (Enc_Bus ''Unsupported pixel format'') s))"

text \<open>The descriptors of the conversion: only the format and the stride of the first plane differ.\<close>

definition enc_rgba_desc :: "cncvImageDescriptor \<Rightarrow> cncvImageDescriptor" where
  "enc_rgba_desc d = d\<lparr>id_pixel_fmt := CNCV_PIX_FMT_RGBA, id_stride := (id_stride d)[0 := id_width d * 4]\<rparr>"

definition enc_store_ptr :: "addr \<Rightarrow> nat \<Rightarrow> addr \<Rightarrow> GstCnvideoenc \<Rightarrow> (GstCnvideoenc, unit) run" where
  "enc_store_ptr table i p s = lift_call (\<lambda>m. s\<lparr>c_mach := m\<rparr>) (store_ptr table i p (c_mach s))"

text \<open>The pointer table of \<open>rgb2rgba\<close>, from its allocation to its address on the device.\<close>

definition enc_rgb_table :: "enc_env \<Rightarrow> addr \<Rightarrow> GstCnvideoenc \<Rightarrow> (GstCnvideoenc, addr) run" where
  "enc_rgb_table E dst s =
     call_then (on_workspace (ensure_held (n_rt E) 16) s) (\<lambda>_ s.
     call_then (on_workspace (on_held (cn_syncedmem_get_mutable_host_data (n_rt E))) s) (\<lambda>table s.
     call_then (on_tmp_rgb (on_held (cn_syncedmem_get_mutable_dev_data (n_rt E))) s) (\<lambda>src s.
     call_then (enc_store_ptr table 0 src s) (\<lambda>_ s.
     call_then (enc_store_ptr table 1 dst s) (\<lambda>_ s.
     on_workspace (on_held (cn_syncedmem_get_dev_data (n_rt E))) s)))))"

definition enc_rgb2rgba :: "enc_env \<Rightarrow> addr list \<Rightarrow> GstCnvideoenc \<Rightarrow> (GstCnvideoenc, bool) run" where
  "enc_rgb2rgba E lent s =
     (let src_desc = video_info_to_desc (c_video_info s)
      in call_then (enc_rgb_table E (nth0 lent 0) s) (\<lambda>table s.
         SAFECALL E (Enc_RgbxToRgbx src_desc table (enc_rgba_desc src_desc) (table + 8)) ''Call [cncvRgbxToRgbx] failed'' False (\<lambda>s.
         SAFECALL E Enc_SyncQueue ''Call [cnrtSyncQueue(priv->queue)] failed'' False (Ret True) s) s))"

text \<open>
  Packed RGB input goes to \<open>tmp_rgb\<close> first; the number of bytes comes from the mapped picture. A
  copy past the end of the device block is undefined behaviour.
\<close>

definition enc_upload_rgb :: "enc_env \<Rightarrow> GstVideoFrame \<Rightarrow> GstCnvideoenc \<Rightarrow> (GstCnvideoenc, unit) run" where
  "enc_upload_rgb E f s =
     (case gint_mult (nth0 (vi_stride (gf_info f)) 0) (vi_height (gf_info f)) of None \<Rightarrow> UB
      | Some n \<Rightarrow>
        call_then (on_tmp_rgb (on_held (cn_syncedmem_get_mutable_dev_data (n_rt E))) s) (\<lambda>p s.
          if \<not> blk_ok (dmem (c_mach s)) p (size_t n) then UB
          else call_then (enc_h2d E p (gf_plane f 0) (size_t n) s) (\<lambda>_ s.
            Ret () (s\<lparr>c_mach := (c_mach s)\<lparr>dmem := store_bytes (dmem (c_mach s)) p (take (size_t n) (gf_plane f 0))\<rparr>\<rparr>))))"

definition enc_fill_input :: "enc_env \<Rightarrow> addr list \<Rightarrow> GstVideoFrame \<Rightarrow> GstCnvideoenc \<Rightarrow> (GstCnvideoenc, bool) run" where
  "enc_fill_input E lent f s =
     (if is_rgb24 (vi_format (c_video_info s))
      then call_then (enc_upload_rgb E f s) (\<lambda>_ s. enc_rgb2rgba E lent s)
      else enc_copy_frame E lent f s)"

text \<open>The input handed to the codec: size, strides and number of planes are those of the picture.\<close>

definition enc_input :: "addr list \<Rightarrow> GstVideoFrame \<Rightarrow> u64 \<Rightarrow> GstCnvideoenc \<Rightarrow> enc_frame" where
  "enc_input lent f pts s =
     \<lparr>ef_plane = lent, ef_pixelFmt = c_pixel_format s, ef_width = vi_width (gf_info f), ef_height = vi_height (gf_info f),
      ef_stride = map (nth0 (vi_stride (gf_info f))) [0..<length (gf_data f)], ef_pts = pts\<rparr>"

definition enc_feed :: "enc_env \<Rightarrow> enc_frame \<Rightarrow> GstCnvideoenc \<Rightarrow> bool \<times> GstCnvideoenc" where
  "enc_feed E i s =
     (if c_encode s
      then let s = enc_do (Enc_Feed i) s
           in if enc_ret E s \<noteq> CNCODEC_SUCCESS then (False, enc_do (Enc_Bus ''cnvideoEncFeedFrame failed'') s) else (True, s)
      else (False, s))"

definition enc_encode_mapped :: "enc_env \<Rightarrow> GstVideoFrame \<Rightarrow> u64 \<Rightarrow> GstCnvideoenc \<Rightarrow> (GstCnvideoenc, bool) run" where
  "enc_encode_mapped E f pts s =
     (let s = enc_do Enc_WaitInput s; lent = n_lent E (c_trace s)
      in if enc_ret E s \<noteq> CNCODEC_SUCCESS then Ret False (enc_do (Enc_Bus ''cnvideoEncWaitAvailInputBuf failed'') s)
         else call_then (enc_fill_input E lent f s) (\<lambda>ok s.
           if \<not> ok then Ret False s else let (ok, s) = enc_feed E (enc_input lent f pts s) s in Ret ok s))"

text \<open>An input buffer: the picture it maps to, or nothing if it cannot be mapped, and its time stamp.\<close>

record enc_buffer =
  eb_frame :: "GstVideoFrame option"
  eb_pts :: u64

definition enc_encode_frame :: "enc_env \<Rightarrow> enc_buffer \<Rightarrow> GstCnvideoenc \<Rightarrow> (GstCnvideoenc, bool) run" where
  "enc_encode_frame E b s =
     call_then (enc_bind_once E (c_env_encode s) (\<lambda>s. s\<lparr>c_env_encode := True\<rparr>) s) (\<lambda>ok s.
       if \<not> ok then Ret False s
       else case eb_frame b of None \<Rightarrow> Ret False s
         | Some f \<Rightarrow> ScopeGuard (enc_do Enc_Unmap) (enc_encode_mapped E f (eb_pts b) (enc_do Enc_Map s)))"

definition gst_cnvideoenc_chain :: "enc_env \<Rightarrow> enc_buffer \<Rightarrow> GstCnvideoenc \<Rightarrow> (GstCnvideoenc, flow_return) run" where
  "gst_cnvideoenc_chain E b s =
     call_then (enc_encode_frame E b s) (\<lambda>ok s.
       Ret GST_FLOW_OK (enc_do Enc_Unref (if ok then s else enc_do (Enc_Bus ''encode failed'') s)))"

text \<open>An encoded packet: the stream buffer's address, offset and length of its bytes, time stamp.\<close>

record cnvideoEncOutput =
  op_addr :: addr
  op_offset :: nat
  op_len :: u32
  op_pts :: u64

text \<open>The time stamp of the pushed buffer; \<open>frame_id\<close> counts the packets that came without one.\<close>

definition enc_stamp :: "enc_env \<Rightarrow> u64 \<Rightarrow> GstCnvideoenc \<Rightarrow> u64 \<times> GstCnvideoenc" where
  "enc_stamp E pts s =
     (if pts = 0 \<and> \<not> c_first_frame s
      then (n_pts E (c_frame_id s) (vi_fps_n (c_video_info s)) (vi_fps_d (c_video_info s)), s\<lparr>c_frame_id := c_frame_id s + 1\<rparr>)
      else (pts, s))"

definition enc_handle_output :: "enc_env \<Rightarrow> cnvideoEncOutput \<Rightarrow> GstCnvideoenc \<Rightarrow> (GstCnvideoenc, unit) run" where
  "enc_handle_output E p s =
     call_then (enc_bind_once E (c_env_output s) (\<lambda>s. s\<lparr>c_env_output := True\<rparr>) s) (\<lambda>ok s.
       if \<not> ok then Ret () s
       else let n = unat (op_len p); s = enc_do (Enc_D2H (op_addr p + op_offset p) n) s
       in if \<not> n_ok E (c_trace s)
          then Ret () (enc_abort_encoder (enc_do (Enc_Bus ''Copy bitstream failed, DEV2HOST'') s))
          else let (pts, s) = enc_stamp E (op_pts p) s;
                   s = enc_do (Enc_ReleaseRef (op_addr p)) (enc_do (Enc_AddRef (op_addr p)) s)
               in Ret () (enc_do (Enc_Push (n_bits E (op_addr p + op_offset p) n) pts) (s\<lparr>c_first_frame := False\<rparr>)))"

datatype enc_callback = ENC_CB_Output cnvideoEncOutput | ENC_CB_Event cb_event

fun enc_event_handler :: "enc_env \<Rightarrow> enc_callback \<Rightarrow> GstCnvideoenc \<Rightarrow> (GstCnvideoenc, unit) run" where
  "enc_event_handler E (ENC_CB_Output p) s = enc_handle_output E p s"
| "enc_event_handler E (ENC_CB_Event e) s = Ret () (enc_handle_event e s)"

text \<open>
  \<open>delete priv->cpp\<close> destroys the thread object first; the two early returns of the macros skip the
  parent's finalizer, which is not modelled.
\<close>

definition gst_cnvideoenc_finalize :: "enc_env \<Rightarrow> GstCnvideoenc \<Rightarrow> (GstCnvideoenc, unit) run" where
  "gst_cnvideoenc_finalize E s =
     (if joinable (c_loop s) then Terminate
      else call_then (on_tmp_rgb (drop_held (n_rt E)) s) (\<lambda>_ s.
           call_then (on_workspace (drop_held (n_rt E)) s) (\<lambda>_ s.
           call_then (if c_handle s
               then SAFECALL E Enc_cncvDestroy ''Call [cncvDestroy(priv->handle)] failed'' False (\<lambda>s. Ret True (s\<lparr>c_handle := False\<rparr>)) s
               else Ret True s) (\<lambda>ok s. if \<not> ok then Ret () s
           else if c_cnrt_queue s
           then SAFECALL E Enc_cnrtDestroyQueue ''Call [cnrtDestroyQueue(priv->queue)] failed'' () (\<lambda>s. Ret () (s\<lparr>c_cnrt_queue := False\<rparr>)) s
           else Ret () s))))"

subsection \<open>The session contract\<close>

lemma enc_do_sel [simp]:
  "c_encode (enc_do a s) = c_encode s" "c_got_eos (enc_do a s) = c_got_eos s" "c_loop (enc_do a s) = c_loop s"
  "c_queue (enc_do a s) = c_queue s" "c_trace (enc_do a s) = a # c_trace s" "c_send_eos (enc_do a s) = c_send_eos s"
  "c_video_info (enc_do a s) = c_video_info s" "c_pixel_format (enc_do a s) = c_pixel_format s"
  "c_gst_state (enc_do a s) = c_gst_state s" "c_first_frame (enc_do a s) = c_first_frame s"
  "c_frame_id (enc_do a s) = c_frame_id s" "c_mach (enc_do a s) = c_mach s"
  "c_codec_type (enc_do a s) = c_codec_type s" "c_video_profile (enc_do a s) = c_video_profile s"
  "c_video_level (enc_do a s) = c_video_level s" "c_tmp_rgb (enc_do a s) = c_tmp_rgb s" "c_workspace (enc_do a s) = c_workspace s"
  by (simp_all add: enc_do_def)

lemma enc_dispatch_got:
  "c_got_eos (enc_dispatch ver e s) = (c_got_eos s \<or> e = CB_EOS \<or> (aborts ver e \<and> c_encode s))"
  by (cases e) (auto simp: enc_event_simps)

lemma enc_dispatch_encode: "c_encode (enc_dispatch ver e s) = (c_encode s \<and> \<not> aborts ver e)"
  by (cases e) (auto simp: enc_event_simps)

lemma enc_dispatch_loop [simp]: "c_loop (enc_dispatch ver e s) = c_loop s"
  by (simp add: enc_event_simps)

definition enc_begin_close :: "enc_env \<Rightarrow> GstCnvideoenc \<Rightarrow> GstCnvideoenc option" where
  "enc_begin_close E s = Some (enc_request_eos E s)"

lemma enc_feed_eos_sel [simp]:
  "c_queue (snd (enc_feed_eos E s)) = c_queue s" "c_encode (snd (enc_feed_eos E s)) = c_encode s"
  "c_loop (snd (enc_feed_eos E s)) = c_loop s" "c_got_eos (snd (enc_feed_eos E s)) = c_got_eos s"
  by (auto simp: enc_feed_eos_def Let_def)

lemma enc_request_eos_sel [simp]:
  "c_queue (enc_request_eos E s) = c_queue s" "c_encode (enc_request_eos E s) = c_encode s"
  "c_loop (enc_request_eos E s) = c_loop s" "c_got_eos (enc_request_eos E s) = (c_got_eos s \<or> \<not> c_encode s)"
  by (auto simp: enc_request_eos_def)

lemma fold_enc_handle_event: "fold enc_handle_event es s = s\<lparr>c_queue := c_queue s @ es\<rparr>"
  by (induction es arbitrary: s) (simp_all add: enc_handle_event_def)

lemma enc_teardown_encode [simp]: "\<not> c_encode (enc_teardown E s)"
  by (simp add: enc_teardown_def Let_def)

interpretation enc: closable_session "n_ver E" c_encode c_got_eos c_queue enc_pop enc_handle_event
    "enc_dispatch (n_ver E)" enc_rest "enc_event_task_runner (n_ver E)"
    "\<lambda>s. c_loop s = Looping" "enc_begin_close E" "enc_wait_eos E" "\<lambda>s. enc_teardown E (enc_join E s)"
    "gst_cnvideoenc_destroy_encoder E"
  for E
proof (unfold_locales, goal_cases)
  case (17 s)
  then show ?case by (simp add: enc_event_task_runner.simps)
next
  case (18 s e q)
  then show ?case by (subst enc_event_task_runner.simps) simp
next
  case (19 s t)
  then show ?case by (auto simp: enc_begin_close_def)
next
  case (20 s es)
  then show ?case by (simp add: enc_wait_eos_def enc_run_loop_def fold_enc_handle_event)
next
  case (21 s)
  then show ?case by simp
next
  case (22 s t es)
  then show ?case by (simp add: gst_cnvideoenc_destroy_encoder_def enc_begin_close_def)
qed (auto simp: enc_pop_def enc_handle_event_def enc_dispatch_got enc_dispatch_encode enc_rest_def ends_session_def)

subsection \<open>Invariant of the element\<close>

text \<open>Encoders the library has created and neither destroyed nor aborted, counted along a trace.\<close>

fun live_encoders :: "(enc_act list \<Rightarrow> cncodecRet) \<Rightarrow> enc_act list \<Rightarrow> int" where
  "live_encoders codec [] = 0"
| "live_encoders codec (a # t) = live_encoders codec t +
     (case a of Enc_Create p \<Rightarrow> if codec (a # t) = CNCODEC_SUCCESS then 1 else 0
      | Enc_Destroy \<Rightarrow> -1 | Enc_Abort \<Rightarrow> -1 | _ \<Rightarrow> 0)"

definition enc_inv :: "enc_env \<Rightarrow> GstCnvideoenc \<Rightarrow> bool" where
  "enc_inv E s \<longleftrightarrow> (c_encode s \<longrightarrow> joinable (c_loop s) \<and> (c_got_eos s \<or> c_loop s = Looping)) \<and>
     live_encoders (n_codec E) (c_trace s) = (if c_encode s then 1 else 0)"

text \<open>Steps that leave handle, loop and flags alone and neither create nor drop an encoder.\<close>

definition enc_quiet_act :: "enc_act \<Rightarrow> bool" where
  "enc_quiet_act a \<longleftrightarrow> (case a of Enc_Create _ \<Rightarrow> False | Enc_Destroy \<Rightarrow> False | Enc_Abort \<Rightarrow> False | _ \<Rightarrow> True)"

definition enc_quiet :: "GstCnvideoenc \<Rightarrow> GstCnvideoenc \<Rightarrow> bool" where
  "enc_quiet s t \<longleftrightarrow> c_encode t = c_encode s \<and> c_loop t = c_loop s \<and> c_got_eos t = c_got_eos s \<and> c_queue t = c_queue s \<and>
     (\<exists>as. c_trace t = as @ c_trace s \<and> (\<forall>a\<in>set as. enc_quiet_act a))"

lemma enc_quiet_live: "\<forall>a\<in>set as. enc_quiet_act a \<Longrightarrow> live_encoders c (as @ t) = live_encoders c t"
  by (induction as) (auto simp: enc_quiet_act_def split: enc_act.splits)

lemma enc_quiet_inv: "enc_quiet s t \<Longrightarrow> enc_inv E s \<Longrightarrow> enc_inv E t"
  using enc_quiet_live by (auto simp: enc_quiet_def enc_inv_def)

lemma enc_quiet_refl [simp]: "enc_quiet s s"
  unfolding enc_quiet_def by (intro conjI exI [of _ "[]"]) simp_all

lemma enc_quiet_trans:
  assumes "enc_quiet s t" and "enc_quiet t u"
  shows "enc_quiet s u"
proof -
  from assms obtain as bs where "c_trace t = as @ c_trace s" "\<forall>a\<in>set as. enc_quiet_act a"
    "c_trace u = bs @ c_trace t" "\<forall>a\<in>set bs. enc_quiet_act a" by (auto simp: enc_quiet_def)
  then have "c_trace u = (bs @ as) @ c_trace s \<and> (\<forall>a\<in>set (bs @ as). enc_quiet_act a)" by auto
  with assms show ?thesis unfolding enc_quiet_def by auto
qed

lemma enc_quiet_upd:
  assumes "c_encode u = c_encode t" and "c_loop u = c_loop t" and "c_got_eos u = c_got_eos t"
    and "c_queue u = c_queue t" and "c_trace u = c_trace t"
  shows "enc_quiet s u = enc_quiet s t"
  using assms by (simp add: enc_quiet_def)

lemma enc_quiet_do: "enc_quiet_act a \<Longrightarrow> enc_quiet s t \<Longrightarrow> enc_quiet s (enc_do a t)"
  by (rule enc_quiet_trans, assumption) (auto simp: enc_quiet_def intro!: exI [of _ "[a]"])

lemma enc_quiet_acts [simp]:
  "enc_quiet_act Enc_WaitInput" "enc_quiet_act Enc_FeedEos" "enc_quiet_act (Enc_Feed f)" "enc_quiet_act (Enc_AddRef p)"
  "enc_quiet_act (Enc_ReleaseRef p)" "enc_quiet_act (Enc_H2D p bs)" "enc_quiet_act (Enc_D2H p n)" "enc_quiet_act Enc_cncvCreate"
  "enc_quiet_act Enc_cnrtCreateQueue" "enc_quiet_act Enc_cncvSetQueue" "enc_quiet_act Enc_cncvDestroy"
  "enc_quiet_act Enc_cnrtDestroyQueue" "enc_quiet_act (Enc_RgbxToRgbx d p e q)" "enc_quiet_act Enc_SyncQueue"
  "enc_quiet_act (Enc_SetCaps c)" "enc_quiet_act (Enc_Push bs t)" "enc_quiet_act Enc_Push_Eos" "enc_quiet_act (Enc_Bus m)"
  "enc_quiet_act Enc_Map" "enc_quiet_act Enc_Unmap" "enc_quiet_act Enc_Unref"
  by (simp_all add: enc_quiet_act_def)

lemma enc_quiet_flags [simp]:
  "enc_quiet s (t\<lparr>c_dev := d\<rparr>) = enc_quiet s t" "enc_quiet s (t\<lparr>c_mach := m\<rparr>) = enc_quiet s t"
  "enc_quiet s (t\<lparr>c_tmp_rgb := x\<rparr>) = enc_quiet s t" "enc_quiet s (t\<lparr>c_workspace := x\<rparr>) = enc_quiet s t"
  "enc_quiet s (t\<lparr>c_handle := b\<rparr>) = enc_quiet s t" "enc_quiet s (t\<lparr>c_cnrt_queue := b\<rparr>) = enc_quiet s t"
  "enc_quiet s (t\<lparr>c_env_encode := b\<rparr>) = enc_quiet s t" "enc_quiet s (t\<lparr>c_env_output := b\<rparr>) = enc_quiet s t"
  "enc_quiet s (t\<lparr>c_send_eos := b\<rparr>) = enc_quiet s t" "enc_quiet s (t\<lparr>c_first_frame := b\<rparr>) = enc_quiet s t"
  "enc_quiet s (t\<lparr>c_frame_id := n\<rparr>) = enc_quiet s t" "enc_quiet s (t\<lparr>c_video_info := i\<rparr>) = enc_quiet s t"
  "enc_quiet s (t\<lparr>c_pixel_format := p\<rparr>) = enc_quiet s t" "enc_quiet s (t\<lparr>c_gst_state := g\<rparr>) = enc_quiet s t"
  "enc_quiet s (t\<lparr>c_mach := m, c_tmp_rgb := x\<rparr>) = enc_quiet s t" "enc_quiet s (t\<lparr>c_mach := m, c_workspace := x\<rparr>) = enc_quiet s t"
  by (rule enc_quiet_upd; simp)+

text \<open>A call that leaves the session alone whatever its outcome.\<close>

abbreviation enc_calm :: "GstCnvideoenc \<Rightarrow> (GstCnvideoenc, 'a) run \<Rightarrow> bool" where
  "enc_calm s \<equiv> ensures (enc_quiet s)"

lemma SAFECALL_calm [ensures_intros]:
  assumes "enc_quiet_act a" and "enc_quiet s t" and "\<And>u. enc_quiet s u \<Longrightarrow> enc_calm s (k u)"
  shows "enc_calm s (SAFECALL E a name val k t)"
  using assms by (simp add: SAFECALL_def Let_def enc_quiet_do)

lemma held_calm [ensures_intros]:
  "enc_quiet s t \<Longrightarrow> enc_calm s (on_tmp_rgb f t)" "enc_quiet s t \<Longrightarrow> enc_calm s (on_workspace f t)"
  "enc_quiet s t \<Longrightarrow> enc_calm s (enc_store_ptr tab i p t)"
  by (auto simp: on_tmp_rgb_def on_workspace_def enc_store_ptr_def ensures_lift intro!: ensures_lift_all split: prod.split)
    (auto simp: ensures_def split: outcome.split)

lemma enc_set_cnrt_env_calm [ensures_intros]: "enc_quiet s t \<Longrightarrow> enc_calm s (enc_set_cnrt_env E t)"
  unfolding enc_set_cnrt_env_def
  by (intro ensures_intros) (auto intro!: enc_quiet_do)

lemma enc_bind_once_calm [ensures_intros]:
  assumes "enc_quiet s t" and "\<And>u. enc_quiet s u \<Longrightarrow> enc_quiet s (f u)"
  shows "enc_calm s (enc_bind_once E b f t)"
  using assms unfolding enc_bind_once_def by (auto intro!: ensures_intros)

lemma enc_prepare_rgb_calm [ensures_intros]: "enc_quiet s t \<Longrightarrow> enc_calm s (enc_prepare_rgb E t)"
  unfolding enc_prepare_rgb_def enc_create_cncv_def enc_create_queue_def
  by (auto intro!: ensures_intros split: option.split)

lemma enc_h2d_calm [ensures_intros]: "enc_quiet s t \<Longrightarrow> enc_calm s (enc_h2d E p pl n t)"
  by (auto simp: enc_h2d_def Let_def intro!: ensures_intros enc_quiet_do)

lemma enc_copy_frame_calm [ensures_intros]: "enc_quiet s t \<Longrightarrow> enc_calm s (enc_copy_frame E l f t)"
  unfolding enc_copy_frame_def Let_def
  by (auto intro!: ensures_intros enc_quiet_do split: option.split)

lemma enc_rgb_calm [ensures_intros]:
  "enc_quiet s t \<Longrightarrow> enc_calm s (enc_rgb2rgba E l t)" "enc_quiet s t \<Longrightarrow> enc_calm s (enc_upload_rgb E f t)"
  unfolding enc_rgb2rgba_def Let_def enc_rgb_table_def enc_upload_rgb_def
  by (auto intro!: ensures_intros split: option.split)

lemma enc_feed_calm: "enc_quiet s t \<Longrightarrow> enc_quiet s (snd (enc_feed E i t))"
  by (auto simp: enc_feed_def Let_def intro!: enc_quiet_do)

lemma enc_encode_mapped_calm [ensures_intros]: "enc_quiet s t \<Longrightarrow> enc_calm s (enc_encode_mapped E f p t)"
  unfolding enc_encode_mapped_def enc_fill_input_def Let_def split_def
  by (auto intro!: ensures_intros enc_quiet_do enc_feed_calm)

lemma ScopeGuard_calm [ensures_intros]:
  "enc_calm s r \<Longrightarrow> (\<And>t. enc_quiet s t \<Longrightarrow> enc_quiet s (c t)) \<Longrightarrow> enc_calm s (ScopeGuard c r)"
  by (cases r) (auto simp: ScopeGuard_def)

lemma enc_chain_calm: "enc_calm s (gst_cnvideoenc_chain E b s)"
  unfolding gst_cnvideoenc_chain_def enc_encode_frame_def
  by (auto intro!: ensures_intros enc_quiet_do split: option.split)

lemma enc_feed_eos_quiet: "enc_quiet s (snd (enc_feed_eos E s))"
  by (auto simp: enc_feed_eos_def Let_def intro!: enc_quiet_do)

lemma enc_negotiate_calm: "enc_calm s (enc_negotiate c s)"
  unfolding enc_negotiate_def Let_def
  by (auto intro!: enc_quiet_do split: option.split)

lemma enc_inv_upd:
  assumes "c_encode t = c_encode s" and "c_loop t = c_loop s" and "c_trace t = c_trace s"
    and "c_got_eos s \<Longrightarrow> c_got_eos t"
  shows "enc_inv E s \<Longrightarrow> enc_inv E t"
  using assms by (auto simp: enc_inv_def)

lemma enc_inv_first [simp]: "enc_inv E (s\<lparr>c_first_frame := b\<rparr>) = enc_inv E s"
  by (simp add: enc_inv_def)

lemma enc_inv_do: "enc_quiet_act a \<Longrightarrow> enc_inv E s \<Longrightarrow> enc_inv E (enc_do a s)"
  by (rule enc_quiet_inv [OF enc_quiet_do]) simp_all

lemma enc_inv_eos: "enc_inv E s \<Longrightarrow> enc_inv E (enc_handle_eos s)"
  by (auto simp: enc_inv_def enc_handle_eos_def Let_def)

lemma enc_inv_abort: "enc_inv E s \<Longrightarrow> enc_inv E (enc_abort_encoder s)"
  by (auto simp: enc_inv_def enc_abort_encoder_def enc_handle_eos_def Let_def)

lemma enc_inv_dispatch: "enc_inv E s \<Longrightarrow> enc_inv E (enc_dispatch ver e s)"
  by (auto simp: enc_dispatch_def intro!: enc_inv_eos enc_inv_abort enc_inv_do)

lemma enc_inv_pop: "enc_inv E s \<Longrightarrow> enc_inv E (enc_pop s)"
  by (simp add: enc_inv_def enc_pop_def)

lemma enc_inv_rest: "enc_inv E s \<Longrightarrow> enc_inv E (enc_rest s)"
  by (simp add: enc_inv_def enc_rest_def joinable_def)

lemma enc_inv_runner: "enc_inv E s \<Longrightarrow> enc_inv E (enc_event_task_runner ver s)"
proof (induction ver s rule: enc_event_task_runner.induct)
  case (1 ver s)
  then show ?case
    by (subst enc_event_task_runner.simps) (auto intro: enc_inv_rest enc_inv_dispatch enc_inv_pop split: list.split)
qed

lemma enc_inv_run_loop: "enc_inv E s \<Longrightarrow> enc_inv E (enc_run_loop E s)"
  by (simp add: enc_run_loop_def enc_inv_runner)

lemma enc_inv_request: "enc_inv E s \<Longrightarrow> enc_inv E (enc_request_eos E s)"
  using enc_quiet_inv [OF enc_feed_eos_quiet] by (auto simp: enc_request_eos_def enc_inv_def)

lemma enc_inv_wait: "enc_inv E s \<Longrightarrow> enc_inv E (enc_wait_eos E es s)"
  unfolding enc_wait_eos_def fold_enc_handle_event
  by (rule enc_inv_run_loop) (simp add: enc_inv_def)

lemma enc_inv_finish: "enc_inv E s \<Longrightarrow> enc_inv E (enc_teardown E (enc_join E s)) \<and> c_loop (enc_teardown E (enc_join E s)) = No_Thread"
  using enc_inv_run_loop [of E s] by (auto simp: enc_inv_def enc_teardown_def enc_join_def Let_def)

text \<open>After a call that may close or open the encoder.\<close>

definition enc_closed :: "GstCnvideoenc \<Rightarrow> bool" where
  "enc_closed s \<longleftrightarrow> \<not> c_encode s \<and> c_loop s = No_Thread"

lemma enc_destroy_inv:
  assumes "enc_inv E s"
  shows "ensures (enc_inv E) (gst_cnvideoenc_destroy_encoder E es s)"
    and "gst_cnvideoenc_destroy_encoder E es s = Ret r t \<Longrightarrow> r \<and> enc_closed t"
  using enc_inv_request [OF assms] enc_inv_wait [OF enc_inv_request [OF assms], of es]
  by (auto simp: gst_cnvideoenc_destroy_encoder_def Let_def enc_closed_def enc_inv_finish split: if_splits)

lemma enc_open_inv:
  assumes "enc_inv E s"
  shows "ensures (enc_inv E) (enc_open E s)"
  using assms
  by (auto simp: enc_open_def Let_def enc_inv_def joinable_def enc_ret_def split: option.split)

lemma enc_init_inv: "enc_inv E s \<Longrightarrow> ensures (enc_inv E) (gst_cnvideoenc_init_encoder E s)"
  unfolding gst_cnvideoenc_init_encoder_def
  by (auto intro!: ensures_then ensures_mono [OF enc_set_cnrt_env_calm [OF enc_quiet_refl]]
      ensures_mono [OF enc_prepare_rgb_calm [OF enc_quiet_refl]] enc_open_inv elim: enc_quiet_inv)

lemma enc_set_caps_inv:
  assumes "enc_inv E s"
  shows "ensures (enc_inv E) (gst_cnvideoenc_set_caps E es c s)"
proof -
  have "ensures (enc_inv E) (enc_negotiate c s)"
    using enc_negotiate_calm by (rule ensures_mono) (rule enc_quiet_inv [OF _ assms])
  then show ?thesis unfolding gst_cnvideoenc_set_caps_def
    by (rule ensures_then) (auto intro!: ensures_then enc_destroy_inv(1) enc_init_inv)
qed

lemma enc_sink_event_inv: "enc_inv E s \<Longrightarrow> ensures (enc_inv E) (gst_cnvideoenc_sink_event E es ev s)"
  using enc_quiet_inv [OF enc_feed_eos_quiet] by (cases ev) (simp_all add: enc_set_caps_inv split_def Let_def)

lemma enc_change_state_inv: "enc_inv E s \<Longrightarrow> ensures (enc_inv E) (gst_cnvideoenc_change_state E es parent tr s)"
  unfolding gst_cnvideoenc_change_state_def by (auto intro!: ensures_then enc_destroy_inv(1))

lemma enc_output_inv:
  assumes "enc_inv E s"
  shows "ensures (enc_inv E) (enc_handle_output E p s)"
proof -
  have b: "ensures (enc_inv E) (enc_bind_once E (c_env_output s) (\<lambda>s. s\<lparr>c_env_output := True\<rparr>) s)"
    by (rule ensures_mono [OF enc_bind_once_calm [OF enc_quiet_refl]]) (auto elim: enc_quiet_inv [OF _ assms])
  show ?thesis unfolding enc_handle_output_def
  proof (rule ensures_then [OF b], goal_cases)
    case (1 ok t)
    let ?d = "enc_do (Enc_D2H (op_addr p + op_offset p) (unat (op_len p))) t"
    have d: "enc_inv E ?d" using 1 by (simp add: enc_inv_do)
    have st: "enc_quiet t (snd (enc_stamp E pts ?d))" for pts
      by (auto simp: enc_stamp_def intro!: enc_quiet_do)
    show ?case using 1 d enc_quiet_inv [OF st 1]
      by (auto simp: Let_def split_def intro!: enc_inv_abort enc_inv_do)
  qed
qed

lemma enc_callback_inv: "enc_inv E s \<Longrightarrow> ensures (enc_inv E) (enc_event_handler E c s)"
  by (cases c) (auto simp: enc_output_inv enc_handle_event_def enc_inv_def)

subsection \<open>The element's life\<close>

text \<open>
  What can happen to the element: its pads and state are driven by GStreamer, the codec calls
  back, the event thread pops one event or returns. A call may also leave by an exception of the
  device memory operations, which none of the callbacks catches.
\<close>

definition outcome_state :: "('e, 's, 'a) outcome \<Rightarrow> 's \<Rightarrow> bool" where
  "outcome_state r t = (case r of Ret a s \<Rightarrow> t = s | Exc e s \<Rightarrow> t = s | _ \<Rightarrow> False)"

lemma ensures_outcome: "ensures P r \<Longrightarrow> outcome_state r t \<Longrightarrow> P t"
  by (cases r) (auto simp: outcome_state_def)

inductive enc_step :: "enc_env \<Rightarrow> GstCnvideoenc \<Rightarrow> GstCnvideoenc \<Rightarrow> bool" for E :: enc_env where
  property: "enc_step E s (gst_cnvideoenc_set_property p s)"
| state: "enc_step E s (s\<lparr>c_gst_state := st\<rparr>)"
| chain: "outcome_state (gst_cnvideoenc_chain E b s) t \<Longrightarrow> enc_step E s t"
| event: "outcome_state (gst_cnvideoenc_sink_event E es ev s) t \<Longrightarrow> enc_step E s t"
| change: "outcome_state (gst_cnvideoenc_change_state E es parent tr s) t \<Longrightarrow> enc_step E s t"
| callback: "outcome_state (enc_event_handler E c s) t \<Longrightarrow> enc_step E s t"
| pop_event: "c_loop s = Looping \<Longrightarrow> c_queue s = e # q \<Longrightarrow> enc_step E s (enc_dispatch (n_ver E) e (enc_pop s))"
| loop_ends: "c_loop s = Looping \<Longrightarrow> c_queue s = [] \<Longrightarrow> c_got_eos s \<Longrightarrow> enc_step E s (s\<lparr>c_loop := Loop_Done\<rparr>)"

inductive enc_reach :: "enc_env \<Rightarrow> GstCnvideoenc \<Rightarrow> bool" for E :: enc_env where
  start: "enc_reach E (gst_cnvideoenc_init m dev)"
| step: "enc_reach E s \<Longrightarrow> enc_step E s t \<Longrightarrow> enc_reach E t"

lemma enc_set_property_inv: "enc_inv E s \<Longrightarrow> enc_inv E (gst_cnvideoenc_set_property p s)"
  by (cases p) (simp_all add: enc_inv_def upd_rc_def)

lemma enc_step_inv:
  assumes "enc_step E s t" and "enc_inv E s"
  shows "enc_inv E t"
  using assms(1)
proof cases
  case (property p) then show ?thesis using assms(2) by (simp add: enc_set_property_inv)
next
  case (state st) then show ?thesis using assms(2) by (simp add: enc_inv_def)
next
  case (chain b) then show ?thesis
    using ensures_outcome [OF enc_chain_calm] assms(2) by (blast intro: enc_quiet_inv)
next
  case (event es ev) then show ?thesis using ensures_outcome [OF enc_sink_event_inv [OF assms(2)]] by blast
next
  case (change es parent tr) then show ?thesis using ensures_outcome [OF enc_change_state_inv [OF assms(2)]] by blast
next
  case (callback c) then show ?thesis using ensures_outcome [OF enc_callback_inv [OF assms(2)]] by blast
next
  case (pop_event e q) then show ?thesis using assms(2) by (simp add: enc_inv_dispatch enc_inv_pop)
next
  case loop_ends then show ?thesis using assms(2) by (simp add: enc_inv_def joinable_def)
qed

lemma enc_reach_inv: "enc_reach E s \<Longrightarrow> enc_inv E s"
proof (induction rule: enc_reach.induct)
  case (start m dev)
  then show ?case by (simp add: enc_inv_def gst_cnvideoenc_init_def)
next
  case (step s t)
  then show ?case by (blast intro: enc_step_inv)
qed

text \<open>C11: In every reachable state of the encoder element, whatever GStreamer, the pictures and the
  codec do: an encoder handle is held only while its event thread exists, and that thread still
  runs unless the end of the stream was seen; and the encoders the codec library created and that
  were neither destroyed nor aborted are exactly the one in use, if any: no encoder leaks.\<close>

theorem enc_no_leak:
  assumes "enc_reach E s"
  shows "(c_encode s \<longrightarrow> joinable (c_loop s) \<and> (c_got_eos s \<or> c_loop s = Looping)) \<and>
     live_encoders (n_codec E) (c_trace s) = (if c_encode s then 1 else 0)"
  using enc_reach_inv [OF assms] by (simp add: enc_inv_def)

text \<open>Closing the encoder in a reachable state: \<open>destroy_encoder\<close> returns exactly if the end of the
  stream was seen before, or there is no handle, or the codec raises (among the events still queued
  or raised during the wait) an end of stream or an event that makes the event thread abort; in
  particular it waits for ever when feeding the end of stream fails and the codec raises nothing.
  When it returns, it returns TRUE and no handle and no thread is left.\<close>

theorem enc_destroy_returns:
  assumes "enc_reach E s"
  shows "((\<exists>u. gst_cnvideoenc_destroy_encoder E es s = Ret True u) \<longleftrightarrow>
       c_got_eos s \<or> \<not> c_encode s \<or> (\<exists>e\<in>set (c_queue s @ es). ends_session (n_ver E) e)) \<and>
     ((\<exists>u. gst_cnvideoenc_destroy_encoder E es s = Ret True u \<and> \<not> c_encode u \<and> c_loop u = No_Thread) \<or>
      (\<exists>u. gst_cnvideoenc_destroy_encoder E es s = Blocked u))"
proof -
  have inv: "enc_inv E s" using assms by (rule enc_reach_inv)
  have b: "enc_begin_close E s = Some (enc_request_eos E s)" by (simp add: enc_begin_close_def)
  have alive: "c_got_eos s \<or> \<not> c_encode s \<or> c_loop s = Looping" using inv by (auto simp: enc_inv_def)
  from enc.close_returns_iff [OF b alive, where es = es] enc.close_returns_or_blocks [OF b, where es = es]
    enc_destroy_inv(2) [OF inv, of es True]
  show ?thesis by (auto simp: enc_closed_def)
qed

lemma enc_set_caps_opened:
  assumes "gst_cnvideoenc_set_caps E es c s = Ret True t"
  shows "c_encode t \<and> c_loop t = Looping"
  using assms
  by (auto simp: gst_cnvideoenc_set_caps_def gst_cnvideoenc_init_encoder_def enc_open_def call_then_Ret_iff Let_def
      split: if_splits option.splits)

definition enc_over :: "GstCnvideoenc \<Rightarrow> bool" where
  "enc_over s \<longleftrightarrow> c_got_eos s \<and> c_queue s = []"

lemma enc_over_quiet: "enc_over s \<Longrightarrow> enc_quiet s t \<Longrightarrow> enc_over t"
  by (simp add: enc_over_def enc_quiet_def)

lemma enc_over_close:
  assumes "enc_over s"
  shows "gst_cnvideoenc_destroy_encoder E es s = Ret True (enc_teardown E (enc_join E s))" and "enc_over (enc_join E s)"
    and "c_trace (enc_join E s) = c_trace s" and "c_encode (enc_join E s) = c_encode s"
proof -
  have "enc_run_loop E s = s \<or> enc_run_loop E s = enc_rest s"
    using assms by (auto simp: enc_run_loop_def enc_over_def enc_event_task_runner.simps [of _ s])
  then show "enc_over (enc_join E s)" "c_trace (enc_join E s) = c_trace s" "c_encode (enc_join E s) = c_encode s"
    using assms by (auto simp: enc_join_def enc_over_def enc_rest_def)
  show "gst_cnvideoenc_destroy_encoder E es s = Ret True (enc_teardown E (enc_join E s))"
    using assms by (simp add: gst_cnvideoenc_destroy_encoder_def enc_request_eos_def enc_over_def)
qed

lemma enc_over_teardown: "enc_over s \<Longrightarrow> enc_over (enc_teardown E s)"
  by (simp add: enc_over_def enc_teardown_def Let_def)

lemma enc_over_set_caps:
  assumes "enc_over s"
  shows "ensures enc_over (gst_cnvideoenc_set_caps E es c s)"
proof -
  have open_over: "enc_over t \<Longrightarrow> ensures enc_over (enc_open E t)" for t
    by (auto simp: enc_open_def Let_def enc_over_def split: option.split)
  have init: "enc_over t \<Longrightarrow> ensures enc_over (gst_cnvideoenc_init_encoder E t)" for t
    unfolding gst_cnvideoenc_init_encoder_def
    by (auto intro!: ensures_then open_over ensures_mono [OF enc_set_cnrt_env_calm [OF enc_quiet_refl]]
        ensures_mono [OF enc_prepare_rgb_calm [OF enc_quiet_refl]] elim: enc_over_quiet)
  have close: "enc_over t \<Longrightarrow> ensures enc_over (gst_cnvideoenc_destroy_encoder E es t)" for t
    using enc_over_close(1,2) enc_over_teardown by simp
  show ?thesis unfolding gst_cnvideoenc_set_caps_def
    by (rule ensures_then [OF ensures_mono [OF enc_negotiate_calm]])
      (auto intro!: ensures_then init close elim: enc_over_quiet [OF assms])
qed

text \<open>The flags of a session are never reset: once the end of a stream was seen and its events were
  worked off, an encoder opened on new caps starts as if its stream had ended already. Its event
  thread returns at once, and closing it neither feeds an end of stream nor waits for one: the
  encoder is destroyed with what it has not put out yet, whatever events it would still raise.\<close>

theorem enc_second_session:
  assumes "c_got_eos s" and "c_queue s = []" and "gst_cnvideoenc_set_caps E es c s = Ret True t"
  shows "c_encode t \<and> c_loop (enc_event_task_runner (n_ver E) t) = Loop_Done \<and>
    (\<exists>u. gst_cnvideoenc_destroy_encoder E es' t = Ret True u \<and> \<not> c_encode u \<and>
       (c_trace u = Enc_Destroy # c_trace t \<or> c_trace u = Enc_Bus ''Encoder destroy failed'' # Enc_Destroy # c_trace t))"
proof -
  have "enc_over s" using assms(1,2) by (simp add: enc_over_def)
  from ensures_RetD [OF enc_over_set_caps [OF this] assms(3)] have over: "enc_over t" .
  note opened = enc_set_caps_opened [OF assms(3)]
  have "enc_event_task_runner (n_ver E) t = enc_rest t"
    using over by (simp add: enc_event_task_runner.simps [of _ t] enc_over_def)
  moreover have "c_trace (enc_teardown E (enc_join E t)) = Enc_Destroy # c_trace t \<or>
      c_trace (enc_teardown E (enc_join E t)) = Enc_Bus ''Encoder destroy failed'' # Enc_Destroy # c_trace t"
    using enc_over_close(3,4) [OF over] opened by (simp add: enc_teardown_def Let_def)
  ultimately show ?thesis using enc_over_close(1) [OF over] opened over by (simp add: enc_rest_def enc_over_def)
qed

text \<open>A failed opening leaves the event thread without an encoder. Opening again on new caps, or
  destroying the element, then terminates the program, since the thread object is joinable; leaving
  the paused state first joins it, whatever the codec does, and the flag that remembers the end of
  a stream stays set from then on.\<close>

theorem enc_failed_open:
  assumes "enc_reach E s" and "enc_open E s = Ret False t" and "parent \<noteq> STATE_CHANGE_FAILURE"
  shows "enc_open E t = Terminate \<and> gst_cnvideoenc_finalize E t = Terminate \<and>
    (\<exists>u. gst_cnvideoenc_change_state E es parent PAUSED_TO_READY t = Ret parent u \<and>
       c_loop u = No_Thread \<and> \<not> c_encode u \<and> c_got_eos u)"
proof -
  have inv: "enc_inv E s" using assms(1) by (rule enc_reach_inv)
  from assms(2) inv have t: "\<not> c_encode t" "c_loop t = Looping"
    by (auto simp: enc_open_def Let_def enc_inv_def split: if_splits option.splits)
  define u where "u = enc_teardown E (enc_join E (enc_request_eos E t))"
  have got: "c_got_eos (enc_join E (enc_request_eos E t))"
    using t enc.runner_keeps_got [of "enc_request_eos E t" E] by (simp add: enc_join_def enc_run_loop_def)
  have "gst_cnvideoenc_destroy_encoder E es t = Ret True u"
    using t by (simp add: gst_cnvideoenc_destroy_encoder_def u_def)
  moreover have "c_got_eos u" "c_loop u = No_Thread" "\<not> c_encode u"
    using got by (simp_all add: u_def enc_teardown_def enc_join_def Let_def)
  moreover have "joinable (c_loop t)" using t by (simp add: joinable_def)
  ultimately show ?thesis using assms(3)
    by (auto simp: enc_open_def gst_cnvideoenc_finalize_def gst_cnvideoenc_change_state_def)
qed

end
