(* ===== verification/Enc_Frames.thy ===== *)
theory Enc_Frames
  imports Cnvideo_Enc
begin

text \<open>
  What cnvideo_enc hands to the codec: the parameters of a new encoder, the pictures it copies or
  converts, and the time stamps of what comes out.
\<close>

subsection \<open>Properties of the element\<close>

definition enc_choices :: "GstCnvideoenc \<Rightarrow> bool" where
  "enc_choices s \<longleftrightarrow> (c_codec_type s = CNCODEC_H264 \<or> c_codec_type s = CNCODEC_HEVC) \<and>
     c_video_profile s \<in> fst ` set video_profile_values \<and> c_video_level s \<in> fst ` set video_level_values"

lemma enc_choices_init: "enc_choices (gst_cnvideoenc_init m dev)"
  by (simp add: enc_choices_def gst_cnvideoenc_init_def video_profile_values_def video_level_values_def)

lemma enc_choices_set: "enc_property_range p \<Longrightarrow> enc_choices s \<Longrightarrow> enc_choices (gst_cnvideoenc_set_property p s)"
  by (cases p) (simp_all add: enc_choices_def upd_rc_def)

lemma enc_choices_fold:
  "list_all enc_property_range ps \<Longrightarrow> enc_choices s \<Longrightarrow> enc_choices (fold gst_cnvideoenc_set_property ps s)"
  by (induction ps arbitrary: s) (simp_all add: enc_choices_set)

lemma enc_choices_tables: "enc_choices s \<Longrightarrow> (\<exists>c. enc_source_caps s = Some c) \<and> (\<exists>p. enc_params E s = Some p)"
  using profile_lookup [of "c_video_profile s"] level_lookup [of "c_video_level s"]
  by (auto simp: enc_choices_def enc_source_caps_def enc_params_def Let_def)

text \<open>C12: An element whose properties were set to any values of their declared types always finds the
  caps of its stream and the parameters of its codec: no profile or level that can be chosen is
  missing from the tables, so the handlers for \<open>std::out_of_range\<close> and for an unsupported codec are
  never entered.\<close>

theorem enc_tables_total:
  assumes "list_all enc_property_range ps"
  shows "(\<exists>c. enc_source_caps (fold gst_cnvideoenc_set_property ps (gst_cnvideoenc_init m dev)) = Some c) \<and>
    (\<exists>p. enc_params E (fold gst_cnvideoenc_set_property ps (gst_cnvideoenc_init m dev)) = Some p)"
  by (rule enc_choices_tables) (rule enc_choices_fold [OF assms enc_choices_init])

subsection \<open>A concrete environment\<close>

fun demo_prof :: "cnvideoEncProfile \<Rightarrow> int" where
  "demo_prof CNVIDEOENC_PROFILE_H264_BASELINE = 0"
| "demo_prof CNVIDEOENC_PROFILE_H264_MAIN = 1"
| "demo_prof CNVIDEOENC_PROFILE_H264_HIGH = 2"
| "demo_prof CNVIDEOENC_PROFILE_H264_HIGH_10 = 3"
| "demo_prof CNVIDEOENC_PROFILE_H265_MAIN = 4"
| "demo_prof CNVIDEOENC_PROFILE_H265_MAIN_STILL = 5"
| "demo_prof CNVIDEOENC_PROFILE_H265_MAIN_INTRA = 6"
| "demo_prof CNVIDEOENC_PROFILE_H265_MAIN_10 = 7"

definition h264_profiles :: "cnvideoEncProfile list" where
  "h264_profiles = [CNVIDEOENC_PROFILE_H264_BASELINE, CNVIDEOENC_PROFILE_H264_MAIN, CNVIDEOENC_PROFILE_H264_HIGH, CNVIDEOENC_PROFILE_H264_HIGH_10]"

definition h264_levels :: "cnvideoEncLevel list" where
  "h264_levels = [CNVIDEOENC_LEVEL_H264_1, CNVIDEOENC_LEVEL_H264_1B, CNVIDEOENC_LEVEL_H264_11, CNVIDEOENC_LEVEL_H264_12,
     CNVIDEOENC_LEVEL_H264_13, CNVIDEOENC_LEVEL_H264_2, CNVIDEOENC_LEVEL_H264_21, CNVIDEOENC_LEVEL_H264_22,
     CNVIDEOENC_LEVEL_H264_3, CNVIDEOENC_LEVEL_H264_31, CNVIDEOENC_LEVEL_H264_32, CNVIDEOENC_LEVEL_H264_4,
     CNVIDEOENC_LEVEL_H264_41, CNVIDEOENC_LEVEL_H264_42, CNVIDEOENC_LEVEL_H264_5, CNVIDEOENC_LEVEL_H264_51]"

definition demo_level :: "cnvideoEncLevel \<Rightarrow> int" where
  "demo_level l = (if l \<in> set h264_levels then 0 else 1)"

text \<open>
  The library numbers its H.264 constants up to high-10 and level 5.1, and its H.265 constants
  above them, beginning with main and main level 1.
\<close>

definition codec_numbering :: "(cnvideoEncProfile \<Rightarrow> int) \<Rightarrow> (cnvideoEncLevel \<Rightarrow> int) \<Rightarrow> bool" where
  "codec_numbering np nl \<longleftrightarrow>
     (\<forall>p. p \<in> set h264_profiles \<longleftrightarrow> np p \<le> np CNVIDEOENC_PROFILE_H264_HIGH_10) \<and>
     (\<forall>p. p \<notin> set h264_profiles \<longleftrightarrow> np CNVIDEOENC_PROFILE_H265_MAIN \<le> np p) \<and>
     (\<forall>l. l \<in> set h264_levels \<longleftrightarrow> nl l \<le> nl CNVIDEOENC_LEVEL_H264_51) \<and>
     (\<forall>l. l \<notin> set h264_levels \<longleftrightarrow> nl CNVIDEOENC_LEVEL_H265_MAIN_1 \<le> nl l)"

definition demo_enc_env :: enc_env where
  "demo_enc_env = \<lparr>n_ver = 10600, n_major = 5, n_dev = ref_dev_lib, n_codec = (\<lambda>_. CNCODEC_SUCCESS), n_lent = (\<lambda>_. [100, 101, 102]),
     n_ok = (\<lambda>_. True), n_h2d = (\<lambda>_. CNRT_RET_SUCCESS), n_rt = ref_cnrt (\<lambda>m. if dmem m 1 = None then 1 else 2),
     n_bits = (\<lambda>p n. replicate n 0), n_prof = demo_prof, n_level = demo_level,
     n_pts = (\<lambda>i n d. word_of_int (uint i * 1000000000 * d div n))\<rparr>"

definition demo_enc0 :: GstCnvideoenc where
  "demo_enc0 = gst_cnvideoenc_init demo_mach ref_dev_state"

definition demo_enc_info :: "GstVideoFormat \<Rightarrow> GstVideoInfo" where
  "demo_enc_info f = \<lparr>vi_format = f, vi_interlace = GST_VIDEO_INTERLACE_MODE_PROGRESSIVE,
     vi_width = 2, vi_height = 2, vi_fps_n = 0, vi_fps_d = 1, vi_stride = [4, 4]\<rparr>"

definition demo_enc_caps :: "GstVideoFormat \<Rightarrow> enc_caps" where
  "demo_enc_caps f = \<lparr>ec_info = Some (demo_enc_info f), ec_peer_any = False, ec_peer_empty = False, ec_set_ok = True\<rparr>"

lemma demo_enc_info_sel [simp]:
  "vi_format (demo_enc_info f) = f" "vi_width (demo_enc_info f) = 2" "vi_height (demo_enc_info f) = 2"
  by (simp_all add: demo_enc_info_def)

lemma demo_enc_env_sel [simp]:
  "n_codec demo_enc_env tr = CNCODEC_SUCCESS" "n_ver demo_enc_env = 10600" "n_ok demo_enc_env tr = True"
  "n_h2d demo_enc_env tr = CNRT_RET_SUCCESS" "n_lent demo_enc_env tr = [100, 101, 102]"
  "n_prof demo_enc_env = demo_prof" "n_level demo_enc_env = demo_level"
  "enc_set_cnrt_env demo_enc_env s =
     Ret True (s\<lparr>c_dev := (c_dev s)\<lparr>dev_trace := Call_cnrtSetDevice (c_device_id s) # dev_trace (c_dev s)\<rparr>\<rparr>)"
  by (simp_all add: demo_enc_env_def enc_set_cnrt_env_def)

theorem enc_tables_total_witness:
  "\<exists>p. enc_params demo_enc_env (gst_cnvideoenc_set_property (EP_VIDEO_LEVEL GST_VL_H265_HIGH_62)
     (gst_cnvideoenc_set_property (EP_CODEC_TYPE CNCODEC_HEVC) demo_enc0)) = Some p"
  using enc_tables_total [of "[EP_CODEC_TYPE CNCODEC_HEVC, EP_VIDEO_LEVEL GST_VL_H265_HIGH_62]"]
  by (simp add: demo_enc0_def video_level_values_def)

text \<open>C13: Whatever profile and level were chosen, the encoder is created with constants of its own codec:
  an H.264 encoder gets an H.264 profile and level, an H.265 encoder an H.265 profile and level,
  provided the library numbers the H.264 constants below the H.265 ones.\<close>

theorem enc_codec_match:
  assumes "codec_numbering (n_prof E) (n_level E)" and "enc_params E s = Some p"
  shows "(ei_codec p = CNCODEC_H264 \<and> ei_profile p \<in> set h264_profiles \<and> ei_level p \<in> set h264_levels) \<or>
    (ei_codec p = CNCODEC_HEVC \<and> ei_profile p \<notin> set h264_profiles \<and> ei_level p \<notin> set h264_levels)"
proof -
  have mem: "CNVIDEOENC_PROFILE_H264_HIGH \<in> set h264_profiles" "CNVIDEOENC_PROFILE_H265_MAIN \<notin> set h264_profiles"
    "CNVIDEOENC_LEVEL_H264_41 \<in> set h264_levels" "CNVIDEOENC_LEVEL_H265_HIGH_41 \<notin> set h264_levels"
    by (simp_all add: h264_profiles_def h264_levels_def)
  have num: "p \<in> set h264_profiles \<longleftrightarrow> n_prof E p \<le> n_prof E CNVIDEOENC_PROFILE_H264_HIGH_10"
    "p \<notin> set h264_profiles \<longleftrightarrow> n_prof E CNVIDEOENC_PROFILE_H265_MAIN \<le> n_prof E p"
    "l \<in> set h264_levels \<longleftrightarrow> n_level E l \<le> n_level E CNVIDEOENC_LEVEL_H264_51"
    "l \<notin> set h264_levels \<longleftrightarrow> n_level E CNVIDEOENC_LEVEL_H265_MAIN_1 \<le> n_level E l" for p l
    using assms(1) unfolding codec_numbering_def by blast+
  have h264: "enc_h264_profile E q \<in> set h264_profiles" "enc_h264_level E l \<in> set h264_levels" for q l
    using mem num(1) [of q] num(3) [of l] by (simp_all add: enc_h264_profile_def enc_h264_level_def not_less)
  have h265: "enc_h265_profile E q \<notin> set h264_profiles" "enc_h265_level E l \<notin> set h264_levels" for q l
    using mem num(2) [of q] num(4) [of l] by (simp_all add: enc_h265_profile_def enc_h265_level_def not_less)
  from assms(2) show ?thesis using h264 h265
    by (auto simp: enc_params_def split: option.splits if_splits prod.splits)
qed

lemma demo_codec_numbering: "codec_numbering demo_prof demo_level"
proof -
  have p: "p \<in> set h264_profiles \<longleftrightarrow> demo_prof p \<le> 3" "p \<notin> set h264_profiles \<longleftrightarrow> 4 \<le> demo_prof p" for p
    by (cases p; simp add: h264_profiles_def)+
  have "CNVIDEOENC_LEVEL_H264_51 \<in> set h264_levels" "CNVIDEOENC_LEVEL_H265_MAIN_1 \<notin> set h264_levels"
    by (simp_all add: h264_levels_def)
  with p show ?thesis by (auto simp: codec_numbering_def demo_level_def)
qed

theorem enc_codec_match_witness:
  "\<exists>p. enc_params demo_enc_env (demo_enc0\<lparr>c_video_level := GST_VL_H265_HIGH_62\<rparr>) = Some p \<and> ei_level p \<in> set h264_levels"
proof -
  have "enc_choices (demo_enc0\<lparr>c_video_level := GST_VL_H265_HIGH_62\<rparr>)"
    by (simp add: enc_choices_def demo_enc0_def gst_cnvideoenc_init_def video_profile_values_def video_level_values_def)
  from enc_choices_tables [OF this, of demo_enc_env] obtain p where
    p: "enc_params demo_enc_env (demo_enc0\<lparr>c_video_level := GST_VL_H265_HIGH_62\<rparr>) = Some p" by blast
  then have "ei_codec p = CNCODEC_H264"
    by (auto simp: enc_params_def demo_enc0_def gst_cnvideoenc_init_def split: option.splits if_splits prod.splits)
  with enc_codec_match [of demo_enc_env, OF _ p] demo_codec_numbering have "ei_level p \<in> set h264_levels" by simp
  with p show ?thesis by blast
qed

subsection \<open>Accepted caps\<close>

text \<open>What caps and properties fix; opening and closing do not change it.\<close>

definition enc_config :: "GstCnvideoenc \<Rightarrow> GstVideoInfo \<times> cncodecPixelFormat \<times> cncodecType \<times> GstVideoProfile \<times> GstVideoLevel \<times>
    int \<times> u32 \<times> u32 \<times> cnvideoEncRateCtrl \<times> u32 \<times> u32 \<times> cnvideoEncGopType" where
  "enc_config s = (c_video_info s, c_pixel_format s, c_codec_type s, c_video_profile s, c_video_level s,
     c_device_id s, c_input_buffer_num s, c_output_buffer_num s, c_rate_control s, c_i_frame_interval s, c_b_frame_num s, c_gop_type s)"

lemma enc_config_params: "enc_config t = enc_config s \<Longrightarrow> enc_params E t = enc_params E s"
  by (simp add: enc_config_def enc_params_def cong: if_cong option.case_cong)

lemma enc_config_simps [simp]:
  "enc_config (enc_do a s) = enc_config s" "enc_config (s\<lparr>c_got_eos := b\<rparr>) = enc_config s"
  "enc_config (s\<lparr>c_send_eos := b\<rparr>) = enc_config s" "enc_config (s\<lparr>c_loop := l\<rparr>) = enc_config s"
  "enc_config (s\<lparr>c_encode := b\<rparr>) = enc_config s" "enc_config (s\<lparr>c_queue := q\<rparr>) = enc_config s"
  "enc_config (s\<lparr>c_handle := b\<rparr>) = enc_config s" "enc_config (s\<lparr>c_cnrt_queue := b\<rparr>) = enc_config s"
  "enc_config (s\<lparr>c_dev := d\<rparr>) = enc_config s" "enc_config (s\<lparr>c_mach := m, c_tmp_rgb := x\<rparr>) = enc_config s"
  by (simp_all add: enc_config_def enc_do_def)

lemma enc_config_runner: "enc_config (enc_event_task_runner ver s) = enc_config s"
proof (induction ver s rule: enc_event_task_runner.induct)
  case (1 ver s)
  have "enc_config (enc_dispatch ver e t) = enc_config t" for e t
    by (simp add: enc_dispatch_def enc_abort_encoder_def enc_handle_eos_def Let_def)
  with 1 show ?case
    by (subst enc_event_task_runner.simps) (simp add: enc_rest_def enc_pop_def split: list.split)
qed

lemma enc_config_close:
  "ensures (\<lambda>t. enc_config t = enc_config s) (gst_cnvideoenc_destroy_encoder E es s)"
proof -
  have run: "enc_config (enc_run_loop E t) = enc_config t" for t by (simp add: enc_run_loop_def enc_config_runner)
  have "enc_config (enc_wait_eos E es t) = enc_config t" "enc_config (enc_join E t) = enc_config t"
    "enc_config (enc_teardown E t) = enc_config t" "enc_config (enc_request_eos E t) = enc_config t" for t
    by (simp_all add: enc_wait_eos_def enc_join_def run fold_enc_handle_event enc_teardown_def enc_request_eos_def
        enc_feed_eos_def Let_def)
  then show ?thesis by (simp add: gst_cnvideoenc_destroy_encoder_def Let_def)
qed

lemma enc_config_SAFECALL [ensures_intros]:
  "enc_config t = c \<Longrightarrow> (\<And>u. enc_config u = c \<Longrightarrow> ensures (\<lambda>t. enc_config t = c) (k u)) \<Longrightarrow>
   ensures (\<lambda>t. enc_config t = c) (SAFECALL E a name val k t)"
  by (simp add: SAFECALL_def Let_def)

lemma enc_config_prepare: "enc_config t = c \<Longrightarrow> ensures (\<lambda>t. enc_config t = c) (enc_prepare_rgb E t)"
  unfolding enc_prepare_rgb_def enc_create_cncv_def enc_create_queue_def on_tmp_rgb_def
  by (auto intro!: ensures_intros split: option.split)

lemma enc_config_bind: "enc_config t = c \<Longrightarrow> ensures (\<lambda>t. enc_config t = c) (enc_set_cnrt_env E t)"
  unfolding enc_set_cnrt_env_def by (auto intro!: ensures_intros)

lemma enc_open_Ret:
  assumes "enc_open E s = Ret True t"
  obtains p where "enc_params E s = Some p" and "hd (c_trace t) = Enc_Create p"
proof -
  have "enc_params E (s\<lparr>c_loop := Looping, c_first_frame := True\<rparr>) = enc_params E s"
    by (rule enc_config_params) (simp add: enc_config_def)
  with assms show thesis
    by (auto simp: enc_open_def Let_def intro!: that split: if_splits option.splits)
qed

lemma enc_init_Ret:
  assumes "gst_cnvideoenc_init_encoder E s = Ret True t"
  shows "\<exists>p. enc_params E s = Some p \<and> hd (c_trace t) = Enc_Create p"
proof -
  from assms obtain u v where u: "enc_set_cnrt_env E s = Ret True u" and v: "enc_prepare_rgb E u = Ret True v"
    and t: "enc_open E v = Ret True t"
    by (auto simp: gst_cnvideoenc_init_encoder_def call_then_Ret_iff split: if_splits)
  have "enc_config v = enc_config s"
    using ensures_RetD [OF enc_config_bind [OF refl] u] ensures_RetD [OF enc_config_prepare [OF refl] v] by simp
  from enc_config_params [OF this] enc_open_Ret [OF t] show ?thesis by metis
qed

lemma enc_negotiate_Ret:
  assumes "enc_negotiate c s = Ret True u"
  shows "\<exists>i. ec_info c = Some i \<and> vi_width i * vi_height i \<noteq> 0 \<and> pixel_format_cast (vi_format i) \<noteq> CNCODEC_PIX_FMT_RAW \<and>
    enc_config u = enc_config (s\<lparr>c_video_info := enc_default_fps i, c_pixel_format := pixel_format_cast (vi_format i)\<rparr>)"
  using assms
  by (auto simp: enc_negotiate_def Let_def gint_mult_Some enc_config_def enc_do_def split: option.splits if_splits)

text \<open>When \<open>set_caps\<close> answers TRUE, the last thing it did is to create an encoder with exactly the
  parameters that the caps (size, format, frame rate, 30000/1001 standing in for a missing one) and
  the properties give; the caps were those of a picture that is not empty, in a format the codec
  takes, the encoder is held and its event thread runs.\<close>

theorem enc_set_caps_opens:
  assumes "gst_cnvideoenc_set_caps E es c s = Ret True t"
  shows "\<exists>i p. ec_info c = Some i \<and>
    enc_params E (s\<lparr>c_video_info := enc_default_fps i, c_pixel_format := pixel_format_cast (vi_format i)\<rparr>) = Some p \<and>
    hd (c_trace t) = Enc_Create p \<and> c_encode t \<and> c_loop t = Looping \<and>
    ei_width p = vi_width i \<and> ei_height p = vi_height i \<and> ei_width p * ei_height p \<noteq> 0 \<and>
    ei_pixelFmt p = pixel_format_cast (vi_format i) \<and> ei_pixelFmt p \<noteq> CNCODEC_PIX_FMT_RAW \<and>
    ei_fpsNumerator p \<noteq> 0 \<and> ei_fpsDenominator p \<noteq> 0"
proof -
  from assms obtain u v where u: "enc_negotiate c s = Ret True u"
    and v: "(if c_encode u then gst_cnvideoenc_destroy_encoder E es u else Ret True u) = Ret True v"
    and t: "gst_cnvideoenc_init_encoder E v = Ret True t"
    by (auto simp: gst_cnvideoenc_set_caps_def call_then_Ret_iff split: if_splits)
  from enc_negotiate_Ret [OF u] obtain i where i: "ec_info c = Some i" "vi_width i * vi_height i \<noteq> 0"
    "pixel_format_cast (vi_format i) \<noteq> CNCODEC_PIX_FMT_RAW"
    "enc_config u = enc_config (s\<lparr>c_video_info := enc_default_fps i, c_pixel_format := pixel_format_cast (vi_format i)\<rparr>)" by blast
  have "enc_config v = enc_config u" using v ensures_RetD [OF enc_config_close [of u E es]] by (auto split: if_splits)
  from enc_config_params [OF this [unfolded i(4)]] enc_init_Ret [OF t] obtain p where
    p: "enc_params E (s\<lparr>c_video_info := enc_default_fps i, c_pixel_format := pixel_format_cast (vi_format i)\<rparr>) = Some p"
    "hd (c_trace t) = Enc_Create p" by auto
  have "ei_width p = vi_width i \<and> ei_height p = vi_height i \<and> ei_pixelFmt p = pixel_format_cast (vi_format i) \<and>
      ei_fpsNumerator p \<noteq> 0 \<and> ei_fpsDenominator p \<noteq> 0"
    using p(1) by (auto simp: enc_params_def enc_default_fps_def split: option.splits if_splits prod.splits)
  with i p enc_set_caps_opened [OF assms] show ?thesis by auto
qed

lemma demo_enc_opens: "\<exists>t. gst_cnvideoenc_set_caps demo_enc_env [] (demo_enc_caps GST_VIDEO_FORMAT_NV12) (demo_enc0\<lparr>c_got_eos := b\<rparr>) = Ret True t"
proof -
  let ?z = "demo_enc0\<lparr>c_got_eos := b\<rparr>"
  let ?s = "?z\<lparr>c_pixel_format := CNCODEC_PIX_FMT_NV12, c_video_info := enc_default_fps (demo_enc_info GST_VIDEO_FORMAT_NV12)\<rparr>"
  have "enc_choices ?s"
    by (simp add: enc_choices_def demo_enc0_def gst_cnvideoenc_init_def video_profile_values_def video_level_values_def)
  then obtain x where x: "enc_source_caps ?s = Some x" using enc_choices_tables by blast
  let ?u = "enc_do (Enc_SetCaps x) ?s"
  have neg: "enc_negotiate (demo_enc_caps GST_VIDEO_FORMAT_NV12) ?z = Ret True ?u"
    using x by (simp add: enc_negotiate_def Let_def demo_enc_caps_def gint_mult_def pixel_format_cast_def)
  have st: "\<not> c_encode demo_enc0" "c_loop demo_enc0 = No_Thread" by (simp_all add: demo_enc0_def gst_cnvideoenc_init_def)
  let ?v = "?u\<lparr>c_dev := (c_dev ?u)\<lparr>dev_trace := Call_cnrtSetDevice (c_device_id ?u) # dev_trace (c_dev ?u)\<rparr>\<rparr>"
  have prep: "enc_prepare_rgb demo_enc_env ?v = Ret True ?v"
    by (simp add: enc_prepare_rgb_def is_rgb24_def enc_do_def enc_default_fps_def)
  have "\<exists>p. enc_params demo_enc_env (?v\<lparr>c_loop := Looping, c_first_frame := True\<rparr>) = Some p"
    by (rule enc_choices_tables [THEN conjunct2])
      (simp add: enc_choices_def enc_do_def demo_enc0_def gst_cnvideoenc_init_def video_profile_values_def video_level_values_def)
  then have "\<exists>t. enc_open demo_enc_env ?v = Ret True t"
    using st by (auto simp: enc_open_def Let_def joinable_def enc_ret_def enc_do_def)
  then show ?thesis
    using neg st prep by (simp add: gst_cnvideoenc_set_caps_def gst_cnvideoenc_init_encoder_def)
qed

lemma demo_enc0_flags: "demo_enc0\<lparr>c_got_eos := False\<rparr> = demo_enc0"
  by (simp add: demo_enc0_def gst_cnvideoenc_init_def)

theorem enc_set_caps_opens_witness:
  "\<exists>t p. gst_cnvideoenc_set_caps demo_enc_env [] (demo_enc_caps GST_VIDEO_FORMAT_NV12) demo_enc0 = Ret True t \<and>
     hd (c_trace t) = Enc_Create p \<and> ei_fpsNumerator p = 30000"
proof -
  obtain t where t: "gst_cnvideoenc_set_caps demo_enc_env [] (demo_enc_caps GST_VIDEO_FORMAT_NV12) demo_enc0 = Ret True t"
    using demo_enc_opens [of False] demo_enc0_flags by auto
  from enc_set_caps_opens [OF t] obtain i p where ip: "ec_info (demo_enc_caps GST_VIDEO_FORMAT_NV12) = Some i" "hd (c_trace t) = Enc_Create p"
    "enc_params demo_enc_env (demo_enc0\<lparr>c_video_info := enc_default_fps i, c_pixel_format := pixel_format_cast (vi_format i)\<rparr>) = Some p"
    by blast
  have "ei_fpsNumerator p = 30000"
    using ip(1,3) by (auto simp: enc_params_def demo_enc_caps_def demo_enc_info_def enc_default_fps_def
        split: option.splits if_splits prod.splits)
  with t ip(2) show ?thesis by blast
qed

subsection \<open>The session's properties on a concrete run\<close>

definition demo_enc1 :: GstCnvideoenc where
  "demo_enc1 = (case gst_cnvideoenc_set_caps demo_enc_env [] (demo_enc_caps GST_VIDEO_FORMAT_NV12) demo_enc0 of Ret _ t \<Rightarrow> t | _ \<Rightarrow> demo_enc0)"

lemma demo_enc1: "gst_cnvideoenc_set_caps demo_enc_env [] (demo_enc_caps GST_VIDEO_FORMAT_NV12) demo_enc0 = Ret True demo_enc1"
  using demo_enc_opens [of False] by (auto simp: demo_enc0_flags demo_enc1_def)

lemma demo_enc1_reach: "enc_reach demo_enc_env demo_enc1"
proof -
  have "enc_step demo_enc_env demo_enc0 demo_enc1"
    using demo_enc1 by (intro enc_step.event [of _ "[]" "ENC_EVENT_CAPS (demo_enc_caps GST_VIDEO_FORMAT_NV12)"]) (simp add: outcome_state_def)
  then show ?thesis using enc_reach.start [of demo_enc_env demo_mach ref_dev_state]
    by (simp add: demo_enc0_def enc_reach.step)
qed

theorem enc_no_leak_witness: "live_encoders (n_codec demo_enc_env) (c_trace demo_enc1) = 1"
  using enc_no_leak [OF demo_enc1_reach] enc_set_caps_opened [OF demo_enc1] by simp

theorem enc_destroy_returns_witness:
  "\<exists>u. gst_cnvideoenc_destroy_encoder demo_enc_env [CB_STREAM_CORRUPT, CB_EOS] demo_enc1 = Ret True u"
  using enc_destroy_returns [OF demo_enc1_reach, of "[CB_STREAM_CORRUPT, CB_EOS]"] by (simp add: ends_session_def)

theorem enc_second_session_witness:
  "\<exists>t u. gst_cnvideoenc_set_caps demo_enc_env [] (demo_enc_caps GST_VIDEO_FORMAT_NV12) (demo_enc0\<lparr>c_got_eos := True\<rparr>) = Ret True t \<and>
     c_encode t \<and> gst_cnvideoenc_destroy_encoder demo_enc_env [] t = Ret True u \<and> \<not> c_encode u"
proof -
  have "c_got_eos (demo_enc0\<lparr>c_got_eos := True\<rparr>)" "c_queue (demo_enc0\<lparr>c_got_eos := True\<rparr>) = []"
    by (simp_all add: demo_enc0_def gst_cnvideoenc_init_def)
  with demo_enc_opens [of True] show ?thesis using enc_second_session by blast
qed

theorem enc_failed_open_witness:
  "\<exists>t u. enc_open (demo_enc_env\<lparr>n_codec := \<lambda>_. CNCODEC_ERR 1\<rparr>) demo_enc0 = Ret False t \<and>
     gst_cnvideoenc_finalize (demo_enc_env\<lparr>n_codec := \<lambda>_. CNCODEC_ERR 1\<rparr>) t = Terminate \<and>
     gst_cnvideoenc_change_state (demo_enc_env\<lparr>n_codec := \<lambda>_. CNCODEC_ERR 1\<rparr>) [] STATE_CHANGE_SUCCESS PAUSED_TO_READY t =
       Ret STATE_CHANGE_SUCCESS u"
proof -
  let ?E = "demo_enc_env\<lparr>n_codec := \<lambda>_. CNCODEC_ERR 1\<rparr>"
  have "enc_choices (demo_enc0\<lparr>c_loop := Looping, c_first_frame := True\<rparr>)"
    by (simp add: enc_choices_def demo_enc0_def gst_cnvideoenc_init_def video_profile_values_def video_level_values_def)
  then obtain p where "enc_params ?E (demo_enc0\<lparr>c_loop := Looping, c_first_frame := True\<rparr>) = Some p"
    using enc_choices_tables by blast
  moreover have "c_loop demo_enc0 = No_Thread" by (simp add: demo_enc0_def gst_cnvideoenc_init_def)
  ultimately have "\<exists>t. enc_open ?E demo_enc0 = Ret False t"
    by (simp add: enc_open_def Let_def joinable_def enc_ret_def)
  moreover have "enc_reach ?E demo_enc0" unfolding demo_enc0_def by (rule enc_reach.start)
  ultimately show ?thesis using enc_failed_open [of ?E demo_enc0 _ STATE_CHANGE_SUCCESS "[]"] by blast
qed

subsection \<open>Pictures\<close>

lemma enc_h2d_ok:
  assumes "n_h2d E (Enc_H2D p (take n pl) # c_trace s) = CNRT_RET_SUCCESS" and "n \<le> length pl"
  shows "enc_h2d E p pl n s = Ret () (enc_do (Enc_H2D p (take n pl)) s)"
  using assms by (simp add: enc_h2d_def Let_def CHECK_CNRT_RET_def enc_do_def)

text \<open>A semi-planar picture that the driver and the codec accept is fed as one frame, its planes
  filled with the first \<open>w * h\<close> bytes of the luma and half as many of the chroma, and described with
  the strides of the picture. With tight rows that is the whole picture; but with padded rows the
  bytes copied end early: once the padding amounts to a row, nothing of the last row is copied.\<close>

theorem enc_encode_nv:
  assumes fmt: "c_pixel_format s = CNCODEC_PIX_FMT_NV12 \<or> c_pixel_format s = CNCODEC_PIX_FMT_NV21"
    and nrgb: "\<not> is_rgb24 (vi_format (c_video_info s))" and enc: "c_encode s"
    and w: "vi_width (gf_info f) = int w" and h: "vi_height (gf_info f) = int (2 * hh)" and sz: "w * (2 * hh) < 2 ^ 31"
    and planes: "gf_data f = [y, uv]" and len: "length y = st * (2 * hh)" "length uv = st * hh" and le: "w \<le> st"
    and strides: "vi_stride (gf_info f) = [int st, int st]"
    and codec: "\<forall>tr. n_codec E tr = CNCODEC_SUCCESS" and h2d: "\<forall>tr. n_h2d E tr = CNRT_RET_SUCCESS"
    and lent: "n_lent E (Enc_WaitInput # c_trace s) = [p0, p1]"
  shows "\<exists>t. enc_encode_mapped E f pts s = Ret True t \<and>
      c_trace t = Enc_Feed \<lparr>ef_plane = [p0, p1], ef_pixelFmt = c_pixel_format s, ef_width = int w, ef_height = int (2 * hh),
                            ef_stride = [int st, int st], ef_pts = pts\<rparr> #
        Enc_H2D p1 (take (w * hh) uv) # Enc_H2D p0 (take (w * (2 * hh)) y) # Enc_WaitInput # c_trace s \<and>
      (st = w \<longrightarrow> take (w * (2 * hh)) y = y \<and> take (w * hh) uv = uv) \<and>
      (w * (2 * hh) \<le> st * (2 * hh - 1) \<longrightarrow> drop (st * (2 * hh - 1)) (take (w * (2 * hh)) y) = [])"
proof -
  have m: "gint_mult (int w) (int (2 * hh)) = Some (int (w * (2 * hh)))"
    using sz by (simp add: gint_mult_def flip: of_nat_mult)
  have n: "size_t (int (w * (2 * hh))) = w * (2 * hh)" "size_t (int (w * (2 * hh)) div 2) = w * hh"
  proof -
    show "size_t (int (w * (2 * hh))) = w * (2 * hh)" by (rule size_t_of_nat [OF sz])
    have "int (w * (2 * hh)) div 2 = int (w * hh)" by simp
    then show "size_t (int (w * (2 * hh)) div 2) = w * hh" using sz by (simp only: size_t_of_nat)
  qed
  have fits: "w * (2 * hh) \<le> length y" "w * hh \<le> length uv" using len le by (simp_all add: mult_le_mono1)
  have pl: "gf_plane f 0 = y" "gf_plane f 1 = uv" by (simp_all add: gf_plane_def planes)
  let ?a = "enc_do Enc_WaitInput s"
  have c0: "enc_h2d E p0 y (w * (2 * hh)) ?a = Ret () (enc_do (Enc_H2D p0 (take (w * (2 * hh)) y)) ?a)"
    by (rule enc_h2d_ok) (use h2d fits in simp_all)
  have c1: "enc_h2d E p1 uv (w * hh) (enc_do (Enc_H2D p0 (take (w * (2 * hh)) y)) ?a) =
      Ret () (enc_do (Enc_H2D p1 (take (w * hh) uv)) (enc_do (Enc_H2D p0 (take (w * (2 * hh)) y)) ?a))"
    by (rule enc_h2d_ok) (use h2d fits in simp_all)
  have copy: "enc_copy_frame E [p0, p1] f ?a =
      Ret True (enc_do (Enc_H2D p1 (take (w * hh) uv)) (enc_do (Enc_H2D p0 (take (w * (2 * hh)) y)) ?a))"
    unfolding enc_copy_frame_def w h m using fmt by (simp add: Let_def n [simplified] pl [simplified] c0 [simplified] c1 [simplified])
  have "\<exists>t. enc_encode_mapped E f pts s = Ret True t \<and>
      c_trace t = Enc_Feed (enc_input [p0, p1] f pts s) #
        Enc_H2D p1 (take (w * hh) uv) # Enc_H2D p0 (take (w * (2 * hh)) y) # Enc_WaitInput # c_trace s"
    using codec lent nrgb enc copy
    by (simp add: enc_encode_mapped_def Let_def enc_ret_def enc_fill_input_def enc_feed_def enc_input_def)
  moreover have "enc_input [p0, p1] f pts s = \<lparr>ef_plane = [p0, p1], ef_pixelFmt = c_pixel_format s, ef_width = int w,
      ef_height = int (2 * hh), ef_stride = [int st, int st], ef_pts = pts\<rparr>"
    using planes strides w h by (simp add: enc_input_def upt_rec)
  ultimately show ?thesis using len by simp
qed

definition demo_nv_picture :: GstVideoFrame where
  "demo_nv_picture = \<lparr>gf_info = demo_enc_info GST_VIDEO_FORMAT_NV12, gf_data = [[1, 2, 3, 4, 5, 6, 7, 8], [9, 10, 11, 12]]\<rparr>"

text \<open>Two rows of two pixels, four bytes apart: the second row \<open>5, 6\<close> is not copied.\<close>

theorem enc_encode_nv_witness:
  "\<exists>t. enc_encode_mapped (demo_enc_env\<lparr>n_lent := \<lambda>_. [100, 101]\<rparr>) demo_nv_picture 0
       (demo_enc0\<lparr>c_encode := True, c_video_info := demo_enc_info GST_VIDEO_FORMAT_NV12\<rparr>) = Ret True t \<and>
     Enc_H2D 100 [1, 2, 3, 4] \<in> set (c_trace t) \<and> Enc_H2D 101 [9, 10] \<in> set (c_trace t)"
proof -
  let ?E = "demo_enc_env\<lparr>n_lent := \<lambda>_. [100, 101]\<rparr>"
  let ?s = "demo_enc0\<lparr>c_encode := True, c_video_info := demo_enc_info GST_VIDEO_FORMAT_NV12\<rparr>"
  have env: "\<forall>tr. n_codec ?E tr = CNCODEC_SUCCESS" "\<forall>tr. n_h2d ?E tr = CNRT_RET_SUCCESS"
    "n_lent ?E (Enc_WaitInput # c_trace ?s) = [100, 101]" by (simp_all add: demo_enc_env_def)
  have st: "c_pixel_format ?s = CNCODEC_PIX_FMT_NV12 \<or> c_pixel_format ?s = CNCODEC_PIX_FMT_NV21"
    "\<not> is_rgb24 (vi_format (c_video_info ?s))" "c_encode ?s"
    by (simp_all add: demo_enc0_def gst_cnvideoenc_init_def is_rgb24_def)
  from enc_encode_nv [OF st, of demo_nv_picture 2 1 "[1, 2, 3, 4, 5, 6, 7, 8]" "[9, 10, 11, 12]" 4 ?E 100 101 0, OF _ _ _ _ _ _ _ _ env]
  show ?thesis by (auto simp: demo_nv_picture_def demo_enc_info_def)
qed

lemma enc_rgb2rgba_Ret:
  assumes "enc_rgb2rgba E lent s = Ret True t"
  shows "\<exists>src tab tr. c_trace t = Enc_SyncQueue # Enc_RgbxToRgbx src tab (enc_rgba_desc src) (tab + 8) # tr \<and>
     src = video_info_to_desc (c_video_info s) \<and> c_encode t = c_encode s \<and> c_pixel_format t = c_pixel_format s"
proof -
  from assms obtain tab u where u: "enc_rgb_table E (nth0 lent 0) s = Ret tab u"
    and k: "c_trace t = Enc_SyncQueue # Enc_RgbxToRgbx (video_info_to_desc (c_video_info s)) tab
        (enc_rgba_desc (video_info_to_desc (c_video_info s))) (tab + 8) # c_trace u" "c_encode t = c_encode u" "c_pixel_format t = c_pixel_format u"
    by (auto simp: enc_rgb2rgba_def Let_def call_then_Ret_iff SAFECALL_def split: if_splits)
  have "ensures (\<lambda>x. c_encode x = c_encode s \<and> c_pixel_format x = c_pixel_format s) (enc_rgb_table E (nth0 lent 0) s)"
    unfolding enc_rgb_table_def on_workspace_def on_tmp_rgb_def enc_store_ptr_def
    by (auto intro!: ensures_intros split: prod.split)
  with u k show ?thesis by auto
qed

text \<open>A packed RGB or BGR picture that is fed successfully was converted to RGBA rows of \<open>4 * width\<close>
  bytes each, but the codec is told the stride of the picture that came in: for a tight picture
  \<open>3 * width\<close>, rounded up to four. Unless the two agree the encoder reads rows at the wrong places.\<close>

theorem enc_rgb_stride:
  assumes "is_rgb24 (vi_format (c_video_info s))" and "gf_data f = [d]" and "enc_encode_mapped E f pts s = Ret True t"
  shows "\<exists>i src tab tr. c_trace t = Enc_Feed i # Enc_SyncQueue # Enc_RgbxToRgbx src tab (enc_rgba_desc src) (tab + 8) # tr \<and>
     ef_pixelFmt i = c_pixel_format s \<and> ef_stride i = [nth0 (vi_stride (gf_info f)) 0] \<and>
     id_pixel_fmt (enc_rgba_desc src) = CNCV_PIX_FMT_RGBA \<and> id_stride (enc_rgba_desc src) ! 0 = 4 * vi_width (c_video_info s)"
proof -
  from assms(1,3) obtain u v lent where u: "enc_upload_rgb E f (enc_do Enc_WaitInput s) = Ret () u"
    and v: "enc_rgb2rgba E lent u = Ret True v" and t: "enc_feed E (enc_input lent f pts v) v = (True, t)"
    by (auto simp: enc_encode_mapped_def Let_def enc_fill_input_def call_then_Ret_iff split: if_splits prod.splits)
  have "ensures (\<lambda>x. c_video_info x = c_video_info s \<and> c_pixel_format x = c_pixel_format s) (enc_upload_rgb E f (enc_do Enc_WaitInput s))"
    unfolding enc_upload_rgb_def on_tmp_rgb_def enc_h2d_def Let_def
    by (auto intro!: ensures_intros split: option.split)
  with u have su: "c_video_info u = c_video_info s" "c_pixel_format u = c_pixel_format s" by simp_all
  from enc_rgb2rgba_Ret [OF v] obtain src tab tr where
    "c_trace v = Enc_SyncQueue # Enc_RgbxToRgbx src tab (enc_rgba_desc src) (tab + 8) # tr"
    "src = video_info_to_desc (c_video_info s)" "c_pixel_format v = c_pixel_format s" using su by auto
  moreover have "c_trace t = Enc_Feed (enc_input lent f pts v) # c_trace v"
    using t by (auto simp: enc_feed_def Let_def split: if_splits)
  ultimately show ?thesis using assms(2)
    by (simp add: enc_input_def enc_rgba_desc_def video_info_to_desc_def upt_rec)
qed

subsection \<open>Time stamps\<close>

lemma enc_output_ok:
  assumes "c_env_output s" and "\<forall>tr. n_ok E tr"
  shows "\<exists>t bs. enc_handle_output E p s = Ret () t \<and> hd (c_trace t) = Enc_Push bs (fst (enc_stamp E (op_pts p) s)) \<and>
     \<not> c_first_frame t \<and> c_env_output t \<and> c_video_info t = c_video_info s \<and>
     c_frame_id t = c_frame_id s + (if op_pts p = 0 \<and> \<not> c_first_frame s then 1 else 0)"
  using assms by (auto simp: enc_handle_output_def enc_bind_once_def Let_def enc_stamp_def enc_do_def)

text \<open>Packets without a time stamp are numbered from 0 after the first one: the first keeps its time
  stamp 0 and the second is given the time of frame number 0, so two buffers are pushed with the same
  time stamp; only the third gets the time of frame number 1.\<close>

theorem enc_duplicate_pts:
  assumes "c_env_output s" and "\<forall>tr. n_ok E tr" and "c_first_frame s" and "c_frame_id s = 0"
    and "op_pts p = 0" and "op_pts q = 0" and "op_pts r = 0"
    and zero: "\<forall>n d. n_pts E 0 n d = 0"
  shows "\<exists>t u v a b c. enc_handle_output E p s = Ret () t \<and> hd (c_trace t) = Enc_Push a 0 \<and>
     enc_handle_output E q t = Ret () u \<and> hd (c_trace u) = Enc_Push b 0 \<and>
     enc_handle_output E r u = Ret () v \<and>
     hd (c_trace v) = Enc_Push c (n_pts E 1 (vi_fps_n (c_video_info s)) (vi_fps_d (c_video_info s)))"
proof -
  from enc_output_ok [OF assms(1,2), of p] obtain t a where t: "enc_handle_output E p s = Ret () t" "hd (c_trace t) = Enc_Push a 0"
    "\<not> c_first_frame t" "c_env_output t" "c_frame_id t = 0" "c_video_info t = c_video_info s"
    using assms by (auto simp: enc_stamp_def)
  from enc_output_ok [OF t(4) assms(2), of q] obtain u b where u: "enc_handle_output E q t = Ret () u" "hd (c_trace u) = Enc_Push b 0"
    "\<not> c_first_frame u" "c_env_output u" "c_frame_id u = 1" "c_video_info u = c_video_info s"
    using t assms by (auto simp: enc_stamp_def)
  from enc_output_ok [OF u(4) assms(2), of r] obtain v c where "enc_handle_output E r u = Ret () v"
    "hd (c_trace v) = Enc_Push c (n_pts E 1 (vi_fps_n (c_video_info s)) (vi_fps_d (c_video_info s)))"
    using u assms by (auto simp: enc_stamp_def)
  with t u show ?thesis by blast
qed

definition demo_packet :: cnvideoEncOutput where
  "demo_packet = \<lparr>op_addr = 7, op_offset = 0, op_len = 3, op_pts = 0\<rparr>"

theorem enc_duplicate_pts_witness:
  "\<exists>t u a b. enc_handle_output demo_enc_env demo_packet (demo_enc0\<lparr>c_env_output := True, c_first_frame := True\<rparr>) = Ret () t \<and>
     hd (c_trace t) = Enc_Push a 0 \<and> enc_handle_output demo_enc_env demo_packet t = Ret () u \<and> hd (c_trace u) = Enc_Push b 0"
proof -
  let ?s = "demo_enc0\<lparr>c_env_output := True, c_first_frame := True\<rparr>"
  have "c_env_output ?s" "\<forall>tr. n_ok demo_enc_env tr" "c_first_frame ?s" "c_frame_id ?s = 0"
    "op_pts demo_packet = 0" "\<forall>n d. n_pts demo_enc_env 0 n d = 0"
    by (simp_all add: demo_enc0_def gst_cnvideoenc_init_def demo_packet_def demo_enc_env_def)
  from enc_duplicate_pts [OF this(1-5,5,5,6)] show ?thesis by blast
qed

subsection \<open>A concrete conversion\<close>

definition demo_rgb_mach :: mach where
  "demo_rgb_mach = \<lparr>hmem = (\<lambda>_. None), dmem = (\<lambda>_. None)(1 \<mapsto> replicate 16 0), hfree = 64, hnext = 2, hjunk = 0\<rparr>"

definition demo_tmp_rgb :: GstSyncedMemory where
  "demo_tmp_rgb = \<lparr>host_ptr = 0, dev_ptr = 1, own_host_data = False, own_dev_data = True,
     head = GST_SYNCHEAD_AT_MLU, mem_size = 16, err_msg = [], ctx_dev_id = 0\<rparr>"

definition demo_rgb_info :: GstVideoInfo where
  "demo_rgb_info = (demo_enc_info GST_VIDEO_FORMAT_RGB)\<lparr>vi_stride := [8]\<rparr>"

definition demo_rgb_enc :: GstCnvideoenc where
  "demo_rgb_enc = demo_enc0\<lparr>c_encode := True, c_video_info := demo_rgb_info, c_pixel_format := CNCODEC_PIX_FMT_RGBA,
     c_mach := demo_rgb_mach, c_tmp_rgb := Some demo_tmp_rgb\<rparr>"

lemma demo_rgb_sel [simp]:
  "c_video_info demo_rgb_enc = demo_rgb_info" "c_mach demo_rgb_enc = demo_rgb_mach" "c_tmp_rgb demo_rgb_enc = Some demo_tmp_rgb"
  "c_workspace demo_rgb_enc = None" "c_encode demo_rgb_enc"
  by (simp_all add: demo_rgb_enc_def demo_enc0_def gst_cnvideoenc_init_def)

lemma demo_rgb_run:
  "\<exists>t. enc_encode_mapped demo_enc_env \<lparr>gf_info = demo_rgb_info, gf_data = [replicate 16 9]\<rparr> 0 demo_rgb_enc = Ret True t"
proof -
  have g: "gint_mult (nth0 (vi_stride demo_rgb_info) 0) (vi_height demo_rgb_info) = Some 16" "is_rgb24 (vi_format demo_rgb_info)"
    by (simp_all add: demo_rgb_info_def gint_mult_def is_rgb24_def)
  have rt: "n_rt demo_enc_env = ref_cnrt (\<lambda>m. if dmem m 1 = None then 1 else 2)" by (simp add: demo_enc_env_def)
  show ?thesis
    by (simp add: enc_encode_mapped_def Let_def enc_ret_def enc_fill_input_def g enc_upload_rgb_def on_tmp_rgb_def on_held_def
        sm_ops to_mlu_def demo_tmp_rgb_def blk_ok_def demo_rgb_mach_def enc_h2d_def gf_plane_def CHECK_CNRT_RET_def
        enc_rgb2rgba_def enc_rgb_table_def on_workspace_def cn_syncedmem_new_def to_cpu_def malloc_host_def malloc_def
        enc_store_ptr_def store_ptr_def store_bytes_def rt AllocMlu_def MemcpyH2D_def ref_cnrt_calls SAFECALL_def enc_feed_def copy_into_def)
qed

theorem enc_rgb_stride_witness:
  "\<exists>t i src tab tr. enc_encode_mapped demo_enc_env \<lparr>gf_info = demo_rgb_info, gf_data = [replicate 16 9]\<rparr> 0 demo_rgb_enc = Ret True t \<and>
     c_trace t = Enc_Feed i # Enc_SyncQueue # Enc_RgbxToRgbx src tab (enc_rgba_desc src) (tab + 8) # tr \<and> ef_stride i = [8]"
proof -
  from demo_rgb_run obtain t where t: "enc_encode_mapped demo_enc_env \<lparr>gf_info = demo_rgb_info, gf_data = [replicate 16 9]\<rparr> 0 demo_rgb_enc = Ret True t" by blast
  have "is_rgb24 (vi_format (c_video_info demo_rgb_enc))" by (simp add: demo_rgb_info_def is_rgb24_def)
  from enc_rgb_stride [OF this _ t, of "replicate 16 9"] obtain i src tab tr where
    "c_trace t = Enc_Feed i # Enc_SyncQueue # Enc_RgbxToRgbx src tab (enc_rgba_desc src) (tab + 8) # tr"
    "ef_stride i = [nth0 (vi_stride demo_rgb_info) 0]" by auto
  then have "c_trace t = Enc_Feed i # Enc_SyncQueue # Enc_RgbxToRgbx src tab (enc_rgba_desc src) (tab + 8) # tr \<and> ef_stride i = [8]"
    by (simp add: demo_rgb_info_def)
  with t show ?thesis by blast
qed

end
