(* ===== verification/Cnconvert.thy ===== *)
theory Cnconvert
  imports Cncv Frame_Copy Mlu_Frame
begin

text \<open>
  The element cnconvert (gst/convert/gstcnconvert.cpp): it resizes and converts pictures on the
  device and moves them between host and device memory. The machine and the frames are those of
  Mlu_Frame; \<open>v_trace\<close> lists what the element did to the outside, the newest first, and the answers
  of the driver and of the conversion library are functions of that trace.
\<close>

subsection \<open>State\<close>

text \<open>What leaves on the source pad: a buffer with a device frame, or one with host memory.\<close>

datatype cv_payload = Cv_Same "MluMemoryMeta option" | Cv_Host "u8 list"

datatype cv_act =
  Cv_Bus string | Cv_cnrtCreateQueue | Cv_cncvCreate | Cv_cncvSetQueue | Cv_cncvDestroy | Cv_cnrtDestroyQueue
| Cv_ResizeConvertWorkspace cncvImageDescriptor cncvImageDescriptor | Cv_ResizeRgbxWorkspace
| Cv_ResizeConvert cncvImageDescriptor addr cncvImageDescriptor addr nat addr
| Cv_ResizeRgbx cncvImageDescriptor addr cncvImageDescriptor addr nat addr
| Cv_RgbxToRgbx cncvImageDescriptor addr cncvImageDescriptor addr
| Cv_SyncQueue | Cv_H2D addr "u8 list" | Cv_D2H addr nat | Cv_Map | Cv_Unmap | Cv_Unref
| Cv_Push cv_payload u64 u64

text \<open>
  \<open>x_ok\<close> answers the calls through the two macros, \<open>x_copy\<close> the copies, \<open>x_wsize\<close> is the workspace
  size the library asks for, \<open>x_pixels\<close> what it has written to its destination when the queue is
  synchronised, \<open>x_junk\<close> the byte fresh host memory is filled with.
\<close>

record cv_env =
  x_major :: nat
  x_dev :: dev_lib
  x_rt :: cnrt
  x_ok :: "cv_act list \<Rightarrow> bool"
  x_copy :: "cv_act list \<Rightarrow> cnrtRet"
  x_wsize :: "cv_act list \<Rightarrow> nat"
  x_pixels :: "cv_act list \<Rightarrow> u8 list"
  x_push :: "cv_act list \<Rightarrow> flow_return"
  x_junk :: u8

text \<open>
  The two memories the element holds between buffers. \<open>v_dangling\<close> names those whose pointer is
  kept after the memory was freed; any use of them is undefined behaviour.
\<close>

datatype target = Dst_Mem | Tmp_Mem

record 'd GstCnconvert =
  v_device_id :: int
  v_sink_info :: GstVideoInfo
  v_src_info :: GstVideoInfo
  v_dst_mem :: "GstSyncedMemory option"
  v_tmp_mem :: "GstSyncedMemory option"
  v_workspace :: "GstSyncedMemory option"
  v_dangling :: "target set"
  v_handle :: bool
  v_queue :: bool
  v_init_done :: bool
  v_input_on_mlu :: bool
  v_output_on_mlu :: bool
  v_disable_resize :: bool
  v_disable_convert :: bool
  v_env :: bool
  v_dev :: dev_state
  v_frames :: "'d frames"
  v_trace :: "cv_act list"

definition gst_cnconvert_init :: "'d frames \<Rightarrow> dev_state \<Rightarrow> 'd GstCnconvert" where
  "gst_cnconvert_init w dev =
     \<lparr>v_device_id = -1, v_sink_info = no_info, v_src_info = no_info, v_dst_mem = None, v_tmp_mem = None,
      v_workspace = None, v_dangling = {}, v_handle = False, v_queue = False, v_init_done = False,
      v_input_on_mlu = False, v_output_on_mlu = False, v_disable_resize = False, v_disable_convert = False,
      v_env = False, v_dev = dev, v_frames = w, v_trace = []\<rparr>"

datatype cv_property = CV_PROP_DEVICE_ID int | CV_PROP_UNKNOWN

fun cv_property_range :: "cv_property \<Rightarrow> bool" where
  "cv_property_range (CV_PROP_DEVICE_ID i) = (-1 \<le> i \<and> i \<le> 10)"
| "cv_property_range CV_PROP_UNKNOWN = True"

fun gst_cnconvert_set_property :: "cv_property \<Rightarrow> 'd GstCnconvert \<Rightarrow> 'd GstCnconvert" where
  "gst_cnconvert_set_property (CV_PROP_DEVICE_ID i) s = s\<lparr>v_device_id := i\<rparr>"
| "gst_cnconvert_set_property CV_PROP_UNKNOWN s = s"

fun gst_cnconvert_get_property :: "cv_property \<Rightarrow> 'd GstCnconvert \<Rightarrow> cv_property" where
  "gst_cnconvert_get_property (CV_PROP_DEVICE_ID _) s = CV_PROP_DEVICE_ID (v_device_id s)"
| "gst_cnconvert_get_property CV_PROP_UNKNOWN s = CV_PROP_UNKNOWN"

definition cv_do :: "cv_act \<Rightarrow> 'd GstCnconvert \<Rightarrow> 'd GstCnconvert" where
  "cv_do a s = s\<lparr>v_trace := a # v_trace s\<rparr>"

text \<open>\<open>CNCV_SAFECALL\<close> and \<open>CNRT_SAFECALL\<close>.\<close>

definition cv_SAFECALL :: "cv_env \<Rightarrow> cv_act \<Rightarrow> string \<Rightarrow> 'a \<Rightarrow> ('d GstCnconvert \<Rightarrow> ('d GstCnconvert, 'a) run) \<Rightarrow>
    'd GstCnconvert \<Rightarrow> ('d GstCnconvert, 'a) run" where
  "cv_SAFECALL E a name val k s =
     (let s = cv_do a s in if x_ok E (v_trace s) then k s else Ret val (cv_do (Cv_Bus name) s))"

definition cv_bind :: "cv_env \<Rightarrow> 'd GstCnconvert \<Rightarrow> ('d GstCnconvert, bool) run" where
  "cv_bind E s =
     call_then (lift_call (\<lambda>t. s\<lparr>v_dev := t\<rparr>) (set_cnrt_env (x_major E) (x_dev E) (v_device_id s) (v_dev s)))
       (\<lambda>(ok, e) s. Ret ok (if ok then s\<lparr>v_env := True\<rparr> else cv_do (Cv_Bus ''set mlu environment failed'') s))"

subsection \<open>Formats\<close>

fun get_channel_num_plane0 :: "GstVideoFormat \<Rightarrow> int" where
  "get_channel_num_plane0 GST_VIDEO_FORMAT_NV12 = 1"
| "get_channel_num_plane0 GST_VIDEO_FORMAT_NV21 = 1"
| "get_channel_num_plane0 GST_VIDEO_FORMAT_I420 = 1"
| "get_channel_num_plane0 GST_VIDEO_FORMAT_RGB = 3"
| "get_channel_num_plane0 GST_VIDEO_FORMAT_BGR = 3"
| "get_channel_num_plane0 GST_VIDEO_FORMAT_RGBA = 4"
| "get_channel_num_plane0 GST_VIDEO_FORMAT_BGRA = 4"
| "get_channel_num_plane0 GST_VIDEO_FORMAT_ARGB = 4"
| "get_channel_num_plane0 GST_VIDEO_FORMAT_ABGR = 4"
| "get_channel_num_plane0 (GST_VIDEO_FORMAT_OTHER _) = 0"

definition isYUV420sp :: "GstVideoFormat \<Rightarrow> bool" where
  "isYUV420sp fmt \<longleftrightarrow> fmt = GST_VIDEO_FORMAT_NV12 \<or> fmt = GST_VIDEO_FORMAT_NV21"

definition isRGB :: "GstVideoFormat \<Rightarrow> bool" where
  "isRGB fmt \<longleftrightarrow> fmt = GST_VIDEO_FORMAT_RGB \<or> fmt = GST_VIDEO_FORMAT_BGR \<or>
     fmt = GST_VIDEO_FORMAT_RGBA \<or> fmt = GST_VIDEO_FORMAT_BGRA \<or> fmt = GST_VIDEO_FORMAT_ARGB \<or> fmt = GST_VIDEO_FORMAT_ABGR"

subsection \<open>Memory\<close>

definition on_mem :: "target \<Rightarrow> (held \<Rightarrow> (held, 'a) run) \<Rightarrow> 'd GstCnconvert \<Rightarrow> ('d GstCnconvert, 'a) run" where
  "on_mem t f s =
     (if t \<in> v_dangling s then UB
      else case t of
        Dst_Mem \<Rightarrow> lift_call (\<lambda>(m, x). s\<lparr>v_frames := (v_frames s)\<lparr>fr_mach := m\<rparr>, v_dst_mem := x\<rparr>) (f (fr_mach (v_frames s), v_dst_mem s))
      | Tmp_Mem \<Rightarrow> lift_call (\<lambda>(m, x). s\<lparr>v_frames := (v_frames s)\<lparr>fr_mach := m\<rparr>, v_tmp_mem := x\<rparr>) (f (fr_mach (v_frames s), v_tmp_mem s)))"

definition mem_of :: "target \<Rightarrow> 'd GstCnconvert \<Rightarrow> GstSyncedMemory option" where
  "mem_of t s = (case t of Dst_Mem \<Rightarrow> v_dst_mem s | Tmp_Mem \<Rightarrow> v_tmp_mem s)"

definition on_ws :: "(held \<Rightarrow> (held, 'a) run) \<Rightarrow> 'd GstCnconvert \<Rightarrow> ('d GstCnconvert, 'a) run" where
  "on_ws f s = lift_call (\<lambda>(m, x). s\<lparr>v_frames := (v_frames s)\<lparr>fr_mach := m\<rparr>, v_workspace := x\<rparr>) (f (fr_mach (v_frames s), v_workspace s))"

text \<open>A plane of a frame; a null or freed frame, or a plane it does not have, is undefined behaviour.\<close>

definition on_plane :: "nat \<Rightarrow> nat \<Rightarrow> (held \<Rightarrow> (held, 'a) run) \<Rightarrow> 'd GstCnconvert \<Rightarrow> ('d GstCnconvert, 'a) run" where
  "on_plane fr i f s =
     (let w = v_frames s in
      case fr_heap w fr of None \<Rightarrow> UB
      | Some (n, x) \<Rightarrow>
          if i < length (fr_data x)
          then lift_call (\<lambda>(m, p). s\<lparr>v_frames := w\<lparr>fr_mach := m, fr_heap := (fr_heap w)(fr \<mapsto> (n, x\<lparr>fr_data := (fr_data x)[i := p]\<rparr>))\<rparr>\<rparr>)
                 (f (fr_mach w, fr_data x ! i))
          else UB)"

definition cv_frames :: "('d frames \<Rightarrow> ('d frames, 'a) run) \<Rightarrow> 'd GstCnconvert \<Rightarrow> ('d GstCnconvert, 'a) run" where
  "cv_frames f s = lift_call (\<lambda>w. s\<lparr>v_frames := w\<rparr>) (f (v_frames s))"

definition cv_mach :: "(mach \<Rightarrow> (mach, 'a) run) \<Rightarrow> 'd GstCnconvert \<Rightarrow> ('d GstCnconvert, 'a) run" where
  "cv_mach f s = lift_call (\<lambda>m. s\<lparr>v_frames := (v_frames s)\<lparr>fr_mach := m\<rparr>\<rparr>) (f (fr_mach (v_frames s)))"

text \<open>Device addresses are fetched and stored in the host table one after the other.\<close>

fun cv_store_all :: "addr \<Rightarrow> nat \<Rightarrow> ('d GstCnconvert \<Rightarrow> ('d GstCnconvert, addr) run) list \<Rightarrow> 'd GstCnconvert \<Rightarrow> ('d GstCnconvert, unit) run" where
  "cv_store_all table i [] s = Ret () s"
| "cv_store_all table i (g # gs) s =
     call_then (g s) (\<lambda>p s. call_then (cv_mach (store_ptr table i p) s) (\<lambda>_ s. cv_store_all table (Suc i) gs s))"

definition cv_table :: "cv_env \<Rightarrow> ('d GstCnconvert \<Rightarrow> ('d GstCnconvert, addr) run) list \<Rightarrow> 'd GstCnconvert \<Rightarrow> ('d GstCnconvert, addr) run" where
  "cv_table E gs s =
     call_then (on_ws (on_held (cn_syncedmem_get_mutable_host_data (x_rt E))) s) (\<lambda>table s.
     call_then (cv_store_all table 0 gs s) (\<lambda>_ s. on_ws (on_held (cn_syncedmem_get_dev_data (x_rt E))) s))"

definition plane_addr :: "cv_env \<Rightarrow> nat \<Rightarrow> nat \<Rightarrow> 'd GstCnconvert \<Rightarrow> ('d GstCnconvert, addr) run" where
  "plane_addr E fr i = on_plane fr i (on_held (cn_syncedmem_get_mutable_dev_data (x_rt E)))"

definition mem_addr :: "cv_env \<Rightarrow> target \<Rightarrow> 'd GstCnconvert \<Rightarrow> ('d GstCnconvert, addr) run" where
  "mem_addr E t = on_mem t (on_held (cn_syncedmem_get_mutable_dev_data (x_rt E)))"

text \<open>A destination is allocated once; an existing one is kept, whatever its size.\<close>

definition cv_new_if_null :: "int option \<Rightarrow> target \<Rightarrow> 'd GstCnconvert \<Rightarrow> ('d GstCnconvert, unit) run" where
  "cv_new_if_null sz t s =
     (if t \<notin> v_dangling s \<and> mem_of t s = None
      then (case sz of None \<Rightarrow> UB | Some n \<Rightarrow> on_mem t (\<lambda>(m, x). Ret () (m, cn_syncedmem_new (size_t n))) s)
      else Ret () s)"

text \<open>
  Waiting for the queue: from then on the destination holds what the library wrote.
\<close>

definition cv_sync :: "cv_env \<Rightarrow> target \<Rightarrow> 'd GstCnconvert \<Rightarrow> ('d GstCnconvert, bool) run" where
  "cv_sync E t s =
     cv_SAFECALL E Cv_SyncQueue ''Call [cnrtSyncQueue(priv->queue)] failed'' False (\<lambda>s.
       cv_mach (\<lambda>m. Ret True (case mem_of t s of None \<Rightarrow> m
         | Some sm \<Rightarrow> m\<lparr>dmem := store_bytes (dmem m) (dev_ptr sm) (x_pixels E (v_trace s))\<rparr>)) s) s"

subsection \<open>Resizing and converting\<close>

text \<open>The products of the size computations are those of \<open>gint\<close>.\<close>

definition gint3 :: "int \<Rightarrow> int \<Rightarrow> int \<Rightarrow> int option" where
  "gint3 a b c = Option.bind (gint_mult a b) (\<lambda>ab. gint_mult ab c)"

definition cv_resize_convert :: "cv_env \<Rightarrow> nat \<Rightarrow> 'd GstCnconvert \<Rightarrow> ('d GstCnconvert, bool) run" where
  "cv_resize_convert E fr s =
     (let src = video_info_to_desc (v_sink_info s); dst = video_info_to_desc (v_src_info s)
      in cv_SAFECALL E (Cv_ResizeConvertWorkspace src dst) ''Call [cncvGetResizeConvertWorkspaceSize] failed'' False (\<lambda>s.
         let ws = x_wsize E (v_trace s) in
         call_then (on_ws (ensure_held (x_rt E) (ws + 24)) s) (\<lambda>_ s.
         call_then (cv_new_if_null (gint3 (vi_width (v_src_info s)) (vi_height (v_src_info s)) 4) Dst_Mem s) (\<lambda>_ s.
         call_then (cv_table E [plane_addr E fr 0, plane_addr E fr 1, mem_addr E Dst_Mem] s) (\<lambda>tab s.
         cv_SAFECALL E (Cv_ResizeConvert src tab dst (tab + 16) ws (tab + 24)) ''Call [cncvResizeConvert_V2] failed'' False
           (cv_sync E Dst_Mem) s)))) s)"

definition cv_resize_rgb :: "cv_env \<Rightarrow> nat \<Rightarrow> target \<Rightarrow> 'd GstCnconvert \<Rightarrow> ('d GstCnconvert, bool) run" where
  "cv_resize_rgb E fr t s =
     (let src = video_info_to_desc (v_sink_info s); ch = get_channel_num_plane0 (vi_format (v_sink_info s));
          dst = video_info_to_desc (v_src_info s);
          dst = dst\<lparr>id_pixel_fmt := id_pixel_fmt src, id_stride := (id_stride dst)[0 := id_width dst * ch]\<rparr>
      in cv_SAFECALL E Cv_ResizeRgbxWorkspace ''Call [cncvGetResizeRgbxWorkspaceSize] failed'' False (\<lambda>s.
         let ws = x_wsize E (v_trace s) in
         call_then (on_ws (ensure_held (x_rt E) (ws + 16)) s) (\<lambda>_ s.
         call_then (cv_new_if_null (gint3 (vi_width (v_src_info s)) (vi_height (v_src_info s)) ch) t s) (\<lambda>_ s.
         call_then (cv_table E [plane_addr E fr 0, mem_addr E t] s) (\<lambda>tab s.
         cv_SAFECALL E (Cv_ResizeRgbx src tab dst (tab + 8) ws (tab + 16)) ''Call [cncvResizeRgbx] failed'' False
           (cv_sync E t) s)))) s)"

text \<open>\<open>src\<close> fetches the device address of the source: a plane of the frame or the temporary memory.\<close>

definition cv_cvt_src_desc :: "'d GstCnconvert \<Rightarrow> cncvImageDescriptor" where
  "cv_cvt_src_desc s =
     (let d = video_info_to_desc (v_src_info s) in
      d\<lparr>id_pixel_fmt := format_cast (vi_format (v_sink_info s)),
        id_stride := (id_stride d)[0 := id_width d * get_channel_num_plane0 (vi_format (v_sink_info s))]\<rparr>)"

definition cv_cvt_rgb :: "cv_env \<Rightarrow> ('d GstCnconvert \<Rightarrow> ('d GstCnconvert, addr) run) \<Rightarrow> target \<Rightarrow> 'd GstCnconvert \<Rightarrow> ('d GstCnconvert, bool) run" where
  "cv_cvt_rgb E src t s =
     (let dst = video_info_to_desc (v_src_info s); sdesc = cv_cvt_src_desc s
      in call_then (on_ws (ensure_held (x_rt E) 16) s) (\<lambda>_ s.
         call_then (cv_new_if_null (gint_mult (nth0 (vi_stride (v_src_info s)) 0) (vi_height (v_src_info s))) t s) (\<lambda>_ s.
         call_then (cv_table E [src, mem_addr E t] s) (\<lambda>tab s.
         cv_SAFECALL E (Cv_RgbxToRgbx sdesc tab dst (tab + 8)) ''Call [cncvRgbxToRgbx] failed'' False (cv_sync E t) s))))"

text \<open>The middle of \<open>chain\<close>: which of the three runs.\<close>

definition cv_process :: "cv_env \<Rightarrow> nat \<Rightarrow> 'd GstCnconvert \<Rightarrow> ('d GstCnconvert, bool) run" where
  "cv_process E fr s =
     (if v_disable_convert s then cv_resize_rgb E fr Dst_Mem s
      else if v_disable_resize s then cv_cvt_rgb E (plane_addr E fr 0) Dst_Mem s
      else if isYUV420sp (vi_format (v_sink_info s)) \<and> isRGB (vi_format (v_src_info s)) then cv_resize_convert E fr s
      else if isRGB (vi_format (v_sink_info s)) \<and> isRGB (vi_format (v_src_info s))
      then call_then (cv_resize_rgb E fr Tmp_Mem s) (\<lambda>ok s. if ok then cv_cvt_rgb E (mem_addr E Tmp_Mem) Dst_Mem s else Ret False s)
      else Ret False (cv_do (Cv_Bus ''unsupported resize and color convert mode'') s))"

text \<open>The result goes into a new frame, which takes the place of the old one in the buffer's meta.\<close>

definition cv_new_frame :: "u32 \<Rightarrow> 'd GstCnconvert \<Rightarrow> nat \<times> 'd GstCnconvert" where
  "cv_new_frame ch s =
     (let (fr, w) = gst_mlu_frame_new (v_frames s); o_info = v_src_info s; e = (empty_frame :: 'd GstMluFrame);
          x = e\<lparr>fr_device_id := v_device_id s, channel_id := ch, fr_data := (fr_data e)[0 := v_dst_mem s],
                fr_height := word_of_int (vi_height o_info), fr_width := word_of_int (vi_width o_info),
                fr_stride := (fr_stride e)[0 := word_of_int (vi_width o_info * get_channel_num_plane0 (vi_format o_info))],
                n_planes := 1\<rparr>
      in (fr, s\<lparr>v_frames := w\<lparr>fr_heap := (fr_heap w)(fr \<mapsto> (1, x))\<rparr>, v_dst_mem := None\<rparr>))"

definition cv_replace_frame :: "cv_env \<Rightarrow> nat \<Rightarrow> 'd GstCnconvert \<Rightarrow> ('d GstCnconvert, nat) run" where
  "cv_replace_frame E fr s =
     (case fr_heap (v_frames s) fr of None \<Rightarrow> UB
      | Some (n, x) \<Rightarrow>
          if Dst_Mem \<in> v_dangling s then UB
          else call_then (cv_frames (gst_mlu_frame_unref (x_rt E) fr) s) (\<lambda>_ s.
            let (f', s) = cv_new_frame (channel_id x) s in Ret f' s))"

subsection \<open>To the host\<close>

text \<open>
  Sizes of host blocks pass through \<open>float\<close>: rounding to 24 significant bits, ties to even. A
  planar picture is scaled by 1.5, so its size is computed here in halves.
\<close>

definition f32_round :: "nat \<Rightarrow> nat" where
  "f32_round n =
     (let k = bit_len n - 24; q = n div 2 ^ k; r = n mod 2 ^ k; half = 2 ^ (k - 1)
      in if k = 0 then n else (if half < r \<or> r = half \<and> odd q then q + 1 else q) * 2 ^ k)"

definition is_planar :: "GstVideoFormat \<Rightarrow> bool" where
  "is_planar fmt \<longleftrightarrow> isYUV420sp fmt \<or> fmt = GST_VIDEO_FORMAT_I420"

definition cv_alloc_size :: "GstVideoFormat \<Rightarrow> nat \<Rightarrow> nat" where
  "cv_alloc_size fmt n =
     (if is_planar fmt then f32_round (3 * f32_round n) div 2
      else f32_round (f32_round n * nat (get_channel_num_plane0 fmt)))"

definition cv_clear_alignment :: "GstVideoFormat \<Rightarrow> nat \<Rightarrow> nat \<Rightarrow> nat \<Rightarrow> nat \<Rightarrow> nat \<Rightarrow> u8 list \<Rightarrow> u8 list \<Rightarrow> u8 list option" where
  "cv_clear_alignment fmt w h s0 s1 s2 src dst =
     (if isYUV420sp fmt then clear_alignment False w h s0 s1 s2 src dst
      else if fmt = GST_VIDEO_FORMAT_I420 then clear_alignment True w h s0 s1 s2 src dst
      else for_rows (rgb_row w (if fmt = GST_VIDEO_FORMAT_RGB \<or> fmt = GST_VIDEO_FORMAT_BGR then 3 else 4) s0 src) [0..<h] dst)"

text \<open>\<open>MemcpyD2H\<close> from a plane into a host block at an offset, inside both blocks.\<close>

definition cv_d2h :: "cv_env \<Rightarrow> nat \<Rightarrow> nat \<Rightarrow> nat \<Rightarrow> nat \<Rightarrow> u8 list \<Rightarrow> 'd GstCnconvert \<Rightarrow> ('d GstCnconvert, u8 list) run" where
  "cv_d2h E fr i off n buf s =
     call_then (plane_addr E fr i s) (\<lambda>p s.
       let s = cv_do (Cv_D2H p n) s; m = fr_mach (v_frames s)
       in if \<not> blk_ok (dmem m) p n then UB
          else call_then (cv_mach (CHECK_CNRT_RET (x_copy E (v_trace s)) ''Memcpy host to device failed.'' ()) s) (\<lambda>_ s.
            case put buf off (bytes_at (dmem m) p n) of None \<Rightarrow> UB | Some buf \<Rightarrow> Ret buf s))"

definition frame_of :: "nat \<Rightarrow> 'd GstCnconvert \<Rightarrow> 'd GstMluFrame option" where
  "frame_of fr s = map_option snd (fr_heap (v_frames s) fr)"

definition cv_copy_out :: "cv_env \<Rightarrow> nat \<Rightarrow> GstVideoFormat \<Rightarrow> nat \<Rightarrow> nat \<Rightarrow> nat \<Rightarrow> u8 list \<Rightarrow> 'd GstCnconvert \<Rightarrow> ('d GstCnconvert, u8 list) run" where
  "cv_copy_out E fr fmt y u v buf s =
     (if isYUV420sp fmt
      then call_then (cv_d2h E fr 0 0 y buf s) (\<lambda>buf s. cv_d2h E fr 1 y u buf s)
      else if fmt = GST_VIDEO_FORMAT_I420
      then call_then (cv_d2h E fr 0 0 y buf s) (\<lambda>buf s.
           call_then (cv_d2h E fr 1 y u buf s) (\<lambda>buf s. cv_d2h E fr 2 (y + u) v buf s))
      else cv_d2h E fr 0 0 y buf s)"

definition transform_to_cpu :: "cv_env \<Rightarrow> nat \<Rightarrow> GstVideoFormat \<Rightarrow> 'd GstCnconvert \<Rightarrow> ('d GstCnconvert, u8 list) run" where
  "transform_to_cpu E fr fmt s =
     (case frame_of fr s of None \<Rightarrow> UB
      | Some x \<Rightarrow>
        let st = (\<lambda>i. unat (nth0 (fr_stride x) i)); w = unat (fr_width x); h = unat (fr_height x);
            y = m32 (st 0 * h)
        in call_then (cv_copy_out E fr fmt y (m32 (st 1 * h) div 2) (m32 (st 2 * h) div 2)
                       (replicate (cv_alloc_size fmt y) (x_junk E)) s) (\<lambda>buf s.
           if st 0 \<noteq> m32 (w * nat (get_channel_num_plane0 fmt))
           then (case cv_clear_alignment fmt w h (st 0) (st 1) (st 2) buf (replicate (cv_alloc_size fmt (m32 (w * h))) (x_junk E)) of
                   None \<Rightarrow> UB | Some cp \<Rightarrow> Ret cp s)
           else Ret buf s))"

subsection \<open>To the device\<close>

text \<open>
  An input buffer: its device meta, the picture it maps to on the host (if it can be mapped), and
  its times.
\<close>

record cv_buffer =
  cb_meta :: "MluMemoryMeta option"
  cb_picture :: "GstVideoFrame option"
  cb_pts :: u64
  cb_duration :: u64

definition upd_frame :: "nat \<Rightarrow> ('d GstMluFrame \<Rightarrow> 'd GstMluFrame) \<Rightarrow> 'd GstCnconvert \<Rightarrow> 'd GstCnconvert" where
  "upd_frame fr f s = s\<lparr>v_frames := (v_frames s)\<lparr>fr_heap :=
     (fr_heap (v_frames s))(fr := map_option (\<lambda>(n, x). (n, f x)) (fr_heap (v_frames s) fr))\<rparr>\<rparr>"

text \<open>\<open>MemcpyH2D\<close> of the first \<open>n\<close> bytes of a mapped plane into the memory of a frame's plane.\<close>

definition cv_h2d :: "cv_env \<Rightarrow> nat \<Rightarrow> nat \<Rightarrow> u8 list \<Rightarrow> nat \<Rightarrow> 'd GstCnconvert \<Rightarrow> ('d GstCnconvert, unit) run" where
  "cv_h2d E fr i plane n s =
     call_then (plane_addr E fr i s) (\<lambda>p s.
       let s = cv_do (Cv_H2D p (take n plane)) s
       in if length plane < n \<or> \<not> blk_ok (dmem (fr_mach (v_frames s))) p n then UB
          else call_then (cv_mach (CHECK_CNRT_RET (x_copy E (v_trace s)) ''Memcpy host to device failed.'' ()) s) (\<lambda>_.
            cv_mach (\<lambda>m. Ret () (m\<lparr>dmem := store_bytes (dmem m) p (take n plane)\<rparr>))))"

definition pic_plane :: "GstVideoFrame \<Rightarrow> nat \<Rightarrow> u8 list" where
  "pic_plane f i = (if i < length (gf_data f) then gf_data f ! i else [])"

definition cv_set_plane :: "nat \<Rightarrow> nat \<Rightarrow> nat \<Rightarrow> 'd GstCnconvert \<Rightarrow> 'd GstCnconvert" where
  "cv_set_plane fr i n s = upd_frame fr (\<lambda>x. x\<lparr>fr_data := (fr_data x)[i := cn_syncedmem_new n]\<rparr>) s"

definition cv_upload :: "cv_env \<Rightarrow> nat \<Rightarrow> GstVideoFormat \<Rightarrow> GstVideoFrame \<Rightarrow> 'd GstCnconvert \<Rightarrow> ('d GstCnconvert, bool) run" where
  "cv_upload E fr fmt f s =
     (let i = gf_info f; h = (word_of_int (vi_height i) :: u32);
          st = (\<lambda>k. (word_of_int (nth0 (vi_stride i) k) :: u32));
          s = upd_frame fr (\<lambda>x. x\<lparr>fr_width := word_of_int (vi_width i), fr_height := h, n_planes := 1,
                fr_device_id := v_device_id s, fr_stride := (fr_stride x)[0 := st 0]\<rparr>) s
      in if isYUV420sp fmt
         then let s = upd_frame fr (\<lambda>x. x\<lparr>n_planes := 2, fr_stride := (fr_stride x)[1 := st 1]\<rparr>) s;
                  y_len = unat (h * st 0); uv_len = unat (h * st 1) div 2;
                  s = cv_set_plane fr 1 uv_len (cv_set_plane fr 0 y_len s)
              in call_then (cv_h2d E fr 0 (pic_plane f 0) y_len s) (\<lambda>_ s.
                 call_then (cv_h2d E fr 1 (pic_plane f 1) uv_len s) (\<lambda>_ s. Ret True s))
         else let len = unat (h * st 0); s = cv_set_plane fr 0 len s
              in call_then (cv_h2d E fr 0 (pic_plane f 0) len s) (\<lambda>_ s. Ret True s))"

definition transform_to_mlu :: "cv_env \<Rightarrow> cv_buffer \<Rightarrow> nat \<Rightarrow> GstVideoFormat \<Rightarrow> 'd GstCnconvert \<Rightarrow> ('d GstCnconvert, bool) run" where
  "transform_to_mlu E b fr fmt s =
     (if fmt = GST_VIDEO_FORMAT_I420 then Ret False s
      else case cb_picture b of None \<Rightarrow> Ret False s
        | Some f \<Rightarrow> ScopeGuard (cv_do Cv_Unmap) (cv_upload E fr fmt f (cv_do Cv_Map s)))"

subsection \<open>The pads\<close>

text \<open>
  The device frame of the input and the meta that carries it: no result ends \<open>chain\<close> with an error.
  A missing meta is reported and then dereferenced.
\<close>

definition cv_input_mlu :: "cv_env \<Rightarrow> cv_buffer \<Rightarrow> 'd GstCnconvert \<Rightarrow> ('d GstCnconvert, MluMemoryMeta option) run" where
  "cv_input_mlu E b s =
     (case cb_meta b of None \<Rightarrow> UB
      | Some m \<Rightarrow>
        let s = (if meta_frame m = 0 then cv_do (Cv_Bus ''get meta failed'') s else s)
        in if v_env s then Ret (Some m) s
           else case frame_of (meta_frame m) s of None \<Rightarrow> UB
             | Some x \<Rightarrow> call_then (cv_bind E (s\<lparr>v_device_id := fr_device_id x\<rparr>)) (\<lambda>ok s.
                 Ret (if ok then Some m else None) s))"

definition cv_input_host :: "cv_env \<Rightarrow> cv_buffer \<Rightarrow> 'd GstCnconvert \<Rightarrow> ('d GstCnconvert, MluMemoryMeta option) run" where
  "cv_input_host E b s =
     call_then (if v_env s then Ret True s else cv_bind E (s\<lparr>v_device_id := if v_device_id s = -1 then 0 else v_device_id s\<rparr>)) (\<lambda>ok s.
       if \<not> ok then Ret None s
       else let (fr, w) = gst_mlu_frame_new (v_frames s)
            in call_then (transform_to_mlu E b fr (vi_format (v_sink_info s)) (s\<lparr>v_frames := w\<rparr>)) (\<lambda>ok s.
                 Ret (if ok then Some (gst_buffer_add_mlu_memory_meta fr (Some ''convert'')) else None) s))"

text \<open>The call-once initialisation gives up at the first failure and is never tried again.\<close>

definition cv_init_once :: "cv_env \<Rightarrow> 'd GstCnconvert \<Rightarrow> ('d GstCnconvert, unit) run" where
  "cv_init_once E s =
     (if v_init_done s then Ret () s
      else cv_SAFECALL E Cv_cnrtCreateQueue ''Call [cnrtCreateQueue(&priv->queue)] failed'' () (\<lambda>s.
           cv_SAFECALL E Cv_cncvCreate ''Call [cncvCreate(&priv->handle)] failed'' () (\<lambda>s.
           cv_SAFECALL E Cv_cncvSetQueue ''Call [cncvSetQueue(priv->handle, priv->queue)] failed'' () (Ret ())
             (s\<lparr>v_handle := True\<rparr>)) (s\<lparr>v_queue := True\<rparr>)) (s\<lparr>v_init_done := True\<rparr>))"

definition cv_push :: "cv_env \<Rightarrow> cv_payload \<Rightarrow> cv_buffer \<Rightarrow> 'd GstCnconvert \<Rightarrow> ('d GstCnconvert, flow_return) run" where
  "cv_push E p b s = (let s = cv_do (Cv_Push p (cb_pts b) (cb_duration b)) s in Ret (x_push E (v_trace s)) s)"

definition cv_output :: "cv_env \<Rightarrow> MluMemoryMeta \<Rightarrow> cv_buffer \<Rightarrow> 'd GstCnconvert \<Rightarrow> ('d GstCnconvert, flow_return) run" where
  "cv_output E meta b s =
     (if v_output_on_mlu s then cv_push E (Cv_Same (Some meta)) b s
      else case transform_to_cpu E (meta_frame meta) (vi_format (v_src_info s)) s of
          Ret bs t \<Rightarrow> cv_push E (Cv_Host bs) b (cv_do Cv_Unref t)
        | Exc e t \<Rightarrow> Ret GST_FLOW_ERROR (cv_do (Cv_Bus (err_desc e)) (cv_do Cv_Unref t))
        | UB \<Rightarrow> UB | Terminate \<Rightarrow> Terminate | Blocked t \<Rightarrow> Blocked t)"

definition cv_convert :: "cv_env \<Rightarrow> MluMemoryMeta \<Rightarrow> cv_buffer \<Rightarrow> 'd GstCnconvert \<Rightarrow> ('d GstCnconvert, flow_return) run" where
  "cv_convert E meta b s =
     (if v_disable_convert s \<and> v_disable_resize s then cv_output E meta b s
      else call_then (cv_process E (meta_frame meta) s) (\<lambda>ok s.
        if \<not> ok then Ret GST_FLOW_ERROR s
        else call_then (cv_replace_frame E (meta_frame meta) s) (\<lambda>fr s.
          cv_output E (meta\<lparr>meta_src := Some ''convert'', meta_frame := fr\<rparr>) b s)))"

definition gst_cnconvert_chain :: "cv_env \<Rightarrow> cv_buffer \<Rightarrow> 'd GstCnconvert \<Rightarrow> ('d GstCnconvert, flow_return) run" where
  "gst_cnconvert_chain E b s =
     (if v_disable_resize s \<and> v_disable_convert s \<and> v_output_on_mlu s = v_input_on_mlu s
      then call_then (cv_push E (Cv_Same (cb_meta b)) b s) (\<lambda>_ s. Ret GST_FLOW_OK s)
      else call_then (if v_input_on_mlu s then cv_input_mlu E b s else cv_input_host E b s) (\<lambda>meta s.
        case meta of None \<Rightarrow> Ret GST_FLOW_ERROR s
        | Some m \<Rightarrow> call_then (cv_init_once E s) (\<lambda>_ s. cv_convert E m b s)))"

text \<open>
  What GStreamer answers while caps are negotiated: the stream description and the memory of the
  input, whether the downstream caps are any or empty, whether the size could be fixed, the
  description and memory of the output, and whether the source pad takes the caps.
\<close>

record cv_caps =
  vc_sink_info :: "GstVideoInfo option"
  vc_sink_mlu :: bool
  vc_peer_any :: bool
  vc_peer_empty :: bool
  vc_fixed :: bool
  vc_src_info :: "GstVideoInfo option"
  vc_set_ok :: bool
  vc_src_mlu :: bool

text \<open>The formats the element offers downstream for an input format; none for an unsupported one.\<close>

definition rgb_family :: "GstVideoFormat list" where
  "rgb_family = [GST_VIDEO_FORMAT_RGB, GST_VIDEO_FORMAT_BGR, GST_VIDEO_FORMAT_ARGB, GST_VIDEO_FORMAT_ABGR,
     GST_VIDEO_FORMAT_BGRA, GST_VIDEO_FORMAT_RGBA]"

definition cv_offers :: "GstVideoFormat \<Rightarrow> GstVideoFormat list option" where
  "cv_offers fmt =
     (case fmt of GST_VIDEO_FORMAT_NV12 \<Rightarrow> Some (GST_VIDEO_FORMAT_NV12 # rgb_family)
      | GST_VIDEO_FORMAT_NV21 \<Rightarrow> Some (GST_VIDEO_FORMAT_NV21 # rgb_family)
      | GST_VIDEO_FORMAT_I420 \<Rightarrow> Some [GST_VIDEO_FORMAT_I420]
      | GST_VIDEO_FORMAT_OTHER _ \<Rightarrow> None
      | _ \<Rightarrow> Some rgb_family)"

text \<open>
  Releasing what is left from the stream before. The test is inverted: TRUE, the answer of a
  successful release, is taken as the failure, and the pointer is not cleared.
\<close>

definition cv_release :: "cv_env \<Rightarrow> target \<Rightarrow> 'd GstCnconvert \<Rightarrow> ('d GstCnconvert, bool) run" where
  "cv_release E t s =
     (if t \<in> v_dangling s then UB
      else if mem_of t s = None then Ret True s
      else call_then (on_mem t (drop_held (x_rt E)) s) (\<lambda>freed s.
             if freed then Ret False (cv_do (Cv_Bus ''Free mlu memory failed'') (s\<lparr>v_dangling := insert t (v_dangling s)\<rparr>))
             else Ret True s))"

definition cv_settle :: "cv_env \<Rightarrow> cv_caps \<Rightarrow> 'd GstCnconvert \<Rightarrow> ('d GstCnconvert, bool) run" where
  "cv_settle E c s =
     (let i = v_sink_info s; j = v_src_info s;
          dr = (vi_width i = vi_width j \<and> vi_height i = vi_height j); dc = (vi_format i = vi_format j);
          s = s\<lparr>v_output_on_mlu := vc_src_mlu c, v_disable_resize := dr, v_disable_convert := dc\<rparr>
      in if dr \<and> \<not> dc \<and> (\<not> isRGB (vi_format i) \<or> \<not> isRGB (vi_format j))
         then Ret False (cv_do (Cv_Bus ''without resize, only rgb series to rgb series convert is supported'') s)
         else if \<not> dr \<and> dc \<and> \<not> isRGB (vi_format i)
         then Ret False (cv_do (Cv_Bus ''without color convert, only rgb series resize is supported'') s)
         else call_then (cv_release E Dst_Mem s) (\<lambda>ok s. if ok then cv_release E Tmp_Mem s else Ret False s))"

definition gst_cnconvert_setcaps :: "cv_env \<Rightarrow> cv_caps \<Rightarrow> 'd GstCnconvert \<Rightarrow> ('d GstCnconvert, bool) run" where
  "gst_cnconvert_setcaps E c s =
     (case vc_sink_info c of None \<Rightarrow> Ret False s
      | Some i \<Rightarrow>
        let s = s\<lparr>v_sink_info := i, v_input_on_mlu := vc_sink_mlu c\<rparr>
        in if cv_offers (vi_format i) = None \<or> vc_peer_any c \<or> vc_peer_empty c \<or> \<not> vc_fixed c then Ret False s
           else case vc_src_info c of None \<Rightarrow> Ret False s
             | Some j \<Rightarrow> let s = s\<lparr>v_src_info := j\<rparr> in if vc_set_ok c then cv_settle E c s else Ret False s)"

datatype cv_event = CV_EVENT_CAPS cv_caps | CV_EVENT_OTHER bool

fun gst_cnconvert_sink_event :: "cv_env \<Rightarrow> cv_event \<Rightarrow> 'd GstCnconvert \<Rightarrow> ('d GstCnconvert, bool) run" where
  "gst_cnconvert_sink_event E (CV_EVENT_CAPS c) s = gst_cnconvert_setcaps E c s"
| "gst_cnconvert_sink_event E (CV_EVENT_OTHER dflt) s = Ret dflt s"

definition gst_cnconvert_finalize :: "cv_env \<Rightarrow> 'd GstCnconvert \<Rightarrow> ('d GstCnconvert, unit) run" where
  "gst_cnconvert_finalize E s =
     call_then (on_mem Dst_Mem (drop_held (x_rt E)) s) (\<lambda>_ s.
     call_then (on_mem Tmp_Mem (drop_held (x_rt E)) s) (\<lambda>_ s.
     call_then (on_ws (drop_held (x_rt E)) s) (\<lambda>_ s.
     call_then (if v_handle s
         then cv_SAFECALL E Cv_cncvDestroy ''Call [cncvDestroy(priv->handle)] failed'' False (\<lambda>s. Ret True (s\<lparr>v_handle := False\<rparr>)) s
         else Ret True s) (\<lambda>ok s.
     if \<not> ok then Ret () s
     else if v_queue s
     then cv_SAFECALL E Cv_cnrtDestroyQueue ''Call [cnrtDestroyQueue(priv->queue)] failed'' () (\<lambda>s. Ret () (s\<lparr>v_queue := False\<rparr>)) s
     else Ret () s))))"

subsection \<open>Conversion modes\<close>

definition cv_modes :: "'d GstCnconvert \<Rightarrow> GstVideoInfo \<times> GstVideoInfo \<times> bool \<times> bool" where
  "cv_modes s = (v_sink_info s, v_src_info s, v_disable_resize s, v_disable_convert s)"

lemma cv_modes_on_mem: "cv_modes s = k \<Longrightarrow> ensures (\<lambda>t. cv_modes t = k) (on_mem tg f s)"
  by (cases tg) (auto simp: on_mem_def cv_modes_def intro!: ensures_lift_all)

lemma cv_modes_do [simp]: "cv_modes (cv_do a s) = cv_modes s" "cv_modes (s\<lparr>v_dangling := d\<rparr>) = cv_modes s"
  by (simp_all add: cv_do_def cv_modes_def)

lemma cv_modes_release:
  assumes "cv_modes s = k"
  shows "ensures (\<lambda>t. cv_modes t = k) (cv_release E tg s)"
proof -
  have "ensures (\<lambda>t. cv_modes t = k) (call_then (on_mem tg (drop_held (x_rt E)) s) (\<lambda>freed s.
      if freed then Ret False (cv_do (Cv_Bus m) (s\<lparr>v_dangling := insert tg (v_dangling s)\<rparr>)) else Ret True s))" for m
    by (rule ensures_then [OF cv_modes_on_mem [OF assms]]) (simp split: if_split)
  then show ?thesis using assms by (simp add: cv_release_def)
qed


subsection \<open>The inverted test of \<open>setcaps\<close>\<close>

lemma cn_syncedmem_free_True: "cn_syncedmem_free rt ms = Ret b ms' \<Longrightarrow> b"
  by (auto simp: cn_syncedmem_free_def call_then_Ret_iff free_dev_or_fail_def FreeMlu_def split: if_splits prod.splits outcome.splits)

lemma drop_held_True: "drop_held rt h = Ret b h' \<Longrightarrow> b"
  by (auto simp: drop_held_def lift_call_Ret_iff dest: cn_syncedmem_free_True split: option.splits)

lemma cv_release_held:
  assumes "cv_release E t s = Ret r u" and "mem_of t s \<noteq> None"
  shows "\<not> r \<and> t \<in> v_dangling u"
  using assms
  by (cases t) (auto simp: cv_release_def call_then_Ret_iff on_mem_def lift_call_Ret_iff cv_do_def
      dest!: drop_held_True split: if_splits)

lemma cv_release_none: "mem_of t s = None \<Longrightarrow> t \<notin> v_dangling s \<Longrightarrow> cv_release E t s = Ret True s"
  by (simp add: cv_release_def)

lemma cv_dangling_finalize:
  assumes "v_dangling s \<noteq> {}"
  shows "\<not> (\<exists>u. gst_cnconvert_finalize E s = Ret () u)"
proof
  assume "\<exists>u. gst_cnconvert_finalize E s = Ret () u"
  then obtain a u b v where u: "on_mem Dst_Mem (drop_held (x_rt E)) s = Ret a u" and v: "on_mem Tmp_Mem (drop_held (x_rt E)) u = Ret b v"
    by (auto simp: gst_cnconvert_finalize_def call_then_Ret_iff)
  from u have "Dst_Mem \<notin> v_dangling s" "v_dangling u = v_dangling s"
    by (auto simp: on_mem_def lift_call_Ret_iff split: if_splits)
  moreover from v have "Tmp_Mem \<notin> v_dangling u" by (auto simp: on_mem_def split: if_splits)
  ultimately show False using assms by (metis (full_types) equals0I target.exhaust)
qed

text \<open>
  The temporary memory of a resize with conversion inside the RGB family is allocated by the first
  picture and kept.
\<close>

lemma on_mem_keeps:
  assumes "ensures (\<lambda>(m, x). x \<noteq> None) (f (fr_mach (v_frames s), mem_of t s))"
  shows "ensures (\<lambda>u. mem_of t u \<noteq> None) (on_mem t f s)"
  using assms
  by (cases t) (auto simp: on_mem_def mem_of_def ensures_lift split_def)

lemma on_held_keeps: "ensures (\<lambda>(m, x). x \<noteq> None) (on_held f h)"
  by (auto simp: on_held_def ensures_lift split: option.split) (auto simp: ensures_def split: outcome.split)

definition has_tmp :: "'d GstCnconvert \<Rightarrow> bool" where
  "has_tmp s \<longleftrightarrow> v_tmp_mem s \<noteq> None"

lemma has_tmp_intros [ensures_intros]:
  "has_tmp s \<Longrightarrow> ensures has_tmp (on_ws f s)" "has_tmp s \<Longrightarrow> ensures has_tmp (cv_mach g s)"
  "has_tmp s \<Longrightarrow> ensures has_tmp (on_plane fr i f s)" "has_tmp s \<Longrightarrow> ensures has_tmp (on_mem Dst_Mem f s)"
  by (auto simp: on_ws_def cv_mach_def on_plane_def on_mem_def has_tmp_def Let_def ensures_lift split_def
      intro!: ensures_lift_all split: option.split)
    (auto simp: ensures_def split: outcome.split)

lemma has_tmp_addr [ensures_intros]: "has_tmp s \<Longrightarrow> ensures has_tmp (mem_addr E t s)"
proof (cases t)
  case Tmp_Mem
  then show ?thesis using on_mem_keeps [OF on_held_keeps, of Tmp_Mem]
    by (simp add: mem_addr_def has_tmp_def [abs_def] mem_of_def)
qed (simp add: mem_addr_def has_tmp_intros)

lemma has_tmp_SAFECALL [ensures_intros]:
  "has_tmp t \<Longrightarrow> (\<And>u. has_tmp u \<Longrightarrow> ensures has_tmp (k u)) \<Longrightarrow> ensures has_tmp (cv_SAFECALL E a name val k t)"
  by (simp add: cv_SAFECALL_def Let_def cv_do_def has_tmp_def)

lemma has_tmp_store_all:
  "has_tmp s \<Longrightarrow> \<forall>g\<in>set gs. \<forall>u. has_tmp u \<longrightarrow> ensures has_tmp (g u) \<Longrightarrow> ensures has_tmp (cv_store_all tab i gs s)"
  by (induction gs arbitrary: i s) (auto intro!: ensures_intros)

lemma has_tmp_table:
  "has_tmp s \<Longrightarrow> \<forall>g\<in>set gs. \<forall>u. has_tmp u \<longrightarrow> ensures has_tmp (g u) \<Longrightarrow> ensures has_tmp (cv_table E gs s)"
  unfolding cv_table_def by (auto intro!: ensures_intros has_tmp_store_all)

lemma has_tmp_sync [ensures_intros]: "has_tmp s \<Longrightarrow> ensures has_tmp (cv_sync E t s)"
  unfolding cv_sync_def by (auto intro!: ensures_intros)

lemma plane_addr_tmp: "has_tmp s \<Longrightarrow> ensures has_tmp (plane_addr E fr i s)"
  unfolding plane_addr_def by (auto intro!: ensures_intros)

lemma mem_addr_tmp: "ensures has_tmp (mem_addr E Tmp_Mem s)"
  using on_mem_keeps [OF on_held_keeps, of Tmp_Mem] by (simp add: mem_addr_def has_tmp_def [abs_def] mem_of_def)

lemma table_tmp:
  assumes "cv_table E [g, mem_addr E Tmp_Mem] s = Ret tab v"
  shows "has_tmp v"
proof -
  from assms obtain q u e w where st: "cv_store_all q 0 [g, mem_addr E Tmp_Mem] u = Ret e w"
    and d: "on_ws (on_held (cn_syncedmem_get_dev_data (x_rt E))) w = Ret tab v"
    unfolding cv_table_def call_then_Ret_iff by blast
  from st obtain p c d x where c: "mem_addr E Tmp_Mem c = Ret p d" and w: "cv_mach (store_ptr q 1 p) d = Ret x w"
    by (auto simp: call_then_Ret_iff)
  from ensures_RetD [OF mem_addr_tmp c] have "has_tmp d" .
  from ensures_RetD [OF has_tmp_intros(2) [OF this] w] have "has_tmp w" .
  from ensures_RetD [OF has_tmp_intros(1) [OF this] d] show ?thesis .
qed

lemma resize_rgb_tmp:
  assumes "cv_resize_rgb E fr Tmp_Mem s = Ret True t"
  shows "has_tmp t"
proof -
  from assms obtain u tab v src dst ws where tab: "cv_table E [plane_addr E fr 0, mem_addr E Tmp_Mem] u = Ret tab v"
    and k: "cv_SAFECALL E (Cv_ResizeRgbx src tab dst (tab + 8) ws (tab + 16)) ''Call [cncvResizeRgbx] failed'' False (cv_sync E Tmp_Mem) v = Ret True t"
    by (auto simp: cv_resize_rgb_def Let_def cv_SAFECALL_def [of E Cv_ResizeRgbxWorkspace] call_then_Ret_iff split: if_splits)
  from ensures_RetD [OF has_tmp_SAFECALL [OF table_tmp [OF tab] has_tmp_sync] k] show ?thesis .
qed

lemma new_if_null_tmp: "has_tmp s \<Longrightarrow> ensures has_tmp (cv_new_if_null sz Dst_Mem s)"
  by (auto simp: cv_new_if_null_def intro!: has_tmp_intros split: option.split)

lemma cvt_rgb_tmp: "has_tmp s \<Longrightarrow> ensures has_tmp (cv_cvt_rgb E (mem_addr E Tmp_Mem) Dst_Mem s)"
  unfolding cv_cvt_rgb_def Let_def
  by (intro ensures_then has_tmp_intros(1) new_if_null_tmp has_tmp_table has_tmp_SAFECALL has_tmp_sync)
    (auto intro: has_tmp_addr)

lemma cv_process_tmp:
  assumes "\<not> v_disable_convert s" and "\<not> v_disable_resize s" and "isRGB (vi_format (v_sink_info s))" and "isRGB (vi_format (v_src_info s))"
    and "cv_process E fr s = Ret True t"
  shows "v_tmp_mem t \<noteq> None"
proof -
  have "\<not> isYUV420sp (vi_format (v_sink_info s))" using assms(3) by (auto simp: isRGB_def isYUV420sp_def)
  with assms obtain u where u: "cv_resize_rgb E fr Tmp_Mem s = Ret True u" and t: "cv_cvt_rgb E (mem_addr E Tmp_Mem) Dst_Mem u = Ret True t"
    by (auto simp: cv_process_def call_then_Ret_iff split: if_splits)
  from ensures_RetD [OF cvt_rgb_tmp [OF resize_rgb_tmp [OF u]] t] show ?thesis by (simp add: has_tmp_def)
qed

text \<open>After a stream that was resized and converted inside the RGB family, new caps of that family
  cannot be accepted: \<open>setcaps\<close> frees the temporary memory, takes the success for a failure and
  answers FALSE, keeping the pointer; finalizing the element then frees the memory again.\<close>

theorem cv_second_caps:
  assumes mode: "\<not> v_disable_convert s" "\<not> v_disable_resize s" "isRGB (vi_format (v_sink_info s))" "isRGB (vi_format (v_src_info s))"
    and first: "cv_process E fr s = Ret True t" and later: "v_tmp_mem u = v_tmp_mem t" "v_dangling u = {}"
    and caps: "vc_sink_info c = Some i" "vc_src_info c = Some j" "isRGB (vi_format i)" "isRGB (vi_format j)"
      "\<not> vc_peer_any c" "\<not> vc_peer_empty c" "vc_fixed c" "vc_set_ok c"
    and set: "gst_cnconvert_setcaps E c u = Ret r w"
  shows "\<not> r \<and> \<not> (\<exists>x. gst_cnconvert_finalize E w = Ret () x)"
proof -
  define v where "v = u\<lparr>v_sink_info := i, v_input_on_mlu := vc_sink_mlu c, v_src_info := j, v_output_on_mlu := vc_src_mlu c,
      v_disable_resize := (vi_width i = vi_width j \<and> vi_height i = vi_height j), v_disable_convert := (vi_format i = vi_format j)\<rparr>"
  obtain fs where "cv_offers (vi_format i) = Some fs" using caps(3) by (auto simp: cv_offers_def isRGB_def)
  then have run: "call_then (cv_release E Dst_Mem v) (\<lambda>ok s. if ok then cv_release E Tmp_Mem s else Ret False s) = Ret r w"
    using set caps by (simp add: gst_cnconvert_setcaps_def cv_settle_def Let_def v_def)
  have tmp: "mem_of Tmp_Mem v \<noteq> None" and dang: "v_dangling v = {}"
    using cv_process_tmp [OF mode first] later by (simp_all add: mem_of_def v_def)
  have "\<not> r \<and> v_dangling w \<noteq> {}"
  proof (cases "mem_of Dst_Mem v")
    case None
    with run dang have "cv_release E Tmp_Mem v = Ret r w" by (simp add: cv_release_none)
    from cv_release_held [OF this tmp] show ?thesis by auto
  next
    case (Some sm)
    from run obtain ok x where x: "cv_release E Dst_Mem v = Ret ok x" and k: "(if ok then cv_release E Tmp_Mem x else Ret False x) = Ret r w"
      by (auto simp: call_then_Ret_iff)
    from cv_release_held [OF x] Some k show ?thesis by auto
  qed
  with cv_dangling_finalize show ?thesis by blast
qed

end
