(* ===== verification/Convert_Frames.thy ===== *)
theory Convert_Frames
  imports Cnconvert
begin

text \<open>
  The pictures cnconvert moves: what a download to the host and an upload to the device leave, and
  what becomes of the frame a conversion replaces.
\<close>

subsection \<open>Planes on the device\<close>

text \<open>Plane \<open>i\<close> of frame \<open>fr\<close> is current on the device and its block there holds the bytes \<open>bs\<close>.\<close>

definition on_device :: "'d GstCnconvert \<Rightarrow> nat \<Rightarrow> nat \<Rightarrow> u8 list \<Rightarrow> bool" where
  "on_device s fr i bs \<longleftrightarrow>
     (\<exists>x sm. frame_of fr s = Some x \<and> i < length (fr_data x) \<and> fr_data x ! i = Some sm \<and> head sm = GST_SYNCHEAD_AT_MLU \<and>
        dev_ptr sm \<noteq> 0 \<and> dmem (fr_mach (v_frames s)) (dev_ptr sm) = Some bs)"

lemma plane_addr_on_device:
  assumes "on_device s fr i bs"
  shows "\<exists>p. plane_addr E fr i s = Ret p s \<and> p \<noteq> 0 \<and> dmem (fr_mach (v_frames s)) p = Some bs"
proof -
  from assms obtain n x sm where fr: "fr_heap (v_frames s) fr = Some (n, x)" "i < length (fr_data x)" "fr_data x ! i = Some sm"
      "head sm = GST_SYNCHEAD_AT_MLU" and p: "dev_ptr sm \<noteq> 0" "dmem (fr_mach (v_frames s)) (dev_ptr sm) = Some bs"
    by (auto simp: on_device_def frame_of_def)
  have sm: "sm\<lparr>head := GST_SYNCHEAD_AT_MLU\<rparr> = sm" using fr(4) by (cases sm) simp
  have upd: "(fr_data x)[i := Some sm] = fr_data x" using fr(3) by (metis list_update_id)
  have heap: "(fr_heap (v_frames s))(fr \<mapsto> (n, x)) = fr_heap (v_frames s)" using fr(1) by (simp add: fun_upd_idem)
  have x: "x\<lparr>fr_data := fr_data x\<rparr> = x" by (cases x) simp
  have "plane_addr E fr i s = Ret (dev_ptr sm) s"
    using fr by (simp add: plane_addr_def on_plane_def on_held_def sm_ops to_mlu_def sm upd x heap)
  with p show ?thesis by blast
qed

lemma cv_d2h_ok:
  assumes "on_device s fr i bs" and "n \<le> length bs" and "\<forall>tr. x_copy E tr = CNRT_RET_SUCCESS" and "off + n \<le> length buf"
  shows "\<exists>p. cv_d2h E fr i off n buf s = Ret (fill buf off (take n bs)) (cv_do (Cv_D2H p n) s)"
proof -
  from plane_addr_on_device [OF assms(1), of E] obtain p where p: "plane_addr E fr i s = Ret p s" "p \<noteq> 0" "dmem (fr_mach (v_frames s)) p = Some bs"
    by blast
  have put: "put buf off (take n bs) = Some (fill buf off (take n bs))" using assms(2,4) by (simp add: put_def fill_def)
  show ?thesis using p assms(2,3) put
    by (intro exI [of _ p]) (simp add: cv_d2h_def Let_def cv_do_def blk_ok_def cv_mach_def CHECK_CNRT_RET_def)
qed

lemma on_device_do [simp]: "on_device (cv_do a s) fr i bs = on_device s fr i bs" "frame_of fr (cv_do a s) = frame_of fr s"
  by (simp_all add: on_device_def frame_of_def cv_do_def)

subsection \<open>Sizes that pass through float\<close>

lemma f32_round_small: "n < 2 ^ 24 \<Longrightarrow> f32_round n = n"
  using bit_len_le [of n 24] by (simp add: f32_round_def Let_def)

subsection \<open>Download of a packed picture\<close>

text \<open>
  With padded rows the host gets the tight rows in a block of just that size; with rows that are
  tight already it gets them at the front of a block that is as many times too large as a pixel has
  bytes.
\<close>

lemma to_cpu_packed:
  assumes fr: "frame_of fr s = Some x" and dev: "on_device s fr 0 bs"
    and fmt: "isRGB fmt" and ch: "ch = nat (get_channel_num_plane0 fmt)"
    and w: "w = unat (fr_width x)" and h: "h = unat (fr_height x)" and st: "st = unat (nth0 (fr_stride x) 0)"
    and le: "w * ch \<le> st" and len: "length bs = st * h" and sz: "st * h * ch < 2 ^ 24"
    and copy: "\<forall>tr. x_copy E tr = CNRT_RET_SUCCESS"
  shows "\<exists>t. transform_to_cpu E fr fmt s =
      Ret (if st = w * ch then bs @ replicate (st * h * (ch - 1)) (x_junk E) else pack (w * ch) h st 0 bs) t"
proof -
  have c: "ch = 3 \<or> ch = 4" and planar: "\<not> isYUV420sp fmt" "fmt \<noteq> GST_VIDEO_FORMAT_I420" "\<not> is_planar fmt"
    using fmt by (auto simp: isRGB_def ch isYUV420sp_def is_planar_def)
  have ge: "st * h \<le> st * h * ch" using c by auto
  from ge sz have y24: "st * h < 2 ^ 24" by (rule le_less_trans)
  then have y: "m32 (st * h) = st * h" by (intro m32_id) simp
  have wh: "w * h * ch \<le> st * h" using mult_le_mono1 [OF le, of h] by (simp add: ac_simps)
  have a1: "cv_alloc_size fmt (st * h) = st * h * ch"
    using sz y24 planar ch by (simp add: cv_alloc_size_def f32_round_small)
  have "w * h \<le> w * h * ch" using c by auto
  then have wh24: "w * h < 2 ^ 24" using wh y24 by linarith
  have "w * h * ch < 2 ^ 24" using wh y24 by linarith
  then have a2: "cv_alloc_size fmt (m32 (w * h)) = w * h * ch"
    using wh24 planar ch by (simp add: cv_alloc_size_def f32_round_small del: mult_le_mono1)
  let ?buf = "replicate (st * h * ch) (x_junk E)"
  from cv_d2h_ok [OF dev, of "st * h" E 0 ?buf] len copy ge obtain p where
    d: "cv_d2h E fr 0 0 (st * h) ?buf s = Ret (fill ?buf 0 bs) (cv_do (Cv_D2H p (st * h)) s)" by auto
  have fill: "fill ?buf 0 bs = bs @ replicate (st * h * (ch - 1)) (x_junk E)"
    using len ge c by (auto simp: fill_def copy_into_def algebra_simps)
  have out: "cv_copy_out E fr fmt (st * h) u v ?buf s = Ret (bs @ replicate (st * h * (ch - 1)) (x_junk E)) (cv_do (Cv_D2H p (st * h)) s)" for u v
    using planar d fill by (simp add: cv_copy_out_def)
  have wc: "m32 (w * ch) = w * ch"
  proof -
    have "w * ch \<le> st" "st < 2 ^ 32" using le st unsigned_less [of "nth0 (fr_stride x) 0", where ?'a = nat] by auto
    then show ?thesis by simp
  qed
  have clear: "cv_clear_alignment fmt w h st s1 s2 (bs @ rest) (replicate (w * h * ch) (x_junk E)) = Some (pack (w * ch) h st 0 bs)" for s1 s2 rest
  proof -
    have "(if fmt = GST_VIDEO_FORMAT_RGB \<or> fmt = GST_VIDEO_FORMAT_BGR then 3 else 4) = ch"
      using fmt ch by (auto simp: isRGB_def)
    moreover have "for_rows (rgb_row w ch st (bs @ rest)) [0..<h] (replicate (w * h * ch) (x_junk E)) = Some (pack (w * ch) h st 0 (bs @ rest))"
      using le y24 len by (intro clear_alignment_rgb) (simp_all add: ac_simps)
    moreover have "pack (w * ch) h st 0 (bs @ rest) = pack (w * ch) h st 0 bs"
      using len le by (intro pack_append1) (simp_all add: mult.commute)
    ultimately show ?thesis using planar by (simp add: cv_clear_alignment_def)
  qed
  show ?thesis
    using fr out clear a1 a2 y wc
    by (simp add: transform_to_cpu_def Let_def st [symmetric] h [symmetric] w [symmetric] ch [symmetric])
qed

subsection \<open>Upload of a packed picture\<close>

lemma frame_of_upd [simp]:
  "frame_of fr (upd_frame fr f s) = map_option f (frame_of fr s)"
  "fr_mach (v_frames (upd_frame fr f s)) = fr_mach (v_frames s)"
  by (simp_all add: frame_of_def upd_frame_def option.map_comp o_def split_def)

text \<open>The first copy into a new plane allocates its device block and fills it.\<close>

lemma plane_addr_fresh:
  assumes rt: "cnrt_ok (x_rt E)" "cnrt_reliable (x_rt E)" "finite (dom (dmem (fr_mach (v_frames s))))"
    and fr: "frame_of fr s = Some x" "i < length (fr_data x)" "fr_data x ! i = cn_syncedmem_new n" and n: "0 < n"
  shows "\<exists>p b sm t. plane_addr E fr i s = Ret p t \<and> p \<noteq> 0 \<and> length b = n \<and> head sm = GST_SYNCHEAD_AT_MLU \<and> dev_ptr sm = p \<and>
    frame_of fr t = Some (x\<lparr>fr_data := (fr_data x)[i := Some sm]\<rparr>) \<and> dmem (fr_mach (v_frames t)) p = Some b"
proof -
  let ?m = "fr_mach (v_frames s)"
  let ?sm = "\<lparr>host_ptr = 0, dev_ptr = 0, own_host_data = False, own_dev_data = False,
      head = GST_SYNCHEAD_UNINITIALIZED, mem_size = n, err_msg = [], ctx_dev_id = 0\<rparr>"
  from fr(1) obtain k where k: "fr_heap (v_frames s) fr = Some (k, x)" by (auto simp: frame_of_def)
  have new: "cn_syncedmem_new n = Some ?sm" using n by (simp add: cn_syncedmem_new_def)
  obtain p b where p: "AllocMlu (x_rt E) n ?m = Ret p (?m\<lparr>dmem := (dmem ?m)(p := Some b)\<rparr>)" "length b = n" "p \<noteq> 0"
    using AllocMlu_reliable [OF rt(2,3), of n] by (auto intro: AllocMlu_cases [OF rt(1), of n ?m])
  have "plane_addr E fr i s = Ret p (s\<lparr>v_frames := (v_frames s)\<lparr>fr_mach := ?m\<lparr>dmem := (dmem ?m)(p := Some b)\<rparr>,
      fr_heap := (fr_heap (v_frames s))(fr \<mapsto> (k, x\<lparr>fr_data := (fr_data x)[i := Some (?sm\<lparr>dev_ptr := p, own_dev_data := True, head := GST_SYNCHEAD_AT_MLU\<rparr>)]\<rparr>))\<rparr>\<rparr>)"
    using k fr(2,3) p(1) by (simp add: plane_addr_def on_plane_def on_held_def sm_ops to_mlu_def new Let_def)
  with p(2,3) show ?thesis by (intro exI conjI) (auto simp: frame_of_def)
qed

lemma cv_h2d_fresh:
  assumes rt: "cnrt_ok (x_rt E)" "cnrt_reliable (x_rt E)" "finite (dom (dmem (fr_mach (v_frames s))))"
    and fr: "frame_of fr s = Some x" "i < length (fr_data x)" "fr_data x ! i = cn_syncedmem_new n" and n: "0 < n"
    and len: "n \<le> length plane" and copy: "\<forall>tr. x_copy E tr = CNRT_RET_SUCCESS"
  shows "\<exists>sm t. cv_h2d E fr i plane n s = Ret () t \<and> on_device t fr i (take n plane) \<and>
    frame_of fr t = Some (x\<lparr>fr_data := (fr_data x)[i := Some sm]\<rparr>)"
proof -
  from plane_addr_fresh [OF rt fr n] obtain p b sm t where
    p: "plane_addr E fr i s = Ret p t" "p \<noteq> 0" "length b = n" "head sm = GST_SYNCHEAD_AT_MLU" "dev_ptr sm = p"
      "frame_of fr t = Some (x\<lparr>fr_data := (fr_data x)[i := Some sm]\<rparr>)" "dmem (fr_mach (v_frames t)) p = Some b" by blast
  have full: "copy_into b 0 (take n plane) n = take n plane" using p(3) len by (simp add: copy_into_def)
  let ?t = "(cv_do (Cv_H2D p (take n plane)) t)\<lparr>v_frames := (v_frames t)\<lparr>fr_mach := (fr_mach (v_frames t))\<lparr>
      dmem := (dmem (fr_mach (v_frames t)))(p \<mapsto> take n plane)\<rparr>\<rparr>\<rparr>"
  have "cv_h2d E fr i plane n s = Ret () ?t" using p copy len full
    by (simp add: cv_h2d_def Let_def cv_do_def blk_ok_def cv_mach_def CHECK_CNRT_RET_def store_bytes_def)
  moreover have f: "frame_of fr ?t = Some (x\<lparr>fr_data := (fr_data x)[i := Some sm]\<rparr>)" using p(6) by (simp add: frame_of_def)
  moreover have "on_device ?t fr i (take n plane)" using f p fr(2) by (simp add: on_device_def)
  ultimately show ?thesis by blast
qed

text \<open>C14: A packed RGB picture that is uploaded to the device and downloaded again comes back as its rows
  without padding, whatever its stride, when no copy or allocation is refused and the sizes are
  exact in \<open>float\<close>. Only if the rows had no padding to begin with, what the host gets is longer: the
  picture is followed by bytes that nobody wrote, two or three times as many as it has.\<close>

theorem upload_download_packed:
  assumes rt: "cnrt_ok (x_rt E)" "cnrt_reliable (x_rt E)" "finite (dom (dmem (fr_mach (v_frames s))))"
    and copy: "\<forall>tr. x_copy E tr = CNRT_RET_SUCCESS"
    and fr: "frame_of fr s = Some x" "fr_data x \<noteq> []" "fr_stride x \<noteq> []"
    and fmt: "isRGB fmt" and ch: "ch = nat (get_channel_num_plane0 fmt)"
    and dim: "vi_width (gf_info f) = int w" "vi_height (gf_info f) = int h" "nth0 (vi_stride (gf_info f)) 0 = int st"
    and le: "w * ch \<le> st" and pos: "0 < w" "0 < h" and sz: "st * h * ch < 2 ^ 24"
    and len: "length (pic_plane f 0) = st * h"
  shows "\<exists>t u. cv_upload E fr fmt f s = Ret True t \<and> transform_to_cpu E fr fmt t =
      Ret (if st = w * ch then pic_plane f 0 @ replicate (st * h * (ch - 1)) (x_junk E) else pack (w * ch) h st 0 (pic_plane f 0)) u"
proof -
  have c: "ch = 3 \<or> ch = 4" and planar: "\<not> isYUV420sp fmt" using fmt by (auto simp: isRGB_def ch isYUV420sp_def)
  have "w \<le> w * ch" using c by auto
  then have w: "w \<le> st" using le by linarith
  have "st * h \<le> st * h * ch" using c by auto
  then have n: "st * h < 2 ^ 24" using sz by linarith
  have "st \<le> st * h" "h \<le> st * h" "0 < st * h" using pos w by auto
  moreover from this n w have "st < 2 ^ 24" "h < 2 ^ 24" "w < 2 ^ 24" by linarith+
  ultimately have bounds: "w < 2 ^ 32" "h < 2 ^ 32" "st < 2 ^ 32" "0 < st * h" by simp_all
  let ?y = "x\<lparr>fr_width := word_of_int (int w), fr_height := word_of_int (int h), n_planes := 1,
      fr_device_id := v_device_id s, fr_stride := (fr_stride x)[0 := word_of_int (int st)]\<rparr>"
  let ?s = "cv_set_plane fr 0 (st * h) (upd_frame fr (\<lambda>x. x\<lparr>fr_width := word_of_int (int w), fr_height := word_of_int (int h), n_planes := 1,
      fr_device_id := v_device_id s, fr_stride := (fr_stride x)[0 := word_of_int (int st)]\<rparr>) s)"
  have y: "frame_of fr ?s = Some (?y\<lparr>fr_data := (fr_data x)[0 := cn_syncedmem_new (st * h)]\<rparr>)"
    using fr(1) by (simp add: cv_set_plane_def)
  have fin: "finite (dom (dmem (fr_mach (v_frames ?s))))" using rt(3) by (simp add: cv_set_plane_def)
  have size: "unat ((word_of_int (int h) :: u32) * word_of_int (int st)) = st * h"
    using n by (simp add: unat_word_ariths unsigned_of_nat take_bit_eq_mod mult.commute mod_mult_eq)
  from cv_h2d_fresh [OF rt(1,2) fin y, of 0 "st * h" "pic_plane f 0"] fr(2) bounds len copy obtain sm t where
    t: "cv_h2d E fr 0 (pic_plane f 0) (st * h) ?s = Ret () t" "on_device t fr 0 (pic_plane f 0)"
      "frame_of fr t = Some (?y\<lparr>fr_data := [sm] @ tl (fr_data x)\<rparr>)"
    by (auto simp: list_update_code neq_Nil_conv)
  have up: "cv_upload E fr fmt f s = Ret True t"
    using t(1) planar size by (simp add: cv_upload_def Let_def dim)
  have "\<exists>u. transform_to_cpu E fr fmt t =
      Ret (if st = w * ch then pic_plane f 0 @ replicate (st * h * (ch - 1)) (x_junk E) else pack (w * ch) h st 0 (pic_plane f 0)) u"
    by (rule to_cpu_packed [OF t(3,2) fmt ch])
      (use bounds fr(3) le len sz copy in \<open>auto simp: unsigned_of_nat take_bit_nat_eq_self neq_Nil_conv nth0_def\<close>)
  with up show ?thesis by blast
qed

subsection \<open>Concrete runs\<close>

definition demo_fresh :: "mach \<Rightarrow> addr" where
  "demo_fresh m = (if dmem m 1 = None then 1 else if dmem m 2 = None then 2 else if dmem m 3 = None then 3 else 4)"

definition demo_cv_env :: "(mach \<Rightarrow> addr) \<Rightarrow> cv_env" where
  "demo_cv_env fresh = \<lparr>x_major = 5, x_dev = ref_dev_lib, x_rt = ref_cnrt fresh, x_ok = (\<lambda>_. True), x_copy = (\<lambda>_. CNRT_RET_SUCCESS),
     x_wsize = (\<lambda>_. 8), x_pixels = (\<lambda>_. [9, 9, 9]), x_push = (\<lambda>_. GST_FLOW_OK), x_junk = 205\<rparr>"

definition demo_cv_info :: "GstVideoFormat \<Rightarrow> int \<Rightarrow> int \<Rightarrow> int \<Rightarrow> GstVideoInfo" where
  "demo_cv_info f w h st = \<lparr>vi_format = f, vi_interlace = GST_VIDEO_INTERLACE_MODE_PROGRESSIVE,
     vi_width = w, vi_height = h, vi_fps_n = 0, vi_fps_d = 1, vi_stride = [st]\<rparr>"

definition demo_cv_caps :: "GstVideoInfo \<Rightarrow> GstVideoInfo \<Rightarrow> cv_caps" where
  "demo_cv_caps i j = \<lparr>vc_sink_info = Some i, vc_sink_mlu = True, vc_peer_any = False, vc_peer_empty = False,
     vc_fixed = True, vc_src_info = Some j, vc_set_ok = True, vc_src_mlu = True\<rparr>"

definition demo_cv0 :: "GstSyncedMemory option \<Rightarrow> nat GstCnconvert" where
  "demo_cv0 plane = gst_cnconvert_init
     \<lparr>fr_heap = (\<lambda>_. None)(1 \<mapsto> (1, empty_frame\<lparr>fr_data := [plane]\<rparr>)), fr_next = 2, fr_mach = demo_mach, fr_calls = [], fr_freed = []\<rparr>
     ref_dev_state"

theorem upload_download_packed_witness:
  "\<exists>t u. cv_upload (demo_cv_env next_dev_addr) 1 GST_VIDEO_FORMAT_BGR
       \<lparr>gf_info = demo_cv_info GST_VIDEO_FORMAT_BGR 1 2 4, gf_data = [[1, 2, 3, 0, 4, 5, 6, 0]]\<rparr> (demo_cv0 None) = Ret True t \<and>
     transform_to_cpu (demo_cv_env next_dev_addr) 1 GST_VIDEO_FORMAT_BGR t = Ret [1, 2, 3, 4, 5, 6] u"
proof -
  have "\<exists>t u. cv_upload (demo_cv_env next_dev_addr) 1 GST_VIDEO_FORMAT_BGR
       \<lparr>gf_info = demo_cv_info GST_VIDEO_FORMAT_BGR 1 2 4, gf_data = [[1, 2, 3, 0, 4, 5, 6, 0]]\<rparr> (demo_cv0 None) = Ret True t \<and>
     transform_to_cpu (demo_cv_env next_dev_addr) 1 GST_VIDEO_FORMAT_BGR t = Ret (if (4::nat) = 1 * 3 then [1, 2, 3, 0, 4, 5, 6, 0] @ replicate (4 * 2 * (3 - 1)) 205
       else pack (1 * 3) 2 4 0 [1, 2, 3, 0, 4, 5, 6, 0]) u"
    using upload_download_packed [of "demo_cv_env next_dev_addr" "demo_cv0 None" 1 "empty_frame\<lparr>fr_data := [None]\<rparr>" GST_VIDEO_FORMAT_BGR 3
        "\<lparr>gf_info = demo_cv_info GST_VIDEO_FORMAT_BGR 1 2 4, gf_data = [[1, 2, 3, 0, 4, 5, 6, 0]]\<rparr>" 1 2 4]
    by (simp add: demo_cv_env_def ref_cnrt_ok ref_cnrt_reliable demo_cv0_def gst_cnconvert_init_def demo_mach_def frame_of_def
        isRGB_def demo_cv_info_def nth0_def pic_plane_def empty_frame_def MAXIMUM_PLANE_def)
  then show ?thesis by (simp add: pack_def numeral_2_eq_2)
qed


definition demo_cv_plane :: GstSyncedMemory where
  "demo_cv_plane = \<lparr>host_ptr = 0, dev_ptr = 1, own_host_data = False, own_dev_data = True,
     head = GST_SYNCHEAD_AT_MLU, mem_size = 12, err_msg = [], ctx_dev_id = 0\<rparr>"

definition demo_cv1 :: "nat GstCnconvert" where
  "demo_cv1 = \<lparr>v_device_id = 0, v_sink_info = demo_cv_info GST_VIDEO_FORMAT_RGB 2 2 6, v_src_info = demo_cv_info GST_VIDEO_FORMAT_BGR 1 1 4,
     v_dst_mem = None, v_tmp_mem = None, v_workspace = None, v_dangling = {}, v_handle = True, v_queue = True, v_init_done = True,
     v_input_on_mlu = True, v_output_on_mlu = True, v_disable_resize = False, v_disable_convert = False, v_env = True,
     v_dev = ref_dev_state,
     v_frames = \<lparr>fr_heap = (\<lambda>_. None)(1 \<mapsto> (1, empty_frame\<lparr>fr_data := [Some demo_cv_plane]\<rparr>)), fr_next = 2,
       fr_mach = \<lparr>hmem = (\<lambda>_. None), dmem = (\<lambda>_. None)(1 \<mapsto> replicate 12 0), hfree = 64, hnext = 2, hjunk = 0\<rparr>,
       fr_calls = [], fr_freed = []\<rparr>, v_trace = []\<rparr>"

lemmas cv_run_defs = cv_process_def cv_resize_rgb_def cv_cvt_rgb_def cv_SAFECALL_def cv_do_def on_ws_def cv_new_if_null_def
  gint3_def gint_mult_def mem_of_def on_mem_def cn_syncedmem_new_def cv_table_def on_held_def sm_ops to_cpu_def to_mlu_def
  malloc_host_def malloc_def plane_addr_def mem_addr_def on_plane_def AllocMlu_def MemcpyH2D_def ref_cnrt_calls CHECK_CNRT_RET_def
  cv_mach_def store_ptr_def cv_sync_def store_bytes_def ensure_held_def cn_syncedmem_get_size_def nth0_def copy_into_def
  isYUV420sp_def isRGB_def

lemma demo_cv_run:
  "\<exists>t w. cv_process (demo_cv_env demo_fresh) 1 demo_cv1 = Ret True t \<and> v_dangling t = {} \<and>
     gst_cnconvert_setcaps (demo_cv_env demo_fresh)
       (demo_cv_caps (demo_cv_info GST_VIDEO_FORMAT_RGB 4 4 12) (demo_cv_info GST_VIDEO_FORMAT_BGR 2 2 8)) t = Ret False w"
  by (simp add: cv_run_defs demo_cv1_def demo_cv_info_def Let_def demo_cv_env_def demo_cv_plane_def demo_fresh_def
      demo_cv_caps_def gst_cnconvert_setcaps_def cv_settle_def cv_release_def drop_held_def cn_syncedmem_free_def
      free_dev_or_fail_def FreeMlu_def free_def ref_cnrt_free cv_offers_def)

theorem cv_second_caps_witness:
  "\<exists>t w. cv_process (demo_cv_env demo_fresh) 1 demo_cv1 = Ret True t \<and>
     gst_cnconvert_setcaps (demo_cv_env demo_fresh)
       (demo_cv_caps (demo_cv_info GST_VIDEO_FORMAT_RGB 4 4 12) (demo_cv_info GST_VIDEO_FORMAT_BGR 2 2 8)) t = Ret False w \<and>
     \<not> (\<exists>x. gst_cnconvert_finalize (demo_cv_env demo_fresh) w = Ret () x)"
proof -
  from demo_cv_run obtain t w where t: "cv_process (demo_cv_env demo_fresh) 1 demo_cv1 = Ret True t" "v_dangling t = {}"
    and w: "gst_cnconvert_setcaps (demo_cv_env demo_fresh)
       (demo_cv_caps (demo_cv_info GST_VIDEO_FORMAT_RGB 4 4 12) (demo_cv_info GST_VIDEO_FORMAT_BGR 2 2 8)) t = Ret False w"
    by blast
  have "\<not> False \<and> \<not> (\<exists>x. gst_cnconvert_finalize (demo_cv_env demo_fresh) w = Ret () x)"
    by (rule cv_second_caps [OF _ _ _ _ t(1) refl t(2) _ _ _ _ _ _ _ _ w,
          where i = "demo_cv_info GST_VIDEO_FORMAT_RGB 4 4 12" and j = "demo_cv_info GST_VIDEO_FORMAT_BGR 2 2 8"])
      (simp_all add: demo_cv1_def demo_cv_info_def demo_cv_caps_def isRGB_def)
  with t w show ?thesis by auto
qed

end
