(* ===== verification/Format_Info.thy ===== *)
theory Format_Info
  imports Codec_Session Edk_Exception
begin

text \<open>
  The vocabulary of EasyDecode and EasyEncode: easydk/include/easycodec/vformat.h, the table of
  pixel formats with \<open>GetFormatInfo\<close> and \<open>GetPlaneSize\<close>, and the casts to the codec library's
  constants (easydk/src/easycodec/format_info.cpp).
\<close>

subsection \<open>Formats, frames and packets\<close>

datatype PixelFmt =
  NV12 | NV21 | I420 | YV12 | YUYV | UYVY | YVYU | VYUY | P010 | YUV420_10BIT | YUV444_10BIT
| ARGB | ABGR | BGRA | RGBA | AYUV | RGB565 | RAW | TOTAL_COUNT

datatype CodecType = MPEG2 | MPEG4 | H264 | H265 | VP8 | VP9 | AVS | MJPEG | JPEG

datatype ColorStd =
  ITU_BT_709 | ITU_BT_601 | ITU_BT_2020 | ITU_BT_601_ER | ITU_BT_709_ER | COLOR_STANDARD_INVALID

datatype BitStreamSliceType = SPS_PPS | FRAME

definition CN_MAXIMUM_PLANE :: nat where "CN_MAXIMUM_PLANE = 3"

record CnFrame =
  cf_buf_id :: nat
  cf_pts :: u64
  cf_height :: u32
  cf_width :: u32
  cf_frame_size :: u64
  cf_pformat :: PixelFmt
  cf_color_std :: ColorStd
  cf_device_id :: int
  cf_channel_id :: int
  cf_cpu_decode :: bool
  cf_n_planes :: nat
  cf_strides :: "u32 list"
  cf_ptrs :: "nat list"

text \<open>The bytes that can be read through the packet's pointer, none for a null pointer.\<close>

record CnPacket =
  pk_buf_id :: nat
  pk_data :: "u8 list option"
  pk_length :: nat
  pk_pts :: u64
  pk_codec_type :: CodecType
  pk_slice_type :: BitStreamSliceType

definition CnFrame0 :: CnFrame where
  "CnFrame0 = \<lparr>cf_buf_id = 0, cf_pts = 0, cf_height = 0, cf_width = 0, cf_frame_size = 0, cf_pformat = NV12,
     cf_color_std = ITU_BT_709, cf_device_id = 0, cf_channel_id = 0, cf_cpu_decode = False, cf_n_planes = 0,
     cf_strides = replicate CN_MAXIMUM_PLANE 0, cf_ptrs = replicate CN_MAXIMUM_PLANE 0\<rparr>"

subsection \<open>The table of formats\<close>

record FormatInfo =
  edk_fmt :: PixelFmt
  cncodec_fmt :: cncodecPixelFormat
  plane_num :: u32
  fmt_str :: string
  supported :: bool

definition FORMAT_PAIR :: "PixelFmt \<Rightarrow> cncodecPixelFormat \<Rightarrow> u32 \<Rightarrow> string \<Rightarrow> bool \<Rightarrow> PixelFmt \<times> FormatInfo" where
  "FORMAT_PAIR f c n str ok = (f, \<lparr>edk_fmt = f, cncodec_fmt = c, plane_num = n, fmt_str = str, supported = ok\<rparr>)"

definition kFrameFormatMap :: "(PixelFmt \<times> FormatInfo) list" where
  "kFrameFormatMap =
     [FORMAT_PAIR NV12 CNCODEC_PIX_FMT_NV12 2 ''NV12'' True, FORMAT_PAIR NV21 CNCODEC_PIX_FMT_NV21 2 ''NV21'' True,
      FORMAT_PAIR I420 CNCODEC_PIX_FMT_I420 3 ''I420'' True, FORMAT_PAIR YV12 CNCODEC_PIX_FMT_YV12 3 ''YV12'' True,
      FORMAT_PAIR YUYV CNCODEC_PIX_FMT_YUYV 1 ''YUYV'' True, FORMAT_PAIR UYVY CNCODEC_PIX_FMT_UYVY 1 ''UYVY'' True,
      FORMAT_PAIR YVYU CNCODEC_PIX_FMT_YVYU 1 ''YVYU'' True, FORMAT_PAIR VYUY CNCODEC_PIX_FMT_VYUY 1 ''VYUY'' True,
      FORMAT_PAIR P010 CNCODEC_PIX_FMT_P010 2 ''P010'' False,
      FORMAT_PAIR YUV420_10BIT CNCODEC_PIX_FMT_YUV420_10BIT 2 ''YUV420_10BIT'' False,
      FORMAT_PAIR YUV444_10BIT CNCODEC_PIX_FMT_YUV444_10BIT 3 ''YUV444_10BIT'' False,
      FORMAT_PAIR ARGB CNCODEC_PIX_FMT_ARGB 1 ''ARGB'' False, FORMAT_PAIR ABGR CNCODEC_PIX_FMT_ABGR 1 ''ABGR'' False,
      FORMAT_PAIR BGRA CNCODEC_PIX_FMT_BGRA 1 ''BGRA'' False, FORMAT_PAIR RGBA CNCODEC_PIX_FMT_RGBA 1 ''RGBA'' False,
      FORMAT_PAIR AYUV CNCODEC_PIX_FMT_AYUV 1 ''AYUV'' False, FORMAT_PAIR RGB565 CNCODEC_PIX_FMT_RGB565 1 ''RGB565'' False,
      FORMAT_PAIR RAW CNCODEC_PIX_FMT_RAW 1 ''RAW'' False,
      FORMAT_PAIR TOTAL_COUNT CNCODEC_PIX_FMT_TOTAL_COUNT 0 ''TOTAL_COUNT'' False]"

definition GetFormatInfo :: "PixelFmt \<Rightarrow> exn + FormatInfo" where
  "GetFormatInfo fmt =
     (case map_of kFrameFormatMap fmt of None \<Rightarrow> Inl (throw UNSUPPORTED ''Unsupport pixel format'') | Some i \<Rightarrow> Inr i)"

text \<open>Sizes are products of \<open>unsigned int\<close> and wrap.\<close>

definition GetPlaneSize :: "FormatInfo \<Rightarrow> u32 \<Rightarrow> u32 \<Rightarrow> u32 \<Rightarrow> u32" where
  "GetPlaneSize info pitch height plane =
     (if plane \<ge> plane_num info then 0
      else if cncodec_fmt info \<in> {CNCODEC_PIX_FMT_NV12, CNCODEC_PIX_FMT_NV21, CNCODEC_PIX_FMT_I420, CNCODEC_PIX_FMT_YV12, CNCODEC_PIX_FMT_P010}
      then if plane = 0 then pitch * height else pitch * drop_bit 1 height
      else pitch * height)"

fun CodecTypeCast :: "CodecType \<Rightarrow> exn + cncodecType" where
  "CodecTypeCast MPEG2 = Inr CNCODEC_MPEG2"
| "CodecTypeCast MPEG4 = Inr CNCODEC_MPEG4"
| "CodecTypeCast H264 = Inr CNCODEC_H264"
| "CodecTypeCast H265 = Inr CNCODEC_HEVC"
| "CodecTypeCast VP8 = Inr CNCODEC_VP8"
| "CodecTypeCast VP9 = Inr CNCODEC_VP9"
| "CodecTypeCast AVS = Inr CNCODEC_AVS"
| "CodecTypeCast JPEG = Inr CNCODEC_JPEG"
| "CodecTypeCast MJPEG = Inl (throw UNSUPPORTED ''Unsupport codec type'')"

fun ColorStdCast :: "ColorStd \<Rightarrow> exn + cncodecColorSpace" where
  "ColorStdCast ITU_BT_709 = Inr CNCODEC_COLOR_SPACE_BT_709"
| "ColorStdCast ITU_BT_601 = Inr CNCODEC_COLOR_SPACE_BT_601"
| "ColorStdCast ITU_BT_2020 = Inr CNCODEC_COLOR_SPACE_BT_2020"
| "ColorStdCast ITU_BT_601_ER = Inr CNCODEC_COLOR_SPACE_BT_601_ER"
| "ColorStdCast ITU_BT_709_ER = Inr CNCODEC_COLOR_SPACE_BT_709_ER"
| "ColorStdCast COLOR_STANDARD_INVALID = Inl (throw UNSUPPORTED ''Unsupport color space standard'')"

text \<open>A value or a thrown exception, as a call.\<close>

fun of_sum :: "exn + 'a \<Rightarrow> 's \<Rightarrow> ('s, 'a) run" where
  "of_sum (Inl e) s = Exc e s"
| "of_sum (Inr a) s = Ret a s"

subsection \<open>Facts on the table\<close>

lemma GetFormatInfo_total: "\<exists>i. GetFormatInfo f = Inr i \<and> edk_fmt i = f"
  by (cases f) (simp_all add: GetFormatInfo_def kFrameFormatMap_def FORMAT_PAIR_def)

lemma plane_num_le: "GetFormatInfo f = Inr i \<Longrightarrow> plane_num i \<le> 3"
  by (cases f) (auto simp: GetFormatInfo_def kFrameFormatMap_def FORMAT_PAIR_def)

text \<open>The size of a semi-planar or planar frame with one stride for luma, half of it for planar chroma.\<close>

lemma unat_mult_small: "unat (a :: u32) * unat b < 2 ^ 32 \<Longrightarrow> unat (a * b) = unat a * unat b"
  by (simp add: unat_word_ariths)

lemma unat_half: "unat (drop_bit (Suc 0) (h :: u32)) = unat h div 2"
  by (simp add: drop_bit_eq_div unat_div)

lemma GetPlaneSize_nv12:
  assumes "GetFormatInfo f = Inr i" and "f = NV12 \<or> f = NV21" and "unat pitch * unat h < 2 ^ 32"
  shows "unat (GetPlaneSize i pitch h 0) = unat pitch * unat h" and "unat (GetPlaneSize i pitch h 1) = unat pitch * (unat h div 2)"
proof -
  have i: "plane_num i = 2" "cncodec_fmt i \<in> {CNCODEC_PIX_FMT_NV12, CNCODEC_PIX_FMT_NV21, CNCODEC_PIX_FMT_I420, CNCODEC_PIX_FMT_YV12, CNCODEC_PIX_FMT_P010}"
    using assms(1,2) by (auto simp: GetFormatInfo_def kFrameFormatMap_def FORMAT_PAIR_def)
  show "unat (GetPlaneSize i pitch h 0) = unat pitch * unat h"
    using i assms(3) by (simp add: GetPlaneSize_def unat_mult_small)
  have "unat pitch * (unat h div 2) \<le> unat pitch * unat h" by (intro mult_le_mono2) simp
  from this assms(3) have "unat pitch * (unat h div 2) < 2 ^ 32" by (rule le_less_trans)
  then have "unat pitch * unat (drop_bit (Suc 0) h) < 2 ^ 32" by (simp add: unat_half)
  then show "unat (GetPlaneSize i pitch h 1) = unat pitch * (unat h div 2)"
    using i by (simp add: GetPlaneSize_def unat_mult_small unat_half word_le_nat_alt)
qed

end
