(* ===== verification/Progressive_Jpeg.thy ===== *)
theory Progressive_Jpeg
  imports Format_Info
begin

text \<open>
  \<open>CheckProgressiveMode\<close> (easydk/src/easycodec/progressive_jpeg.cpp): it walks the marker segments
  of a JPEG stream and looks for a progressive start of frame. Reads outside the block the data lies
  in are undefined behaviour (\<open>None\<close>). The reference is a stream given by its segments.
\<close>

definition read16 :: "u8 list \<Rightarrow> nat \<Rightarrow> nat option" where
  "read16 d i = (if i + 1 < length d then Some (unat (d ! i) * 256 + unat (d ! (i + 1))) else None)"

function jpeg_walk :: "u8 list \<Rightarrow> nat \<Rightarrow> nat \<Rightarrow> int option" where
  "jpeg_walk d len i =
     (if i < len
      then case read16 d i of None \<Rightarrow> None
        | Some seg_header \<Rightarrow>
            if seg_header = 0xffc2 \<or> seg_header = 0xffca then Some 1
            else case read16 d (i + 2) of None \<Rightarrow> None | Some step \<Rightarrow> jpeg_walk d len (i + 2 + step)
      else Some 0)"
  by auto
termination
  by (relation "measure (\<lambda>(d, len, i). len - i)") auto

declare jpeg_walk.simps [simp del]

definition CheckProgressiveMode :: "u8 list \<Rightarrow> nat \<Rightarrow> int option" where
  "CheckProgressiveMode d len =
     (case read16 d 0 of None \<Rightarrow> None
      | Some header \<Rightarrow> if header \<noteq> 0xffd8 then Some (-1) else jpeg_walk d len 2)"

subsection \<open>Streams of segments\<close>

text \<open>A segment: its two marker bytes and its payload, whose length field counts itself.\<close>

type_synonym segment = "u8 \<times> u8 \<times> u8 list"

definition seg_ok :: "segment \<Rightarrow> bool" where
  "seg_ok = (\<lambda>(a, b, p). length p + 2 < 65536)"

definition seg_bytes :: "segment \<Rightarrow> u8 list" where
  "seg_bytes = (\<lambda>(a, b, p). [a, b, word_of_nat ((length p + 2) div 256), word_of_nat ((length p + 2) mod 256)] @ p)"

definition jpeg_bytes :: "segment list \<Rightarrow> u8 list" where
  "jpeg_bytes segs = [0xff, 0xd8] @ concat (map seg_bytes segs)"

definition progressive_sof :: "segment \<Rightarrow> bool" where
  "progressive_sof = (\<lambda>(a, b, p). a = 0xff \<and> (b = 0xc2 \<or> b = 0xca))"

lemma read16_append: "length xs = i \<Longrightarrow> read16 (xs @ a # b # ys) i = Some (unat a * 256 + unat b)"
  by (simp add: read16_def nth_append)

lemma length_field:
  assumes "n < 65536"
  shows "unat (word_of_nat (n div 256) :: u8) * 256 + unat (word_of_nat (n mod 256) :: u8) = n"
proof -
  have "n div 256 < 256" using assms by (simp add: less_mult_imp_div_less)
  then show ?thesis by (simp add: unsigned_of_nat take_bit_eq_mod)
qed

lemma marker_eq:
  fixes a b :: u8
  assumes "c < 256" and "d < 256"
  shows "unat a * 256 + unat b = c * 256 + d \<longleftrightarrow> unat a = c \<and> unat b = d"
proof -
  have "unat b < 256" using unsigned_less [of b, where ?'a = nat] by simp
  then have "(unat a * 256 + unat b) div 256 = unat a" "(unat a * 256 + unat b) mod 256 = unat b" by simp_all
  moreover have "(c * 256 + d) div 256 = c" "(c * 256 + d) mod 256 = d" using assms(2) by simp_all
  ultimately show ?thesis by metis
qed

lemma unat_eq_numeral: "unat (a :: u8) = 255 \<longleftrightarrow> a = 0xff" "unat a = 194 \<longleftrightarrow> a = 0xc2" "unat a = 202 \<longleftrightarrow> a = 0xca"
  by (simp_all add: word_unat_eq_iff)

text \<open>One step of the walk over one segment.\<close>

lemma jpeg_walk_segment:
  assumes "seg_ok g" and "length xs = i" and "i < len"
  shows "jpeg_walk (xs @ seg_bytes g @ rest) len i =
     (if progressive_sof g then Some 1 else jpeg_walk ((xs @ seg_bytes g) @ rest) len (i + length (seg_bytes g)))"
proof -
  obtain a b p where g: "g = (a, b, p)" by (cases g)
  let ?hi = "word_of_nat ((length p + 2) div 256) :: u8" and ?lo = "word_of_nat ((length p + 2) mod 256) :: u8"
  have m: "read16 (xs @ a # b # ?hi # ?lo # p @ rest) i = Some (unat a * 256 + unat b)"
    using assms(2) by (rule read16_append)
  have "read16 ((xs @ [a, b]) @ ?hi # ?lo # p @ rest) (i + 2) = Some (unat ?hi * 256 + unat ?lo)"
    by (rule read16_append) (simp add: assms(2))
  moreover have "unat ?hi * 256 + unat ?lo = length p + 2"
    using assms(1) g by (intro length_field) (simp add: seg_ok_def)
  ultimately have s: "read16 (xs @ a # b # ?hi # ?lo # p @ rest) (i + 2) = Some (length p + 2)" by simp
  have sof: "(unat a * 256 + unat b = 0xffc2 \<or> unat a * 256 + unat b = 0xffca) \<longleftrightarrow> progressive_sof g"
    using marker_eq [of 255 194 a b] marker_eq [of 255 202 a b] by (simp add: g progressive_sof_def unat_eq_numeral) blast
  show ?thesis
    using assms(3) m s sof by (subst jpeg_walk.simps) (simp add: g seg_bytes_def)
qed

lemma jpeg_walk_segments:
  assumes "\<forall>g\<in>set segs. seg_ok g" and "length xs + length (concat (map seg_bytes segs)) \<le> len"
  shows "jpeg_walk (xs @ concat (map seg_bytes segs) @ rest) len (length xs) =
     (if \<exists>g\<in>set segs. progressive_sof g then Some 1
      else jpeg_walk (xs @ concat (map seg_bytes segs) @ rest) len (length xs + length (concat (map seg_bytes segs))))"
  using assms
proof (induction segs arbitrary: xs)
  case (Cons g segs)
  have pos: "0 < length (seg_bytes g)" by (cases g) (simp add: seg_bytes_def)
  have "jpeg_walk (xs @ seg_bytes g @ concat (map seg_bytes segs) @ rest) len (length xs) =
      (if progressive_sof g then Some 1
       else jpeg_walk ((xs @ seg_bytes g) @ concat (map seg_bytes segs) @ rest) len (length xs + length (seg_bytes g)))"
    by (rule jpeg_walk_segment) (use Cons.prems pos in \<open>simp_all del: length_greater_0_conv\<close>)
  then show ?case using Cons.IH [of "xs @ seg_bytes g"] Cons.prems by (simp add: add.assoc)
qed simp

text \<open>C16: On a stream made of an image start and whole marker segments, \<open>CheckProgressiveMode\<close> answers as
  the reference does: 1 exactly if some segment is a progressive start of frame, and 0 otherwise,
  without reading outside the stream; and what follows the segments does not matter once a
  progressive start of frame is among them.\<close>

theorem CheckProgressiveMode_segments:
  assumes "\<forall>g\<in>set segs. seg_ok g"
  shows "CheckProgressiveMode (jpeg_bytes segs) (length (jpeg_bytes segs)) = Some (if \<exists>g\<in>set segs. progressive_sof g then 1 else 0) \<and>
    (\<forall>rest. (\<exists>g\<in>set segs. progressive_sof g) \<longrightarrow>
       CheckProgressiveMode (jpeg_bytes segs @ rest) (length (jpeg_bytes segs @ rest)) = Some 1)"
proof -
  have walk: "jpeg_walk (jpeg_bytes segs @ rest) len 2 =
      (if \<exists>g\<in>set segs. progressive_sof g then Some 1 else jpeg_walk (jpeg_bytes segs @ rest) len (length (jpeg_bytes segs)))"
    if "length (jpeg_bytes segs) \<le> len" for rest len
    using jpeg_walk_segments [of segs "[0xff, 0xd8]" len rest] assms that by (simp add: jpeg_bytes_def numeral_2_eq_2)
  have head: "read16 (jpeg_bytes segs @ rest) 0 = Some 0xffd8" for rest by (simp add: jpeg_bytes_def read16_def)
  have stop: "jpeg_walk d n n = Some 0" for d n by (subst jpeg_walk.simps) simp
  show ?thesis using walk [of "length (jpeg_bytes segs)" "[]"] walk head [of "[]"] head stop
    by (simp add: CheckProgressiveMode_def)
qed

theorem CheckProgressiveMode_segments_witness:
  "CheckProgressiveMode [0xff, 0xd8, 0xff, 0xe0, 0, 3, 7, 0xff, 0xca, 0, 2] 11 = Some 1"
proof -
  let ?segs = "[(0xff, 0xe0, [7]), (0xff, 0xca, [])] :: segment list"
  have "\<forall>g\<in>set ?segs. seg_ok g" by (simp add: seg_ok_def)
  from CheckProgressiveMode_segments [OF this]
  have "CheckProgressiveMode (jpeg_bytes ?segs) (length (jpeg_bytes ?segs)) = Some 1" by (simp add: progressive_sof_def)
  moreover have "jpeg_bytes ?segs = [0xff, 0xd8, 0xff, 0xe0, 0, 3, 7, 0xff, 0xca, 0, 2]"
    by (simp add: jpeg_bytes_def seg_bytes_def)
  ultimately show ?thesis by (simp add: eval_nat_numeral)
qed

text \<open>A stream that ends inside a segment header is read past its end.\<close>

lemma CheckProgressiveMode_truncated: "CheckProgressiveMode [0xff, 0xd8, 0xff] 3 = None"
  unfolding CheckProgressiveMode_def by (subst jpeg_walk.simps) (simp add: read16_def)

end
