(* ===== verification/Easy_Decode.thy ===== *)
theory Easy_Decode
  imports Progressive_Jpeg Gst_Types
begin

text \<open>
  EasyDecode and its DecodeHandler (easydk/src/easycodec/easy_decode.cpp), the decoder of the EasyDK
  library, in the default build (without TurboJPEG). \<open>DecodeHandler\<close> is its state; \<open>h_trace\<close> lists what
  it did to the codec library and to its user, the newest first, and the answers of the library are
  functions of that trace. A function \<open>Foo\<close> of the source is \<open>edec_Foo\<close> where another component has
  one of that name.
\<close>

subsection \<open>State\<close>

record Attr =
  at_w :: u32
  at_h :: u32
  at_codec_type :: CodecType
  at_pixel_format :: PixelFmt
  at_color_std :: ColorStd
  at_input_buffer_num :: u32
  at_output_buffer_num :: u32
  at_interlaced :: bool
  at_frame_callback :: bool
  at_eos_callback :: bool
  at_dev_id :: int
  at_stride_align :: int

datatype Status = RUNNING | PAUSED | STOP | EOS

record cnjpegDecCreateInfo =
  jc_pixelFmt :: cncodecPixelFormat
  jc_colorSpace :: cncodecColorSpace
  jc_width :: u32
  jc_height :: u32
  jc_inputBufNum :: u32
  jc_outputBufNum :: u32
  jc_deviceId :: int

datatype edec_act =
  Dec_Create cnvideoDecCreateInfo | Dec_SetAttr int | Dec_Start cnvideoDecCreateInfo | Dec_Stop | Dec_Destroy | Dec_Abort
| Dec_Feed "u8 list" u64 bool | Dec_Feed_Eos | Dec_AddRef nat | Dec_ReleaseRef nat
| Jpeg_Create cnjpegDecCreateInfo | Jpeg_Destroy | Jpeg_Abort | Jpeg_Feed "u8 list" u64 | Jpeg_Feed_Eos
| Jpeg_AddRef nat | Jpeg_ReleaseRef nat | Frame_Callback CnFrame | Eos_Callback

text \<open>
  \<open>g_timeout\<close> is \<open>CNCODEC_TIMEOUT\<close>; \<open>g_dirty\<close> says whether a failing creation leaves a value in the
  handle variable, which the code does not reset.
\<close>

record edec_env =
  g_ver :: nat
  g_turbo :: bool
  g_codec :: "edec_act list \<Rightarrow> cncodecRet"
  g_timeout :: int
  g_dirty :: bool

record DecodeHandler =
  h_attr :: Attr
  h_handle :: bool
  h_vparams :: cnvideoDecCreateInfo
  h_jparams :: cnjpegDecCreateInfo
  h_pixel_fmt_info :: FormatInfo
  h_packets_count :: u32
  h_frames_count :: u32
  h_minimum_buf_cnt :: int
  h_status :: Status
  h_send_eos :: bool
  h_got_eos :: bool
  h_jpeg_decode :: bool
  h_pts_key :: u32
  h_vpu_pts_map :: "u32 \<Rightarrow> u64 option"
  h_queue :: "cb_event list"
  h_loop :: loop_thread
  h_trace :: "edec_act list"

definition edec_do :: "edec_act \<Rightarrow> DecodeHandler \<Rightarrow> DecodeHandler" where
  "edec_do a s = s\<lparr>h_trace := a # h_trace s\<rparr>"

definition edec_ret :: "edec_env \<Rightarrow> DecodeHandler \<Rightarrow> cncodecRet" where
  "edec_ret E s = g_codec E (h_trace s)"

text \<open>\<open>std::to_string(ecode)\<close>.\<close>

fun ecode_string :: "int \<Rightarrow> cncodecRet \<Rightarrow> string" where
  "ecode_string timeout CNCODEC_SUCCESS = ''0''"
| "ecode_string timeout CNCODEC_TIMED_OUT = int_to_string (- timeout)"
| "ecode_string timeout (CNCODEC_ERR n) = int_to_string n"

subsection \<open>Time stamps\<close>

text \<open>
  The decoder unit returns 32 bits of time stamp with a frame; the user's 64 bits are kept under a
  key. The second argument of \<open>GetVpuTimestamp\<close> says whether the caller wants the value.
\<close>

definition SetVpuTimestamp :: "u64 \<Rightarrow> DecodeHandler \<Rightarrow> u32 \<times> DecodeHandler" where
  "SetVpuTimestamp pts s =
     (h_pts_key s, s\<lparr>h_pts_key := h_pts_key s + 1, h_vpu_pts_map := (h_vpu_pts_map s)(h_pts_key s \<mapsto> pts)\<rparr>)"

definition GetVpuTimestamp :: "u32 \<Rightarrow> bool \<Rightarrow> DecodeHandler \<Rightarrow> u64 option \<times> DecodeHandler" where
  "GetVpuTimestamp key wanted s =
     (case h_vpu_pts_map s key of
        Some pts \<Rightarrow> (if wanted then Some pts else None, s\<lparr>h_vpu_pts_map := (h_vpu_pts_map s)(key := None)\<rparr>)
      | None \<Rightarrow> (None, s))"

definition forget_pts :: "u32 \<Rightarrow> DecodeHandler \<Rightarrow> DecodeHandler" where
  "forget_pts key s = snd (GetVpuTimestamp key False s)"

subsection \<open>Events\<close>

definition edec_ReceiveEOS :: "DecodeHandler \<Rightarrow> DecodeHandler" where
  "edec_ReceiveEOS s =
     (let s = s\<lparr>h_status := EOS\<rparr>; s = (if at_eos_callback (h_attr s) then edec_do Eos_Callback s else s)
      in s\<lparr>h_got_eos := True\<rparr>)"

definition edec_AbortDecoder :: "DecodeHandler \<Rightarrow> DecodeHandler" where
  "edec_AbortDecoder s =
     (if h_handle s
      then edec_ReceiveEOS ((edec_do (if h_jpeg_decode s then Jpeg_Abort else Dec_Abort) s)\<lparr>h_handle := False\<rparr>)
      else s)"

definition edec_dispatch :: "nat \<Rightarrow> cb_event \<Rightarrow> DecodeHandler \<Rightarrow> DecodeHandler" where
  "edec_dispatch ver e s =
     (if e = CB_EOS then edec_ReceiveEOS s
      else if e \<in> {CB_SW_RESET, CB_HW_RESET, CB_OUT_OF_MEMORY, CB_ABORT_ERROR} then edec_AbortDecoder s
      else if e = CB_STREAM_CORRUPT \<and> 10600 \<le> ver then s
      else edec_AbortDecoder s)"

lemma edec_dispatch_queue [simp]: "h_queue (edec_dispatch ver e s) = h_queue s"
  by (simp add: edec_dispatch_def edec_ReceiveEOS_def edec_AbortDecoder_def edec_do_def Let_def)

definition edec_pop :: "DecodeHandler \<Rightarrow> DecodeHandler" where
  "edec_pop s = s\<lparr>h_queue := tl (h_queue s)\<rparr>"

definition edec_rest :: "DecodeHandler \<Rightarrow> DecodeHandler" where
  "edec_rest s = s\<lparr>h_loop := (if h_got_eos s then Loop_Done else Looping)\<rparr>"

function edec_EventTaskRunner :: "nat \<Rightarrow> DecodeHandler \<Rightarrow> DecodeHandler" where
  "edec_EventTaskRunner ver s =
     (case h_queue s of [] \<Rightarrow> edec_rest s
      | e # q \<Rightarrow> edec_EventTaskRunner ver (edec_dispatch ver e (edec_pop s)))"
  by auto
termination
  by (relation "measure (\<lambda>(ver, s). length (h_queue s))") (simp_all add: edec_pop_def)

declare edec_EventTaskRunner.simps [simp del]

definition edec_ReceiveEvent :: "cb_event \<Rightarrow> DecodeHandler \<Rightarrow> DecodeHandler" where
  "edec_ReceiveEvent e s = s\<lparr>h_queue := h_queue s @ [e]\<rparr>"

definition edec_ReceiveSequence :: "cnvideoDecSequenceInfo \<Rightarrow> DecodeHandler \<Rightarrow> DecodeHandler" where
  "edec_ReceiveSequence info s =
     (let p = h_vparams s;
          p = p\<lparr>ci_codec := si_codec info, ci_pixelFmt := cncodec_fmt (h_pixel_fmt_info s),
                ci_width := si_width info, ci_height := si_height info\<rparr>;
          p = (if si_minInputBufNum info > ci_inputBufNum p then p\<lparr>ci_inputBufNum := si_minInputBufNum info\<rparr> else p);
          p = (if si_minOutputBufNum info > ci_outputBufNum p then p\<lparr>ci_outputBufNum := si_minOutputBufNum info\<rparr> else p)
      in edec_do (Dec_Start p) (s\<lparr>h_vparams := p, h_minimum_buf_cnt := sint (si_minOutputBufNum info)\<rparr>))"

subsection \<open>Frames\<close>

definition plane_sizes :: "FormatInfo \<Rightarrow> cncodecFrame \<Rightarrow> u64 list" where
  "plane_sizes i f = map (\<lambda>k. ucast (GetPlaneSize i (nth0 (f_stride f) k) (f_height f) (of_nat k))) [0..<f_planeNum f]"

definition frame_for_user :: "DecodeHandler \<Rightarrow> cncodecFrame \<Rightarrow> u64 \<Rightarrow> CnFrame" where
  "frame_for_user s f pts = CnFrame0
     \<lparr>cf_pts := pts, cf_device_id := at_dev_id (h_attr s), cf_channel_id := sint (f_channel f), cf_buf_id := f_id f,
      cf_width := f_width f, cf_height := f_height f, cf_n_planes := f_planeNum f,
      cf_frame_size := sum_list (plane_sizes (h_pixel_fmt_info s) f),
      cf_strides := map (nth0 (f_stride f)) [0..<f_planeNum f] @ replicate (CN_MAXIMUM_PLANE - f_planeNum f) 0,
      cf_ptrs := map (nth0 (f_plane f)) [0..<f_planeNum f] @ replicate (CN_MAXIMUM_PLANE - f_planeNum f) 0,
      cf_pformat := at_pixel_format (h_attr s), cf_color_std := at_color_std (h_attr s)\<rparr>"

text \<open>
  \<open>pts\<close> is what the codec reports. When the video decoder's key is unknown, the frame keeps the
  zero of its initialisation. A frame of more than three planes is written past the arrays of
  \<open>CnFrame\<close>.
\<close>

definition edec_ReceiveFrame :: "cncodecFrame \<Rightarrow> u64 \<Rightarrow> DecodeHandler \<Rightarrow> (DecodeHandler, unit) run" where
  "edec_ReceiveFrame f pts s =
     (let (p, s) = (if h_jpeg_decode s then (Some pts, s) else GetVpuTimestamp (ucast pts) True s)
      in if f_width f = 0 \<or> f_height f = 0 \<or> f_planeNum f = 0 then Ret () s
         else if CN_MAXIMUM_PLANE < f_planeNum f then UB
         else if at_frame_callback (h_attr s)
         then let finfo = frame_for_user s f (case p of None \<Rightarrow> 0 | Some v \<Rightarrow> v);
                  s = edec_do (if h_jpeg_decode s then Jpeg_AddRef (f_id f) else Dec_AddRef (f_id f)) s;
                  s = edec_do (Frame_Callback finfo) s
              in Ret () (s\<lparr>h_frames_count := h_frames_count s + 1\<rparr>)
         else Ret () s)"

datatype edec_callback = Edec_Frame cncodecFrame u64 | Edec_Sequence cnvideoDecSequenceInfo | Edec_Event cb_event

fun edec_EventHandler :: "edec_callback \<Rightarrow> DecodeHandler \<Rightarrow> (DecodeHandler, unit) run" where
  "edec_EventHandler (Edec_Frame f pts) s = edec_ReceiveFrame f pts s"
| "edec_EventHandler (Edec_Sequence info) s = Ret () (edec_ReceiveSequence info s)"
| "edec_EventHandler (Edec_Event e) s = Ret () (edec_ReceiveEvent e s)"

subsection \<open>Feeding\<close>

text \<open>
  The retry loop of both \<open>Feed...Data\<close>: \<open>n\<close> attempts are left. When the last one times out, or the
  codec reports another failure, the record of the time stamp is erased and an exception thrown.
\<close>

fun feed_retry :: "edec_env \<Rightarrow> edec_act \<Rightarrow> u32 \<Rightarrow> string \<Rightarrow> nat \<Rightarrow> DecodeHandler \<Rightarrow> (DecodeHandler, unit) run" where
  "feed_retry E a key msg 0 s = Ret () s"
| "feed_retry E a key msg (Suc n) s =
     (let s = edec_do a s
      in case edec_ret E s of
           CNCODEC_TIMED_OUT \<Rightarrow>
             if n = 0 then Exc (throw TIMEOUT ''easydecode timeout'') (forget_pts key s) else feed_retry E a key msg n s
         | CNCODEC_SUCCESS \<Rightarrow> Ret () s
         | CNCODEC_ERR c \<Rightarrow> Exc (throw INTERNAL (msg @ ecode_string (g_timeout E) (CNCODEC_ERR c))) (forget_pts key s))"

definition edec_FeedVideoData :: "edec_env \<Rightarrow> CnPacket \<Rightarrow> bool \<Rightarrow> DecodeHandler \<Rightarrow> (DecodeHandler, unit) run" where
  "edec_FeedVideoData E packet integral_frame s =
     (let (key, s) = SetVpuTimestamp (pk_pts packet) s;
          bytes = take (pk_length packet) (case pk_data packet of None \<Rightarrow> [] | Some d \<Rightarrow> d)
      in call_then (feed_retry E (Dec_Feed bytes (ucast key) (10600 \<le> g_ver E \<and> integral_frame)) key
                     ''Feed data failed. cncodec error code: '' 3 s)
           (\<lambda>_ s. Ret () (s\<lparr>h_packets_count := h_packets_count s + 1\<rparr>)))"

definition edec_FeedJpegData :: "edec_env \<Rightarrow> CnPacket \<Rightarrow> DecodeHandler \<Rightarrow> (DecodeHandler, unit) run" where
  "edec_FeedJpegData E packet s =
     feed_retry E (Jpeg_Feed (take (pk_length packet) (case pk_data packet of None \<Rightarrow> [] | Some d \<Rightarrow> d)) (pk_pts packet))
       (ucast (pk_pts packet)) ''Feedd data failed. cncodec error code: '' 3 s"

definition edec_DecodeProgressiveJpeg :: "CnPacket \<Rightarrow> DecodeHandler \<Rightarrow> (DecodeHandler, unit) run" where
  "edec_DecodeProgressiveJpeg packet s = Exc (throw UNSUPPORTED ''Unsupport decode progressive JPEG'') s"

definition edec_FeedData :: "edec_env \<Rightarrow> CnPacket \<Rightarrow> bool \<Rightarrow> DecodeHandler \<Rightarrow> (DecodeHandler, bool) run" where
  "edec_FeedData E packet integral_frame s =
     (if \<not> h_handle s \<or> h_send_eos s \<or> h_status s = PAUSED then Ret False s
      else case pk_data packet of None \<Rightarrow> Ret False s
        | Some d \<Rightarrow>
            if pk_length packet = 0 then Ret False s
            else if \<not> h_jpeg_decode s
            then call_then (edec_FeedVideoData E packet integral_frame s) (\<lambda>_ s. Ret True s)
            else case CheckProgressiveMode d (pk_length packet) of None \<Rightarrow> UB
              | Some mode \<Rightarrow>
                  if mode < 0 then Ret False s
                  else call_then (if mode = 0 then edec_FeedJpegData E packet s else edec_DecodeProgressiveJpeg packet s)
                         (\<lambda>_ s. Ret True s))"

definition edec_FeedEos :: "edec_env \<Rightarrow> DecodeHandler \<Rightarrow> (DecodeHandler, bool) run" where
  "edec_FeedEos E s =
     (if h_send_eos s then Ret False s
      else let s = edec_do (if h_jpeg_decode s then Jpeg_Feed_Eos else Dec_Feed_Eos) s
           in case edec_ret E s of
                CNCODEC_TIMED_OUT \<Rightarrow> Exc (throw TIMEOUT ''EasyDecode feed EOS timeout'') s
              | CNCODEC_ERR c \<Rightarrow>
                  Exc (throw INTERNAL (''Feed EOS failed. cncodec error code: '' @ ecode_string (g_timeout E) (CNCODEC_ERR c))) s
              | CNCODEC_SUCCESS \<Rightarrow> Ret True (s\<lparr>h_send_eos := True\<rparr>))"

definition edec_ReleaseBuffer :: "nat \<Rightarrow> DecodeHandler \<Rightarrow> DecodeHandler" where
  "edec_ReleaseBuffer buf_id s = edec_do (if h_jpeg_decode s then Jpeg_ReleaseRef buf_id else Dec_ReleaseRef buf_id) s"

definition edec_Pause :: "DecodeHandler \<Rightarrow> bool \<times> DecodeHandler" where
  "edec_Pause s = (if h_status s = RUNNING then (True, s\<lparr>h_status := PAUSED\<rparr>) else (False, s))"

definition edec_Resume :: "DecodeHandler \<Rightarrow> bool \<times> DecodeHandler" where
  "edec_Resume s = (if h_status s = PAUSED then (True, s\<lparr>h_status := RUNNING\<rparr>) else (False, s))"

definition edec_GetStatus :: "DecodeHandler \<Rightarrow> Status" where
  "edec_GetStatus s = h_status s"

definition edec_GetMinimumOutputBufferCount :: "DecodeHandler \<Rightarrow> int" where
  "edec_GetMinimumOutputBufferCount s = h_minimum_buf_cnt s"

text \<open>
  \<open>CopyFrameD2H\<close>: \<open>rd\<close> answers the copies from the device; the destination is a host block, a null
  pointer being \<open>None\<close>. Sizes are products of \<open>uint32_t\<close>.
\<close>

definition edec_copy_plane :: "(nat \<Rightarrow> nat \<Rightarrow> cnrtRet \<times> u8 list) \<Rightarrow> nat \<Rightarrow> nat \<Rightarrow> nat \<Rightarrow> string \<Rightarrow> u8 list \<Rightarrow> (u8 list, unit) run" where
  "edec_copy_plane rd off p n msg dst =
     (let (r, bs) = rd p n
      in if r \<noteq> CNRT_RET_SUCCESS then CALL_CNRT_FUNC r msg dst
         else if off + n \<le> length dst \<and> length bs = n then Ret () (copy_into dst off bs n) else UB)"

definition edec_len :: "CnFrame \<Rightarrow> nat \<Rightarrow> nat" where
  "edec_len f i = (let n = unat (nth0 (cf_strides f) i * cf_height f) in if i = 0 then n else n div 2)"

definition edec_CopyFrameD2H :: "(nat \<Rightarrow> nat \<Rightarrow> cnrtRet \<times> u8 list) \<Rightarrow> u8 list option \<Rightarrow> CnFrame \<Rightarrow> (u8 list, bool) run" where
  "edec_CopyFrameD2H rd dst f =
     (case dst of None \<Rightarrow> Exc (throw INVALID_ARG ''CopyFrameD2H: destination is nullptr'') []
      | Some d \<Rightarrow>
          if cf_pformat f = NV21 \<or> cf_pformat f = NV12
          then call_then (edec_copy_plane rd 0 (nth0 (cf_ptrs f) 0) (edec_len f 0) ''Decode copy frame plane luminance failed.'' d) (\<lambda>_ d.
               call_then (edec_copy_plane rd (edec_len f 0) (nth0 (cf_ptrs f) 1) (edec_len f 1) ''Decode copy frame plane chroma failed.'' d) (\<lambda>_ d.
               Ret True d))
          else if cf_pformat f = I420
          then call_then (edec_copy_plane rd 0 (nth0 (cf_ptrs f) 0) (edec_len f 0) ''Decode copy frame plane y failed.'' d) (\<lambda>_ d.
               call_then (edec_copy_plane rd (edec_len f 0) (nth0 (cf_ptrs f) 1) (edec_len f 1) ''Decode copy frame plane u failed.'' d) (\<lambda>_ d.
               call_then (edec_copy_plane rd (edec_len f 0 + edec_len f 1) (nth0 (cf_ptrs f) 2) (edec_len f 2) ''Decode copy frame plane v failed.'' d) (\<lambda>_ d.
               Ret True d)))
          else Ret True d)"

subsection \<open>Construction and destruction\<close>

text \<open>
  The handler before its codec is created: the event loop runs. The value of the turbo counter, a
  static of \<open>InitVideoDecode\<close>, is an argument. \<open>no_format\<close> stands for the pointer not set yet.
\<close>

definition no_format :: FormatInfo where
  "no_format = \<lparr>edk_fmt = TOTAL_COUNT, cncodec_fmt = CNCODEC_PIX_FMT_TOTAL_COUNT, plane_num = 0, fmt_str = [], supported = False\<rparr>"

definition new_DecodeHandler :: "Attr \<Rightarrow> cnvideoDecCreateInfo \<Rightarrow> cnjpegDecCreateInfo \<Rightarrow> DecodeHandler" where
  "new_DecodeHandler attr v j =
     \<lparr>h_attr = attr, h_handle = False, h_vparams = v, h_jparams = j, h_pixel_fmt_info = no_format, h_packets_count = 0,
      h_frames_count = 0, h_minimum_buf_cnt = 0, h_status = RUNNING, h_send_eos = False, h_got_eos = False,
      h_jpeg_decode = False, h_pts_key = 0, h_vpu_pts_map = (\<lambda>_. None), h_queue = [], h_loop = Looping, h_trace = []\<rparr>"

definition edec_create :: "edec_env \<Rightarrow> edec_act \<Rightarrow> string \<Rightarrow> DecodeHandler \<Rightarrow> (DecodeHandler, unit) run" where
  "edec_create E a msg s =
     (let s = edec_do a s; r = edec_ret E s
      in if r = CNCODEC_SUCCESS then Ret () (s\<lparr>h_handle := True\<rparr>)
         else Exc (throw INIT_FAILED (msg @ ecode_string (g_timeout E) r)) (s\<lparr>h_handle := g_dirty E\<rparr>))"

definition edec_InitJpegDecode :: "edec_env \<Rightarrow> Attr \<Rightarrow> DecodeHandler \<Rightarrow> (DecodeHandler, unit) run" where
  "edec_InitJpegDecode E attr s =
     call_then (of_sum (GetFormatInfo (at_pixel_format attr)) (s\<lparr>h_attr := attr, h_jpeg_decode := True\<rparr>)) (\<lambda>fi s.
     call_then (of_sum (ColorStdCast (at_color_std attr)) (s\<lparr>h_pixel_fmt_info := fi\<rparr>)) (\<lambda>cs s.
       let j = \<lparr>jc_pixelFmt = cncodec_fmt fi, jc_colorSpace = cs, jc_width = at_w attr, jc_height = at_h attr,
                jc_inputBufNum = at_input_buffer_num attr, jc_outputBufNum = at_output_buffer_num attr, jc_deviceId = at_dev_id attr\<rparr>
       in edec_create E (Jpeg_Create j) ''Create jpeg decode failed: '' (s\<lparr>h_jparams := j\<rparr>)))"

definition edec_InitVideoDecode :: "edec_env \<Rightarrow> nat \<Rightarrow> Attr \<Rightarrow> DecodeHandler \<Rightarrow> (DecodeHandler, unit) run" where
  "edec_InitVideoDecode E vpu_inst_cnt attr s =
     call_then (of_sum (GetFormatInfo (at_pixel_format attr)) (s\<lparr>h_attr := attr, h_jpeg_decode := False\<rparr>)) (\<lambda>fi s.
     call_then (of_sum (CodecTypeCast (at_codec_type attr)) (s\<lparr>h_pixel_fmt_info := fi\<rparr>)) (\<lambda>ct s.
     call_then (of_sum (ColorStdCast (at_color_std attr)) s) (\<lambda>cs s.
       let v = \<lparr>ci_codec = ct, ci_pixelFmt = cncodec_fmt fi, ci_colorSpace = cs, ci_width = at_w attr, ci_height = at_h attr,
                ci_bitDepthMinus8 = (if at_pixel_format attr = P010 then 2 else 0), ci_progressive = (\<not> at_interlaced attr),
                ci_inputBufNum = at_input_buffer_num attr, ci_outputBufNum = at_output_buffer_num attr,
                ci_deviceId = at_dev_id attr,
                ci_instance = (if g_turbo E then INSTANCE (g_vpudec_instances ! (vpu_inst_cnt mod 100)) else INSTANCE_AUTO)\<rparr>
       in call_then (edec_create E (Dec_Create v) ''Create video decode failed: '' (s\<lparr>h_vparams := v\<rparr>)) (\<lambda>_ s.
            let s = edec_do (Dec_SetAttr (at_stride_align attr)) s; r = edec_ret E s
            in if r \<noteq> CNCODEC_SUCCESS
               then Exc (throw INIT_FAILED (''cnvideo decode set attributes faild: '' @ ecode_string (g_timeout E) r)) s
               else Ret () s))))"

definition edec_run_loop :: "edec_env \<Rightarrow> DecodeHandler \<Rightarrow> DecodeHandler" where
  "edec_run_loop E s = (if h_loop s = Looping then edec_EventTaskRunner (g_ver E) s else s)"

definition edec_wait_eos :: "edec_env \<Rightarrow> cb_event list \<Rightarrow> DecodeHandler \<Rightarrow> DecodeHandler" where
  "edec_wait_eos E es s = edec_run_loop E (fold edec_ReceiveEvent es s)"

definition edec_join :: "edec_env \<Rightarrow> DecodeHandler \<Rightarrow> DecodeHandler" where
  "edec_join E s = (edec_run_loop E s)\<lparr>h_loop := No_Thread\<rparr>"

definition edec_teardown :: "DecodeHandler \<Rightarrow> DecodeHandler" where
  "edec_teardown s =
     (if h_handle s
      then (if h_jpeg_decode s then edec_do Jpeg_Destroy s else edec_do Dec_Destroy (edec_do Dec_Stop s))\<lparr>h_handle := False\<rparr>
      else s)"

text \<open>
  The first half of the destructor: ask for the end of the stream. An exception of \<open>FeedEos\<close> is
  caught and logged, and then the members are destroyed, among them a thread that was not joined.
\<close>

definition edec_begin_close :: "edec_env \<Rightarrow> DecodeHandler \<Rightarrow> DecodeHandler option" where
  "edec_begin_close E s =
     (let s = s\<lparr>h_status := STOP\<rparr>
      in if h_got_eos s then Some s
         else if \<not> h_send_eos s \<and> h_handle s
         then case edec_FeedEos E s of Ret _ t \<Rightarrow> Some t | _ \<Rightarrow> None
         else Some (if \<not> h_handle s then s\<lparr>h_got_eos := True\<rparr> else s))"

definition edec_destroy :: "edec_env \<Rightarrow> cb_event list \<Rightarrow> DecodeHandler \<Rightarrow> (DecodeHandler, bool) run" where
  "edec_destroy E es s =
     (case edec_begin_close E s of None \<Rightarrow> Terminate
      | Some t \<Rightarrow>
          let u = (if h_got_eos t then t else edec_wait_eos E es t)
          in if h_got_eos u then Ret True (edec_teardown (edec_join E u)) else Blocked u)"

text \<open>\<open>EasyDecode::New\<close>: a failing initialisation destroys the handler and throws on.\<close>

definition EasyDecode_New :: "edec_env \<Rightarrow> cb_event list \<Rightarrow> nat \<Rightarrow> Attr \<Rightarrow> DecodeHandler \<Rightarrow> (DecodeHandler, unit) run" where
  "EasyDecode_New E es vpu_inst_cnt attr s =
     (case (if at_codec_type attr = JPEG \<or> at_codec_type attr = MJPEG
            then edec_InitJpegDecode E attr s else edec_InitVideoDecode E vpu_inst_cnt attr s) of
        Exc e t \<Rightarrow> call_then (edec_destroy E es t) (\<lambda>_ u. Exc e u)
      | r \<Rightarrow> r)"

subsection \<open>The session of a decoder\<close>

lemma edec_do_sel [simp]:
  "h_handle (edec_do a s) = h_handle s" "h_got_eos (edec_do a s) = h_got_eos s" "h_loop (edec_do a s) = h_loop s"
  "h_queue (edec_do a s) = h_queue s" "h_trace (edec_do a s) = a # h_trace s" "h_send_eos (edec_do a s) = h_send_eos s"
  "h_status (edec_do a s) = h_status s" "h_attr (edec_do a s) = h_attr s" "h_jpeg_decode (edec_do a s) = h_jpeg_decode s"
  "h_vpu_pts_map (edec_do a s) = h_vpu_pts_map s" "h_pts_key (edec_do a s) = h_pts_key s"
  "h_pixel_fmt_info (edec_do a s) = h_pixel_fmt_info s"
  by (simp_all add: edec_do_def)

lemma edec_ReceiveEOS_sel [simp]:
  "h_handle (edec_ReceiveEOS s) = h_handle s" "h_got_eos (edec_ReceiveEOS s)" "h_loop (edec_ReceiveEOS s) = h_loop s"
  "h_queue (edec_ReceiveEOS s) = h_queue s" "h_status (edec_ReceiveEOS s) = EOS"
  by (simp_all add: edec_ReceiveEOS_def Let_def)

lemma edec_Abort_sel [simp]:
  "\<not> h_handle (edec_AbortDecoder s)" "h_got_eos (edec_AbortDecoder s) = (h_got_eos s \<or> h_handle s)"
  "h_loop (edec_AbortDecoder s) = h_loop s" "h_queue (edec_AbortDecoder s) = h_queue s"
  by (simp_all add: edec_AbortDecoder_def)

lemma edec_dispatch_got: "h_got_eos (edec_dispatch ver e s) = (h_got_eos s \<or> e = CB_EOS \<or> (aborts ver e \<and> h_handle s))"
  by (cases e) (auto simp: edec_dispatch_def)

lemma edec_dispatch_handle: "h_handle (edec_dispatch ver e s) = (h_handle s \<and> \<not> aborts ver e)"
  by (cases e) (auto simp: edec_dispatch_def)

lemma edec_dispatch_loop [simp]: "h_loop (edec_dispatch ver e s) = h_loop s"
  by (simp add: edec_dispatch_def)

lemma fold_edec_ReceiveEvent: "fold edec_ReceiveEvent es s = s\<lparr>h_queue := h_queue s @ es\<rparr>"
  by (induction es arbitrary: s) (simp_all add: edec_ReceiveEvent_def)

lemma edec_FeedEos_Ret:
  "edec_FeedEos E s = Ret b t \<Longrightarrow> h_handle t = h_handle s \<and> h_got_eos t = h_got_eos s \<and> h_loop t = h_loop s \<and> h_queue t = h_queue s"
  by (auto simp: edec_FeedEos_def Let_def split: if_splits cncodecRet.splits)

lemma edec_begin_close_Some:
  assumes "edec_begin_close E s = Some t"
  shows "h_queue t = h_queue s \<and> h_handle t = h_handle s \<and> h_loop t = h_loop s \<and> h_got_eos t = (h_got_eos s \<or> \<not> h_handle s)"
  using assms
  by (auto simp: edec_begin_close_def Let_def dest!: edec_FeedEos_Ret split: if_splits outcome.splits)

lemma edec_teardown_handle: "\<not> h_handle (edec_teardown s)"
  by (simp add: edec_teardown_def)

interpretation edec: closable_session "g_ver E" h_handle h_got_eos h_queue edec_pop edec_ReceiveEvent
    "edec_dispatch (g_ver E)" edec_rest "edec_EventTaskRunner (g_ver E)"
    "\<lambda>s. h_loop s = Looping" "edec_begin_close E" "edec_wait_eos E" "\<lambda>s. edec_teardown (edec_join E s)" "edec_destroy E"
  for E
proof (unfold_locales, goal_cases)
  case (17 s)
  then show ?case by (simp add: edec_EventTaskRunner.simps)
next
  case (18 s e q)
  then show ?case by (subst edec_EventTaskRunner.simps) simp
next
  case (19 s t)
  then show ?case using edec_begin_close_Some [of E s t] by simp
next
  case (20 s es)
  then show ?case by (simp add: edec_wait_eos_def edec_run_loop_def fold_edec_ReceiveEvent)
next
  case (21 s)
  then show ?case by (simp add: edec_teardown_handle)
next
  case (22 s t es)
  then show ?case by (simp add: edec_destroy_def Let_def)
qed (auto simp: edec_pop_def edec_ReceiveEvent_def edec_dispatch_got edec_dispatch_handle edec_rest_def ends_session_def)

subsection \<open>Invariant\<close>

text \<open>Decoders the library has created and neither destroyed nor aborted, counted along a trace.\<close>

fun edec_live :: "(edec_act list \<Rightarrow> cncodecRet) \<Rightarrow> edec_act list \<Rightarrow> int" where
  "edec_live codec [] = 0"
| "edec_live codec (a # t) = edec_live codec t +
     (case a of Dec_Create _ \<Rightarrow> if codec (a # t) = CNCODEC_SUCCESS then 1 else 0
      | Jpeg_Create _ \<Rightarrow> if codec (a # t) = CNCODEC_SUCCESS then 1 else 0
      | Dec_Destroy \<Rightarrow> -1 | Jpeg_Destroy \<Rightarrow> -1 | Dec_Abort \<Rightarrow> -1 | Jpeg_Abort \<Rightarrow> -1 | _ \<Rightarrow> 0)"

definition edec_inv :: "edec_env \<Rightarrow> DecodeHandler \<Rightarrow> bool" where
  "edec_inv E s \<longleftrightarrow> (h_got_eos s \<or> h_loop s = Looping) \<and> joinable (h_loop s) \<and>
     (h_got_eos s \<longleftrightarrow> h_status s = EOS) \<and> h_status s \<noteq> STOP \<and>
     edec_live (g_codec E) (h_trace s) = (if h_handle s then 1 else 0)"

definition edec_calm :: "edec_act \<Rightarrow> bool" where
  "edec_calm a \<longleftrightarrow> (case a of Dec_Create _ \<Rightarrow> False | Jpeg_Create _ \<Rightarrow> False | Dec_Destroy \<Rightarrow> False | Jpeg_Destroy \<Rightarrow> False
     | Dec_Abort \<Rightarrow> False | Jpeg_Abort \<Rightarrow> False | _ \<Rightarrow> True)"

lemma edec_calm_simps [simp]:
  "edec_calm (Dec_SetAttr i)" "edec_calm (Dec_Start v)" "edec_calm Dec_Stop" "edec_calm (Dec_Feed bs p f)" "edec_calm Dec_Feed_Eos"
  "edec_calm (Dec_AddRef n)" "edec_calm (Dec_ReleaseRef n)" "edec_calm (Jpeg_Feed bs p)" "edec_calm Jpeg_Feed_Eos"
  "edec_calm (Jpeg_AddRef n)" "edec_calm (Jpeg_ReleaseRef n)" "edec_calm (Frame_Callback c)" "edec_calm Eos_Callback"
  by (simp_all add: edec_calm_def)

lemma edec_live_calm: "edec_calm a \<Longrightarrow> edec_live c (a # t) = edec_live c t"
  by (cases a) (simp_all add: edec_calm_def)

lemma edec_inv_do [simp]: "edec_calm a \<Longrightarrow> edec_inv E (edec_do a s) = edec_inv E s"
  by (simp add: edec_inv_def edec_live_calm del: edec_live.simps)

lemma edec_inv_upd [simp]:
  "edec_inv E (s\<lparr>h_vpu_pts_map := m\<rparr>) = edec_inv E s" "edec_inv E (s\<lparr>h_pts_key := k\<rparr>) = edec_inv E s"
  "edec_inv E (s\<lparr>h_packets_count := n\<rparr>) = edec_inv E s" "edec_inv E (s\<lparr>h_frames_count := n\<rparr>) = edec_inv E s"
  "edec_inv E (s\<lparr>h_queue := q\<rparr>) = edec_inv E s" "edec_inv E (s\<lparr>h_send_eos := b\<rparr>) = edec_inv E s"
  "edec_inv E (s\<lparr>h_vparams := v, h_minimum_buf_cnt := i\<rparr>) = edec_inv E s"
  by (simp_all add: edec_inv_def)

lemma edec_inv_pts [simp]: "edec_inv E (snd (SetVpuTimestamp p s)) = edec_inv E s"
  "edec_inv E (snd (GetVpuTimestamp k w s)) = edec_inv E s" "edec_inv E (forget_pts k s) = edec_inv E s"
  by (simp_all add: SetVpuTimestamp_def GetVpuTimestamp_def forget_pts_def split: option.split)

lemma edec_inv_eos: "edec_inv E s \<Longrightarrow> edec_inv E (edec_ReceiveEOS s)"
  by (auto simp: edec_inv_def edec_ReceiveEOS_def Let_def)

lemma edec_inv_abort: "edec_inv E s \<Longrightarrow> edec_inv E (edec_AbortDecoder s)"
  by (auto simp: edec_inv_def edec_AbortDecoder_def edec_ReceiveEOS_def Let_def)

lemma edec_inv_dispatch: "edec_inv E s \<Longrightarrow> edec_inv E (edec_dispatch ver e s)"
  by (auto simp: edec_dispatch_def intro: edec_inv_eos edec_inv_abort)

lemma edec_inv_pause: "edec_inv E s \<Longrightarrow> edec_inv E (snd (edec_Pause s))" "edec_inv E s \<Longrightarrow> edec_inv E (snd (edec_Resume s))"
  by (auto simp: edec_inv_def edec_Pause_def edec_Resume_def)

lemma edec_inv_retry: "edec_calm a \<Longrightarrow> edec_inv E s \<Longrightarrow> ensures (edec_inv E) (feed_retry E a key msg n s)"
  by (induction n arbitrary: s) (simp_all add: Let_def split: cncodecRet.split)

lemma edec_inv_FeedVideo: "edec_inv E s \<Longrightarrow> ensures (edec_inv E) (edec_FeedVideoData E p i s)"
  unfolding edec_FeedVideoData_def Let_def split_def by (rule ensures_then [OF edec_inv_retry]) simp_all

lemma edec_inv_FeedData: "edec_inv E s \<Longrightarrow> ensures (edec_inv E) (edec_FeedData E p i s)"
  by (auto simp: edec_FeedData_def edec_FeedJpegData_def edec_DecodeProgressiveJpeg_def
      intro!: ensures_then [OF edec_inv_FeedVideo] ensures_then [OF edec_inv_retry] split: option.split)

lemma edec_inv_FeedEos: "edec_inv E s \<Longrightarrow> ensures (edec_inv E) (edec_FeedEos E s)"
  by (simp add: edec_FeedEos_def Let_def split: cncodecRet.split)

lemma edec_inv_frame: "edec_inv E s \<Longrightarrow> ensures (edec_inv E) (edec_ReceiveFrame f pts s)"
  by (simp add: edec_ReceiveFrame_def Let_def split_def)

lemma edec_inv_callback: "edec_inv E s \<Longrightarrow> ensures (edec_inv E) (edec_EventHandler c s)"
  by (cases c) (simp_all add: edec_inv_frame edec_ReceiveSequence_def Let_def edec_ReceiveEvent_def)

subsection \<open>The life of a decoder\<close>

text \<open>
  What can happen to a decoder: its user calls it, exceptions included, the codec calls back, the
  event thread pops one event or returns.
\<close>

inductive edec_step :: "edec_env \<Rightarrow> DecodeHandler \<Rightarrow> DecodeHandler \<Rightarrow> bool" for E :: edec_env where
  pause: "edec_step E s (snd (edec_Pause s))"
| resume: "edec_step E s (snd (edec_Resume s))"
| abort: "edec_step E s (edec_AbortDecoder s)"
| feed: "edec_FeedData E p i s = r \<Longrightarrow> r = Ret b t \<or> r = Exc e t \<Longrightarrow> edec_step E s t"
| feed_eos: "edec_FeedEos E s = r \<Longrightarrow> r = Ret b t \<or> r = Exc e t \<Longrightarrow> edec_step E s t"
| release: "edec_step E s (edec_ReleaseBuffer n s)"
| callback: "edec_EventHandler c s = Ret u t \<Longrightarrow> edec_step E s t"
| pop_event: "h_loop s = Looping \<Longrightarrow> h_queue s = e # q \<Longrightarrow> edec_step E s (edec_dispatch (g_ver E) e (edec_pop s))"
| loop_ends: "h_loop s = Looping \<Longrightarrow> h_queue s = [] \<Longrightarrow> h_got_eos s \<Longrightarrow> edec_step E s (s\<lparr>h_loop := Loop_Done\<rparr>)"

inductive edec_reach :: "edec_env \<Rightarrow> DecodeHandler \<Rightarrow> bool" for E :: edec_env where
  start: "EasyDecode_New E es n attr (new_DecodeHandler a v j) = Ret () s \<Longrightarrow> edec_reach E s"
| step: "edec_reach E s \<Longrightarrow> edec_step E s t \<Longrightarrow> edec_reach E t"

lemma of_sum_Ret_iff: "of_sum x s = Ret a t \<longleftrightarrow> x = Inr a \<and> t = s"
  by (cases x) auto

lemma edec_create_Ret: "edec_create E a msg s = Ret () t \<longleftrightarrow> g_codec E (a # h_trace s) = CNCODEC_SUCCESS \<and> t = (edec_do a s)\<lparr>h_handle := True\<rparr>"
  by (auto simp: edec_create_def edec_ret_def Let_def)

text \<open>What a new decoder looks like: created with exactly the parameters of the attributes.\<close>

definition edec_video_params :: "edec_env \<Rightarrow> nat \<Rightarrow> Attr \<Rightarrow> FormatInfo \<Rightarrow> cncodecType \<Rightarrow> cncodecColorSpace \<Rightarrow> cnvideoDecCreateInfo" where
  "edec_video_params E n attr fi ct cs =
     \<lparr>ci_codec = ct, ci_pixelFmt = cncodec_fmt fi, ci_colorSpace = cs, ci_width = at_w attr, ci_height = at_h attr,
      ci_bitDepthMinus8 = (if at_pixel_format attr = P010 then 2 else 0), ci_progressive = (\<not> at_interlaced attr),
      ci_inputBufNum = at_input_buffer_num attr, ci_outputBufNum = at_output_buffer_num attr, ci_deviceId = at_dev_id attr,
      ci_instance = (if g_turbo E then INSTANCE (g_vpudec_instances ! (n mod 100)) else INSTANCE_AUTO)\<rparr>"

definition edec_jpeg_params :: "Attr \<Rightarrow> FormatInfo \<Rightarrow> cncodecColorSpace \<Rightarrow> cnjpegDecCreateInfo" where
  "edec_jpeg_params attr fi cs =
     \<lparr>jc_pixelFmt = cncodec_fmt fi, jc_colorSpace = cs, jc_width = at_w attr, jc_height = at_h attr,
      jc_inputBufNum = at_input_buffer_num attr, jc_outputBufNum = at_output_buffer_num attr, jc_deviceId = at_dev_id attr\<rparr>"

lemma edec_InitVideo_Ret:
  assumes "edec_InitVideoDecode E n attr s = Ret u t"
  shows "\<exists>fi ct cs. GetFormatInfo (at_pixel_format attr) = Inr fi \<and> CodecTypeCast (at_codec_type attr) = Inr ct \<and>
    ColorStdCast (at_color_std attr) = Inr cs \<and>
    h_trace t = Dec_SetAttr (at_stride_align attr) # Dec_Create (edec_video_params E n attr fi ct cs) # h_trace s \<and>
    g_codec E (tl (h_trace t)) = CNCODEC_SUCCESS \<and> g_codec E (h_trace t) = CNCODEC_SUCCESS \<and>
    h_handle t \<and> \<not> h_jpeg_decode t \<and> h_attr t = attr \<and> h_pixel_fmt_info t = fi \<and> h_loop t = h_loop s \<and> h_got_eos t = h_got_eos s \<and>
    h_status t = h_status s \<and> h_queue t = h_queue s"
  using assms
  by (auto simp: edec_InitVideoDecode_def call_then_Ret_iff of_sum_Ret_iff Let_def edec_create_Ret edec_video_params_def edec_ret_def
      split: if_splits)

lemma edec_InitJpeg_Ret:
  assumes "edec_InitJpegDecode E attr s = Ret u t"
  shows "\<exists>fi cs. GetFormatInfo (at_pixel_format attr) = Inr fi \<and> ColorStdCast (at_color_std attr) = Inr cs \<and>
    h_trace t = Jpeg_Create (edec_jpeg_params attr fi cs) # h_trace s \<and> g_codec E (h_trace t) = CNCODEC_SUCCESS \<and>
    h_handle t \<and> h_jpeg_decode t \<and> h_attr t = attr \<and> h_pixel_fmt_info t = fi \<and> h_loop t = h_loop s \<and> h_got_eos t = h_got_eos s \<and>
    h_status t = h_status s \<and> h_queue t = h_queue s"
  using assms
  by (auto simp: edec_InitJpegDecode_def call_then_Ret_iff of_sum_Ret_iff Let_def edec_create_Ret edec_jpeg_params_def)

lemma EasyDecode_New_Ret:
  assumes "EasyDecode_New E es n attr s = Ret () t"
  shows "if at_codec_type attr = JPEG \<or> at_codec_type attr = MJPEG then edec_InitJpegDecode E attr s = Ret () t
    else edec_InitVideoDecode E n attr s = Ret () t"
  using assms by (auto simp: EasyDecode_New_def call_then_Ret_iff split: outcome.splits if_splits)

lemma edec_inv_New:
  assumes "EasyDecode_New E es n attr (new_DecodeHandler a v j) = Ret () t"
  shows "edec_inv E t"
proof (cases "at_codec_type attr = JPEG \<or> at_codec_type attr = MJPEG")
  case True
  with EasyDecode_New_Ret [OF assms] have "edec_InitJpegDecode E attr (new_DecodeHandler a v j) = Ret () t" by simp
  from edec_InitJpeg_Ret [OF this] show ?thesis by (auto simp: edec_inv_def new_DecodeHandler_def joinable_def)
next
  case False
  with EasyDecode_New_Ret [OF assms] have "edec_InitVideoDecode E n attr (new_DecodeHandler a v j) = Ret () t" by simp
  from edec_InitVideo_Ret [OF this] show ?thesis by (auto simp: edec_inv_def new_DecodeHandler_def joinable_def)
qed

lemma ensures_either: "ensures P r \<Longrightarrow> r = Ret b t \<or> r = Exc e t \<Longrightarrow> P t"
  by auto

lemma edec_step_inv:
  assumes "edec_step E s t" and "edec_inv E s"
  shows "edec_inv E t"
  using assms(1)
proof cases
  case pause then show ?thesis using assms(2) by (simp add: edec_inv_pause)
next
  case resume then show ?thesis using assms(2) by (simp add: edec_inv_pause)
next
  case abort then show ?thesis using assms(2) by (simp add: edec_inv_abort)
next
  case (feed p i r b e) then show ?thesis using ensures_either [OF edec_inv_FeedData [OF assms(2), of p i]] by blast
next
  case (feed_eos r b e) then show ?thesis using ensures_either [OF edec_inv_FeedEos [OF assms(2)]] by blast
next
  case (release n) then show ?thesis using assms(2) by (simp add: edec_ReleaseBuffer_def)
next
  case (callback c u) then show ?thesis using ensures_RetD [OF edec_inv_callback [OF assms(2), of c]] by blast
next
  case (pop_event e q) then show ?thesis using assms(2) by (simp add: edec_inv_dispatch edec_pop_def)
next
  case loop_ends then show ?thesis using assms(2) by (simp add: edec_inv_def joinable_def)
qed

lemma edec_reach_inv: "edec_reach E s \<Longrightarrow> edec_inv E s"
  by (induction rule: edec_reach.induct) (auto intro: edec_inv_New edec_step_inv)

text \<open>C17: In every reachable state of a decoder, whatever its user and the codec do: a handle is held
  exactly if the one decoder it created was neither destroyed nor aborted; the event thread runs
  unless the end of the stream was seen; the status is EOS exactly from then on and never STOP
  before the destructor; and then neither \<open>Pause\<close> nor \<open>Resume\<close> changes it back.\<close>

theorem edec_lifecycle:
  assumes "edec_reach E s"
  shows "edec_live (g_codec E) (h_trace s) = (if h_handle s then 1 else 0) \<and> joinable (h_loop s) \<and>
     (h_got_eos s \<or> h_loop s = Looping) \<and> (h_got_eos s \<longleftrightarrow> edec_GetStatus s = EOS) \<and> edec_GetStatus s \<noteq> STOP \<and>
     (h_got_eos s \<longrightarrow> edec_Pause s = (False, s) \<and> edec_Resume s = (False, s))"
  using edec_reach_inv [OF assms] by (auto simp: edec_inv_def edec_GetStatus_def edec_Pause_def edec_Resume_def)

subsection \<open>Destruction\<close>

lemma edec_begin_close_None:
  "edec_begin_close E s = None \<longleftrightarrow> \<not> h_got_eos s \<and> \<not> h_send_eos s \<and> h_handle s \<and>
     g_codec E ((if h_jpeg_decode s then Jpeg_Feed_Eos else Dec_Feed_Eos) # h_trace s) \<noteq> CNCODEC_SUCCESS"
  by (auto simp: edec_begin_close_def edec_FeedEos_def edec_ret_def Let_def split: cncodecRet.splits)

lemma edec_live_run:
  assumes "edec_live c (h_trace s) = (if h_handle s then 1 else 0)"
  shows "edec_live c (h_trace (edec_EventTaskRunner ver s)) = (if h_handle (edec_EventTaskRunner ver s) then 1 else 0)"
  using assms
proof (induction ver s rule: edec_EventTaskRunner.induct)
  case (1 ver s)
  have "edec_live c (h_trace (edec_dispatch ver e t)) = (if h_handle (edec_dispatch ver e t) then 1 else 0)"
    if "edec_live c (h_trace t) = (if h_handle t then 1 else 0)" for e t
    using that by (auto simp: edec_dispatch_def edec_AbortDecoder_def edec_ReceiveEOS_def Let_def)
  with 1 show ?case
    by (subst (1 2) edec_EventTaskRunner.simps) (simp add: edec_rest_def edec_pop_def split: list.split)
qed

lemma edec_live_finish:
  assumes "edec_live c (h_trace s) = (if h_handle s then 1 else 0)"
  shows "edec_live c (h_trace (edec_teardown (edec_join E s))) = 0"
proof -
  have "edec_live c (h_trace (edec_run_loop E s)) = (if h_handle (edec_run_loop E s) then 1 else 0)"
    using assms by (simp add: edec_run_loop_def edec_live_run)
  then show ?thesis by (simp add: edec_teardown_def edec_join_def)
qed

lemma edec_live_close:
  assumes "edec_live c (h_trace s) = (if h_handle s then 1 else 0)" and "edec_destroy E es s = Ret r u"
  shows "edec_live c (h_trace u) = 0 \<and> h_loop u = No_Thread"
proof -
  from assms(2) obtain t where t: "edec_begin_close E s = Some t"
    and u: "u = edec_teardown (edec_join E (if h_got_eos t then t else edec_wait_eos E es t))"
    by (auto simp: edec_destroy_def Let_def split: option.splits if_splits)
  have "edec_live c (h_trace t) = (if h_handle t then 1 else 0)"
    using t assms(1) by (auto simp: edec_begin_close_def edec_FeedEos_def Let_def split: if_splits cncodecRet.splits)
  moreover from this have "edec_live c (h_trace (edec_wait_eos E es t)) = (if h_handle (edec_wait_eos E es t) then 1 else 0)"
    by (simp add: edec_wait_eos_def edec_run_loop_def fold_edec_ReceiveEvent edec_live_run)
  ultimately show ?thesis using u edec_live_finish [of c _ E] by (simp add: edec_teardown_def edec_join_def)
qed


end
