(* ===== verification/Easy_Decode_Feed.thy ===== *)
theory Easy_Decode_Feed
  imports Easy_Decode
begin

text \<open>
  What goes into and comes out of EasyDecode: the creation of a decoder, the retries of a feed, the
  time stamps kept while the codec works, and the concrete runs of its theorems.
\<close>

subsection \<open>Retries\<close>

lemma forget_pts_map [simp]: "h_vpu_pts_map (forget_pts k s) = (h_vpu_pts_map s)(k := None)"
  by (auto simp: forget_pts_def GetVpuTimestamp_def split: option.split)

lemma forget_pts_trace [simp]: "h_trace (forget_pts k s) = h_trace s"
  by (simp add: forget_pts_def GetVpuTimestamp_def split: option.split)

lemma SetVpuTimestamp_sel [simp]:
  "fst (SetVpuTimestamp p s) = h_pts_key s" "h_trace (snd (SetVpuTimestamp p s)) = h_trace s"
  "h_vpu_pts_map (snd (SetVpuTimestamp p s)) = (h_vpu_pts_map s)(h_pts_key s \<mapsto> p)"
  "h_pts_key (snd (SetVpuTimestamp p s)) = h_pts_key s + 1"
  by (simp_all add: SetVpuTimestamp_def)

text \<open>What the last attempt, after which the handler is \<open>u\<close>, makes of a feed.\<close>

definition feed_result :: "edec_env \<Rightarrow> u32 \<Rightarrow> bool \<Rightarrow> DecodeHandler \<Rightarrow> DecodeHandler \<Rightarrow> (DecodeHandler, unit) run \<Rightarrow> bool" where
  "feed_result E key final s u r \<longleftrightarrow>
     (case g_codec E (h_trace u) of
        CNCODEC_SUCCESS \<Rightarrow> r = Ret () u \<and> h_vpu_pts_map u = h_vpu_pts_map s
      | CNCODEC_TIMED_OUT \<Rightarrow> final \<and> r = Exc (throw TIMEOUT ''easydecode timeout'') u \<and> h_vpu_pts_map u = (h_vpu_pts_map s)(key := None)
      | CNCODEC_ERR c \<Rightarrow> (\<exists>e. r = Exc e u \<and> ErrorCode e = INTERNAL) \<and> h_vpu_pts_map u = (h_vpu_pts_map s)(key := None))"

definition feed_outcome :: "edec_env \<Rightarrow> edec_act \<Rightarrow> u32 \<Rightarrow> nat \<Rightarrow> DecodeHandler \<Rightarrow> (DecodeHandler, unit) run \<Rightarrow> bool" where
  "feed_outcome E a key n s r \<longleftrightarrow>
     (\<exists>k u. 1 \<le> k \<and> k \<le> n \<and> (\<forall>j. 1 \<le> j \<and> j < k \<longrightarrow> g_codec E (replicate j a @ h_trace s) = CNCODEC_TIMED_OUT) \<and>
        h_trace u = replicate k a @ h_trace s \<and> h_pts_key u = h_pts_key s \<and> feed_result E key (k = n) s u r)"

lemma feed_outcomeE:
  assumes "feed_outcome E a key n s r"
  obtains k u where "1 \<le> k" and "k \<le> n" and "\<forall>j. 1 \<le> j \<and> j < k \<longrightarrow> g_codec E (replicate j a @ h_trace s) = CNCODEC_TIMED_OUT"
    and "h_trace u = replicate k a @ h_trace s" and "h_pts_key u = h_pts_key s" and "feed_result E key (k = n) s u r"
  using assms unfolding feed_outcome_def by blast

lemma forget_pts_key [simp]: "h_pts_key (forget_pts k s) = h_pts_key s"
  by (simp add: forget_pts_def GetVpuTimestamp_def split: option.split)

lemma feed_outcome_here:
  assumes "h_trace u = a # h_trace s" and "h_pts_key u = h_pts_key s" and "feed_result E key (n = 0) s u r"
  shows "feed_outcome E a key (Suc n) s r"
  unfolding feed_outcome_def
  by (rule exI [of _ 1], rule exI [of _ u]) (use assms in auto)

lemma feed_outcome_later:
  assumes "g_codec E (a # h_trace s) = CNCODEC_TIMED_OUT" and "feed_outcome E a key n (edec_do a s) r"
  shows "feed_outcome E a key (Suc n) s r"
proof -
  have shift: "replicate j a @ a # h_trace s = replicate (Suc j) a @ h_trace s" for j
    by (simp flip: replicate_append_same)
  from assms(2) obtain k u where
    k: "1 \<le> k" "k \<le> n" and before: "\<forall>j. 1 \<le> j \<and> j < k \<longrightarrow> g_codec E (replicate j a @ a # h_trace s) = CNCODEC_TIMED_OUT"
    and u: "h_trace u = replicate k a @ a # h_trace s" "h_pts_key u = h_pts_key s" and r: "feed_result E key (k = n) (edec_do a s) u r"
    by (rule feed_outcomeE) auto
  have "g_codec E (replicate j a @ h_trace s) = CNCODEC_TIMED_OUT" if "1 \<le> j" "j < Suc k" for j
  proof (cases "j = 1")
    case True
    then show ?thesis using assms(1) by simp
  next
    case False
    with that obtain i where i: "j = Suc i" "1 \<le> i" "i < k" by (cases j) auto
    then show ?thesis using before shift by metis
  qed
  moreover have "feed_result E key (Suc k = Suc n) s u r" using r by (simp add: feed_result_def split: cncodecRet.splits)
  ultimately show ?thesis using k u shift unfolding feed_outcome_def
    by (intro exI [of _ "Suc k"] exI [of _ u]) auto
qed

lemma feed_retry_outcome: "feed_outcome E a key (Suc n) s (feed_retry E a key msg (Suc n) s)"
proof (induction n arbitrary: s)
  case 0
  show ?case
  proof (cases "g_codec E (a # h_trace s)")
    case CNCODEC_SUCCESS
    then show ?thesis by (intro feed_outcome_here [of "edec_do a s"]) (simp_all add: edec_ret_def feed_result_def)
  next
    case CNCODEC_TIMED_OUT
    then show ?thesis by (intro feed_outcome_here [of "forget_pts key (edec_do a s)"]) (simp_all add: edec_ret_def feed_result_def)
  next
    case (CNCODEC_ERR c)
    then show ?thesis by (intro feed_outcome_here [of "forget_pts key (edec_do a s)"]) (simp_all add: edec_ret_def feed_result_def)
  qed
next
  case (Suc n)
  show ?case
  proof (cases "g_codec E (a # h_trace s)")
    case CNCODEC_SUCCESS
    then show ?thesis by (intro feed_outcome_here [of "edec_do a s"]) (simp_all add: edec_ret_def feed_result_def)
  next
    case CNCODEC_TIMED_OUT
    then have "feed_retry E a key msg (Suc (Suc n)) s = feed_retry E a key msg (Suc n) (edec_do a s)"
      by (subst feed_retry.simps(2)) (simp add: edec_ret_def del: feed_retry.simps)
    with Suc.IH [of "edec_do a s"] CNCODEC_TIMED_OUT show ?thesis by (metis feed_outcome_later)
  next
    case (CNCODEC_ERR c)
    then show ?thesis by (intro feed_outcome_here [of "forget_pts key (edec_do a s)"]) (simp_all add: edec_ret_def feed_result_def)
  qed
qed

lemma feed_retry_3: "feed_outcome E a key 3 s (feed_retry E a key msg 3 s)"
proof -
  have three: "(3 :: nat) = Suc 2" by simp
  show ?thesis unfolding three by (rule feed_retry_outcome)
qed

text \<open>The action of feeding a packet under a key.\<close>

definition feed_act :: "edec_env \<Rightarrow> CnPacket \<Rightarrow> bool \<Rightarrow> u32 \<Rightarrow> edec_act" where
  "feed_act E packet integral_frame key =
     Dec_Feed (take (pk_length packet) (case pk_data packet of None \<Rightarrow> [] | Some d \<Rightarrow> d)) (ucast key) (10600 \<le> g_ver E \<and> integral_frame)"

lemma edec_FeedVideoData_eq:
  "edec_FeedVideoData E packet i s =
     call_then (feed_retry E (feed_act E packet i (h_pts_key s)) (h_pts_key s) ''Feed data failed. cncodec error code: '' 3
         (snd (SetVpuTimestamp (pk_pts packet) s)))
       (\<lambda>_ s. Ret () (s\<lparr>h_packets_count := h_packets_count s + 1\<rparr>))"
  by (simp add: edec_FeedVideoData_def feed_act_def SetVpuTimestamp_def del: feed_retry.simps)

text \<open>C20: Feeding a packet to a video decoder makes at most three attempts, each with the same bytes and
  key, and goes on only while the codec times out. It returns exactly when the last attempt was
  taken, and then the packet's time stamp is recorded under the key; three time-outs throw TIMEOUT
  and any other refusal throws INTERNAL at once, with the record erased.\<close>

theorem edec_feed_attempts:
  "\<exists>k u. 1 \<le> k \<and> k \<le> 3 \<and> h_trace u = replicate k (feed_act E packet i (h_pts_key s)) @ h_trace s \<and>
    (\<forall>j. 1 \<le> j \<and> j < k \<longrightarrow> g_codec E (replicate j (feed_act E packet i (h_pts_key s)) @ h_trace s) = CNCODEC_TIMED_OUT) \<and>
    (case g_codec E (h_trace u) of
       CNCODEC_SUCCESS \<Rightarrow> edec_FeedVideoData E packet i s = Ret () u \<and> h_vpu_pts_map u = (h_vpu_pts_map s)(h_pts_key s \<mapsto> pk_pts packet)
     | CNCODEC_TIMED_OUT \<Rightarrow> k = 3 \<and> (\<exists>e. edec_FeedVideoData E packet i s = Exc e u \<and> ErrorCode e = TIMEOUT) \<and>
         h_vpu_pts_map u = (h_vpu_pts_map s)(h_pts_key s := None)
     | CNCODEC_ERR c \<Rightarrow> (\<exists>e. edec_FeedVideoData E packet i s = Exc e u \<and> ErrorCode e = INTERNAL) \<and>
         h_vpu_pts_map u = (h_vpu_pts_map s)(h_pts_key s := None))"
proof -
  let ?a = "feed_act E packet i (h_pts_key s)" and ?s = "snd (SetVpuTimestamp (pk_pts packet) s)"
  let ?r = "feed_retry E ?a (h_pts_key s) ''Feed data failed. cncodec error code: '' 3 ?s"
  from feed_retry_3 [of E ?a "h_pts_key s" ?s "''Feed data failed. cncodec error code: ''"] obtain k u where
    k: "1 \<le> k" "k \<le> 3" "\<forall>j. 1 \<le> j \<and> j < k \<longrightarrow> g_codec E (replicate j ?a @ h_trace s) = CNCODEC_TIMED_OUT"
      "h_trace u = replicate k ?a @ h_trace s" and r: "feed_result E (h_pts_key s) (k = 3) ?s u ?r"
    by (rule feed_outcomeE) auto
  show ?thesis
  proof (cases "g_codec E (h_trace u)")
    case CNCODEC_SUCCESS
    with k r show ?thesis
      by (intro exI [of _ k] exI [of _ "u\<lparr>h_packets_count := h_packets_count u + 1\<rparr>"]) (simp add: edec_FeedVideoData_eq feed_result_def del: feed_retry.simps)
  next
    case CNCODEC_TIMED_OUT
    with k r show ?thesis
      by (intro exI [of _ k] exI [of _ u]) (simp add: edec_FeedVideoData_eq feed_result_def del: feed_retry.simps)
  next
    case (CNCODEC_ERR c)
    with k r show ?thesis
      by (intro exI [of _ k] exI [of _ u]) (auto simp: edec_FeedVideoData_eq feed_result_def simp del: feed_retry.simps)
  qed
qed

subsection \<open>Time stamps\<close>

text \<open>What happens to the record of time stamps while a packet is in the codec.\<close>

datatype pts_op = Put u64 | Take u32 bool

fun pts_run :: "pts_op list \<Rightarrow> DecodeHandler \<Rightarrow> DecodeHandler" where
  "pts_run [] s = s"
| "pts_run (Put p # ops) s = pts_run ops (snd (SetVpuTimestamp p s))"
| "pts_run (Take k w # ops) s = pts_run ops (snd (GetVpuTimestamp k w s))"

fun puts :: "pts_op list \<Rightarrow> nat" where
  "puts [] = 0"
| "puts (Put p # ops) = Suc (puts ops)"
| "puts (Take k w # ops) = puts ops"

lemma GetVpuTimestamp_sel [simp]:
  "fst (GetVpuTimestamp k w s) = (if w then h_vpu_pts_map s k else None)"
  "h_vpu_pts_map (snd (GetVpuTimestamp k w s)) = (h_vpu_pts_map s)(k := None)"
  "h_pts_key (snd (GetVpuTimestamp k w s)) = h_pts_key s"
  by (auto simp: GetVpuTimestamp_def split: option.split)

lemma key_wraps: "(key :: u32) + of_nat d = key \<Longrightarrow> d < 2 ^ 32 \<Longrightarrow> d = 0"
  by (auto simp: word_of_nat_eq_0_iff dest: dvd_imp_le)

text \<open>A record survives until its key is taken, or until all the other keys have been used.\<close>

lemma pts_kept:
  assumes "h_vpu_pts_map s key = Some p" and "\<forall>w. Take key w \<notin> set ops"
    and "h_pts_key s = key + of_nat d" and "0 < d" and "d + puts ops \<le> 2 ^ 32"
  shows "h_vpu_pts_map (pts_run ops s) key = Some p"
  using assms
proof (induction ops arbitrary: s d)
  case (Cons a ops)
  show ?case
  proof (cases a)
    case (Put q)
    have "h_pts_key s \<noteq> key" using key_wraps [of key d] Cons.prems Put by auto
    then show ?thesis using Cons.prems Put by (simp, intro Cons.IH [of _ "Suc d"]) auto
  next
    case (Take k w)
    have "k \<noteq> key" using Cons.prems(2) Take by auto
    then show ?thesis using Cons.prems Take by (simp, intro Cons.IH [of _ d]) auto
  qed
qed simp

lemma ucast_key: "ucast (ucast (key :: u32) :: u64) = key"
  by (rule bit_word_eqI) (simp add: bit_simps)

lemma feed_outcome_Ret:
  assumes "feed_outcome E a key n s (Ret () u)"
  shows "\<exists>k\<ge>1. h_trace u = replicate k a @ h_trace s \<and> h_pts_key u = h_pts_key s \<and> h_vpu_pts_map u = h_vpu_pts_map s"
  using assms by (rule feed_outcomeE) (auto simp: feed_result_def split: cncodecRet.splits)

lemma edec_FeedVideoData_Ret:
  assumes "edec_FeedVideoData E packet i s = Ret () t"
  shows "h_vpu_pts_map t = (h_vpu_pts_map s)(h_pts_key s \<mapsto> pk_pts packet) \<and> h_pts_key t = h_pts_key s + 1 \<and>
    hd (h_trace t) = feed_act E packet i (h_pts_key s)"
proof -
  let ?a = "feed_act E packet i (h_pts_key s)" and ?s = "snd (SetVpuTimestamp (pk_pts packet) s)"
  from assms obtain u where u: "feed_retry E ?a (h_pts_key s) ''Feed data failed. cncodec error code: '' 3 ?s = Ret () u"
    and t: "t = u\<lparr>h_packets_count := h_packets_count u + 1\<rparr>"
    by (auto simp: edec_FeedVideoData_eq call_then_Ret_iff simp del: feed_retry.simps)
  from feed_retry_3 [of E ?a "h_pts_key s" ?s "''Feed data failed. cncodec error code: ''"]
  have "feed_outcome E ?a (h_pts_key s) 3 ?s (Ret () u)" unfolding u .
  from feed_outcome_Ret [OF this] obtain k where k: "1 \<le> k" "h_trace u = replicate k ?a @ h_trace s"
    "h_pts_key u = h_pts_key s + 1" "h_vpu_pts_map u = h_vpu_pts_map ?s" by auto
  from k(1) have "hd (replicate k ?a @ h_trace s) = ?a" by (cases k) simp_all
  with t k show ?thesis by simp
qed

text \<open>C21: The time stamp of a packet comes back with its picture: the codec gets a 32-bit key with the
  packet, and when a frame is reported under that key, the user's callback sees the packet's own 64
  bits, whatever was fed and reported in between, as long as the key was not reported before and
  fewer than \<open>2 ^ 32\<close> other packets were fed.\<close>

theorem edec_pts_restored:
  assumes feed: "edec_FeedVideoData E packet i s = Ret () t"
    and later: "h_vpu_pts_map u = h_vpu_pts_map (pts_run ops t)" "\<forall>w. Take (h_pts_key s) w \<notin> set ops" "puts ops < 2 ^ 32"
    and u: "\<not> h_jpeg_decode u" "at_frame_callback (h_attr u)"
    and f: "f_width f \<noteq> 0" "f_height f \<noteq> 0" "0 < f_planeNum f" "f_planeNum f \<le> 3"
  shows "hd (h_trace t) = feed_act E packet i (h_pts_key s) \<and>
    (\<exists>v c. edec_ReceiveFrame f (ucast (h_pts_key s)) u = Ret () v \<and> hd (h_trace v) = Frame_Callback c \<and>
       cf_pts c = pk_pts packet \<and> cf_buf_id c = f_id f \<and> h_vpu_pts_map v (h_pts_key s) = None)"
proof -
  note t = edec_FeedVideoData_Ret [OF feed]
  have "h_vpu_pts_map u (h_pts_key s) = Some (pk_pts packet)"
    unfolding later(1) by (rule pts_kept [where d = 1]) (use t later(2,3) in auto)
  then have "\<exists>v c. edec_ReceiveFrame f (ucast (h_pts_key s)) u = Ret () v \<and> hd (h_trace v) = Frame_Callback c \<and>
       cf_pts c = pk_pts packet \<and> cf_buf_id c = f_id f \<and> h_vpu_pts_map v (h_pts_key s) = None"
    using u f by (simp add: edec_ReceiveFrame_def ucast_key split_def Let_def GetVpuTimestamp_def CN_MAXIMUM_PLANE_def frame_for_user_def)
  with t show ?thesis by simp
qed

subsection \<open>Creation\<close>

lemma edec_InitVideo_steps:
  assumes "GetFormatInfo (at_pixel_format attr) = Inr fi" and "CodecTypeCast (at_codec_type attr) = Inr ct"
    and "ColorStdCast (at_color_std attr) = Inr cs" and "h_trace s = []"
  shows "\<exists>u. h_handle u \<and> \<not> h_jpeg_decode u \<and> h_loop u = h_loop s \<and> h_got_eos u = h_got_eos s \<and> h_send_eos u = h_send_eos s \<and>
      h_queue u = h_queue s \<and> h_trace u = [Dec_SetAttr (at_stride_align attr), Dec_Create (edec_video_params E n attr fi ct cs)] \<and>
      (g_codec E [Dec_Create (edec_video_params E n attr fi ct cs)] = CNCODEC_SUCCESS \<longrightarrow>
        (if g_codec E (h_trace u) = CNCODEC_SUCCESS then edec_InitVideoDecode E n attr s = Ret () u
         else \<exists>e. edec_InitVideoDecode E n attr s = Exc e u \<and> ErrorCode e = INIT_FAILED))"
    and "\<exists>u e. h_handle u = g_dirty E \<and> h_loop u = h_loop s \<and> h_got_eos u = h_got_eos s \<and> h_send_eos u = h_send_eos s \<and>
      h_queue u = h_queue s \<and> h_trace u = [Dec_Create (edec_video_params E n attr fi ct cs)] \<and> ErrorCode e = INIT_FAILED \<and>
      (g_codec E (h_trace u) \<noteq> CNCODEC_SUCCESS \<longrightarrow> edec_InitVideoDecode E n attr s = Exc e u)"
proof -
  define p where "p = edec_video_params E n attr fi ct cs"
  define w where "w = s\<lparr>h_attr := attr, h_jpeg_decode := False, h_pixel_fmt_info := fi, h_vparams := p\<rparr>"
  have init: "edec_InitVideoDecode E n attr s =
      call_then (edec_create E (Dec_Create p) ''Create video decode failed: '' w) (\<lambda>_ s.
        let s = edec_do (Dec_SetAttr (at_stride_align attr)) s; r = edec_ret E s
        in if r \<noteq> CNCODEC_SUCCESS
           then Exc (throw INIT_FAILED (''cnvideo decode set attributes faild: '' @ ecode_string (g_timeout E) r)) s
           else Ret () s)"
    using assms(1-3) by (simp add: edec_InitVideoDecode_def edec_video_params_def p_def w_def Let_def)
  have w: "h_trace w = []" "h_loop w = h_loop s" "h_got_eos w = h_got_eos s" "h_send_eos w = h_send_eos s" "h_queue w = h_queue s"
      "\<not> h_jpeg_decode w"
    using assms(4) by (simp_all add: w_def)
  let ?u = "edec_do (Dec_SetAttr (at_stride_align attr)) ((edec_do (Dec_Create p) w)\<lparr>h_handle := True\<rparr>)"
  show "\<exists>u. h_handle u \<and> \<not> h_jpeg_decode u \<and> h_loop u = h_loop s \<and> h_got_eos u = h_got_eos s \<and> h_send_eos u = h_send_eos s \<and>
      h_queue u = h_queue s \<and> h_trace u = [Dec_SetAttr (at_stride_align attr), Dec_Create (edec_video_params E n attr fi ct cs)] \<and>
      (g_codec E [Dec_Create (edec_video_params E n attr fi ct cs)] = CNCODEC_SUCCESS \<longrightarrow>
        (if g_codec E (h_trace u) = CNCODEC_SUCCESS then edec_InitVideoDecode E n attr s = Ret () u
         else \<exists>e. edec_InitVideoDecode E n attr s = Exc e u \<and> ErrorCode e = INIT_FAILED))"
    using w by (intro exI [of _ ?u]) (simp add: init edec_create_def edec_ret_def Let_def flip: p_def)
  let ?v = "(edec_do (Dec_Create p) w)\<lparr>h_handle := g_dirty E\<rparr>"
  show "\<exists>u e. h_handle u = g_dirty E \<and> h_loop u = h_loop s \<and> h_got_eos u = h_got_eos s \<and> h_send_eos u = h_send_eos s \<and>
      h_queue u = h_queue s \<and> h_trace u = [Dec_Create (edec_video_params E n attr fi ct cs)] \<and> ErrorCode e = INIT_FAILED \<and>
      (g_codec E (h_trace u) \<noteq> CNCODEC_SUCCESS \<longrightarrow> edec_InitVideoDecode E n attr s = Exc e u)"
    using w by (intro exI [of _ ?v] exI [of _ "throw INIT_FAILED (''Create video decode failed: '' @ ecode_string (g_timeout E) (g_codec E [Dec_Create p]))"])
      (simp add: init edec_create_def edec_ret_def Let_def flip: p_def)
qed

lemma EasyDecode_New_Exc:
  assumes "at_codec_type attr \<noteq> JPEG" and "at_codec_type attr \<noteq> MJPEG" and "edec_InitVideoDecode E n attr s = Exc e t"
  shows "EasyDecode_New E es n attr s = call_then (edec_destroy E es t) (\<lambda>_ u. Exc e u)"
  using assms by (simp add: EasyDecode_New_def)

text \<open>C19: Creating a video decoder with a valid colour standard. If the codec refuses to create it (and
  leaves the handle null), INIT_FAILED is thrown and neither a decoder nor a thread is left. If it is
  created and takes the stride alignment, the decoder is ready with exactly the parameters of the
  attributes. But if the alignment is refused, the destructor asks the decoder, which never started,
  for the end of its stream: the program is terminated if the codec refuses that too, and waits for
  ever inside \<open>New\<close> unless the codec raises an event that ends the session.\<close>

theorem EasyDecode_New_outcome:
  assumes video: "at_codec_type attr \<noteq> JPEG" "at_codec_type attr \<noteq> MJPEG"
    and casts: "GetFormatInfo (at_pixel_format attr) = Inr fi" "CodecTypeCast (at_codec_type attr) = Inr ct"
      "ColorStdCast (at_color_std attr) = Inr cs"
    and p: "p = edec_video_params E n attr fi ct cs" and r: "r = EasyDecode_New E es n attr (new_DecodeHandler a v j)"
  shows "(if g_codec E [Dec_Create p] \<noteq> CNCODEC_SUCCESS
     then \<not> g_dirty E \<longrightarrow> (\<exists>e u. r = Exc e u \<and> ErrorCode e = INIT_FAILED \<and> \<not> h_handle u \<and> h_loop u = No_Thread)
     else if g_codec E [Dec_SetAttr (at_stride_align attr), Dec_Create p] = CNCODEC_SUCCESS
     then \<exists>t. r = Ret () t \<and> h_handle t \<and> h_loop t = Looping \<and> h_trace t = [Dec_SetAttr (at_stride_align attr), Dec_Create p]
     else if g_codec E [Dec_Feed_Eos, Dec_SetAttr (at_stride_align attr), Dec_Create p] \<noteq> CNCODEC_SUCCESS then r = Terminate
     else if \<exists>e\<in>set es. ends_session (g_ver E) e then \<exists>e u. r = Exc e u \<and> ErrorCode e = INIT_FAILED \<and> \<not> h_handle u
     else \<exists>u. r = Blocked u)"
proof -
  let ?s = "new_DecodeHandler a v j"
  have s: "h_trace ?s = []" "h_loop ?s = Looping" "\<not> h_got_eos ?s" "\<not> h_send_eos ?s" "h_queue ?s = []"
    by (simp_all add: new_DecodeHandler_def)
  from edec_InitVideo_steps(1) [OF casts s(1), of E n] s obtain u where
    u: "h_handle u" "\<not> h_jpeg_decode u" "h_loop u = Looping" "\<not> h_got_eos u" "\<not> h_send_eos u" "h_queue u = []"
      "h_trace u = [Dec_SetAttr (at_stride_align attr), Dec_Create p]"
    and init: "g_codec E [Dec_Create p] = CNCODEC_SUCCESS \<longrightarrow>
        (if g_codec E (h_trace u) = CNCODEC_SUCCESS then edec_InitVideoDecode E n attr ?s = Ret () u
         else \<exists>e. edec_InitVideoDecode E n attr ?s = Exc e u \<and> ErrorCode e = INIT_FAILED)"
    unfolding p by auto
  from edec_InitVideo_steps(2) [OF casts s(1), of E n] s obtain w e where
    w: "h_handle w = g_dirty E" "h_loop w = Looping" "\<not> h_got_eos w" "h_queue w = []" "ErrorCode e = INIT_FAILED"
      "h_trace w = [Dec_Create p]"
    and fail: "g_codec E [Dec_Create p] \<noteq> CNCODEC_SUCCESS \<Longrightarrow> edec_InitVideoDecode E n attr ?s = Exc e w"
    unfolding p by (metis (no_types, lifting))
  consider (refused) "g_codec E [Dec_Create p] \<noteq> CNCODEC_SUCCESS"
    | (ready) "g_codec E [Dec_Create p] = CNCODEC_SUCCESS" "g_codec E (h_trace u) = CNCODEC_SUCCESS"
    | (unset) e' where "g_codec E [Dec_Create p] = CNCODEC_SUCCESS" "g_codec E (h_trace u) \<noteq> CNCODEC_SUCCESS"
      "edec_InitVideoDecode E n attr ?s = Exc e' u" "ErrorCode e' = INIT_FAILED"
    using init by (auto split: if_splits)
  then show ?thesis
  proof cases
    case refused
    have r': "r = call_then (edec_destroy E es w) (\<lambda>_ u. Exc e u)"
      unfolding r by (rule EasyDecode_New_Exc [OF video fail [OF refused]])
    have "edec_begin_close E w = Some (w\<lparr>h_status := STOP, h_got_eos := True\<rparr>)" if "\<not> g_dirty E"
      using that w by (simp add: edec_begin_close_def)
    then have "r = Exc e (edec_teardown (edec_join E (w\<lparr>h_status := STOP, h_got_eos := True\<rparr>)))" if "\<not> g_dirty E"
      using that by (simp add: r' edec_destroy_def)
    then show ?thesis using refused w(5) by (simp add: edec_teardown_def edec_join_def)
  next
    case ready
    with init have "r = Ret () u" using video by (simp add: r EasyDecode_New_def)
    with ready u show ?thesis by simp
  next
    case unset
    have r': "r = call_then (edec_destroy E es u) (\<lambda>_ t. Exc e' t)"
      unfolding r by (rule EasyDecode_New_Exc [OF video unset(3)])
    show ?thesis
    proof (cases "edec_begin_close E u")
      case None
      then have "r = Terminate" by (simp add: r' edec_destroy_def)
      moreover have "g_codec E (Dec_Feed_Eos # h_trace u) \<noteq> CNCODEC_SUCCESS" using None u edec_begin_close_None [of E u] by simp
      ultimately show ?thesis using unset(1,2) u(7) by simp
    next
      case (Some t)
      have eos: "g_codec E (Dec_Feed_Eos # h_trace u) = CNCODEC_SUCCESS" using Some u edec_begin_close_None [of E u] by auto
      have "(\<exists>x. edec_destroy E es u = Ret True x) \<longleftrightarrow> (\<exists>e\<in>set es. ends_session (g_ver E) e)"
        using edec.close_returns_iff [OF Some, of es] u by simp
      moreover from edec.close_returns_or_blocks [OF Some, of es]
      have "(\<exists>x. edec_destroy E es u = Ret True x \<and> \<not> h_handle x) \<or> (\<exists>x. edec_destroy E es u = Blocked x)" .
      ultimately show ?thesis using unset(1,2,4) eos u(7) r' by auto
    qed
  qed
qed

subsection \<open>Concrete runs\<close>

definition demo_edec_env :: "(edec_act list \<Rightarrow> cncodecRet) \<Rightarrow> edec_env" where
  "demo_edec_env c = \<lparr>g_ver = 10600, g_turbo = False, g_codec = c, g_timeout = 5, g_dirty = False\<rparr>"

definition demo_Attr :: Attr where
  "demo_Attr = \<lparr>at_w = 64, at_h = 32, at_codec_type = H264, at_pixel_format = NV12, at_color_std = ITU_BT_709, at_input_buffer_num = 2,
     at_output_buffer_num = 3, at_interlaced = False, at_frame_callback = True, at_eos_callback = True, at_dev_id = 0, at_stride_align = 1\<rparr>"

definition demo_vparams :: cnvideoDecCreateInfo where
  "demo_vparams = \<lparr>ci_codec = CNCODEC_H264, ci_pixelFmt = CNCODEC_PIX_FMT_NV12, ci_colorSpace = CNCODEC_COLOR_SPACE_BT_709,
     ci_width = 64, ci_height = 32, ci_bitDepthMinus8 = 0, ci_progressive = True, ci_inputBufNum = 2, ci_outputBufNum = 3,
     ci_deviceId = 0, ci_instance = INSTANCE_AUTO\<rparr>"

definition demo_jparams :: cnjpegDecCreateInfo where
  "demo_jparams = \<lparr>jc_pixelFmt = CNCODEC_PIX_FMT_NV12, jc_colorSpace = CNCODEC_COLOR_SPACE_BT_709, jc_width = 64, jc_height = 32,
     jc_inputBufNum = 2, jc_outputBufNum = 3, jc_deviceId = 0\<rparr>"

definition demo_edec0 :: DecodeHandler where
  "demo_edec0 = new_DecodeHandler demo_Attr demo_vparams demo_jparams"

definition demo_edec1 :: "(edec_act list \<Rightarrow> cncodecRet) \<Rightarrow> DecodeHandler" where
  "demo_edec1 c = (case EasyDecode_New (demo_edec_env c) [] 0 demo_Attr demo_edec0 of Ret _ t \<Rightarrow> t | _ \<Rightarrow> demo_edec0)"

definition demo_packet :: CnPacket where
  "demo_packet = \<lparr>pk_buf_id = 0, pk_data = Some [1, 2, 3], pk_length = 3, pk_pts = 0x100000007, pk_codec_type = H264, pk_slice_type = FRAME\<rparr>"

text \<open>A codec that takes everything but the end of the stream, and one that is busy for the first attempt to feed.\<close>

definition no_eos_codec :: "edec_act list \<Rightarrow> cncodecRet" where
  "no_eos_codec t = (if hd t = Dec_Feed_Eos then CNCODEC_ERR 1 else CNCODEC_SUCCESS)"

definition busy_codec :: "edec_act list \<Rightarrow> cncodecRet" where
  "busy_codec t = (case t of Dec_Feed _ _ _ # u \<Rightarrow> (case u of Dec_Feed _ _ _ # _ \<Rightarrow> CNCODEC_SUCCESS | _ \<Rightarrow> CNCODEC_TIMED_OUT) | _ \<Rightarrow> CNCODEC_SUCCESS)"

lemma demo_casts:
  "at_codec_type demo_Attr \<noteq> JPEG" "at_codec_type demo_Attr \<noteq> MJPEG"
  "GetFormatInfo (at_pixel_format demo_Attr) = Inr \<lparr>edk_fmt = NV12, cncodec_fmt = CNCODEC_PIX_FMT_NV12, plane_num = 2, fmt_str = ''NV12'', supported = True\<rparr>"
  "CodecTypeCast (at_codec_type demo_Attr) = Inr CNCODEC_H264" "ColorStdCast (at_color_std demo_Attr) = Inr CNCODEC_COLOR_SPACE_BT_709"
  by (simp_all add: demo_Attr_def GetFormatInfo_def kFrameFormatMap_def FORMAT_PAIR_def)

definition demo_created :: "edec_act list" where
  "demo_created = [Dec_SetAttr 1, Dec_Create demo_vparams]"

lemma demo_edec1:
  assumes "c demo_created = CNCODEC_SUCCESS" and "c [Dec_Create demo_vparams] = CNCODEC_SUCCESS"
  shows "EasyDecode_New (demo_edec_env c) [] 0 demo_Attr demo_edec0 = Ret () (demo_edec1 c) \<and> h_trace (demo_edec1 c) = demo_created \<and>
    h_handle (demo_edec1 c) \<and> \<not> h_jpeg_decode (demo_edec1 c) \<and> \<not> h_got_eos (demo_edec1 c) \<and> \<not> h_send_eos (demo_edec1 c) \<and>
    h_queue (demo_edec1 c) = [] \<and> h_attr (demo_edec1 c) = demo_Attr \<and> h_pts_key (demo_edec1 c) = 0"
proof -
  have p: "\<lparr>ci_codec = CNCODEC_H264, ci_pixelFmt = CNCODEC_PIX_FMT_NV12, ci_colorSpace = CNCODEC_COLOR_SPACE_BT_709,
      ci_width = at_w demo_Attr, ci_height = at_h demo_Attr, ci_bitDepthMinus8 = (if at_pixel_format demo_Attr = P010 then 2 else 0),
      ci_progressive = (\<not> at_interlaced demo_Attr), ci_inputBufNum = at_input_buffer_num demo_Attr,
      ci_outputBufNum = at_output_buffer_num demo_Attr, ci_deviceId = at_dev_id demo_Attr, ci_instance = INSTANCE_AUTO\<rparr> = demo_vparams"
    by (simp add: demo_Attr_def demo_vparams_def)
  let ?w = "demo_edec0\<lparr>h_attr := demo_Attr, h_jpeg_decode := False,
      h_pixel_fmt_info := \<lparr>edk_fmt = NV12, cncodec_fmt = CNCODEC_PIX_FMT_NV12, plane_num = 2, fmt_str = ''NV12'', supported = True\<rparr>,
      h_vparams := demo_vparams\<rparr>"
  have w: "h_trace ?w = []" "at_stride_align demo_Attr = 1" "\<not> h_got_eos demo_edec0" "\<not> h_send_eos demo_edec0" "h_queue demo_edec0 = []"
      "h_pts_key demo_edec0 = 0"
    by (simp_all add: demo_edec0_def new_DecodeHandler_def demo_Attr_def)
  have "EasyDecode_New (demo_edec_env c) [] 0 demo_Attr demo_edec0 =
      Ret () (edec_do (Dec_SetAttr 1) ((edec_do (Dec_Create demo_vparams) ?w)\<lparr>h_handle := True\<rparr>))"
    using assms w
    by (simp add: EasyDecode_New_def edec_InitVideoDecode_def demo_casts edec_create_def edec_ret_def demo_edec_env_def Let_def p demo_created_def)
  then show ?thesis using w by (simp add: demo_edec1_def demo_created_def)
qed

lemma demo_edec1_reach:
  "c demo_created = CNCODEC_SUCCESS \<Longrightarrow> c [Dec_Create demo_vparams] = CNCODEC_SUCCESS \<Longrightarrow> edec_reach (demo_edec_env c) (demo_edec1 c)"
  using demo_edec1 [of c] edec_reach.start [of "demo_edec_env c" "[]" 0 demo_Attr demo_Attr demo_vparams demo_jparams]
  unfolding demo_edec0_def by blast

lemma demo_codecs [simp]:
  "no_eos_codec demo_created = CNCODEC_SUCCESS" "no_eos_codec [Dec_Create demo_vparams] = CNCODEC_SUCCESS"
  "busy_codec demo_created = CNCODEC_SUCCESS" "busy_codec [Dec_Create demo_vparams] = CNCODEC_SUCCESS"
  "g_codec (demo_edec_env c) = c" "g_ver (demo_edec_env c) = 10600"
  by (simp_all add: no_eos_codec_def busy_codec_def demo_created_def demo_edec_env_def)

theorem edec_lifecycle_witness: "edec_live busy_codec (h_trace (demo_edec1 busy_codec)) = 1 \<and> edec_GetStatus (demo_edec1 busy_codec) \<noteq> EOS"
  using edec_lifecycle [OF demo_edec1_reach [of busy_codec]] demo_edec1 [of busy_codec] by simp


theorem edec_feed_attempts_witness:
  "\<exists>u. edec_FeedVideoData (demo_edec_env busy_codec) demo_packet True (demo_edec1 busy_codec) = Ret () u \<and>
     h_vpu_pts_map u 0 = Some 0x100000007"
proof -
  let ?s = "demo_edec1 busy_codec" and ?E = "demo_edec_env busy_codec"
  let ?a = "feed_act ?E demo_packet True (h_pts_key ?s)"
  have s: "h_trace ?s = demo_created" "h_pts_key ?s = 0" using demo_edec1 [of busy_codec] by simp_all
  from edec_feed_attempts [where E = ?E and s = ?s and packet = demo_packet and i = True] obtain k u where
    k: "1 \<le> k" "k \<le> 3" "h_trace u = replicate k ?a @ demo_created"
    and before: "\<forall>j. 1 \<le> j \<and> j < k \<longrightarrow> busy_codec (replicate j ?a @ demo_created) = CNCODEC_TIMED_OUT"
    and last: "case busy_codec (h_trace u) of
       CNCODEC_SUCCESS \<Rightarrow> edec_FeedVideoData ?E demo_packet True ?s = Ret () u \<and> h_vpu_pts_map u = (h_vpu_pts_map ?s)(h_pts_key ?s \<mapsto> pk_pts demo_packet)
     | CNCODEC_TIMED_OUT \<Rightarrow> k = 3 \<and> (\<exists>e. edec_FeedVideoData ?E demo_packet True ?s = Exc e u \<and> ErrorCode e = TIMEOUT) \<and>
         h_vpu_pts_map u = (h_vpu_pts_map ?s)(h_pts_key ?s := None)
     | CNCODEC_ERR c \<Rightarrow> (\<exists>e. edec_FeedVideoData ?E demo_packet True ?s = Exc e u \<and> ErrorCode e = INTERNAL) \<and>
         h_vpu_pts_map u = (h_vpu_pts_map ?s)(h_pts_key ?s := None)"
    by (auto simp: s(1))
  have one: "busy_codec (?a # demo_created) = CNCODEC_TIMED_OUT"
    by (simp add: busy_codec_def feed_act_def demo_created_def)
  have two: "busy_codec (?a # ?a # xs) = CNCODEC_SUCCESS" for xs
    by (simp add: busy_codec_def feed_act_def)
  have "k \<noteq> 3" using before [rule_format, of 2] two by (auto simp: numeral_2_eq_2)
  moreover have "k \<noteq> 1"
  proof
    assume "k = 1"
    with k(3) one last show False by simp
  qed
  ultimately have "k = Suc (Suc 0)" using k(1,2) by linarith
  with k(3) last two show ?thesis by (auto simp: s(2) demo_packet_def)
qed

definition demo_frame :: cncodecFrame where
  "demo_frame = \<lparr>f_id = 9, f_width = 64, f_height = 32, f_stride = [64, 64], f_plane = [1, 2], f_planeNum = 2, f_channel = 0\<rparr>"

theorem edec_pts_restored_witness:
  "\<exists>t v c. edec_FeedVideoData (demo_edec_env (\<lambda>_. CNCODEC_SUCCESS)) demo_packet True (demo_edec1 (\<lambda>_. CNCODEC_SUCCESS)) = Ret () t \<and>
     edec_ReceiveFrame demo_frame 0 (snd (SetVpuTimestamp 5 t)) = Ret () v \<and> hd (h_trace v) = Frame_Callback c \<and> cf_pts c = 0x100000007"
proof -
  let ?c = "\<lambda>_. CNCODEC_SUCCESS" let ?s = "demo_edec1 ?c"
  have s: "h_pts_key ?s = 0" "\<not> h_jpeg_decode ?s" "h_attr ?s = demo_Attr" using demo_edec1 [of ?c] by simp_all
  let ?a = "feed_act (demo_edec_env ?c) demo_packet True 0"
  have "edec_FeedVideoData (demo_edec_env ?c) demo_packet True ?s =
      Ret () ((edec_do ?a (snd (SetVpuTimestamp 0x100000007 ?s)))\<lparr>h_packets_count := h_packets_count (snd (SetVpuTimestamp 0x100000007 ?s)) + 1\<rparr>)"
    by (simp add: edec_FeedVideoData_eq edec_ret_def s eval_nat_numeral demo_packet_def)
      (simp add: edec_do_def)
  then obtain t where t: "edec_FeedVideoData (demo_edec_env ?c) demo_packet True ?s = Ret () t" "\<not> h_jpeg_decode t" "h_attr t = demo_Attr"
    using s by (simp add: SetVpuTimestamp_def)
  show ?thesis
    using edec_pts_restored [OF t(1), of "snd (SetVpuTimestamp 5 t)" "[Put 5]" demo_frame] t s
    by (auto simp: SetVpuTimestamp_def demo_frame_def demo_packet_def demo_Attr_def)
qed

theorem EasyDecode_New_outcome_witness:
  "\<exists>u. EasyDecode_New (demo_edec_env (\<lambda>t. if hd t = Dec_SetAttr 1 then CNCODEC_ERR 1 else CNCODEC_SUCCESS)) [] 0 demo_Attr
     (new_DecodeHandler demo_Attr demo_vparams demo_jparams) = Blocked u"
  using EasyDecode_New_outcome [OF demo_casts refl refl, of "demo_edec_env (\<lambda>t. if hd t = Dec_SetAttr 1 then CNCODEC_ERR 1 else CNCODEC_SUCCESS)" 0
    "[]" demo_Attr demo_vparams demo_jparams]
  by (simp add: demo_Attr_def)

end
