(* ===== verification/Easy_Enc_Tables.thy ===== *)
theory Easy_Enc_Tables
  imports Enc_Tables
begin

text \<open>
  The profiles, levels and GOP types of EasyEncode (easydk/include/easycodec/easy_encode.h) and the
  casts to the constants of the codec library at the head of easydk/src/easycodec/easy_encode.cpp.
  The constants are those of \<open>Enc_Tables\<close>; \<open>None\<close> is \<open>CNVIDEOENC_PROFILE_MAX\<close>,
  \<open>CNVIDEOENC_LEVEL_MAX\<close> and \<open>CNVIDEOENC_GOP_TYPE_MAX\<close>.
\<close>

datatype (plugins only: code) VideoProfile =
  VP_H264_BASELINE | VP_H264_MAIN | VP_H264_HIGH | VP_H264_HIGH_10 | VP_H265_MAIN
| VP_H265_MAIN_STILL | VP_H265_MAIN_INTRA | VP_H265_MAIN_10 | VP_PROFILE_MAX

datatype (plugins only: code) VideoLevel =
  VL_H264_1 | VL_H264_1B | VL_H264_11 | VL_H264_12 | VL_H264_13 | VL_H264_2 | VL_H264_21
| VL_H264_22 | VL_H264_3 | VL_H264_31 | VL_H264_32 | VL_H264_4 | VL_H264_41 | VL_H264_42
| VL_H264_5 | VL_H264_51 | VL_H265_MAIN_1 | VL_H265_HIGH_1 | VL_H265_MAIN_2 | VL_H265_HIGH_2 | VL_H265_MAIN_21
| VL_H265_HIGH_21 | VL_H265_MAIN_3 | VL_H265_HIGH_3 | VL_H265_MAIN_31 | VL_H265_HIGH_31 | VL_H265_MAIN_4 | VL_H265_HIGH_4
| VL_H265_MAIN_41 | VL_H265_HIGH_41 | VL_H265_MAIN_5 | VL_H265_HIGH_5 | VL_H265_MAIN_51 | VL_H265_HIGH_51 | VL_H265_MAIN_52
| VL_H265_HIGH_52 | VL_H265_MAIN_6 | VL_H265_HIGH_6 | VL_H265_MAIN_61 | VL_H265_HIGH_61 | VL_H265_MAIN_62 | VL_H265_HIGH_62
| VL_LEVEL_MAX

datatype (plugins only: code) GopType = GOP_BIDIRECTIONAL | GOP_LOW_DELAY | GOP_PYRAMID

datatype (plugins only: code) encGopType = CNVIDEOENC_GOP_TYPE_BIDIRECTIONAL | CNVIDEOENC_GOP_TYPE_LOW_DELAY | CNVIDEOENC_GOP_TYPE_PYRAMID

text \<open>\<open>static_cast<int>\<close> of the enumerators.\<close>

primrec profile_int :: "VideoProfile \<Rightarrow> nat" where
  "profile_int VP_H264_BASELINE = 0"
| "profile_int VP_H264_MAIN = 1"
| "profile_int VP_H264_HIGH = 2"
| "profile_int VP_H264_HIGH_10 = 3"
| "profile_int VP_H265_MAIN = 4"
| "profile_int VP_H265_MAIN_STILL = 5"
| "profile_int VP_H265_MAIN_INTRA = 6"
| "profile_int VP_H265_MAIN_10 = 7"
| "profile_int VP_PROFILE_MAX = 8"

primrec level_int :: "VideoLevel \<Rightarrow> nat" where
  "level_int VL_H264_1 = 0"
| "level_int VL_H264_1B = 1"
| "level_int VL_H264_11 = 2"
| "level_int VL_H264_12 = 3"
| "level_int VL_H264_13 = 4"
| "level_int VL_H264_2 = 5"
| "level_int VL_H264_21 = 6"
| "level_int VL_H264_22 = 7"
| "level_int VL_H264_3 = 8"
| "level_int VL_H264_31 = 9"
| "level_int VL_H264_32 = 10"
| "level_int VL_H264_4 = 11"
| "level_int VL_H264_41 = 12"
| "level_int VL_H264_42 = 13"
| "level_int VL_H264_5 = 14"
| "level_int VL_H264_51 = 15"
| "level_int VL_H265_MAIN_1 = 16"
| "level_int VL_H265_HIGH_1 = 17"
| "level_int VL_H265_MAIN_2 = 18"
| "level_int VL_H265_HIGH_2 = 19"
| "level_int VL_H265_MAIN_21 = 20"
| "level_int VL_H265_HIGH_21 = 21"
| "level_int VL_H265_MAIN_3 = 22"
| "level_int VL_H265_HIGH_3 = 23"
| "level_int VL_H265_MAIN_31 = 24"
| "level_int VL_H265_HIGH_31 = 25"
| "level_int VL_H265_MAIN_4 = 26"
| "level_int VL_H265_HIGH_4 = 27"
| "level_int VL_H265_MAIN_41 = 28"
| "level_int VL_H265_HIGH_41 = 29"
| "level_int VL_H265_MAIN_5 = 30"
| "level_int VL_H265_HIGH_5 = 31"
| "level_int VL_H265_MAIN_51 = 32"
| "level_int VL_H265_HIGH_51 = 33"
| "level_int VL_H265_MAIN_52 = 34"
| "level_int VL_H265_HIGH_52 = 35"
| "level_int VL_H265_MAIN_6 = 36"
| "level_int VL_H265_HIGH_6 = 37"
| "level_int VL_H265_MAIN_61 = 38"
| "level_int VL_H265_HIGH_61 = 39"
| "level_int VL_H265_MAIN_62 = 40"
| "level_int VL_H265_HIGH_62 = 41"
| "level_int VL_LEVEL_MAX = 42"

primrec ProfileCast :: "VideoProfile \<Rightarrow> cnvideoEncProfile option" where
  "ProfileCast VP_H264_BASELINE = Some CNVIDEOENC_PROFILE_H264_BASELINE"
| "ProfileCast VP_H264_MAIN = Some CNVIDEOENC_PROFILE_H264_MAIN"
| "ProfileCast VP_H264_HIGH = Some CNVIDEOENC_PROFILE_H264_HIGH"
| "ProfileCast VP_H264_HIGH_10 = Some CNVIDEOENC_PROFILE_H264_HIGH_10"
| "ProfileCast VP_H265_MAIN = Some CNVIDEOENC_PROFILE_H265_MAIN"
| "ProfileCast VP_H265_MAIN_STILL = Some CNVIDEOENC_PROFILE_H265_MAIN_STILL"
| "ProfileCast VP_H265_MAIN_INTRA = Some CNVIDEOENC_PROFILE_H265_MAIN_INTRA"
| "ProfileCast VP_H265_MAIN_10 = Some CNVIDEOENC_PROFILE_H265_MAIN_10"
| "ProfileCast VP_PROFILE_MAX = None"

primrec LevelCast :: "VideoLevel \<Rightarrow> cnvideoEncLevel option" where
  "LevelCast VL_H264_1 = Some CNVIDEOENC_LEVEL_H264_1"
| "LevelCast VL_H264_1B = Some CNVIDEOENC_LEVEL_H264_1B"
| "LevelCast VL_H264_11 = Some CNVIDEOENC_LEVEL_H264_11"
| "LevelCast VL_H264_12 = Some CNVIDEOENC_LEVEL_H264_12"
| "LevelCast VL_H264_13 = Some CNVIDEOENC_LEVEL_H264_13"
| "LevelCast VL_H264_2 = Some CNVIDEOENC_LEVEL_H264_2"
| "LevelCast VL_H264_21 = Some CNVIDEOENC_LEVEL_H264_21"
| "LevelCast VL_H264_22 = Some CNVIDEOENC_LEVEL_H264_22"
| "LevelCast VL_H264_3 = Some CNVIDEOENC_LEVEL_H264_3"
| "LevelCast VL_H264_31 = Some CNVIDEOENC_LEVEL_H264_31"
| "LevelCast VL_H264_32 = Some CNVIDEOENC_LEVEL_H264_32"
| "LevelCast VL_H264_4 = Some CNVIDEOENC_LEVEL_H264_4"
| "LevelCast VL_H264_41 = Some CNVIDEOENC_LEVEL_H264_41"
| "LevelCast VL_H264_42 = Some CNVIDEOENC_LEVEL_H264_42"
| "LevelCast VL_H264_5 = Some CNVIDEOENC_LEVEL_H264_5"
| "LevelCast VL_H264_51 = Some CNVIDEOENC_LEVEL_H264_51"
| "LevelCast VL_H265_MAIN_1 = Some CNVIDEOENC_LEVEL_H265_MAIN_1"
| "LevelCast VL_H265_HIGH_1 = Some CNVIDEOENC_LEVEL_H265_HIGH_1"
| "LevelCast VL_H265_MAIN_2 = Some CNVIDEOENC_LEVEL_H265_MAIN_2"
| "LevelCast VL_H265_HIGH_2 = Some CNVIDEOENC_LEVEL_H265_HIGH_2"
| "LevelCast VL_H265_MAIN_21 = Some CNVIDEOENC_LEVEL_H265_MAIN_21"
| "LevelCast VL_H265_HIGH_21 = Some CNVIDEOENC_LEVEL_H265_HIGH_21"
| "LevelCast VL_H265_MAIN_3 = Some CNVIDEOENC_LEVEL_H265_MAIN_3"
| "LevelCast VL_H265_HIGH_3 = Some CNVIDEOENC_LEVEL_H265_HIGH_3"
| "LevelCast VL_H265_MAIN_31 = Some CNVIDEOENC_LEVEL_H265_MAIN_31"
| "LevelCast VL_H265_HIGH_31 = Some CNVIDEOENC_LEVEL_H265_HIGH_31"
| "LevelCast VL_H265_MAIN_4 = Some CNVIDEOENC_LEVEL_H265_MAIN_4"
| "LevelCast VL_H265_HIGH_4 = Some CNVIDEOENC_LEVEL_H265_HIGH_4"
| "LevelCast VL_H265_MAIN_41 = Some CNVIDEOENC_LEVEL_H265_MAIN_41"
| "LevelCast VL_H265_HIGH_41 = Some CNVIDEOENC_LEVEL_H265_HIGH_41"
| "LevelCast VL_H265_MAIN_5 = Some CNVIDEOENC_LEVEL_H265_MAIN_5"
| "LevelCast VL_H265_HIGH_5 = Some CNVIDEOENC_LEVEL_H265_HIGH_5"
| "LevelCast VL_H265_MAIN_51 = Some CNVIDEOENC_LEVEL_H265_MAIN_51"
| "LevelCast VL_H265_HIGH_51 = Some CNVIDEOENC_LEVEL_H265_HIGH_51"
| "LevelCast VL_H265_MAIN_52 = Some CNVIDEOENC_LEVEL_H265_MAIN_52"
| "LevelCast VL_H265_HIGH_52 = Some CNVIDEOENC_LEVEL_H265_HIGH_52"
| "LevelCast VL_H265_MAIN_6 = Some CNVIDEOENC_LEVEL_H265_MAIN_6"
| "LevelCast VL_H265_HIGH_6 = Some CNVIDEOENC_LEVEL_H265_HIGH_6"
| "LevelCast VL_H265_MAIN_61 = Some CNVIDEOENC_LEVEL_H265_MAIN_61"
| "LevelCast VL_H265_HIGH_61 = Some CNVIDEOENC_LEVEL_H265_HIGH_61"
| "LevelCast VL_H265_MAIN_62 = Some CNVIDEOENC_LEVEL_H265_MAIN_62"
| "LevelCast VL_H265_HIGH_62 = Some CNVIDEOENC_LEVEL_H265_HIGH_62"
| "LevelCast VL_LEVEL_MAX = None"

primrec GopTypeCast :: "GopType \<Rightarrow> encGopType option" where
  "GopTypeCast GOP_BIDIRECTIONAL = Some CNVIDEOENC_GOP_TYPE_BIDIRECTIONAL"
| "GopTypeCast GOP_LOW_DELAY = Some CNVIDEOENC_GOP_TYPE_LOW_DELAY"
| "GopTypeCast GOP_PYRAMID = Some CNVIDEOENC_GOP_TYPE_PYRAMID"

text \<open>Which standard a constant of the codec library belongs to.\<close>

primrec h264_profile :: "cnvideoEncProfile \<Rightarrow> bool" where
  "h264_profile CNVIDEOENC_PROFILE_H264_BASELINE = True"
| "h264_profile CNVIDEOENC_PROFILE_H264_MAIN = True"
| "h264_profile CNVIDEOENC_PROFILE_H264_HIGH = True"
| "h264_profile CNVIDEOENC_PROFILE_H264_HIGH_10 = True"
| "h264_profile CNVIDEOENC_PROFILE_H265_MAIN = False"
| "h264_profile CNVIDEOENC_PROFILE_H265_MAIN_STILL = False"
| "h264_profile CNVIDEOENC_PROFILE_H265_MAIN_INTRA = False"
| "h264_profile CNVIDEOENC_PROFILE_H265_MAIN_10 = False"

primrec h264_level :: "cnvideoEncLevel \<Rightarrow> bool" where
  "h264_level CNVIDEOENC_LEVEL_H264_1 = True"
| "h264_level CNVIDEOENC_LEVEL_H264_1B = True"
| "h264_level CNVIDEOENC_LEVEL_H264_11 = True"
| "h264_level CNVIDEOENC_LEVEL_H264_12 = True"
| "h264_level CNVIDEOENC_LEVEL_H264_13 = True"
| "h264_level CNVIDEOENC_LEVEL_H264_2 = True"
| "h264_level CNVIDEOENC_LEVEL_H264_21 = True"
| "h264_level CNVIDEOENC_LEVEL_H264_22 = True"
| "h264_level CNVIDEOENC_LEVEL_H264_3 = True"
| "h264_level CNVIDEOENC_LEVEL_H264_31 = True"
| "h264_level CNVIDEOENC_LEVEL_H264_32 = True"
| "h264_level CNVIDEOENC_LEVEL_H264_4 = True"
| "h264_level CNVIDEOENC_LEVEL_H264_41 = True"
| "h264_level CNVIDEOENC_LEVEL_H264_42 = True"
| "h264_level CNVIDEOENC_LEVEL_H264_5 = True"
| "h264_level CNVIDEOENC_LEVEL_H264_51 = True"
| "h264_level CNVIDEOENC_LEVEL_H265_MAIN_1 = False"
| "h264_level CNVIDEOENC_LEVEL_H265_HIGH_1 = False"
| "h264_level CNVIDEOENC_LEVEL_H265_MAIN_2 = False"
| "h264_level CNVIDEOENC_LEVEL_H265_HIGH_2 = False"
| "h264_level CNVIDEOENC_LEVEL_H265_MAIN_21 = False"
| "h264_level CNVIDEOENC_LEVEL_H265_HIGH_21 = False"
| "h264_level CNVIDEOENC_LEVEL_H265_MAIN_3 = False"
| "h264_level CNVIDEOENC_LEVEL_H265_HIGH_3 = False"
| "h264_level CNVIDEOENC_LEVEL_H265_MAIN_31 = False"
| "h264_level CNVIDEOENC_LEVEL_H265_HIGH_31 = False"
| "h264_level CNVIDEOENC_LEVEL_H265_MAIN_4 = False"
| "h264_level CNVIDEOENC_LEVEL_H265_HIGH_4 = False"
| "h264_level CNVIDEOENC_LEVEL_H265_MAIN_41 = False"
| "h264_level CNVIDEOENC_LEVEL_H265_HIGH_41 = False"
| "h264_level CNVIDEOENC_LEVEL_H265_MAIN_5 = False"
| "h264_level CNVIDEOENC_LEVEL_H265_HIGH_5 = False"
| "h264_level CNVIDEOENC_LEVEL_H265_MAIN_51 = False"
| "h264_level CNVIDEOENC_LEVEL_H265_HIGH_51 = False"
| "h264_level CNVIDEOENC_LEVEL_H265_MAIN_52 = False"
| "h264_level CNVIDEOENC_LEVEL_H265_HIGH_52 = False"
| "h264_level CNVIDEOENC_LEVEL_H265_MAIN_6 = False"
| "h264_level CNVIDEOENC_LEVEL_H265_HIGH_6 = False"
| "h264_level CNVIDEOENC_LEVEL_H265_MAIN_61 = False"
| "h264_level CNVIDEOENC_LEVEL_H265_HIGH_61 = False"
| "h264_level CNVIDEOENC_LEVEL_H265_MAIN_62 = False"
| "h264_level CNVIDEOENC_LEVEL_H265_HIGH_62 = False"

lemma ProfileCast_standard: "ProfileCast p = Some q \<Longrightarrow> h264_profile q \<longleftrightarrow> profile_int p \<le> 3"
  by (cases p) auto

lemma LevelCast_standard: "LevelCast l = Some q \<Longrightarrow> h264_level q \<longleftrightarrow> level_int l \<le> 15"
  by (cases l) auto

lemma ProfileCast_None: "ProfileCast p = None \<longleftrightarrow> p = VP_PROFILE_MAX"
  by (cases p) auto

lemma LevelCast_None: "LevelCast l = None \<longleftrightarrow> l = VL_LEVEL_MAX"
  by (cases l) auto

end
