(* ===== verification/Easy_Encode.thy ===== *)
theory Easy_Encode
  imports Easy_Enc_Tables Format_Info Gst_Types Mlu_Memory_Op
begin

text \<open>
  EasyEncode and its EncodeHandler (easydk/src/easycodec/easy_encode.cpp), the encoder of the EasyDK
  library. \<open>EncodeHandler\<close> is its state; \<open>e_trace\<close> lists what it did to the codec library and to
  its user, the newest first, and the answers of the library are functions of that trace. \<open>e_bufs\<close>
  are the host buffers allocated for packets and not yet released. A function \<open>Foo\<close> of the source
  is \<open>eenc_Foo\<close> where another component has one of that name.
\<close>

subsection \<open>State\<close>

record RateControl =
  rc_vbr :: bool
  rc_gop :: u32
  rc_frame_rate_num :: u32
  rc_frame_rate_den :: u32
  rc_bit_rate :: u32
  rc_max_bit_rate :: u32
  rc_max_qp :: u32
  rc_min_qp :: u32

record EncAttr =
  ea_w :: u32
  ea_h :: u32
  ea_pixel_format :: PixelFmt
  ea_codec_type :: CodecType
  ea_color_std :: ColorStd
  ea_jpeg_qfactor :: u32
  ea_profile :: VideoProfile
  ea_level :: VideoLevel
  ea_rate_control :: RateControl
  ea_input_buffer_num :: u32
  ea_output_buffer_num :: u32
  ea_p_frame_num :: u32
  ea_b_frame_num :: u32
  ea_gop_type :: GopType
  ea_insert_spspps_when_idr :: bool
  ea_packet_callback :: bool
  ea_eos_callback :: bool
  ea_dev_id :: int

text \<open>The parameters the codec is created with; \<open>uCfg\<close> of both standards has the same members used here.\<close>

record enc_ucfg =
  uc_profile :: "cnvideoEncProfile option"
  uc_level :: "cnvideoEncLevel option"
  uc_IframeInterval :: u32
  uc_BFramesNum :: u32
  uc_insertSpsPpsWhenIDR :: nat
  uc_gopType :: "encGopType option"
  uc_cabac :: bool

record eenc_video_info =
  vc_width :: u32
  vc_height :: u32
  vc_deviceId :: int
  vc_pixelFmt :: cncodecPixelFormat
  vc_colorSpace :: cncodecColorSpace
  vc_codec :: cncodecType
  vc_inputBufNum :: u32
  vc_outputBufNum :: u32
  vc_bitStrmBufSize :: nat
  vc_vbr :: bool
  vc_fpsNumerator :: u32
  vc_fpsDenominator :: u32
  vc_targetBitrate :: u32
  vc_peakBitrate :: u32
  vc_gopLength :: u32
  vc_maxQP :: u32
  vc_minQP :: u32
  vc_uCfg :: enc_ucfg

record eenc_jpeg_info =
  je_deviceId :: int
  je_pixelFmt :: cncodecPixelFormat
  je_colorSpace :: cncodecColorSpace
  je_width :: u32
  je_height :: u32
  je_inputBufNum :: u32
  je_outputBufNum :: u32
  je_bitStrmBufSize :: nat

text \<open>What is fed to the codec; \<open>ei_quality\<close> are the parameters of the JPEG encoder.\<close>

record eenc_input =
  in_plane :: "nat list"
  in_pixelFmt :: cncodecPixelFormat
  in_colorSpace :: cncodecColorSpace
  in_width :: u32
  in_height :: u32
  in_pts :: u64
  in_stride :: "u32 list"
  in_eos :: bool
  in_invalid_frame :: bool
  in_quality :: "u32 option"

datatype eenc_act =
  EEnc_Create eenc_video_info | EJpeg_Create eenc_jpeg_info | EEnc_Wait_Input bool | EEnc_H2D nat nat nat
| EEnc_Feed bool eenc_input | EEnc_Abort bool | EEnc_Destroy bool | EEnc_D2H nat nat | EPacket_Callback CnPacket | EEos_Callback

text \<open>
  The answers: return codes of the codec and of the copies, the planes of the input frame it lends
  and the bytes read from a bitstream buffer. \<open>k_alloc\<close> picks the address of a new buffer.
\<close>

record eenc_env =
  k_ver :: nat
  k_codec :: "eenc_act list \<Rightarrow> cncodecRet"
  k_timeout :: int
  k_planes :: "eenc_act list \<Rightarrow> nat list"
  k_cnrt :: "eenc_act list \<Rightarrow> cnrtRet"
  k_bytes :: "eenc_act list \<Rightarrow> u8 list"
  k_alloc :: "(nat \<Rightarrow> u8 list option) \<Rightarrow> nat"

record EncodeHandler =
  e_attr :: EncAttr
  e_send_eos :: bool
  e_jpeg_encode :: bool
  e_queue :: "cb_event list"
  e_loop :: loop_thread
  e_vparams :: eenc_video_info
  e_jparams :: eenc_jpeg_info
  e_pixel_fmt_info :: FormatInfo
  e_handle :: bool
  e_packet_cnt :: u64
  e_got_eos :: bool
  e_trace :: "eenc_act list"
  e_bufs :: "nat \<Rightarrow> u8 list option"

definition eenc_do :: "eenc_act \<Rightarrow> EncodeHandler \<Rightarrow> EncodeHandler" where
  "eenc_do a s = s\<lparr>e_trace := a # e_trace s\<rparr>"

definition eenc_ret :: "eenc_env \<Rightarrow> EncodeHandler \<Rightarrow> cncodecRet" where
  "eenc_ret E s = k_codec E (e_trace s)"

text \<open>\<open>std::to_string(ecode)\<close>.\<close>

fun eenc_ecode_string :: "int \<Rightarrow> cncodecRet \<Rightarrow> string" where
  "eenc_ecode_string timeout CNCODEC_SUCCESS = ''0''"
| "eenc_ecode_string timeout CNCODEC_TIMED_OUT = int_to_string (- timeout)"
| "eenc_ecode_string timeout (CNCODEC_ERR n) = int_to_string n"

definition g_buffer_size :: nat where "g_buffer_size = 0x200000"

subsection \<open>Creation\<close>

definition h264_cfg :: "EncAttr \<Rightarrow> enc_ucfg" where
  "h264_cfg a =
     \<lparr>uc_profile = (if profile_int (ea_profile a) > profile_int VP_H264_HIGH_10 then Some CNVIDEOENC_PROFILE_H264_HIGH else ProfileCast (ea_profile a)),
      uc_level = (if level_int (ea_level a) > level_int VL_H264_51 then Some CNVIDEOENC_LEVEL_H264_41 else LevelCast (ea_level a)),
      uc_IframeInterval = ea_p_frame_num a, uc_BFramesNum = ea_b_frame_num a,
      uc_insertSpsPpsWhenIDR = (if ea_insert_spspps_when_idr a then 1 else 0), uc_gopType = GopTypeCast (ea_gop_type a), uc_cabac = True\<rparr>"

definition h265_cfg :: "EncAttr \<Rightarrow> enc_ucfg" where
  "h265_cfg a =
     \<lparr>uc_profile = (if profile_int (ea_profile a) < profile_int VP_H265_MAIN then Some CNVIDEOENC_PROFILE_H265_MAIN else ProfileCast (ea_profile a)),
      uc_level = (if level_int (ea_level a) < level_int VL_H265_MAIN_1 then Some CNVIDEOENC_LEVEL_H265_HIGH_41 else LevelCast (ea_level a)),
      uc_IframeInterval = ea_p_frame_num a, uc_BFramesNum = ea_b_frame_num a,
      uc_insertSpsPpsWhenIDR = (if ea_insert_spspps_when_idr a then 1 else 0), uc_gopType = GopTypeCast (ea_gop_type a), uc_cabac = False\<rparr>"

definition eenc_video_params :: "EncAttr \<Rightarrow> FormatInfo \<Rightarrow> cncodecColorSpace \<Rightarrow> cncodecType \<Rightarrow> enc_ucfg \<Rightarrow> eenc_video_info" where
  "eenc_video_params a fi cs ct cfg =
     (let r = ea_rate_control a
      in \<lparr>vc_width = ea_w a, vc_height = ea_h a, vc_deviceId = ea_dev_id a, vc_pixelFmt = cncodec_fmt fi, vc_colorSpace = cs, vc_codec = ct,
          vc_inputBufNum = ea_input_buffer_num a, vc_outputBufNum = ea_output_buffer_num a, vc_bitStrmBufSize = g_buffer_size,
          vc_vbr = rc_vbr r, vc_fpsNumerator = rc_frame_rate_num r, vc_fpsDenominator = rc_frame_rate_den r,
          vc_targetBitrate = rc_bit_rate r, vc_peakBitrate = rc_max_bit_rate r, vc_gopLength = rc_gop r,
          vc_maxQP = rc_max_qp r, vc_minQP = rc_min_qp r, vc_uCfg = cfg\<rparr>)"

definition eenc_create :: "eenc_env \<Rightarrow> eenc_act \<Rightarrow> string \<Rightarrow> EncodeHandler \<Rightarrow> (EncodeHandler, unit) run" where
  "eenc_create E a msg s =
     (let s = eenc_do a s; r = eenc_ret E s
      in if r = CNCODEC_SUCCESS then Ret () (s\<lparr>e_handle := True\<rparr>)
         else Exc (throw INIT_FAILED (msg @ eenc_ecode_string (k_timeout E) r)) (s\<lparr>e_handle := False\<rparr>))"

definition eenc_InitVideoEncode :: "eenc_env \<Rightarrow> EncodeHandler \<Rightarrow> (EncodeHandler, unit) run" where
  "eenc_InitVideoEncode E s =
     (let a = e_attr s
      in call_then (of_sum (ColorStdCast (ea_color_std a)) s) (\<lambda>cs s.
         call_then (of_sum (CodecTypeCast (ea_codec_type a)) s) (\<lambda>ct s.
         if ct = CNCODEC_H264 \<or> ct = CNCODEC_HEVC
         then let v = eenc_video_params a (e_pixel_fmt_info s) cs ct (if ct = CNCODEC_H264 then h264_cfg a else h265_cfg a)
              in eenc_create E (EEnc_Create v) ''Initialize video encoder failed. cncodec error code: '' (s\<lparr>e_vparams := v\<rparr>)
         else Exc (throw UNSUPPORTED ''Encoder only support format H264/H265/JPEG'') s)))"

definition eenc_InitJpegEncode :: "eenc_env \<Rightarrow> EncodeHandler \<Rightarrow> (EncodeHandler, unit) run" where
  "eenc_InitJpegEncode E s =
     (let a = e_attr s
      in call_then (of_sum (ColorStdCast (ea_color_std a)) s) (\<lambda>cs s.
         let j = \<lparr>je_deviceId = ea_dev_id a, je_pixelFmt = cncodec_fmt (e_pixel_fmt_info s), je_colorSpace = cs, je_width = ea_w a,
                  je_height = ea_h a, je_inputBufNum = ea_input_buffer_num a, je_outputBufNum = ea_output_buffer_num a,
                  je_bitStrmBufSize = g_buffer_size\<rparr>
         in eenc_create E (EJpeg_Create j) ''Initialize jpeg encoder failed. cncodec error code: '' (s\<lparr>e_jparams := j\<rparr>)))"

text \<open>The members before the constructor's body; the uninitialised parameters are arguments.\<close>

definition EncodeHandler0 :: "EncAttr \<Rightarrow> eenc_video_info \<Rightarrow> eenc_jpeg_info \<Rightarrow> FormatInfo \<Rightarrow> EncodeHandler" where
  "EncodeHandler0 attr v j fi =
     \<lparr>e_attr = attr, e_send_eos = False, e_jpeg_encode = False, e_queue = [], e_loop = No_Thread, e_vparams = v, e_jparams = j,
      e_pixel_fmt_info = fi, e_handle = False, e_packet_cnt = 0, e_got_eos = False, e_trace = [], e_bufs = (\<lambda>_. None)\<rparr>"

definition new_EncodeHandler :: "eenc_env \<Rightarrow> EncodeHandler \<Rightarrow> (EncodeHandler, unit) run" where
  "new_EncodeHandler E s =
     (let s = s\<lparr>e_jpeg_encode := (ea_codec_type (e_attr s) = JPEG)\<rparr>
      in call_then (of_sum (GetFormatInfo (ea_pixel_format (e_attr s))) s) (\<lambda>fi s.
         let s = s\<lparr>e_pixel_fmt_info := fi\<rparr>
         in call_then (if e_jpeg_encode s then eenc_InitJpegEncode E s else eenc_InitVideoEncode E s) (\<lambda>_ s.
            Ret () (s\<lparr>e_loop := Looping\<rparr>))))"

text \<open>\<open>EasyEncode::New\<close> catches every exception of the handler's constructor and returns a null pointer.\<close>

definition EasyEncode_New :: "eenc_env \<Rightarrow> EncodeHandler \<Rightarrow> (EncodeHandler, bool) run" where
  "EasyEncode_New E s =
     (case new_EncodeHandler E s of Ret _ t \<Rightarrow> Ret True t | Exc _ t \<Rightarrow> Ret False t
      | UB \<Rightarrow> UB | Terminate \<Rightarrow> Terminate | Blocked t \<Rightarrow> Blocked t)"

subsection \<open>Events\<close>

definition eenc_ReceiveEOS :: "EncodeHandler \<Rightarrow> EncodeHandler" where
  "eenc_ReceiveEOS s = (if ea_eos_callback (e_attr s) then eenc_do EEos_Callback s else s)\<lparr>e_got_eos := True\<rparr>"

definition eenc_AbortEncoder :: "EncodeHandler \<Rightarrow> EncodeHandler" where
  "eenc_AbortEncoder s =
     (if e_handle s
      then let s = (eenc_do (EEnc_Abort (e_jpeg_encode s)) s)\<lparr>e_handle := False\<rparr>
           in (if ea_eos_callback (e_attr s) then eenc_do EEos_Callback s else s)\<lparr>e_got_eos := True\<rparr>
      else s)"

definition eenc_dispatch :: "nat \<Rightarrow> cb_event \<Rightarrow> EncodeHandler \<Rightarrow> EncodeHandler" where
  "eenc_dispatch ver e s =
     (if e = CB_EOS then eenc_ReceiveEOS s
      else if e \<in> {CB_SW_RESET, CB_HW_RESET, CB_OUT_OF_MEMORY, CB_ABORT_ERROR} then eenc_AbortEncoder s
      else if e = CB_STREAM_CORRUPT \<and> 10600 \<le> ver then s
      else eenc_AbortEncoder s)"

lemma eenc_dispatch_queue [simp]: "e_queue (eenc_dispatch ver e s) = e_queue s"
  by (simp add: eenc_dispatch_def eenc_ReceiveEOS_def eenc_AbortEncoder_def eenc_do_def Let_def)

definition eenc_pop :: "EncodeHandler \<Rightarrow> EncodeHandler" where
  "eenc_pop s = s\<lparr>e_queue := tl (e_queue s)\<rparr>"

definition eenc_rest :: "EncodeHandler \<Rightarrow> EncodeHandler" where
  "eenc_rest s = s\<lparr>e_loop := (if e_got_eos s then Loop_Done else Looping)\<rparr>"

function eenc_EventTaskRunner :: "nat \<Rightarrow> EncodeHandler \<Rightarrow> EncodeHandler" where
  "eenc_EventTaskRunner ver s =
     (case e_queue s of [] \<Rightarrow> eenc_rest s
      | e # q \<Rightarrow> eenc_EventTaskRunner ver (eenc_dispatch ver e (eenc_pop s)))"
  by auto
termination
  by (relation "measure (\<lambda>(ver, s). length (e_queue s))") (simp_all add: eenc_pop_def)

declare eenc_EventTaskRunner.simps [simp del]

definition eenc_ReceiveEvent :: "cb_event \<Rightarrow> EncodeHandler \<Rightarrow> EncodeHandler" where
  "eenc_ReceiveEvent e s = s\<lparr>e_queue := e_queue s @ [e]\<rparr>"

subsection \<open>Packets\<close>

text \<open>A bitstream of the codec: address of its buffer, offset and length, time stamp, result code.\<close>

record eenc_output =
  eo_addr :: nat
  eo_dataOffset :: nat
  eo_streamLength :: nat
  eo_pts :: u64
  eo_result :: int

definition eenc_ReceivePacket :: "eenc_env \<Rightarrow> eenc_output \<Rightarrow> EncodeHandler \<Rightarrow> EncodeHandler" where
  "eenc_ReceivePacket E p s =
     (if \<not> ea_packet_callback (e_attr s) then s
      else let data = k_alloc E (e_bufs s);
               s = eenc_do (EEnc_D2H (eo_addr p + eo_dataOffset p) (eo_streamLength p)) s;
               bytes = k_bytes E (e_trace s)
           in if k_cnrt E (e_trace s) \<noteq> CNRT_RET_SUCCESS
              then eenc_AbortEncoder (s\<lparr>e_bufs := (e_bufs s)(data \<mapsto> replicate (eo_streamLength p) 0)\<rparr>)
              else let cn_packet = \<lparr>pk_buf_id = data, pk_data = Some bytes, pk_length = eo_streamLength p, pk_pts = eo_pts p,
                                    pk_codec_type = ea_codec_type (e_attr s),
                                    pk_slice_type = (if e_jpeg_encode s \<or> e_packet_cnt s \<noteq> 0 then FRAME else SPS_PPS)\<rparr>
                   in eenc_do (EPacket_Callback cn_packet)
                        (s\<lparr>e_bufs := (e_bufs s)(data \<mapsto> bytes), e_packet_cnt := e_packet_cnt s + 1\<rparr>))"

datatype eenc_callback = EEnc_Packet eenc_output | EEnc_Event cb_event

fun eenc_EventHandler :: "eenc_env \<Rightarrow> eenc_callback \<Rightarrow> EncodeHandler \<Rightarrow> EncodeHandler" where
  "eenc_EventHandler E (EEnc_Packet p) s = eenc_ReceivePacket E p s"
| "eenc_EventHandler E (EEnc_Event e) s = eenc_ReceiveEvent e s"

text \<open>\<open>delete[]\<close> of a pointer that is no live buffer is undefined; of a null pointer it does nothing.\<close>

definition eenc_ReleaseBuffer :: "nat \<Rightarrow> EncodeHandler \<Rightarrow> (EncodeHandler, unit) run" where
  "eenc_ReleaseBuffer buf_id s =
     (if buf_id = 0 then Ret () s
      else case e_bufs s buf_id of None \<Rightarrow> UB | Some _ \<Rightarrow> Ret () (s\<lparr>e_bufs := (e_bufs s)(buf_id := None)\<rparr>))"

subsection \<open>Feeding\<close>

text \<open>One \<open>MemcpyH2D\<close> of \<open>CopyFrame\<close>, to plane \<open>i\<close> from pointer \<open>i\<close> of the frame.\<close>

definition eenc_h2d :: "eenc_env \<Rightarrow> nat list \<Rightarrow> CnFrame \<Rightarrow> nat \<Rightarrow> u32 \<Rightarrow> EncodeHandler \<Rightarrow> (EncodeHandler, unit) run" where
  "eenc_h2d E planes f i n s =
     (let s = eenc_do (EEnc_H2D (nth0 planes i) (nth0 (cf_ptrs f) i) (unat n)) s
      in if k_cnrt E (e_trace s) \<noteq> CNRT_RET_SUCCESS
         then Exc (throw MEMORY (''Memcpy host to device failed.'' @ '' cnrt error code: '' @ nat_to_string (cnrt_code (k_cnrt E (e_trace s))))) s
         else Ret () s)"

definition frame_bytes :: "CnFrame \<Rightarrow> u32" where
  "frame_bytes f = (if nth0 (cf_strides f) 0 = 0 then cf_width f * cf_height f else nth0 (cf_strides f) 0 * cf_height f)"

definition uv_bytes :: "CnFrame \<Rightarrow> u32" where
  "uv_bytes f = (if nth0 (cf_strides f) 1 = 0 then drop_bit 1 (cf_width f * cf_height f) else drop_bit 1 (nth0 (cf_strides f) 1 * cf_height f))"

definition eenc_CopyFrame :: "eenc_env \<Rightarrow> nat list \<Rightarrow> CnFrame \<Rightarrow> EncodeHandler \<Rightarrow> (EncodeHandler, unit) run" where
  "eenc_CopyFrame E planes f s =
     (if cf_frame_size f = 0 then Ret () s
      else let fmt = ea_pixel_format (e_attr s)
           in if fmt \<in> {NV12, NV21}
              then call_then (eenc_h2d E planes f 0 (frame_bytes f) s) (\<lambda>_ s. eenc_h2d E planes f 1 (uv_bytes f) s)
              else if fmt = I420
              then call_then (eenc_h2d E planes f 0 (frame_bytes f) s) (\<lambda>_ s.
                   call_then (eenc_h2d E planes f 1 (drop_bit 1 (uv_bytes f)) s) (\<lambda>_ s.
                   eenc_h2d E planes f 2 (drop_bit 1 (uv_bytes f)) s))
              else if fmt \<in> {ARGB, ABGR, RGBA, BGRA} then eenc_h2d E planes f 0 (push_bit 2 (frame_bytes f)) s
              else Exc (throw UNSUPPORTED ''Unsupported pixel format'') s)"

text \<open>
  \<open>SendJpegData\<close> and \<open>SendVideoData\<close> do the same with the functions of their library; the strides
  are copied for all planes the frame claims to have, three of which exist.
\<close>

definition eenc_input_of :: "bool \<Rightarrow> nat list \<Rightarrow> CnFrame \<Rightarrow> bool \<Rightarrow> EncodeHandler \<Rightarrow> eenc_input" where
  "eenc_input_of jpeg planes f eos s =
     \<lparr>in_plane = planes, in_pixelFmt = (if jpeg then je_pixelFmt (e_jparams s) else vc_pixelFmt (e_vparams s)),
      in_colorSpace = (if jpeg then je_colorSpace (e_jparams s) else vc_colorSpace (e_vparams s)),
      in_width = cf_width f, in_height = cf_height f, in_pts = cf_pts f, in_stride = map (nth0 (cf_strides f)) [0..<cf_n_planes f],
      in_eos = eos, in_invalid_frame = (eos \<and> cf_width f * cf_height f = 0),
      in_quality = (if jpeg then Some (ea_jpeg_qfactor (e_attr s)) else None)\<rparr>"

definition eenc_SendData :: "eenc_env \<Rightarrow> bool \<Rightarrow> string \<Rightarrow> CnFrame \<Rightarrow> bool \<Rightarrow> EncodeHandler \<Rightarrow> (EncodeHandler, bool) run" where
  "eenc_SendData E jpeg msg f eos s =
     (let s = eenc_do (EEnc_Wait_Input jpeg) s; planes = k_planes E (e_trace s)
      in if eenc_ret E s \<noteq> CNCODEC_SUCCESS then Ret False s
         else call_then (eenc_CopyFrame E planes f s) (\<lambda>_ s.
              let s = (if eos then s\<lparr>e_send_eos := True\<rparr> else s)
              in if CN_MAXIMUM_PLANE < cf_n_planes f then UB
                 else let s = eenc_do (EEnc_Feed jpeg (eenc_input_of jpeg planes f eos s)) s
                      in case eenc_ret E s of
                           CNCODEC_TIMED_OUT \<Rightarrow> Ret False s
                         | CNCODEC_SUCCESS \<Rightarrow> Ret True s
                         | CNCODEC_ERR c \<Rightarrow> Exc (throw INTERNAL (msg @ eenc_ecode_string (k_timeout E) (CNCODEC_ERR c))) s))"

definition eenc_SendJpegData :: "eenc_env \<Rightarrow> CnFrame \<Rightarrow> bool \<Rightarrow> EncodeHandler \<Rightarrow> (EncodeHandler, bool) run" where
  "eenc_SendJpegData E = eenc_SendData E True ''cnjpegEncFeedFrame failed. cncodec error code: ''"

definition eenc_SendVideoData :: "eenc_env \<Rightarrow> CnFrame \<Rightarrow> bool \<Rightarrow> EncodeHandler \<Rightarrow> (EncodeHandler, bool) run" where
  "eenc_SendVideoData E = eenc_SendData E False ''cnvideoEncFeedFrame failed. cncodec error code: ''"

definition SendDataCPU :: "eenc_env \<Rightarrow> CnFrame \<Rightarrow> bool \<Rightarrow> EncodeHandler \<Rightarrow> (EncodeHandler, bool) run" where
  "SendDataCPU E f eos s =
     (if e_send_eos s then Ret False s
      else if e_jpeg_encode s then eenc_SendJpegData E f eos s else eenc_SendVideoData E f eos s)"

definition eenc_GetAttr :: "EncodeHandler \<Rightarrow> EncAttr" where
  "eenc_GetAttr s = e_attr s"

subsection \<open>Destruction\<close>

definition eenc_run_loop :: "eenc_env \<Rightarrow> EncodeHandler \<Rightarrow> EncodeHandler" where
  "eenc_run_loop E s = (if e_loop s = Looping then eenc_EventTaskRunner (k_ver E) s else s)"

definition eenc_wait_eos :: "eenc_env \<Rightarrow> cb_event list \<Rightarrow> EncodeHandler \<Rightarrow> EncodeHandler" where
  "eenc_wait_eos E es s = eenc_run_loop E (fold eenc_ReceiveEvent es s)"

definition eenc_join :: "eenc_env \<Rightarrow> EncodeHandler \<Rightarrow> EncodeHandler" where
  "eenc_join E s = (eenc_run_loop E s)\<lparr>e_loop := No_Thread\<rparr>"

definition eenc_teardown :: "EncodeHandler \<Rightarrow> EncodeHandler" where
  "eenc_teardown s = (if e_handle s then (eenc_do (EEnc_Destroy (e_jpeg_encode s)) s)\<lparr>e_handle := False\<rparr> else s)"

text \<open>
  Asking for the end of the stream with an empty frame; whether it was taken is not looked at. An
  exception is caught and logged, and then the members are destroyed, among them a thread that was
  not joined: \<open>None\<close>.
\<close>

definition eenc_begin_close :: "eenc_env \<Rightarrow> EncodeHandler \<Rightarrow> EncodeHandler option" where
  "eenc_begin_close E s =
     (if e_got_eos s then Some s
      else if \<not> e_send_eos s \<and> e_handle s
      then case SendDataCPU E CnFrame0 True s of Ret _ t \<Rightarrow> Some t | _ \<Rightarrow> None
      else Some (if \<not> e_handle s then s\<lparr>e_got_eos := True\<rparr> else s))"

definition eenc_destroy :: "eenc_env \<Rightarrow> cb_event list \<Rightarrow> EncodeHandler \<Rightarrow> (EncodeHandler, bool) run" where
  "eenc_destroy E es s =
     (case eenc_begin_close E s of None \<Rightarrow> Terminate
      | Some t \<Rightarrow>
          let u = (if e_got_eos t then t else eenc_wait_eos E es t)
          in if e_got_eos u then Ret True (eenc_teardown (eenc_join E u)) else Blocked u)"

end
