(* ===== verification/Easy_Encode_Props.thy ===== *)
theory Easy_Encode_Props
  imports Easy_Encode
begin

text \<open>
  EasyEncode as a codec session: the interpretation of the session's contract, the invariant of a
  reachable encoder, what goes in and comes out of it, its creation and its destruction.
\<close>

subsection \<open>The session of an encoder\<close>

lemma eenc_do_sel [simp]:
  "e_handle (eenc_do a s) = e_handle s" "e_got_eos (eenc_do a s) = e_got_eos s" "e_loop (eenc_do a s) = e_loop s"
  "e_queue (eenc_do a s) = e_queue s" "e_trace (eenc_do a s) = a # e_trace s" "e_send_eos (eenc_do a s) = e_send_eos s"
  "e_attr (eenc_do a s) = e_attr s" "e_jpeg_encode (eenc_do a s) = e_jpeg_encode s" "e_bufs (eenc_do a s) = e_bufs s"
  "e_packet_cnt (eenc_do a s) = e_packet_cnt s" "e_vparams (eenc_do a s) = e_vparams s" "e_jparams (eenc_do a s) = e_jparams s"
  by (simp_all add: eenc_do_def)

lemma eenc_ReceiveEOS_sel [simp]:
  "e_handle (eenc_ReceiveEOS s) = e_handle s" "e_got_eos (eenc_ReceiveEOS s)" "e_loop (eenc_ReceiveEOS s) = e_loop s"
  "e_queue (eenc_ReceiveEOS s) = e_queue s"
  by (simp_all add: eenc_ReceiveEOS_def)

lemma eenc_Abort_sel [simp]:
  "\<not> e_handle (eenc_AbortEncoder s)" "e_got_eos (eenc_AbortEncoder s) = (e_got_eos s \<or> e_handle s)"
  "e_loop (eenc_AbortEncoder s) = e_loop s" "e_queue (eenc_AbortEncoder s) = e_queue s"
  by (simp_all add: eenc_AbortEncoder_def Let_def)

lemma eenc_dispatch_got: "e_got_eos (eenc_dispatch ver e s) = (e_got_eos s \<or> e = CB_EOS \<or> (aborts ver e \<and> e_handle s))"
  by (cases e) (auto simp: eenc_dispatch_def)

lemma eenc_dispatch_handle: "e_handle (eenc_dispatch ver e s) = (e_handle s \<and> \<not> aborts ver e)"
  by (cases e) (auto simp: eenc_dispatch_def)

lemma fold_eenc_ReceiveEvent: "fold eenc_ReceiveEvent es s = s\<lparr>e_queue := e_queue s @ es\<rparr>"
  by (induction es arbitrary: s) (simp_all add: eenc_ReceiveEvent_def)

text \<open>What a call of \<open>SendDataCPU\<close> leaves alone, whatever its outcome.\<close>

definition eenc_same :: "EncodeHandler \<Rightarrow> EncodeHandler \<Rightarrow> bool" where
  "eenc_same s t \<longleftrightarrow> e_handle t = e_handle s \<and> e_got_eos t = e_got_eos s \<and> e_loop t = e_loop s \<and> e_queue t = e_queue s \<and>
     e_attr t = e_attr s \<and> e_jpeg_encode t = e_jpeg_encode s \<and> e_bufs t = e_bufs s \<and> e_packet_cnt t = e_packet_cnt s"

lemma eenc_same_refl [simp]: "eenc_same s s"
  by (simp add: eenc_same_def)

lemma eenc_same_do [simp]: "eenc_same s (eenc_do a t) = eenc_same s t" "eenc_same s (t\<lparr>e_send_eos := b\<rparr>) = eenc_same s t"
  by (simp_all add: eenc_same_def)

lemma eenc_same_h2d [intro]: "eenc_same s t \<Longrightarrow> ensures (eenc_same s) (eenc_h2d E planes f i n t)"
  by (simp add: eenc_h2d_def Let_def)

lemma eenc_same_CopyFrame: "eenc_same s t \<Longrightarrow> ensures (eenc_same s) (eenc_CopyFrame E planes f t)"
  by (auto simp: eenc_CopyFrame_def Let_def intro!: ensures_then)

lemma eenc_same_SendData: "eenc_same s t \<Longrightarrow> ensures (eenc_same s) (eenc_SendData E jpeg msg f eos t)"
  unfolding eenc_SendData_def Let_def
  by (auto intro!: ensures_then [OF eenc_same_CopyFrame] split: cncodecRet.split)

lemma eenc_same_send: "ensures (eenc_same s) (SendDataCPU E f eos s)"
  by (simp add: SendDataCPU_def eenc_SendJpegData_def eenc_SendVideoData_def eenc_same_SendData)

lemma eenc_begin_close_Some:
  assumes "eenc_begin_close E s = Some t"
  shows "e_queue t = e_queue s \<and> e_handle t = e_handle s \<and> e_loop t = e_loop s \<and> e_got_eos t = (e_got_eos s \<or> \<not> e_handle s)"
proof -
  have "eenc_same s u" if "SendDataCPU E CnFrame0 True s = Ret b u" for b u
    using ensures_RetD [OF eenc_same_send that] .
  then show ?thesis using assms
    by (auto simp: eenc_begin_close_def eenc_same_def split: if_splits outcome.splits)
qed

lemma eenc_teardown_handle: "\<not> e_handle (eenc_teardown s)"
  by (simp add: eenc_teardown_def)

interpretation eenc: closable_session "k_ver E" e_handle e_got_eos e_queue eenc_pop eenc_ReceiveEvent
    "eenc_dispatch (k_ver E)" eenc_rest "eenc_EventTaskRunner (k_ver E)"
    "\<lambda>s. e_loop s = Looping" "eenc_begin_close E" "eenc_wait_eos E" "\<lambda>s. eenc_teardown (eenc_join E s)" "eenc_destroy E"
  for E
proof (unfold_locales, goal_cases)
  case (17 s)
  then show ?case by (simp add: eenc_EventTaskRunner.simps)
next
  case (18 s e q)
  then show ?case by (subst eenc_EventTaskRunner.simps) simp
next
  case (19 s t)
  then show ?case using eenc_begin_close_Some [of E s t] by simp
next
  case (20 s es)
  then show ?case by (simp add: eenc_wait_eos_def eenc_run_loop_def fold_eenc_ReceiveEvent)
next
  case (21 s)
  then show ?case by (simp add: eenc_teardown_handle)
next
  case (22 s t es)
  then show ?case by (simp add: eenc_destroy_def Let_def)
qed (auto simp: eenc_pop_def eenc_ReceiveEvent_def eenc_dispatch_got eenc_dispatch_handle eenc_rest_def ends_session_def)

subsection \<open>Invariant\<close>

text \<open>
  Read off a trace: the encoders created and neither destroyed nor aborted, the inputs fed to the
  codec and the packets delivered to the user, the oldest first.
\<close>

fun eenc_live :: "(eenc_act list \<Rightarrow> cncodecRet) \<Rightarrow> eenc_act list \<Rightarrow> int" where
  "eenc_live codec [] = 0"
| "eenc_live codec (a # t) = eenc_live codec t +
     (case a of EEnc_Create _ \<Rightarrow> if codec (a # t) = CNCODEC_SUCCESS then 1 else 0
      | EJpeg_Create _ \<Rightarrow> if codec (a # t) = CNCODEC_SUCCESS then 1 else 0
      | EEnc_Destroy _ \<Rightarrow> -1 | EEnc_Abort _ \<Rightarrow> -1 | _ \<Rightarrow> 0)"

fun eenc_fed :: "eenc_act list \<Rightarrow> eenc_input list" where
  "eenc_fed [] = []"
| "eenc_fed (a # t) = eenc_fed t @ (case a of EEnc_Feed _ i \<Rightarrow> [i] | _ \<Rightarrow> [])"

fun eenc_delivered :: "eenc_act list \<Rightarrow> CnPacket list" where
  "eenc_delivered [] = []"
| "eenc_delivered (a # t) = eenc_delivered t @ (case a of EPacket_Callback p \<Rightarrow> [p] | _ \<Rightarrow> [])"

text \<open>The kinds of the first \<open>n\<close> packets: the counter has 64 bits.\<close>

definition slice_types :: "bool \<Rightarrow> nat \<Rightarrow> BitStreamSliceType list" where
  "slice_types jpeg n = map (\<lambda>i. if jpeg \<or> (of_nat i :: u64) \<noteq> 0 then FRAME else SPS_PPS) [0..<n]"

lemma slice_types_Suc: "slice_types jpeg (Suc n) = slice_types jpeg n @ [if jpeg \<or> (of_nat n :: u64) \<noteq> 0 then FRAME else SPS_PPS]"
  by (simp add: slice_types_def)

definition eenc_session_inv :: "eenc_env \<Rightarrow> EncodeHandler \<Rightarrow> bool" where
  "eenc_session_inv E s \<longleftrightarrow> (e_got_eos s \<or> e_loop s = Looping) \<and> joinable (e_loop s) \<and> (e_handle s \<or> e_got_eos s) \<and>
     eenc_live (k_codec E) (e_trace s) = (if e_handle s then 1 else 0)"

definition eenc_feed_inv :: "EncodeHandler \<Rightarrow> bool" where
  "eenc_feed_inv s \<longleftrightarrow> (e_send_eos s \<longleftrightarrow> (\<exists>i\<in>set (eenc_fed (e_trace s)). in_eos i)) \<and>
     (\<forall>i\<in>set (butlast (eenc_fed (e_trace s))). \<not> in_eos i)"

definition eenc_packet_inv :: "EncodeHandler \<Rightarrow> bool" where
  "eenc_packet_inv s \<longleftrightarrow> (let ps = eenc_delivered (e_trace s) in
     e_packet_cnt s = of_nat (length ps) \<and> map pk_slice_type ps = slice_types (e_jpeg_encode s) (length ps))"

definition eenc_inv :: "eenc_env \<Rightarrow> EncodeHandler \<Rightarrow> bool" where
  "eenc_inv E s \<longleftrightarrow> eenc_session_inv E s \<and> eenc_feed_inv s \<and> eenc_packet_inv s"

lemmas eenc_inv_defs = eenc_inv_def eenc_session_inv_def eenc_feed_inv_def eenc_packet_inv_def

text \<open>Actions that none of the three readings sees.\<close>

definition eenc_calm :: "eenc_act \<Rightarrow> bool" where
  "eenc_calm a \<longleftrightarrow> (case a of EEnc_Wait_Input _ \<Rightarrow> True | EEnc_H2D _ _ _ \<Rightarrow> True | EEnc_D2H _ _ \<Rightarrow> True | EEos_Callback \<Rightarrow> True | _ \<Rightarrow> False)"

lemma eenc_calm_simps [simp]:
  "eenc_calm (EEnc_Wait_Input j)" "eenc_calm (EEnc_H2D d p n)" "eenc_calm (EEnc_D2H p n)" "eenc_calm EEos_Callback"
  by (simp_all add: eenc_calm_def)

lemma eenc_calm_trace:
  assumes "eenc_calm a"
  shows "eenc_live c (a # t) = eenc_live c t" "eenc_fed (a # t) = eenc_fed t" "eenc_delivered (a # t) = eenc_delivered t"
  using assms by (cases a; simp add: eenc_calm_def)+

lemma eenc_inv_calm [simp]: "eenc_calm a \<Longrightarrow> eenc_inv E (eenc_do a s) = eenc_inv E s"
  by (simp add: eenc_inv_defs eenc_calm_trace del: eenc_live.simps eenc_fed.simps eenc_delivered.simps)

lemma eenc_inv_upd [simp]:
  "eenc_inv E (s\<lparr>e_queue := q\<rparr>) = eenc_inv E s" "eenc_inv E (s\<lparr>e_bufs := b\<rparr>) = eenc_inv E s"
  by (simp_all add: eenc_inv_defs)

lemma eenc_inv_got: "eenc_inv E s \<Longrightarrow> eenc_inv E (s\<lparr>e_got_eos := True\<rparr>)"
  by (auto simp: eenc_inv_defs)

lemma eenc_inv_eos: "eenc_inv E s \<Longrightarrow> eenc_inv E (eenc_ReceiveEOS s)"
  by (simp add: eenc_ReceiveEOS_def eenc_inv_got)

lemma eenc_inv_abort: "eenc_inv E s \<Longrightarrow> eenc_inv E (eenc_AbortEncoder s)"
  by (auto simp: eenc_AbortEncoder_def eenc_inv_defs Let_def)

lemma eenc_inv_dispatch: "eenc_inv E s \<Longrightarrow> eenc_inv E (eenc_dispatch ver e s)"
  by (auto simp: eenc_dispatch_def intro: eenc_inv_eos eenc_inv_abort)

lemma eenc_inv_deliver:
  assumes "eenc_inv E s"
    and "pk_slice_type p = (if e_jpeg_encode s \<or> e_packet_cnt s \<noteq> 0 then FRAME else SPS_PPS)"
  shows "eenc_inv E (eenc_do (EPacket_Callback p) (s\<lparr>e_bufs := b, e_packet_cnt := e_packet_cnt s + 1\<rparr>))"
  using assms by (simp add: eenc_inv_defs Let_def slice_types_Suc)

lemma eenc_inv_packet: "eenc_inv E s \<Longrightarrow> eenc_inv E (eenc_ReceivePacket E p s)"
  unfolding eenc_ReceivePacket_def Let_def
  using eenc_inv_deliver [of E "eenc_do (EEnc_D2H (eo_addr p + eo_dataOffset p) (eo_streamLength p)) s"]
  by (auto intro!: eenc_inv_abort)

lemma eenc_inv_callback: "eenc_inv E s \<Longrightarrow> eenc_inv E (eenc_EventHandler E c s)"
  by (cases c) (simp_all add: eenc_inv_packet eenc_ReceiveEvent_def)

lemma eenc_inv_release: "eenc_inv E s \<Longrightarrow> ensures (eenc_inv E) (eenc_ReleaseBuffer n s)"
  by (simp add: eenc_ReleaseBuffer_def split: option.split)

text \<open>Feeding. Until the codec is fed, a call only waits for an input buffer and copies to it.\<close>

definition eenc_before_feed :: "eenc_env \<Rightarrow> EncodeHandler \<Rightarrow> bool" where
  "eenc_before_feed E s \<longleftrightarrow> eenc_inv E s \<and> \<not> e_send_eos s"

lemma eenc_before_CopyFrame: "eenc_before_feed E s \<Longrightarrow> ensures (eenc_before_feed E) (eenc_CopyFrame E planes f s)"
  by (auto simp: eenc_CopyFrame_def eenc_h2d_def eenc_before_feed_def Let_def intro!: ensures_then)

lemma eenc_inv_feed:
  assumes "eenc_before_feed E s" and "in_eos i \<longleftrightarrow> eos"
  shows "eenc_inv E (eenc_do (EEnc_Feed j i) (if eos then s\<lparr>e_send_eos := True\<rparr> else s))"
  using assms by (auto simp: eenc_before_feed_def eenc_inv_defs)

lemma eenc_inv_SendData: "eenc_before_feed E s \<Longrightarrow> ensures (eenc_inv E) (eenc_SendData E jpeg msg f eos s)"
proof -
  assume s: "eenc_before_feed E s"
  let ?t = "eenc_do (EEnc_Wait_Input jpeg) s"
  have t: "eenc_before_feed E ?t" using s by (simp add: eenc_before_feed_def)
  have mono: "ensures (eenc_before_feed E) (eenc_CopyFrame E (k_planes E (e_trace ?t)) f ?t)"
    by (rule eenc_before_CopyFrame [OF t])
  have fed: "eenc_inv E (eenc_do (EEnc_Feed jpeg (eenc_input_of jpeg planes f eos v)) (if eos then u\<lparr>e_send_eos := True\<rparr> else u))"
    if "eenc_before_feed E u" for planes u v
    by (rule eenc_inv_feed [OF that]) (simp add: eenc_input_of_def)
  show ?thesis
  proof (cases "eenc_CopyFrame E (k_planes E (e_trace ?t)) f ?t")
    case (Ret x u)
    with mono have "eenc_before_feed E u" by simp
    from fed [OF this] show ?thesis using t Ret
      by (cases eos) (auto simp: eenc_SendData_def Let_def eenc_before_feed_def split: cncodecRet.split)
  qed (use mono t in \<open>auto simp: eenc_SendData_def Let_def eenc_before_feed_def\<close>)
qed

lemma eenc_inv_send: "eenc_inv E s \<Longrightarrow> ensures (eenc_inv E) (SendDataCPU E f eos s)"
  by (simp add: SendDataCPU_def eenc_SendJpegData_def eenc_SendVideoData_def eenc_inv_SendData eenc_before_feed_def)

subsection \<open>The life of an encoder\<close>

text \<open>
  What can happen to an encoder: its user calls it, exceptions included, the codec calls back, the
  event thread pops one event or returns.
\<close>

inductive eenc_step :: "eenc_env \<Rightarrow> EncodeHandler \<Rightarrow> EncodeHandler \<Rightarrow> bool" for E :: eenc_env where
  send: "SendDataCPU E f eos s = r \<Longrightarrow> r = Ret b t \<or> r = Exc e t \<Longrightarrow> eenc_step E s t"
| release: "eenc_ReleaseBuffer n s = Ret () t \<Longrightarrow> eenc_step E s t"
| abort: "eenc_step E s (eenc_AbortEncoder s)"
| callback: "eenc_step E s (eenc_EventHandler E c s)"
| pop_event: "e_loop s = Looping \<Longrightarrow> e_queue s = e # q \<Longrightarrow> eenc_step E s (eenc_dispatch (k_ver E) e (eenc_pop s))"
| loop_ends: "e_loop s = Looping \<Longrightarrow> e_queue s = [] \<Longrightarrow> e_got_eos s \<Longrightarrow> eenc_step E s (s\<lparr>e_loop := Loop_Done\<rparr>)"

inductive eenc_reach :: "eenc_env \<Rightarrow> EncodeHandler \<Rightarrow> bool" for E :: eenc_env where
  start: "EasyEncode_New E (EncodeHandler0 attr v j fi) = Ret True s \<Longrightarrow> eenc_reach E s"
| step: "eenc_reach E s \<Longrightarrow> eenc_step E s t \<Longrightarrow> eenc_reach E t"

text \<open>The standard a codec type stands for, and the parameters the codec is then created with.\<close>

definition eenc_ucfg_for :: "EncAttr \<Rightarrow> cncodecType \<Rightarrow> enc_ucfg option" where
  "eenc_ucfg_for a ct = (if ct = CNCODEC_H264 then Some (h264_cfg a) else if ct = CNCODEC_HEVC then Some (h265_cfg a) else None)"

definition eenc_create_act :: "EncAttr \<Rightarrow> exn + eenc_act" where
  "eenc_create_act a =
     (case GetFormatInfo (ea_pixel_format a) of Inl e \<Rightarrow> Inl e
      | Inr fi \<Rightarrow> (case ColorStdCast (ea_color_std a) of Inl e \<Rightarrow> Inl e
      | Inr cs \<Rightarrow>
          if ea_codec_type a = JPEG
          then Inr (EJpeg_Create \<lparr>je_deviceId = ea_dev_id a, je_pixelFmt = cncodec_fmt fi, je_colorSpace = cs, je_width = ea_w a,
                  je_height = ea_h a, je_inputBufNum = ea_input_buffer_num a, je_outputBufNum = ea_output_buffer_num a,
                  je_bitStrmBufSize = g_buffer_size\<rparr>)
          else case CodecTypeCast (ea_codec_type a) of Inl e \<Rightarrow> Inl e
            | Inr ct \<Rightarrow> (case eenc_ucfg_for a ct of None \<Rightarrow> Inl (throw UNSUPPORTED ''Encoder only support format H264/H265/JPEG'')
                | Some c \<Rightarrow> Inr (EEnc_Create (eenc_video_params a fi cs ct c)))))"

text \<open>What the constructor makes of the attributes: the handler it leaves, and whether it threw.\<close>

definition eenc_fresh :: "EncAttr \<Rightarrow> eenc_act list \<Rightarrow> bool \<Rightarrow> EncodeHandler \<Rightarrow> bool" where
  "eenc_fresh attr tr ok t \<longleftrightarrow> e_trace t = tr \<and> e_handle t = ok \<and> e_loop t = (if ok then Looping else No_Thread) \<and> \<not> e_got_eos t \<and>
     \<not> e_send_eos t \<and> e_packet_cnt t = 0 \<and> e_queue t = [] \<and> e_bufs t = (\<lambda>_. None) \<and> e_attr t = attr \<and>
     e_jpeg_encode t = (ea_codec_type attr = JPEG)"

definition eenc_new_outcome :: "eenc_env \<Rightarrow> EncAttr \<Rightarrow> (EncodeHandler, unit) run \<Rightarrow> bool" where
  "eenc_new_outcome E attr r \<longleftrightarrow>
     (case eenc_create_act attr of
        Inl e \<Rightarrow> (\<exists>t. r = Exc e t \<and> eenc_fresh attr [] False t)
      | Inr a \<Rightarrow> if k_codec E [a] = CNCODEC_SUCCESS then \<exists>t. r = Ret () t \<and> eenc_fresh attr [a] True t
                else \<exists>e t. r = Exc e t \<and> ErrorCode e = INIT_FAILED \<and> eenc_fresh attr [a] False t)"

lemma eenc_create_outcome:
  "eenc_create E a msg s =
     (if k_codec E (a # e_trace s) = CNCODEC_SUCCESS then Ret () ((eenc_do a s)\<lparr>e_handle := True\<rparr>)
      else Exc (throw INIT_FAILED (msg @ eenc_ecode_string (k_timeout E) (k_codec E (a # e_trace s)))) ((eenc_do a s)\<lparr>e_handle := False\<rparr>))"
  by (simp add: eenc_create_def eenc_ret_def Let_def)

lemma new_EncodeHandler_outcome: "eenc_new_outcome E attr (new_EncodeHandler E (EncodeHandler0 attr v j fi))"
proof (cases "GetFormatInfo (ea_pixel_format attr)")
  case (Inl e)
  then show ?thesis
    by (simp add: eenc_new_outcome_def eenc_create_act_def new_EncodeHandler_def Let_def EncodeHandler0_def eenc_fresh_def)
next
  case fi: (Inr fi)
  show ?thesis
  proof (cases "ColorStdCast (ea_color_std attr)")
    case (Inl e)
    with fi show ?thesis
      by (simp add: eenc_new_outcome_def eenc_create_act_def new_EncodeHandler_def Let_def EncodeHandler0_def eenc_fresh_def
          eenc_InitJpegEncode_def eenc_InitVideoEncode_def)
  next
    case cs: (Inr cs)
    show ?thesis
    proof (cases "ea_codec_type attr = JPEG")
      case True
      with fi cs show ?thesis
        by (simp add: eenc_new_outcome_def eenc_create_act_def new_EncodeHandler_def Let_def EncodeHandler0_def eenc_fresh_def
            eenc_InitJpegEncode_def eenc_create_outcome)
    next
      case False
      with fi cs show ?thesis
        by (cases "CodecTypeCast (ea_codec_type attr)")
          (auto simp: eenc_new_outcome_def eenc_create_act_def new_EncodeHandler_def Let_def EncodeHandler0_def eenc_fresh_def
            eenc_InitVideoEncode_def eenc_create_outcome eenc_ucfg_for_def)
    qed
  qed
qed

lemma EasyEncode_New_Ret:
  assumes "EasyEncode_New E (EncodeHandler0 attr v j fi) = Ret True s"
  shows "\<exists>a. eenc_create_act attr = Inr a \<and> k_codec E [a] = CNCODEC_SUCCESS \<and> eenc_fresh attr [a] True s"
  using new_EncodeHandler_outcome [of E attr v j fi] assms
  by (auto simp: EasyEncode_New_def eenc_new_outcome_def split: sum.splits if_splits)

lemma eenc_create_act_kind: "eenc_create_act attr = Inr a \<Longrightarrow> (\<exists>v. a = EEnc_Create v) \<or> (\<exists>j. a = EJpeg_Create j)"
  by (auto simp: eenc_create_act_def split: sum.splits if_splits option.splits)

lemma eenc_inv_New:
  assumes "EasyEncode_New E (EncodeHandler0 attr v j fi) = Ret True s"
  shows "eenc_inv E s"
proof -
  from EasyEncode_New_Ret [OF assms] obtain a where
    a: "eenc_create_act attr = Inr a" "k_codec E [a] = CNCODEC_SUCCESS" and s: "eenc_fresh attr [a] True s" by blast
  from eenc_create_act_kind [OF a(1)] show ?thesis
    using a(2) s by (auto simp: eenc_fresh_def eenc_inv_defs joinable_def slice_types_def Let_def)
qed

lemma eenc_step_inv:
  assumes "eenc_step E s t" and "eenc_inv E s"
  shows "eenc_inv E t"
  using assms(1)
proof cases
  case (send f eos r b e) then show ?thesis using eenc_inv_send [OF assms(2), of f eos] by auto
next
  case (release n) then show ?thesis using ensures_RetD [OF eenc_inv_release [OF assms(2)]] by blast
next
  case abort then show ?thesis using assms(2) by (simp add: eenc_inv_abort)
next
  case (callback c) then show ?thesis using assms(2) by (simp add: eenc_inv_callback)
next
  case (pop_event e q) then show ?thesis using assms(2) by (simp add: eenc_inv_dispatch eenc_pop_def)
next
  case loop_ends then show ?thesis using assms(2) by (auto simp: eenc_inv_defs joinable_def)
qed

lemma eenc_reach_inv: "eenc_reach E s \<Longrightarrow> eenc_inv E s"
  by (induction rule: eenc_reach.induct) (auto intro: eenc_inv_New eenc_step_inv)

text \<open>In every reachable state of an encoder, whatever its user and the codec do: a handle is held
  exactly if the one encoder it created was neither destroyed nor aborted; the event thread is
  joinable, and it runs unless the end of the stream was seen; and an encoder without a handle has
  seen the end of its stream, so that its destructor waits for nothing.\<close>

theorem eenc_lifecycle:
  assumes "eenc_reach E s"
  shows "eenc_live (k_codec E) (e_trace s) = (if e_handle s then 1 else 0) \<and> joinable (e_loop s) \<and>
     (e_got_eos s \<or> e_loop s = Looping) \<and> (e_handle s \<or> e_got_eos s)"
  using eenc_reach_inv [OF assms] by (simp add: eenc_inv_def eenc_session_inv_def)

text \<open>C22: The end of a stream is the last thing an encoder is fed: in every reachable state the flag
  says whether an input marked as the end was fed, no input follows such a one, and once the flag
  is set \<open>SendDataCPU\<close> refuses everything without touching the encoder, even if the codec did not
  take the request.\<close>

theorem eenc_eos_is_last:
  assumes "eenc_reach E s"
  shows "(e_send_eos s \<longleftrightarrow> (\<exists>i\<in>set (eenc_fed (e_trace s)). in_eos i)) \<and>
     (\<forall>i\<in>set (butlast (eenc_fed (e_trace s))). \<not> in_eos i) \<and>
     (e_send_eos s \<longrightarrow> SendDataCPU E f eos s = Ret False s)"
  using eenc_reach_inv [OF assms] by (simp add: eenc_inv_def eenc_feed_inv_def SendDataCPU_def)

text \<open>C23: A bitstream reported by the codec reaches the user: when the copy succeeds, the callback gets a
  packet in a buffer of its own with the bytes, the length and the time stamp, marked as parameter
  sets exactly if it is the first of a video encoder (counted with 64 bits); the buffers delivered
  before are left alone; and releasing it by its number frees exactly that buffer, a second time
  being undefined.\<close>

theorem eenc_packet_roundtrip:
  assumes "eenc_reach E s" and "ea_packet_callback (e_attr s)"
    and "k_cnrt E (EEnc_D2H (eo_addr out + eo_dataOffset out) (eo_streamLength out) # e_trace s) = CNRT_RET_SUCCESS"
    and "e_bufs s (k_alloc E (e_bufs s)) = None" and "k_alloc E (e_bufs s) \<noteq> 0"
  shows "\<exists>p t u. eenc_EventHandler E (EEnc_Packet out) s = t \<and> eenc_delivered (e_trace t) = eenc_delivered (e_trace s) @ [p] \<and>
     pk_length p = eo_streamLength out \<and> pk_pts p = eo_pts out \<and> pk_codec_type p = ea_codec_type (e_attr s) \<and>
     (pk_slice_type p = SPS_PPS \<longleftrightarrow> \<not> e_jpeg_encode s \<and> (of_nat (length (eenc_delivered (e_trace s))) :: u64) = 0) \<and>
     pk_data p = Some (k_bytes E (EEnc_D2H (eo_addr out + eo_dataOffset out) (eo_streamLength out) # e_trace s)) \<and>
     e_bufs t = (e_bufs s)(pk_buf_id p := pk_data p) \<and> e_bufs s (pk_buf_id p) = None \<and>
     eenc_ReleaseBuffer (pk_buf_id p) t = Ret () u \<and> e_bufs u = e_bufs s \<and> eenc_ReleaseBuffer (pk_buf_id p) u = UB"
proof -
  have cnt: "e_packet_cnt s = of_nat (length (eenc_delivered (e_trace s)))"
    using eenc_reach_inv [OF assms(1)] by (simp add: eenc_inv_def eenc_packet_inv_def Let_def)
  show ?thesis using assms(2-5)
    by (auto simp: eenc_ReceivePacket_def Let_def eenc_ReleaseBuffer_def cnt)
qed

text \<open>\<open>EasyEncode::New\<close> never throws. It returns an encoder exactly if the pixel format, the colour
  standard and the codec type are supported and the codec takes the parameters, and then one codec
  was created with exactly the parameters of the attributes; else it returns a null pointer and
  leaves no codec and no thread behind.\<close>

theorem EasyEncode_New_outcome:
  "case EasyEncode_New E (EncodeHandler0 attr v j fi) of
     Ret ok t \<Rightarrow>
       (ok \<longleftrightarrow> (\<exists>a. eenc_create_act attr = Inr a \<and> k_codec E [a] = CNCODEC_SUCCESS)) \<and> e_handle t = ok \<and>
       (if ok then eenc_create_act attr = Inr (hd (e_trace t)) \<and> length (e_trace t) = 1 \<and> e_loop t = Looping \<and>
            e_jpeg_encode t = (ea_codec_type attr = JPEG) \<and> eenc_GetAttr t = attr
        else e_loop t = No_Thread \<and> eenc_live (k_codec E) (e_trace t) = 0)
   | _ \<Rightarrow> False"
proof (cases "eenc_create_act attr")
  case (Inl e)
  with new_EncodeHandler_outcome [of E attr v j fi] show ?thesis
    by (auto simp: EasyEncode_New_def eenc_new_outcome_def eenc_fresh_def)
next
  case (Inr a)
  show ?thesis
  proof (cases "k_codec E [a] = CNCODEC_SUCCESS")
    case True
    with Inr new_EncodeHandler_outcome [of E attr v j fi] show ?thesis
      by (auto simp: EasyEncode_New_def eenc_new_outcome_def eenc_fresh_def eenc_GetAttr_def)
  next
    case False
    with Inr new_EncodeHandler_outcome [of E attr v j fi] eenc_create_act_kind [OF Inr] show ?thesis
      by (auto simp: EasyEncode_New_def eenc_new_outcome_def eenc_fresh_def)
  qed
qed

subsection \<open>Destruction\<close>

text \<open>What the destructor feeds, and the trace when it does.\<close>

definition eenc_closing_trace :: "eenc_env \<Rightarrow> EncodeHandler \<Rightarrow> eenc_act list" where
  "eenc_closing_trace E s =
     (let tr = EEnc_Wait_Input (e_jpeg_encode s) # e_trace s
      in EEnc_Feed (e_jpeg_encode s) (eenc_input_of (e_jpeg_encode s) (k_planes E tr) CnFrame0 True s) # tr)"

definition eenc_eos_refused :: "eenc_env \<Rightarrow> EncodeHandler \<Rightarrow> bool" where
  "eenc_eos_refused E s \<longleftrightarrow> k_codec E (tl (eenc_closing_trace E s)) = CNCODEC_SUCCESS \<and>
     k_codec E (eenc_closing_trace E s) \<notin> {CNCODEC_SUCCESS, CNCODEC_TIMED_OUT}"

lemma eenc_input_of_upd [simp]: "eenc_input_of j planes f eos (eenc_do a s) = eenc_input_of j planes f eos s"
  "eenc_input_of j planes f eos (s\<lparr>e_send_eos := b\<rparr>) = eenc_input_of j planes f eos s"
  by (simp_all add: eenc_input_of_def)

lemma eenc_begin_close_None:
  "eenc_begin_close E s = None \<longleftrightarrow> \<not> e_got_eos s \<and> \<not> e_send_eos s \<and> e_handle s \<and> eenc_eos_refused E s"
  by (auto simp: eenc_begin_close_def SendDataCPU_def eenc_SendJpegData_def eenc_SendVideoData_def eenc_SendData_def eenc_CopyFrame_def
      CnFrame0_def eenc_ret_def eenc_eos_refused_def eenc_closing_trace_def Let_def split: cncodecRet.splits)

definition eenc_counts :: "eenc_env \<Rightarrow> EncodeHandler \<Rightarrow> bool" where
  "eenc_counts E s \<longleftrightarrow> eenc_live (k_codec E) (e_trace s) = (if e_handle s then 1 else 0)"

lemma eenc_counts_dispatch: "eenc_counts E s \<Longrightarrow> eenc_counts E (eenc_dispatch ver e s)"
  by (auto simp: eenc_counts_def eenc_dispatch_def eenc_AbortEncoder_def eenc_ReceiveEOS_def Let_def)

lemma eenc_counts_run: "eenc_counts E s \<Longrightarrow> eenc_counts E (eenc_EventTaskRunner ver s)"
proof (induction ver s rule: eenc_EventTaskRunner.induct)
  case (1 ver s)
  show ?case
  proof (cases "e_queue s")
    case Nil
    then show ?thesis using 1(2) by (subst eenc_EventTaskRunner.simps) (simp add: eenc_rest_def eenc_counts_def)
  next
    case (Cons e q)
    have "eenc_counts E (eenc_dispatch ver e (eenc_pop s))"
      using 1(2) by (intro eenc_counts_dispatch) (simp add: eenc_counts_def eenc_pop_def)
    from 1(1) [OF Cons this] show ?thesis using Cons by (subst eenc_EventTaskRunner.simps) simp
  qed
qed

lemma eenc_counts_loop: "eenc_counts E s \<Longrightarrow> eenc_counts E (eenc_run_loop E s)"
  by (simp add: eenc_run_loop_def eenc_counts_run)

lemma eenc_live_finish: "eenc_counts E s \<Longrightarrow> eenc_live (k_codec E) (e_trace (eenc_teardown (eenc_join E s))) = 0"
  using eenc_counts_loop [of E s] by (simp add: eenc_teardown_def eenc_join_def eenc_counts_def)

lemma eenc_counts_begin_close:
  assumes "eenc_inv E s" and "eenc_begin_close E s = Some t"
  shows "eenc_counts E t"
proof -
  have "eenc_inv E t" if "SendDataCPU E CnFrame0 True s = Ret b t" for b
    using ensures_RetD [OF eenc_inv_send [OF assms(1)] that] .
  then show ?thesis using assms
    by (auto simp: eenc_begin_close_def eenc_counts_def eenc_inv_def eenc_session_inv_def split: if_splits outcome.splits)
qed

lemma eenc_live_close:
  assumes "eenc_inv E s" and "eenc_destroy E es s = Ret r u"
  shows "eenc_live (k_codec E) (e_trace u) = 0 \<and> e_loop u = No_Thread"
proof -
  from assms(2) obtain t where t: "eenc_begin_close E s = Some t"
    and u: "u = eenc_teardown (eenc_join E (if e_got_eos t then t else eenc_wait_eos E es t))"
    by (auto simp: eenc_destroy_def Let_def split: option.splits if_splits)
  have c: "eenc_counts E t" by (rule eenc_counts_begin_close [OF assms(1) t])
  then have "eenc_counts E (eenc_wait_eos E es t)"
    unfolding eenc_wait_eos_def fold_eenc_ReceiveEvent by (intro eenc_counts_loop) (simp add: eenc_counts_def)
  with c u eenc_live_finish [of E] show ?thesis by (simp add: eenc_teardown_def eenc_join_def)
qed

text \<open>Destroying a reachable encoder. If the end of the stream was neither seen nor requested and the
  codec lends an input buffer but fails to take the request, the exception is swallowed and the
  program is terminated, because the event thread is still running. Otherwise, whether or not the
  request was taken, the destructor returns exactly if the end of the stream was seen, or the
  encoder was aborted, or an event queued or raised while it waits ends the session; else it waits
  for ever. When it returns, the thread is joined and no encoder is left.\<close>

theorem eenc_destructor:
  assumes "eenc_reach E s"
  shows "(eenc_destroy E es s = Terminate \<longleftrightarrow> \<not> e_got_eos s \<and> \<not> e_send_eos s \<and> e_handle s \<and> eenc_eos_refused E s) \<and>
     (eenc_destroy E es s \<noteq> Terminate \<longrightarrow>
       ((\<exists>u. eenc_destroy E es s = Ret True u) \<longleftrightarrow>
          e_got_eos s \<or> \<not> e_handle s \<or> (\<exists>e\<in>set (e_queue s @ es). ends_session (k_ver E) e)) \<and>
       ((\<exists>u. eenc_destroy E es s = Ret True u \<and> eenc_live (k_codec E) (e_trace u) = 0 \<and> e_loop u = No_Thread) \<or>
        (\<exists>u. eenc_destroy E es s = Blocked u)))"
proof (cases "eenc_begin_close E s")
  case None
  then show ?thesis using eenc_begin_close_None [of E s] by (simp add: eenc_destroy_def)
next
  case (Some t)
  have inv: "eenc_inv E s" using assms by (rule eenc_reach_inv)
  then have alive: "e_got_eos s \<or> \<not> e_handle s \<or> e_loop s = Looping" by (auto simp: eenc_inv_def eenc_session_inv_def)
  have run: "eenc_destroy E es s \<noteq> Terminate" using Some by (simp add: eenc_destroy_def Let_def)
  have "\<not> (\<not> e_got_eos s \<and> \<not> e_send_eos s \<and> e_handle s \<and> eenc_eos_refused E s)"
    using eenc_begin_close_None [of E s] Some by (metis option.distinct(1))
  moreover note eenc.close_returns_iff [OF Some alive, of es]
  moreover have "(\<exists>u. eenc_destroy E es s = Ret True u \<and> eenc_live (k_codec E) (e_trace u) = 0 \<and> e_loop u = No_Thread) \<or>
      (\<exists>u. eenc_destroy E es s = Blocked u)"
    using eenc.close_returns_or_blocks [OF Some, of es] eenc_live_close [OF inv, of es True] by blast
  ultimately show ?thesis using run by blast
qed

subsection \<open>Concrete runs\<close>

definition demo_EncAttr :: EncAttr where
  "demo_EncAttr = \<lparr>ea_w = 64, ea_h = 32, ea_pixel_format = NV12, ea_codec_type = H264, ea_color_std = ITU_BT_709, ea_jpeg_qfactor = 50,
     ea_profile = VP_H264_MAIN, ea_level = VL_H264_41,
     ea_rate_control = \<lparr>rc_vbr = False, rc_gop = 30, rc_frame_rate_num = 30, rc_frame_rate_den = 1, rc_bit_rate = 0x100000,
       rc_max_bit_rate = 0x200000, rc_max_qp = 51, rc_min_qp = 1\<rparr>,
     ea_input_buffer_num = 6, ea_output_buffer_num = 6, ea_p_frame_num = 10, ea_b_frame_num = 0, ea_gop_type = GOP_BIDIRECTIONAL,
     ea_insert_spspps_when_idr = True, ea_packet_callback = True, ea_eos_callback = True, ea_dev_id = 0\<rparr>"

definition demo_enc_format :: FormatInfo where
  "demo_enc_format = \<lparr>edk_fmt = NV12, cncodec_fmt = CNCODEC_PIX_FMT_NV12, plane_num = 2, fmt_str = ''NV12'', supported = True\<rparr>"

definition demo_enc_vinfo :: eenc_video_info where
  "demo_enc_vinfo = eenc_video_params demo_EncAttr demo_enc_format CNCODEC_COLOR_SPACE_BT_709 CNCODEC_H264 (h264_cfg demo_EncAttr)"

definition demo_enc_jinfo :: eenc_jpeg_info where
  "demo_enc_jinfo = \<lparr>je_deviceId = 0, je_pixelFmt = CNCODEC_PIX_FMT_NV12, je_colorSpace = CNCODEC_COLOR_SPACE_BT_709, je_width = 64,
     je_height = 32, je_inputBufNum = 6, je_outputBufNum = 6, je_bitStrmBufSize = g_buffer_size\<rparr>"

text \<open>A library whose codec takes everything, one that refuses what it is fed, and an allocator.\<close>

definition demo_enc_env :: "(eenc_act list \<Rightarrow> cncodecRet) \<Rightarrow> eenc_env" where
  "demo_enc_env c = \<lparr>k_ver = 10600, k_codec = c, k_timeout = 4, k_planes = (\<lambda>_. [100, 200]), k_cnrt = (\<lambda>_. CNRT_RET_SUCCESS),
     k_bytes = (\<lambda>_. [7, 8, 9]), k_alloc = (\<lambda>b. if b 1 = None then 1 else if b 2 = None then 2 else 3)\<rparr>"

definition willing_codec :: "eenc_act list \<Rightarrow> cncodecRet" where
  "willing_codec t = CNCODEC_SUCCESS"

definition unfed_codec :: "eenc_act list \<Rightarrow> cncodecRet" where
  "unfed_codec t = (case t of EEnc_Feed _ _ # _ \<Rightarrow> CNCODEC_ERR 2 | _ \<Rightarrow> CNCODEC_SUCCESS)"

definition demo_enc :: "(eenc_act list \<Rightarrow> cncodecRet) \<Rightarrow> EncodeHandler" where
  "demo_enc c = (case EasyEncode_New (demo_enc_env c) (EncodeHandler0 demo_EncAttr demo_enc_vinfo demo_enc_jinfo demo_enc_format) of
     Ret _ t \<Rightarrow> t | _ \<Rightarrow> EncodeHandler0 demo_EncAttr demo_enc_vinfo demo_enc_jinfo demo_enc_format)"

lemma demo_enc_act: "eenc_create_act demo_EncAttr = Inr (EEnc_Create demo_enc_vinfo)"
  by (simp add: eenc_create_act_def demo_EncAttr_def GetFormatInfo_def kFrameFormatMap_def FORMAT_PAIR_def eenc_ucfg_for_def
      demo_enc_vinfo_def demo_enc_format_def)

lemma demo_enc_fresh:
  assumes "c [EEnc_Create demo_enc_vinfo] = CNCODEC_SUCCESS"
  shows "eenc_reach (demo_enc_env c) (demo_enc c) \<and> eenc_fresh demo_EncAttr [EEnc_Create demo_enc_vinfo] True (demo_enc c)"
proof -
  let ?E = "demo_enc_env c" and ?s = "EncodeHandler0 demo_EncAttr demo_enc_vinfo demo_enc_jinfo demo_enc_format"
  from new_EncodeHandler_outcome [of ?E demo_EncAttr demo_enc_vinfo demo_enc_jinfo demo_enc_format] assms obtain t where
    t: "new_EncodeHandler ?E ?s = Ret () t" "eenc_fresh demo_EncAttr [EEnc_Create demo_enc_vinfo] True t"
    by (auto simp: eenc_new_outcome_def demo_enc_act demo_enc_env_def)
  then have new: "EasyEncode_New ?E ?s = Ret True t" and s: "demo_enc c = t" by (simp_all add: EasyEncode_New_def demo_enc_def)
  show ?thesis using eenc_reach.start [OF new] t(2) by (simp add: s)
qed

lemma demo_enc_codecs [simp]:
  "willing_codec t = CNCODEC_SUCCESS" "unfed_codec [EEnc_Create v] = CNCODEC_SUCCESS" "k_codec (demo_enc_env c) = c"
  "k_cnrt (demo_enc_env c) t = CNRT_RET_SUCCESS" "k_alloc (demo_enc_env c) (\<lambda>_. None) = 1" "k_bytes (demo_enc_env c) t = [7, 8, 9]"
  by (simp_all add: willing_codec_def unfed_codec_def demo_enc_env_def)

lemmas demo_willing = demo_enc_fresh [where c = willing_codec, OF demo_enc_codecs(1), THEN conjunct1]
  demo_enc_fresh [where c = willing_codec, OF demo_enc_codecs(1), THEN conjunct2]
lemmas demo_unfed = demo_enc_fresh [where c = unfed_codec, OF demo_enc_codecs(2), THEN conjunct1]
  demo_enc_fresh [where c = unfed_codec, OF demo_enc_codecs(2), THEN conjunct2]

theorem eenc_lifecycle_witness: "eenc_live willing_codec (e_trace (demo_enc willing_codec)) = 1 \<and> joinable (e_loop (demo_enc willing_codec))"
  using eenc_lifecycle [OF demo_willing(1)] demo_willing(2) by (simp add: eenc_fresh_def)

theorem eenc_destructor_witness: "eenc_destroy (demo_enc_env unfed_codec) [CB_EOS] (demo_enc unfed_codec) = Terminate"
  using eenc_destructor [OF demo_unfed(1), of "[CB_EOS]"] demo_unfed(2)
  by (simp add: eenc_fresh_def eenc_eos_refused_def eenc_closing_trace_def unfed_codec_def Let_def)

lemma demo_enc_eos:
  "\<exists>t. SendDataCPU (demo_enc_env willing_codec) CnFrame0 True (demo_enc willing_codec) = Ret True t \<and> e_send_eos t \<and>
     eenc_reach (demo_enc_env willing_codec) t"
proof -
  obtain t where t: "SendDataCPU (demo_enc_env willing_codec) CnFrame0 True (demo_enc willing_codec) = Ret True t" "e_send_eos t"
    using demo_willing(2)
    by (auto simp: SendDataCPU_def eenc_SendJpegData_def eenc_SendVideoData_def eenc_SendData_def eenc_CopyFrame_def CnFrame0_def
        eenc_ret_def eenc_fresh_def Let_def)
  show ?thesis using t eenc_reach.step [OF demo_willing(1) eenc_step.send [OF t(1)]] by blast
qed

theorem eenc_eos_is_last_witness:
  "\<exists>t. SendDataCPU (demo_enc_env willing_codec) CnFrame0 True (demo_enc willing_codec) = Ret True t \<and>
     SendDataCPU (demo_enc_env willing_codec) CnFrame0 False t = Ret False t"
proof -
  from demo_enc_eos obtain t where
    t: "SendDataCPU (demo_enc_env willing_codec) CnFrame0 True (demo_enc willing_codec) = Ret True t" "e_send_eos t"
      "eenc_reach (demo_enc_env willing_codec) t" by blast
  then show ?thesis using eenc_eos_is_last [OF t(3), of CnFrame0 False] by blast
qed

definition demo_out :: eenc_output where
  "demo_out = \<lparr>eo_addr = 4096, eo_dataOffset = 16, eo_streamLength = 3, eo_pts = 0x100000007, eo_result = 0\<rparr>"

theorem eenc_packet_roundtrip_witness:
  "\<exists>p. eenc_delivered (e_trace (eenc_EventHandler (demo_enc_env willing_codec) (EEnc_Packet demo_out) (demo_enc willing_codec))) = [p] \<and>
     pk_slice_type p = SPS_PPS \<and> pk_pts p = 0x100000007 \<and> pk_data p = Some [7, 8, 9]"
proof -
  let ?s = "demo_enc willing_codec" and ?E = "demo_enc_env willing_codec"
  have s: "e_bufs ?s = (\<lambda>_. None)" "eenc_delivered (e_trace ?s) = []" "\<not> e_jpeg_encode ?s" "ea_packet_callback (e_attr ?s)"
    using demo_willing(2) by (simp_all add: eenc_fresh_def demo_EncAttr_def)
  from eenc_packet_roundtrip [where E = ?E and s = ?s and out = demo_out, OF demo_willing(1)] s
  obtain p where "eenc_delivered (e_trace (eenc_EventHandler ?E (EEnc_Packet demo_out) ?s)) = [p]" "pk_slice_type p = SPS_PPS"
    "pk_pts p = eo_pts demo_out" "pk_data p = Some [7, 8, 9]" by auto
  then show ?thesis by (intro exI [of _ p]) (simp add: demo_out_def)
qed

end
