(* ===== verification/Float_Arith.thy ===== *)
theory Float_Arith
  imports Complex_Main Prelude
begin

text \<open>
  The floating point arithmetic of the tracking code is an argument of its model: a record of the
  operations the code uses. What holds whatever they compute (rounding, infinities, NaN) is stated
  for all records; what needs sums and comparisons to be exact is proved in the locale
  \<open>exact_arith\<close>, whose laws relate the operations to a field through the value \<open>val\<close> of the finite
  numbers. \<open>rat_arith\<close>, rational numbers with an infinity, satisfies them.
\<close>

record 'f arith =
  f_const :: "rat \<Rightarrow> 'f"
  f_add :: "'f \<Rightarrow> 'f \<Rightarrow> 'f"
  f_sub :: "'f \<Rightarrow> 'f \<Rightarrow> 'f"
  f_mul :: "'f \<Rightarrow> 'f \<Rightarrow> 'f"
  f_div :: "'f \<Rightarrow> 'f \<Rightarrow> 'f"
  f_sqrt :: "'f \<Rightarrow> 'f"
  f_less :: "'f \<Rightarrow> 'f \<Rightarrow> bool"
  f_eq :: "'f \<Rightarrow> 'f \<Rightarrow> bool"
  f_tiny :: "'f \<Rightarrow> bool"
  f_dbl_max :: 'f

text \<open>\<open>f_less\<close> and \<open>f_eq\<close> are \<open><\<close> and \<open>==\<close>, \<open>f_tiny x\<close> is \<open>fabs(x) < DBL_EPSILON\<close>, \<open>f_dbl_max\<close> is \<open>DBL_MAX\<close> stored in a float.\<close>

abbreviation f_zero :: "('f, 'b) arith_scheme \<Rightarrow> 'f" where
  "f_zero A \<equiv> f_const A 0"

locale exact_arith =
  fixes A :: "'f arith"
    and val :: "'f \<Rightarrow> rat"
    and fin :: "'f \<Rightarrow> bool"
    and eps :: rat
  assumes val_const: "fin (f_const A q)" "val (f_const A q) = q"
    and val_add: "fin x \<Longrightarrow> fin y \<Longrightarrow> fin (f_add A x y) \<and> val (f_add A x y) = val x + val y"
    and val_sub: "fin x \<Longrightarrow> fin y \<Longrightarrow> fin (f_sub A x y) \<and> val (f_sub A x y) = val x - val y"
    and val_less: "fin x \<Longrightarrow> fin y \<Longrightarrow> f_less A x y \<longleftrightarrow> val x < val y"
    and less_max: "fin x \<Longrightarrow> f_less A x (f_dbl_max A)"
    and val_tiny: "fin x \<Longrightarrow> f_tiny A x \<longleftrightarrow> \<bar>val x\<bar> < eps"
    and eps_pos: "0 < eps"

text \<open>Exact rational numbers; \<open>None\<close> stands for what is no finite number.\<close>

definition rat_op :: "(rat \<Rightarrow> rat \<Rightarrow> rat) \<Rightarrow> rat option \<Rightarrow> rat option \<Rightarrow> rat option" where
  "rat_op f x y = (case x of None \<Rightarrow> None | Some a \<Rightarrow> (case y of None \<Rightarrow> None | Some b \<Rightarrow> Some (f a b)))"

definition rat_arith :: "(rat option \<Rightarrow> rat option) \<Rightarrow> rat option arith" where
  "rat_arith sq =
     \<lparr>f_const = Some, f_add = rat_op (+), f_sub = rat_op (-), f_mul = rat_op (*), f_div = rat_op (/), f_sqrt = sq,
      f_less = (\<lambda>x y. case x of None \<Rightarrow> False | Some a \<Rightarrow> (case y of None \<Rightarrow> True | Some b \<Rightarrow> a < b)),
      f_eq = (=), f_tiny = (\<lambda>x. case x of None \<Rightarrow> False | Some a \<Rightarrow> \<bar>a\<bar> < 1 / 2 ^ 52), f_dbl_max = None\<rparr>"

definition rat_eps :: rat where
  "rat_eps = 1 / 2 ^ 52"

definition rat_val :: "rat option \<Rightarrow> rat" where
  "rat_val x = (case x of None \<Rightarrow> 0 | Some a \<Rightarrow> a)"

interpretation rat: exact_arith "rat_arith sq" rat_val "\<lambda>x. x \<noteq> None" rat_eps for sq
  by unfold_locales (auto simp: rat_arith_def rat_op_def rat_val_def rat_eps_def)

subsection \<open>Two precisions\<close>

text \<open>\<open>float\<close> and \<open>double\<close> with the conversions between them.\<close>

record ('f, 'd) fp =
  flt :: "'f arith"
  dbl :: "'d arith"
  widen :: "'f \<Rightarrow> 'd"
  narrow :: "'d \<Rightarrow> 'f"

definition f_le :: "'f arith \<Rightarrow> 'f \<Rightarrow> 'f \<Rightarrow> bool" where
  "f_le A x y \<longleftrightarrow> f_less A x y \<or> f_eq A x y"

text \<open>\<open>std::max\<close>, \<open>std::min\<close> and \<open>std::abs\<close> (up to the sign of a zero and of a NaN).\<close>

definition f_max :: "'f arith \<Rightarrow> 'f \<Rightarrow> 'f \<Rightarrow> 'f" where
  "f_max A x y = (if f_less A x y then y else x)"

definition f_min :: "'f arith \<Rightarrow> 'f \<Rightarrow> 'f \<Rightarrow> 'f" where
  "f_min A x y = (if f_less A y x then y else x)"

definition f_abs :: "'f arith \<Rightarrow> 'f \<Rightarrow> 'f" where
  "f_abs A x = (if f_less A x (f_zero A) then f_sub A (f_zero A) x else x)"

definition rat_fp :: "(rat option \<Rightarrow> rat option) \<Rightarrow> (rat option, rat option) fp" where
  "rat_fp sq = \<lparr>flt = rat_arith sq, dbl = rat_arith sq, widen = id, narrow = id\<rparr>"

end
