(* ===== verification/Hungarian.thy ===== *)
theory Hungarian
  imports Float_Arith Edk_Exception
begin

text \<open>
  The assignment solver of the trackers (easydk/src/easytrack/hungarian.cpp). Matrices are stored by
  columns, element (\<open>row\<close>, \<open>col\<close>) at \<open>row + nOfRows * col\<close>. The steps call each other in tail
  position, without end as long as the arithmetic lets them: they are a machine, \<open>hungarian_step\<close>
  executes one step (of \<open>step3\<close>, one pass of its \<open>while\<close> loop; of \<open>step4\<close>, one of its alternating
  path), and \<open>hungarian_run\<close> follows the steps.
\<close>

subsection \<open>State\<close>

record 'f hungarian =
  distMatrix :: "'f list"
  starMatrix :: "bool list"
  newStarMatrix :: "bool list"
  primeMatrix :: "bool list"
  coveredColumns :: "bool list"
  coveredRows :: "bool list"
  assignment :: "int list"

text \<open>\<open>Path starRow starCol\<close> is the loop of \<open>step4\<close>; \<open>Fault\<close> stands for a write outside of the matrix.\<close>

datatype step = Step2a | Step2b | Step3 | Step4 nat nat | Path nat nat | Step5 | Finished | Fault

text \<open>The first index below \<open>n\<close> that passes the test, \<open>n\<close> if there is none.\<close>

definition first_index :: "(nat \<Rightarrow> bool) \<Rightarrow> nat \<Rightarrow> nat" where
  "first_index P n = (case find P [0..<n] of None \<Rightarrow> n | Some i \<Rightarrow> i)"

definition elt :: "nat \<Rightarrow> 'a list \<Rightarrow> nat \<Rightarrow> nat \<Rightarrow> 'a" where
  "elt n xs row col = xs ! (row + n * col)"

definition put :: "nat \<Rightarrow> nat \<Rightarrow> nat \<Rightarrow> 'a \<Rightarrow> 'a list \<Rightarrow> 'a list" where
  "put n row col v xs = xs[row + n * col := v]"

subsection \<open>Preliminary steps\<close>

definition min_value :: "'f arith \<Rightarrow> 'f list \<Rightarrow> 'f" where
  "min_value A vs = fold (\<lambda>value minValue. if f_less A value minValue then value else minValue) (tl vs) (hd vs)"

definition reduce_row :: "'f arith \<Rightarrow> nat \<Rightarrow> nat \<Rightarrow> nat \<Rightarrow> 'f list \<Rightarrow> 'f list" where
  "reduce_row A n m row d =
     (let minValue = min_value A (map (elt n d row) [0..<m])
      in fold (\<lambda>col d. put n row col (f_sub A (elt n d row col) minValue) d) [0..<m] d)"

definition reduce_column :: "'f arith \<Rightarrow> nat \<Rightarrow> nat \<Rightarrow> 'f list \<Rightarrow> 'f list" where
  "reduce_column A n col d =
     (let minValue = min_value A (map (\<lambda>row. elt n d row col) [0..<n])
      in fold (\<lambda>row d. put n row col (f_sub A (elt n d row col) minValue) d) [0..<n] d)"

definition star_row :: "'f arith \<Rightarrow> nat \<Rightarrow> nat \<Rightarrow> nat \<Rightarrow> 'f hungarian \<Rightarrow> 'f hungarian" where
  "star_row A n m row s =
     (let col = first_index (\<lambda>col. f_tiny A (elt n (distMatrix s) row col) \<and> \<not> coveredColumns s ! col) m
      in if col < m
         then s\<lparr>starMatrix := put n row col True (starMatrix s), coveredColumns := (coveredColumns s)[col := True]\<rparr>
         else s)"

definition star_column :: "'f arith \<Rightarrow> nat \<Rightarrow> nat \<Rightarrow> 'f hungarian \<Rightarrow> 'f hungarian" where
  "star_column A n col s =
     (let row = first_index (\<lambda>row. f_tiny A (elt n (distMatrix s) row col) \<and> \<not> coveredRows s ! row) n
      in if row < n
         then s\<lparr>starMatrix := put n row col True (starMatrix s), coveredColumns := (coveredColumns s)[col := True],
                coveredRows := (coveredRows s)[row := True]\<rparr>
         else s)"

subsection \<open>The steps\<close>

definition buildassignmentvector :: "nat \<Rightarrow> nat \<Rightarrow> 'f hungarian \<Rightarrow> 'f hungarian" where
  "buildassignmentvector n m s =
     s\<lparr>assignment := fold (\<lambda>row asg. let col = first_index (elt n (starMatrix s) row) m
                                     in if col < m then asg[row := int col] else asg) [0..<n] (assignment s)\<rparr>"

definition cover_starred :: "nat \<Rightarrow> nat \<Rightarrow> 'f hungarian \<Rightarrow> 'f hungarian" where
  "cover_starred n m s =
     s\<lparr>coveredColumns := fold (\<lambda>col cov. if \<exists>row<n. elt n (starMatrix s) row col then cov[col := True] else cov)
                          [0..<m] (coveredColumns s)\<rparr>"

text \<open>
  One pass over the columns. The result tells the prime without a star in its row, if one was
  found, and whether a row was covered.
\<close>

fun step3_pass :: "'f arith \<Rightarrow> nat \<Rightarrow> nat \<Rightarrow> nat list \<Rightarrow> bool \<Rightarrow> 'f hungarian \<Rightarrow> (nat \<times> nat) option \<times> bool \<times> 'f hungarian" where
  "step3_pass A n m [] zerosFound s = (None, zerosFound, s)"
| "step3_pass A n m (col # cols) zerosFound s =
     (if coveredColumns s ! col then step3_pass A n m cols zerosFound s
      else let row = first_index (\<lambda>row. \<not> coveredRows s ! row \<and> f_tiny A (elt n (distMatrix s) row col)) n
           in if row = n then step3_pass A n m cols zerosFound s
              else let s = s\<lparr>primeMatrix := put n row col True (primeMatrix s)\<rparr>;
                       starCol = first_index (elt n (starMatrix s) row) m
                   in if starCol = m then (Some (row, col), zerosFound, s)
                      else step3_pass A n m cols True
                             (s\<lparr>coveredRows := (coveredRows s)[row := True], coveredColumns := (coveredColumns s)[starCol := False]\<rparr>))"

definition uncovered :: "nat \<Rightarrow> nat \<Rightarrow> 'f hungarian \<Rightarrow> (nat \<times> nat) list" where
  "uncovered n m s =
     concat (map (\<lambda>row. if coveredRows s ! row then []
                        else map (Pair row) (filter (\<lambda>col. \<not> coveredColumns s ! col) [0..<m])) [0..<n])"

definition smallest_uncovered :: "'f arith \<Rightarrow> nat \<Rightarrow> nat \<Rightarrow> 'f hungarian \<Rightarrow> 'f" where
  "smallest_uncovered A n m s =
     fold (\<lambda>(row, col) h. if f_less A (elt n (distMatrix s) row col) h then elt n (distMatrix s) row col else h)
       (uncovered n m s) (f_dbl_max A)"

definition add_to_rows :: "'f arith \<Rightarrow> nat \<Rightarrow> nat \<Rightarrow> 'f hungarian \<Rightarrow> 'f \<Rightarrow> 'f list \<Rightarrow> 'f list" where
  "add_to_rows A n m s h =
     fold (\<lambda>row d. if coveredRows s ! row then fold (\<lambda>col d. put n row col (f_add A (elt n d row col) h) d) [0..<m] d else d) [0..<n]"

definition subtract_from_columns :: "'f arith \<Rightarrow> nat \<Rightarrow> nat \<Rightarrow> 'f hungarian \<Rightarrow> 'f \<Rightarrow> 'f list \<Rightarrow> 'f list" where
  "subtract_from_columns A n m s h =
     fold (\<lambda>col d. if coveredColumns s ! col then d else fold (\<lambda>row d. put n row col (f_sub A (elt n d row col) h) d) [0..<n] d) [0..<m]"

definition step5 :: "'f arith \<Rightarrow> nat \<Rightarrow> nat \<Rightarrow> 'f hungarian \<Rightarrow> 'f hungarian" where
  "step5 A n m s =
     (let h = smallest_uncovered A n m s
      in s\<lparr>distMatrix := subtract_from_columns A n m s h (add_to_rows A n m s h (distMatrix s))\<rparr>)"

fun hungarian_step :: "'f arith \<Rightarrow> nat \<Rightarrow> nat \<Rightarrow> nat \<Rightarrow> step \<Rightarrow> 'f hungarian \<Rightarrow> step \<times> 'f hungarian" where
  "hungarian_step A n m minDim Step2a s = (Step2b, cover_starred n m s)"
| "hungarian_step A n m minDim Step2b s =
     (if length (filter (\<lambda>col. coveredColumns s ! col) [0..<m]) = minDim
      then (Finished, buildassignmentvector n m s) else (Step3, s))"
| "hungarian_step A n m minDim Step3 s =
     (case step3_pass A n m [0..<m] False s of
        (Some (row, col), _, t) \<Rightarrow> (Step4 row col, t)
      | (None, zerosFound, t) \<Rightarrow> (if zerosFound then Step3 else Step5, t))"
| "hungarian_step A n m minDim (Step4 row col) s =
     (Path (first_index (\<lambda>starRow. elt n (starMatrix s) starRow col) n) col,
      s\<lparr>newStarMatrix := put n row col True (starMatrix s)\<rparr>)"
| "hungarian_step A n m minDim (Path starRow starCol) s =
     (if starRow < n
      then let primeCol = first_index (elt n (primeMatrix s) starRow) m
           in if primeCol = m then (Fault, s)
              else (Path (first_index (\<lambda>row. elt n (starMatrix s) row primeCol) n) primeCol,
                    s\<lparr>newStarMatrix := put n starRow primeCol True (put n starRow starCol False (newStarMatrix s))\<rparr>)
      else (Step2a, s\<lparr>primeMatrix := replicate (length (primeMatrix s)) False, starMatrix := newStarMatrix s,
                      coveredRows := replicate (length (coveredRows s)) False\<rparr>))"
| "hungarian_step A n m minDim Step5 s = (Step3, step5 A n m s)"
| "hungarian_step A n m minDim Finished s = (Finished, s)"
| "hungarian_step A n m minDim Fault s = (Fault, s)"

partial_function (option) hungarian_run ::
    "'f arith \<Rightarrow> nat \<Rightarrow> nat \<Rightarrow> nat \<Rightarrow> step \<Rightarrow> 'f hungarian \<Rightarrow> (step \<times> 'f hungarian) option" where
  "hungarian_run A n m minDim c s =
     (if c = Finished \<or> c = Fault then Some (c, s)
      else hungarian_run A n m minDim (fst (hungarian_step A n m minDim c s)) (snd (hungarian_step A n m minDim c s)))"

subsection \<open>The solver\<close>

definition computeassignmentcost :: "'f arith \<Rightarrow> nat \<Rightarrow> int list \<Rightarrow> 'f list \<Rightarrow> 'f" where
  "computeassignmentcost A n asg d =
     fold (\<lambda>row cost. let col = asg ! row in if col \<ge> 0 then f_add A cost (elt n d row (nat col)) else cost) [0..<n] (f_zero A)"

definition hungarian_init :: "nat \<Rightarrow> nat \<Rightarrow> 'f list \<Rightarrow> 'f hungarian" where
  "hungarian_init n m d =
     \<lparr>distMatrix = d, starMatrix = replicate (n * m) False, newStarMatrix = replicate (n * m) False,
      primeMatrix = replicate (n * m) False, coveredColumns = replicate m False, coveredRows = replicate n False,
      assignment = replicate n (-1)\<rparr>"

definition hungarian_prepare :: "'f arith \<Rightarrow> nat \<Rightarrow> nat \<Rightarrow> 'f list \<Rightarrow> 'f hungarian" where
  "hungarian_prepare A n m d =
     (if n \<le> m
      then fold (star_row A n m) [0..<n] (hungarian_init n m (fold (reduce_row A n m) [0..<n] d))
      else (fold (star_column A n) [0..<m] (hungarian_init n m (fold (reduce_column A n) [0..<m] d)))
             \<lparr>coveredRows := replicate n False\<rparr>)"

text \<open>\<open>Blocked\<close> is a solver that does not return.\<close>

definition assignmentoptimal :: "'f arith \<Rightarrow> nat \<Rightarrow> nat \<Rightarrow> 'f list \<Rightarrow> (unit, 'f \<times> int list) run" where
  "assignmentoptimal A n m d =
     (case hungarian_run A n m (min n m) Step2b (hungarian_prepare A n m d) of
        None \<Rightarrow> Blocked ()
      | Some (c, s) \<Rightarrow> if c = Finished then Ret (computeassignmentcost A n (assignment s) d, assignment s) () else UB)"

text \<open>\<open>Solve\<close> gets the matrix by rows (\<open>M row col\<close>) and returns the cost and the assignment.\<close>

definition Solve :: "'f arith \<Rightarrow> nat \<Rightarrow> nat \<Rightarrow> (nat \<Rightarrow> nat \<Rightarrow> 'f) \<Rightarrow> (unit, 'f \<times> int list) run" where
  "Solve A nRows nCols M =
     assignmentoptimal A nRows nCols (concat (map (\<lambda>j. map (\<lambda>i. M i j) [0..<nRows]) [0..<nCols]))"

end
