(* ===== verification/Hungarian_Matching.thy ===== *)
theory Hungarian_Matching
  imports Hungarian
begin

text \<open>
  The combinatorial half of the assignment solver, which holds whatever the arithmetic computes: the
  starred elements are always a matching, the primed ones lead from row to row without a cycle, so
  the alternating path of step 4 ends and enlarges the matching by one.
\<close>

subsection \<open>Marked elements\<close>

lemma first_index_le [simp]: "first_index P n \<le> n"
  by (auto simp: first_index_def find_Some_iff less_imp_le split: option.split)

lemma first_index_full: "first_index P n = n \<longleftrightarrow> (\<forall>i<n. \<not> P i)"
  by (auto simp: first_index_def find_None_iff find_Some_iff split: option.split)

lemma first_index_less: "first_index P n < n \<Longrightarrow> P (first_index P n)"
proof (cases "find P [0..<n]")
  case (Some i)
  then have "P i" by (auto simp: find_Some_iff)
  with Some show ?thesis by (simp add: first_index_def)
qed (simp add: first_index_def)

lemma first_index_cases [case_names none found]:
  assumes "first_index P n = n \<Longrightarrow> \<forall>i<n. \<not> P i \<Longrightarrow> Q" and "first_index P n < n \<Longrightarrow> P (first_index P n) \<Longrightarrow> Q"
  shows Q
proof (cases "first_index P n = n")
  case True
  then show Q using assms(1) by (simp add: first_index_full)
next
  case False
  then have "first_index P n < n" using first_index_le [of P n] by linarith
  then show Q using assms(2) by (simp add: first_index_less)
qed

lemma elt_index:
  assumes "r < n" and "r' < n"
  shows "r + n * c = r' + n * c' \<longleftrightarrow> r = r' \<and> c = (c' :: nat)"
proof
  assume eq: "r + n * c = r' + n * c'"
  then have "(r + n * c) mod n = (r' + n * c') mod n" "(r + n * c) div n = (r' + n * c') div n" by simp_all
  then show "r = r' \<and> c = c'" using assms by simp
qed simp

lemma elt_bound: "r < n \<Longrightarrow> c < m \<Longrightarrow> r + n * c < n * (m :: nat)"
proof -
  assume "r < n" "c < m"
  then have "r + n * c < n * Suc c" by simp
  also have "\<dots> \<le> n * m" using \<open>c < m\<close> by (intro mult_le_mono2) simp
  finally show ?thesis .
qed

lemma elt_put:
  assumes "length xs = n * m" and "r < n" "c < m" "r' < n" "c' < m"
  shows "elt n (put n r c v xs) r' c' = (if r' = r \<and> c' = c then v else elt n xs r' c')"
  using assms elt_bound [of r n c m] elt_index [of r' n r c' c] by (auto simp: elt_def put_def nth_list_update)

lemma length_put [simp]: "length (put n r c v xs) = length xs"
  by (simp add: put_def)

definition marks :: "nat \<Rightarrow> nat \<Rightarrow> bool list \<Rightarrow> (nat \<times> nat) set" where
  "marks n m xs = {(r, c). r < n \<and> c < m \<and> elt n xs r c}"

lemma marks_put:
  assumes "length xs = n * m" and "r < n" "c < m"
  shows "marks n m (put n r c True xs) = insert (r, c) (marks n m xs)"
    and "marks n m (put n r c False xs) = marks n m xs - {(r, c)}"
  using assms by (auto simp: marks_def elt_put split: if_splits)

lemma marks_replicate [simp]: "marks n m (replicate (n * m) False) = {}"
  by (auto simp: marks_def elt_def elt_bound)

lemma marks_sub: "(r, c) \<in> marks n m xs \<Longrightarrow> r < n \<and> c < m"
  by (simp add: marks_def)

lemma finite_marks [simp]: "finite (marks n m xs)"
  by (rule finite_subset [of _ "{..<n} \<times> {..<m}"]) (auto simp: marks_def)

definition set_of :: "bool list \<Rightarrow> nat \<Rightarrow> nat set" where
  "set_of xs n = {i. i < n \<and> xs ! i}"

lemma set_of_upd: "length xs = n \<Longrightarrow> i < n \<Longrightarrow> set_of (xs[i := True]) n = insert i (set_of xs n)"
  "length xs = n \<Longrightarrow> i < n \<Longrightarrow> set_of (xs[i := False]) n = set_of xs n - {i}"
  by (auto simp: set_of_def nth_list_update split: if_splits)

lemma set_of_replicate [simp]: "set_of (replicate n False) n = {}"
  by (simp add: set_of_def)

lemma finite_set_of [simp]: "finite (set_of xs n)"
  by (simp add: set_of_def)

subsection \<open>Matchings\<close>

definition matching :: "(nat \<times> nat) set \<Rightarrow> bool" where
  "matching S \<longleftrightarrow> inj_on fst S \<and> inj_on snd S"

lemma matching_empty [simp]: "matching {}"
  by (simp add: matching_def)

lemma matching_subset: "matching S \<Longrightarrow> T \<subseteq> S \<Longrightarrow> matching T"
  by (auto simp: matching_def dest: inj_on_subset)

lemma matching_row: "matching S \<Longrightarrow> (r, c) \<in> S \<Longrightarrow> (r, d) \<in> S \<Longrightarrow> c = d"
  unfolding matching_def inj_on_def by fastforce

lemma matching_col: "matching S \<Longrightarrow> (r, c) \<in> S \<Longrightarrow> (q, c) \<in> S \<Longrightarrow> r = q"
  unfolding matching_def inj_on_def by fastforce

lemma matching_insert:
  assumes "matching S" and "r \<notin> fst ` S" and "c \<notin> snd ` S"
  shows "matching (insert (r, c) S)"
  using assms unfolding matching_def by (auto simp: inj_on_insert)

lemma matching_card: "matching S \<Longrightarrow> card (fst ` S) = card S \<and> card (snd ` S) = card S"
  by (simp add: matching_def card_image)

lemma notin_fst: "r \<notin> fst ` S \<longleftrightarrow> (\<forall>c. (r, c) \<notin> S)" and notin_snd: "c \<notin> snd ` S \<longleftrightarrow> (\<forall>r. (r, c) \<notin> S)"
  by force+

text \<open>A matching that covers the rows and columns of another one, and one more.\<close>

definition grown :: "(nat \<times> nat) set \<Rightarrow> (nat \<times> nat) set \<Rightarrow> bool" where
  "grown S N \<longleftrightarrow> matching N \<and> card N = Suc (card S) \<and> fst ` S \<subseteq> fst ` N \<and> snd ` S \<subseteq> snd ` N"

subsection \<open>The invariant of the covers\<close>

abbreviation stars :: "nat \<Rightarrow> nat \<Rightarrow> 'f hungarian \<Rightarrow> (nat \<times> nat) set" where
  "stars n m s \<equiv> marks n m (starMatrix s)"

abbreviation newstars :: "nat \<Rightarrow> nat \<Rightarrow> 'f hungarian \<Rightarrow> (nat \<times> nat) set" where
  "newstars n m s \<equiv> marks n m (newStarMatrix s)"

abbreviation primes :: "nat \<Rightarrow> nat \<Rightarrow> 'f hungarian \<Rightarrow> (nat \<times> nat) set" where
  "primes n m s \<equiv> marks n m (primeMatrix s)"

abbreviation crows :: "nat \<Rightarrow> 'f hungarian \<Rightarrow> nat set" where
  "crows n s \<equiv> set_of (coveredRows s) n"

abbreviation ccols :: "nat \<Rightarrow> 'f hungarian \<Rightarrow> nat set" where
  "ccols m s \<equiv> set_of (coveredColumns s) m"

definition lens :: "nat \<Rightarrow> nat \<Rightarrow> 'f hungarian \<Rightarrow> bool" where
  "lens n m s \<longleftrightarrow> length (distMatrix s) = n * m \<and> length (starMatrix s) = n * m \<and> length (newStarMatrix s) = n * m \<and>
     length (primeMatrix s) = n * m \<and> length (coveredColumns s) = m \<and> length (coveredRows s) = n \<and> length (assignment s) = n"

lemma lensD:
  assumes "lens n m s"
  shows "length (distMatrix s) = n * m" "length (starMatrix s) = n * m" "length (newStarMatrix s) = n * m"
    "length (primeMatrix s) = n * m" "length (coveredColumns s) = m" "length (coveredRows s) = n" "length (assignment s) = n"
  using assms by (simp_all add: lens_def)

text \<open>
  A primed element of a covered row lies in a column whose star, if it has one, is in a row that
  was covered before: \<open>rank\<close> counts the rows in the order in which they were covered.
\<close>

definition ranked :: "nat \<Rightarrow> nat \<Rightarrow> 'f hungarian \<Rightarrow> (nat \<Rightarrow> nat) \<Rightarrow> bool" where
  "ranked n m s rank \<longleftrightarrow>
     (\<forall>r c y. (r, c) \<in> primes n m s \<longrightarrow> r \<in> crows n s \<longrightarrow> (y, c) \<in> stars n m s \<longrightarrow> y \<in> crows n s \<and> rank y < rank r)"

definition covering :: "nat \<Rightarrow> nat \<Rightarrow> 'f hungarian \<Rightarrow> bool" where
  "covering n m s \<longleftrightarrow> lens n m s \<and> matching (stars n m s) \<and>
     ccols m s = snd ` {p \<in> stars n m s. fst p \<notin> crows n s} \<and> crows n s \<subseteq> fst ` stars n m s \<and>
     (\<forall>r\<in>crows n s. \<exists>c. (r, c) \<in> primes n m s) \<and> (\<exists>rank. ranked n m s rank)"

lemma covering_lens: "covering n m s \<Longrightarrow> lens n m s" and covering_matching: "covering n m s \<Longrightarrow> matching (stars n m s)"
  by (simp_all add: covering_def)

lemma covering_ccols: "covering n m s \<Longrightarrow> ccols m s = snd ` {p \<in> stars n m s. fst p \<notin> crows n s}"
  by (simp add: covering_def)

text \<open>The star of an uncovered column is in a covered row.\<close>

lemma covering_uncovered_star: "covering n m s \<Longrightarrow> (y, c) \<in> stars n m s \<Longrightarrow> c \<notin> ccols m s \<Longrightarrow> y \<in> crows n s"
  by (force simp: covering_ccols)

lemma covering_cols_le: "covering n m s \<Longrightarrow> ccols m s \<subseteq> snd ` stars n m s"
  by (auto simp: covering_ccols)

lemma covering_primed: "covering n m s \<Longrightarrow> r \<in> crows n s \<Longrightarrow> \<exists>c. (r, c) \<in> primes n m s"
  by (simp add: covering_def)

lemma coveringI:
  assumes "lens n m s" and "matching (stars n m s)" and "ccols m s = snd ` {p \<in> stars n m s. fst p \<notin> crows n s}"
    and "crows n s \<subseteq> fst ` stars n m s" and "\<And>r. r \<in> crows n s \<Longrightarrow> \<exists>c. (r, c) \<in> primes n m s" and "ranked n m s rank"
  shows "covering n m s"
  using assms by (auto simp: covering_def)

subsection \<open>Step 3\<close>

text \<open>Priming an element of an uncovered row changes nothing for the covered rows.\<close>

lemma covering_prime:
  assumes "covering n m s" and "r < n" "c < m" and "r \<notin> crows n s"
  shows "covering n m (s\<lparr>primeMatrix := put n r c True (primeMatrix s)\<rparr>)"
proof -
  have lens: "lens n m s" using assms(1) by (rule covering_lens)
  have P: "primes n m (s\<lparr>primeMatrix := put n r c True (primeMatrix s)\<rparr>) = insert (r, c) (primes n m s)"
    using marks_put(1) [of "primeMatrix s" n m r c] lensD [OF lens] assms by simp
  obtain rank where rank: "ranked n m s rank" using assms(1) by (auto simp: covering_def)
  let ?t = "s\<lparr>primeMatrix := put n r c True (primeMatrix s)\<rparr>"
  show ?thesis
  proof (rule coveringI)
    show "lens n m ?t" using lens by (simp add: lens_def)
    show "ranked n m ?t rank" using rank assms(4) unfolding ranked_def P by auto
    show "\<exists>d. (x, d) \<in> primes n m ?t" if "x \<in> crows n ?t" for x
      using that covering_primed [OF assms(1), of x] unfolding P by auto
  qed (use assms(1) in \<open>simp_all add: covering_def\<close>)
qed

text \<open>Covering a row whose column of the prime was not covered.\<close>

lemma covering_cover:
  assumes "covering n m s" and "(r, c) \<in> primes n m s" and "r \<notin> crows n s" and "c \<notin> ccols m s"
    and "(r, d) \<in> stars n m s" and "fst ` primes n m s \<subseteq> insert r (crows n s)" and "\<forall>c'. (r, c') \<in> primes n m s \<longrightarrow> c' = c"
  shows "covering n m (s\<lparr>coveredRows := (coveredRows s)[r := True], coveredColumns := (coveredColumns s)[d := False]\<rparr>)"
    (is "covering n m ?t")
proof -
  have lens: "lens n m s" and M: "matching (stars n m s)" using assms(1) by (simp_all add: covering_def)
  have rn: "r < n" "d < m" using marks_sub [OF assms(5)] by auto
  have R: "crows n ?t = insert r (crows n s)" and C: "ccols m ?t = ccols m s - {d}"
    using rn lensD [OF lens] by (simp_all add: set_of_upd)
  obtain rank where rank: "ranked n m s rank" using assms(1) by (auto simp: covering_def)
  define rank' where "rank' = rank(r := Suc (\<Sum>y\<in>crows n s. rank y))"
  have below: "rank y < rank' r" if "y \<in> crows n s" for y
    using member_le_sum [of y "crows n s" rank] that by (simp add: rank'_def)
  have "ranked n m ?t rank'"
    unfolding ranked_def
  proof (intro allI impI)
    fix r' c' y assume p: "(r', c') \<in> primes n m ?t" and r': "r' \<in> crows n ?t" and y: "(y, c') \<in> stars n m ?t"
    show "y \<in> crows n ?t \<and> rank' y < rank' r'"
    proof (cases "r' = r")
      case True
      with p assms(7) have "c' = c" by simp
      with y covering_uncovered_star [OF assms(1)] assms(4) have "y \<in> crows n s" by simp
      with below assms(3) True show ?thesis unfolding R by (auto simp: rank'_def)
    next
      case False
      with p r' y rank have "y \<in> crows n s \<and> rank y < rank r'" unfolding R ranked_def by simp
      with assms(3) False show ?thesis unfolding R by (auto simp: rank'_def)
    qed
  qed
  moreover have "ccols m ?t = snd ` {p \<in> stars n m ?t. fst p \<notin> crows n ?t}"
  proof -
    have "snd ` {p \<in> stars n m s. fst p \<notin> insert r (crows n s)} = snd ` {p \<in> stars n m s. fst p \<notin> crows n s} - {d}"
      using M assms(5) by (force dest: matching_row matching_col)
    then show ?thesis unfolding R C covering_ccols [OF assms(1)] by simp
  qed
  moreover have "crows n ?t \<subseteq> fst ` stars n m ?t"
  proof -
    have "r \<in> fst ` stars n m s" using assms(5) by (intro image_eqI [of _ fst "(r, d)"]) simp_all
    moreover have "crows n s \<subseteq> fst ` stars n m s" using assms(1) by (simp add: covering_def)
    ultimately show ?thesis unfolding R by simp
  qed
  moreover have "\<exists>c. (x, c) \<in> primes n m ?t" if "x \<in> crows n ?t" for x
    using that covering_primed [OF assms(1), of x] assms(2) unfolding R by auto
  ultimately show ?thesis using lens M by (intro coveringI) (simp_all add: lens_def)
qed

definition cov3 :: "nat \<Rightarrow> nat \<Rightarrow> 'f hungarian \<Rightarrow> bool" where
  "cov3 n m s \<longleftrightarrow> covering n m s \<and> fst ` primes n m s \<subseteq> crows n s"

lemma cov3_prime_cover:
  assumes "cov3 n m s" and "r < n" "c < m" and "r \<notin> crows n s" "c \<notin> ccols m s" and "(r, d) \<in> stars n m s"
  shows "cov3 n m (s\<lparr>primeMatrix := put n r c True (primeMatrix s), coveredRows := (coveredRows s)[r := True],
    coveredColumns := (coveredColumns s)[d := False]\<rparr>)"
proof -
  let ?s = "s\<lparr>primeMatrix := put n r c True (primeMatrix s)\<rparr>"
  have cov: "covering n m s" and lens: "lens n m s" using assms(1) by (auto simp: cov3_def covering_def)
  have P: "primes n m ?s = insert (r, c) (primes n m s)"
    using marks_put(1) [of "primeMatrix s" n m r c] lensD [OF lens] assms by simp
  have one: "\<forall>c'. (r, c') \<in> primes n m ?s \<longrightarrow> c' = c"
    using assms(1,4) unfolding P cov3_def by force
  have sub: "fst ` primes n m ?s \<subseteq> insert r (crows n ?s)"
    using assms(1) unfolding P cov3_def by auto
  have "covering n m (?s\<lparr>coveredRows := (coveredRows ?s)[r := True], coveredColumns := (coveredColumns ?s)[d := False]\<rparr>)"
    by (rule covering_cover [OF covering_prime [OF cov assms(2-4)], of r c d]) (use assms sub one P in auto)
  moreover have "fst ` primes n m ?s \<subseteq> crows n (?s\<lparr>coveredRows := (coveredRows ?s)[r := True]\<rparr>)"
    using sub assms(2) lensD [OF lens] by (simp add: set_of_upd)
  ultimately show ?thesis by (simp add: cov3_def)
qed

text \<open>What a pass of step 3 keeps: only elements that are nearly zero are primed.\<close>

definition kept :: "'f arith \<Rightarrow> nat \<Rightarrow> nat \<Rightarrow> 'f hungarian \<Rightarrow> 'f hungarian \<Rightarrow> bool" where
  "kept A n m s t \<longleftrightarrow> distMatrix t = distMatrix s \<and> starMatrix t = starMatrix s \<and> newStarMatrix t = newStarMatrix s \<and>
     assignment t = assignment s \<and> (\<forall>r c. (r, c) \<in> primes n m t - primes n m s \<longrightarrow> f_tiny A (elt n (distMatrix s) r c))"

lemma kept_refl [simp]: "kept A n m s s"
  by (simp add: kept_def)

lemma kept_trans: "kept A n m s t \<Longrightarrow> kept A n m t u \<Longrightarrow> kept A n m s u"
  unfolding kept_def by auto

text \<open>A prime whose row has no star ends step 3.\<close>

definition free_prime :: "nat \<Rightarrow> nat \<Rightarrow> nat \<Rightarrow> nat \<Rightarrow> 'f hungarian \<Rightarrow> bool" where
  "free_prime n m r c t \<longleftrightarrow> covering n m t \<and> r < n \<and> c < m \<and> r \<notin> crows n t \<and> c \<notin> ccols m t \<and> r \<notin> fst ` stars n m t \<and>
     (r, c) \<in> primes n m t"

lemma step3_pass_cases:
  assumes "cov3 n m s" and "col < m"
  obtains (skip) "step3_pass A n m (col # cols) z s = step3_pass A n m cols z s"
      "col \<in> ccols m s \<or> (\<forall>r<n. r \<notin> crows n s \<longrightarrow> \<not> f_tiny A (elt n (distMatrix s) r col))"
    | (prime) r t where "step3_pass A n m (col # cols) z s = (Some (r, col), z, t)" "free_prime n m r col t" "kept A n m s t"
    | (cover) t where "step3_pass A n m (col # cols) z s = step3_pass A n m cols True t" "cov3 n m t" "kept A n m s t"
      "crows n s \<subset> crows n t"
proof (cases "coveredColumns s ! col")
  case True
  then show thesis using that(1) assms(2) by (simp add: set_of_def)
next
  case col: False
  have lens: "lens n m s" and cov: "covering n m s" using assms(1) by (auto simp: cov3_def covering_def)
  define row where "row = first_index (\<lambda>row. \<not> coveredRows s ! row \<and> f_tiny A (elt n (distMatrix s) row col)) n"
  show thesis
  proof (cases "row = n")
    case True
    then have "\<forall>r<n. r \<notin> crows n s \<longrightarrow> \<not> f_tiny A (elt n (distMatrix s) r col)"
      unfolding row_def first_index_full by (auto simp: set_of_def)
    then show thesis using that(1) col True unfolding row_def by simp
  next
    case False
    then have "row < n" using first_index_le [of _ n] unfolding row_def by (simp add: le_neq_implies_less)
    then have row: "row < n" "row \<notin> crows n s" and tiny: "f_tiny A (elt n (distMatrix s) row col)"
      using first_index_less unfolding row_def by (force simp: set_of_def)+
    have c: "col \<notin> ccols m s" using col by (simp add: set_of_def)
    define s' where "s' = s\<lparr>primeMatrix := put n row col True (primeMatrix s)\<rparr>"
    have P: "primes n m s' = insert (row, col) (primes n m s)"
      using marks_put(1) [of "primeMatrix s" n m row col] lensD [OF lens] row assms(2) by (simp add: s'_def)
    have kept: "kept A n m s s'" unfolding kept_def P using tiny by (auto simp: s'_def)
    define d where "d = first_index (elt n (starMatrix s) row) m"
    show thesis
    proof (cases "d = m")
      case True
      then have "row \<notin> fst ` stars n m s" unfolding d_def first_index_full notin_fst by (simp add: marks_def)
      then have "free_prime n m row col s'"
        using covering_prime [OF cov row(1) assms(2) row(2)] row c assms(2) P unfolding free_prime_def by (simp add: s'_def)
      then show thesis using that(2) [OF _ _ kept] col False True unfolding row_def d_def s'_def by (simp add: Let_def)
    next
      case starred: False
      then have "d < m" using first_index_le [of _ m] unfolding d_def by (simp add: le_neq_implies_less)
      then have "(row, d) \<in> stars n m s" using first_index_less [of "elt n (starMatrix s) row" m] row unfolding d_def marks_def by simp
      from cov3_prime_cover [OF assms(1) row(1) assms(2) row(2) c this]
      have "cov3 n m (s'\<lparr>coveredRows := (coveredRows s')[row := True], coveredColumns := (coveredColumns s')[d := False]\<rparr>)"
        (is "cov3 n m ?t") by (simp add: s'_def)
      moreover have "kept A n m s ?t" using kept by (simp add: kept_def)
      moreover have "crows n s \<subset> crows n ?t" using row lensD [OF lens] by (auto simp: s'_def set_of_upd)
      moreover have "step3_pass A n m (col # cols) z s = step3_pass A n m cols True ?t"
        using col False starred unfolding row_def d_def s'_def by (simp add: Let_def)
      ultimately show thesis using that(3) by blast
    qed
  qed
qed

lemma step3_pass_Some:
  assumes "step3_pass A n m cols z s = (Some (r, c), z', t)" and "cov3 n m s" and "set cols \<subseteq> {..<m}"
  shows "free_prime n m r c t \<and> kept A n m s t"
  using assms
proof (induction cols arbitrary: z s)
  case (Cons col cols)
  from Cons.prems(3) have "col < m" by simp
  from Cons.prems(2) this show ?case
  proof (cases rule: step3_pass_cases [where A = A and cols = cols and z = z])
    case skip
    then show ?thesis using Cons.IH [of z s] Cons.prems by simp
  next
    case (prime r' t')
    then show ?thesis using Cons.prems(1) by simp
  next
    case (cover t')
    then show ?thesis using Cons.IH [of True t'] Cons.prems kept_trans [of A n m s t' t] by simp
  qed
qed simp

lemma step3_pass_None:
  assumes "step3_pass A n m cols z s = (None, z', t)" and "cov3 n m s" and "set cols \<subseteq> {..<m}"
  shows "cov3 n m t \<and> kept A n m s t \<and> crows n s \<subseteq> crows n t \<and> (z \<longrightarrow> z') \<and> (z' \<longrightarrow> z \<or> crows n s \<subset> crows n t) \<and>
    (\<not> z' \<longrightarrow> t = s \<and> (\<forall>c\<in>set cols. c \<in> ccols m s \<or> (\<forall>r<n. r \<notin> crows n s \<longrightarrow> \<not> f_tiny A (elt n (distMatrix s) r c))))"
  using assms
proof (induction cols arbitrary: z s)
  case (Cons col cols)
  from Cons.prems(3) have "col < m" by simp
  from Cons.prems(2) this show ?case
  proof (cases rule: step3_pass_cases [where A = A and cols = cols and z = z])
    case skip
    have "set cols \<subseteq> {..<m}" using Cons.prems(3) by simp
    from Cons.IH [OF _ Cons.prems(2) this, of z] skip Cons.prems(1) show ?thesis by auto
  next
    case (prime r' t')
    then show ?thesis using Cons.prems(1) by simp
  next
    case (cover t')
    have "set cols \<subseteq> {..<m}" using Cons.prems(3) by simp
    from Cons.IH [OF _ cover(2) this, of True] cover Cons.prems(1) show ?thesis
      using kept_trans [of A n m s t' t] by auto
  qed
qed simp

subsection \<open>Step 4\<close>

text \<open>
  On the alternating path, row \<open>y\<close> is about to lose its star in column \<open>c\<close>: without it the new
  stars are a matching of the old size. \<open>N\<close> differs from the old stars \<open>S\<close> only in rows that were
  covered later than \<open>y\<close>.
\<close>

definition on_path :: "(nat \<Rightarrow> nat) \<Rightarrow> (nat \<times> nat) set \<Rightarrow> (nat \<times> nat) set \<Rightarrow> nat \<Rightarrow> nat \<Rightarrow> bool" where
  "on_path rank S N y c \<longleftrightarrow> (y, c) \<in> S \<and> (y, c) \<in> N \<and> matching (N - {(y, c)}) \<and> card (N - {(y, c)}) = card S \<and>
     y \<notin> fst ` (N - {(y, c)}) \<and> fst ` S \<subseteq> insert y (fst ` (N - {(y, c)})) \<and> snd ` S \<subseteq> snd ` (N - {(y, c)}) \<and>
     (\<forall>x d. (x, d) \<in> N - S \<longrightarrow> (\<exists>q. (q, d) \<in> S \<and> rank y \<le> rank q)) \<and>
     (\<forall>q d. (q, d) \<in> S - N \<longrightarrow> rank y < rank q)"

lemma card_exchange:
  assumes "finite S" and "p \<in> S" and "q \<notin> S - {p}"
  shows "card (insert q (S - {p})) = card S"
proof -
  have "card (insert q (S - {p})) = Suc (card (S - {p}))" using assms(1,3) by (intro card_insert_disjoint) auto
  also have "\<dots> = card S" using card.remove [OF assms(1,2)] by simp
  finally show ?thesis .
qed

text \<open>The first star of the path.\<close>

lemma on_path_start:
  assumes "matching S" and "finite S" and "r \<notin> fst ` S" and "(y, c) \<in> S"
  shows "on_path rank S (insert (r, c) S) y c"
proof -
  have "(r, c) \<noteq> (y, c)" using assms(3,4) by force
  then have eq: "insert (r, c) S - {(y, c)} = insert (r, c) (S - {(y, c)})" by auto
  have col: "c \<notin> snd ` (S - {(y, c)})" using assms(1,4) by (auto dest: matching_col)
  have row: "r \<notin> fst ` (S - {(y, c)})" using assms(3) by auto
  have "matching (insert (r, c) (S - {(y, c)}))"
    using matching_insert [OF matching_subset [OF assms(1)] row col] by auto
  moreover have "card (insert (r, c) (S - {(y, c)})) = card S"
    by (rule card_exchange [OF assms(2,4)]) (use row in \<open>force\<close>)
  moreover have "y \<noteq> r" using assms(3,4) by force
  then have "y \<notin> fst ` insert (r, c) (S - {(y, c)})" using assms(1,4) by (auto dest: matching_row)
  moreover have "fst ` S \<subseteq> insert y (fst ` insert (r, c) (S - {(y, c)}))" "snd ` S \<subseteq> snd ` insert (r, c) (S - {(y, c)})"
    by force+
  ultimately show ?thesis using assms(4) unfolding on_path_def eq by auto
qed

lemma grown_insert:
  assumes "matching S" and "finite S" and "r \<notin> fst ` S" and "c \<notin> snd ` S"
  shows "grown S (insert (r, c) S)"
  unfolding grown_def
proof (intro conjI)
  show "matching (insert (r, c) S)" by (rule matching_insert [OF assms(1,3,4)])
  show "card (insert (r, c) S) = Suc (card S)" using assms by (intro card_insert_disjoint) (auto simp: notin_fst)
qed auto

text \<open>The prime of row \<open>y\<close> is in a column that no other new star has.\<close>

lemma on_path_column:
  assumes "on_path rank S N y c" and "\<forall>q. (q, d) \<in> S \<longrightarrow> rank q < rank y" and "(x, d) \<in> N - {(y, c)}"
  shows "(x, d) \<in> S"
proof (rule ccontr)
  assume "(x, d) \<notin> S"
  then obtain q where "(q, d) \<in> S" "rank y \<le> rank q" using assms(1,3) unfolding on_path_def by blast
  then show False using assms(2) by auto
qed

lemma on_path_end:
  assumes "on_path rank S N y c" and "finite N" and "\<forall>q. (q, d) \<notin> S"
  shows "grown S (insert (y, d) (N - {(y, c)}))"
proof -
  let ?M = "N - {(y, c)}"
  have M: "matching ?M" "card ?M = card S" "y \<notin> fst ` ?M" "fst ` S \<subseteq> insert y (fst ` ?M)" "snd ` S \<subseteq> snd ` ?M"
    using assms(1) by (simp_all add: on_path_def)
  have "d \<notin> snd ` ?M" using on_path_column [OF assms(1), of d] assms(3) unfolding notin_snd by blast
  then have "matching (insert (y, d) ?M)" by (rule matching_insert [OF M(1,3)])
  moreover have "(y, d) \<notin> ?M" using M(3) by force
  ultimately show ?thesis using M assms(2) unfolding grown_def by auto
qed

lemma on_path_step:
  assumes "on_path rank S N y c" and "matching S" and "finite N" and "(q, d) \<in> S" and "rank q < rank y"
  shows "on_path rank S (insert (y, d) (N - {(y, c)})) q d"
proof -
  let ?M = "N - {(y, c)}" and ?N = "insert (y, d) (N - {(y, c)})"
  have M: "matching ?M" "card ?M = card S" "y \<notin> fst ` ?M" "fst ` S \<subseteq> insert y (fst ` ?M)" "snd ` S \<subseteq> snd ` ?M"
    and new: "\<forall>x d. (x, d) \<in> N - S \<longrightarrow> (\<exists>q. (q, d) \<in> S \<and> rank y \<le> rank q)" and old: "\<forall>q d. (q, d) \<in> S - N \<longrightarrow> rank y < rank q"
    and yc: "(y, c) \<in> S"
    using assms(1) by (simp_all add: on_path_def)
  have qy: "q \<noteq> y" using assms(5) by auto
  have "(q, d) \<in> N" using old assms(4,5) by force
  then have qM: "(q, d) \<in> ?M" using qy by simp
  have only: "x = q" if "(x, d) \<in> ?M" for x
    using M(1) matching_col qM that by blast
  have eq: "?N - {(q, d)} = insert (y, d) (?M - {(q, d)})" using qy by auto
  have col: "d \<notin> snd ` (?M - {(q, d)})" using only by (auto simp: notin_snd)
  have row: "y \<notin> fst ` (?M - {(q, d)})" using M(3) by auto
  have "matching (?N - {(q, d)})"
    unfolding eq by (rule matching_insert [OF matching_subset [OF M(1)] row col]) auto
  moreover have "card (?N - {(q, d)}) = card S"
  proof -
    have "(y, d) \<notin> ?M - {(q, d)}" using row unfolding notin_fst by blast
    then show ?thesis using card_exchange [of ?M "(q, d)" "(y, d)"] assms(3) qM M(2) unfolding eq by simp
  qed
  moreover have "q \<notin> fst ` (?N - {(q, d)})"
    unfolding eq using qy matching_row [OF M(1) qM] by (auto simp: notin_fst)
  moreover
  have ins: "?M = insert (q, d) (?M - {(q, d)})" using qM by blast
  have "fst ` ?M = insert q (fst ` (?M - {(q, d)}))" "snd ` ?M = insert d (snd ` (?M - {(q, d)}))"
    using arg_cong [OF ins, of "image fst"] arg_cong [OF ins, of "image snd"] by (simp_all only: image_insert fst_conv snd_conv)
  then have "fst ` S \<subseteq> insert q (fst ` (?N - {(q, d)}))" "snd ` S \<subseteq> snd ` (?N - {(q, d)})" using M(4,5) unfolding eq by auto
  moreover have "\<exists>p. (p, e) \<in> S \<and> rank q \<le> rank p" if "(x, e) \<in> ?N - S" for x e
  proof (cases "(x, e) = (y, d)")
    case True
    then show ?thesis using assms(4) by auto
  next
    case False
    then have "(x, e) \<in> N - S" using that by auto
    then obtain p where "(p, e) \<in> S" "rank y \<le> rank p" using new by blast
    then show ?thesis using assms(5) by (intro exI [of _ p]) auto
  qed
  moreover have "rank q < rank p" if "(p, e) \<in> S - ?N" for p e
  proof (cases "(p, e) = (y, c)")
    case True
    then show ?thesis using assms(5) by simp
  next
    case False
    then have "(p, e) \<in> S - N" using that by auto
    then have "rank y < rank p" using old by blast
    then show ?thesis using assms(5) by simp
  qed
  ultimately show ?thesis using assms(4) qM unfolding on_path_def by blast
qed

subsection \<open>The invariant of the steps\<close>

lemma fold_update_length [simp]: "length (fold (\<lambda>i xs. if P i then xs[i := f i] else xs) js xs) = length xs"
  by (induction js arbitrary: xs) simp_all

lemma nth_update_in: "j < length xs \<Longrightarrow> xs[i := v] ! j = (if i = j then v else xs ! j)"
  by auto

lemma fold_update_nth:
  "j < length xs \<Longrightarrow> fold (\<lambda>i xs. if P i then xs[i := f i] else xs) js xs ! j = (if j \<in> set js \<and> P j then f j else xs ! j)"
  by (induction js arbitrary: xs) (auto simp: nth_update_in)

text \<open>The vector says the star of each row, and \<open>-1\<close> for a row without one.\<close>

definition assigns :: "nat \<Rightarrow> (nat \<times> nat) set \<Rightarrow> int list \<Rightarrow> bool" where
  "assigns n S asg \<longleftrightarrow> length asg = n \<and> (\<forall>r<n. asg ! r = -1 \<and> r \<notin> fst ` S \<or> (\<exists>c. (r, c) \<in> S \<and> asg ! r = int c))"

lemma buildassignmentvector_assigns:
  assumes "assignment s = replicate n (-1)"
  shows "assigns n (stars n m s) (assignment (buildassignmentvector n m s))"
proof -
  let ?c = "\<lambda>r. first_index (elt n (starMatrix s) r) m"
  have eq: "assignment (buildassignmentvector n m s) = fold (\<lambda>i xs. if ?c i < m then xs[i := int (?c i)] else xs) [0..<n] (replicate n (-1))"
    using assms by (simp add: buildassignmentvector_def Let_def)
  have "assignment (buildassignmentvector n m s) ! r = -1 \<and> r \<notin> fst ` stars n m s \<or>
      (\<exists>c. (r, c) \<in> stars n m s \<and> assignment (buildassignmentvector n m s) ! r = int c)" if "r < n" for r
  proof (cases rule: first_index_cases [of "elt n (starMatrix s) r" m])
    case none
    then have "r \<notin> fst ` stars n m s" by (simp add: notin_fst marks_def)
    moreover have "assignment (buildassignmentvector n m s) ! r = -1"
      unfolding eq using fold_update_nth [of r "replicate n (- 1 :: int)" "\<lambda>i. ?c i < m" "\<lambda>i. int (?c i)"] none that by simp
    ultimately show ?thesis by simp
  next
    case found
    then have "(r, ?c r) \<in> stars n m s" using that by (simp add: marks_def)
    moreover have "assignment (buildassignmentvector n m s) ! r = int (?c r)"
      unfolding eq using fold_update_nth [of r "replicate n (- 1 :: int)" "\<lambda>i. ?c i < m" "\<lambda>i. int (?c i)"] found that by simp
    ultimately show ?thesis by blast
  qed
  moreover have "length (assignment (buildassignmentvector n m s)) = n" unfolding eq by simp
  ultimately show ?thesis by (simp add: assigns_def)
qed

definition clear :: "nat \<Rightarrow> nat \<Rightarrow> 'f hungarian \<Rightarrow> bool" where
  "clear n m s \<longleftrightarrow> lens n m s \<and> matching (stars n m s) \<and> crows n s = {} \<and> primes n m s = {}"

definition hungarian_inv :: "nat \<Rightarrow> nat \<Rightarrow> nat \<Rightarrow> step \<Rightarrow> 'f hungarian \<Rightarrow> bool" where
  "hungarian_inv n m minDim c s \<longleftrightarrow>
     (case c of
        Step2a \<Rightarrow> clear n m s \<and> ccols m s \<subseteq> snd ` stars n m s
      | Step2b \<Rightarrow> clear n m s \<and> ccols m s = snd ` stars n m s
      | Step3 \<Rightarrow> cov3 n m s
      | Step4 row col \<Rightarrow> free_prime n m row col s
      | Path y d \<Rightarrow> covering n m s \<and>
          (if y < n then y \<in> crows n s \<and> (\<exists>rank. ranked n m s rank \<and> on_path rank (stars n m s) (newstars n m s) y d)
           else grown (stars n m s) (newstars n m s))
      | Step5 \<Rightarrow> cov3 n m s
      | Finished \<Rightarrow> lens n m s \<and> matching (stars n m s) \<and> card (stars n m s) = minDim
      | Fault \<Rightarrow> False) \<and>
     (if c = Finished then assigns n (stars n m s) (assignment s) else assignment s = replicate n (-1))"

lemma cover_starred_ccols:
  assumes "lens n m s" and "ccols m s \<subseteq> snd ` stars n m s"
  shows "ccols m (cover_starred n m s) = snd ` stars n m s"
proof -
  have "coveredColumns (cover_starred n m s) ! c = ((\<exists>r<n. elt n (starMatrix s) r c) \<or> coveredColumns s ! c)" if "c < m" for c
    using fold_update_nth [of c "coveredColumns s" "\<lambda>c. \<exists>r<n. elt n (starMatrix s) r c" "\<lambda>_. True" "[0..<m]"] that lensD [OF assms(1)]
    by (auto simp: cover_starred_def)
  then have "ccols m (cover_starred n m s) = {c. c < m \<and> (\<exists>r<n. elt n (starMatrix s) r c)} \<union> ccols m s"
    by (auto simp: set_of_def)
  also have "{c. c < m \<and> (\<exists>r<n. elt n (starMatrix s) r c)} = snd ` stars n m s"
    by (force simp: marks_def)
  finally show ?thesis using assms(2) by auto
qed

lemma cover_starred_clear: "clear n m s \<Longrightarrow> clear n m (cover_starred n m s)"
  by (simp add: clear_def lens_def cover_starred_def)

lemma step5_dist_length [simp]: "length (distMatrix (step5 A n m s)) = length (distMatrix s)"
proof -
  have "length (fold (\<lambda>col d. put n row col (f col d) d) cs d) = length d"
    "length (fold (\<lambda>row d. put n row col (f row d) d) cs d) = length d" for row col f cs and d :: "'a list"
    by (induction cs arbitrary: d) simp_all
  then have "length (fold (\<lambda>row d. if P row then fold (\<lambda>col d. put n row col (f row col d) d) [0..<m] d else d) rs d) = length d"
    "length (fold (\<lambda>col d. if P col then d else fold (\<lambda>row d. put n row col (f row col d) d) [0..<n] d) rs d) = length d"
    for P f rs and d :: "'a list"
    by (induction rs arbitrary: d) simp_all
  then show ?thesis by (simp add: step5_def Let_def add_to_rows_def subtract_from_columns_def)
qed

lemma step5_sel [simp]:
  "starMatrix (step5 A n m s) = starMatrix s" "newStarMatrix (step5 A n m s) = newStarMatrix s" "primeMatrix (step5 A n m s) = primeMatrix s"
  "coveredColumns (step5 A n m s) = coveredColumns s" "coveredRows (step5 A n m s) = coveredRows s" "assignment (step5 A n m s) = assignment s"
  by (simp_all add: step5_def Let_def)

lemma cov3_step5: "cov3 n m s \<Longrightarrow> cov3 n m (step5 A n m s)"
  by (simp add: cov3_def covering_def lens_def ranked_def)

lemma clear_cov3: "clear n m s \<Longrightarrow> ccols m s = snd ` stars n m s \<Longrightarrow> cov3 n m s"
  by (simp add: clear_def cov3_def covering_def ranked_def)

lemma length_filter_set_of: "length (filter (\<lambda>i. xs ! i) [0..<n]) = card (set_of xs n)"
proof -
  have "set_of xs n = set (filter (\<lambda>i. xs ! i) [0..<n])" by (auto simp: set_of_def)
  then show ?thesis by (metis distinct_card distinct_filter distinct_upt)
qed

text \<open>Looking for the star of a column.\<close>

lemma star_of_column:
  assumes "d < m"
  shows "first_index (\<lambda>r. elt n (starMatrix s) r d) n = n \<and> d \<notin> snd ` stars n m s \<or>
    first_index (\<lambda>r. elt n (starMatrix s) r d) n < n \<and> (first_index (\<lambda>r. elt n (starMatrix s) r d) n, d) \<in> stars n m s"
  using assms
  by (cases rule: first_index_cases [of "\<lambda>r. elt n (starMatrix s) r d" n]) (auto simp: notin_snd marks_def)

lemma inv_Step2a: "hungarian_inv n m k Step2a s \<Longrightarrow> hungarian_inv n m k Step2b (cover_starred n m s)"
  using cover_starred_ccols [of n m s] cover_starred_clear [of n m s]
  by (auto simp: hungarian_inv_def clear_def cover_starred_def)

lemma inv_Step2b:
  assumes "hungarian_inv n m k Step2b s"
  shows "if length (filter (\<lambda>col. coveredColumns s ! col) [0..<m]) = k then hungarian_inv n m k Finished (buildassignmentvector n m s)
    else hungarian_inv n m k Step3 s"
proof -
  have s: "clear n m s" "ccols m s = snd ` stars n m s" "assignment s = replicate n (-1)"
    using assms by (simp_all add: hungarian_inv_def)
  have "card (stars n m s) = card (ccols m s)" using s by (simp add: clear_def matching_card)
  then show ?thesis
    using s clear_cov3 [OF s(1,2)] buildassignmentvector_assigns [OF s(3), of m]
    by (auto simp: hungarian_inv_def length_filter_set_of clear_def lens_def assigns_def buildassignmentvector_def)
qed

lemma inv_Step3:
  assumes "hungarian_inv n m k Step3 s"
  shows "case step3_pass A n m [0..<m] False s of (Some (r, c), _, t) \<Rightarrow> hungarian_inv n m k (Step4 r c) t
    | (None, z, t) \<Rightarrow> hungarian_inv n m k (if z then Step3 else Step5) t"
proof -
  have s: "cov3 n m s" "assignment s = replicate n (-1)" using assms by (simp_all add: hungarian_inv_def)
  have cols: "set [0..<m] \<subseteq> {..<m}" by auto
  obtain p z t where eq: "step3_pass A n m [0..<m] False s = (p, z, t)" by (metis prod_cases3)
  show ?thesis
  proof (cases p)
    case None
    with eq have "step3_pass A n m [0..<m] False s = (None, z, t)" by simp
    from step3_pass_None [OF this s(1) cols] eq None s(2) show ?thesis by (auto simp: hungarian_inv_def kept_def)
  next
    case (Some rc)
    obtain r c where "rc = (r, c)" by (metis surj_pair)
    with eq Some have "step3_pass A n m [0..<m] False s = (Some (r, c), z, t)" by simp
    from step3_pass_Some [OF this s(1) cols] this s(2) show ?thesis by (auto simp: hungarian_inv_def kept_def)
  qed
qed

lemma inv_Step4:
  assumes "hungarian_inv n m k (Step4 r c) s"
  shows "hungarian_inv n m k (Path (first_index (\<lambda>y. elt n (starMatrix s) y c) n) c) (s\<lparr>newStarMatrix := put n r c True (starMatrix s)\<rparr>)"
    (is "hungarian_inv n m k (Path ?y c) ?t")
proof -
  have cov: "covering n m s" and rc: "r < n" "c < m" "r \<notin> fst ` stars n m s" "c \<notin> ccols m s" and asg: "assignment s = replicate n (-1)"
    using assms by (simp_all add: hungarian_inv_def free_prime_def)
  have lens: "lens n m s" and M: "matching (stars n m s)" using cov by (simp_all add: covering_def)
  have N: "newstars n m ?t = insert (r, c) (stars n m s)"
    using marks_put(1) [of "starMatrix s" n m r c] lensD [OF lens] rc by simp
  have cov': "covering n m ?t" using cov lensD [OF lens] by (simp add: covering_def lens_def ranked_def)
  from star_of_column [OF rc(2), of n s] show ?thesis
  proof
    assume "?y = n \<and> c \<notin> snd ` stars n m s"
    then show ?thesis using cov' asg grown_insert [OF M _ rc(3), of c] N by (simp add: hungarian_inv_def)
  next
    assume y: "?y < n \<and> (?y, c) \<in> stars n m s"
    then have "?y \<in> crows n s" using covering_uncovered_star [OF cov _ rc(4)] by blast
    moreover obtain rank where "ranked n m s rank" using cov by (auto simp: covering_def)
    then have "ranked n m ?t rank" by (simp add: ranked_def)
    moreover have "on_path rank (stars n m s) (insert (r, c) (stars n m s)) ?y c"
      by (rule on_path_start [OF M _ rc(3)]) (use y in auto)
    ultimately show ?thesis using cov' asg y N by (auto simp: hungarian_inv_def)
  qed
qed

lemma inv_Path_next:
  assumes "hungarian_inv n m k (Path y c) s" and "y < n"
  defines "d \<equiv> first_index (elt n (primeMatrix s) y) m"
  defines "t \<equiv> s\<lparr>newStarMatrix := put n y d True (put n y c False (newStarMatrix s))\<rparr>"
  shows "d < m \<and> hungarian_inv n m k (Path (first_index (\<lambda>r. elt n (starMatrix s) r d) n) d) t \<and>
    (\<forall>rank. ranked n m s rank \<longrightarrow> on_path rank (stars n m s) (newstars n m s) y c \<longrightarrow>
       first_index (\<lambda>r. elt n (starMatrix s) r d) n < n \<longrightarrow>
       rank (first_index (\<lambda>r. elt n (starMatrix s) r d) n) < rank y \<and> on_path rank (stars n m t) (newstars n m t) (first_index (\<lambda>r. elt n (starMatrix s) r d) n) d)"
proof -
  have cov: "covering n m s" and y: "y \<in> crows n s" and asg: "assignment s = replicate n (-1)"
    and path: "\<exists>rank. ranked n m s rank \<and> on_path rank (stars n m s) (newstars n m s) y c"
    using assms(1,2) by (simp_all add: hungarian_inv_def)
  have lens: "lens n m s" and M: "matching (stars n m s)" using cov by (simp_all add: covering_def)
  obtain e where "(y, e) \<in> primes n m s" using covering_primed [OF cov y] by blast
  then have "\<not> (\<forall>i<m. \<not> elt n (primeMatrix s) y i)" by (auto simp: marks_def)
  then have d: "d < m" "(y, d) \<in> primes n m s"
    using assms(2) unfolding d_def by (cases rule: first_index_cases [of "elt n (primeMatrix s) y" m]; simp add: marks_def)+
  have yc: "y < n" "c < m" using path marks_sub by (auto simp: on_path_def)
  have "newstars n m t = insert (y, d) (newstars n m s - {(y, c)})"
    using marks_put(1) [of "put n y c False (newStarMatrix s)" n m y d] marks_put(2) [of "newStarMatrix s" n m y c] lensD [OF lens] yc d
    by (simp add: t_def)
  moreover have t: "stars n m t = stars n m s" "covering n m t" "assignment t = replicate n (-1)"
    using cov lensD [OF lens] asg by (simp_all add: t_def covering_def lens_def ranked_def)
  moreover have sub: "q \<in> crows n s \<and> rank q < rank y" if "ranked n m s rank" "(q, d) \<in> stars n m s" for rank q
    using that d y unfolding ranked_def by blast
  ultimately have N: "newstars n m t = insert (y, d) (newstars n m s - {(y, c)})" by simp
  have tr: "ranked n m t rank = ranked n m s rank" "crows n t = crows n s" for rank by (simp_all add: t_def ranked_def)
  let ?q = "first_index (\<lambda>r. elt n (starMatrix s) r d) n"
  have onward: "rank ?q < rank y \<and> on_path rank (stars n m t) (newstars n m t) ?q d"
    if "ranked n m s rank" "on_path rank (stars n m s) (newstars n m s) y c" "?q < n" for rank
  proof -
    have q: "(?q, d) \<in> stars n m s" using star_of_column [OF d(1), of n s] that(3) by auto
    from on_path_step [OF that(2) M _ q] sub [OF that(1) q] show ?thesis unfolding N t(1) by simp
  qed
  have "hungarian_inv n m k (Path ?q d) t"
  proof (cases "?q < n")
    case True
    then have q: "(?q, d) \<in> stars n m s" using star_of_column [OF d(1), of n s] by auto
    from path obtain rank where "ranked n m s rank" "on_path rank (stars n m s) (newstars n m s) y c" by blast
    with onward [of rank] sub [of rank, OF _ q] True t show ?thesis by (auto simp: hungarian_inv_def tr)
  next
    case False
    then have "\<forall>q. (q, d) \<notin> stars n m s" using star_of_column [OF d(1), of n s] by (auto simp: notin_snd)
    moreover from path obtain rank where "on_path rank (stars n m s) (newstars n m s) y c" by blast
    ultimately have "grown (stars n m t) (newstars n m t)"
      using on_path_end [of rank "stars n m s" "newstars n m s" y c d] unfolding N t(1) by simp
    then show ?thesis using False t by (simp add: hungarian_inv_def)
  qed
  with onward d(1) show ?thesis by blast
qed

lemma inv_Path_end:
  assumes "hungarian_inv n m k (Path y c) s" and "\<not> y < n"
  defines "t \<equiv> s\<lparr>primeMatrix := replicate (length (primeMatrix s)) False, starMatrix := newStarMatrix s,
    coveredRows := replicate (length (coveredRows s)) False\<rparr>"
  shows "hungarian_inv n m k Step2a t \<and> grown (stars n m s) (stars n m t)"
proof -
  have cov: "covering n m s" and asg: "assignment s = replicate n (-1)" and g: "grown (stars n m s) (newstars n m s)"
    using assms(1,2) by (simp_all add: hungarian_inv_def)
  have lens: "lens n m s" using cov by (simp add: covering_def)
  have "clear n m t" using lensD [OF lens] g by (simp add: clear_def lens_def t_def grown_def)
  moreover have "ccols m t \<subseteq> snd ` stars n m t"
    using covering_cols_le [OF cov] g by (auto simp: t_def grown_def)
  ultimately show ?thesis using asg g by (simp add: hungarian_inv_def) (simp add: t_def)
qed

lemma hungarian_step_inv:
  assumes "hungarian_inv n m k c s"
  shows "hungarian_inv n m k (fst (hungarian_step A n m k c s)) (snd (hungarian_step A n m k c s))"
proof (cases c)
  case Step2a
  then show ?thesis using inv_Step2a assms by auto
next
  case Step2b
  then show ?thesis using inv_Step2b [of n m k s] assms by auto
next
  case Step3
  then show ?thesis using inv_Step3 [of n m k s A] assms by (auto split: prod.splits option.splits)
next
  case (Step4 r d)
  then show ?thesis using inv_Step4 [of n m k r d s] assms by simp
next
  case (Path y d)
  show ?thesis
  proof (cases "y < n")
    case True
    then show ?thesis using inv_Path_next [of n m k y d s] assms Path by (simp add: Let_def)
  next
    case False
    then show ?thesis using inv_Path_end [of n m k y d s] assms Path by simp
  qed
next
  case Step5
  then show ?thesis using assms cov3_step5 by (auto simp: hungarian_inv_def)
qed (use assms in simp_all)

subsection \<open>The preliminary steps\<close>

definition starred_rows :: "nat \<Rightarrow> nat \<Rightarrow> nat \<Rightarrow> 'f hungarian \<Rightarrow> bool" where
  "starred_rows n m i s \<longleftrightarrow> clear n m s \<and> ccols m s = snd ` stars n m s \<and> fst ` stars n m s \<subseteq> {..<i} \<and> assignment s = replicate n (-1)"

lemma starred_rows_step:
  assumes "starred_rows n m i s" and "i < n"
  shows "starred_rows n m (Suc i) (star_row A n m i s)"
proof -
  have s: "lens n m s" "matching (stars n m s)" "crows n s = {}" "primes n m s = {}" "ccols m s = snd ` stars n m s"
      "fst ` stars n m s \<subseteq> {..<i}" "assignment s = replicate n (-1)"
    using assms(1) by (simp_all add: starred_rows_def clear_def)
  let ?P = "\<lambda>col. f_tiny A (elt n (distMatrix s) i col) \<and> \<not> coveredColumns s ! col"
  show ?thesis
  proof (cases rule: first_index_cases [of ?P m])
    case none
    then have "star_row A n m i s = s" by (simp add: star_row_def)
    then show ?thesis using assms(1) by (auto simp: starred_rows_def)
  next
    case found
    define c where "c = first_index ?P m"
    have c: "c < m" "\<not> coveredColumns s ! c" using found by (simp_all add: c_def)
    then have "c \<notin> snd ` stars n m s" using s(5) by (auto simp: set_of_def)
    moreover have "i \<notin> fst ` stars n m s" using s(6) by auto
    moreover have t: "star_row A n m i s = s\<lparr>starMatrix := put n i c True (starMatrix s), coveredColumns := (coveredColumns s)[c := True]\<rparr>"
      using found by (simp add: star_row_def Let_def flip: c_def)
    moreover have "stars n m (star_row A n m i s) = insert (i, c) (stars n m s)"
      using marks_put(1) [of "starMatrix s" n m i c] lensD [OF s(1)] assms(2) c unfolding t by simp
    moreover have "ccols m (star_row A n m i s) = insert c (ccols m s)"
      using set_of_upd(1) [of "coveredColumns s" m c] lensD [OF s(1)] c unfolding t by simp
    ultimately show ?thesis
      using s matching_insert [OF s(2), of i c] unfolding starred_rows_def clear_def by (auto simp: lens_def)
  qed
qed

definition starred_cols :: "nat \<Rightarrow> nat \<Rightarrow> nat \<Rightarrow> 'f hungarian \<Rightarrow> bool" where
  "starred_cols n m j s \<longleftrightarrow> lens n m s \<and> matching (stars n m s) \<and> crows n s = fst ` stars n m s \<and> primes n m s = {} \<and>
     ccols m s = snd ` stars n m s \<and> snd ` stars n m s \<subseteq> {..<j} \<and> assignment s = replicate n (-1)"

lemma starred_cols_step:
  assumes "starred_cols n m j s" and "j < m"
  shows "starred_cols n m (Suc j) (star_column A n j s)"
proof -
  have s: "lens n m s" "matching (stars n m s)" "crows n s = fst ` stars n m s" "primes n m s = {}" "ccols m s = snd ` stars n m s"
      "snd ` stars n m s \<subseteq> {..<j}" "assignment s = replicate n (-1)"
    using assms(1) by (simp_all add: starred_cols_def)
  let ?P = "\<lambda>row. f_tiny A (elt n (distMatrix s) row j) \<and> \<not> coveredRows s ! row"
  show ?thesis
  proof (cases rule: first_index_cases [of ?P n])
    case none
    then have "star_column A n j s = s" by (simp add: star_column_def)
    then show ?thesis using assms(1) by (auto simp: starred_cols_def)
  next
    case found
    define r where "r = first_index ?P n"
    have r: "r < n" "\<not> coveredRows s ! r" using found by (simp_all add: r_def)
    then have "r \<notin> fst ` stars n m s" using s(3) by (auto simp: set_of_def)
    moreover have "j \<notin> snd ` stars n m s" using s(6) by auto
    moreover have t: "star_column A n j s = s\<lparr>starMatrix := put n r j True (starMatrix s), coveredColumns := (coveredColumns s)[j := True],
        coveredRows := (coveredRows s)[r := True]\<rparr>"
      using found by (simp add: star_column_def Let_def flip: r_def)
    moreover have "stars n m (star_column A n j s) = insert (r, j) (stars n m s)"
      using marks_put(1) [of "starMatrix s" n m r j] lensD [OF s(1)] assms(2) r unfolding t by simp
    moreover have "ccols m (star_column A n j s) = insert j (ccols m s)" "crows n (star_column A n j s) = insert r (crows n s)"
      using set_of_upd(1) [of "coveredColumns s" m j] set_of_upd(1) [of "coveredRows s" n r] lensD [OF s(1)] r assms(2) unfolding t by simp_all
    ultimately show ?thesis
      using s matching_insert [OF s(2), of r j] unfolding starred_cols_def by (auto simp: lens_def)
  qed
qed

text \<open>A property that holds along a loop over an index.\<close>

lemma fold_upto_induct:
  assumes "P 0 s" and "\<And>i s. i < n \<Longrightarrow> P i s \<Longrightarrow> P (Suc i) (f i s)"
  shows "P n (fold f [0..<n] s)"
  using assms(2) by (induction n) (simp_all add: assms(1))

lemma length_fold_reduce: "(\<And>i d. length (f i d) = length d) \<Longrightarrow> length (fold f js d) = length d"
  by (induction js arbitrary: d) simp_all

lemma length_reduce [simp]: "length (reduce_row A n m r d) = length d" "length (reduce_column A n c d) = length d"
  by (simp_all add: reduce_row_def reduce_column_def Let_def length_fold_reduce)

lemma init_clear:
  assumes "length d = n * m"
  shows "clear n m (hungarian_init n m d)" "ccols m (hungarian_init n m d) = {}" "crows n (hungarian_init n m d) = {}"
    "stars n m (hungarian_init n m d) = {}" "assignment (hungarian_init n m d) = replicate n (-1)"
  using assms by (simp_all add: hungarian_init_def clear_def lens_def)

lemma prepare_inv:
  assumes "length d = n * m"
  shows "hungarian_inv n m k Step2b (hungarian_prepare A n m d)"
proof (cases "n \<le> m")
  case True
  let ?d = "fold (reduce_row A n m) [0..<n] d"
  have "length ?d = n * m" using assms by (simp add: length_fold_reduce)
  then have "starred_rows n m 0 (hungarian_init n m ?d)" using init_clear [of ?d n m] by (simp add: starred_rows_def)
  then have "starred_rows n m n (fold (star_row A n m) [0..<n] (hungarian_init n m ?d))"
    by (rule fold_upto_induct) (rule starred_rows_step)
  with True show ?thesis by (simp add: hungarian_prepare_def starred_rows_def hungarian_inv_def)
next
  case False
  let ?d = "fold (reduce_column A n) [0..<m] d"
  let ?s = "fold (star_column A n) [0..<m] (hungarian_init n m ?d)"
  have "length ?d = n * m" using assms by (simp add: length_fold_reduce)
  then have "starred_cols n m 0 (hungarian_init n m ?d)" using init_clear [of ?d n m] by (simp add: starred_cols_def clear_def)
  then have s: "starred_cols n m m ?s" by (rule fold_upto_induct) (rule starred_cols_step)
  then have "clear n m (?s\<lparr>coveredRows := replicate n False\<rparr>)"
    by (simp add: starred_cols_def clear_def) (simp add: lens_def)
  with s False show ?thesis by (simp add: hungarian_prepare_def hungarian_inv_def starred_cols_def)
qed

lemma length_concat_columns: "length (concat (map (\<lambda>j. map (f j) [0..<n]) [0..<m])) = n * m"
  by (simp add: length_concat comp_def sum_list_triv)

subsection \<open>What the solver returns\<close>

lemma hungarian_run_inv:
  assumes "hungarian_run A n m k c s = Some y"
  shows "hungarian_inv n m k c s \<longrightarrow> fst y = Finished \<and> hungarian_inv n m k Finished (snd y)"
proof (rule hungarian_run.raw_induct [OF _ assms], goal_cases)
  case (1 run A n m k c s y)
  show ?case
  proof (cases "c = Finished \<or> c = Fault")
    case True
    then show ?thesis using 1(2) by (auto simp: hungarian_inv_def)
  next
    case False
    then have "run A n m k (fst (hungarian_step A n m k c s)) (snd (hungarian_step A n m k c s)) = Some y" using 1(2) by simp
    with 1(1) show ?thesis using hungarian_step_inv [of n m k c s A] by blast
  qed
qed

text \<open>A complete assignment: every row gets a column of its own or none, and as many rows as possible get one.\<close>

definition complete_assignment :: "nat \<Rightarrow> nat \<Rightarrow> int list \<Rightarrow> bool" where
  "complete_assignment n m asg \<longleftrightarrow> length asg = n \<and> (\<forall>r<n. asg ! r = -1 \<or> 0 \<le> asg ! r \<and> asg ! r < int m) \<and>
     (\<forall>r<n. \<forall>r'<n. asg ! r = asg ! r' \<and> asg ! r \<noteq> -1 \<longrightarrow> r = r') \<and> length (filter (\<lambda>c. c \<noteq> -1) asg) = min n m"

lemma assigns_complete:
  assumes "assigns n (marks n m xs) asg" and "matching (marks n m xs)" and "card (marks n m xs) = min n m"
  shows "complete_assignment n m asg"
proof -
  let ?S = "marks n m xs"
  have len: "length asg = n" and row: "asg ! r = -1 \<and> r \<notin> fst ` ?S \<or> (\<exists>c. (r, c) \<in> ?S \<and> asg ! r = int c)" if "r < n" for r
    using assms(1) that by (simp_all add: assigns_def)
  have "{r. r < n \<and> asg ! r \<noteq> -1} = fst ` ?S"
  proof (intro equalityI subsetI)
    fix r assume "r \<in> {r. r < n \<and> asg ! r \<noteq> -1}"
    then show "r \<in> fst ` ?S" using row [of r] by force
  next
    fix r assume r: "r \<in> fst ` ?S"
    then have "r < n" by (auto simp: marks_def)
    with r row [of r] show "r \<in> {r. r < n \<and> asg ! r \<noteq> -1}" by auto
  qed
  then have "length (filter (\<lambda>c. c \<noteq> -1) asg) = card ?S"
    using assms(1) matching_card [OF assms(2)] by (simp add: length_filter_conv_card assigns_def)
  moreover have "asg ! r = -1 \<or> 0 \<le> asg ! r \<and> asg ! r < int m" if "r < n" for r
    using row [OF that] by (auto simp: marks_def)
  moreover have "r = r'" if "r < n" "r' < n" "asg ! r = asg ! r'" "asg ! r \<noteq> -1" for r r'
    using row [OF that(1)] row [OF that(2)] that(3,4) matching_col [OF assms(2)] by fastforce
  ultimately show ?thesis using assms(1,3) unfolding complete_assignment_def by (simp add: assigns_def)
qed

lemma assignmentoptimal_cases:
  assumes "length d = n * m"
  obtains "hungarian_run A n m (min n m) Step2b (hungarian_prepare A n m d) = None" "assignmentoptimal A n m d = Blocked ()"
    | s where "hungarian_run A n m (min n m) Step2b (hungarian_prepare A n m d) = Some (Finished, s)"
      "hungarian_inv n m (min n m) Finished s"
      "assignmentoptimal A n m d = Ret (computeassignmentcost A n (assignment s) d, assignment s) ()"
proof (cases "hungarian_run A n m (min n m) Step2b (hungarian_prepare A n m d)")
  case None
  then show thesis using that(1) by (simp add: assignmentoptimal_def)
next
  case (Some y)
  then have "fst y = Finished \<and> hungarian_inv n m (min n m) Finished (snd y)"
    using hungarian_run_inv prepare_inv [OF assms] by blast
  then show thesis using that(2) [of "snd y"] Some by (cases y) (simp add: assignmentoptimal_def)
qed

lemma Solve_cases:
  obtains "Solve A n m M = Blocked ()" | cost asg where "Solve A n m M = Ret (cost, asg) ()" "complete_assignment n m asg"
proof -
  let ?d = "concat (map (\<lambda>j. map (\<lambda>i. M i j) [0..<n]) [0..<m])"
  have "length ?d = n * m" by (rule length_concat_columns)
  then show thesis
  proof (cases rule: assignmentoptimal_cases [of ?d n m A])
    case 1
    then show thesis using that(1) by (simp add: Solve_def)
  next
    case (2 s)
    then have "complete_assignment n m (assignment s)"
      by (intro assigns_complete [of n m "starMatrix s"]) (simp_all add: hungarian_inv_def)
    with 2 show thesis using that(2) by (simp add: Solve_def)
  qed
qed

text \<open>C25: Whatever the floating point operations compute, the assignment solver never writes outside
  of its arrays, and when it returns, every row has a column of its own or \<open>-1\<close>, no column is given
  twice, and as many rows as there are columns (or all of them) have one.\<close>

theorem hungarian_complete:
  "case Solve A n m M of Ret (cost, asg) _ \<Rightarrow> complete_assignment n m asg | Blocked _ \<Rightarrow> True | _ \<Rightarrow> False"
  by (rule Solve_cases [of A n m M]) simp_all

end
