(* ===== verification/Hungarian_Optimal.thy ===== *)
theory Hungarian_Optimal
  imports Hungarian_Matching
begin

text \<open>
  The arithmetical half of the assignment solver: with exact sums and comparisons it returns, and
  the assignment is the cheapest one up to the tolerance of the test for zero. The working matrix is
  always the given one minus potentials of its rows and columns (weak duality).
\<close>

subsection \<open>Loops over the matrix\<close>

lemma elt_fold_put_col:
  assumes "length d = n * m" and "row < n" and "set cols \<subseteq> {..<m}" and "distinct cols" and "r < n" "c < m"
  shows "elt n (fold (\<lambda>col d. put n row col (f (elt n d row col)) d) cols d) r c =
    (if r = row \<and> c \<in> set cols then f (elt n d r c) else elt n d r c)"
  using assms
  by (induction cols arbitrary: d) (auto simp: elt_put [where m = m])

lemma elt_fold_put_row:
  assumes "length d = n * m" and "col < m" and "set rows \<subseteq> {..<n}" and "distinct rows" and "r < n" "c < m"
  shows "elt n (fold (\<lambda>row d. put n row col (f (elt n d row col)) d) rows d) r c =
    (if c = col \<and> r \<in> set rows then f (elt n d r c) else elt n d r c)"
  using assms
  by (induction rows arbitrary: d) (auto simp: elt_put [where m = m])

lemma length_fold_put [simp]:
  "length (fold (\<lambda>col d. put n row col (f (elt n d row col)) d) cols d) = length d"
  "length (fold (\<lambda>row d. put n row col (f (elt n d row col)) d) cols d) = length d"
  by (simp_all add: length_fold_reduce)

lemma elt_fold_rows:
  assumes "length d = n * m" and "set rows \<subseteq> {..<n}" and "distinct rows" and "r < n" "c < m"
  shows "elt n (fold (\<lambda>row d. if P row then fold (\<lambda>col d. put n row col (f (elt n d row col)) d) [0..<m] d else d) rows d) r c =
    (if r \<in> set rows \<and> P r then f (elt n d r c) else elt n d r c)"
  using assms
proof (induction rows arbitrary: d)
  case (Cons row rows)
  let ?d = "if P row then fold (\<lambda>col d. put n row col (f (elt n d row col)) d) [0..<m] d else d"
  have "elt n ?d r c = (if r = row \<and> P row then f (elt n d r c) else elt n d r c)"
    using elt_fold_put_col [of d n m row "[0..<m]" r c f] Cons.prems by (auto simp: atLeast0LessThan)
  with Cons.IH [of ?d] Cons.prems show ?case by auto
qed simp

lemma elt_fold_cols:
  assumes "length d = n * m" and "set cols \<subseteq> {..<m}" and "distinct cols" and "r < n" "c < m"
  shows "elt n (fold (\<lambda>col d. if P col then d else fold (\<lambda>row d. put n row col (f (elt n d row col)) d) [0..<n] d) cols d) r c =
    (if c \<in> set cols \<and> \<not> P c then f (elt n d r c) else elt n d r c)"
  using assms
proof (induction cols arbitrary: d)
  case (Cons col cols)
  let ?d = "if P col then d else fold (\<lambda>row d. put n row col (f (elt n d row col)) d) [0..<n] d"
  have "elt n ?d r c = (if c = col \<and> \<not> P col then f (elt n d r c) else elt n d r c)"
    using elt_fold_put_row [of d n m col "[0..<n]" r c f] Cons.prems by (auto simp: atLeast0LessThan)
  with Cons.IH [of ?d] Cons.prems show ?case by auto
qed simp

lemma elt_step5:
  fixes A :: "'f arith" and s :: "'f hungarian"
  assumes "lens n m s" and "r < n" "c < m"
  defines "h \<equiv> smallest_uncovered A n m s"
  defines "x \<equiv> if r \<in> crows n s then f_add A (elt n (distMatrix s) r c) h else elt n (distMatrix s) r c"
  shows "elt n (distMatrix (step5 A n m s)) r c = (if c \<in> ccols m s then x else f_sub A x h)"
proof -
  let ?d = "add_to_rows A n m s h (distMatrix s)"
  have len: "length (distMatrix s) = n * m" "length ?d = n * m"
    using lensD [OF assms(1)] by (simp_all add: add_to_rows_def length_fold_reduce)
  have "elt n ?d r c = x"
    using elt_fold_rows [OF len(1), of "[0..<n]" r c "(!) (coveredRows s)" "\<lambda>y. f_add A y h"] assms(2,3)
    by (simp add: add_to_rows_def x_def set_of_def atLeast0LessThan)
  moreover have "elt n (subtract_from_columns A n m s h ?d) r c = (if c \<in> ccols m s then elt n ?d r c else f_sub A (elt n ?d r c) h)"
    using elt_fold_cols [OF len(2), of "[0..<m]" r c "(!) (coveredColumns s)" "\<lambda>y. f_sub A y h"] assms(2,3)
    by (simp add: subtract_from_columns_def set_of_def atLeast0LessThan)
  ultimately show ?thesis by (simp add: step5_def Let_def h_def)
qed

lemma elt_columns:
  assumes "r < n" and "c < m"
  shows "elt n (concat (map (\<lambda>j. map (\<lambda>i. M i j) [0..<n]) [0..<m])) r c = M r c"
  using assms
proof (induction m)
  case (Suc m)
  let ?d = "concat (map (\<lambda>j. map (\<lambda>i. M i j) [0..<n]) [0..<m])"
  have len: "length ?d = n * m" by (rule length_concat_columns)
  show ?case
  proof (cases "c < m")
    case True
    with Suc elt_bound [of r n c m] len show ?thesis by (simp add: elt_def nth_append)
  next
    case False
    with Suc.prems have "c = m" by simp
    with Suc.prems len show ?thesis by (simp add: elt_def nth_append)
  qed
qed simp

lemma set_uncovered: "set (uncovered n m s) = {(r, c). r < n \<and> c < m \<and> r \<notin> crows n s \<and> c \<notin> ccols m s}"
  by (auto simp: uncovered_def set_of_def)

text \<open>A starred element is covered exactly once.\<close>

lemma covering_star:
  assumes "covering n m s" and "(r, c) \<in> stars n m s"
  shows "c \<in> ccols m s \<longleftrightarrow> r \<notin> crows n s"
proof
  assume "c \<in> ccols m s"
  then obtain p where p: "p \<in> stars n m s" "fst p \<notin> crows n s" "c = snd p" using covering_ccols [OF assms(1)] by auto
  then have "(fst p, c) \<in> stars n m s" by simp
  then have "r = fst p" using matching_col [OF covering_matching [OF assms(1)] assms(2)] by blast
  with p(2) show "r \<notin> crows n s" by simp
next
  assume "r \<notin> crows n s"
  then have "(r, c) \<in> {p \<in> stars n m s. fst p \<notin> crows n s}" using assms(2) by simp
  then show "c \<in> ccols m s" unfolding covering_ccols [OF assms(1)] by (rule rev_image_eqI) simp
qed

text \<open>As long as the assignment is not complete, some element is uncovered.\<close>

lemma uncovered_nonempty:
  assumes "cov3 n m s" and "card (stars n m s) < min n m"
  shows "uncovered n m s \<noteq> []"
proof -
  have cov: "covering n m s" using assms(1) by (simp add: cov3_def)
  have M: "card (fst ` stars n m s) < n" "card (snd ` stars n m s) < m"
    using matching_card [OF covering_matching [OF cov]] assms(2) by simp_all
  have "card (crows n s) < card {..<n}" "card (ccols m s) < card {..<m}"
    using M card_mono [of "fst ` stars n m s" "crows n s"] card_mono [of "snd ` stars n m s" "ccols m s"] cov covering_cols_le [OF cov]
    by (auto simp: covering_def)
  then have "\<not> {..<n} \<subseteq> crows n s" "\<not> {..<m} \<subseteq> ccols m s"
    using card_mono [OF finite_set_of, of "{..<n}" "coveredRows s" n] card_mono [OF finite_set_of, of "{..<m}" "coveredColumns s" m]
    by (auto simp: not_le [symmetric])
  then obtain r c where "r < n" "r \<notin> crows n s" "c < m" "c \<notin> ccols m s" by auto
  then have "(r, c) \<in> set (uncovered n m s)" by (simp add: set_uncovered)
  then show ?thesis by auto
qed

subsection \<open>Potentials\<close>

context exact_arith
begin

lemma fin_fold_min:
  assumes "fin x" and "\<And>y. y \<in> set vs \<Longrightarrow> fin y"
  shows "fin (fold (\<lambda>value mn. if f_less A value mn then value else mn) vs x) \<and>
    (\<forall>y\<in>insert x (set vs). val (fold (\<lambda>value mn. if f_less A value mn then value else mn) vs x) \<le> val y)"
  using assms
proof (induction vs arbitrary: x)
  case (Cons a vs)
  have "fin (if f_less A a x then a else x)" using Cons.prems by auto
  from Cons.IH [OF this] Cons.prems show ?case using val_less [of a x] by (auto split: if_splits)
qed simp

lemma min_value_le:
  assumes "vs \<noteq> []" and "\<And>y. y \<in> set vs \<Longrightarrow> fin y"
  shows "fin (min_value A vs) \<and> (\<forall>y\<in>set vs. val (min_value A vs) \<le> val y)"
  using fin_fold_min [of "hd vs" "tl vs"] assms unfolding min_value_def by (cases vs) auto

text \<open>The smallest uncovered element is attained.\<close>

lemma fold_smallest:
  assumes F: "\<And>p h. F p h = (if f_less A (g p) h then g p else h)"
    and "\<And>p. p \<in> set ps \<Longrightarrow> fin (g p)" and "fin h \<or> h = f_dbl_max A \<and> ps \<noteq> []"
  shows "fin (fold F ps h) \<and> (\<forall>p\<in>set ps. val (fold F ps h) \<le> val (g p)) \<and> (fin h \<longrightarrow> val (fold F ps h) \<le> val h) \<and>
    (fold F ps h \<in> g ` set ps \<or> fin h \<and> fold F ps h = h)"
  using assms(2,3)
proof (induction ps arbitrary: h)
  case (Cons p ps)
  have gp: "fin (g p)" using Cons.prems(1) by simp
  have h: "fin (F p h)" "val (F p h) \<le> val (g p)" "fin h \<longrightarrow> val (F p h) \<le> val h" "F p h = g p \<or> fin h \<and> F p h = h"
    using Cons.prems(2) gp less_max [OF gp] val_less [OF gp] by (auto simp: F)
  from Cons.IH [of "F p h"] Cons.prems(1) h(1)
  have IH: "fin (fold F ps (F p h))" "\<forall>q\<in>set ps. val (fold F ps (F p h)) \<le> val (g q)" "val (fold F ps (F p h)) \<le> val (F p h)"
    "fold F ps (F p h) \<in> g ` set ps \<or> fold F ps (F p h) = F p h"
    by auto
  have "val (fold F ps (F p h)) \<le> val (g p)" using IH(3) h(2) by (rule order_trans)
  moreover have "fin h \<longrightarrow> val (fold F ps (F p h)) \<le> val h" using IH(3) h(3) order_trans by blast
  moreover have "fold F ps (F p h) \<in> g ` set (p # ps) \<or> fin h \<and> fold F ps (F p h) = h" using IH(4) h(4) by auto
  ultimately show ?case using IH(1,2) by simp
qed auto

lemma smallest_uncovered_spec:
  assumes "\<And>r c. r < n \<Longrightarrow> c < m \<Longrightarrow> fin (elt n (distMatrix s) r c)" and "uncovered n m s \<noteq> []"
  shows "fin (smallest_uncovered A n m s)"
    and "(r, c) \<in> set (uncovered n m s) \<Longrightarrow> val (smallest_uncovered A n m s) \<le> val (elt n (distMatrix s) r c)"
    and "\<exists>(r, c)\<in>set (uncovered n m s). elt n (distMatrix s) r c = smallest_uncovered A n m s"
proof -
  let ?g = "\<lambda>p. elt n (distMatrix s) (fst p) (snd p)"
  define F where "F = (\<lambda>p h. if f_less A (?g p) h then ?g p else h)"
  have eq: "smallest_uncovered A n m s = fold F (uncovered n m s) (f_dbl_max A)"
    by (simp add: smallest_uncovered_def case_prod_beta' F_def)
  have "fin (?g p)" if "p \<in> set (uncovered n m s)" for p
    using that assms(1) by (auto simp: set_uncovered)
  from fold_smallest [of F ?g "uncovered n m s" "f_dbl_max A", OF _ this] assms(2) have F:
    "fin (smallest_uncovered A n m s)" "\<forall>p\<in>set (uncovered n m s). val (smallest_uncovered A n m s) \<le> val (?g p)"
    "smallest_uncovered A n m s \<in> ?g ` set (uncovered n m s) \<or> smallest_uncovered A n m s = f_dbl_max A \<and> fin (f_dbl_max A)"
    unfolding eq by (auto simp: F_def)
  show "fin (smallest_uncovered A n m s)" by (rule F(1))
  show "(r, c) \<in> set (uncovered n m s) \<Longrightarrow> val (smallest_uncovered A n m s) \<le> val (elt n (distMatrix s) r c)" using F(2) by auto
  have "\<not> fin (f_dbl_max A)" using less_max val_less by blast
  then show "\<exists>(r, c)\<in>set (uncovered n m s). elt n (distMatrix s) r c = smallest_uncovered A n m s" using F(3) by force
qed

end

context exact_arith
begin

definition dual :: "nat \<Rightarrow> nat \<Rightarrow> 'f list \<Rightarrow> 'f hungarian \<Rightarrow> (nat \<Rightarrow> rat) \<Rightarrow> (nat \<Rightarrow> rat) \<Rightarrow> rat \<Rightarrow> bool" where
  "dual n m d s u v V \<longleftrightarrow>
     (\<forall>r<n. \<forall>c<m. fin (elt n (distMatrix s) r c) \<and> 0 \<le> val (elt n (distMatrix s) r c) \<and>
        val (elt n (distMatrix s) r c) = val (elt n d r c) - u r - v c) \<and>
     (n \<le> m \<longrightarrow> (\<forall>c<m. v c \<le> V \<and> (c \<notin> snd ` stars n m s \<longrightarrow> v c = V))) \<and>
     (m < n \<longrightarrow> (\<forall>r<n. u r \<le> 0 \<and> (r \<notin> fst ` stars n m s \<longrightarrow> u r = 0)))"

definition zeros :: "nat \<Rightarrow> nat \<Rightarrow> 'f hungarian \<Rightarrow> (nat \<times> nat) set \<Rightarrow> bool" where
  "zeros n m s X \<longleftrightarrow> (\<forall>r c. (r, c) \<in> X \<longrightarrow> f_tiny A (elt n (distMatrix s) r c))"

definition exact_inv :: "nat \<Rightarrow> nat \<Rightarrow> 'f list \<Rightarrow> 'f hungarian \<Rightarrow> bool" where
  "exact_inv n m d s \<longleftrightarrow> (\<exists>u v V. dual n m d s u v V) \<and> zeros n m s (stars n m s \<union> primes n m s)"

lemma zeros_subset: "zeros n m s X \<Longrightarrow> Y \<subseteq> X \<Longrightarrow> zeros n m s Y"
  by (auto simp: zeros_def)

lemma dual_fin: "dual n m d s u v V \<Longrightarrow> r < n \<Longrightarrow> c < m \<Longrightarrow> fin (elt n (distMatrix s) r c)"
  by (simp add: dual_def)

lemma dual_nonneg: "dual n m d s u v V \<Longrightarrow> r < n \<Longrightarrow> c < m \<Longrightarrow> 0 \<le> val (elt n (distMatrix s) r c)"
  and dual_eq: "dual n m d s u v V \<Longrightarrow> r < n \<Longrightarrow> c < m \<Longrightarrow> val (elt n (distMatrix s) r c) = val (elt n d r c) - u r - v c"
  unfolding dual_def by blast+

text \<open>Step 5 moves the potentials by the smallest uncovered element, which becomes zero.\<close>

lemma step5_values:
  assumes "lens n m s" and "\<And>r c. r < n \<Longrightarrow> c < m \<Longrightarrow> fin (elt n (distMatrix s) r c)" and "uncovered n m s \<noteq> []" and "r < n" "c < m"
  shows "fin (elt n (distMatrix (step5 A n m s)) r c) \<and> val (elt n (distMatrix (step5 A n m s)) r c) =
    val (elt n (distMatrix s) r c) + (if r \<in> crows n s then val (smallest_uncovered A n m s) else 0)
      - (if c \<in> ccols m s then 0 else val (smallest_uncovered A n m s))"
proof -
  have h: "fin (smallest_uncovered A n m s)" by (rule smallest_uncovered_spec(1) [OF assms(2,3)])
  have x: "fin (elt n (distMatrix s) r c)" using assms by blast
  show ?thesis
    unfolding elt_step5 [OF assms(1,4,5)] using val_add [OF x h] val_sub [OF x h] val_sub [of "f_add A (elt n (distMatrix s) r c) (smallest_uncovered A n m s)", OF _ h] x
    by auto
qed

lemma exact_step5:
  assumes cov: "cov3 n m s" and few: "card (stars n m s) < min n m" and inv: "exact_inv n m d s"
  shows "exact_inv n m d (step5 A n m s) \<and>
    (\<exists>r c. (r, c) \<in> set (uncovered n m s) \<and> f_tiny A (elt n (distMatrix (step5 A n m s)) r c))"
proof -
  have covering: "covering n m s" and lens: "lens n m s" and M: "matching (stars n m s)" using cov by (auto simp: cov3_def covering_def)
  from inv obtain u v V where dual: "dual n m d s u v V" and Z: "zeros n m s (stars n m s \<union> primes n m s)" by (auto simp: exact_inv_def)
  define H where "H = val (smallest_uncovered A n m s)"
  note fin = dual_fin [OF dual] and ne = uncovered_nonempty [OF cov few]
  have new: "fin (elt n (distMatrix (step5 A n m s)) r c)" "val (elt n (distMatrix (step5 A n m s)) r c) =
      val (elt n (distMatrix s) r c) + (if r \<in> crows n s then H else 0) - (if c \<in> ccols m s then 0 else H)" if "r < n" "c < m" for r c
    using step5_values [OF lens fin ne that] by (simp_all add: H_def)
  from smallest_uncovered_spec(3) [OF fin ne] obtain r0 c0 where
    r0: "(r0, c0) \<in> set (uncovered n m s)" "val (elt n (distMatrix s) r0 c0) = H" by (auto simp: H_def)
  then have rc0: "r0 < n" "c0 < m" "r0 \<notin> crows n s" "c0 \<notin> ccols m s" by (simp_all add: set_uncovered)
  have H: "0 \<le> H" using r0(2) dual_nonneg [OF dual rc0(1,2)] by simp
  have least: "H \<le> val (elt n (distMatrix s) r c)" if "r < n" "c < m" "r \<notin> crows n s" "c \<notin> ccols m s" for r c
    using smallest_uncovered_spec(2) [OF fin ne, of r c] that by (simp add: H_def set_uncovered)
  have "dual n m d (step5 A n m s) (\<lambda>r. u r - (if r \<in> crows n s then H else 0)) (\<lambda>c. v c + (if c \<in> ccols m s then 0 else H)) (V + H)"
    unfolding dual_def
  proof (intro conjI impI allI)
    fix r c assume rc: "r < n" "c < m"
    show "fin (elt n (distMatrix (step5 A n m s)) r c)" by (rule new(1) [OF rc])
    show "0 \<le> val (elt n (distMatrix (step5 A n m s)) r c)" using new(2) [OF rc] least [OF rc] H dual_nonneg [OF dual rc] by auto
    show "val (elt n (distMatrix (step5 A n m s)) r c) = val (elt n d r c) - (u r - (if r \<in> crows n s then H else 0)) - (v c + (if c \<in> ccols m s then 0 else H))"
      using new(2) [OF rc] dual_eq [OF dual rc] by simp
  next
    fix c assume "n \<le> m" "c < m"
    then show "v c + (if c \<in> ccols m s then 0 else H) \<le> V + H" using dual H by (auto simp: dual_def)
  next
    fix c assume c: "n \<le> m" "c < m" "c \<notin> snd ` stars n m (step5 A n m s)"
    then show "v c + (if c \<in> ccols m s then 0 else H) = V + H"
      using dual covering_cols_le [OF covering] by (auto simp: dual_def)
  next
    fix r assume "m < n" "r < n"
    then show "u r - (if r \<in> crows n s then H else 0) \<le> 0" using dual H by (auto simp: dual_def)
  next
    fix r assume "m < n" "r < n" "r \<notin> fst ` stars n m (step5 A n m s)"
    then show "u r - (if r \<in> crows n s then H else 0) = 0" using dual covering by (auto simp: dual_def covering_def)
  qed
  moreover have "zeros n m (step5 A n m s) (stars n m s \<union> primes n m s)"
    unfolding zeros_def
  proof (intro allI impI)
    fix r c assume rc: "(r, c) \<in> stars n m s \<union> primes n m s"
    then have lt: "r < n" "c < m" by (auto simp: marks_def)
    have "r \<in> crows n s \<longleftrightarrow> c \<notin> ccols m s"
    proof (cases "(r, c) \<in> stars n m s")
      case True
      then show ?thesis using covering_star [OF covering] by blast
    next
      case False
      with rc have "(r, c) \<in> primes n m s" by simp
      moreover from this have r: "r \<in> crows n s" using cov unfolding cov3_def by force
      moreover have "c \<notin> ccols m s"
        using covering calculation unfolding covering_def ranked_def by force
      ultimately show ?thesis by simp
    qed
    then have "val (elt n (distMatrix (step5 A n m s)) r c) = val (elt n (distMatrix s) r c)" using new(2) [OF lt] by auto
    moreover have "f_tiny A (elt n (distMatrix s) r c)" using Z rc unfolding zeros_def by blast
    ultimately show "f_tiny A (elt n (distMatrix (step5 A n m s)) r c)" using new(1) [OF lt] fin [OF lt] by (simp add: val_tiny)
  qed
  moreover have "f_tiny A (elt n (distMatrix (step5 A n m s)) r0 c0)"
    using new [OF rc0(1,2)] r0(2) rc0(3,4) eps_pos by (simp add: val_tiny)
  ultimately show ?thesis using r0(1) unfolding exact_inv_def by auto
qed

end

subsection \<open>Termination\<close>

lemma hungarian_run_step:
  "c \<noteq> Finished \<Longrightarrow> c \<noteq> Fault \<Longrightarrow>
    hungarian_run A n m k c s = hungarian_run A n m k (fst (hungarian_step A n m k c s)) (snd (hungarian_step A n m k c s))"
  by (subst hungarian_run.simps) simp

lemma hungarian_run_Finished: "hungarian_run A n m k Finished s = Some (Finished, s)"
  by (subst hungarian_run.simps) simp

lemma clear_card_le:
  assumes "clear n m s"
  shows "card (stars n m s) \<le> min n m"
proof -
  have "fst ` stars n m s \<subseteq> {..<n}" "snd ` stars n m s \<subseteq> {..<m}" by (auto simp: marks_def)
  then have "card (fst ` stars n m s) \<le> card {..<n}" "card (snd ` stars n m s) \<le> card {..<m}"
    by (simp_all add: card_mono del: card_lessThan)
  then show ?thesis using matching_card [of "stars n m s"] assms by (simp add: clear_def)
qed

text \<open>A pass that finds no zero changes nothing.\<close>

lemma step3_pass_idle:
  assumes "cov3 n m s" and "\<forall>r c. r < n \<longrightarrow> c \<in> set cols \<longrightarrow> r \<notin> crows n s \<longrightarrow> c \<notin> ccols m s \<longrightarrow> \<not> f_tiny A (elt n (distMatrix s) r c)"
    and "set cols \<subseteq> {..<m}"
  shows "step3_pass A n m cols z s = (None, z, s)"
  using assms(2,3)
proof (induction cols)
  case (Cons c cols)
  have "first_index (\<lambda>r. \<not> coveredRows s ! r \<and> f_tiny A (elt n (distMatrix s) r c)) n = n" if "\<not> coveredColumns s ! c"
    using Cons.prems that by (auto simp: first_index_full set_of_def)
  then show ?case using Cons by (auto simp: Let_def)
qed simp

lemma hungarian_step3_eq:
  "hungarian_step A n m k Step3 s =
    (case step3_pass A n m [0..<m] False s of
       (Some rc, _, t) \<Rightarrow> (Step4 (fst rc) (snd rc), t) | (None, z, t) \<Rightarrow> (if z then Step3 else Step5, t))"
  by (auto split: prod.splits option.splits)

context exact_arith
begin

text \<open>What holds between two steps of a run on the matrix \<open>d\<close>.\<close>

definition run_inv :: "nat \<Rightarrow> nat \<Rightarrow> 'f list \<Rightarrow> step \<Rightarrow> 'f hungarian \<Rightarrow> bool" where
  "run_inv n m d c s \<longleftrightarrow> hungarian_inv n m (min n m) c s \<and> exact_inv n m d s \<and>
     (case c of Step3 \<Rightarrow> card (stars n m s) < min n m | Step5 \<Rightarrow> card (stars n m s) < min n m
        | Path _ _ \<Rightarrow> newstars n m s \<subseteq> stars n m s \<union> primes n m s | _ \<Rightarrow> True)"

lemma dual_grown:
  assumes "dual n m d s u v V" and "distMatrix t = distMatrix s"
    and "fst ` stars n m s \<subseteq> fst ` stars n m t" and "snd ` stars n m s \<subseteq> snd ` stars n m t"
  shows "dual n m d t u v V"
proof -
  have unstarred: "r \<notin> fst ` stars n m s" if "r \<notin> fst ` stars n m t" for r using that assms(3) by blast
  moreover have "c \<notin> snd ` stars n m s" if "c \<notin> snd ` stars n m t" for c using that assms(4) by blast
  ultimately show ?thesis using assms(1) unfolding dual_def assms(2) by (intro conjI) blast+
qed

lemma exact_inv_kept:
  assumes "exact_inv n m d s" and "kept A n m s t"
  shows "exact_inv n m d t"
proof -
  have "zeros n m t (stars n m t \<union> primes n m t)"
    using assms unfolding exact_inv_def zeros_def kept_def by auto
  then show ?thesis using assms unfolding exact_inv_def dual_def kept_def by auto
qed

lemma run_inv_Step4:
  assumes "run_inv n m d (Step4 r c) s"
  shows "run_inv n m d (fst (hungarian_step A n m (min n m) (Step4 r c) s)) (snd (hungarian_step A n m (min n m) (Step4 r c) s))"
proof -
  have free: "free_prime n m r c s" using assms by (simp add: run_inv_def hungarian_inv_def)
  then have rc: "r < n" "c < m" "(r, c) \<in> primes n m s" and lens: "lens n m s" by (simp_all add: free_prime_def covering_def)
  have "marks n m (put n r c True (starMatrix s)) = insert (r, c) (stars n m s)"
    by (rule marks_put(1)) (use rc lensD [OF lens] in auto)
  moreover have "exact_inv n m d (s\<lparr>newStarMatrix := N\<rparr>)" for N
    using assms by (simp add: run_inv_def exact_inv_def dual_def zeros_def)
  ultimately show ?thesis
    using rc inv_Step4 [of n m "min n m" r c s] assms by (simp add: run_inv_def)
qed

lemma run_inv_Path:
  assumes "run_inv n m d (Path y c) s"
  shows "run_inv n m d (fst (hungarian_step A n m (min n m) (Path y c) s)) (snd (hungarian_step A n m (min n m) (Path y c) s))"
proof (cases "y < n")
  case True
  have inv: "hungarian_inv n m (min n m) (Path y c) s" and sub: "newstars n m s \<subseteq> stars n m s \<union> primes n m s" and E: "exact_inv n m d s"
    using assms by (simp_all add: run_inv_def)
  have lens: "lens n m s" and path: "\<exists>rank. on_path rank (stars n m s) (newstars n m s) y c" and y: "y \<in> crows n s"
    using inv True by (auto simp: hungarian_inv_def covering_def)
  define p where "p = first_index (elt n (primeMatrix s) y) m"
  note next_inv = inv_Path_next [OF inv True, folded p_def]
  then have p: "p < m" by blast
  have "elt n (primeMatrix s) y p" using first_index_less [of "elt n (primeMatrix s) y" m] p by (simp add: p_def)
  then have yp: "(y, p) \<in> primes n m s" using True p by (simp add: marks_def)
  have c: "c < m" using path by (auto simp: on_path_def dest: marks_sub)
  let ?N = "put n y p True (put n y c False (newStarMatrix s))"
  have N: "marks n m ?N = insert (y, p) (newstars n m s - {(y, c)})"
    using marks_put(1) [of "put n y c False (newStarMatrix s)" n m y p] marks_put(2) [of "newStarMatrix s" n m y c] lensD [OF lens] True c p by simp
  have "exact_inv n m d (s\<lparr>newStarMatrix := ?N\<rparr>)"
    using E by (simp add: exact_inv_def dual_def zeros_def)
  moreover have "marks n m ?N \<subseteq> stars n m s \<union> primes n m s" unfolding N using sub yp by auto
  ultimately show ?thesis using next_inv True p by (simp add: run_inv_def Let_def flip: p_def)
next
  case False
  have inv: "hungarian_inv n m (min n m) (Path y c) s" and sub: "newstars n m s \<subseteq> stars n m s \<union> primes n m s"
    using assms by (simp_all add: run_inv_def)
  obtain u v V where dual: "dual n m d s u v V" and Z: "zeros n m s (stars n m s \<union> primes n m s)"
    using assms by (auto simp: run_inv_def exact_inv_def)
  let ?t = "s\<lparr>primeMatrix := replicate (length (primeMatrix s)) False, starMatrix := newStarMatrix s,
      coveredRows := replicate (length (coveredRows s)) False\<rparr>"
  have g: "hungarian_inv n m (min n m) Step2a ?t" "grown (stars n m s) (newstars n m s)"
    using inv_Path_end [OF inv False] by simp_all
  then have "primes n m ?t = {}" by (simp add: hungarian_inv_def clear_def)
  then have "zeros n m ?t (stars n m ?t \<union> primes n m ?t)"
    using zeros_subset [OF Z sub] by (simp add: zeros_def)
  moreover have "dual n m d ?t u v V"
    by (rule dual_grown [OF dual]) (use g(2) in \<open>simp_all add: grown_def\<close>)
  ultimately have "exact_inv n m d ?t" unfolding exact_inv_def by blast
  then show ?thesis using g(1) False by (simp add: run_inv_def)
qed

lemma run_inv_step:
  assumes "run_inv n m d c s"
  shows "run_inv n m d (fst (hungarian_step A n m (min n m) c s)) (snd (hungarian_step A n m (min n m) c s))"
proof (cases c)
  case Step2a
  have "exact_inv n m d (cover_starred n m s)"
    using assms by (simp add: run_inv_def exact_inv_def dual_def zeros_def cover_starred_def)
  then show ?thesis using inv_Step2a [of n m "min n m" s] assms Step2a by (simp add: run_inv_def)
next
  case Step2b
  have s: "clear n m s" "ccols m s = snd ` stars n m s" using assms Step2b by (simp_all add: run_inv_def hungarian_inv_def)
  have "card (stars n m s) = card (ccols m s)" using s by (simp add: clear_def matching_card)
  moreover have "exact_inv n m d (buildassignmentvector n m s)"
    using assms by (simp add: run_inv_def exact_inv_def dual_def zeros_def buildassignmentvector_def)
  ultimately show ?thesis
    using inv_Step2b [of n m "min n m" s] assms Step2b clear_card_le [OF s(1)] by (auto simp: run_inv_def length_filter_set_of)
next
  case Step3
  obtain p z t where eq: "step3_pass A n m [0..<m] False s = (p, z, t)" by (metis prod_cases3)
  have cols: "set [0..<m] \<subseteq> {..<m}" by auto
  have s: "cov3 n m s" using assms Step3 by (simp add: run_inv_def hungarian_inv_def)
  have kept: "kept A n m s t"
  proof (cases p)
    case None
    with eq step3_pass_None [OF _ s cols] show ?thesis by blast
  next
    case (Some rc)
    then have "p = Some (fst rc, snd rc)" by simp
    with eq step3_pass_Some [OF _ s cols] show ?thesis by blast
  qed
  have "exact_inv n m d t" by (rule exact_inv_kept [OF _ kept]) (use assms in \<open>simp add: run_inv_def\<close>)
  moreover have "stars n m t = stars n m s" using kept by (simp add: kept_def)
  ultimately show ?thesis
    using inv_Step3 [of n m "min n m" s A] assms Step3 eq unfolding hungarian_step3_eq by (auto simp: run_inv_def split: option.splits)
next
  case (Step4 r e)
  with assms show ?thesis using run_inv_Step4 by simp
next
  case (Path y e)
  with assms show ?thesis using run_inv_Path by blast
next
  case Step5
  then show ?thesis using assms exact_step5 [of n m s d] cov3_step5 [of n m s A] by (simp add: run_inv_def hungarian_inv_def)
qed (use assms in simp_all)

end

context exact_arith
begin

abbreviation halts :: "nat \<Rightarrow> nat \<Rightarrow> step \<Rightarrow> 'f hungarian \<Rightarrow> bool" where
  "halts n m c s \<equiv> hungarian_run A n m (min n m) c s \<noteq> None"

lemma halts_Path:
  assumes "\<And>t. run_inv n m d Step2a t \<Longrightarrow> card (stars n m t) = Suc g \<Longrightarrow> halts n m Step2a t"
    and "run_inv n m d (Path y c) s" and "card (stars n m s) = g"
    and "y < n \<longrightarrow> ranked n m s rank \<and> on_path rank (stars n m s) (newstars n m s) y c"
  shows "halts n m (Path y c) s"
  using assms(2-4)
proof (induction "rank y" arbitrary: y c s rule: less_induct)
  case less
  note step = hungarian_run_step [of "Path y c" A n m "min n m" s] and inv = run_inv_Path [OF less.prems(1)]
  show ?case
  proof (cases "y < n")
    case True
    have hinv: "hungarian_inv n m (min n m) (Path y c) s" using less.prems(1) by (simp add: run_inv_def)
    define p where "p = first_index (elt n (primeMatrix s) y) m"
    define q where "q = first_index (\<lambda>r. elt n (starMatrix s) r p) n"
    define t where "t = s\<lparr>newStarMatrix := put n y p True (put n y c False (newStarMatrix s))\<rparr>"
    note nxt = inv_Path_next [OF hinv True, folded p_def, folded q_def t_def]
    have eq: "hungarian_step A n m (min n m) (Path y c) s = (Path q p, t)"
      using True nxt by (simp add: Let_def q_def t_def flip: p_def)
    have "ranked n m t rank" using less.prems(3) True by (simp add: t_def ranked_def)
    moreover have "card (stars n m t) = g" using less.prems(2) by (simp add: t_def)
    ultimately have "halts n m (Path q p) t" if "q < n"
      using less.hyps [of q p t] nxt less.prems(3) True inv that unfolding eq by simp
    moreover have "halts n m (Path q p) t" if "\<not> q < n"
    proof -
      have run: "run_inv n m d (Path q p) t" using inv unfolding eq by simp
      then have "hungarian_inv n m (min n m) (Path q p) t" by (simp add: run_inv_def)
      from inv_Path_end [OF this that] run_inv_Path [OF run] that assms(1) \<open>card (stars n m t) = g\<close>
      show ?thesis using hungarian_run_step [of "Path q p" A n m "min n m" t] by (simp add: grown_def)
    qed
    ultimately show ?thesis using step unfolding eq by auto
  next
    case False
    have "hungarian_inv n m (min n m) (Path y c) s" using less.prems(1) by (simp add: run_inv_def)
    from inv_Path_end [OF this False] inv False assms(1) less.prems(2) show ?thesis using step by (simp add: grown_def)
  qed
qed

lemma halts_Step4:
  assumes "\<And>t. run_inv n m d Step2a t \<Longrightarrow> card (stars n m t) = Suc g \<Longrightarrow> halts n m Step2a t"
    and "run_inv n m d (Step4 r c) s" and "card (stars n m s) = g"
  shows "halts n m (Step4 r c) s"
proof -
  let ?y = "first_index (\<lambda>y. elt n (starMatrix s) y c) n" and ?t = "s\<lparr>newStarMatrix := put n r c True (starMatrix s)\<rparr>"
  have eq: "hungarian_step A n m (min n m) (Step4 r c) s = (Path ?y c, ?t)" by simp
  have inv: "run_inv n m d (Path ?y c) ?t" using run_inv_Step4 [OF assms(2)] unfolding eq by simp
  then have "?y < n \<longrightarrow> (\<exists>rank. ranked n m ?t rank \<and> on_path rank (stars n m ?t) (newstars n m ?t) ?y c)"
    by (auto simp: run_inv_def hungarian_inv_def)
  then obtain rank where "?y < n \<longrightarrow> ranked n m ?t rank \<and> on_path rank (stars n m ?t) (newstars n m ?t) ?y c" by blast
  then have "halts n m (Path ?y c) ?t"
    using halts_Path [OF assms(1) inv, of g rank] assms(3) by simp
  then show ?thesis using hungarian_run_step [of "Step4 r c" A n m "min n m" s] unfolding eq by simp
qed

text \<open>A pass of step 3 that finds a zero ends step 3 or covers another row.\<close>

lemma halts_progress:
  assumes path: "\<And>t. run_inv n m d Step2a t \<Longrightarrow> card (stars n m t) = Suc g \<Longrightarrow> halts n m Step2a t"
    and IH: "\<And>t. run_inv n m d Step3 t \<Longrightarrow> card (stars n m t) = g \<Longrightarrow> crows n s \<subset> crows n t \<Longrightarrow> halts n m Step3 t"
    and s: "run_inv n m d Step3 s" "card (stars n m s) = g"
    and found: "(r, c) \<in> set (uncovered n m s)" "f_tiny A (elt n (distMatrix s) r c)"
  shows "halts n m Step3 s"
proof -
  obtain p z t where eq: "step3_pass A n m [0..<m] False s = (p, z, t)" by (metis prod_cases3)
  have cols: "set [0..<m] \<subseteq> {..<m}" by auto
  have cov: "cov3 n m s" using s(1) by (simp add: run_inv_def hungarian_inv_def)
  note inv = run_inv_step [OF s(1)] and step = hungarian_run_step [of Step3 A n m "min n m" s]
  show ?thesis
  proof (cases p)
    case (Some rc)
    then have "p = Some (fst rc, snd rc)" by simp
    with eq have "step3_pass A n m [0..<m] False s = (Some (fst rc, snd rc), z, t)" by simp
    from step3_pass_Some [OF this cov cols] have "card (stars n m t) = g" using s(2) by (simp add: kept_def)
    moreover have st: "hungarian_step A n m (min n m) Step3 s = (Step4 (fst rc) (snd rc), t)"
      unfolding hungarian_step3_eq eq Some by simp
    ultimately have "halts n m (Step4 (fst rc) (snd rc)) t"
      using halts_Step4 [OF path] inv unfolding st by simp
    then show ?thesis using step unfolding st by simp
  next
    case None
    with eq have eq': "step3_pass A n m [0..<m] False s = (None, z, t)" by simp
    note pass = step3_pass_None [OF eq' cov cols]
    have "z" using pass found by (auto simp: set_uncovered)
    then have st: "hungarian_step A n m (min n m) Step3 s = (Step3, t)" unfolding hungarian_step3_eq eq' by simp
    have "card (stars n m t) = g" "crows n s \<subset> crows n t" using pass \<open>z\<close> s(2) by (simp_all add: kept_def)
    then have "halts n m Step3 t" using IH inv unfolding st by simp
    then show ?thesis using step unfolding st by simp
  qed
qed

lemma halts_Step3:
  assumes path: "\<And>t. run_inv n m d Step2a t \<Longrightarrow> card (stars n m t) = Suc g \<Longrightarrow> halts n m Step2a t"
    and "run_inv n m d Step3 s" and "card (stars n m s) = g"
  shows "halts n m Step3 s"
  using assms(2,3)
proof (induction "n - card (crows n s)" arbitrary: s rule: less_induct)
  case less
  have rows: "card (crows n t) \<le> n" for t :: "'f hungarian"
    using card_mono [of "{..<n}" "crows n t"] by (auto simp: set_of_def)
  have IH: "halts n m Step3 t" if "run_inv n m d Step3 t" "card (stars n m t) = g" "crows n s \<subset> crows n t" for t
  proof (rule less.hyps [OF _ that(1,2)])
    show "n - card (crows n t) < n - card (crows n s)" using psubset_card_mono [OF _ that(3)] rows [of t] by simp
  qed
  show ?case
  proof (cases "\<exists>r c. (r, c) \<in> set (uncovered n m s) \<and> f_tiny A (elt n (distMatrix s) r c)")
    case True
    then show ?thesis using halts_progress [OF path IH less.prems] by blast
  next
    case False
    obtain p z t where eq: "step3_pass A n m [0..<m] False s = (p, z, t)" by (metis prod_cases3)
    have cols: "set [0..<m] \<subseteq> {..<m}" by auto
    have cov: "cov3 n m s" and few: "card (stars n m s) < min n m" and E: "exact_inv n m d s"
      using less.prems(1) by (simp_all add: run_inv_def hungarian_inv_def)
    have "step3_pass A n m [0..<m] False s = (None, False, s)"
      by (rule step3_pass_idle [OF cov _ cols]) (use False in \<open>auto simp: set_uncovered\<close>)
    then have st: "hungarian_step A n m (min n m) Step3 s = (Step5, s)" unfolding hungarian_step3_eq by simp
    then have five: "run_inv n m d Step5 s" using run_inv_step [OF less.prems(1)] by simp
    then have three: "run_inv n m d Step3 (step5 A n m s)" using run_inv_step [OF five] by simp
    obtain r c where rc: "(r, c) \<in> set (uncovered n m (step5 A n m s))" "f_tiny A (elt n (distMatrix (step5 A n m s)) r c)"
      using exact_step5 [OF cov few E] by (auto simp: set_uncovered)
    have "halts n m Step3 (step5 A n m s)"
      by (rule halts_progress [OF path _ three _ rc]) (use IH less.prems(2) in auto)
    then show ?thesis
      using hungarian_run_step [of Step3 A n m "min n m" s] hungarian_run_step [of Step5 A n m "min n m" s] st by simp
  qed
qed

lemma run_inv_halts: "run_inv n m d Step2b s \<Longrightarrow> halts n m Step2b s"
proof (induction "min n m - card (stars n m s)" arbitrary: s rule: less_induct)
  case less
  show ?case
  proof (cases "hungarian_step A n m (min n m) Step2b s")
    case (Pair c t)
    then consider "c = Finished" | "c = Step3" "t = s" by (auto split: if_splits)
    then show ?thesis
    proof cases
      case 1
      then show ?thesis using hungarian_run_step [of Step2b A n m "min n m" s] Pair by (simp add: hungarian_run_Finished)
    next
      case 2
      have three: "run_inv n m d Step3 s" using run_inv_step [OF less.prems] Pair 2 by simp
      have "halts n m Step2a t" if t: "run_inv n m d Step2a t" "card (stars n m t) = Suc (card (stars n m s))" for t
      proof -
        have inv: "run_inv n m d Step2b (cover_starred n m t)" using run_inv_step [OF t(1)] by simp
        have "stars n m (cover_starred n m t) = stars n m t" by (simp add: cover_starred_def)
        then have "card (stars n m s) < card (stars n m (cover_starred n m t))" using t(2) by simp
        moreover have "card (stars n m s) < min n m" using three by (simp add: run_inv_def)
        ultimately have "min n m - card (stars n m (cover_starred n m t)) < min n m - card (stars n m s)"
          by (rule diff_less_mono2)
        from less.hyps [OF this inv] show ?thesis using hungarian_run_step [of Step2a A n m "min n m" t] by simp
      qed
      then have "halts n m Step3 s" by (rule halts_Step3 [OF _ three refl])
      then show ?thesis using hungarian_run_step [of Step2b A n m "min n m" s] Pair 2 by simp
    qed
  qed
qed

end

end
