(* ===== verification/Hungarian_Optimum.thy ===== *)
theory Hungarian_Optimum
  imports Hungarian_Optimal
begin

text \<open>
  The run of the assignment solver from the given matrix to its result, in exact arithmetic: the
  preliminary steps establish the invariant of \<open>Hungarian_Optimal\<close>, and a complete assignment whose
  elements are all zero in the reduced matrix is the cheapest one.
\<close>

subsection \<open>Preliminary steps\<close>

lemma elt_reduce_row:
  assumes "length d = n * m" and "row < n" and "r < n" "c < m"
  shows "elt n (reduce_row A n m row d) r c =
    (if r = row then f_sub A (elt n d r c) (min_value A (map (elt n d row) [0..<m])) else elt n d r c)"
  using elt_fold_put_col [OF assms(1,2), of "[0..<m]" r c "\<lambda>x. f_sub A x (min_value A (map (elt n d row) [0..<m]))"] assms(3,4)
  by (simp add: reduce_row_def Let_def atLeast0LessThan)

lemma elt_reduce_column:
  assumes "length d = n * m" and "col < m" and "r < n" "c < m"
  shows "elt n (reduce_column A n col d) r c =
    (if c = col then f_sub A (elt n d r c) (min_value A (map (\<lambda>row. elt n d row col) [0..<n])) else elt n d r c)"
  using elt_fold_put_row [OF assms(1,2), of "[0..<n]" r c "\<lambda>x. f_sub A x (min_value A (map (\<lambda>row. elt n d row col) [0..<n]))"] assms(3,4)
  by (simp add: reduce_column_def Let_def atLeast0LessThan)

lemma elt_reduce_rows:
  assumes "length d = n * m" and "r < n" "c < m"
  shows "elt n (fold (reduce_row A n m) [0..<n] d) r c = f_sub A (elt n d r c) (min_value A (map (elt n d r) [0..<m]))"
proof -
  let ?P = "\<lambda>i e. length e = n * m \<and> (\<forall>r<n. \<forall>c<m. elt n e r c =
    (if r < i then f_sub A (elt n d r c) (min_value A (map (elt n d r) [0..<m])) else elt n d r c))"
  have "?P n (fold (reduce_row A n m) [0..<n] d)"
  proof (rule fold_upto_induct [where P = ?P])
    show "?P 0 d" using assms(1) by simp
  next
    fix i e assume i: "i < n" and P: "?P i e"
    then have "map (elt n e i) [0..<m] = map (elt n d i) [0..<m]" by simp
    from arg_cong [OF this, of "min_value A"] i P elt_reduce_row [of e n m i _ _ A] show "?P (Suc i) (reduce_row A n m i e)"
      by (auto simp: less_Suc_eq)
  qed
  then show ?thesis using assms(2,3) by simp
qed

lemma elt_reduce_columns:
  assumes "length d = n * m" and "r < n" "c < m"
  shows "elt n (fold (reduce_column A n) [0..<m] d) r c = f_sub A (elt n d r c) (min_value A (map (\<lambda>row. elt n d row c) [0..<n]))"
proof -
  let ?P = "\<lambda>i e. length e = n * m \<and> (\<forall>r<n. \<forall>c<m. elt n e r c =
    (if c < i then f_sub A (elt n d r c) (min_value A (map (\<lambda>row. elt n d row c) [0..<n])) else elt n d r c))"
  have "?P m (fold (reduce_column A n) [0..<m] d)"
  proof (rule fold_upto_induct [where P = ?P])
    show "?P 0 d" using assms(1) by simp
  next
    fix i e assume i: "i < m" and P: "?P i e"
    then have "map (\<lambda>row. elt n e row i) [0..<n] = map (\<lambda>row. elt n d row i) [0..<n]" by simp
    from arg_cong [OF this, of "min_value A"] i P elt_reduce_column [of e n m i _ _ A] show "?P (Suc i) (reduce_column A n i e)"
      by (auto simp: less_Suc_eq)
  qed
  then show ?thesis using assms(2,3) by simp
qed

text \<open>Only zeros are starred.\<close>

definition tiny_stars :: "'f arith \<Rightarrow> nat \<Rightarrow> nat \<Rightarrow> 'f list \<Rightarrow> 'f hungarian \<Rightarrow> bool" where
  "tiny_stars A n m d s \<longleftrightarrow> distMatrix s = d \<and> length (starMatrix s) = n * m \<and>
     (\<forall>r c. (r, c) \<in> stars n m s \<longrightarrow> f_tiny A (elt n d r c))"

lemma tiny_stars_put:
  assumes "tiny_stars A n m d s" and "r < n" "c < m" and "f_tiny A (elt n d r c)"
    and "distMatrix t = d" and "starMatrix t = put n r c True (starMatrix s)"
  shows "tiny_stars A n m d t"
  using assms marks_put(1) [of "starMatrix s" n m r c] by (auto simp: tiny_stars_def)

lemma tiny_stars_init: "length d = n * m \<Longrightarrow> tiny_stars A n m d (hungarian_init n m d)"
  by (simp add: tiny_stars_def hungarian_init_def)

lemma star_row_tiny:
  assumes "row < n" and "tiny_stars A n m d s"
  shows "tiny_stars A n m d (star_row A n m row s)"
proof (cases rule: first_index_cases [of "\<lambda>c. f_tiny A (elt n (distMatrix s) row c) \<and> \<not> coveredColumns s ! c" m])
  case none
  then show ?thesis using assms(2) by (simp add: star_row_def Let_def)
next
  case found
  show ?thesis
    by (rule tiny_stars_put [OF assms(2,1) found(1)]) (use found assms(2) in \<open>simp_all add: star_row_def Let_def tiny_stars_def\<close>)
qed

lemma star_column_tiny:
  assumes "col < m" and "tiny_stars A n m d s"
  shows "tiny_stars A n m d (star_column A n col s)"
proof (cases rule: first_index_cases [of "\<lambda>r. f_tiny A (elt n (distMatrix s) r col) \<and> \<not> coveredRows s ! r" n])
  case none
  then show ?thesis using assms(2) by (simp add: star_column_def Let_def)
next
  case found
  show ?thesis
    by (rule tiny_stars_put [OF assms(2) found(1) assms(1)]) (use found assms(2) in \<open>simp_all add: star_column_def Let_def tiny_stars_def\<close>)
qed

lemma prepare_tiny:
  assumes "length d = n * m"
  shows "tiny_stars A n m (if n \<le> m then fold (reduce_row A n m) [0..<n] d else fold (reduce_column A n) [0..<m] d) (hungarian_prepare A n m d)"
proof (cases "n \<le> m")
  case True
  let ?d = "fold (reduce_row A n m) [0..<n] d"
  have "tiny_stars A n m ?d (fold (star_row A n m) [0..<n] (hungarian_init n m ?d))"
    by (rule fold_upto_induct [where P = "\<lambda>i. tiny_stars A n m ?d"])
      (use assms star_row_tiny in \<open>auto intro: tiny_stars_init simp: length_fold_reduce\<close>)
  with True show ?thesis by (simp add: hungarian_prepare_def)
next
  case False
  let ?d = "fold (reduce_column A n) [0..<m] d"
  have "tiny_stars A n m ?d (fold (star_column A n) [0..<m] (hungarian_init n m ?d))"
    by (rule fold_upto_induct [where P = "\<lambda>i. tiny_stars A n m ?d"])
      (use assms star_column_tiny in \<open>auto intro: tiny_stars_init simp: length_fold_reduce\<close>)
  with False show ?thesis by (simp add: hungarian_prepare_def tiny_stars_def)
qed

subsection \<open>The invariant holds before the first step\<close>

context exact_arith
begin

lemma rows_reduced:
  assumes "length d = n * m" and fin: "\<And>r c. r < n \<Longrightarrow> c < m \<Longrightarrow> fin (elt n d r c)" and "r < n" "c < m"
  defines "u \<equiv> \<lambda>r. val (min_value A (map (elt n d r) [0..<m]))"
  shows "fin (elt n (fold (reduce_row A n m) [0..<n] d) r c) \<and> u r \<le> val (elt n d r c) \<and>
    val (elt n (fold (reduce_row A n m) [0..<n] d) r c) = val (elt n d r c) - u r"
proof -
  let ?x = "min_value A (map (elt n d r) [0..<m])"
  have "map (elt n d r) [0..<m] \<noteq> []" "\<And>y. y \<in> set (map (elt n d r) [0..<m]) \<Longrightarrow> fin y" using assms by auto
  from min_value_le [OF this] have x: "fin ?x" "val ?x \<le> val (elt n d r c)" using assms(4) by auto
  show ?thesis
    unfolding elt_reduce_rows [OF assms(1,3,4)] using val_sub [OF fin [OF assms(3,4)] x(1)] x(2) by (simp add: u_def)
qed

lemma columns_reduced:
  assumes "length d = n * m" and fin: "\<And>r c. r < n \<Longrightarrow> c < m \<Longrightarrow> fin (elt n d r c)" and "r < n" "c < m"
  defines "v \<equiv> \<lambda>c. val (min_value A (map (\<lambda>row. elt n d row c) [0..<n]))"
  shows "fin (elt n (fold (reduce_column A n) [0..<m] d) r c) \<and> v c \<le> val (elt n d r c) \<and>
    val (elt n (fold (reduce_column A n) [0..<m] d) r c) = val (elt n d r c) - v c"
proof -
  let ?x = "min_value A (map (\<lambda>row. elt n d row c) [0..<n])"
  have "map (\<lambda>row. elt n d row c) [0..<n] \<noteq> []" "\<And>y. y \<in> set (map (\<lambda>row. elt n d row c) [0..<n]) \<Longrightarrow> fin y" using assms by auto
  from min_value_le [OF this] have x: "fin ?x" "val ?x \<le> val (elt n d r c)" using assms(3) by auto
  show ?thesis
    unfolding elt_reduce_columns [OF assms(1,3,4)] using val_sub [OF fin [OF assms(3,4)] x(1)] x(2) by (simp add: v_def)
qed

lemma prepare_run_inv:
  assumes len: "length d = n * m" and fin: "\<And>r c. r < n \<Longrightarrow> c < m \<Longrightarrow> fin (elt n d r c)"
  shows "run_inv n m d Step2b (hungarian_prepare A n m d)"
proof -
  let ?s = "hungarian_prepare A n m d"
  let ?d = "if n \<le> m then fold (reduce_row A n m) [0..<n] d else fold (reduce_column A n) [0..<m] d"
  have inv: "hungarian_inv n m (min n m) Step2b ?s" by (rule prepare_inv [OF len])
  have tiny: "distMatrix ?s = ?d" "\<forall>r c. (r, c) \<in> stars n m ?s \<longrightarrow> f_tiny A (elt n ?d r c)"
    using prepare_tiny [OF len, of A] by (simp_all add: tiny_stars_def)
  have "primes n m ?s = {}" using inv by (simp add: hungarian_inv_def clear_def)
  then have "zeros n m ?s (stars n m ?s \<union> primes n m ?s)" using tiny by (simp add: zeros_def)
  moreover have "\<exists>u v V. dual n m d ?s u v V"
  proof (cases "n \<le> m")
    case True
    then have "dual n m d ?s (\<lambda>r. val (min_value A (map (elt n d r) [0..<m]))) (\<lambda>c. 0) 0"
      using rows_reduced [OF len fin] tiny(1) by (simp add: dual_def)
    then show ?thesis by blast
  next
    case False
    then have "dual n m d ?s (\<lambda>r. 0) (\<lambda>c. val (min_value A (map (\<lambda>row. elt n d row c) [0..<n]))) 0"
      using columns_reduced [OF len fin] tiny(1) by (simp add: dual_def)
    then show ?thesis by blast
  qed
  ultimately show ?thesis using inv by (simp add: run_inv_def exact_inv_def)
qed

text \<open>The invariant still holds where the run ends.\<close>

lemma run_keeps:
  assumes "hungarian_run B n m k c s = Some y"
  shows "B = A \<longrightarrow> k = min n m \<longrightarrow> run_inv n m d c s \<longrightarrow> run_inv n m d (fst y) (snd y)"
proof (rule hungarian_run.raw_induct [OF _ assms], goal_cases)
  case (1 run B n m k c s y)
  show ?case
  proof (cases "c = Finished \<or> c = Fault")
    case True
    then show ?thesis using 1(2) by auto
  next
    case False
    then have "run B n m k (fst (hungarian_step B n m k c s)) (snd (hungarian_step B n m k c s)) = Some y" using 1(2) by simp
    with 1(1) show ?thesis using run_inv_step [of n m d c s] by blast
  qed
qed

end

subsection \<open>Weak duality\<close>

lemma sum_outside_le:
  fixes v :: "nat \<Rightarrow> rat"
  assumes "I \<subseteq> {..<m}" and "J \<subseteq> {..<m}" and "card I = card J"
    and "\<And>c. c < m \<Longrightarrow> v c \<le> V" and "\<And>c. c < m \<Longrightarrow> c \<notin> I \<Longrightarrow> v c = V"
  shows "sum v I \<le> sum v J"
proof -
  have fin: "finite I" "finite J" using assms(1,2) by (auto intro: finite_subset)
  have "sum v ({..<m} - J) \<le> sum (\<lambda>_. V) ({..<m} - J)" by (rule sum_mono) (use assms(4) in simp)
  also have "\<dots> = sum (\<lambda>_. V) ({..<m} - I)" using assms(1-3) fin by (simp add: card_Diff_subset)
  also have "\<dots> = sum v ({..<m} - I)" by (rule sum.cong) (use assms(5) in simp_all)
  finally show ?thesis
    using sum_diff [OF finite_lessThan assms(1), of v] sum_diff [OF finite_lessThan assms(2), of v] by simp
qed

lemma matching_sums:
  fixes w :: "nat \<times> nat \<Rightarrow> rat"
  assumes "matching S"
  shows "(\<Sum>p\<in>S. w p + f (fst p) + g (snd p)) = sum w S + sum f (fst ` S) + sum g (snd ` S)"
  using assms by (simp add: sum.distrib matching_def sum.reindex comp_def)

lemma matching_covers:
  assumes "matching S" and "S \<subseteq> {..<n} \<times> {..<m}" and "card S = min n m"
  shows "n \<le> m \<Longrightarrow> fst ` S = {..<n}" and "m \<le> n \<Longrightarrow> snd ` S = {..<m}"
proof -
  have "fst ` S \<subseteq> {..<n}" "snd ` S \<subseteq> {..<m}" using assms(2) by auto
  then show "n \<le> m \<Longrightarrow> fst ` S = {..<n}" "m \<le> n \<Longrightarrow> snd ` S = {..<m}"
    using matching_card [OF assms(1)] assms(3) by (simp_all add: card_subset_eq)
qed

lemma stars_within: "stars n m s \<subseteq> {..<n} \<times> {..<m}"
  by (auto simp: marks_def)

context exact_arith
begin

lemma stars_optimal:
  assumes dual: "dual n m d s u v V" and tiny: "zeros n m s (stars n m s)"
    and S: "matching (stars n m s)" "card (stars n m s) = min n m"
    and T: "matching T" "T \<subseteq> {..<n} \<times> {..<m}" "card T = min n m"
  shows "(\<Sum>p\<in>stars n m s. val (elt n d (fst p) (snd p))) \<le> (\<Sum>p\<in>T. val (elt n d (fst p) (snd p))) + of_nat (min n m) * eps"
proof -
  let ?S = "stars n m s" and ?w = "\<lambda>p. val (elt n (distMatrix s) (fst p) (snd p))"
  have eq: "(\<Sum>p\<in>X. val (elt n d (fst p) (snd p))) = sum ?w X + sum u (fst ` X) + sum v (snd ` X)"
    if "matching X" "X \<subseteq> {..<n} \<times> {..<m}" for X
  proof -
    have "(\<Sum>p\<in>X. val (elt n d (fst p) (snd p))) = (\<Sum>p\<in>X. ?w p + u (fst p) + v (snd p))"
      by (rule sum.cong) (use that(2) dual_eq [OF dual] in auto)
    then show ?thesis using matching_sums [OF that(1)] by simp
  qed
  have card: "card (fst ` ?S) = card (fst ` T)" "card (snd ` ?S) = card (snd ` T)"
    using matching_card [OF S(1)] matching_card [OF T(1)] S(2) T(3) by simp_all
  have within: "fst ` ?S \<subseteq> {..<n}" "snd ` ?S \<subseteq> {..<m}" "fst ` T \<subseteq> {..<n}" "snd ` T \<subseteq> {..<m}"
    using T(2) by (auto simp: marks_def)
  have pot: "sum u (fst ` ?S) + sum v (snd ` ?S) \<le> sum u (fst ` T) + sum v (snd ` T)"
  proof (cases "n \<le> m")
    case True
    then have "fst ` ?S = fst ` T" using matching_covers(1) [OF S(1) stars_within S(2)] matching_covers(1) [OF T] by simp
    moreover have "sum v (snd ` ?S) \<le> sum v (snd ` T)"
      by (rule sum_outside_le [OF within(2,4) card(2)]) (use dual True in \<open>simp_all add: dual_def\<close>)
    ultimately show ?thesis by simp
  next
    case False
    then have "snd ` ?S = snd ` T" using matching_covers(2) [OF S(1) stars_within S(2)] matching_covers(2) [OF T] by simp
    moreover have "sum u (fst ` ?S) \<le> sum u (fst ` T)"
      by (rule sum_outside_le [OF within(1,3) card(1), of _ 0]) (use dual False in \<open>simp_all add: dual_def\<close>)
    ultimately show ?thesis by simp
  qed
  have "sum ?w ?S \<le> sum (\<lambda>_. eps) ?S"
  proof (rule sum_mono)
    fix p assume p: "p \<in> ?S"
    then have "f_tiny A (elt n (distMatrix s) (fst p) (snd p))" "fst p < n" "snd p < m"
      using tiny unfolding zeros_def by (force simp: marks_def)+
    then show "?w p \<le> eps" using val_tiny [OF dual_fin [OF dual]] by force
  qed
  then have "sum ?w ?S \<le> of_nat (min n m) * eps" using S(2) by simp
  moreover have "0 \<le> sum ?w T" by (rule sum_nonneg) (use T(2) dual_nonneg [OF dual] in auto)
  ultimately show ?thesis using pot eq [OF S(1) stars_within] eq [OF T(1,2)] by linarith
qed

end

subsection \<open>The cost of an assignment\<close>

definition given_pairs :: "nat \<Rightarrow> int list \<Rightarrow> (nat \<times> nat) set" where
  "given_pairs n asg = {(r, nat (asg ! r)) |r. r < n \<and> asg ! r \<noteq> -1}"

definition assignment_total :: "nat \<Rightarrow> int list \<Rightarrow> (nat \<Rightarrow> nat \<Rightarrow> rat) \<Rightarrow> rat" where
  "assignment_total n asg w = (\<Sum>r\<leftarrow>[0..<n]. if asg ! r = -1 then 0 else w r (nat (asg ! r)))"

lemma given_pairs_image: "given_pairs n asg = (\<lambda>r. (r, nat (asg ! r))) ` {r. r < n \<and> asg ! r \<noteq> -1}"
  by (auto simp: given_pairs_def)

lemma assignment_total_sum: "assignment_total n asg w = (\<Sum>p\<in>given_pairs n asg. w (fst p) (snd p))"
proof -
  have "assignment_total n asg w = (\<Sum>r\<in>{r. r < n \<and> asg ! r \<noteq> -1}. w r (nat (asg ! r)))"
    unfolding assignment_total_def interv_sum_list_conv_sum_set_nat
    by (rule sum.mono_neutral_cong_right) auto
  also have "\<dots> = (\<Sum>p\<in>given_pairs n asg. w (fst p) (snd p))"
    unfolding given_pairs_image by (subst sum.reindex) (auto simp: inj_on_def)
  finally show ?thesis .
qed

lemma complete_assignment_pairs:
  assumes "complete_assignment n m asg"
  shows "matching (given_pairs n asg)" "given_pairs n asg \<subseteq> {..<n} \<times> {..<m}" "card (given_pairs n asg) = min n m"
proof -
  have len: "length asg = n" and range: "\<And>r. r < n \<Longrightarrow> asg ! r \<noteq> -1 \<Longrightarrow> 0 \<le> asg ! r \<and> asg ! r < int m"
    and inj: "\<And>r r'. r < n \<Longrightarrow> r' < n \<Longrightarrow> asg ! r = asg ! r' \<Longrightarrow> asg ! r \<noteq> -1 \<Longrightarrow> r = r'"
    and number: "length (filter (\<lambda>c. c \<noteq> -1) asg) = min n m"
    using assms unfolding complete_assignment_def by blast+
  have "r = r'" if "r < n" "r' < n" "asg ! r \<noteq> -1" "asg ! r' \<noteq> -1" "nat (asg ! r) = nat (asg ! r')" for r r'
    by (rule inj [OF that(1,2)]) (use that range in \<open>auto simp: eq_nat_nat_iff\<close>)
  then show "matching (given_pairs n asg)" by (auto simp: matching_def inj_on_def given_pairs_def)
  show "given_pairs n asg \<subseteq> {..<n} \<times> {..<m}" using range by (force simp: given_pairs_def)
  have "card (given_pairs n asg) = card {r. r < n \<and> asg ! r \<noteq> -1}"
    unfolding given_pairs_image by (rule card_image) (simp add: inj_on_def)
  also have "\<dots> = min n m" using number by (simp add: length_filter_conv_card len)
  finally show "card (given_pairs n asg) = min n m" .
qed

lemma assigns_pairs:
  assumes "assigns n (marks n m xs) asg" and "matching (marks n m xs)"
  shows "given_pairs n asg = marks n m xs"
proof -
  have row: "asg ! r = -1 \<and> r \<notin> fst ` marks n m xs \<or> (\<exists>c. (r, c) \<in> marks n m xs \<and> asg ! r = int c)" if "r < n" for r
    using assms(1) that by (simp add: assigns_def)
  show ?thesis
  proof (intro equalityI subsetI)
    fix p assume "p \<in> given_pairs n asg"
    then obtain r where r: "p = (r, nat (asg ! r))" "r < n" "asg ! r \<noteq> -1" by (auto simp: given_pairs_def)
    with row [OF r(2)] show "p \<in> marks n m xs" by auto
  next
    fix p assume p: "p \<in> marks n m xs"
    then have r: "fst p < n" by (auto simp: marks_def)
    have "fst p \<in> fst ` marks n m xs" using p by simp
    with row [OF r] obtain c where "(fst p, c) \<in> marks n m xs" "asg ! fst p = int c" by blast
    moreover from this have "c = snd p" using matching_row [OF assms(2), of "fst p"] p by (metis prod.collapse)
    ultimately show "p \<in> given_pairs n asg" using r by (auto simp: given_pairs_def intro!: exI [of _ "fst p"])
  qed
qed

context exact_arith
begin

lemma computeassignmentcost_val:
  assumes "\<And>r c. r < n \<Longrightarrow> c < m \<Longrightarrow> fin (elt n d r c)" and "\<And>r. r < n \<Longrightarrow> asg ! r = -1 \<or> 0 \<le> asg ! r \<and> asg ! r < int m"
  shows "fin (computeassignmentcost A n asg d) \<and>
    val (computeassignmentcost A n asg d) = assignment_total n asg (\<lambda>r c. val (elt n d r c))"
proof -
  let ?f = "\<lambda>row cost. let col = asg ! row in if col \<ge> 0 then f_add A cost (elt n d row (nat col)) else cost"
  let ?g = "\<lambda>r. if asg ! r = -1 then 0 else val (elt n d r (nat (asg ! r)))"
  have "k \<le> n \<Longrightarrow> fin (fold ?f [0..<k] (f_zero A)) \<and> val (fold ?f [0..<k] (f_zero A)) = (\<Sum>r\<leftarrow>[0..<k]. ?g r)" for k
  proof (induction k)
    case 0
    then show ?case by (simp add: val_const)
  next
    case (Suc k)
    then have k: "k < n" and IH: "fin (fold ?f [0..<k] (f_zero A))" "val (fold ?f [0..<k] (f_zero A)) = (\<Sum>r\<leftarrow>[0..<k]. ?g r)" by simp_all
    show ?case
    proof (cases "asg ! k = -1")
      case True
      then show ?thesis using IH by (simp add: Let_def)
    next
      case False
      then have c: "0 \<le> asg ! k" "asg ! k < int m" using assms(2) [OF k] by simp_all
      then have "fin (elt n d k (nat (asg ! k)))" by (intro assms(1) [OF k]) simp
      from val_add [OF IH(1) this] show ?thesis using IH(2) c False by (simp add: Let_def)
    qed
  qed
  from this [of n] show ?thesis by (simp add: computeassignmentcost_def assignment_total_def)
qed

lemma assignmentoptimal_exact:
  assumes len: "length d = n * m" and fin: "\<And>r c. r < n \<Longrightarrow> c < m \<Longrightarrow> fin (elt n d r c)"
  obtains cost asg where "assignmentoptimal A n m d = Ret (cost, asg) ()" "complete_assignment n m asg"
    "fin cost" "val cost = assignment_total n asg (\<lambda>r c. val (elt n d r c))"
    "\<And>other. complete_assignment n m other \<Longrightarrow> val cost \<le> assignment_total n other (\<lambda>r c. val (elt n d r c)) + of_nat (min n m) * eps"
proof -
  have start: "run_inv n m d Step2b (hungarian_prepare A n m d)" by (rule prepare_run_inv [OF len fin])
  note not_blocked = run_inv_halts [OF start]
  from len show thesis
  proof (cases rule: assignmentoptimal_cases [of d n m A])
    case 1
    with not_blocked show ?thesis by simp
  next
    case (2 s)
    have inv: "hungarian_inv n m (min n m) Finished s" by (rule 2(2))
    then have S: "matching (stars n m s)" "card (stars n m s) = min n m" "assigns n (stars n m s) (assignment s)"
      by (simp_all add: hungarian_inv_def)
    have comp: "complete_assignment n m (assignment s)" by (rule assigns_complete [OF S(3,1,2)])
    have "run_inv n m d Finished s" using run_keeps [OF 2(1)] start by simp
    then obtain u v V where dual: "dual n m d s u v V" and Z: "zeros n m s (stars n m s)"
      by (auto simp: run_inv_def exact_inv_def intro: zeros_subset)
    have cost: "fin (computeassignmentcost A n (assignment s) d)"
      "val (computeassignmentcost A n (assignment s) d) = assignment_total n (assignment s) (\<lambda>r c. val (elt n d r c))"
      using computeassignmentcost_val [of n m d "assignment s"] fin comp by (simp_all add: complete_assignment_def)
    have best: "val (computeassignmentcost A n (assignment s) d) \<le> assignment_total n other (\<lambda>r c. val (elt n d r c)) + of_nat (min n m) * eps"
      if "complete_assignment n m other" for other
      using stars_optimal [OF dual Z S(1,2) complete_assignment_pairs [OF that]] cost(2) assigns_pairs [OF S(3,1)]
      by (simp add: assignment_total_sum)
    show thesis by (rule that [OF 2(3) comp cost best])
  qed
qed

end

text \<open>C24: In exact arithmetic the assignment solver returns for every matrix of finite numbers, with a
  complete assignment, its cost, and a cost that no complete assignment undercuts by more than the
  tolerance of the test for zero, once per assigned row.\<close>

theorem hungarian_optimal:
  assumes "exact_arith A val fin eps" and "\<And>i j. i < n \<Longrightarrow> j < m \<Longrightarrow> fin (M i j)"
  shows "\<exists>cost asg. Solve A n m M = Ret (cost, asg) () \<and> complete_assignment n m asg \<and>
    fin cost \<and> val cost = assignment_total n asg (\<lambda>i j. val (M i j)) \<and>
    (\<forall>other. complete_assignment n m other \<longrightarrow>
       val cost \<le> assignment_total n other (\<lambda>i j. val (M i j)) + of_nat (min n m) * eps)"
proof -
  let ?d = "concat (map (\<lambda>j. map (\<lambda>i. M i j) [0..<n]) [0..<m])"
  have fin: "fin (elt n ?d r c)" if "r < n" "c < m" for r c using assms(2) that by (simp add: elt_columns)
  have total: "assignment_total n asg (\<lambda>r c. val (elt n ?d r c)) = assignment_total n asg (\<lambda>i j. val (M i j))"
    if "complete_assignment n m asg" for asg
  proof -
    have "elt n ?d r (nat (asg ! r)) = M r (nat (asg ! r))" if "r < n" "asg ! r \<noteq> -1" for r
      using \<open>complete_assignment n m asg\<close> that by (intro elt_columns) (auto simp: complete_assignment_def nat_less_iff)
    then show ?thesis unfolding assignment_total_def by (intro arg_cong [of _ _ sum_list] map_cong) auto
  qed
  show ?thesis
    by (rule exact_arith.assignmentoptimal_exact [OF assms(1) length_concat_columns fin]) (auto simp: Solve_def total)
qed

theorem hungarian_optimal_witness:
  "\<exists>cost asg. Solve (rat_arith id) 2 3 (\<lambda>i j. Some (of_nat (i + 2 * j))) = Ret (cost, asg) () \<and>
     complete_assignment 2 3 asg \<and> rat_val cost \<le> 3 + 2 * rat_eps"
proof -
  have "complete_assignment 2 3 [0, 1]" by (auto simp: complete_assignment_def less_Suc_eq numeral_2_eq_2)
  moreover have "assignment_total 2 [0, 1] (\<lambda>i j. rat_val (Some (of_nat (i + 2 * j)))) = 3"
    by (simp add: assignment_total_def rat_val_def upt_rec)
  ultimately show ?thesis
    using hungarian_optimal [OF rat.exact_arith_axioms, of 2 3 "\<lambda>i j. Some (of_nat (i + 2 * j))" id] by fastforce
qed

end
