(* ===== verification/Matrix_Ops.thy ===== *)
theory Matrix_Ops
  imports Float_Arith Edk_Exception
begin

text \<open>
  The matrices of the trackers (easydk/src/easytrack/matrix.h and matrix.cpp): a vector of floats by
  rows with the numbers of rows and columns, which are \<open>uint32_t\<close>. Operations that throw leave
  their operands as they are; the inverse need not return.
\<close>

text \<open>A call that changes nothing, made in the state \<open>s\<close>; \<open>f\<close> goes on with its result.\<close>

fun calc :: "'s \<Rightarrow> (unit, 'a) run \<Rightarrow> ('a \<Rightarrow> ('s, 'b) run) \<Rightarrow> ('s, 'b) run" where
  "calc s (Ret x _) f = f x"
| "calc s (Exc e _) f = Exc e s"
| "calc s UB f = UB"
| "calc s Terminate f = Terminate"
| "calc s (Blocked _) f = Blocked s"

subsection \<open>MatrixPrototype\<close>

record 'f matrix =
  m_arrays :: "'f list"
  m_rows :: nat
  m_cols :: nat

definition Size :: "'f matrix \<Rightarrow> nat" where
  "Size m = (m_cols m * m_rows m) mod 2 ^ 32"

definition Empty :: "'f matrix \<Rightarrow> bool" where
  "Empty m \<longleftrightarrow> Size m = 0"

definition Square :: "'f matrix \<Rightarrow> bool" where
  "Square m \<longleftrightarrow> \<not> Empty m \<and> m_rows m = m_cols m"

definition entry :: "'f matrix \<Rightarrow> nat \<Rightarrow> nat \<Rightarrow> 'f" where
  "entry m row col = m_arrays m ! ((row * m_cols m + col) mod 2 ^ 32)"

definition set_entry :: "nat \<Rightarrow> nat \<Rightarrow> 'f \<Rightarrow> 'f matrix \<Rightarrow> 'f matrix" where
  "set_entry row col v m = m\<lparr>m_arrays := (m_arrays m)[(row * m_cols m + col) mod 2 ^ 32 := v]\<rparr>"

definition empty_matrix :: "'f matrix" where
  "empty_matrix = \<lparr>m_arrays = [], m_rows = 0, m_cols = 0\<rparr>"

definition new_matrix :: "'f arith \<Rightarrow> nat \<Rightarrow> nat \<Rightarrow> 'f matrix" where
  "new_matrix A rows cols = \<lparr>m_arrays = replicate ((rows * cols) mod 2 ^ 32) (f_zero A), m_rows = rows, m_cols = cols\<rparr>"

definition matrix_of_list :: "'f list \<Rightarrow> nat \<Rightarrow> nat \<Rightarrow> (unit, 'f matrix) run" where
  "matrix_of_list xs rows cols =
     (if length xs \<noteq> (rows * cols) mod 2 ^ 32
      then Exc (throw INVALID_ARG ''matrix size mismatch with rows and cols'') ()
      else Ret \<lparr>m_arrays = xs, m_rows = rows, m_cols = cols\<rparr> ())"

definition assign_list :: "'f list \<Rightarrow> 'f matrix \<Rightarrow> ('f matrix, unit) run" where
  "assign_list xs m =
     (if length xs \<noteq> Size m then Exc (throw INVALID_ARG ''matrix size mismatch with rows and cols'') m
      else Ret () (m\<lparr>m_arrays := xs\<rparr>))"

text \<open>\<open>std::vector::resize\<close> keeps what fits and appends zeros.\<close>

definition Resize :: "'f arith \<Rightarrow> nat \<Rightarrow> nat \<Rightarrow> 'f matrix \<Rightarrow> 'f matrix" where
  "Resize A rows cols m =
     (if rows = m_rows m \<and> cols = m_cols m then m
      else let n = (cols * rows) mod 2 ^ 32
           in \<lparr>m_arrays = take n (m_arrays m) @ replicate (n - length (m_arrays m)) (f_zero A), m_rows = rows, m_cols = cols\<rparr>)"

definition Fill :: "'f \<Rightarrow> 'f matrix \<Rightarrow> 'f matrix" where
  "Fill element m = (if Empty m then m else m\<lparr>m_arrays := replicate (Size m) element\<rparr>)"

subsection \<open>Arithmetic\<close>

definition plus_assign :: "'f arith \<Rightarrow> 'f matrix \<Rightarrow> 'f matrix \<Rightarrow> ('f matrix, unit) run" where
  "plus_assign A lhs m =
     (if m_rows lhs \<noteq> m_rows m \<or> m_cols lhs \<noteq> m_cols m
      then Exc (throw INVALID_ARG ''Matrices of two different shape cannot be added'') lhs
      else Ret () (lhs\<lparr>m_arrays := fold (\<lambda>i xs. xs[i := f_add A (xs ! i) (m_arrays m ! i)]) [0..<Size lhs] (m_arrays lhs)\<rparr>))"

definition minus_assign :: "'f arith \<Rightarrow> 'f matrix \<Rightarrow> 'f matrix \<Rightarrow> ('f matrix, unit) run" where
  "minus_assign A lhs m =
     (if m_rows lhs \<noteq> m_rows m \<or> m_cols lhs \<noteq> m_cols m
      then Exc (throw INVALID_ARG ''Matrices of two different shape cannot be subtracted'') lhs
      else Ret () (lhs\<lparr>m_arrays := fold (\<lambda>i xs. xs[i := f_sub A (xs ! i) (m_arrays m ! i)]) [0..<Size lhs] (m_arrays lhs)\<rparr>))"

text \<open>An operation on a copy of the left operand, which is returned.\<close>

fun on_copy :: "('f matrix, unit) run \<Rightarrow> (unit, 'f matrix) run" where
  "on_copy (Ret _ m) = Ret m ()"
| "on_copy (Exc e _) = Exc e ()"
| "on_copy UB = UB"
| "on_copy Terminate = Terminate"
| "on_copy (Blocked _) = Blocked ()"

definition mat_add :: "'f arith \<Rightarrow> 'f matrix \<Rightarrow> 'f matrix \<Rightarrow> (unit, 'f matrix) run" where
  "mat_add A lhs rhs = on_copy (plus_assign A lhs rhs)"

definition mat_sub :: "'f arith \<Rightarrow> 'f matrix \<Rightarrow> 'f matrix \<Rightarrow> (unit, 'f matrix) run" where
  "mat_sub A lhs rhs = on_copy (minus_assign A lhs rhs)"

text \<open>The products are floats, their sum is a double.\<close>

definition dot :: "('f, 'd) fp \<Rightarrow> 'f matrix \<Rightarrow> 'f matrix \<Rightarrow> nat \<Rightarrow> nat \<Rightarrow> 'f" where
  "dot X lhs rhs i j =
     narrow X (fold (\<lambda>k sum. f_add (dbl X) sum (widen X (f_mul (flt X) (entry lhs i k) (entry rhs k j))))
       [0..<m_cols lhs] (f_zero (dbl X)))"

definition fill_by :: "(nat \<Rightarrow> nat \<Rightarrow> 'f) \<Rightarrow> 'f matrix \<Rightarrow> 'f matrix" where
  "fill_by f m = fold (\<lambda>i m. fold (\<lambda>j m. set_entry i j (f i j) m) [0..<m_cols m] m) [0..<m_rows m] m"

definition mat_mult :: "('f, 'd) fp \<Rightarrow> 'f matrix \<Rightarrow> 'f matrix \<Rightarrow> (unit, 'f matrix) run" where
  "mat_mult X lhs rhs =
     (if m_cols lhs \<noteq> m_rows rhs then Exc (throw INVALID_ARG ''Matrices can not be multiplied'') ()
      else Ret (fill_by (dot X lhs rhs) (new_matrix (flt X) (m_rows lhs) (m_cols rhs))) ())"

definition Trans :: "'f arith \<Rightarrow> 'f matrix \<Rightarrow> (unit, 'f matrix) run" where
  "Trans A m =
     (if Empty m then Exc (throw INVALID_ARG ''Empty Matrix do not have transpose'') ()
      else Ret (fill_by (\<lambda>i j. m_arrays m ! ((j * m_cols m + i) mod 2 ^ 32)) (new_matrix A (m_cols m) (m_rows m))) ())"

definition mat_eq :: "'f arith \<Rightarrow> 'f matrix \<Rightarrow> 'f matrix \<Rightarrow> bool" where
  "mat_eq A lhs rhs \<longleftrightarrow> m_rows lhs = m_rows rhs \<and> m_cols lhs = m_cols rhs \<and>
     list_all (\<lambda>i. list_all (\<lambda>j. f_eq A (entry lhs i j) (entry rhs i j)) [0..<m_cols lhs]) [0..<m_rows lhs]"

subsection \<open>Decomposition\<close>

text \<open>
  \<open>LupDescomposition\<close> works in place on a copy in doubles. The largest element of a column below
  the diagonal becomes the pivot; if all are zero, the diagonal is nudged and the search repeated,
  without end if nothing becomes comparable with zero.
\<close>

definition largest_below :: "'d arith \<Rightarrow> nat \<Rightarrow> nat \<Rightarrow> 'd list \<Rightarrow> 'd \<times> nat \<Rightarrow> 'd \<times> nat" where
  "largest_below D n i a =
     fold (\<lambda>j (p, row). if f_less D p (f_abs D (a ! (j * n + i))) then (f_abs D (a ! (j * n + i)), j) else (p, row)) [i..<n]"

partial_function (option) find_pivot :: "'d arith \<Rightarrow> nat \<Rightarrow> nat \<Rightarrow> 'd list \<Rightarrow> nat \<Rightarrow> ('d list \<times> nat) option" where
  "find_pivot D n i a row =
     (let (p, row) = largest_below D n i a (f_zero D, row)
      in if \<not> f_eq D p (f_zero D) then Some (a, row)
         else find_pivot D n i (a[i * n + i := f_add D (a ! (i * n + i)) (f_const D (1 / 100000))]) row)"

definition swap :: "nat \<Rightarrow> nat \<Rightarrow> 'a list \<Rightarrow> 'a list" where
  "swap i j xs = xs[i := xs ! j, j := xs ! i]"

definition swap_rows :: "nat \<Rightarrow> nat \<Rightarrow> nat \<Rightarrow> 'd list \<Rightarrow> 'd list" where
  "swap_rows n i row a = fold (\<lambda>j. swap (i * n + j) (row * n + j)) [0..<n] a"

definition eliminate_row :: "'d arith \<Rightarrow> nat \<Rightarrow> nat \<Rightarrow> nat \<Rightarrow> 'd list \<Rightarrow> 'd list" where
  "eliminate_row D n i j a =
     (let l = f_div D (a ! (j * n + i)) (a ! (i * n + i))
      in fold (\<lambda>k a. a[j * n + k := f_sub D (a ! (j * n + k)) (f_mul D (a ! (i * n + k)) l)]) [Suc i..<n] (a[j * n + i := l]))"

fun lup_columns :: "'d arith \<Rightarrow> nat \<Rightarrow> nat list \<Rightarrow> 'd list \<Rightarrow> nat list \<Rightarrow> nat \<Rightarrow> ('d list \<times> nat list) option" where
  "lup_columns D n [] a P row = Some (a, P)"
| "lup_columns D n (i # is) a P row =
     (case find_pivot D n i a row of
        None \<Rightarrow> None
      | Some (a, row) \<Rightarrow> lup_columns D n is (fold (eliminate_row D n i) [Suc i..<n] (swap_rows n i row a)) (swap i row P) row)"

definition lower_part :: "'d arith \<Rightarrow> nat \<Rightarrow> 'd list \<Rightarrow> 'd list" where
  "lower_part D n a =
     fold (\<lambda>i L. fold (\<lambda>j L. L[i * n + j := (if i \<noteq> j then a ! (i * n + j) else f_const D 1)]) [0..<Suc i] L)
       [0..<n] (replicate (n * n) (f_zero D))"

definition upper_part :: "'d arith \<Rightarrow> nat \<Rightarrow> 'd list \<Rightarrow> 'd list" where
  "upper_part D n a =
     fold (\<lambda>i U. fold (\<lambda>k U. U[i * n + k := a ! (i * n + k)]) [i..<n] U) [0..<n] (replicate (n * n) (f_zero D))"

definition LupDescomposition :: "'d arith \<Rightarrow> nat \<Rightarrow> 'd list \<Rightarrow> ('d list \<times> 'd list \<times> nat list) option" where
  "LupDescomposition D n a =
     (case lup_columns D n [0..<n - 1] a [0..<n] 0 of
        None \<Rightarrow> None
      | Some (a, P) \<Rightarrow> Some (lower_part D n a, upper_part D n a, P))"

subsection \<open>Substitution\<close>

definition forward_subst :: "'d arith \<Rightarrow> nat \<Rightarrow> 'd list \<Rightarrow> nat list \<Rightarrow> int list \<Rightarrow> 'd list" where
  "forward_subst D n L P b =
     fold (\<lambda>i y. fold (\<lambda>j y. y[i := f_sub D (y ! i) (f_mul D (L ! (i * n + j)) (y ! j))]) [0..<i]
                   (y[i := f_const D (of_int (b ! (P ! i)))])) [0..<n] (replicate n (f_zero D))"

definition backward_subst :: "('f, 'd) fp \<Rightarrow> nat \<Rightarrow> 'd list \<Rightarrow> 'd list \<Rightarrow> 'f list \<Rightarrow> 'f list" where
  "backward_subst X n U y x =
     fold (\<lambda>i x. let x = fold (\<lambda>j x. x[i := narrow X (f_sub (dbl X) (widen X (x ! i)) (f_mul (dbl X) (U ! (i * n + j)) (widen X (x ! j))))])
                            (rev [Suc i..<n]) (x[i := narrow X (y ! i)])
                 in x[i := narrow X (f_div (dbl X) (widen X (x ! i)) (U ! (i * n + i)))]) (rev [0..<n]) x"

definition SolveLup :: "('f, 'd) fp \<Rightarrow> nat \<Rightarrow> 'd list \<Rightarrow> 'd list \<Rightarrow> nat list \<Rightarrow> int list \<Rightarrow> 'f list \<Rightarrow> 'f list" where
  "SolveLup X n L U P b x = backward_subst X n U (forward_subst (dbl X) n L P b) x"

subsection \<open>Transposition in place\<close>

definition GetNext :: "nat \<Rightarrow> nat \<Rightarrow> nat \<Rightarrow> nat" where
  "GetNext i m n = (i mod n) * m + i div n"

definition GetPre :: "nat \<Rightarrow> nat \<Rightarrow> nat \<Rightarrow> nat" where
  "GetPre i m n = (i mod m) * n + i div m"

text \<open>Both loops follow a cycle of the permutation, which need not lead back for arbitrary arguments.\<close>

partial_function (option) next_in_cycle :: "nat \<Rightarrow> nat \<Rightarrow> nat \<Rightarrow> nat \<Rightarrow> nat option" where
  "next_in_cycle i m n nxt = (if i < nxt then next_in_cycle i m n (GetNext nxt m n) else Some nxt)"

partial_function (option) move_cycle :: "'f list \<Rightarrow> nat \<Rightarrow> nat \<Rightarrow> nat \<Rightarrow> nat \<Rightarrow> nat \<Rightarrow> ('f list \<times> nat) option" where
  "move_cycle mtx i m n cur pre =
     (if pre \<noteq> i then move_cycle (mtx[cur := mtx ! pre]) i m n pre (GetPre pre m n) else Some (mtx, cur))"

definition MoveData :: "('f, 'd) fp \<Rightarrow> 'f list \<Rightarrow> nat \<Rightarrow> nat \<Rightarrow> nat \<Rightarrow> 'f list option" where
  "MoveData X mtx i m n =
     (case move_cycle mtx i m n i (GetPre i m n) of
        None \<Rightarrow> None
      | Some (mtx', cur) \<Rightarrow> Some (mtx'[cur := narrow X (widen X (mtx ! i))]))"

fun transpose_from :: "('f, 'd) fp \<Rightarrow> nat \<Rightarrow> nat \<Rightarrow> nat list \<Rightarrow> 'f list \<Rightarrow> 'f list option" where
  "transpose_from X m n [] mtx = Some mtx"
| "transpose_from X m n (i # is) mtx =
     (case next_in_cycle i m n (GetNext i m n) of
        None \<Rightarrow> None
      | Some nxt \<Rightarrow>
          if nxt = i
          then (case MoveData X mtx i m n of None \<Rightarrow> None | Some mtx \<Rightarrow> transpose_from X m n is mtx)
          else transpose_from X m n is mtx)"

definition Transpose :: "('f, 'd) fp \<Rightarrow> 'f list \<Rightarrow> nat \<Rightarrow> nat \<Rightarrow> 'f list option" where
  "Transpose X mtx m n = transpose_from X m n [0..<m * n] mtx"

subsection \<open>The inverse\<close>

text \<open>Row \<open>i\<close> is the solution for the unit vector \<open>i\<close>, transposed at the end.\<close>

definition SolveInverse :: "('f, 'd) fp \<Rightarrow> 'f list \<Rightarrow> nat \<Rightarrow> 'f list option" where
  "SolveInverse X a n =
     (case LupDescomposition (dbl X) n (map (widen X) (take (n * n) a)) of
        None \<Rightarrow> None
      | Some (L, U, P) \<Rightarrow>
          Transpose X (fst (fold (\<lambda>i (inv, x). let x = SolveLup X n L U P ((replicate n 0)[i := 1]) x in (inv @ x, x))
                            [0..<n] ([], replicate n (f_zero (flt X))))) n n)"

definition Inv :: "('f, 'd) fp \<Rightarrow> 'f matrix \<Rightarrow> (unit, 'f matrix) run" where
  "Inv X m =
     (if \<not> Square m then Exc (throw INVALID_ARG ''Non-square matrix do not have inverse'') ()
      else case SolveInverse X (m_arrays m) (m_rows m) of
             None \<Rightarrow> Blocked ()
           | Some xs \<Rightarrow> Ret \<lparr>m_arrays = xs, m_rows = m_rows m, m_cols = m_rows m\<rparr> ())"

end
