(* ===== verification/Kalman.thy ===== *)
theory Kalman
  imports Matrix_Ops
begin

text \<open>
  The Kalman filter of a track (easydk/src/easytrack/kalmanfilter.cpp) on the boxes of
  easytrack/easy_track.h, written with the matrix operations of \<open>Matrix_Ops\<close>, each of which may
  throw.
\<close>

record 'f BoundingBox =
  bb_x :: 'f
  bb_y :: 'f
  bb_width :: 'f
  bb_height :: 'f

record 'f KalmanFilter =
  kf_mean :: "'f matrix"
  kf_covariance :: "'f matrix"
  kf_project_mean :: "'f matrix"
  kf_project_covariance :: "'f matrix"
  kf_need_recalc_project :: bool

text \<open>Constants are rounded from doubles to floats.\<close>

abbreviation fconst :: "('f, 'd) fp \<Rightarrow> rat \<Rightarrow> 'f" where
  "fconst X q \<equiv> narrow X (f_const (dbl X) q)"

definition matrix_rows :: "('f, 'd) fp \<Rightarrow> rat list \<Rightarrow> nat \<Rightarrow> nat \<Rightarrow> 'f matrix" where
  "matrix_rows X qs r c = \<lparr>m_arrays = map (f_const (flt X)) qs, m_rows = r, m_cols = c\<rparr>"

definition motion_mat :: "('f, 'd) fp \<Rightarrow> 'f matrix" where
  "motion_mat X = matrix_rows X
     [1, 0, 0, 0, 1, 0, 0, 0,
      0, 1, 0, 0, 0, 1, 0, 0,
      0, 0, 1, 0, 0, 0, 1, 0,
      0, 0, 0, 1, 0, 0, 0, 1,
      0, 0, 0, 0, 1, 0, 0, 0,
      0, 0, 0, 0, 0, 1, 0, 0,
      0, 0, 0, 0, 0, 0, 1, 0,
      0, 0, 0, 0, 0, 0, 0, 1] 8 8"

definition update_mat :: "('f, 'd) fp \<Rightarrow> 'f matrix" where
  "update_mat X = matrix_rows X
     [1, 0, 0, 0, 0, 0, 0, 0,
      0, 1, 0, 0, 0, 0, 0, 0,
      0, 0, 1, 0, 0, 0, 0, 0,
      0, 0, 0, 1, 0, 0, 0, 0] 4 8"

text \<open>The transposed constants are computed when the program starts.\<close>

definition transposed :: "('f, 'd) fp \<Rightarrow> 'f matrix \<Rightarrow> 'f matrix" where
  "transposed X m = (case Trans (flt X) m of Ret t _ \<Rightarrow> t | _ \<Rightarrow> m)"

definition std_weight_position :: "('f, 'd) fp \<Rightarrow> 'f" where
  "std_weight_position X = narrow X (f_div (dbl X) (f_const (dbl X) 1) (f_const (dbl X) 20))"

definition std_weight_velocity :: "('f, 'd) fp \<Rightarrow> 'f" where
  "std_weight_velocity X = narrow X (f_div (dbl X) (f_const (dbl X) 1) (f_const (dbl X) 160))"

definition new_KalmanFilter :: "('f, 'd) fp \<Rightarrow> 'f KalmanFilter" where
  "new_KalmanFilter X =
     \<lparr>kf_mean = new_matrix (flt X) 1 8, kf_covariance = new_matrix (flt X) 8 8, kf_project_mean = empty_matrix,
      kf_project_covariance = empty_matrix, kf_need_recalc_project = True\<rparr>"

text \<open>The eight standard deviations: of the position and of the velocity; entries 2 and 6 are constants.\<close>

definition deviations :: "('f, 'd) fp \<Rightarrow> 'f \<Rightarrow> 'f \<Rightarrow> 'f list" where
  "deviations X p v = [p, p, fconst X (1 / 100), p, v, v, fconst X (1 / 100000), v]"

definition set_squares :: "'f arith \<Rightarrow> 'f list \<Rightarrow> 'f matrix \<Rightarrow> 'f matrix" where
  "set_squares A std m = fold (\<lambda>i m. set_entry i i (f_mul A (std ! i) (std ! i)) m) [0..<8] m"

definition kf_Initiate :: "('f, 'd) fp \<Rightarrow> 'f BoundingBox \<Rightarrow> 'f KalmanFilter \<Rightarrow> 'f KalmanFilter" where
  "kf_Initiate X b k =
     (let A = flt X;
          mean = set_entry 0 3 (bb_height b) (set_entry 0 2 (bb_width b) (set_entry 0 1 (bb_y b) (set_entry 0 0 (bb_x b) (kf_mean k))));
          std = deviations X (f_mul A (f_mul A (f_const A 2) (std_weight_position X)) (bb_height b))
                             (f_mul A (f_mul A (f_const A 10) (std_weight_velocity X)) (bb_height b))
      in k\<lparr>kf_mean := fold (\<lambda>i m. set_entry 0 i (f_zero A) m) [4..<8] mean, kf_covariance := set_squares A std (kf_covariance k)\<rparr>)"

definition kf_Predict :: "('f, 'd) fp \<Rightarrow> 'f KalmanFilter \<Rightarrow> ('f KalmanFilter, unit) run" where
  "kf_Predict X k =
     (let A = flt X; height = entry (kf_mean k) 0 3;
          motion_cov = set_squares A (deviations X (f_mul A (std_weight_position X) height) (f_mul A (std_weight_velocity X) height))
                         (new_matrix A 8 8)
      in calc k (mat_mult X (kf_mean k) (transposed X (motion_mat X))) (\<lambda>mean1.
         calc k (mat_mult X (motion_mat X) (kf_covariance k)) (\<lambda>p.
         calc k (mat_mult X p (transposed X (motion_mat X))) (\<lambda>p.
         calc k (mat_add A p motion_cov) (\<lambda>covariance1.
         Ret () (k\<lparr>kf_mean := mean1, kf_covariance := covariance1, kf_need_recalc_project := True\<rparr>))))))"

definition kf_Project :: "('f, 'd) fp \<Rightarrow> 'f KalmanFilter \<Rightarrow> ('f KalmanFilter, unit) run" where
  "kf_Project X k =
     (if \<not> kf_need_recalc_project k then Ret () k
      else let A = flt X;
               cov_val1 = narrow X (f_mul (dbl X) (f_const (dbl X) (1 / 10)) (f_const (dbl X) (1 / 10)));
               cov_val2 = f_mul A (std_weight_position X) (entry (kf_mean k) 0 3);
               cov_val2 = f_mul A cov_val2 cov_val2;
               innovation_cov = set_entry 2 2 cov_val1 (set_entry 3 3 cov_val2 (set_entry 1 1 cov_val2 (set_entry 0 0 cov_val2
                                  (new_matrix A 4 4))))
           in calc k (mat_mult X (kf_mean k) (transposed X (update_mat X))) (\<lambda>mean.
              let k = k\<lparr>kf_project_mean := mean\<rparr>
              in calc k (mat_mult X (update_mat X) (kf_covariance k)) (\<lambda>p.
                 calc k (mat_mult X p (transposed X (update_mat X))) (\<lambda>p.
                 calc k (mat_add A p innovation_cov) (\<lambda>cov.
                 Ret () (k\<lparr>kf_project_covariance := cov, kf_need_recalc_project := False\<rparr>))))))"

definition row_of_box :: "'f arith \<Rightarrow> 'f BoundingBox \<Rightarrow> 'f matrix" where
  "row_of_box A b =
     set_entry 0 3 (bb_height b) (set_entry 0 2 (bb_width b) (set_entry 0 1 (bb_y b) (set_entry 0 0 (bb_x b) (new_matrix A 1 4))))"

definition kf_Update :: "('f, 'd) fp \<Rightarrow> 'f BoundingBox \<Rightarrow> 'f KalmanFilter \<Rightarrow> ('f KalmanFilter, unit) run" where
  "kf_Update X bbox k =
     call_then (kf_Project X k) (\<lambda>_ k.
     let A = flt X; measurement = row_of_box A bbox
     in calc k (mat_mult X (kf_covariance k) (transposed X (update_mat X))) (\<lambda>p.
        calc k (Inv X (kf_project_covariance k)) (\<lambda>cov_inv.
        calc k (mat_mult X p cov_inv) (\<lambda>kalman_gain.
        calc k (mat_sub A measurement (kf_project_mean k)) (\<lambda>d.
        calc k (Trans A kalman_gain) (\<lambda>gain_trans.
        calc k (mat_mult X d gain_trans) (\<lambda>d.
        calc k (mat_add A (kf_mean k) d) (\<lambda>mean.
        let k = k\<lparr>kf_mean := mean\<rparr>
        in calc k (mat_mult X kalman_gain (update_mat X)) (\<lambda>p.
           calc k (mat_mult X p (kf_covariance k)) (\<lambda>p.
           calc k (mat_sub A (kf_covariance k) p) (\<lambda>covariance.
           Ret () (k\<lparr>kf_covariance := covariance, kf_need_recalc_project := True\<rparr>))))))))))))"

text \<open>The squared Mahalanobis distance of one box.\<close>

definition box_distance :: "('f, 'd) fp \<Rightarrow> 'f KalmanFilter \<Rightarrow> 'f matrix \<Rightarrow> 'f BoundingBox \<Rightarrow> (unit, 'f) run" where
  "box_distance X k cov_inv b =
     (let A = flt X; mean1 = kf_project_mean k;
          d = set_entry 0 3 (f_sub A (bb_height b) (entry mean1 0 3)) (set_entry 0 2 (f_sub A (bb_width b) (entry mean1 0 2))
                (set_entry 0 1 (f_sub A (bb_y b) (entry mean1 0 1)) (set_entry 0 0 (f_sub A (bb_x b) (entry mean1 0 0)) (new_matrix A 1 4))))
      in calc () (mat_mult X d cov_inv) (\<lambda>p.
         calc () (Trans A d) (\<lambda>t.
         calc () (mat_mult X p t) (\<lambda>p. Ret (entry p 0 0) ()))))"

fun box_distances :: "('f, 'd) fp \<Rightarrow> 'f KalmanFilter \<Rightarrow> 'f matrix \<Rightarrow> nat \<Rightarrow> 'f BoundingBox list \<Rightarrow> 'f matrix \<Rightarrow> (unit, 'f matrix) run" where
  "box_distances X k cov_inv i [] m = Ret m ()"
| "box_distances X k cov_inv i (b # bs) m =
     calc () (box_distance X k cov_inv b) (\<lambda>x. box_distances X k cov_inv (Suc i) bs (set_entry 0 i x m))"

definition GatingDistance :: "('f, 'd) fp \<Rightarrow> 'f BoundingBox list \<Rightarrow> 'f KalmanFilter \<Rightarrow> ('f KalmanFilter, 'f matrix) run" where
  "GatingDistance X measurements k =
     call_then (kf_Project X k) (\<lambda>_ k.
     calc k (Inv X (kf_project_covariance k)) (\<lambda>cov_inv.
     calc k (box_distances X k cov_inv 0 measurements (new_matrix (flt X) 1 (length measurements))) (\<lambda>m. Ret m k)))"

definition GetCurPos :: "'f KalmanFilter \<Rightarrow> 'f BoundingBox" where
  "GetCurPos k = \<lparr>bb_x = entry (kf_mean k) 0 0, bb_y = entry (kf_mean k) 0 1, bb_width = entry (kf_mean k) 0 2, bb_height = entry (kf_mean k) 0 3\<rparr>"

end
