(* ===== verification/Kalman_Props.thy ===== *)
theory Kalman_Props
  imports Kalman
begin

text \<open>
  The shapes of the matrices of the Kalman filter fit together: none of its operations throws,
  whatever the floating point operations compute, and only the decomposition behind the inverse may
  fail to return.
\<close>

subsection \<open>Shapes\<close>

definition shaped :: "'f matrix \<Rightarrow> nat \<Rightarrow> nat \<Rightarrow> bool" where
  "shaped m r c \<longleftrightarrow> m_rows m = r \<and> m_cols m = c \<and> length (m_arrays m) = r * c"

named_theorems shapes "operations keep the shape of a matrix"

lemma shaped_set_entry [shapes]: "shaped m r c \<Longrightarrow> shaped (set_entry i j v m) r c"
  by (simp add: shaped_def set_entry_def)

lemma shaped_new [shapes]: "r * c < 2 ^ 32 \<Longrightarrow> shaped (new_matrix A r c) r c"
  by (simp add: shaped_def new_matrix_def)

lemma fold_keeps: "(\<And>i s. P s \<Longrightarrow> P (f i s)) \<Longrightarrow> P s \<Longrightarrow> P (fold f is s)"
  by (induction "is" arbitrary: s) simp_all

lemma shaped_fold [shapes]: "(\<And>i m. shaped m r c \<Longrightarrow> shaped (f i m) r c) \<Longrightarrow> shaped m r c \<Longrightarrow> shaped (fold f is m) r c"
  by (rule fold_keeps)

lemma shaped_fill_by [shapes]: "shaped m r c \<Longrightarrow> shaped (fill_by f m) r c"
  unfolding fill_by_def by (intro shapes)

lemma shaped_set_squares [shapes]: "shaped m r c \<Longrightarrow> shaped (set_squares A std m) r c"
  unfolding set_squares_def by (intro shapes)

lemma mat_mult_shaped:
  assumes "shaped a r k" and "shaped b k c" and "r * c < 2 ^ 32"
  obtains m where "mat_mult X a b = Ret m ()" "shaped m r c"
proof
  show "mat_mult X a b = Ret (fill_by (dot X a b) (new_matrix (flt X) r c)) ()"
    using assms by (simp add: mat_mult_def shaped_def)
  show "shaped (fill_by (dot X a b) (new_matrix (flt X) r c)) r c" by (intro shapes assms)
qed

lemma length_fold_update: "length (fold (\<lambda>i xs. xs[i := f i xs]) is xs) = length xs"
  by (rule fold_keeps [where P = "\<lambda>ys. length ys = length xs"]) simp_all

lemma mat_add_shaped:
  assumes "shaped a r c" and "shaped b r c"
  obtains m where "mat_add A a b = Ret m ()" "shaped m r c"
  using assms by (simp add: mat_add_def plus_assign_def shaped_def length_fold_update)

lemma mat_sub_shaped:
  assumes "shaped a r c" and "shaped b r c"
  obtains m where "mat_sub A a b = Ret m ()" "shaped m r c"
  using assms by (simp add: mat_sub_def minus_assign_def shaped_def length_fold_update)

lemma Trans_shaped:
  assumes "shaped a r c" and "r * c < 2 ^ 32" and "0 < r" "0 < c"
  obtains m where "Trans A a = Ret m ()" "shaped m c r"
proof
  let ?m = "fill_by (\<lambda>i j. m_arrays a ! ((j * c + i) mod 2 ^ 32)) (new_matrix A c r)"
  show "Trans A a = Ret ?m ()" using assms by (simp add: Trans_def shaped_def Empty_def Size_def mult.commute)
  show "shaped ?m c r" by (intro shapes) (use assms in \<open>simp add: mult.commute\<close>)
qed

text \<open>The inverse returns a matrix of the same shape, or does not return.\<close>

lemma move_cycle_length:
  assumes "move_cycle mtx i m n cur pre = Some y"
  shows "length (fst y) = length mtx"
proof (rule move_cycle.raw_induct [OF _ assms], goal_cases)
  case (1 f mtx i m n cur pre y)
  then show ?case by (auto split: if_splits)
qed

lemma transpose_from_length: "transpose_from X m n is mtx = Some ys \<Longrightarrow> length ys = length mtx"
  by (induction X m n "is" mtx rule: transpose_from.induct)
    (auto split: option.splits if_splits simp: MoveData_def dest: move_cycle_length)

lemma backward_subst_length [simp]: "length (backward_subst X n U y x) = length x"
  unfolding backward_subst_def Let_def
  by (rule fold_keeps [where P = "\<lambda>xs. length xs = length x"])
    (simp_all, rule fold_keeps [where P = "\<lambda>xs. length xs = length x"], simp_all)

lemma SolveInverse_length:
  assumes "SolveInverse X a n = Some xs"
  shows "length xs = n * n"
proof -
  obtain L U P where
    "Transpose X (fst (fold (\<lambda>i (inv, x). let x = SolveLup X n L U P ((replicate n 0)[i := 1]) x in (inv @ x, x))
                            [0..<n] ([], replicate n (f_zero (flt X))))) n n = Some xs"
    using assms by (auto simp: SolveInverse_def split: option.splits)
  moreover have "length (fst (fold (\<lambda>i (inv, x). let x = SolveLup X n L U P ((replicate n 0)[i := 1]) x in (inv @ x, x)) [0..<k] ([], x0))) = k * n \<and>
      length (snd (fold (\<lambda>i (inv, x). let x = SolveLup X n L U P ((replicate n 0)[i := 1]) x in (inv @ x, x)) [0..<k] ([], x0))) = n"
    if "length x0 = n" for k x0
    using that by (induction k) (auto simp: Let_def SolveLup_def case_prod_beta')
  ultimately show ?thesis by (simp add: Transpose_def transpose_from_length)
qed

lemma Inv_shaped:
  assumes "shaped a n n" and "0 < n" and "n * n < 2 ^ 32"
  obtains m where "Inv X a = Ret m ()" "shaped m n n" | "Inv X a = Blocked ()"
proof (cases "SolveInverse X (m_arrays a) n")
  case None
  then show ?thesis using that(2) assms by (simp add: Inv_def shaped_def Square_def Empty_def Size_def)
next
  case (Some xs)
  then show ?thesis
    using that(1) assms SolveInverse_length [OF Some] by (simp add: Inv_def shaped_def Square_def Empty_def Size_def)
qed

subsection \<open>The filter\<close>

declare One_nat_def [simp del]

definition kf_ok :: "'f KalmanFilter \<Rightarrow> bool" where
  "kf_ok k \<longleftrightarrow> shaped (kf_mean k) 1 8 \<and> shaped (kf_covariance k) 8 8 \<and>
     (kf_need_recalc_project k \<or> shaped (kf_project_mean k) 1 4 \<and> shaped (kf_project_covariance k) 4 4)"

lemma shaped_motion_mat: "shaped (motion_mat X) 8 8"
  by (simp add: shaped_def motion_mat_def matrix_rows_def)

lemma shaped_update_mat: "shaped (update_mat X) 4 8"
  by (simp add: shaped_def update_mat_def matrix_rows_def)

lemma shaped_transposed:
  assumes "shaped m r c" and "r * c < 2 ^ 32" and "0 < r" "0 < c"
  shows "shaped (transposed X m) c r"
  by (rule Trans_shaped [OF assms, of "flt X"]) (simp add: transposed_def)

lemma shaped_row_of_box: "shaped (row_of_box A b) 1 4"
  unfolding row_of_box_def by (intro shapes) simp

lemma kf_ok_new: "kf_ok (new_KalmanFilter X)"
  using shaped_new [of 1 8 "flt X"] shaped_new [of 8 8 "flt X"] by (simp add: kf_ok_def new_KalmanFilter_def)

lemma kf_ok_Initiate: "kf_ok k \<Longrightarrow> kf_ok (kf_Initiate X b k)"
  unfolding kf_ok_def kf_Initiate_def Let_def by (auto simp: shapes)

lemma kf_Predict_ok:
  assumes "kf_ok k"
  obtains k' where "kf_Predict X k = Ret () k'" "kf_ok k'"
proof -
  have mean: "shaped (kf_mean k) 1 8" and cov: "shaped (kf_covariance k) 8 8" using assms by (simp_all add: kf_ok_def)
  have mt: "shaped (transposed X (motion_mat X)) 8 8" by (rule shaped_transposed [OF shaped_motion_mat]) simp_all
  obtain m1 where m1: "mat_mult X (kf_mean k) (transposed X (motion_mat X)) = Ret m1 ()" "shaped m1 1 8"
    by (rule mat_mult_shaped [OF mean mt]) simp
  obtain p where p: "mat_mult X (motion_mat X) (kf_covariance k) = Ret p ()" "shaped p 8 8"
    by (rule mat_mult_shaped [OF shaped_motion_mat cov]) simp
  obtain q where q: "mat_mult X p (transposed X (motion_mat X)) = Ret q ()" "shaped q 8 8"
    by (rule mat_mult_shaped [OF p(2) mt]) simp
  define n where "n = set_squares (flt X) (deviations X (f_mul (flt X) (std_weight_position X) (entry (kf_mean k) 0 3))
      (f_mul (flt X) (std_weight_velocity X) (entry (kf_mean k) 0 3))) (new_matrix (flt X) 8 8)"
  have "shaped n 8 8" unfolding n_def by (intro shapes) simp
  then obtain c1 where "mat_add (flt X) q n = Ret c1 ()" "shaped c1 8 8" using mat_add_shaped [OF q(2)] by blast
  then show thesis
    by (intro that [of "k\<lparr>kf_mean := m1, kf_covariance := c1, kf_need_recalc_project := True\<rparr>"])
      (simp_all add: kf_Predict_def m1 p q kf_ok_def flip: n_def)
qed

lemma kf_Project_ok:
  assumes "kf_ok k"
  obtains k' where "kf_Project X k = Ret () k'" "kf_ok k'" "\<not> kf_need_recalc_project k'" "kf_mean k' = kf_mean k" "kf_covariance k' = kf_covariance k"
proof (cases "kf_need_recalc_project k")
  case False
  then show thesis by (intro that [of k]) (simp_all add: kf_Project_def assms)
next
  case True
  have mean: "shaped (kf_mean k) 1 8" and cov: "shaped (kf_covariance k) 8 8" using assms by (simp_all add: kf_ok_def)
  have ut: "shaped (transposed X (update_mat X)) 8 4" by (rule shaped_transposed [OF shaped_update_mat]) simp_all
  obtain m1 where m1: "mat_mult X (kf_mean k) (transposed X (update_mat X)) = Ret m1 ()" "shaped m1 1 4"
    by (rule mat_mult_shaped [OF mean ut]) simp
  obtain p where p: "mat_mult X (update_mat X) (kf_covariance k) = Ret p ()" "shaped p 4 8"
    by (rule mat_mult_shaped [OF shaped_update_mat cov]) simp
  obtain q where q: "mat_mult X p (transposed X (update_mat X)) = Ret q ()" "shaped q 4 4"
    by (rule mat_mult_shaped [OF p(2) ut]) simp
  define v where "v = f_mul (flt X) (f_mul (flt X) (std_weight_position X) (entry (kf_mean k) 0 3)) (f_mul (flt X) (std_weight_position X) (entry (kf_mean k) 0 3))"
  define n where "n = set_entry 2 2 (narrow X (f_mul (dbl X) (f_const (dbl X) (1 / 10)) (f_const (dbl X) (1 / 10))))
      (set_entry 3 3 v (set_entry 1 1 v (set_entry 0 0 v (new_matrix (flt X) 4 4))))"
  have "shaped n 4 4" unfolding n_def by (intro shapes) simp
  then obtain c1 where "mat_add (flt X) q n = Ret c1 ()" "shaped c1 4 4" using mat_add_shaped [OF q(2)] by blast
  then show thesis
    using True mean cov m1 p q
    by (intro that [of "k\<lparr>kf_project_mean := m1, kf_project_covariance := c1, kf_need_recalc_project := False\<rparr>"])
      (simp_all add: kf_Project_def kf_ok_def Let_def flip: v_def n_def)
qed

lemma kf_Update_ok:
  assumes "kf_ok k"
  obtains k' where "kf_Update X b k = Ret () k'" "kf_ok k'" | k' where "kf_Update X b k = Blocked k'"
proof -
  obtain k1 where k1: "kf_Project X k = Ret () k1" "kf_ok k1" "\<not> kf_need_recalc_project k1" by (rule kf_Project_ok [OF assms])
  then have mean: "shaped (kf_mean k1) 1 8" and cov: "shaped (kf_covariance k1) 8 8"
    and pm: "shaped (kf_project_mean k1) 1 4" and pc: "shaped (kf_project_covariance k1) 4 4" by (simp_all add: kf_ok_def)
  have ut: "shaped (transposed X (update_mat X)) 8 4" by (rule shaped_transposed [OF shaped_update_mat]) simp_all
  obtain p where p: "mat_mult X (kf_covariance k1) (transposed X (update_mat X)) = Ret p ()" "shaped p 8 4"
    by (rule mat_mult_shaped [OF cov ut]) simp
  show thesis
  proof (cases rule: Inv_shaped [OF pc, of X, case_names _ _ inverted blocked])
    case (inverted iv)
    obtain g where g: "mat_mult X p iv = Ret g ()" "shaped g 8 4" by (rule mat_mult_shaped [OF p(2) inverted(2)]) simp
    obtain d where d: "mat_sub (flt X) (row_of_box (flt X) b) (kf_project_mean k1) = Ret d ()" "shaped d 1 4"
      by (rule mat_sub_shaped [OF shaped_row_of_box pm])
    obtain gt where gt: "Trans (flt X) g = Ret gt ()" "shaped gt 4 8" by (rule Trans_shaped [OF g(2)]) simp_all
    obtain e where e: "mat_mult X d gt = Ret e ()" "shaped e 1 8" by (rule mat_mult_shaped [OF d(2) gt(2)]) simp
    obtain m1 where m1: "mat_add (flt X) (kf_mean k1) e = Ret m1 ()" "shaped m1 1 8" by (rule mat_add_shaped [OF mean e(2)])
    obtain q where q: "mat_mult X g (update_mat X) = Ret q ()" "shaped q 8 8" by (rule mat_mult_shaped [OF g(2) shaped_update_mat]) simp
    obtain r where r: "mat_mult X q (kf_covariance k1) = Ret r ()" "shaped r 8 8" by (rule mat_mult_shaped [OF q(2) cov]) simp
    obtain c1 where c1: "mat_sub (flt X) (kf_covariance k1) r = Ret c1 ()" "shaped c1 8 8" by (rule mat_sub_shaped [OF cov r(2)])
    show thesis
      by (rule that(1) [of "k1\<lparr>kf_mean := m1, kf_covariance := c1, kf_need_recalc_project := True\<rparr>"])
        (simp_all add: kf_Update_def k1 p inverted g d gt e m1 q r c1 kf_ok_def Let_def)
  next
    case blocked
    then show thesis by (intro that(2) [of k1]) (simp add: kf_Update_def k1 p Let_def)
  qed simp_all
qed

lemma box_distance_ret:
  assumes "shaped iv 4 4"
  obtains x where "box_distance X k iv b = Ret x ()"
proof -
  define d where "d = set_entry 0 3 (f_sub (flt X) (bb_height b) (entry (kf_project_mean k) 0 3)) (set_entry 0 2 (f_sub (flt X) (bb_width b) (entry (kf_project_mean k) 0 2))
                (set_entry 0 1 (f_sub (flt X) (bb_y b) (entry (kf_project_mean k) 0 1)) (set_entry 0 0 (f_sub (flt X) (bb_x b) (entry (kf_project_mean k) 0 0)) (new_matrix (flt X) 1 4))))"
  have sd: "shaped d 1 4" unfolding d_def by (intro shapes) simp
  obtain p where p: "mat_mult X d iv = Ret p ()" "shaped p 1 4" by (rule mat_mult_shaped [OF sd assms]) simp
  obtain t where t: "Trans (flt X) d = Ret t ()" "shaped t 4 1" by (rule Trans_shaped [OF sd]) simp_all
  obtain q where q: "mat_mult X p t = Ret q ()" "shaped q 1 1" by (rule mat_mult_shaped [OF p(2) t(2)]) simp
  show thesis by (rule that [of "entry q 0 0"]) (simp add: box_distance_def p t q Let_def flip: d_def)
qed

lemma box_distances_ret:
  assumes "shaped iv 4 4"
  shows "\<exists>m'. box_distances X k iv i bs m = Ret m' ()"
proof (induction bs arbitrary: i m)
  case (Cons b bs)
  obtain x where "box_distance X k iv b = Ret x ()" by (rule box_distance_ret [OF assms])
  then show ?case using Cons by simp
qed simp

lemma GatingDistance_ok:
  assumes "kf_ok k"
  obtains m k' where "GatingDistance X bs k = Ret m k'" "kf_ok k'" | k' where "GatingDistance X bs k = Blocked k'"
proof -
  obtain k1 where k1: "kf_Project X k = Ret () k1" "kf_ok k1" "\<not> kf_need_recalc_project k1" by (rule kf_Project_ok [OF assms])
  then have pc: "shaped (kf_project_covariance k1) 4 4" by (simp add: kf_ok_def)
  show thesis
  proof (cases rule: Inv_shaped [OF pc, of X, case_names _ _ inverted blocked])
    case (inverted iv)
    obtain m where "box_distances X k1 iv 0 bs (new_matrix (flt X) 1 (length bs)) = Ret m ()"
      using box_distances_ret [OF inverted(2)] by blast
    then show thesis using k1 inverted by (intro that(1) [of m k1]) (simp_all add: GatingDistance_def)
  next
    case blocked
    then show thesis by (intro that(2) [of k1]) (simp add: GatingDistance_def k1)
  qed simp_all
qed

declare One_nat_def [simp]


subsection \<open>Sequences of calls\<close>

datatype 'f kf_call = Initiate_with "'f BoundingBox" | Predict | Correct "'f BoundingBox" | Distances_of "'f BoundingBox list"

fun kf_do :: "('f, 'd) fp \<Rightarrow> 'f kf_call \<Rightarrow> 'f KalmanFilter \<Rightarrow> ('f KalmanFilter, unit) run" where
  "kf_do X (Initiate_with b) k = Ret () (kf_Initiate X b k)"
| "kf_do X Predict k = kf_Predict X k"
| "kf_do X (Correct b) k = kf_Update X b k"
| "kf_do X (Distances_of bs) k = call_then (GatingDistance X bs k) (\<lambda>_ k. Ret () k)"

fun kf_calls :: "('f, 'd) fp \<Rightarrow> 'f kf_call list \<Rightarrow> 'f KalmanFilter \<Rightarrow> ('f KalmanFilter, unit) run" where
  "kf_calls X [] k = Ret () k"
| "kf_calls X (c # cs) k = call_then (kf_do X c k) (\<lambda>_ k. kf_calls X cs k)"

lemma kf_do_ok:
  assumes "kf_ok k"
  obtains k' where "kf_do X c k = Ret () k'" "kf_ok k'" | k' where "kf_do X c k = Blocked k'"
proof (cases c)
  case (Initiate_with b)
  then show thesis using that(1) kf_ok_Initiate [OF assms, of X b] by simp
next
  case Predict
  then show thesis using that(1) kf_Predict_ok [OF assms, of X] by (metis kf_do.simps(2))
next
  case (Correct b)
  then show thesis using that kf_Update_ok [OF assms, of X b] by (metis kf_do.simps(3))
next
  case (Distances_of bs)
  show thesis
    by (rule GatingDistance_ok [OF assms, of X bs]) (use Distances_of that in \<open>simp_all\<close>)
qed

text \<open>C26: A Kalman filter can be driven by any sequence of calls without an exception: the shapes of
  all matrices fit whatever the floating point operations compute, and only the decomposition of
  the projected covariance may fail to return.\<close>

theorem kalman_never_throws:
  "case kf_calls X cs (new_KalmanFilter X) of Ret _ k \<Rightarrow> kf_ok k | Blocked _ \<Rightarrow> True | _ \<Rightarrow> False"
proof -
  have "case kf_calls X cs k of Ret _ k \<Rightarrow> kf_ok k | Blocked _ \<Rightarrow> True | _ \<Rightarrow> False" if "kf_ok k" for k
    using that
  proof (induction cs arbitrary: k)
    case (Cons c cs)
    show ?case by (rule kf_do_ok [OF Cons.prems, of X c]) (use Cons.IH in simp_all)
  qed simp
  then show ?thesis using kf_ok_new by blast
qed

end
