(* ===== verification/Track_Match.thy ===== *)
theory Track_Match
  imports Hungarian_Optimum Kalman
begin

text \<open>
  Matching of detections with tracks: the data of easydk/src/easytrack/track_data_type.h and
  easydk/include/easytrack/easy_track.h, the distances and the call of the assignment solver of
  match.h and match.cpp. The field \<open>mold\<close> of a feature is \<open>mutable\<close>: the norm is stored where it is
  first needed.
\<close>

subsection \<open>Data\<close>

record 'f Rect =
  xmin :: 'f
  ymin :: 'f
  xmax :: 'f
  ymax :: 'f

definition BoundingBox2Rect :: "'f arith \<Rightarrow> 'f BoundingBox \<Rightarrow> 'f Rect" where
  "BoundingBox2Rect A b = \<lparr>xmin = bb_x b, ymin = bb_y b, xmax = f_add A (bb_x b) (bb_width b), ymax = f_add A (bb_y b) (bb_height b)\<rparr>"

definition Rect2BoundingBox :: "'f arith \<Rightarrow> 'f Rect \<Rightarrow> 'f BoundingBox" where
  "Rect2BoundingBox A r = \<lparr>bb_x = xmin r, bb_y = ymin r, bb_width = f_sub A (xmax r) (xmin r), bb_height = f_sub A (ymax r) (ymin r)\<rparr>"

record 'f Feature =
  ft_vec :: "'f list"
  ft_mold :: 'f

record 'f DetectObject =
  do_label :: int
  do_score :: 'f
  do_bbox :: "'f BoundingBox"
  do_track_id :: int
  do_detect_id :: int
  do_feature :: "'f list"
  do_feat_mold :: 'f

text \<open>A match is a pair of a detection and a track, both given by their indices.\<close>

record MatchResult =
  mr_matches :: "(nat \<times> nat) list"
  mr_unmatched_tracks :: "nat list"
  mr_unmatched_detections :: "nat list"

definition Clean :: MatchResult where
  "Clean = \<lparr>mr_matches = [], mr_unmatched_tracks = [], mr_unmatched_detections = []\<rparr>"

subsection \<open>Distances\<close>

definition InnerProduct :: "'f arith \<Rightarrow> 'f list \<Rightarrow> 'f list \<Rightarrow> (unit, 'f) run" where
  "InnerProduct A lhs rhs =
     (if length lhs \<noteq> length rhs then Exc (throw INVALID_ARG ''inner product need two vector of equal size'') ()
      else Ret (fold (\<lambda>idx sum. f_add A sum (f_mul A (lhs ! idx) (rhs ! idx))) [0..<length lhs] (f_zero A)) ())"

definition L2Norm :: "'f arith \<Rightarrow> 'f list \<Rightarrow> (unit, 'f) run" where
  "L2Norm A feature = calc () (InnerProduct A feature feature) (\<lambda>x. Ret (f_sqrt A x) ())"

definition stored_norm :: "'f arith \<Rightarrow> 'f Feature \<Rightarrow> (unit, 'f) run" where
  "stored_norm A f = (if f_less A (ft_mold f) (f_zero A) then L2Norm A (ft_vec f) else Ret (ft_mold f) ())"

text \<open>The features before the current one are done; all of them are the state.\<close>

fun cosine_loop :: "'f arith \<Rightarrow> 'f list \<Rightarrow> 'f \<Rightarrow> 'f \<Rightarrow> 'f Feature list \<Rightarrow> 'f Feature list \<Rightarrow> ('f Feature list, 'f) run" where
  "cosine_loop A v x_mold max_simi done [] = Ret max_simi done"
| "cosine_loop A v x_mold max_simi done (track # rest) =
     calc (done @ track # rest) (stored_norm A track) (\<lambda>y_mold.
     let track = track\<lparr>ft_mold := y_mold\<rparr>
     in calc (done @ track # rest) (InnerProduct A (ft_vec track) v) (\<lambda>x_y.
        let cos_simi = (if f_eq A x_mold (f_zero A) \<or> f_eq A y_mold (f_zero A) then f_const A (-1)
                        else f_div A x_y (f_mul A x_mold y_mold))
        in cosine_loop A v x_mold (f_max A cos_simi max_simi) (done @ [track]) rest))"

definition CosineDistance :: "'f arith \<Rightarrow> 'f Feature \<Rightarrow> 'f Feature list \<Rightarrow> ('f Feature list, 'f) run" where
  "CosineDistance A det track_feats =
     calc track_feats (stored_norm A det) (\<lambda>x_mold.
     call_then (cosine_loop A (ft_vec det) x_mold (f_zero A) [] track_feats) (\<lambda>max_simi feats.
     Ret (f_sub A (f_const A 1) (if f_less A (f_const A 1) max_simi then f_const A 1 else max_simi)) feats))"

definition IoU :: "'f arith \<Rightarrow> 'f Rect \<Rightarrow> 'f Rect \<Rightarrow> 'f" where
  "IoU A a b =
     (let tl_x = f_max A (xmin a) (xmin b); tl_y = f_max A (ymin a) (ymin b);
          br_x = f_min A (xmax a) (xmax b); br_y = f_min A (ymax a) (ymax b);
          w = f_sub A br_x tl_x; h = f_sub A br_y tl_y
      in if f_le A w (f_zero A) \<or> f_le A h (f_zero A) then f_zero A
         else let area_intersection = f_mul A w h;
                  area_a = f_mul A (f_sub A (xmax a) (xmin a)) (f_sub A (ymax a) (ymin a));
                  area_b = f_mul A (f_sub A (xmax b) (xmin b)) (f_sub A (ymax b) (ymin b))
              in f_div A area_intersection (f_sub A (f_add A area_a area_b) area_intersection))"

definition IoUCost :: "('f, 'd) fp \<Rightarrow> 'f Rect list \<Rightarrow> 'f Rect list \<Rightarrow> 'f matrix" where
  "IoUCost X det_rects tra_rects =
     fill_by (\<lambda>i j. narrow X (f_sub (dbl X) (f_const (dbl X) 1) (widen X (IoU (flt X) (tra_rects ! j) (det_rects ! i)))))
       (new_matrix (flt X) (length det_rects) (length tra_rects))"

subsection \<open>The workspace of the solver\<close>

definition GetWorkspaceSize :: "nat \<Rightarrow> nat \<Rightarrow> nat" where
  "GetWorkspaceSize r c = c * r * 11 + r * 5 + c"

text \<open>The length of the buffer, 0 if there is none, and whether \<open>std::bad_alloc\<close> was not thrown.\<close>

definition Refresh :: "bool \<Rightarrow> nat \<Rightarrow> nat \<Rightarrow> nat \<times> bool" where
  "Refresh malloc_ok new_len len =
     (if new_len = 0 then (len, True)
      else if len < new_len then (if malloc_ok then (new_len, True) else (0, False)) else (len, True))"

definition HungarianMatch :: "'f arith \<Rightarrow> 'f matrix \<Rightarrow> (unit, int list) run" where
  "HungarianMatch A cost = calc () (Solve A (m_rows cost) (m_cols cost) (entry cost)) (\<lambda>(_, asg). Ret asg ())"

text \<open>
  Both matching routines of the tracker go through the assignment of the rows in the same way: a row
  without a column, or with one that costs more than the limit, is an unmatched track.
\<close>

definition arrange :: "'f arith \<Rightarrow> 'f matrix \<Rightarrow> 'f \<Rightarrow> nat list \<Rightarrow> nat list \<Rightarrow> int list \<Rightarrow> MatchResult \<times> nat list \<Rightarrow> MatchResult \<times> nat list" where
  "arrange A cost limit dets trks asg =
     fold (\<lambda>i (res, remained).
         if asg ! i < 0 \<or> f_less A limit (entry cost i (nat (asg ! i)))
         then (res\<lparr>mr_unmatched_tracks := mr_unmatched_tracks res @ [trks ! i]\<rparr>, remained)
         else (res\<lparr>mr_matches := mr_matches res @ [(dets ! nat (asg ! i), trks ! i)]\<rparr>,
               filter (\<lambda>d. d \<noteq> dets ! nat (asg ! i)) remained))
       [0..<length asg]"

end
