(* ===== verification/Track_Fm.thy ===== *)
theory Track_Fm
  imports Track_Match "HOL-Library.Multiset"
begin

text \<open>
  The tracker that matches features (easydk/src/easytrack/track_fm.cpp). The detections of the
  current frame are a part of the state, because their field \<open>feat_mold\<close> is \<open>mutable\<close> and set here;
  so is the vector the tracked objects are appended to. \<open>int\<close> counters of frames are integers.
\<close>

datatype TrackState = TENTATIVE | CONFIRMED | DELETED

record 'f TrackObject =
  to_kf :: "'f KalmanFilter"
  to_features :: "'f Feature list"
  to_pos :: "'f Rect"
  to_class_id :: int
  to_track_id :: int
  to_score :: 'f
  to_state :: TrackState
  to_age :: int
  to_time_since_last_update :: int
  to_has_feature :: bool

record 'f FeatureMatch =
  fm_max_cosine_distance :: 'f
  fm_max_iou_distance :: 'f
  fm_max_age :: int
  fm_n_init :: int
  fm_nn_budget :: nat
  fm_tracks :: "'f TrackObject list"
  fm_unconfirmed :: "nat list"
  fm_confirmed :: "nat list"
  fm_assignments :: "int list"
  fm_res_feature :: MatchResult
  fm_res_iou :: MatchResult
  fm_next_id :: u64
  fm_detects :: "'f DetectObject list"
  fm_out :: "'f DetectObject list"

definition new_FeatureMatch :: "('f, 'd) fp \<Rightarrow> 'f FeatureMatch" where
  "new_FeatureMatch X =
     \<lparr>fm_max_cosine_distance = fconst X (1 / 5), fm_max_iou_distance = fconst X (7 / 10), fm_max_age = 30, fm_n_init = 3,
      fm_nn_budget = 100, fm_tracks = [], fm_unconfirmed = [], fm_confirmed = [], fm_assignments = [],
      fm_res_feature = Clean, fm_res_iou = Clean, fm_next_id = 0, fm_detects = [], fm_out = []\<rparr>"

text \<open>\<open>nn_budget_\<close> is a \<open>uint32_t\<close>: a negative argument wraps.\<close>

definition SetParams :: "'f \<Rightarrow> int \<Rightarrow> 'f \<Rightarrow> int \<Rightarrow> int \<Rightarrow> 'f FeatureMatch \<Rightarrow> 'f FeatureMatch" where
  "SetParams max_cosine_distance nn_budget max_iou_distance max_age n_init s =
     s\<lparr>fm_max_cosine_distance := max_cosine_distance, fm_max_iou_distance := max_iou_distance,
       fm_nn_budget := unat (word_of_int nn_budget :: u32), fm_max_age := max_age, fm_n_init := n_init\<rparr>"

subsection \<open>Boxes\<close>

definition to_xyah :: "'f arith \<Rightarrow> 'f BoundingBox \<Rightarrow> 'f BoundingBox" where
  "to_xyah A b =
     \<lparr>bb_x = f_add A (bb_x b) (f_div A (bb_width b) (f_const A 2)), bb_y = f_add A (bb_y b) (f_div A (bb_height b) (f_const A 2)),
      bb_width = f_div A (bb_width b) (bb_height b), bb_height = bb_height b\<rparr>"

definition to_tlwh :: "'f arith \<Rightarrow> 'f BoundingBox \<Rightarrow> 'f BoundingBox" where
  "to_tlwh A b =
     (let w = f_mul A (bb_width b) (bb_height b)
      in \<lparr>bb_x = f_sub A (bb_x b) (f_div A w (f_const A 2)), bb_y = f_sub A (bb_y b) (f_div A (bb_height b) (f_const A 2)),
          bb_width = w, bb_height = bb_height b\<rparr>)"

subsection \<open>Tracks\<close>

definition update_track :: "nat \<Rightarrow> ('f TrackObject \<Rightarrow> 'f TrackObject) \<Rightarrow> 'f FeatureMatch \<Rightarrow> 'f FeatureMatch" where
  "update_track i f s = s\<lparr>fm_tracks := (fm_tracks s)[i := f (fm_tracks s ! i)]\<rparr>"

text \<open>A call of the filter of track \<open>i\<close>.\<close>

definition on_kf :: "nat \<Rightarrow> ('f KalmanFilter \<Rightarrow> ('f KalmanFilter, 'a) run) \<Rightarrow> 'f FeatureMatch \<Rightarrow> ('f FeatureMatch, 'a) run" where
  "on_kf i f s = lift_call (\<lambda>k. update_track i (\<lambda>t. t\<lparr>to_kf := k\<rparr>) s) (f (to_kf (fm_tracks s ! i)))"

definition InitNewTrack :: "('f, 'd) fp \<Rightarrow> 'f DetectObject \<Rightarrow> 'f FeatureMatch \<Rightarrow> 'f FeatureMatch" where
  "InitNewTrack X det s =
     (let A = flt X; has = list_ex (\<lambda>v. \<not> f_eq A v (f_zero A)) (do_feature det)
      in s\<lparr>fm_tracks := fm_tracks s @
             [\<lparr>to_kf = kf_Initiate X (to_xyah A (do_bbox det)) (new_KalmanFilter X),
               to_features = (if has then [\<lparr>ft_vec = do_feature det, ft_mold = do_feat_mold det\<rparr>] else []),
               to_pos = BoundingBox2Rect A (do_bbox det), to_class_id = do_label det, to_track_id = -1,
               to_score = do_score det, to_state = TENTATIVE, to_age = 1, to_time_since_last_update = 0, to_has_feature = has\<rparr>]\<rparr>)"

definition MarkMiss :: "nat \<Rightarrow> 'f FeatureMatch \<Rightarrow> 'f FeatureMatch" where
  "MarkMiss i s =
     (let t = fm_tracks s ! i
      in if to_state t = TENTATIVE \<or> to_time_since_last_update t > fm_max_age s
         then update_track i (\<lambda>t. t\<lparr>to_state := DELETED\<rparr>) s else s)"

subsection \<open>Matching by features\<close>

fun mold_detections :: "'f arith \<Rightarrow> nat list \<Rightarrow> 'f FeatureMatch \<Rightarrow> ('f FeatureMatch, unit) run" where
  "mold_detections A [] s = Ret () s"
| "mold_detections A (i # is) s =
     calc s (L2Norm A (do_feature (fm_detects s ! i))) (\<lambda>x.
     mold_detections A is (s\<lparr>fm_detects := (fm_detects s)[i := (fm_detects s ! i)\<lparr>do_feat_mold := x\<rparr>]\<rparr>))"

text \<open>One element of the cost matrix, then a row, then all rows; the matrix is passed along.\<close>

definition cosine_cost :: "('f, 'd) fp \<Rightarrow> nat \<Rightarrow> nat \<Rightarrow> 'f \<Rightarrow> 'f FeatureMatch \<Rightarrow> ('f FeatureMatch, 'f) run" where
  "cosine_cost X t d gating s =
     (let A = flt X; det = fm_detects s ! d
      in call_then (lift_call (\<lambda>fs. update_track t (\<lambda>o'. o'\<lparr>to_features := fs\<rparr>) s)
           (CosineDistance A \<lparr>ft_vec = do_feature det, ft_mold = do_feat_mold det\<rparr> (to_features (fm_tracks s ! t))))
         (\<lambda>x s. Ret (if f_less A (fm_max_cosine_distance s) x \<or> f_less A (fconst X (94877 / 10000)) gating
                     then narrow X (f_add (dbl X) (widen X (fm_max_cosine_distance s)) (f_const (dbl X) (1 / 100000))) else x) s))"

fun cost_row :: "('f, 'd) fp \<Rightarrow> nat \<Rightarrow> nat \<Rightarrow> 'f matrix \<Rightarrow> (nat \<times> nat) list \<Rightarrow> 'f matrix \<Rightarrow> 'f FeatureMatch \<Rightarrow> ('f FeatureMatch, 'f matrix) run" where
  "cost_row X i t gating_dist [] cost s = Ret cost s"
| "cost_row X i t gating_dist ((j, d) # ds) cost s =
     call_then (cosine_cost X t d (entry gating_dist 0 j) s) (\<lambda>x s. cost_row X i t gating_dist ds (set_entry i j x cost) s)"

fun cost_rows :: "('f, 'd) fp \<Rightarrow> 'f BoundingBox list \<Rightarrow> nat list \<Rightarrow> (nat \<times> nat) list \<Rightarrow> 'f matrix \<Rightarrow> 'f FeatureMatch \<Rightarrow> ('f FeatureMatch, 'f matrix) run" where
  "cost_rows X measurements dets [] cost s = Ret cost s"
| "cost_rows X measurements dets ((i, t) # ts) cost s =
     call_then (on_kf t (GatingDistance X measurements) s) (\<lambda>gating_dist s.
     call_then (cost_row X i t gating_dist (zip [0..<length dets] dets) cost s) (\<lambda>cost s.
     cost_rows X measurements dets ts cost s))"

text \<open>The matching of the tracks of one age.\<close>

definition cascade_round :: "('f, 'd) fp \<Rightarrow> nat list \<Rightarrow> nat list \<Rightarrow> 'f matrix \<Rightarrow> 'f FeatureMatch \<Rightarrow> ('f FeatureMatch, 'f matrix \<times> nat list) run" where
  "cascade_round X track_indices remained cost s =
     (let A = flt X; dets = mr_unmatched_detections (fm_res_feature s)
      in call_then (cost_rows X (map (\<lambda>d. to_xyah A (do_bbox (fm_detects s ! d))) dets) dets
             (zip [0..<length track_indices] track_indices) (Resize A (length track_indices) (length dets) cost) s) (\<lambda>cost s.
         calc s (HungarianMatch A cost) (\<lambda>asg.
         let (res, remained) = arrange A cost (fm_max_cosine_distance s) dets track_indices asg (fm_res_feature s, remained)
         in Ret (cost, remained) (s\<lparr>fm_assignments := asg, fm_res_feature := res\<lparr>mr_unmatched_detections := remained\<rparr>\<rparr>))))"

fun cascade :: "('f, 'd) fp \<Rightarrow> (int \<Rightarrow> nat list) \<Rightarrow> int list \<Rightarrow> nat list \<Rightarrow> 'f matrix \<Rightarrow> 'f FeatureMatch \<Rightarrow> ('f FeatureMatch, unit) run" where
  "cascade X age_track_indices [] remained cost s = Ret () s"
| "cascade X age_track_indices (age # ages) remained cost s =
     (if remained = [] \<or> fm_confirmed s = [] then Ret () s
      else if age_track_indices age = [] then cascade X age_track_indices ages remained cost s
      else call_then (cascade_round X (age_track_indices age) remained cost s) (\<lambda>(cost, remained) s.
           cascade X age_track_indices ages remained cost s))"

definition age_classes :: "'f FeatureMatch \<Rightarrow> int \<Rightarrow> nat list" where
  "age_classes s age = filter (\<lambda>t. to_time_since_last_update (fm_tracks s ! t) - 1 = age) (fm_confirmed s)"

definition MatchCascade :: "('f, 'd) fp \<Rightarrow> 'f FeatureMatch \<Rightarrow> ('f FeatureMatch, unit) run" where
  "MatchCascade X s =
     (let s = s\<lparr>fm_res_feature := Clean\<lparr>mr_unmatched_detections := [0..<length (fm_detects s)]\<rparr>\<rparr>
      in if fm_confirmed s = [] \<or> fm_detects s = [] then Ret () s
         else call_then (mold_detections (flt X) [0..<length (fm_detects s)] s) (\<lambda>_ s.
              cascade X (age_classes s) [0..fm_max_age s - 1] (mr_unmatched_detections (fm_res_feature s)) empty_matrix s))"

subsection \<open>Matching by overlap\<close>

definition MatchIou :: "('f, 'd) fp \<Rightarrow> nat list \<Rightarrow> nat list \<Rightarrow> 'f FeatureMatch \<Rightarrow> ('f FeatureMatch, unit) run" where
  "MatchIou X detect_indices track_indices s =
     (if detect_indices = [] then Ret () (s\<lparr>fm_res_iou := Clean\<lparr>mr_unmatched_tracks := track_indices\<rparr>\<rparr>)
      else if track_indices = [] then Ret () (s\<lparr>fm_res_iou := Clean\<lparr>mr_unmatched_detections := detect_indices\<rparr>\<rparr>)
      else let A = flt X;
               s = s\<lparr>fm_res_iou := Clean\<rparr>;
               cost = IoUCost X (map (\<lambda>t. to_pos (fm_tracks s ! t)) track_indices)
                                (map (\<lambda>d. BoundingBox2Rect A (do_bbox (fm_detects s ! d))) detect_indices)
           in calc s (HungarianMatch A cost) (\<lambda>asg.
              let (res, remained) = arrange A cost (fm_max_iou_distance s) detect_indices track_indices asg (Clean, detect_indices)
              in Ret () (s\<lparr>fm_assignments := asg, fm_res_iou := res\<lparr>mr_unmatched_detections := remained\<rparr>\<rparr>)))"

subsection \<open>UpdateFrame\<close>

definition emit_track :: "nat \<Rightarrow> int \<Rightarrow> 'f FeatureMatch \<Rightarrow> 'f FeatureMatch" where
  "emit_track d track_id s = s\<lparr>fm_out := fm_out s @ [(fm_detects s ! d)\<lparr>do_track_id := track_id, do_detect_id := int d\<rparr>]\<rparr>"

definition predict_track :: "('f, 'd) fp \<Rightarrow> nat \<Rightarrow> 'f FeatureMatch \<Rightarrow> ('f FeatureMatch, unit) run" where
  "predict_track X i s =
     (let t = fm_tracks s ! i;
          s = (if to_state t = CONFIRMED \<and> to_has_feature t then s\<lparr>fm_confirmed := fm_confirmed s @ [i]\<rparr>
               else s\<lparr>fm_unconfirmed := fm_unconfirmed s @ [i]\<rparr>);
          s = update_track i (\<lambda>t. t\<lparr>to_time_since_last_update := to_time_since_last_update t + 1\<rparr>) s
      in call_then (on_kf i (kf_Predict X) s) (\<lambda>_ s.
         Ret () (update_track i (\<lambda>t. t\<lparr>to_pos := BoundingBox2Rect (flt X) (to_tlwh (flt X) (GetCurPos (to_kf t)))\<rparr>) s)))"

fun predict_tracks :: "('f, 'd) fp \<Rightarrow> nat list \<Rightarrow> 'f FeatureMatch \<Rightarrow> ('f FeatureMatch, unit) run" where
  "predict_tracks X [] s = Ret () s"
| "predict_tracks X (i # is) s = call_then (predict_track X i s) (\<lambda>_ s. predict_tracks X is s)"

text \<open>Confirmed tracks that were missed for the first time are matched by overlap too.\<close>

definition second_chance :: "'f FeatureMatch \<Rightarrow> nat list \<times> 'f FeatureMatch" where
  "second_chance s =
     fold (\<lambda>idx (match_iou_track, s).
         if to_time_since_last_update (fm_tracks s ! idx) = 1 then (match_iou_track @ [idx], s) else (match_iou_track, MarkMiss idx s))
       (mr_unmatched_tracks (fm_res_feature s)) (fm_unconfirmed s, s)"

definition add_feature :: "nat \<Rightarrow> 'f Feature \<Rightarrow> 'f Feature list \<Rightarrow> 'f Feature list" where
  "add_feature nn_budget f fs = (let fs = fs @ [f] in if length fs > nn_budget then tl fs else fs)"

definition confirm_track :: "nat \<Rightarrow> 'f FeatureMatch \<Rightarrow> 'f FeatureMatch" where
  "confirm_track i s =
     (let t = fm_tracks s ! i
      in if to_state t = TENTATIVE \<and> to_age t > fm_n_init s
         then (update_track i (\<lambda>t. t\<lparr>to_state := CONFIRMED, to_track_id := sint (ucast (fm_next_id s) :: u32)\<rparr>) s)
                \<lparr>fm_next_id := fm_next_id s + 1\<rparr>
         else s)"

definition update_matched :: "('f, 'd) fp \<Rightarrow> nat \<times> nat \<Rightarrow> 'f FeatureMatch \<Rightarrow> ('f FeatureMatch, unit) run" where
  "update_matched X pair s =
     (let d = fst pair; i = snd pair; det = fm_detects s ! d
      in call_then (on_kf i (kf_Update X (to_xyah (flt X) (do_bbox det))) s) (\<lambda>_ s.
         let s = emit_track d (to_track_id (fm_tracks s ! i)) s;
             s = update_track i (\<lambda>t. if to_has_feature t
                    then t\<lparr>to_features := add_feature (fm_nn_budget s) \<lparr>ft_vec = do_feature det, ft_mold = do_feat_mold det\<rparr> (to_features t)\<rparr>
                    else t) s;
             s = update_track i (\<lambda>t. t\<lparr>to_time_since_last_update := 0, to_age := to_age t + 1\<rparr>) s
         in Ret () (confirm_track i s)))"

fun update_all_matched :: "('f, 'd) fp \<Rightarrow> (nat \<times> nat) list \<Rightarrow> 'f FeatureMatch \<Rightarrow> ('f FeatureMatch, unit) run" where
  "update_all_matched X [] s = Ret () s"
| "update_all_matched X (p # ps) s = call_then (update_matched X p s) (\<lambda>_ s. update_all_matched X ps s)"

definition start_track :: "('f, 'd) fp \<Rightarrow> nat \<Rightarrow> 'f FeatureMatch \<Rightarrow> 'f FeatureMatch" where
  "start_track X d s = (let s = InitNewTrack X (fm_detects s ! d) s in emit_track d (to_track_id (last (fm_tracks s))) s)"

definition erase_dead :: "'f FeatureMatch \<Rightarrow> 'f FeatureMatch" where
  "erase_dead s =
     s\<lparr>fm_tracks := filter (\<lambda>t. \<not> (to_state t = DELETED \<or> to_time_since_last_update t > fm_max_age s)) (fm_tracks s)\<rparr>"

text \<open>The frame of a tracker that has tracks.\<close>

definition fm_match_frame :: "('f, 'd) fp \<Rightarrow> 'f FeatureMatch \<Rightarrow> ('f FeatureMatch, unit) run" where
  "fm_match_frame X s =
     call_then (predict_tracks X [0..<length (fm_tracks s)] s) (\<lambda>_ s.
     call_then (MatchCascade X s) (\<lambda>_ s.
     let (match_iou_track, s) = second_chance s
     in call_then (MatchIou X (mr_unmatched_detections (fm_res_feature s)) match_iou_track s) (\<lambda>_ s.
        let s = s\<lparr>fm_res_feature := (fm_res_feature s)
                    \<lparr>mr_matches := mr_matches (fm_res_feature s) @ mr_matches (fm_res_iou s)\<rparr>\<rparr>
        in call_then (update_all_matched X (mr_matches (fm_res_feature s)) s) (\<lambda>_ s.
           let s = fold (start_track X) (mr_unmatched_detections (fm_res_iou s)) s;
               s = fold MarkMiss (mr_unmatched_tracks (fm_res_iou s)) s
           in Ret () (erase_dead s)))))"

definition fm_private_UpdateFrame :: "('f, 'd) fp \<Rightarrow> 'f FeatureMatch \<Rightarrow> ('f FeatureMatch, unit) run" where
  "fm_private_UpdateFrame X s =
     (let s = s\<lparr>fm_detects := map (\<lambda>d. d\<lparr>do_feat_mold := f_const (flt X) (-1)\<rparr>) (fm_detects s)\<rparr>
      in if fm_tracks s = []
         then Ret () (fold (\<lambda>d s. emit_track d (-1) (InitNewTrack X (fm_detects s ! d) s)) [0..<length (fm_detects s)] s)
         else fm_match_frame X (s\<lparr>fm_unconfirmed := [], fm_confirmed := []\<rparr>))"

text \<open>\<open>tracks\<close> is the vector behind the pointer, \<open>None\<close> for a null pointer.\<close>

definition fm_UpdateFrame :: "('f, 'd) fp \<Rightarrow> 'f DetectObject list \<Rightarrow> 'f DetectObject list option \<Rightarrow> 'f FeatureMatch \<Rightarrow> ('f FeatureMatch, unit) run" where
  "fm_UpdateFrame X detects tracks s =
     (case tracks of
        None \<Rightarrow> Exc (throw INVALID_ARG (''parameter '' @ [CHR 0x27] @ ''tracks'' @ [CHR 0x27] @ '' is nullptr'')) s
      | Some out \<Rightarrow> fm_private_UpdateFrame X (s\<lparr>fm_detects := detects, fm_out := out\<rparr>))"

end
