(* ===== verification/Track_Props.thy ===== *)
theory Track_Props
  imports Track_Fm Kalman_Props
begin

text \<open>
  What a call of \<open>UpdateFrame\<close> does with detections and tracks, whatever the floating point operations
  compute: matching is a partition of both, every detection is reported once, and the identifiers
  of tracks are never given twice.
\<close>

subsection \<open>The assignment as a partition\<close>

definition arranged :: "nat list \<Rightarrow> nat list \<Rightarrow> MatchResult \<Rightarrow> nat list \<Rightarrow> MatchResult \<Rightarrow> nat list \<Rightarrow> bool" where
  "arranged dets trks res remained res' remained' \<longleftrightarrow>
     (\<exists>ms us. mr_matches res' = mr_matches res @ ms \<and> mr_unmatched_tracks res' = mr_unmatched_tracks res @ us \<and>
        mr_unmatched_detections res' = mr_unmatched_detections res \<and>
        remained' = filter (\<lambda>d. d \<notin> fst ` set ms) remained \<and> distinct (map fst ms) \<and> fst ` set ms \<subseteq> set dets \<and>
        mset (map snd ms) + mset us = mset trks)"

lemma arrange_step:
  assumes inv: "arranged (map (\<lambda>k. dets ! nat (asg ! k)) (filter (\<lambda>k. 0 \<le> asg ! k) [0..<i])) (take i trks) res remained r1 rem1"
    and i: "i < length trks"
    and new: "asg ! i \<ge> 0 \<Longrightarrow> dets ! nat (asg ! i) \<notin> (\<lambda>k. dets ! nat (asg ! k)) ` {k. k < i \<and> 0 \<le> asg ! k}"
  shows "case (if asg ! i < 0 \<or> bad
         then (r1\<lparr>mr_unmatched_tracks := mr_unmatched_tracks r1 @ [trks ! i]\<rparr>, rem1)
         else (r1\<lparr>mr_matches := mr_matches r1 @ [(dets ! nat (asg ! i), trks ! i)]\<rparr>, filter (\<lambda>d. d \<noteq> dets ! nat (asg ! i)) rem1)) of
      (r2, rem2) \<Rightarrow> arranged (map (\<lambda>k. dets ! nat (asg ! k)) (filter (\<lambda>k. 0 \<le> asg ! k) [0..<Suc i])) (take (Suc i) trks) res remained r2 rem2"
proof -
  obtain ms us where r1: "mr_matches r1 = mr_matches res @ ms" "mr_unmatched_tracks r1 = mr_unmatched_tracks res @ us"
      "mr_unmatched_detections r1 = mr_unmatched_detections res" "rem1 = filter (\<lambda>d. d \<notin> fst ` set ms) remained" "distinct (map fst ms)"
    and ms: "fst ` set ms \<subseteq> (\<lambda>k. dets ! nat (asg ! k)) ` {k. k < i \<and> 0 \<le> asg ! k}"
    and part: "mset (map snd ms) + mset us = mset (take i trks)"
    using inv unfolding arranged_def by auto
  show ?thesis
  proof (cases "asg ! i < 0 \<or> bad")
    case True
    then show ?thesis
      using r1 ms part i unfolding arranged_def
      by (auto simp: take_Suc_conv_app_nth intro!: exI [of _ ms] exI [of _ "us @ [trks ! i]"])
  next
    case False
    let ?d = "dets ! nat (asg ! i)"
    have d: "?d \<notin> fst ` set ms" using ms new False by auto
    show ?thesis
      using r1 ms part i d False unfolding arranged_def
      by (auto simp: take_Suc_conv_app_nth intro!: exI [of _ "ms @ [(?d, trks ! i)]"] exI [of _ us] filter_cong)
  qed
qed


lemma arrange_spec:
  assumes asg: "complete_assignment (length trks) (length dets) asg" and dets: "distinct dets"
    and eq: "arrange A cost limit dets trks asg (res, remained) = (res', remained')"
  shows "arranged dets trks res remained res' remained'"
proof -
  have len: "length asg = length trks" and range: "\<And>i. i < length trks \<Longrightarrow> 0 \<le> asg ! i \<Longrightarrow> asg ! i < int (length dets)"
    and inj: "\<And>i j. i < length trks \<Longrightarrow> j < length trks \<Longrightarrow> asg ! i = asg ! j \<Longrightarrow> asg ! i \<noteq> -1 \<Longrightarrow> i = j"
    using asg unfolding complete_assignment_def by force+
  let ?ds = "\<lambda>i. map (\<lambda>k. dets ! nat (asg ! k)) (filter (\<lambda>k. 0 \<le> asg ! k) [0..<i])"
  let ?P = "\<lambda>i (r, rem). arranged (?ds i) (take i trks) res remained r rem"
  let ?f = "\<lambda>i (res, remained). if asg ! i < 0 \<or> f_less A limit (entry cost i (nat (asg ! i)))
         then (res\<lparr>mr_unmatched_tracks := mr_unmatched_tracks res @ [trks ! i]\<rparr>, remained)
         else (res\<lparr>mr_matches := mr_matches res @ [(dets ! nat (asg ! i), trks ! i)]\<rparr>, filter (\<lambda>d. d \<noteq> dets ! nat (asg ! i)) remained)"
  have "?P (length trks) (fold ?f [0..<length trks] (res, remained))"
  proof (rule fold_upto_induct [where P = ?P])
    show "?P 0 (res, remained)" by (auto simp: arranged_def)
  next
    fix i and rr :: "MatchResult \<times> nat list"
    assume i: "i < length trks" and P: "?P i rr"
    obtain r1 rem1 where rr: "rr = (r1, rem1)" by (cases rr)
    have "dets ! nat (asg ! i) \<noteq> dets ! nat (asg ! k)" if "k < i" "0 \<le> asg ! k" "0 \<le> asg ! i" for k
    proof -
      have "nat (asg ! i) < length dets" "nat (asg ! k) < length dets" using range i that by (simp_all add: nat_less_iff)
      moreover have "asg ! i \<noteq> asg ! k" using inj [of i k] i that by auto
      ultimately show ?thesis using dets that by (simp add: nth_eq_iff_index_eq eq_nat_nat_iff)
    qed
    then have "dets ! nat (asg ! i) \<notin> (\<lambda>k. dets ! nat (asg ! k)) ` {k. k < i \<and> 0 \<le> asg ! k}" if "0 \<le> asg ! i" using that by auto
    from arrange_step [OF _ i this, where bad = "f_less A limit (entry cost i (nat (asg ! i)))"] P
    show "?P (Suc i) (?f i rr)" unfolding rr prod.case .
  qed
  moreover have "set (?ds (length trks)) \<subseteq> set dets" using range by (auto simp: nat_less_iff)
  ultimately show ?thesis using eq len unfolding arrange_def by (auto simp: arranged_def)
qed

subsection \<open>Outcomes of the steps\<close>

definition mismatch :: exn where
  "mismatch = throw INVALID_ARG ''inner product need two vector of equal size''"

text \<open>
  The call returns into \<open>P\<close>, or throws because of features of different lengths and leaves a state
  in \<open>Q\<close>, or does not return.
\<close>

definition leaves :: "('a \<Rightarrow> 's \<Rightarrow> bool) \<Rightarrow> ('s \<Rightarrow> bool) \<Rightarrow> ('s, 'a) run \<Rightarrow> bool" where
  "leaves P Q r = (case r of Ret a s \<Rightarrow> P a s | Exc e s \<Rightarrow> e = mismatch \<and> Q s | Blocked s \<Rightarrow> True | _ \<Rightarrow> False)"

lemma leaves_simps [simp]:
  "leaves P Q (Ret a s) = P a s" "leaves P Q (Exc e s) \<longleftrightarrow> e = mismatch \<and> Q s" "leaves P Q (Blocked s)"
  "\<not> leaves P Q UB" "\<not> leaves P Q Terminate"
  by (simp_all add: leaves_def)

lemma leaves_then: "leaves P Q r \<Longrightarrow> (\<And>a s. P a s \<Longrightarrow> leaves P' Q (k a s)) \<Longrightarrow> leaves P' Q (call_then r k)"
  by (cases r) auto

lemma leaves_calc: "leaves (\<lambda>a _. R a) (\<lambda>_. True) r \<Longrightarrow> Q s \<Longrightarrow> (\<And>a. R a \<Longrightarrow> leaves P Q (f a)) \<Longrightarrow> leaves P Q (calc s r f)"
  by (cases r) auto

lemma leaves_lift: "leaves P' Q' r \<Longrightarrow> (\<And>a s. P' a s \<Longrightarrow> P a (f s)) \<Longrightarrow> (\<And>s. Q' s \<Longrightarrow> Q (f s)) \<Longrightarrow> leaves P Q (lift_call f r)"
  by (cases r) auto

lemma leaves_mono: "leaves P Q r \<Longrightarrow> (\<And>a s. P a s \<Longrightarrow> P' a s) \<Longrightarrow> (\<And>s. Q s \<Longrightarrow> Q' s) \<Longrightarrow> leaves P' Q' r"
  by (cases r) auto

lemma InnerProduct_leaves [simp]: "leaves (\<lambda>_ _. True) (\<lambda>_. True) (InnerProduct A v w)"
  by (simp add: InnerProduct_def mismatch_def)

lemma L2Norm_leaves: "leaves (\<lambda>_ _. True) (\<lambda>_. True) (L2Norm A v)"
  unfolding L2Norm_def by (rule leaves_calc [where R = "\<lambda>_. True"]) simp_all

lemma stored_norm_leaves: "leaves (\<lambda>_ _. True) (\<lambda>_. True) (stored_norm A f)"
  by (simp add: stored_norm_def L2Norm_leaves)

lemma cosine_loop_leaves: "leaves (\<lambda>_ _. True) (\<lambda>_. True) (cosine_loop A v x mx done fs)"
proof (induction fs arbitrary: mx "done")
  case (Cons f fs)
  show ?case
    unfolding cosine_loop.simps Let_def
    by (intro leaves_calc [where R = "\<lambda>_. True"] stored_norm_leaves InnerProduct_leaves Cons.IH) simp_all
qed simp

lemma CosineDistance_leaves: "leaves (\<lambda>_ _. True) (\<lambda>_. True) (CosineDistance A f fs)"
  unfolding CosineDistance_def
  by (rule leaves_calc [where R = "\<lambda>_. True"], rule stored_norm_leaves, simp, rule leaves_then, rule cosine_loop_leaves) simp

lemma HungarianMatch_leaves:
  "leaves (\<lambda>asg _. complete_assignment (m_rows cost) (m_cols cost) asg) (\<lambda>_. True) (HungarianMatch A cost)"
  by (rule Solve_cases [of A "m_rows cost" "m_cols cost" "entry cost"]) (simp_all add: HungarianMatch_def)

subsection \<open>What the matching leaves alone\<close>

definition core :: "'f TrackObject \<Rightarrow> TrackState \<times> int \<times> int \<times> int \<times> bool" where
  "core t = (to_state t, to_track_id t, to_age t, to_time_since_last_update t, to_has_feature t)"

definition facts :: "'f DetectObject \<Rightarrow> int \<times> 'f \<times> 'f BoundingBox \<times> 'f list" where
  "facts d = (do_label d, do_score d, do_bbox d, do_feature d)"

definition kfs :: "'f FeatureMatch \<Rightarrow> bool" where
  "kfs s \<longleftrightarrow> (\<forall>t\<in>set (fm_tracks s). kf_ok (to_kf t))"

definition view :: "'f FeatureMatch \<Rightarrow> (int \<times> int \<times> nat) \<times> (TrackState \<times> int \<times> int \<times> int \<times> bool) list \<times>
    (nat list \<times> nat list) \<times> u64 \<times> 'f DetectObject list \<times> (int \<times> 'f \<times> 'f BoundingBox \<times> 'f list) list" where
  "view s = ((fm_max_age s, fm_n_init s, fm_nn_budget s), map core (fm_tracks s), (fm_unconfirmed s, fm_confirmed s), fm_next_id s,
     fm_out s, map facts (fm_detects s))"

definition calm :: "'f FeatureMatch \<Rightarrow> 'f FeatureMatch \<Rightarrow> bool" where
  "calm s t \<longleftrightarrow> kfs t \<and> view t = view s"

lemma calm_refl: "kfs s \<Longrightarrow> calm s s"
  by (simp add: calm_def)

lemma calm_trans: "calm s t \<Longrightarrow> calm t u \<Longrightarrow> calm s u"
  by (simp add: calm_def)

lemma view_tracks: "view t = view s \<Longrightarrow> length (fm_tracks t) = length (fm_tracks s)"
  by (auto simp: view_def dest: map_eq_imp_length_eq)

lemma view_detects: "view t = view s \<Longrightarrow> length (fm_detects t) = length (fm_detects s)"
  by (auto simp: view_def dest: map_eq_imp_length_eq)

lemma map_update_same: "i < length xs \<Longrightarrow> f x = f (xs ! i) \<Longrightarrow> map f (xs[i := x]) = map f xs"
  by (metis list_update_id map_update nth_map)

lemma kfs_update: "kfs s \<Longrightarrow> (i < length (fm_tracks s) \<Longrightarrow> kf_ok (to_kf (f (fm_tracks s ! i)))) \<Longrightarrow> kfs (update_track i f s)"
  by (cases "i < length (fm_tracks s)") (auto simp: kfs_def update_track_def list_update_beyond dest: set_update_subset_insert [THEN subsetD])

lemma kfs_nth: "kfs s \<Longrightarrow> i < length (fm_tracks s) \<Longrightarrow> kf_ok (to_kf (fm_tracks s ! i))"
  by (simp add: kfs_def)

lemma view_update: "i < length (fm_tracks s) \<Longrightarrow> core (f (fm_tracks s ! i)) = core (fm_tracks s ! i) \<Longrightarrow> view (update_track i f s) = view s"
  by (simp add: view_def update_track_def map_update_same)

text \<open>The results of the matching so far.\<close>

definition results :: "'f FeatureMatch \<Rightarrow> MatchResult \<times> MatchResult" where
  "results s = (fm_res_feature s, fm_res_iou s)"

definition still :: "'f FeatureMatch \<Rightarrow> 'f FeatureMatch \<Rightarrow> bool" where
  "still s t \<longleftrightarrow> calm s t \<and> results t = results s"

lemma still_trans: "still s t \<Longrightarrow> still t u \<Longrightarrow> still s u"
  by (auto simp: still_def intro: calm_trans)

lemma still_kfs: "still s t \<Longrightarrow> kfs t"
  by (simp add: still_def calm_def)

lemma still_tracks: "still s t \<Longrightarrow> length (fm_tracks t) = length (fm_tracks s)"
  unfolding still_def calm_def by (blast intro: view_tracks)

lemma still_update:
  "kfs s \<Longrightarrow> i < length (fm_tracks s) \<Longrightarrow> kf_ok (to_kf (f (fm_tracks s ! i))) \<Longrightarrow> core (f (fm_tracks s ! i)) = core (fm_tracks s ! i) \<Longrightarrow>
    still s (update_track i f s)"
  by (simp add: still_def calm_def kfs_update view_update) (simp add: results_def update_track_def)

lemma GatingDistance_still:
  assumes "kfs s" and "i < length (fm_tracks s)"
  shows "leaves (\<lambda>_ t. still s t) (still s) (on_kf i (GatingDistance X bs) s)"
proof -
  have "still s (update_track i (\<lambda>t. t\<lparr>to_kf := k\<rparr>) s)" if "kf_ok k" for k
    by (rule still_update) (use assms that in \<open>simp_all add: core_def\<close>)
  note update = this
  show ?thesis
    by (rule GatingDistance_ok [OF kfs_nth [OF assms], of X bs]) (simp_all add: on_kf_def update)
qed

lemma cosine_cost_still:
  assumes "kfs s" and "i < length (fm_tracks s)"
  shows "leaves (\<lambda>_ t. still s t) (still s) (cosine_cost X i d g s)"
proof -
  have "still s (update_track i (\<lambda>t. t\<lparr>to_features := fs\<rparr>) s)" for fs
    by (rule still_update) (use assms kfs_nth in \<open>auto simp: core_def\<close>)
  then show ?thesis
    unfolding cosine_cost_def Let_def
    by (intro leaves_then [where P = "\<lambda>_ t. still s t"] leaves_lift [OF CosineDistance_leaves]) simp_all
qed

lemma cost_row_still:
  assumes "kfs s" and "i < length (fm_tracks s)"
  shows "leaves (\<lambda>c t. still s t \<and> m_rows c = m_rows cost \<and> m_cols c = m_cols cost) (still s) (cost_row X k i gd ds cost s)"
  using assms
proof (induction ds arbitrary: cost s)
  case Nil
  then show ?case by (simp add: still_def calm_refl)
next
  case (Cons jd ds)
  obtain j d where [simp]: "jd = (j, d)" by (cases jd)
  show ?case
    unfolding \<open>jd = (j, d)\<close> cost_row.simps
  proof (rule leaves_then [OF cosine_cost_still [OF Cons.prems]])
    fix x t assume t: "still s t"
    have "leaves (\<lambda>c u. still t u \<and> m_rows c = m_rows (set_entry k j x cost) \<and> m_cols c = m_cols (set_entry k j x cost)) (still t)
        (cost_row X k i gd ds (set_entry k j x cost) t)"
      by (rule Cons.IH) (use still_kfs [OF t] still_tracks [OF t] Cons.prems(2) in simp_all)
    then show "leaves (\<lambda>c u. still s u \<and> m_rows c = m_rows cost \<and> m_cols c = m_cols cost) (still s) (cost_row X k i gd ds (set_entry k j x cost) t)"
      by (rule leaves_mono) (use still_trans [OF t] in \<open>auto simp: set_entry_def\<close>)
  qed
qed

lemma cost_rows_still:
  assumes "kfs s" and "snd ` set ts \<subseteq> {..<length (fm_tracks s)}"
  shows "leaves (\<lambda>c t. still s t \<and> m_rows c = m_rows cost \<and> m_cols c = m_cols cost) (still s) (cost_rows X ms dets ts cost s)"
  using assms
proof (induction ts arbitrary: cost s)
  case Nil
  then show ?case by (simp add: still_def calm_refl)
next
  case (Cons kt ts)
  obtain k i where [simp]: "kt = (k, i)" by (cases kt)
  have i: "i < length (fm_tracks s)" using Cons.prems(2) by auto
  show ?case
    unfolding \<open>kt = (k, i)\<close> cost_rows.simps
  proof (rule leaves_then [OF GatingDistance_still [OF Cons.prems(1) i]])
    fix gd t assume t: "still s t"
    have row: "leaves (\<lambda>c u. still t u \<and> m_rows c = m_rows cost \<and> m_cols c = m_cols cost) (still t)
        (cost_row X k i gd (zip [0..<length dets] dets) cost t)"
      by (rule cost_row_still) (use still_kfs [OF t] still_tracks [OF t] i in simp_all)
    show "leaves (\<lambda>c u. still s u \<and> m_rows c = m_rows cost \<and> m_cols c = m_cols cost) (still s)
        (call_then (cost_row X k i gd (zip [0..<length dets] dets) cost t) (\<lambda>cost s. cost_rows X ms dets ts cost s))"
    proof (rule leaves_then [OF leaves_mono [OF row _ still_trans [OF t]]])
      fix c :: "'a matrix" and u assume u: "still t u \<and> m_rows c = m_rows cost \<and> m_cols c = m_cols cost"
      then have su: "still s u" using still_trans [OF t] by blast
      have "leaves (\<lambda>c' w. still u w \<and> m_rows c' = m_rows c \<and> m_cols c' = m_cols c) (still u) (cost_rows X ms dets ts c u)"
        by (rule Cons.IH) (use still_kfs [OF su] still_tracks [OF su] Cons.prems(2) in simp_all)
      then show "leaves (\<lambda>c' w. still s w \<and> m_rows c' = m_rows cost \<and> m_cols c' = m_cols cost) (still s) (cost_rows X ms dets ts c u)"
        by (rule leaves_mono) (use u still_trans [OF su] in auto)
    qed
  qed
qed

lemma mold_detections_still:
  assumes "kfs s" and "set is \<subseteq> {..<length (fm_detects s)}"
  shows "leaves (\<lambda>_ t. still s t) (still s) (mold_detections A is s)"
  using assms
proof (induction "is" arbitrary: s)
  case Nil
  then show ?case by (simp add: still_def calm_refl)
next
  case (Cons i "is")
  show ?case
    unfolding mold_detections.simps
  proof (rule leaves_calc [OF L2Norm_leaves])
    show "still s s" using Cons.prems by (simp add: still_def calm_refl)
  next
    fix x
    let ?t = "s\<lparr>fm_detects := (fm_detects s)[i := (fm_detects s ! i)\<lparr>do_feat_mold := x\<rparr>]\<rparr>"
    have t: "still s ?t"
      using Cons.prems by (simp add: still_def calm_def results_def view_def kfs_def map_update_same facts_def)
    have "leaves (\<lambda>_ t. still ?t t) (still ?t) (mold_detections A is ?t)" by (rule Cons.IH) (use still_kfs [OF t] Cons.prems in simp_all)
    then show "leaves (\<lambda>_ t. still s t) (still s) (mold_detections A is ?t)" by (rule leaves_mono) (use still_trans [OF t] in auto)
  qed
qed

subsection \<open>Matching splits detections and tracks\<close>

text \<open>
  \<open>split_of ds C r\<close>: the detections \<open>ds\<close> are the matched and the unmatched ones, and the tracks that
  were matched or missed are different ones of \<open>C\<close>.
\<close>

definition split_of :: "nat list \<Rightarrow> nat set \<Rightarrow> MatchResult \<Rightarrow> bool" where
  "split_of ds C r \<longleftrightarrow> mset (map fst (mr_matches r)) + mset (mr_unmatched_detections r) = mset ds \<and>
     distinct (map snd (mr_matches r) @ mr_unmatched_tracks r) \<and> set (map snd (mr_matches r) @ mr_unmatched_tracks r) \<subseteq> C"

lemma split_of_mono: "split_of ds C r \<Longrightarrow> C \<subseteq> D \<Longrightarrow> split_of ds D r"
  by (auto simp: split_of_def)

lemma mset_filter_parts:
  assumes "distinct rem" and "distinct ms" and "set ms \<subseteq> set rem"
  shows "mset ms + mset (filter (\<lambda>d. d \<notin> set ms) rem) = mset rem"
proof -
  have "mset ms = mset (filter (\<lambda>d. d \<in> set ms) rem)"
    using assms by (intro set_eq_iff_mset_eq_distinct [THEN iffD1]) auto
  then show ?thesis using multiset_partition [of "mset rem" "\<lambda>d. d \<in> set ms"] by simp
qed

lemma distinct_shuffle:
  assumes "distinct (M @ U)" and "set (M @ U) \<subseteq> C" and "distinct (m @ u)" and "set (m @ u) = T" and "T \<inter> C = {}"
  shows "distinct ((M @ m) @ (U @ u)) \<and> set ((M @ m) @ (U @ u)) \<subseteq> C \<union> T"
  using assms by auto

lemma arranged_split:
  assumes split: "split_of ds C r" and rem: "rem = mr_unmatched_detections r" and ds: "distinct ds"
    and arr: "arranged rem trks r rem r' rem'" and trks: "distinct trks" "set trks \<inter> C = {}"
  shows "split_of ds (C \<union> set trks) (r'\<lparr>mr_unmatched_detections := rem'\<rparr>)"
proof -
  obtain ms us where r': "mr_matches r' = mr_matches r @ ms" "mr_unmatched_tracks r' = mr_unmatched_tracks r @ us"
      "rem' = filter (\<lambda>d. d \<notin> fst ` set ms) rem" and ms: "distinct (map fst ms)" "fst ` set ms \<subseteq> set rem"
    and part: "mset (map snd ms) + mset us = mset trks"
    using arr by (auto simp: arranged_def)
  have mr: "mset (map fst (mr_matches r)) + mset rem = mset ds" using split rem by (simp add: split_of_def)
  then have "mset (map fst (mr_matches r) @ rem) = mset ds" by simp
  then have "distinct rem" using ds mset_eq_imp_distinct_iff [of "map fst (mr_matches r) @ rem" ds] by simp
  then have "mset (map fst ms) + mset rem' = mset rem" using mset_filter_parts [of rem "map fst ms"] ms r'(3) by simp
  with mr have "mset (map fst (mr_matches r')) + mset rem' = mset ds" using r'(1) by (simp add: add.assoc)
  moreover have "mset (map snd ms @ us) = mset trks" using part by simp
  then have "distinct (map snd ms @ us)" "set (map snd ms @ us) = set trks"
    using trks(1) mset_eq_imp_distinct_iff mset_eq_setD by blast+
  moreover have "distinct (map snd (mr_matches r) @ mr_unmatched_tracks r)" "set (map snd (mr_matches r) @ mr_unmatched_tracks r) \<subseteq> C"
    using split by (simp_all add: split_of_def)
  ultimately show ?thesis using trks(2) distinct_shuffle [of "map snd (mr_matches r)" "mr_unmatched_tracks r" C "map snd ms" us "set trks"] r'(1,2)
    unfolding split_of_def by simp
qed

lemma cascade_round_leaves:
  assumes "kfs s" and split: "split_of ds C (fm_res_feature s)" and rem: "remained = mr_unmatched_detections (fm_res_feature s)" and ds: "distinct ds"
    and trks: "distinct trks" "set trks \<inter> C = {}" "set trks \<subseteq> {..<length (fm_tracks s)}"
  shows "leaves (\<lambda>(_, rem) t. calm s t \<and> split_of ds (C \<union> set trks) (fm_res_feature t) \<and> rem = mr_unmatched_detections (fm_res_feature t))
    (calm s) (cascade_round X trks remained cost s)"
  unfolding cascade_round_def Let_def
proof (rule leaves_then)
  let ?dets = "mr_unmatched_detections (fm_res_feature s)"
  let ?cost = "Resize (flt X) (length trks) (length ?dets) cost"
  have "leaves (\<lambda>c t. still s t \<and> m_rows c = m_rows ?cost \<and> m_cols c = m_cols ?cost) (still s)
      (cost_rows X (map (\<lambda>d. to_xyah (flt X) (do_bbox (fm_detects s ! d))) ?dets) ?dets (zip [0..<length trks] trks) ?cost s)"
    by (rule cost_rows_still [OF assms(1)]) (use trks(3) in \<open>auto dest: set_zip_rightD\<close>)
  then show "leaves (\<lambda>c t. still s t \<and> m_rows c = length trks \<and> m_cols c = length ?dets) (calm s)
      (cost_rows X (map (\<lambda>d. to_xyah (flt X) (do_bbox (fm_detects s ! d))) ?dets) ?dets (zip [0..<length trks] trks) ?cost s)"
    by (rule leaves_mono) (auto simp: Resize_def Let_def still_def)
next
  fix c :: "'a matrix" and t
  assume t: "still s t \<and> m_rows c = length trks \<and> m_cols c = length (mr_unmatched_detections (fm_res_feature s))"
  then have calm: "calm s t" and res: "fm_res_feature t = fm_res_feature s" by (simp_all add: still_def results_def)
  show "leaves (\<lambda>(_, rem) t. calm s t \<and> split_of ds (C \<union> set trks) (fm_res_feature t) \<and> rem = mr_unmatched_detections (fm_res_feature t))
    (calm s) (calc t (HungarianMatch (flt X) c) (\<lambda>asg.
         case arrange (flt X) c (fm_max_cosine_distance t) (mr_unmatched_detections (fm_res_feature s)) trks asg (fm_res_feature t, remained) of
         (res, remained) \<Rightarrow> Ret (c, remained) (t\<lparr>fm_assignments := asg, fm_res_feature := res\<lparr>mr_unmatched_detections := remained\<rparr>\<rparr>)))"
  proof (rule leaves_calc [where Q = "calm s", OF HungarianMatch_leaves calm])
    fix asg assume asg: "complete_assignment (m_rows c) (m_cols c) asg"
    obtain r' rem' where eq: "arrange (flt X) c (fm_max_cosine_distance t) remained trks asg (fm_res_feature t, remained) = (r', rem')"
      by (cases "arrange (flt X) c (fm_max_cosine_distance t) remained trks asg (fm_res_feature t, remained)")
    have "mset (map fst (mr_matches (fm_res_feature s)) @ remained) = mset ds" using split rem by (simp add: split_of_def)
    then have "distinct remained" using ds mset_eq_imp_distinct_iff by fastforce
    then have "arranged remained trks (fm_res_feature t) remained r' rem'"
      using arrange_spec [OF _ _ eq] asg t rem by simp
    from arranged_split [OF split rem ds _ trks(1,2), of r' rem'] this
    have "split_of ds (C \<union> set trks) (r'\<lparr>mr_unmatched_detections := rem'\<rparr>)" by (simp add: res)
    then show "leaves (\<lambda>(_, rem) t. calm s t \<and> split_of ds (C \<union> set trks) (fm_res_feature t) \<and> rem = mr_unmatched_detections (fm_res_feature t))
      (calm s) (case arrange (flt X) c (fm_max_cosine_distance t) (mr_unmatched_detections (fm_res_feature s)) trks asg (fm_res_feature t, remained) of
         (res, remained) \<Rightarrow> Ret (c, remained) (t\<lparr>fm_assignments := asg, fm_res_feature := res\<lparr>mr_unmatched_detections := remained\<rparr>\<rparr>))"
      using calm eq by (simp flip: rem) (simp add: calm_def kfs_def view_def)
  qed
qed


lemma cascade_leaves:
  assumes "kfs s" and "split_of ds C (fm_res_feature s)" and "remained = mr_unmatched_detections (fm_res_feature s)" and ds: "distinct ds"
    and "C \<subseteq> K" and K: "K \<subseteq> {..<length (fm_tracks s)}"
    and groups: "\<forall>a\<in>set ages. distinct (groups a) \<and> set (groups a) \<subseteq> K \<and> set (groups a) \<inter> C = {}"
    and apart: "\<forall>a\<in>set ages. \<forall>b\<in>set ages. a \<noteq> b \<longrightarrow> set (groups a) \<inter> set (groups b) = {}" and "distinct ages"
  shows "leaves (\<lambda>_ t. calm s t \<and> split_of ds K (fm_res_feature t)) (calm s) (cascade X groups ages remained cost s)"
  using assms(1-3,5-)
proof (induction ages arbitrary: C remained cost s)
  case Nil
  then show ?case by (auto simp: calm_refl intro: split_of_mono)
next
  case (Cons a ages)
  have stop: "leaves (\<lambda>_ t. calm s t \<and> split_of ds K (fm_res_feature t)) (calm s) (Ret () s)"
    using Cons.prems split_of_mono [OF Cons.prems(2,4)] by (simp add: calm_refl)
  have skip: "leaves (\<lambda>_ t. calm s t \<and> split_of ds K (fm_res_feature t)) (calm s) (cascade X groups ages remained cost s)"
    by (rule Cons.IH [of s C]) (use Cons.prems in auto)
  have "leaves (\<lambda>_ t. calm s t \<and> split_of ds K (fm_res_feature t)) (calm s)
      (call_then (cascade_round X (groups a) remained cost s) (\<lambda>(cost, remained) s. cascade X groups ages remained cost s))"
  proof (rule leaves_then, rule cascade_round_leaves [OF Cons.prems(1-3) ds])
    show "distinct (groups a)" "set (groups a) \<inter> C = {}" "set (groups a) \<subseteq> {..<length (fm_tracks s)}"
      using Cons.prems by auto
  next
    fix y :: "'a matrix \<times> nat list" and t
    assume y: "(case y of (_, rem) \<Rightarrow> \<lambda>t. calm s t \<and> split_of ds (C \<union> set (groups a)) (fm_res_feature t) \<and> rem = mr_unmatched_detections (fm_res_feature t)) t"
    obtain c rem where [simp]: "y = (c, rem)" by (cases y)
    have t: "calm s t" using y by simp
    have len: "length (fm_tracks t) = length (fm_tracks s)" using t unfolding calm_def by (blast intro: view_tracks)
    have "leaves (\<lambda>_ u. calm t u \<and> split_of ds K (fm_res_feature u)) (calm t) (cascade X groups ages rem c t)"
      by (rule Cons.IH [of t "C \<union> set (groups a)"]) (use y Cons.prems len in \<open>auto simp: calm_def\<close>)
    then show "leaves (\<lambda>_ t. calm s t \<and> split_of ds K (fm_res_feature t)) (calm s) ((case y of (cost, remained) \<Rightarrow> \<lambda>s. cascade X groups ages remained cost s) t)"
      unfolding \<open>y = (c, rem)\<close> prod.case by (rule leaves_mono) (use calm_trans [OF t] in auto)
  qed
  then show ?case using stop skip by simp
qed


lemma view_D:
  assumes "view t = view s"
  shows "fm_confirmed t = fm_confirmed s" "fm_unconfirmed t = fm_unconfirmed s" "fm_next_id t = fm_next_id s" "fm_out t = fm_out s"
    "fm_max_age t = fm_max_age s" "fm_n_init t = fm_n_init s" "map core (fm_tracks t) = map core (fm_tracks s)" "map facts (fm_detects t) = map facts (fm_detects s)"
  using assms by (simp_all add: view_def)

lemma MatchCascade_leaves:
  assumes kfs: "kfs s" and conf: "distinct (fm_confirmed s)" "set (fm_confirmed s) \<subseteq> {..<length (fm_tracks s)}"
  shows "leaves (\<lambda>_ t. calm s t \<and> split_of [0..<length (fm_detects s)] (set (fm_confirmed s)) (fm_res_feature t)) (calm s) (MatchCascade X s)"
proof -
  let ?ds = "[0..<length (fm_detects s)]"
  let ?s = "s\<lparr>fm_res_feature := Clean\<lparr>mr_unmatched_detections := ?ds\<rparr>\<rparr>"
  have s: "kfs ?s" "calm s ?s" using kfs by (simp_all add: kfs_def calm_def view_def)
  have split: "split_of ?ds {} (fm_res_feature ?s)" by (simp add: split_of_def Clean_def)
  have "leaves (\<lambda>_ t. calm s t \<and> split_of ?ds (set (fm_confirmed s)) (fm_res_feature t)) (calm s)
      (call_then (mold_detections (flt X) ?ds ?s) (\<lambda>_ s. cascade X (age_classes s) [0..fm_max_age s - 1] (mr_unmatched_detections (fm_res_feature s)) empty_matrix s))"
  proof (rule leaves_then [OF leaves_mono [OF mold_detections_still [OF s(1)]]])
    fix t assume t: "still ?s t"
    then have calm: "calm s t" using calm_trans [OF s(2)] by (simp add: still_def)
    have res: "fm_res_feature t = fm_res_feature ?s" using t by (simp add: still_def results_def)
    have v: "view t = view s" "kfs t" using calm by (simp_all add: calm_def)
    have "leaves (\<lambda>_ u. calm t u \<and> split_of ?ds (set (fm_confirmed s)) (fm_res_feature u)) (calm t)
        (cascade X (age_classes t) [0..fm_max_age t - 1] (mr_unmatched_detections (fm_res_feature t)) empty_matrix t)"
      by (rule cascade_leaves [OF v(2), of _ "{}"])
        (use conf view_D(1) [OF v(1)] view_tracks [OF v(1)] split in \<open>auto simp: res age_classes_def\<close>)
    then show "leaves (\<lambda>_ t. calm s t \<and> split_of ?ds (set (fm_confirmed s)) (fm_res_feature t)) (calm s)
        (cascade X (age_classes t) [0..fm_max_age t - 1] (mr_unmatched_detections (fm_res_feature t)) empty_matrix t)"
      by (rule leaves_mono) (use calm_trans [OF calm] in auto)
  qed (use calm_trans [OF s(2)] in \<open>auto simp: still_def\<close>)
  moreover have "leaves (\<lambda>_ t. calm s t \<and> split_of ?ds (set (fm_confirmed s)) (fm_res_feature t)) (calm s) (Ret () ?s)"
    using s split_of_mono [OF split] by simp
  ultimately show ?thesis unfolding MatchCascade_def Let_def by simp
qed

definition iou_split :: "nat list \<Rightarrow> nat list \<Rightarrow> MatchResult \<Rightarrow> bool" where
  "iou_split ds ts r \<longleftrightarrow> mset (map fst (mr_matches r)) + mset (mr_unmatched_detections r) = mset ds \<and>
     mset (map snd (mr_matches r)) + mset (mr_unmatched_tracks r) = mset ts"

lemma fill_by_dims: "m_rows (fill_by f m) = m_rows m \<and> m_cols (fill_by f m) = m_cols m"
  unfolding fill_by_def
  by (rule fold_keeps [where P = "\<lambda>m'. m_rows m' = m_rows m \<and> m_cols m' = m_cols m"])
    ((rule fold_keeps [where P = "\<lambda>m'. m_rows m' = m_rows m \<and> m_cols m' = m_cols m"]; simp add: set_entry_def), simp)

lemma MatchIou_leaves:
  assumes kfs: "kfs s" and ds: "distinct ds"
  shows "leaves (\<lambda>_ t. calm s t \<and> fm_res_feature t = fm_res_feature s \<and> iou_split ds ts (fm_res_iou t)) (calm s) (MatchIou X ds ts s)"
proof (cases "ds = [] \<or> ts = []")
  case True
  then show ?thesis using kfs by (auto simp: MatchIou_def calm_def kfs_def view_def iou_split_def Clean_def)
next
  case False
  let ?s = "s\<lparr>fm_res_iou := Clean\<rparr>"
  let ?cost = "IoUCost X (map (\<lambda>t. to_pos (fm_tracks ?s ! t)) ts) (map (\<lambda>d. BoundingBox2Rect (flt X) (do_bbox (fm_detects ?s ! d))) ds)"
  have dims: "m_rows ?cost = length ts" "m_cols ?cost = length ds" by (simp_all add: IoUCost_def fill_by_dims new_matrix_def)
  have calm: "calm s ?s" using kfs by (simp add: calm_def kfs_def view_def)
  have "leaves (\<lambda>_ t. calm s t \<and> fm_res_feature t = fm_res_feature s \<and> iou_split ds ts (fm_res_iou t)) (calm s)
      (calc ?s (HungarianMatch (flt X) ?cost) (\<lambda>asg. case arrange (flt X) ?cost (fm_max_iou_distance ?s) ds ts asg (Clean, ds) of
         (res, remained) \<Rightarrow> Ret () (?s\<lparr>fm_assignments := asg, fm_res_iou := res\<lparr>mr_unmatched_detections := remained\<rparr>\<rparr>)))"
  proof (rule leaves_calc [where Q = "calm s", OF HungarianMatch_leaves calm])
    fix asg assume asg: "complete_assignment (m_rows ?cost) (m_cols ?cost) asg"
    obtain r rem where eq: "arrange (flt X) ?cost (fm_max_iou_distance ?s) ds ts asg (Clean, ds) = (r, rem)" by fastforce
    have "arranged ds ts Clean ds r rem" by (rule arrange_spec [OF _ ds eq]) (use asg dims in simp)
    then obtain ms us where r: "mr_matches r = ms" "mr_unmatched_tracks r = us" "rem = filter (\<lambda>d. d \<notin> fst ` set ms) ds"
      "distinct (map fst ms)" "fst ` set ms \<subseteq> set ds" "mset (map snd ms) + mset us = mset ts"
      by (auto simp: arranged_def Clean_def)
    have "iou_split ds ts (r\<lparr>mr_unmatched_detections := rem\<rparr>)"
      using mset_filter_parts [OF ds r(4)] r by (simp add: iou_split_def)
    then show "leaves (\<lambda>_ t. calm s t \<and> fm_res_feature t = fm_res_feature s \<and> iou_split ds ts (fm_res_iou t)) (calm s)
      (case arrange (flt X) ?cost (fm_max_iou_distance ?s) ds ts asg (Clean, ds) of
         (res, remained) \<Rightarrow> Ret () (?s\<lparr>fm_assignments := asg, fm_res_iou := res\<lparr>mr_unmatched_detections := remained\<rparr>\<rparr>))"
      unfolding eq using kfs by (simp add: calm_def kfs_def view_def)
  qed
  with False show ?thesis by (simp add: MatchIou_def Let_def)
qed

end
