(* ===== verification/Track_Update.thy ===== *)
theory Track_Update
  imports Track_Props
begin

text \<open>
  A whole frame of the tracker: the stages of \<open>UpdateFrame\<close> from the prediction to the removal of
  dead tracks, and the two properties of it, on the reported detections and on the identifiers.
\<close>

subsection \<open>States and identifiers of the tracks\<close>

definition ics :: "'f FeatureMatch \<Rightarrow> (TrackState \<times> int) list" where
  "ics s = map (\<lambda>t. (to_state t, to_track_id t)) (fm_tracks s)"

lemma length_ics [simp]: "length (ics s) = length (fm_tracks s)"
  by (simp add: ics_def)

fun id_rule :: "int \<Rightarrow> TrackState \<times> int \<Rightarrow> bool" where
  "id_rule nid (st, n) \<longleftrightarrow> (st = TENTATIVE \<longrightarrow> n = -1) \<and> (st = CONFIRMED \<longrightarrow> n \<noteq> -1) \<and> (n = -1 \<or> 0 \<le> n \<and> n < nid)"

lemma id_rule_mono: "id_rule a p \<Longrightarrow> a \<le> b \<Longrightarrow> id_rule b p"
  by (cases p) auto

definition fresh_ids :: "int \<Rightarrow> (TrackState \<times> int) list \<Rightarrow> bool" where
  "fresh_ids nid L \<longleftrightarrow>
     (\<forall>p\<in>set L. id_rule nid p) \<and>
     (\<forall>i<length L. \<forall>j<length L. i \<noteq> j \<longrightarrow> snd (L ! i) \<noteq> -1 \<longrightarrow> snd (L ! i) \<noteq> snd (L ! j))"

lemma fresh_ids_deleted:
  assumes "fresh_ids nid L" and "length L' = length L"
    and "\<And>i. i < length L \<Longrightarrow> L' ! i = L ! i \<or> L' ! i = (DELETED, snd (L ! i))"
  shows "fresh_ids nid L'"
proof -
  have snd: "snd (L' ! i) = snd (L ! i)" if "i < length L" for i using assms(3) [OF that] by auto
  have "id_rule nid p"
    if p: "p \<in> set L'" for p
  proof -
    obtain i where i: "i < length L" "p = L' ! i" using p assms(2) by (auto simp: in_set_conv_nth)
    then have "L ! i \<in> set L" by simp
    then have "id_rule nid (L ! i)"
      using assms(1) unfolding fresh_ids_def by blast
    then show ?thesis using assms(3) [OF i(1)] i(2) by (cases "L ! i") auto
  qed
  then show ?thesis using assms(1,2) unfolding fresh_ids_def by (simp add: snd)
qed

lemma fresh_ids_confirm:
  assumes "fresh_ids nid L" and "i < length L" and "0 \<le> nid"
  shows "fresh_ids (nid + 1) (L[i := (CONFIRMED, nid)])"
  unfolding fresh_ids_def
proof (intro conjI ballI allI impI)
  fix p assume "p \<in> set (L[i := (CONFIRMED, nid)])"
  then have "p = (CONFIRMED, nid) \<or> p \<in> set L" using set_update_subset_insert by fastforce
  then show "id_rule (nid + 1) p"
    using assms(1,3) by (auto simp: fresh_ids_def intro: id_rule_mono [of nid])
next
  have other: "snd (L ! k) \<noteq> nid" if "k < length L" for k
  proof -
    have "id_rule nid (L ! k)" using assms(1) nth_mem [OF that] unfolding fresh_ids_def by blast
    then show ?thesis using assms(3) by (cases "L ! k") auto
  qed
  fix j k assume "j < length (L[i := (CONFIRMED, nid)])" "k < length (L[i := (CONFIRMED, nid)])" "j \<noteq> k" "snd (L[i := (CONFIRMED, nid)] ! j) \<noteq> -1"
  then show "snd (L[i := (CONFIRMED, nid)] ! j) \<noteq> snd (L[i := (CONFIRMED, nid)] ! k)"
    using assms(1,2) other [of j] other [of k] by (auto simp: nth_list_update fresh_ids_def split: if_splits)
qed

lemma fresh_ids_append:
  assumes "fresh_ids nid L"
  shows "fresh_ids nid (L @ [(TENTATIVE, -1)])"
  unfolding fresh_ids_def
proof (intro conjI allI impI)
  show "\<forall>p\<in>set (L @ [(TENTATIVE, -1)]). id_rule nid p"
    using assms by (auto simp: fresh_ids_def)
next
  fix i j assume "i < length (L @ [(TENTATIVE, -1)])" "j < length (L @ [(TENTATIVE, -1)])" "i \<noteq> j" "snd ((L @ [(TENTATIVE, -1)]) ! i) \<noteq> -1"
  then show "snd ((L @ [(TENTATIVE, -1)]) ! i) \<noteq> snd ((L @ [(TENTATIVE, -1)]) ! j)"
    using assms by (auto simp: fresh_ids_def nth_append less_Suc_eq split: if_splits)
qed

text \<open>The same condition on the list of identifiers.\<close>

lemma distinct_filter_nth:
  "distinct (filter P xs) \<longleftrightarrow> (\<forall>i<length xs. \<forall>j<length xs. i \<noteq> j \<longrightarrow> P (xs ! i) \<longrightarrow> xs ! i \<noteq> xs ! j)"
proof (induction xs)
  case (Cons x xs)
  have "(\<forall>i<length (x # xs). \<forall>j<length (x # xs). i \<noteq> j \<longrightarrow> P ((x # xs) ! i) \<longrightarrow> (x # xs) ! i \<noteq> (x # xs) ! j) \<longleftrightarrow>
      (P x \<longrightarrow> x \<notin> set xs) \<and> (\<forall>i<length xs. \<forall>j<length xs. i \<noteq> j \<longrightarrow> P (xs ! i) \<longrightarrow> xs ! i \<noteq> xs ! j)"
    by (auto simp: All_less_Suc2 in_set_conv_nth)
  with Cons show ?case by auto
qed simp

lemma fresh_ids_distinct: "fresh_ids nid L \<longleftrightarrow>
    (\<forall>p\<in>set L. id_rule nid p) \<and>
    distinct (filter (\<lambda>n. n \<noteq> -1) (map snd L))"
  by (simp add: fresh_ids_def distinct_filter_nth)

lemma fresh_ids_filter:
  assumes "fresh_ids nid (map f xs)"
  shows "fresh_ids nid (map f (filter P xs))"
proof -
  have "filter (\<lambda>n. n \<noteq> -1) (map snd (map f (filter P xs))) = map (snd \<circ> f) (filter P (filter (\<lambda>x. snd (f x) \<noteq> -1) xs))"
    by (induction xs) auto
  moreover have "distinct (map (snd \<circ> f) (filter (\<lambda>x. snd (f x) \<noteq> -1) xs))"
    using assms by (simp add: fresh_ids_distinct filter_map comp_def)
  then have "distinct (map (snd \<circ> f) (filter P (filter (\<lambda>x. snd (f x) \<noteq> -1) xs)))" by (rule distinct_map_filter)
  ultimately show ?thesis using assms by (auto simp: fresh_ids_distinct)
qed

lemma fresh_ids_indices:
  assumes "fresh_ids nid L" and "distinct is" and "set is \<subseteq> {..<length L}"
  shows "distinct (filter (\<lambda>n. n \<noteq> -1) (map (\<lambda>i. snd (L ! i)) is))"
  unfolding distinct_filter_nth
proof (intro allI impI)
  fix i j assume "i < length (map (\<lambda>i. snd (L ! i)) is)" "j < length (map (\<lambda>i. snd (L ! i)) is)" "i \<noteq> j" "map (\<lambda>i. snd (L ! i)) is ! i \<noteq> -1"
  then show "map (\<lambda>i. snd (L ! i)) is ! i \<noteq> map (\<lambda>i. snd (L ! i)) is ! j"
    using assms by (simp add: fresh_ids_def nth_eq_iff_index_eq subset_iff)
qed

subsection \<open>Updates of one track\<close>

lemma update_track_simps [simp]:
  "fm_next_id (update_track i f s) = fm_next_id s" "fm_out (update_track i f s) = fm_out s" "fm_detects (update_track i f s) = fm_detects s"
  "fm_confirmed (update_track i f s) = fm_confirmed s" "fm_unconfirmed (update_track i f s) = fm_unconfirmed s"
  "fm_res_feature (update_track i f s) = fm_res_feature s" "fm_res_iou (update_track i f s) = fm_res_iou s"
  "fm_max_age (update_track i f s) = fm_max_age s" "fm_n_init (update_track i f s) = fm_n_init s" "fm_nn_budget (update_track i f s) = fm_nn_budget s"
  "length (fm_tracks (update_track i f s)) = length (fm_tracks s)"
  by (simp_all add: update_track_def)

lemma nth_update_track: "i < length (fm_tracks s) \<Longrightarrow> fm_tracks (update_track i f s) ! j = (if j = i then f (fm_tracks s ! i) else fm_tracks s ! j)"
  by (simp add: update_track_def)

lemma ics_update_track:
  "i < length (fm_tracks s) \<Longrightarrow> ics (update_track i f s) = (ics s)[i := (to_state (f (fm_tracks s ! i)), to_track_id (f (fm_tracks s ! i)))]"
  by (simp add: ics_def update_track_def map_update)

lemma ics_update_same:
  "(i < length (fm_tracks s) \<Longrightarrow> to_state (f (fm_tracks s ! i)) = to_state (fm_tracks s ! i) \<and> to_track_id (f (fm_tracks s ! i)) = to_track_id (fm_tracks s ! i)) \<Longrightarrow>
    ics (update_track i f s) = ics s"
  by (cases "i < length (fm_tracks s)") (simp_all add: ics_def update_track_def map_update_same list_update_beyond)

lemma kfs_update_same: "kfs s \<Longrightarrow> (\<And>t. to_kf (f t) = to_kf t) \<Longrightarrow> kfs (update_track i f s)"
  by (rule kfs_update) (simp_all add: kfs_nth)

lemma nth_ics: "i < length (fm_tracks s) \<Longrightarrow> ics s ! i = (to_state (fm_tracks s ! i), to_track_id (fm_tracks s ! i))"
  by (simp add: ics_def)

lemma on_kf_Ret:
  assumes "f (to_kf (fm_tracks s ! i)) = Ret a k"
  shows "on_kf i f s = Ret a (update_track i (\<lambda>t. t\<lparr>to_kf := k\<rparr>) s)"
  using assms by (simp add: on_kf_def)

subsection \<open>Prediction\<close>

lemma predict_track_ret:
  assumes "kfs s" and "i < length (fm_tracks s)"
  obtains t where "predict_track X i s = Ret () t" "kfs t" "ics t = ics s" "fm_next_id t = fm_next_id s" "fm_out t = fm_out s" "fm_detects t = fm_detects s"
    "mset (fm_confirmed t) + mset (fm_unconfirmed t) = add_mset i (mset (fm_confirmed s) + mset (fm_unconfirmed s))"
proof -
  define u where "u = (if to_state (fm_tracks s ! i) = CONFIRMED \<and> to_has_feature (fm_tracks s ! i) then s\<lparr>fm_confirmed := fm_confirmed s @ [i]\<rparr>
               else s\<lparr>fm_unconfirmed := fm_unconfirmed s @ [i]\<rparr>)"
  define v where "v = update_track i (\<lambda>t. t\<lparr>to_time_since_last_update := to_time_since_last_update t + 1\<rparr>) u"
  have u: "fm_tracks u = fm_tracks s" "fm_next_id u = fm_next_id s" "fm_out u = fm_out s" "fm_detects u = fm_detects s"
    "mset (fm_confirmed u) + mset (fm_unconfirmed u) = add_mset i (mset (fm_confirmed s) + mset (fm_unconfirmed s))"
    by (simp_all add: u_def)
  have "kfs u" using assms(1) u(1) by (simp add: kfs_def)
  then have v: "kfs v" "i < length (fm_tracks v)"
    using assms(2) u(1) unfolding v_def by (simp_all add: kfs_update_same)
  obtain k where k: "kf_Predict X (to_kf (fm_tracks v ! i)) = Ret () k" "kf_ok k" by (rule kf_Predict_ok [OF kfs_nth [OF v]])
  define w where "w = update_track i (\<lambda>t. t\<lparr>to_kf := k\<rparr>) v"
  define x where "x = update_track i (\<lambda>t. t\<lparr>to_pos := BoundingBox2Rect (flt X) (to_tlwh (flt X) (GetCurPos (to_kf t)))\<rparr>) w"
  have "predict_track X i s = Ret () x"
    by (simp add: predict_track_def Let_def on_kf_Ret [where f = "kf_Predict X", OF k(1)] flip: u_def v_def w_def x_def)
  moreover have w: "kfs w" using v k unfolding w_def by (simp add: kfs_update)
  moreover have "kfs x" using w unfolding x_def by (rule kfs_update_same) simp
  moreover have "ics x = ics s" using u(1) unfolding x_def w_def v_def by (simp add: ics_update_same) (simp add: ics_def)
  ultimately show thesis using u by (intro that [of x]) (simp_all add: x_def w_def v_def)
qed

lemma predict_tracks_ret:
  assumes "kfs s" and "set is \<subseteq> {..<length (fm_tracks s)}"
  obtains t where "predict_tracks X is s = Ret () t" "kfs t" "ics t = ics s" "fm_next_id t = fm_next_id s" "fm_out t = fm_out s" "fm_detects t = fm_detects s"
    "mset (fm_confirmed t) + mset (fm_unconfirmed t) = mset is + (mset (fm_confirmed s) + mset (fm_unconfirmed s))"
  using assms
proof (induction "is" arbitrary: s thesis)
  case (Cons i "is")
  obtain u where u: "predict_track X i s = Ret () u" "kfs u" "ics u = ics s" "fm_next_id u = fm_next_id s" "fm_out u = fm_out s" "fm_detects u = fm_detects s"
    "mset (fm_confirmed u) + mset (fm_unconfirmed u) = add_mset i (mset (fm_confirmed s) + mset (fm_unconfirmed s))"
    using predict_track_ret [of s i X] Cons.prems by auto
  then have "length (fm_tracks u) = length (fm_tracks s)" using length_ics [of u] by simp
  then obtain t where "predict_tracks X is u = Ret () t" "kfs t" "ics t = ics u" "fm_next_id t = fm_next_id u" "fm_out t = fm_out u" "fm_detects t = fm_detects u"
    "mset (fm_confirmed t) + mset (fm_unconfirmed t) = mset is + (mset (fm_confirmed u) + mset (fm_unconfirmed u))"
    using Cons.IH [of u] u(2) Cons.prems by auto
  with u show ?case by (intro Cons.prems(1) [of t]) simp_all
qed simp

subsection \<open>Missed tracks\<close>

definition marked :: "'f FeatureMatch \<Rightarrow> 'f FeatureMatch \<Rightarrow> bool" where
  "marked s t \<longleftrightarrow> (kfs s \<longrightarrow> kfs t) \<and> fm_next_id t = fm_next_id s \<and> fm_out t = fm_out s \<and> fm_detects t = fm_detects s \<and>
     fm_res_feature t = fm_res_feature s \<and> fm_res_iou t = fm_res_iou s \<and> fm_max_age t = fm_max_age s \<and> length (ics t) = length (ics s) \<and>
     (\<forall>i<length (ics s). ics t ! i = ics s ! i \<or> ics t ! i = (DELETED, snd (ics s ! i)))"

lemma marked_refl: "marked s s"
  by (simp add: marked_def)

lemma marked_trans: "marked s t \<Longrightarrow> marked t u \<Longrightarrow> marked s u"
  unfolding marked_def by (metis snd_conv)

lemma MarkMiss_marked: "marked s (MarkMiss i s)"
proof (cases "i < length (fm_tracks s)")
  case True
  let ?t = "update_track i (\<lambda>t. t\<lparr>to_state := DELETED\<rparr>) s"
  have "ics ?t = (ics s)[i := (DELETED, snd (ics s ! i))]" using True by (simp add: ics_update_track nth_ics)
  with True have "marked s ?t" by (auto simp: marked_def nth_list_update kfs_update_same)
  then show ?thesis by (simp add: MarkMiss_def Let_def marked_refl)
next
  case False
  then have "update_track i f s = s" for f by (simp add: update_track_def list_update_beyond)
  then show ?thesis by (simp add: MarkMiss_def Let_def marked_refl)
qed

lemma fold_MarkMiss_marked: "marked s (fold MarkMiss is s)"
  by (rule fold_keeps [where P = "marked s"]) (auto intro: marked_trans MarkMiss_marked marked_refl)

lemma marked_fresh: "marked s t \<Longrightarrow> fresh_ids (uint (fm_next_id s)) (ics s) \<Longrightarrow> fresh_ids (uint (fm_next_id t)) (ics t)"
  using fresh_ids_deleted [of "uint (fm_next_id s)" "ics s" "ics t"] by (auto simp: marked_def)

lemma second_chance_spec:
  obtains us where "fst (second_chance s) = fm_unconfirmed s @ us" "mset us \<subseteq># mset (mr_unmatched_tracks (fm_res_feature s))" "marked s (snd (second_chance s))"
proof -
  let ?f = "\<lambda>idx (match_iou_track, s).
         if to_time_since_last_update (fm_tracks s ! idx) = 1 then (match_iou_track @ [idx], s) else (match_iou_track, MarkMiss idx s)"
  have "\<exists>us. fst (fold ?f is (l, t)) = l @ us \<and> mset us \<subseteq># mset is \<and> marked t (snd (fold ?f is (l, t)))" for l t "is"
  proof (induction "is" arbitrary: l t)
    case (Cons i "is")
    show ?case
    proof (cases "to_time_since_last_update (fm_tracks t ! i) = 1")
      case True
      obtain us where "fst (fold ?f is (l @ [i], t)) = (l @ [i]) @ us" "mset us \<subseteq># mset is" "marked t (snd (fold ?f is (l @ [i], t)))"
        using Cons by blast
      with True show ?thesis by (intro exI [of _ "i # us"]) simp
    next
      case False
      obtain us where "fst (fold ?f is (l, MarkMiss i t)) = l @ us" "mset us \<subseteq># mset is" "marked (MarkMiss i t) (snd (fold ?f is (l, MarkMiss i t)))"
        using Cons by blast
      with False show ?thesis
        using marked_trans [OF MarkMiss_marked] by (intro exI [of _ us]) (auto intro: subset_mset.order_trans)
    qed
  qed (simp add: marked_refl)
  then show thesis using that unfolding second_chance_def by blast
qed


subsection \<open>Matched tracks\<close>

definition report :: "'f FeatureMatch \<Rightarrow> nat \<Rightarrow> int \<Rightarrow> 'f DetectObject" where
  "report s d track_id = (fm_detects s ! d)\<lparr>do_track_id := track_id, do_detect_id := int d\<rparr>"

lemma emit_track_simps [simp]:
  "fm_out (emit_track d n s) = fm_out s @ [report s d n]" "fm_tracks (emit_track d n s) = fm_tracks s" "ics (emit_track d n s) = ics s"
  "fm_next_id (emit_track d n s) = fm_next_id s" "fm_detects (emit_track d n s) = fm_detects s" "fm_res_iou (emit_track d n s) = fm_res_iou s"
  "fm_n_init (emit_track d n s) = fm_n_init s" "fm_nn_budget (emit_track d n s) = fm_nn_budget s" "fm_max_age (emit_track d n s) = fm_max_age s" "kfs (emit_track d n s) = kfs s"
  by (simp_all add: emit_track_def report_def ics_def kfs_def)

lemma next_id_wrap: "uint (n :: u64) < 2 ^ 31 \<Longrightarrow> sint (ucast n :: u32) = uint n"
  using signed_take_bit_int_eq_self [of 31 "uint n"] order_trans [of "- (2 ^ 31)" 0 "uint n"]
  by (simp add: sint_uint unsigned_ucast_eq signed_take_bit_take_bit)

text \<open>A matched track keeps its state and identifier, or is confirmed with the next identifier.\<close>

definition confirmed_or_same :: "nat \<Rightarrow> 'f FeatureMatch \<Rightarrow> 'f FeatureMatch \<Rightarrow> bool" where
  "confirmed_or_same i s t \<longleftrightarrow>
     ics t = ics s \<and> fm_next_id t = fm_next_id s \<or>
     ics t = (ics s)[i := (CONFIRMED, uint (fm_next_id s))] \<and> fm_next_id t = fm_next_id s + 1"

lemma confirm_track_cases:
  assumes "i < length (fm_tracks s)" and "uint (fm_next_id s) < 2 ^ 31"
  shows "confirmed_or_same i s (confirm_track i s)"
proof -
  let ?t = "update_track i (\<lambda>t. t\<lparr>to_state := CONFIRMED, to_track_id := sint (ucast (fm_next_id s) :: u32)\<rparr>) s"
  have "ics ?t = (ics s)[i := (CONFIRMED, uint (fm_next_id s))]"
    using assms by (simp add: ics_update_track next_id_wrap)
  moreover have "ics (?t\<lparr>fm_next_id := n\<rparr>) = ics ?t" for n by (simp add: ics_def)
  ultimately show ?thesis by (simp add: confirmed_or_same_def confirm_track_def Let_def)
qed

lemma confirm_track_simps [simp]:
  "fm_out (confirm_track i s) = fm_out s" "fm_detects (confirm_track i s) = fm_detects s" "fm_res_iou (confirm_track i s) = fm_res_iou s"
  "fm_max_age (confirm_track i s) = fm_max_age s" "length (fm_tracks (confirm_track i s)) = length (fm_tracks s)" "kfs s \<Longrightarrow> kfs (confirm_track i s)"
  using kfs_update_same [of s "\<lambda>t. t\<lparr>to_state := CONFIRMED, to_track_id := sint (ucast (fm_next_id s) :: u32)\<rparr>" i]
  by (simp_all add: confirm_track_def Let_def) (simp add: kfs_def)

lemma update_matched_cases:
  assumes "kfs s" and i: "i < length (fm_tracks s)" and next_ok: "uint (fm_next_id s) < 2 ^ 31"
  obtains t where "update_matched X (d, i) s = Ret () t" "kfs t" "confirmed_or_same i s t" "fm_out t = fm_out s @ [report s d (snd (ics s ! i))]"
      "fm_detects t = fm_detects s" "fm_res_iou t = fm_res_iou s" "length (fm_tracks t) = length (fm_tracks s)"
    | t where "update_matched X (d, i) s = Blocked t"
proof (cases rule: kf_Update_ok [OF kfs_nth [OF assms(1) i], of X "to_xyah (flt X) (do_bbox (fm_detects s ! d))", case_names returns blocks])
  case (returns k)
  define u where "u = update_track i (\<lambda>t. t\<lparr>to_kf := k\<rparr>) s"
  define v where "v = emit_track d (to_track_id (fm_tracks u ! i)) u"
  define w where "w = update_track i (\<lambda>t. if to_has_feature t
                    then t\<lparr>to_features := add_feature (fm_nn_budget v) \<lparr>ft_vec = do_feature (fm_detects s ! d), ft_mold = do_feat_mold (fm_detects s ! d)\<rparr> (to_features t)\<rparr>
                    else t) v"
  define x where "x = update_track i (\<lambda>t. t\<lparr>to_time_since_last_update := 0, to_age := to_age t + 1\<rparr>) w"
  have eq: "update_matched X (d, i) s = Ret () (confirm_track i x)"
    unfolding x_def w_def v_def u_def update_matched_def Let_def fst_conv snd_conv
      on_kf_Ret [where f = "kf_Update X (to_xyah (flt X) (do_bbox (fm_detects s ! d)))", OF returns(1)] call_then.simps ..
  have "kfs u" unfolding u_def by (rule kfs_update [OF assms(1)]) (simp add: returns(2))
  then have "kfs x" unfolding x_def w_def v_def by (intro kfs_update_same) simp_all
  moreover have ics: "ics x = ics s" unfolding x_def w_def v_def u_def by (simp add: ics_update_same)
  moreover have x: "fm_next_id x = fm_next_id s" "fm_detects x = fm_detects s" "fm_res_iou x = fm_res_iou s" "length (fm_tracks x) = length (fm_tracks s)"
    by (simp_all add: x_def w_def v_def u_def)
  moreover have "fm_out x = fm_out s @ [report s d (snd (ics s ! i))]"
    using i by (simp add: x_def w_def v_def u_def nth_update_track nth_ics) (simp add: report_def)
  moreover have "confirmed_or_same i x (confirm_track i x)" by (rule confirm_track_cases) (use i x next_ok in simp_all)
  ultimately show thesis
    by (intro that(1) [OF eq]) (simp_all add: confirmed_or_same_def)
next
  case (blocks k)
  then show thesis by (intro that(2)) (simp add: update_matched_def on_kf_def Let_def)
qed


text \<open>All matched tracks are updated one after the other.\<close>

definition updated :: "(nat \<times> nat) list \<Rightarrow> 'f FeatureMatch \<Rightarrow> 'f FeatureMatch \<Rightarrow> bool" where
  "updated ps s t \<longleftrightarrow> kfs t \<and> fresh_ids (uint (fm_next_id t)) (ics t) \<and> fm_detects t = fm_detects s \<and> fm_res_iou t = fm_res_iou s \<and>
     length (fm_tracks t) = length (fm_tracks s) \<and> fm_out t = fm_out s @ map (\<lambda>(d, i). report s d (snd (ics s ! i))) ps \<and>
     uint (fm_next_id s) \<le> uint (fm_next_id t) \<and> uint (fm_next_id t) \<le> uint (fm_next_id s) + int (length ps) \<and>
     snd ` set (ics t) \<subseteq> snd ` set (ics s) \<union> {uint (fm_next_id s)..<uint (fm_next_id t)}"

lemma confirmed_or_same_fresh:
  assumes "confirmed_or_same i s t" and "fresh_ids (uint (fm_next_id s)) (ics s)" and "i < length (fm_tracks s)" and "uint (fm_next_id s) < 2 ^ 31"
  shows "fresh_ids (uint (fm_next_id t)) (ics t)" and "uint (fm_next_id s) \<le> uint (fm_next_id t)" "uint (fm_next_id t) \<le> uint (fm_next_id s) + 1"
    and "snd ` set (ics t) \<subseteq> snd ` set (ics s) \<union> {uint (fm_next_id s)..<uint (fm_next_id t)}"
proof -
  have next_id: "uint (fm_next_id s + 1) = uint (fm_next_id s) + 1" using assms(4) by (simp add: uint_plus_simple_iff uint_plus_if')
  show "fresh_ids (uint (fm_next_id t)) (ics t)" "uint (fm_next_id s) \<le> uint (fm_next_id t)" "uint (fm_next_id t) \<le> uint (fm_next_id s) + 1"
    using assms fresh_ids_confirm [OF assms(2), of i] next_id by (auto simp: confirmed_or_same_def)
  show "snd ` set (ics t) \<subseteq> snd ` set (ics s) \<union> {uint (fm_next_id s)..<uint (fm_next_id t)}"
    using assms(1) next_id set_update_subset_insert [of "ics s" i] by (fastforce simp: confirmed_or_same_def)
qed

lemma ids_chain:
  assumes "A \<subseteq> B \<union> {t..<u :: int}" and "B \<subseteq> C \<union> {s..<t}" and "s \<le> t" and "t \<le> u"
  shows "A \<subseteq> C \<union> {s..<u}"
proof -
  have "A \<subseteq> C \<union> ({s..<t} \<union> {t..<u})" using assms(1,2) by blast
  then show ?thesis by (simp add: ivl_disj_un_two(3) [OF assms(3,4)])
qed

lemma update_all_matched_updated:
  assumes "kfs s" and "fresh_ids (uint (fm_next_id s)) (ics s)" and "distinct (map snd ps)" and "snd ` set ps \<subseteq> {..<length (fm_tracks s)}"
    and "uint (fm_next_id s) + int (length ps) \<le> 2 ^ 31"
  shows "leaves (\<lambda>_ t. updated ps s t) (\<lambda>_. False) (update_all_matched X ps s)"
  using assms
proof (induction ps arbitrary: s)
  case Nil
  then show ?case by (simp add: updated_def)
next
  case (Cons p ps)
  obtain d i where [simp]: "p = (d, i)" by (cases p)
  have i: "i < length (fm_tracks s)" and next_ok: "uint (fm_next_id s) < 2 ^ 31" using Cons.prems by simp_all
  show ?case
  proof (cases rule: update_matched_cases [OF Cons.prems(1) i next_ok, of X d, case_names returns blocks])
    case (returns t)
    note fresh = confirmed_or_same_fresh [OF returns(3) Cons.prems(2) i next_ok]
    have IH: "leaves (\<lambda>_ u. updated ps t u) (\<lambda>_. False) (update_all_matched X ps t)"
      by (rule Cons.IH) (use returns fresh Cons.prems in auto)
    have same: "report t e (snd (ics t ! j)) = report s e (snd (ics s ! j))" if "(e, j) \<in> set ps" for e j
    proof -
      have "j \<noteq> i" using Cons.prems(3) that by force
      then have "ics t ! j = ics s ! j" using returns(3) by (auto simp: confirmed_or_same_def)
      then show ?thesis using returns(5) by (simp add: report_def)
    qed
    have "updated (p # ps) s u" if u: "updated ps t u" for u
    proof -
      have "map (\<lambda>(d, i). report t d (snd (ics t ! i))) ps = map (\<lambda>(d, i). report s d (snd (ics s ! i))) ps" using same by auto
      moreover have "snd ` set (ics u) \<subseteq> snd ` set (ics s) \<union> {uint (fm_next_id s)..<uint (fm_next_id u)}"
        by (rule ids_chain [of _ "snd ` set (ics t)" "uint (fm_next_id t)"]) (use u fresh(2,4) in \<open>simp_all add: updated_def\<close>)
      ultimately show ?thesis using u returns fresh by (simp add: updated_def)
    qed
    then show ?thesis using leaves_mono [OF IH] returns(1) by simp
  next
    case (blocks t)
    then show ?thesis by simp
  qed
qed

subsection \<open>New tracks and dead ones\<close>

lemma start_track_spec:
  assumes "kfs s"
  shows "kfs (start_track X d s) \<and> ics (start_track X d s) = ics s @ [(TENTATIVE, -1)] \<and> fm_out (start_track X d s) = fm_out s @ [report s d (-1)] \<and>
    fm_detects (start_track X d s) = fm_detects s \<and> fm_next_id (start_track X d s) = fm_next_id s \<and> fm_res_iou (start_track X d s) = fm_res_iou s"
  using assms kf_ok_Initiate [OF kf_ok_new, of X "to_xyah (flt X) (do_bbox (fm_detects s ! d))" X]
  by (simp add: start_track_def InitNewTrack_def Let_def kfs_def ics_def) (simp add: report_def)

lemma start_tracks_spec:
  assumes "kfs s" and "fresh_ids nid (ics s)"
  shows "kfs (fold (start_track X) ds s) \<and> fresh_ids nid (ics (fold (start_track X) ds s)) \<and>
    snd ` set (ics (fold (start_track X) ds s)) \<subseteq> insert (-1) (snd ` set (ics s)) \<and>
    fm_out (fold (start_track X) ds s) = fm_out s @ map (\<lambda>d. report s d (-1)) ds \<and> fm_detects (fold (start_track X) ds s) = fm_detects s \<and>
    fm_next_id (fold (start_track X) ds s) = fm_next_id s \<and> fm_res_iou (fold (start_track X) ds s) = fm_res_iou s"
  using assms
proof (induction ds arbitrary: s)
  case (Cons d ds)
  have t: "kfs (start_track X d s)" "ics (start_track X d s) = ics s @ [(TENTATIVE, -1)]" "fm_out (start_track X d s) = fm_out s @ [report s d (-1)]"
    "fm_detects (start_track X d s) = fm_detects s" "fm_next_id (start_track X d s) = fm_next_id s" "fm_res_iou (start_track X d s) = fm_res_iou s"
    using start_track_spec [OF Cons.prems(1), of X d] by simp_all
  have "fresh_ids nid (ics (start_track X d s))" using fresh_ids_append [OF Cons.prems(2)] t(2) by simp
  from Cons.IH [OF t(1) this] show ?case using t by (auto simp: report_def)
qed auto

lemma erase_dead_spec:
  "(kfs s \<longrightarrow> kfs (erase_dead s)) \<and> (fresh_ids nid (ics s) \<longrightarrow> fresh_ids nid (ics (erase_dead s))) \<and> snd ` set (ics (erase_dead s)) \<subseteq> snd ` set (ics s) \<and>
    fm_out (erase_dead s) = fm_out s \<and> fm_next_id (erase_dead s) = fm_next_id s \<and>
    (\<forall>t\<in>set (fm_tracks (erase_dead s)). to_state t \<noteq> DELETED \<and> to_time_since_last_update t \<le> fm_max_age (erase_dead s))"
  using fresh_ids_filter [of nid "\<lambda>t. (to_state t, to_track_id t)" "fm_tracks s"]
  by (auto simp: erase_dead_def kfs_def ics_def)


subsection \<open>A frame\<close>

definition tracker_ok :: "'f FeatureMatch \<Rightarrow> bool" where
  "tracker_ok s \<longleftrightarrow> kfs s \<and> fresh_ids (uint (fm_next_id s)) (ics s)"

text \<open>The reports of a frame: every detection once, with an identifier no other detection has.\<close>

definition reports :: "'f FeatureMatch \<Rightarrow> 'f DetectObject list \<Rightarrow> 'f DetectObject list \<Rightarrow> bool" where
  "reports s detects new \<longleftrightarrow>
     mset (map do_detect_id new) = mset (map int [0..<length detects]) \<and>
     (\<forall>x\<in>set new. facts x = facts (detects ! nat (do_detect_id x)) \<and> do_track_id x \<in> insert (-1) (snd ` set (ics s))) \<and>
     distinct (filter (\<lambda>n. n \<noteq> -1) (map do_track_id new))"

definition tracks_alive :: "'f FeatureMatch \<Rightarrow> bool" where
  "tracks_alive s \<longleftrightarrow> (\<forall>t\<in>set (fm_tracks s). to_state t \<noteq> DELETED \<and> to_time_since_last_update t \<le> max 0 (fm_max_age s))"

definition frame_done :: "'f DetectObject list \<Rightarrow> 'f FeatureMatch \<Rightarrow> 'f FeatureMatch \<Rightarrow> bool" where
  "frame_done detects s t \<longleftrightarrow>
     tracker_ok t \<and> tracks_alive t \<and> uint (fm_next_id s) \<le> uint (fm_next_id t) \<and>
     snd ` set (ics t) \<subseteq> insert (-1) (snd ` set (ics s)) \<union> {uint (fm_next_id s)..<uint (fm_next_id t)} \<and>
     (\<exists>new. fm_out t = fm_out s @ new \<and> reports s detects new)"

lemma reports_of:
  assumes ps: "mset (map fst ps @ ds) = mset [0..<length detects]" "distinct (map snd ps)" "snd ` set ps \<subseteq> {..<length (fm_tracks s)}"
    and fresh: "fresh_ids nid (ics s)" and facts: "map facts D = map facts detects"
    and rs: "\<And>d n. r d n = (D ! d)\<lparr>do_track_id := n, do_detect_id := int d\<rparr>"
  shows "reports s detects (map (\<lambda>(d, i). r d (snd (ics s ! i))) ps @ map (\<lambda>d. r d (-1)) ds)"
  unfolding reports_def
proof (intro conjI ballI)
  have "map do_detect_id (map (\<lambda>(d, i). r d (snd (ics s ! i))) ps @ map (\<lambda>d. r d (-1)) ds) = map int (map fst ps @ ds)"
    by (simp add: rs case_prod_beta')
  then show "mset (map do_detect_id (map (\<lambda>(d, i). r d (snd (ics s ! i))) ps @ map (\<lambda>d. r d (-1)) ds)) = mset (map int [0..<length detects])"
    using ps(1) by (simp only: mset_map)
next
  have len: "length D = length detects" using facts by (rule map_eq_imp_length_eq)
  have fact: "facts (r d n) = facts (detects ! d)" if "d < length detects" for d n
    using facts that len by (metis (no_types, lifting) facts_def nth_map rs DetectObject.select_convs DetectObject.update_convs DetectObject.surjective)
  have ds: "set (map fst ps @ ds) = {..<length detects}" using mset_eq_setD [OF ps(1)] by (simp add: atLeast0LessThan)
  fix x assume x: "x \<in> set (map (\<lambda>(d, i). r d (snd (ics s ! i))) ps @ map (\<lambda>d. r d (-1)) ds)"
  show "facts x = facts (detects ! nat (do_detect_id x))"
  proof -
    obtain d n where d: "x = r d n" "d \<in> set (map fst ps @ ds)" using x by force
    then have "d < length detects" using ds by blast
    then show ?thesis using fact [of d n] d(1) by (simp add: rs)
  qed
  show "do_track_id x \<in> insert (-1) (snd ` set (ics s))"
    using x ps(3) by (auto simp: rs)
next
  have eq: "map do_track_id (map (\<lambda>(d, i). r d (snd (ics s ! i))) ps @ map (\<lambda>d. r d (-1)) ds) = map (\<lambda>i. snd (ics s ! i)) (map snd ps) @ map (\<lambda>d. -1) ds"
    by (simp add: rs case_prod_beta')
  show "distinct (filter (\<lambda>n. n \<noteq> -1) (map do_track_id (map (\<lambda>(d, i). r d (snd (ics s ! i))) ps @ map (\<lambda>d. r d (-1)) ds)))"
    unfolding eq using fresh_ids_indices [OF fresh ps(2)] ps(3) by simp
qed


lemma first_frame:
  fixes X :: "('f, 'd) fp" and s :: "'f FeatureMatch"
  assumes "fm_tracks s = []" and "fm_detects s = D" and facts: "map facts D = map facts detects" and "kfs s"
  defines "t \<equiv> fold (\<lambda>d s. emit_track d (-1) (InitNewTrack X (fm_detects s ! d) s)) [0..<length detects] s"
  shows "frame_done detects s t"
proof -
  have "(\<lambda>d s. emit_track d (-1) (InitNewTrack X (fm_detects s ! d) s)) = start_track X"
    by (intro ext) (simp add: start_track_def InitNewTrack_def Let_def)
  then have t: "t = fold (start_track X) [0..<length detects] s" by (simp add: t_def)
  have ics: "ics s = []" by (simp add: ics_def assms(1))
  then have fresh: "fresh_ids (uint (fm_next_id s)) (ics s)" by (simp add: fresh_ids_def)
  note spec = start_tracks_spec [OF assms(4) fresh, of X "[0..<length detects]", folded t]
  have "\<forall>x\<in>set (fm_tracks t). to_state x \<noteq> DELETED \<and> to_time_since_last_update x \<le> max 0 (fm_max_age t)"
    unfolding t
    by (rule fold_keeps [where P = "\<lambda>s. \<forall>x\<in>set (fm_tracks s). to_state x \<noteq> DELETED \<and> to_time_since_last_update x \<le> max 0 (fm_max_age s)"])
      (auto simp: start_track_def InitNewTrack_def Let_def assms(1))
  moreover have "reports s detects (map (\<lambda>(d, i). report s d (snd (ics s ! i))) [] @ map (\<lambda>d. report s d (-1)) [0..<length detects])"
    by (rule reports_of [where D = D, OF _ _ _ fresh facts]) (simp_all add: report_def assms(2))
  ultimately show ?thesis
    using spec ics by (auto simp: frame_done_def tracker_ok_def tracks_alive_def)
qed

lemma final_stages:
  fixes X :: "('f, 'd) fp" and s :: "'f FeatureMatch" and ds :: "nat list"
  assumes "kfs s" and "fresh_ids (uint (fm_next_id s)) (ics s)" and "updated ps s t"
  defines "u \<equiv> erase_dead (fold MarkMiss (mr_unmatched_tracks (fm_res_iou (fold (start_track X) ds t))) (fold (start_track X) ds t))"
  shows "tracker_ok u \<and> tracks_alive u \<and> uint (fm_next_id s) \<le> uint (fm_next_id u) \<and>
    snd ` set (ics u) \<subseteq> insert (-1) (snd ` set (ics s)) \<union> {uint (fm_next_id s)..<uint (fm_next_id u)} \<and>
    fm_out u = fm_out s @ map (\<lambda>(d, i). report s d (snd (ics s ! i))) ps @ map (\<lambda>d. report s d (-1)) ds"
proof -
  have t: "kfs t" "fresh_ids (uint (fm_next_id t)) (ics t)" using assms(3) by (simp_all add: updated_def)
  note v = start_tracks_spec [OF t, of X ds]
  define w where "w = fold MarkMiss (mr_unmatched_tracks (fm_res_iou (fold (start_track X) ds t))) (fold (start_track X) ds t)"
  have mw: "marked (fold (start_track X) ds t) w" unfolding w_def by (rule fold_MarkMiss_marked)
  then have "snd (ics w ! i) = snd (ics (fold (start_track X) ds t) ! i)" if "i < length (ics (fold (start_track X) ds t))" for i
    using that unfolding marked_def by (metis snd_conv)
  then have "map snd (ics w) = map snd (ics (fold (start_track X) ds t))"
    using mw by (intro nth_equalityI) (simp_all add: marked_def)
  then have ids: "snd ` set (ics w) = snd ` set (ics (fold (start_track X) ds t))" by (metis list.set_map)
  have w: "kfs w" "fresh_ids (uint (fm_next_id w)) (ics w)" "fm_next_id w = fm_next_id t" "fm_out w = fm_out t @ map (\<lambda>d. report t d (-1)) ds"
    using mw v marked_fresh [OF mw] by (simp_all add: marked_def)
  note u = erase_dead_spec [of w "uint (fm_next_id w)", folded u_def [folded w_def]]
  have "\<forall>x\<in>set (fm_tracks u). to_time_since_last_update x \<le> max 0 (fm_max_age u)" using u by fastforce
  moreover have "map (\<lambda>d. report t d (-1)) ds = map (\<lambda>d. report s d (-1)) ds" using assms(3) by (simp add: updated_def report_def)
  moreover have "snd ` set (ics u) \<subseteq> insert (-1) (snd ` set (ics s)) \<union> {uint (fm_next_id s)..<uint (fm_next_id u)}"
  proof -
    have "snd ` set (ics u) \<subseteq> insert (-1) (snd ` set (ics t))" using u v unfolding ids by blast
    moreover have "snd ` set (ics t) \<subseteq> snd ` set (ics s) \<union> {uint (fm_next_id s)..<uint (fm_next_id u)}"
      using assms(3) u w(3) by (simp add: updated_def)
    ultimately show ?thesis by blast
  qed
  ultimately show ?thesis using u w assms(3) by (simp add: tracker_ok_def tracks_alive_def updated_def)
qed

lemma distinct_submset:
  assumes "mset xs \<subseteq># mset ys" and "distinct ys"
  shows "distinct xs"
proof -
  have "count (mset xs) a \<le> 1" for a
  proof -
    have "count (mset ys) a = (if a \<in> set ys then 1 else 0)" using assms(2) unfolding distinct_count_atmost_1 by blast
    then have "count (mset ys) a \<le> 1" by simp
    with mset_subset_eq_count [OF assms(1)] show ?thesis by (rule order_trans)
  qed
  then show ?thesis
    by (auto simp: distinct_count_atmost_1 le_Suc_eq count_eq_zero_iff)
qed

text \<open>The pairs of both matchings.\<close>

lemma matched_pairs:
  assumes split: "split_of ds (set conf) r" and iou: "iou_split (mr_unmatched_detections r) (unconf @ us) q"
    and us: "mset us \<subseteq># mset (mr_unmatched_tracks r)" and all: "mset conf + mset unconf = mset [0..<N]"
  shows "mset (map fst (mr_matches r @ mr_matches q) @ mr_unmatched_detections q) = mset ds"
    and "distinct (map snd (mr_matches r @ mr_matches q))" and "snd ` set (mr_matches r @ mr_matches q) \<subseteq> {..<N}"
proof -
  show "mset (map fst (mr_matches r @ mr_matches q) @ mr_unmatched_detections q) = mset ds"
    using split iou by (simp add: split_of_def iou_split_def add.assoc)
  have "distinct (conf @ unconf)" using all mset_eq_imp_distinct_iff [of "conf @ unconf" "[0..<N]"] by simp
  then have L: "distinct ((map snd (mr_matches r) @ mr_unmatched_tracks r) @ unconf)" using split by (auto simp: split_of_def)
  have "mset (map snd (mr_matches q)) \<subseteq># mset (unconf @ us)" using iou unfolding iou_split_def by (metis mset_subset_eq_add_left)
  also have "\<dots> \<subseteq># mset (unconf @ mr_unmatched_tracks r)" using us by simp
  finally have sub: "mset (map snd (mr_matches r @ mr_matches q)) \<subseteq># mset ((map snd (mr_matches r) @ mr_unmatched_tracks r) @ unconf)"
    by (simp add: union_commute)
  then show "distinct (map snd (mr_matches r @ mr_matches q))" using L by (rule distinct_submset)
  have "set (conf @ unconf) = {..<N}" using mset_eq_setD [of "conf @ unconf" "[0..<N]"] all by (simp add: atLeast0LessThan)
  then have "set ((map snd (mr_matches r) @ mr_unmatched_tracks r) @ unconf) \<subseteq> {..<N}" using split by (auto simp: split_of_def)
  moreover have "set (map snd (mr_matches r @ mr_matches q)) \<subseteq> set ((map snd (mr_matches r) @ mr_unmatched_tracks r) @ unconf)"
    using set_mset_mono [OF sub] by (simp only: set_mset_mset)
  ultimately have "set (map snd (mr_matches r @ mr_matches q)) \<subseteq> {..<N}" by (rule subset_trans [rotated])
  then show "snd ` set (mr_matches r @ mr_matches q) \<subseteq> {..<N}" by (simp only: set_map)
qed

lemma calm_D:
  assumes "calm s t"
  shows "kfs t" "ics t = ics s" "fm_next_id t = fm_next_id s" "fm_out t = fm_out s" "map facts (fm_detects t) = map facts (fm_detects s)"
    "length (fm_tracks t) = length (fm_tracks s)" "fm_unconfirmed t = fm_unconfirmed s"
proof -
  have v: "view t = view s" and "kfs t" using assms by (simp_all add: calm_def)
  then show "kfs t" "fm_next_id t = fm_next_id s" "fm_out t = fm_out s" "map facts (fm_detects t) = map facts (fm_detects s)"
    "length (fm_tracks t) = length (fm_tracks s)" "fm_unconfirmed t = fm_unconfirmed s"
    using view_tracks [OF v] by (simp_all add: view_def)
  have "map (\<lambda>t. (fst (core t), fst (snd (core t)))) (fm_tracks t) = map (\<lambda>t. (fst (core t), fst (snd (core t)))) (fm_tracks s)"
    using arg_cong [OF view_D(7) [OF v], of "map (\<lambda>c. (fst c, fst (snd c)))"] by (simp add: comp_def)
  then show "ics t = ics s" by (simp add: ics_def core_def)
qed

lemma later_frame:
  assumes ok: "tracker_ok s" and tracks: "uint (fm_next_id s) + int (length (fm_tracks s)) \<le> 2 ^ 31" and facts: "map facts (fm_detects s) = map facts detects"
    and start: "fm_confirmed s = []" "fm_unconfirmed s = []"
  shows "leaves (\<lambda>_ t. frame_done detects s t) (\<lambda>t. tracker_ok t \<and> fm_next_id t = fm_next_id s \<and> fm_out t = fm_out s)
     (fm_match_frame X s)"
    (is "leaves ?P ?Q _")
proof -
  let ?N = "length (fm_tracks s)" and ?n = "length detects"
  have n: "length (fm_detects s) = ?n" using facts by (rule map_eq_imp_length_eq)
  have s: "kfs s" "fresh_ids (uint (fm_next_id s)) (ics s)" using ok by (simp_all add: tracker_ok_def)
  obtain a where a: "predict_tracks X [0..<?N] s = Ret () a" "kfs a" "ics a = ics s" "fm_next_id a = fm_next_id s" "fm_out a = fm_out s" "fm_detects a = fm_detects s"
    "mset (fm_confirmed a) + mset (fm_unconfirmed a) = mset [0..<?N]"
    by (rule predict_tracks_ret [OF s(1), of "[0..<?N]" X]) (auto simp: start)
  have Na: "length (fm_tracks a) = ?N" using a(3) length_ics [of a] by simp
  have "distinct (fm_confirmed a @ fm_unconfirmed a)" "set (fm_confirmed a @ fm_unconfirmed a) = {..<?N}"
    using a(7) mset_eq_imp_distinct_iff [of "fm_confirmed a @ fm_unconfirmed a" "[0..<?N]"] mset_eq_setD [of "fm_confirmed a @ fm_unconfirmed a" "[0..<?N]"]
    by (simp_all add: atLeast0LessThan)
  then have conf: "distinct (fm_confirmed a)" "set (fm_confirmed a) \<subseteq> {..<length (fm_tracks a)}" using Na by auto
  have Q: "?Q t" if "calm a t" for t using calm_D [OF that] s a by (simp add: tracker_ok_def)
  show ?thesis
    unfolding fm_match_frame_def a(1) call_then.simps
  proof (rule leaves_then [OF leaves_mono [OF MatchCascade_leaves [OF a(2) conf] _ Q]])
    fix b assume b: "calm a b \<and> split_of [0..<length (fm_detects a)] (set (fm_confirmed a)) (fm_res_feature b)"
    note cb = calm_D [OF conjunct1 [OF b]]
    obtain us where us: "fst (second_chance b) = fm_unconfirmed b @ us" "mset us \<subseteq># mset (mr_unmatched_tracks (fm_res_feature b))" and mb: "marked b (snd (second_chance b))"
      by (rule second_chance_spec)
    define c where "c = snd (second_chance b)"
    have sc: "second_chance b = (fm_unconfirmed a @ us, c)" using us(1) cb(7) by (simp add: c_def prod_eq_iff)
    have c: "kfs c" "fresh_ids (uint (fm_next_id c)) (ics c)" "fm_next_id c = fm_next_id s" "fm_out c = fm_out s" "fm_detects c = fm_detects b"
      "fm_res_feature c = fm_res_feature b" "length (fm_tracks c) = ?N" "map snd (ics c) = map snd (ics s)"
      using mb marked_fresh [OF mb] cb a s Na unfolding c_def by (auto simp: marked_def intro!: nth_equalityI)
    have dets: "distinct (mr_unmatched_detections (fm_res_feature c))"
    proof -
      have "mset (mr_unmatched_detections (fm_res_feature c)) \<subseteq># mset [0..<length (fm_detects a)]"
        using b c(6) unfolding split_of_def by (metis mset_subset_eq_add_right)
      then show ?thesis by (rule distinct_submset) simp
    qed
    show "leaves ?P ?Q (let (match_iou_track, s) = second_chance b
              in call_then (MatchIou X (mr_unmatched_detections (fm_res_feature s)) match_iou_track s) (\<lambda>_ s.
                 let s = s\<lparr>fm_res_feature := (fm_res_feature s)
                             \<lparr>mr_matches := mr_matches (fm_res_feature s) @ mr_matches (fm_res_iou s)\<rparr>\<rparr>
                 in call_then (update_all_matched X (mr_matches (fm_res_feature s)) s) (\<lambda>_ s.
                    let s = fold (start_track X) (mr_unmatched_detections (fm_res_iou s)) s;
                        s = fold MarkMiss (mr_unmatched_tracks (fm_res_iou s)) s
                    in Ret () (erase_dead s))))"
      unfolding sc Let_def prod.case
    proof (rule leaves_then [OF leaves_mono [OF MatchIou_leaves [OF c(1) dets]]])
      fix e assume "calm c e"
      then show "?Q e" using calm_D [of c e] c by (simp add: tracker_ok_def)
    next
      fix e assume e: "calm c e \<and> fm_res_feature e = fm_res_feature c \<and> iou_split (mr_unmatched_detections (fm_res_feature c)) (fm_unconfirmed a @ us) (fm_res_iou e)"
      note ce = calm_D [OF conjunct1 [OF e]]
      define ps where "ps = mr_matches (fm_res_feature e) @ mr_matches (fm_res_iou e)"
      define f where "f = e\<lparr>fm_res_feature := (fm_res_feature e)\<lparr>mr_matches := ps\<rparr>\<rparr>"
      have f: "kfs f" "fm_next_id f = fm_next_id s" "fm_out f = fm_out s" "ics f = ics c" "length (fm_tracks f) = ?N" "fm_res_iou f = fm_res_iou e"
        "map facts (fm_detects f) = map facts detects" "mr_matches (fm_res_feature f) = ps"
        using ce c cb a facts by (simp_all add: f_def kfs_def ics_def)
      show "leaves ?P ?Q (call_then (update_all_matched X (mr_matches (fm_res_feature (e\<lparr>fm_res_feature := (fm_res_feature e)
                             \<lparr>mr_matches := mr_matches (fm_res_feature e) @ mr_matches (fm_res_iou e)\<rparr>\<rparr>)))
                  (e\<lparr>fm_res_feature := (fm_res_feature e) \<lparr>mr_matches := mr_matches (fm_res_feature e) @ mr_matches (fm_res_iou e)\<rparr>\<rparr>)) (\<lambda>_ s.
                    Ret () (erase_dead (fold MarkMiss (mr_unmatched_tracks (fm_res_iou (fold (start_track X) (mr_unmatched_detections (fm_res_iou s)) s)))
                      (fold (start_track X) (mr_unmatched_detections (fm_res_iou s)) s)))))"
        unfolding ps_def [symmetric] f_def [symmetric] f(8)
      proof (rule leaves_then)
        have split: "split_of [0..<?n] (set (fm_confirmed a)) (fm_res_feature e)" using b a(6) n e c(6) by simp
        have iou: "iou_split (mr_unmatched_detections (fm_res_feature e)) (fm_unconfirmed a @ us) (fm_res_iou e)" using e by simp
        have us': "mset us \<subseteq># mset (mr_unmatched_tracks (fm_res_feature e))" using us(2) e c(6) by simp
        note pairs = matched_pairs [OF split iou us' a(7), folded ps_def]
        have "length ps \<le> ?N"
          using card_mono [OF _ pairs(3)] distinct_card [OF pairs(2)] by simp
        then have room: "uint (fm_next_id f) + int (length ps) \<le> 2 ^ 31" using tracks f(2) by simp
        have fresh: "fresh_ids (uint (fm_next_id f)) (ics f)" using c f by simp
        show "leaves (\<lambda>_ t. updated ps f t) ?Q (update_all_matched X ps f)"
          by (rule leaves_mono [OF update_all_matched_updated [OF f(1) fresh pairs(2) _ room]]) (use pairs(3) f(5) in simp_all)
        fix g assume g: "updated ps f g"
        have iou_g: "fm_res_iou g = fm_res_iou e" using g f(6) by (simp add: updated_def)
        note fin = final_stages [OF f(1) fresh g, of X "mr_unmatched_detections (fm_res_iou e)"]
        have ids: "snd ` set (ics f) = snd ` set (ics s)" using c(8) f(4) by (metis list.set_map)
        define new where "new = map (\<lambda>(d, i). report f d (snd (ics f ! i))) ps @ map (\<lambda>d. report f d (-1)) (mr_unmatched_detections (fm_res_iou e))"
        have "reports f detects new"
          unfolding new_def by (rule reports_of [where D = "fm_detects f", OF pairs(1,2) _ fresh f(7)]) (use pairs(3) f(5) in \<open>simp_all add: report_def\<close>)
        then have rep: "reports s detects new" by (simp add: reports_def ids)
        show "leaves ?P ?Q (Ret () (erase_dead (fold MarkMiss (mr_unmatched_tracks (fm_res_iou (fold (start_track X) (mr_unmatched_detections (fm_res_iou g)) g)))
                      (fold (start_track X) (mr_unmatched_detections (fm_res_iou g)) g))))"
          using fin rep unfolding iou_g leaves_simps frame_done_def ids f(2,3) new_def [symmetric] append_assoc by blast
      qed
    qed
  qed
qed


lemma UpdateFrame_leaves:
  assumes ok: "tracker_ok s" and tracks: "uint (fm_next_id s) + int (length (fm_tracks s)) \<le> 2 ^ 31"
  shows "leaves (\<lambda>_ t. frame_done detects (s\<lparr>fm_out := out\<rparr>) t) (\<lambda>t. tracker_ok t \<and> fm_next_id t = fm_next_id s \<and> fm_out t = out)
    (fm_UpdateFrame X detects (Some out) s)"
proof -
  define D where "D = map (\<lambda>d. d\<lparr>do_feat_mold := f_const (flt X) (-1)\<rparr>) detects"
  define u where "u = s\<lparr>fm_out := out, fm_detects := D\<rparr>"
  define v where "v = u\<lparr>fm_unconfirmed := [], fm_confirmed := []\<rparr>"
  have facts: "map facts D = map facts detects" by (simp add: D_def facts_def)
  have u: "fm_tracks u = fm_tracks s" "fm_next_id u = fm_next_id s" "fm_out u = out" "ics u = ics s" "kfs u" "tracker_ok u" "fm_detects u = D"
    using ok by (simp_all add: u_def ics_def tracker_ok_def kfs_def)
  have v: "fm_tracks v = fm_tracks s" "fm_next_id v = fm_next_id s" "fm_out v = out" "ics v = ics s" "tracker_ok v" "fm_detects v = D"
    "fm_confirmed v = []" "fm_unconfirmed v = []"
    using u by (simp_all add: v_def ics_def tracker_ok_def kfs_def)
  have to_s: "frame_done detects (s\<lparr>fm_out := out\<rparr>) t" if "frame_done detects w t" "fm_next_id w = fm_next_id s" "fm_out w = out" "ics w = ics s" for w t
    using that by (simp add: frame_done_def reports_def) (simp add: ics_def)
  have eq: "fm_UpdateFrame X detects (Some out) s = fm_private_UpdateFrame X (s\<lparr>fm_detects := detects, fm_out := out\<rparr>)"
    by (simp add: fm_UpdateFrame_def)
  have len: "length D = length detects" by (simp add: D_def)
  show ?thesis
  proof (cases "fm_tracks s = []")
    case True
    have "fm_UpdateFrame X detects (Some out) s = Ret () (fold (\<lambda>d s. emit_track d (-1) (InitNewTrack X (fm_detects s ! d) s)) [0..<length detects] u)"
      using True unfolding eq by (simp add: fm_private_UpdateFrame_def Let_def u_def D_def)
    moreover have "frame_done detects u (fold (\<lambda>d s. emit_track d (-1) (InitNewTrack X (fm_detects s ! d) s)) [0..<length detects] u)"
      by (rule first_frame [OF _ u(7) facts u(5)]) (simp add: u(1) True)
    ultimately show ?thesis using to_s u by simp
  next
    case False
    have run: "fm_UpdateFrame X detects (Some out) s = fm_match_frame X v"
      using False unfolding eq by (simp add: fm_private_UpdateFrame_def Let_def v_def u_def D_def)
    have "leaves (\<lambda>_ t. frame_done detects v t) (\<lambda>t. tracker_ok t \<and> fm_next_id t = fm_next_id v \<and> fm_out t = fm_out v) (fm_match_frame X v)"
      by (rule later_frame [OF v(5) _ _ v(7,8)]) (use tracks facts v in simp_all)
    then show ?thesis
      unfolding run by (rule leaves_mono) (use to_s [of v] v in simp_all)
  qed
qed

lemma new_tracker_ok: "tracker_ok (new_FeatureMatch X)"
  by (simp add: tracker_ok_def new_FeatureMatch_def kfs_def ics_def fresh_ids_def)

lemma first_frame_returns: "fm_tracks s = [] \<Longrightarrow> \<exists>t. fm_UpdateFrame X detects (Some out) s = Ret () t"
  by (simp add: fm_UpdateFrame_def fm_private_UpdateFrame_def)

text \<open>A detection without a feature, a unit square at the given height, for the examples.\<close>

definition demo_detection :: "rat \<Rightarrow> rat option DetectObject" where
  "demo_detection y = \<lparr>do_label = 1, do_score = Some 1, do_bbox = \<lparr>bb_x = Some 0, bb_y = Some y, bb_width = Some 1, bb_height = Some 1\<rparr>,
     do_track_id = -1, do_detect_id = -1, do_feature = [], do_feat_mold = Some 0\<rparr>"

text \<open>C27: Whatever the arithmetic computes, a frame reports every detection exactly once, with its
  own data, and never gives the same track identifier to two detections; the call throws only when
  features of different lengths are compared, and then reports nothing.\<close>

theorem tracker_reports_each_detection:
  assumes "tracker_ok s" and "uint (fm_next_id s) + int (length (fm_tracks s)) \<le> 2 ^ 31"
  shows "case fm_UpdateFrame X detects (Some out) s of
    Ret _ t \<Rightarrow> \<exists>new. fm_out t = out @ new \<and> mset (map do_detect_id new) = mset (map int [0..<length detects]) \<and>
      (\<forall>x\<in>set new. facts x = facts (detects ! nat (do_detect_id x))) \<and> distinct (filter (\<lambda>n. n \<noteq> -1) (map do_track_id new))
  | Exc e t \<Rightarrow> e = mismatch \<and> fm_out t = out | Blocked _ \<Rightarrow> True | _ \<Rightarrow> False"
  using UpdateFrame_leaves [OF assms, of detects out X]
  by (cases "fm_UpdateFrame X detects (Some out) s") (auto simp: frame_done_def reports_def)

theorem tracker_reports_each_detection_witness:
  "case fm_UpdateFrame (rat_fp id) [demo_detection 0, demo_detection 5] (Some []) (new_FeatureMatch (rat_fp id)) of
    Ret _ t \<Rightarrow> \<exists>new. fm_out t = new \<and> mset (map do_detect_id new) = {#0, 1#} | _ \<Rightarrow> False"
  using tracker_reports_each_detection [where s = "new_FeatureMatch (rat_fp id)" and X = "rat_fp id" and detects = "[demo_detection 0, demo_detection 5]" and out = "[]", OF new_tracker_ok]
    first_frame_returns [of "new_FeatureMatch (rat_fp id)" "rat_fp id" "[demo_detection 0, demo_detection 5]" "[]"]
  by (cases "fm_UpdateFrame (rat_fp id) [demo_detection 0, demo_detection 5] (Some []) (new_FeatureMatch (rat_fp id))") (auto simp: new_FeatureMatch_def)

text \<open>C28: After every frame, returned or thrown, tentative tracks have no identifier, confirmed ones have
  different ones below the next one; identifiers that are not older are taken from the counter, so
  none is used twice, and no track that is deleted or older than the limit is left.\<close>

theorem tracker_identifiers:
  assumes "tracker_ok s" and "uint (fm_next_id s) + int (length (fm_tracks s)) \<le> 2 ^ 31"
  shows "case fm_UpdateFrame X detects (Some out) s of
    Ret _ t \<Rightarrow> tracker_ok t \<and> tracks_alive t \<and> uint (fm_next_id s) \<le> uint (fm_next_id t) \<and>
      snd ` set (ics t) \<subseteq> insert (-1) (snd ` set (ics s)) \<union> {uint (fm_next_id s)..<uint (fm_next_id t)}
  | Exc e t \<Rightarrow> tracker_ok t \<and> fm_next_id t = fm_next_id s | Blocked _ \<Rightarrow> True | _ \<Rightarrow> False"
  using UpdateFrame_leaves [OF assms, of detects out X]
  by (cases "fm_UpdateFrame X detects (Some out) s") (auto simp: frame_done_def ics_def)

theorem tracker_identifiers_witness:
  "case fm_UpdateFrame (rat_fp id) [demo_detection 0, demo_detection 5] (Some []) (new_FeatureMatch (rat_fp id)) of
    Ret _ t \<Rightarrow> tracker_ok t \<and> tracks_alive t | _ \<Rightarrow> False"
  using tracker_identifiers [where s = "new_FeatureMatch (rat_fp id)" and X = "rat_fp id" and detects = "[demo_detection 0, demo_detection 5]" and out = "[]", OF new_tracker_ok]
    first_frame_returns [of "new_FeatureMatch (rat_fp id)" "rat_fp id" "[demo_detection 0, demo_detection 5]" "[]"]
  by (cases "fm_UpdateFrame (rat_fp id) [demo_detection 0, demo_detection 5] (Some []) (new_FeatureMatch (rat_fp id))") (auto simp: new_FeatureMatch_def)

end
