(* ===== verification/Shapes.thy ===== *)
theory Shapes
  imports Prelude "HOL-Library.Signed_Division"
begin

text \<open>
  The shapes of a model's data (easydk/include/easyinfer/shape.h, easydk/src/easyinfer/shape.cpp).
  \<open>ShapeEx\<close> is a vector of \<open>int\<close>; its counts are \<open>int64_t\<close>, whose overflow is undefined. \<open>Shape\<close>
  has four \<open>uint32_t\<close> dimensions and a stride; its products of two \<open>uint32_t\<close> wrap before they
  are widened. What has no defined value is \<open>None\<close>.
\<close>

type_synonym i32 = "32 word"

subsection \<open>ShapeEx\<close>

type_synonym ShapeEx = "i32 list"

definition shx_at :: "int \<Rightarrow> ShapeEx \<Rightarrow> int option" where
  "shx_at offset data = (if 0 \<le> offset \<and> nat offset < length data then Some (sint (data ! nat offset)) else None)"

text \<open>An assignment through the reference the other \<open>operator[]\<close> returns.\<close>

definition shx_set_at :: "int \<Rightarrow> i32 \<Rightarrow> ShapeEx \<Rightarrow> ShapeEx option" where
  "shx_set_at offset v data = (if 0 \<le> offset \<and> nat offset < length data then Some (data[nat offset := v]) else None)"

definition shx_Size :: "ShapeEx \<Rightarrow> nat" where
  "shx_Size data = length data"

definition shx_Empty :: "ShapeEx \<Rightarrow> bool" where
  "shx_Empty data \<longleftrightarrow> data = []"

definition shx_BatchSize :: "ShapeEx \<Rightarrow> int option" where
  "shx_BatchSize data = shx_at 0 data"

definition shx_dim :: "nat \<Rightarrow> ShapeEx \<Rightarrow> int" where
  "shx_dim i data = (if shx_Size data = 4 then sint (data ! i) else 0)"

definition shx_N :: "ShapeEx \<Rightarrow> int" where "shx_N = shx_dim 0"

definition shx_H :: "ShapeEx \<Rightarrow> int" where "shx_H = shx_dim 1"

definition shx_W :: "ShapeEx \<Rightarrow> int" where "shx_W = shx_dim 2"

definition shx_C :: "ShapeEx \<Rightarrow> int" where "shx_C = shx_dim 3"

text \<open>One \<open>cnt *= data_[i]\<close> on \<open>int64_t\<close>.\<close>

definition mul_i64 :: "int \<Rightarrow> int \<Rightarrow> int option" where
  "mul_i64 a b = (if - (2 ^ 63) \<le> a * b \<and> a * b < 2 ^ 63 then Some (a * b) else None)"

fun shx_count :: "int \<Rightarrow> ShapeEx \<Rightarrow> int option" where
  "shx_count cnt [] = Some cnt"
| "shx_count cnt (d # ds) = (case mul_i64 cnt (sint d) of None \<Rightarrow> None | Some cnt \<Rightarrow> shx_count cnt ds)"

definition shx_DataCount :: "ShapeEx \<Rightarrow> int option" where
  "shx_DataCount data = shx_count 1 (drop 1 data)"

definition shx_BatchDataCount :: "ShapeEx \<Rightarrow> int option" where
  "shx_BatchDataCount data = shx_count 1 data"

text \<open>The stream operator; for an empty shape the bound \<open>Size() - 1\<close> of its loop wraps and it reads out of the vector.\<close>

definition shx_print :: "ShapeEx \<Rightarrow> string option" where
  "shx_print data =
     (if shx_Size data = 0 then None
      else Some (''ShapeEx ('' @ concat (map (\<lambda>i. int_to_string (sint (data ! i)) @ '', '') [0..<shx_Size data - 1]) @
                 int_to_string (sint (data ! (shx_Size data - 1))) @ '')''))"

definition shx_eq :: "ShapeEx \<Rightarrow> ShapeEx \<Rightarrow> bool" where
  "shx_eq lhs rhs \<longleftrightarrow> shx_Size lhs = shx_Size rhs \<and> list_all (\<lambda>i. lhs ! i = rhs ! i) [0..<shx_Size lhs]"

definition shx_ne :: "ShapeEx \<Rightarrow> ShapeEx \<Rightarrow> bool" where
  "shx_ne lhs rhs \<longleftrightarrow> \<not> shx_eq lhs rhs"

subsection \<open>Shape\<close>

record Shape =
  sh_n :: u32
  sh_h :: u32
  sh_w :: u32
  sh_c :: u32
  sh_stride :: u32

definition new_Shape :: "u32 \<Rightarrow> u32 \<Rightarrow> u32 \<Rightarrow> u32 \<Rightarrow> u32 \<Rightarrow> Shape" where
  "new_Shape n h w c stride = \<lparr>sh_n = n, sh_h = h, sh_w = w, sh_c = c, sh_stride = stride\<rparr>"

definition sh_Stride :: "Shape \<Rightarrow> u32" where
  "sh_Stride s = (if sh_w s > sh_stride s then sh_w s else sh_stride s)"

definition sh_SetStride :: "u32 \<Rightarrow> Shape \<Rightarrow> Shape" where
  "sh_SetStride x s = s\<lparr>sh_stride := x\<rparr>"

definition sh_Step :: "Shape \<Rightarrow> u64" where
  "sh_Step s = ucast (sh_Stride s * sh_c s)"

definition sh_DataCount :: "Shape \<Rightarrow> u64" where
  "sh_DataCount s = ucast (sh_n s * sh_h s) * sh_Step s"

definition sh_nhwc :: "Shape \<Rightarrow> u64" where
  "sh_nhwc s = ucast (sh_n s * sh_h s * sh_w s * sh_c s)"

definition sh_hwc :: "Shape \<Rightarrow> u64" where
  "sh_hwc s = ucast (sh_h s * sh_w s * sh_c s)"

definition sh_hw :: "Shape \<Rightarrow> u64" where
  "sh_hw s = ucast (sh_h s * sh_w s)"

definition sh_print :: "Shape \<Rightarrow> string" where
  "sh_print s = ''NHWC+STRIDE('' @ nat_to_string (unat (sh_n s)) @ '', '' @ nat_to_string (unat (sh_h s)) @ '', '' @
     nat_to_string (unat (sh_w s)) @ '', '' @ nat_to_string (unat (sh_c s)) @ '', '' @ nat_to_string (unat (sh_Stride s)) @ '')''"

definition sh_eq :: "Shape \<Rightarrow> Shape \<Rightarrow> bool" where
  "sh_eq s other \<longleftrightarrow> sh_n s = sh_n other \<and> sh_c s = sh_c other \<and> sh_h s = sh_h other \<and> sh_w s = sh_w other \<and>
     sh_Stride s = sh_Stride other"

definition sh_ne :: "Shape \<Rightarrow> Shape \<Rightarrow> bool" where
  "sh_ne s other \<longleftrightarrow> \<not> sh_eq s other"

subsection \<open>Counts\<close>

text \<open>Dimensions that no factor of a product makes overflow: positive, with a product below the bound.\<close>

definition dims_fit :: "int \<Rightarrow> ShapeEx \<Rightarrow> bool" where
  "dims_fit bound ds \<longleftrightarrow> (\<forall>d\<in>set ds. 0 < sint d) \<and> prod_list (map sint ds) < bound"

lemma prod_list_pos: "(\<And>x. x \<in> set xs \<Longrightarrow> 0 < x) \<Longrightarrow> 0 < prod_list (xs :: int list)"
  by (induction xs) auto

lemma shx_count_fits:
  assumes "\<forall>d\<in>set ds. 0 < sint d" and "0 < cnt" and "cnt * prod_list (map sint ds) < 2 ^ 63"
  shows "shx_count cnt ds = Some (cnt * prod_list (map sint ds))"
  using assms
proof (induction ds arbitrary: cnt)
  case (Cons d ds)
  have p: "0 < prod_list (map sint ds)" using Cons.prems(1) by (intro prod_list_pos) auto
  have d: "0 < sint d" using Cons.prems(1) by simp
  have "cnt * sint d * 1 \<le> cnt * sint d * prod_list (map sint ds)"
    using p d Cons.prems(2) by (intro mult_left_mono) auto
  also have "\<dots> < 2 ^ 63" using Cons.prems(3) by (simp add: ac_simps)
  finally have "cnt * sint d < 2 ^ 63" by simp
  moreover have "0 < cnt * sint d" using d Cons.prems(2) by simp
  ultimately have "mul_i64 cnt (sint d) = Some (cnt * sint d)" by (simp add: mul_i64_def)
  moreover have "shx_count (cnt * sint d) ds = Some (cnt * sint d * prod_list (map sint ds))"
    using Cons.prems d by (intro Cons.IH) (auto simp: ac_simps)
  ultimately show ?case by (simp add: ac_simps)
qed simp

lemma shx_BatchDataCount_fits:
  "dims_fit (2 ^ 63) ds \<Longrightarrow> shx_BatchDataCount ds = Some (prod_list (map sint ds))"
  using shx_count_fits [of ds 1] by (simp add: dims_fit_def shx_BatchDataCount_def)

lemma shx_eq_iff: "shx_eq lhs rhs \<longleftrightarrow> lhs = rhs"
  by (auto simp: shx_eq_def shx_Size_def list_all_iff intro: nth_equalityI)

lemma sint_pos_uint:
  fixes w :: i32
  assumes "0 < sint w"
  shows "uint w = sint w"
proof -
  have s: "sint w = take_bit 32 (uint w + 2 ^ 31) - 2 ^ 31"
    by (simp add: sint_uint signed_take_bit_eq_take_bit_shift)
  have lt: "0 \<le> uint w" "uint w < 2 ^ 32" using uint_bounded [of w] by simp_all
  show ?thesis
  proof (cases "uint w < 2 ^ 31")
    case True
    then have "take_bit 32 (uint w + 2 ^ 31) = uint w + 2 ^ 31" using lt by (simp add: take_bit_int_eq_self)
    then show ?thesis using s by simp
  next
    case False
    then have "(uint w + 2 ^ 31 - 2 ^ 32) mod 2 ^ 32 = uint w + 2 ^ 31 - 2 ^ 32"
      using lt by (intro mod_pos_pos_trivial) auto
    then have "take_bit 32 (uint w + 2 ^ 31) = uint w + 2 ^ 31 - 2 ^ 32"
      by (metis take_bit_eq_mod minus_mod_self2)
    then show ?thesis using s lt assms by simp
  qed
qed

text \<open>A product of four \<open>uint32_t\<close> that fits is the product of the numbers.\<close>

lemma uint_prod4:
  fixes a b c d :: u32
  assumes "uint a * uint b * uint c * uint d < 2 ^ 32"
  shows "uint (a * b * c * d) = uint a * uint b * uint c * uint d"
proof -
  have "a * b * c * d = word_of_int (uint a * uint b * uint c * uint d)" by simp
  moreover have "0 \<le> uint a * uint b * uint c * uint d" by simp
  ultimately show ?thesis using assms by (simp only: uint_word_of_int_eq) (rule take_bit_int_eq_self; simp)
qed

end
