(* ===== verification/Model_Loader.thy ===== *)
theory Model_Loader
  imports Shapes Mlu_Memory_Op
begin

text \<open>
  ModelLoader (easydk/src/easyinfer/model_loader.cpp and model_loader_internal.h): loading an offline
  model, the numbers, sizes, types and shapes of its inputs and outputs, and the layouts on the
  host, which the user may set. What CNRT answers about the model is an argument; \<open>l_trace\<close> lists
  what was created and destroyed, the newest first. Indices are \<open>int\<close>.
\<close>

subsection \<open>Data\<close>

datatype DimOrder = NCHW | NHWC | HWCN | TNC | NTC

record DataLayout =
  dl_dtype :: DataType
  dl_order :: DimOrder

text \<open>The value-initialised layout: both enumerators are the first ones.\<close>

definition DataLayout0 :: DataLayout where
  "DataLayout0 = \<lparr>dl_dtype = UINT8, dl_order = NCHW\<rparr>"

datatype cnrtDataType = CNRT_UINT8 | CNRT_FLOAT32 | CNRT_FLOAT16 | CNRT_INT16 | CNRT_INT32 | CNRT_OTHER_TYPE nat

fun CastDataType :: "DataType \<Rightarrow> cnrtDataType" where
  "CastDataType UINT8 = CNRT_UINT8"
| "CastDataType FLOAT32 = CNRT_FLOAT32"
| "CastDataType FLOAT16 = CNRT_FLOAT16"
| "CastDataType INT16 = CNRT_INT16"
| "CastDataType INT32 = CNRT_INT32"

fun cast_cnrt_type :: "cnrtDataType \<Rightarrow> exn + DataType" where
  "cast_cnrt_type CNRT_UINT8 = Inr UINT8"
| "cast_cnrt_type CNRT_FLOAT32 = Inr FLOAT32"
| "cast_cnrt_type CNRT_FLOAT16 = Inr FLOAT16"
| "cast_cnrt_type CNRT_INT16 = Inr INT16"
| "cast_cnrt_type CNRT_INT32 = Inr INT32"
| "cast_cnrt_type (CNRT_OTHER_TYPE n) = Inl (throw UNSUPPORTED ''Unsupported data type'')"

fun DataTypeStr :: "DataType \<Rightarrow> string" where
  "DataTypeStr UINT8 = ''DataType UINT8''"
| "DataTypeStr FLOAT32 = ''DataType FLOAT32''"
| "DataTypeStr FLOAT16 = ''DataType FLOAT16''"
| "DataTypeStr INT16 = ''DataType INT16''"
| "DataTypeStr INT32 = ''DataType INT32''"

fun DimOrderStr :: "DimOrder \<Rightarrow> exn + string" where
  "DimOrderStr NCHW = Inr ''DimOrder NCHW''"
| "DimOrderStr NHWC = Inr ''DimOrder NHWC''"
| "DimOrderStr HWCN = Inl (throw UNSUPPORTED ''Unsupported dimension order'')"
| "DimOrderStr TNC = Inl (throw UNSUPPORTED ''Unsupported dimension order'')"
| "DimOrderStr NTC = Inl (throw UNSUPPORTED ''Unsupported dimension order'')"

datatype ml_act = ML_Load | ML_Create_Function | ML_Destroy_Function | ML_Unload | ML_Set_Stack u32

text \<open>
  The answers about one model: a return code, and what is filled in when it is the success. Shapes
  and types are asked for by index and for all inputs (outputs) at once. \<open>a_debug\<close> says whether
  debug messages are on; the arguments of a message that is off are not evaluated.
\<close>

record ml_env =
  a_file_exists :: bool
  a_load :: cnrtRet
  a_create :: cnrtRet
  a_extract :: cnrtRet
  a_parallelism :: "cnrtRet \<times> int"
  a_input_sizes :: "cnrtRet \<times> int list"
  a_output_sizes :: "cnrtRet \<times> int list"
  a_input_shape :: "nat \<Rightarrow> cnrtRet \<times> ShapeEx"
  a_output_shape :: "nat \<Rightarrow> cnrtRet \<times> ShapeEx"
  a_input_types :: "cnrtRet \<times> cnrtDataType list"
  a_output_types :: "cnrtRet \<times> cnrtDataType list"
  a_stack_size :: "cnrtRet \<times> u64"
  a_stack_mem :: "cnrtRet \<times> u32"
  a_set_stack :: "u32 \<Rightarrow> cnrtRet"
  a_destroy :: cnrtRet
  a_unload :: cnrtRet
  a_debug :: bool

record ModelLoader =
  l_i_data_sizes :: "int list"
  l_o_data_sizes :: "int list"
  l_i_mlu_layouts :: "DataLayout list"
  l_o_mlu_layouts :: "DataLayout list"
  l_o_num :: nat
  l_i_num :: nat
  l_model_parallelism :: int
  l_i_cpu_layouts :: "DataLayout list"
  l_o_cpu_layouts :: "DataLayout list"
  l_input_shapes :: "Shape list"
  l_output_shapes :: "Shape list"
  l_input_shapexs :: "ShapeEx list"
  l_output_shapexs :: "ShapeEx list"
  l_trace :: "ml_act list"

definition ml_do :: "ml_act \<Rightarrow> ModelLoader \<Rightarrow> ModelLoader" where
  "ml_do a l = l\<lparr>l_trace := a # l_trace l\<rparr>"

definition CHECK_CONDITION :: "bool \<Rightarrow> string \<Rightarrow> ModelLoader \<Rightarrow> (ModelLoader, unit) run" where
  "CHECK_CONDITION cond msg l = (if \<not> cond then Exc (throw INTERNAL msg) l else Ret () l)"

definition ml_check :: "cnrtRet \<Rightarrow> string \<Rightarrow> ModelLoader \<Rightarrow> (ModelLoader, unit) run" where
  "ml_check r msg = CHECK_CONDITION (r = CNRT_RET_SUCCESS) (msg @ '' failed, cnrt error code : '' @ nat_to_string (cnrt_code r))"

subsection \<open>Loading\<close>

text \<open>
  Four dimensions, 1 where the model has fewer; a model with more is written past the four elements.
\<close>

definition shape_of_dims :: "ShapeEx \<Rightarrow> Shape option" where
  "shape_of_dims ds =
     (if 4 < length ds then None
      else let d = ds @ replicate (4 - length ds) 1 in Some (new_Shape (d ! 0) (d ! 1) (d ! 2) (d ! 3) 1))"

text \<open>The loops over the inputs and the outputs, from index \<open>i\<close> on; \<open>n\<close> remain.\<close>

fun load_shapes :: "(nat \<Rightarrow> cnrtRet \<times> ShapeEx) \<Rightarrow> string \<Rightarrow> (ShapeEx \<Rightarrow> Shape \<Rightarrow> ModelLoader \<Rightarrow> ModelLoader) \<Rightarrow> nat \<Rightarrow> nat \<Rightarrow>
    ModelLoader \<Rightarrow> (ModelLoader, unit) run" where
  "load_shapes ask msg add i 0 l = Ret () l"
| "load_shapes ask msg add i (Suc n) l =
     call_then (ml_check (fst (ask i)) msg l) (\<lambda>_ l.
     case shape_of_dims (snd (ask i)) of None \<Rightarrow> UB
     | Some s \<Rightarrow> load_shapes ask msg add (Suc i) n (add (snd (ask i)) s l))"

definition add_input_shape :: "ShapeEx \<Rightarrow> Shape \<Rightarrow> ModelLoader \<Rightarrow> ModelLoader" where
  "add_input_shape x s l = l\<lparr>l_input_shapexs := l_input_shapexs l @ [x], l_input_shapes := l_input_shapes l @ [s]\<rparr>"

definition add_output_shape :: "ShapeEx \<Rightarrow> Shape \<Rightarrow> ModelLoader \<Rightarrow> ModelLoader" where
  "add_output_shape x s l = l\<lparr>l_output_shapexs := l_output_shapexs l @ [x], l_output_shapes := l_output_shapes l @ [s]\<rparr>"

text \<open>Layout \<open>i\<close> of the device is set from the type of index \<open>i\<close>; the device's order is always NHWC.\<close>

fun cast_layouts :: "cnrtDataType list \<Rightarrow> exn + DataLayout list" where
  "cast_layouts [] = Inr []"
| "cast_layouts (t # ts) =
     (case cast_cnrt_type t of Inl e \<Rightarrow> Inl e
      | Inr d \<Rightarrow> (case cast_layouts ts of Inl e \<Rightarrow> Inl e | Inr ls \<Rightarrow> Inr (\<lparr>dl_dtype = d, dl_order = NHWC\<rparr> # ls)))"

definition cpu_layout :: DataLayout where
  "cpu_layout = \<lparr>dl_dtype = FLOAT32, dl_order = NHWC\<rparr>"

text \<open>The second part of \<open>LoadFunction\<close>: types of the device and the layouts of the host.\<close>

definition load_layouts :: "ml_env \<Rightarrow> ModelLoader \<Rightarrow> (ModelLoader, unit) run" where
  "load_layouts E l =
     call_then (ml_check (fst (a_input_types E)) ''Get input data type'' l) (\<lambda>_ l.
     call_then (CHECK_CONDITION (length (snd (a_input_types E)) = length (l_i_data_sizes l))
        ''Internel error, maybe input number from cnrtGetInputDataType is wrong.'' l) (\<lambda>_ l.
     case cast_layouts (take (l_i_num l) (snd (a_input_types E))) of Inl e \<Rightarrow> Exc e l
     | Inr ils \<Rightarrow>
     let l = l\<lparr>l_i_mlu_layouts := ils\<rparr>
     in call_then (ml_check (fst (a_output_types E)) ''Get output data type'' l) (\<lambda>_ l.
        call_then (CHECK_CONDITION (length (snd (a_output_types E)) = length (l_o_data_sizes l))
           ''Internel error, maybe output number from cnrtGetOutputDataType is wrong.'' l) (\<lambda>_ l.
        case cast_layouts (take (l_o_num l) (snd (a_output_types E))) of Inl e \<Rightarrow> Exc e l
        | Inr ols \<Rightarrow>
          Ret () (l\<lparr>l_o_mlu_layouts := ols, l_i_cpu_layouts := replicate (l_i_num l) cpu_layout,
                    l_o_cpu_layouts := replicate (l_o_num l) cpu_layout\<rparr>)))))"

definition LoadFunction :: "ml_env \<Rightarrow> ModelLoader \<Rightarrow> (ModelLoader, unit) run" where
  "LoadFunction E l =
     call_then (ml_check (a_create E) ''Create function'' l) (\<lambda>_ l.
     call_then (ml_check (a_extract E) ''Extract function'' (ml_do ML_Create_Function l)) (\<lambda>_ l.
     call_then (ml_check (fst (a_parallelism E)) ''Query Model Parallelism'' l) (\<lambda>_ l.
     call_then (ml_check (fst (a_input_sizes E)) ''Get input data size'' (l\<lparr>l_model_parallelism := snd (a_parallelism E)\<rparr>)) (\<lambda>_ l.
     let l = l\<lparr>l_i_num := length (snd (a_input_sizes E)), l_i_data_sizes := snd (a_input_sizes E)\<rparr>
     in call_then (ml_check (fst (a_output_sizes E)) ''Get output data size'' l) (\<lambda>_ l.
        let l = l\<lparr>l_o_num := length (snd (a_output_sizes E)), l_o_data_sizes := snd (a_output_sizes E),
                  l_input_shapes := [], l_input_shapexs := []\<rparr>
        in call_then (load_shapes (a_input_shape E) ''Get input data size'' add_input_shape 0 (l_i_num l) l) (\<lambda>_ l.
           let l = l\<lparr>l_output_shapes := [], l_output_shapexs := []\<rparr>
           in call_then (load_shapes (a_output_shape E) ''Get output data shape'' add_output_shape 0 (l_o_num l) l) (\<lambda>_ l.
              load_layouts E l)))))))"

text \<open>
  The constructors from a file and from memory. An exception leaves the object without running its
  destructor; the state it leaves is what still exists. \<open>l0\<close> are the uninitialised members.
\<close>

definition ModelLoader0 :: "ModelLoader \<Rightarrow> ModelLoader" where
  "ModelLoader0 l0 =
     l0\<lparr>l_i_data_sizes := [], l_o_data_sizes := [], l_i_mlu_layouts := [], l_o_mlu_layouts := [], l_i_cpu_layouts := [],
        l_o_cpu_layouts := [], l_input_shapes := [], l_output_shapes := [], l_input_shapexs := [], l_output_shapexs := [], l_trace := []\<rparr>"

definition ModelLoader_from_file :: "ml_env \<Rightarrow> ModelLoader \<Rightarrow> (ModelLoader, unit) run" where
  "ModelLoader_from_file E l =
     (if \<not> a_file_exists E then Exc (throw UNAVAILABLE ''Model file not exist. Please check model path'') l
      else call_then (ml_check (a_load E) ''Load model'' l) (\<lambda>_ l. LoadFunction E (ml_do ML_Load l)))"

definition ModelLoader_from_mem :: "ml_env \<Rightarrow> ModelLoader \<Rightarrow> (ModelLoader, unit) run" where
  "ModelLoader_from_mem E l =
     call_then (ml_check (a_load E) ''Load model from memory'' l) (\<lambda>_ l. LoadFunction E (ml_do ML_Load l))"

text \<open>Failures of the destructor are only logged.\<close>

definition ModelLoader_destroy :: "ModelLoader \<Rightarrow> ModelLoader" where
  "ModelLoader_destroy l = ml_do ML_Unload (ml_do ML_Destroy_Function l)"

subsection \<open>Access\<close>

definition InputNum :: "ModelLoader \<Rightarrow> nat" where "InputNum l = l_i_num l"

definition OutputNum :: "ModelLoader \<Rightarrow> nat" where "OutputNum l = l_o_num l"

text \<open>Element \<open>data_index\<close> of a vector, undefined behaviour outside of it, a default where the index is refused.\<close>

definition ml_get :: "nat \<Rightarrow> 'a \<Rightarrow> 'a list \<Rightarrow> int \<Rightarrow> ModelLoader \<Rightarrow> (ModelLoader, 'a) run" where
  "ml_get num dflt xs data_index l =
     (if data_index < 0 \<or> data_index \<ge> sint (word_of_nat num :: i32) then Ret dflt l
      else if nat data_index < length xs then Ret (xs ! nat data_index) l else UB)"

definition InputDataSize :: "int \<Rightarrow> ModelLoader \<Rightarrow> (ModelLoader, int) run" where
  "InputDataSize i l = ml_get (InputNum l) 0 (l_i_data_sizes l) i l"

definition OutputDataSize :: "int \<Rightarrow> ModelLoader \<Rightarrow> (ModelLoader, int) run" where
  "OutputDataSize i l = ml_get (OutputNum l) 0 (l_o_data_sizes l) i l"

definition GetMluInputLayout :: "int \<Rightarrow> ModelLoader \<Rightarrow> (ModelLoader, DataLayout) run" where
  "GetMluInputLayout i l = ml_get (InputNum l) DataLayout0 (l_i_mlu_layouts l) i l"

definition GetMluOutputLayout :: "int \<Rightarrow> ModelLoader \<Rightarrow> (ModelLoader, DataLayout) run" where
  "GetMluOutputLayout i l = ml_get (OutputNum l) DataLayout0 (l_o_mlu_layouts l) i l"

definition GetCpuInputLayout :: "int \<Rightarrow> ModelLoader \<Rightarrow> (ModelLoader, DataLayout) run" where
  "GetCpuInputLayout i l = ml_get (InputNum l) DataLayout0 (l_i_cpu_layouts l) i l"

definition GetCpuOutputLayout :: "int \<Rightarrow> ModelLoader \<Rightarrow> (ModelLoader, DataLayout) run" where
  "GetCpuOutputLayout i l = ml_get (OutputNum l) DataLayout0 (l_o_cpu_layouts l) i l"

text \<open>The message after the layout is stored fails for an order it cannot name.\<close>

definition log_layout :: "bool \<Rightarrow> DataLayout \<Rightarrow> ModelLoader \<Rightarrow> (ModelLoader, unit) run" where
  "log_layout debug layout l =
     (if debug then case DimOrderStr (dl_order layout) of Inl e \<Rightarrow> Exc e l | Inr _ \<Rightarrow> Ret () l else Ret () l)"

definition SetCpuInputLayout :: "ml_env \<Rightarrow> DataLayout \<Rightarrow> int \<Rightarrow> ModelLoader \<Rightarrow> (ModelLoader, unit) run" where
  "SetCpuInputLayout E layout data_index l =
     (if data_index < 0 \<or> data_index \<ge> int (l_i_num l) then Exc (throw INVALID_ARG ''SetCpuInputLayout: Data index out of range'') l
      else if dl_dtype layout \<noteq> FLOAT32 then Exc (throw INVALID_ARG ''Only support float32 for cpu layout'') l
      else log_layout (a_debug E) layout (l\<lparr>l_i_cpu_layouts := (l_i_cpu_layouts l)[nat data_index := layout]\<rparr>))"

definition SetCpuOutputLayout :: "ml_env \<Rightarrow> DataLayout \<Rightarrow> int \<Rightarrow> ModelLoader \<Rightarrow> (ModelLoader, unit) run" where
  "SetCpuOutputLayout E layout data_index l =
     (if data_index < 0 \<or> data_index \<ge> int (l_o_num l) then Exc (throw INVALID_ARG ''SetCpuOutputLayout: Data index out of range'') l
      else if dl_dtype layout \<noteq> FLOAT32 then Exc (throw INVALID_ARG ''Only support float32 for cpu layout'') l
      else log_layout (a_debug E) layout (l\<lparr>l_o_cpu_layouts := (l_o_cpu_layouts l)[nat data_index := layout]\<rparr>))"

text \<open>The new size is passed as \<open>unsigned int\<close>.\<close>

definition AdjustStackMemory :: "ml_env \<Rightarrow> ModelLoader \<Rightarrow> (ModelLoader, bool) run" where
  "AdjustStackMemory E l =
     call_then (CHECK_CONDITION (fst (a_stack_size E) = CNRT_RET_SUCCESS)
        (''Query model stack size failed. cnrt error_code : '' @ nat_to_string (cnrt_code (fst (a_stack_size E)))) l) (\<lambda>_ l.
     call_then (CHECK_CONDITION (fst (a_stack_mem E) = CNRT_RET_SUCCESS)
        (''Get current device stack size failed. cnrt error_code : '' @ nat_to_string (cnrt_code (fst (a_stack_mem E)))) l) (\<lambda>_ l.
     let stack_size = snd (a_stack_size E)
     in if stack_size > ucast (snd (a_stack_mem E))
        then let n = ucast (stack_size + 50) :: u32; l = ml_do (ML_Set_Stack n) l
             in call_then (CHECK_CONDITION (a_set_stack E n = CNRT_RET_SUCCESS)
                  (''set stack size failed. cnrt error_code : '' @ nat_to_string (cnrt_code (a_set_stack E n))) l) (\<lambda>_ l. Ret True l)
        else Ret False l))"

definition InputShapes :: "ModelLoader \<Rightarrow> Shape list" where "InputShapes l = l_input_shapes l"

definition OutputShapes :: "ModelLoader \<Rightarrow> Shape list" where "OutputShapes l = l_output_shapes l"

text \<open>The index may be one past the end.\<close>

definition InputShape :: "nat \<Rightarrow> ModelLoader \<Rightarrow> (ModelLoader, ShapeEx) run" where
  "InputShape index l =
     (if index > l_i_num l then Exc (throw INVALID_ARG ''input shape index overflow'') l
      else if index < length (l_input_shapexs l) then Ret (l_input_shapexs l ! index) l else UB)"

definition OutputShape :: "nat \<Rightarrow> ModelLoader \<Rightarrow> (ModelLoader, ShapeEx) run" where
  "OutputShape index l =
     (if index > l_o_num l then Exc (throw INVALID_ARG ''output shape index overflow'') l
      else if index < length (l_output_shapexs l) then Ret (l_output_shapexs l ! index) l else UB)"

definition ModelParallelism :: "ModelLoader \<Rightarrow> int" where "ModelParallelism l = l_model_parallelism l"

text \<open>\<open>int64_t\<close> divided by \<open>int\<close>: truncated, undefined for 0 and for the one quotient that does not fit.\<close>

definition div_i64 :: "int \<Rightarrow> int \<Rightarrow> int option" where
  "div_i64 a b = (if b = 0 \<or> (a = - (2 ^ 63) \<and> b = -1) then None else Some (a sdiv b))"

definition batch_align_size :: "nat \<Rightarrow> int list \<Rightarrow> ShapeEx list \<Rightarrow> int \<Rightarrow> ModelLoader \<Rightarrow> (ModelLoader, int) run" where
  "batch_align_size num sizes shapexs i l =
     (if i < 0 \<or> i \<ge> sint (word_of_nat num :: i32) then Ret 0 l
      else call_then (ml_get num 0 sizes i l) (\<lambda>size l.
           if nat i < length shapexs
           then case shx_at 0 (shapexs ! nat i) of None \<Rightarrow> UB
                | Some b \<Rightarrow> (case div_i64 size b of None \<Rightarrow> UB | Some q \<Rightarrow> Ret q l)
           else UB))"

definition GetInputDataBatchAlignSize :: "int \<Rightarrow> ModelLoader \<Rightarrow> (ModelLoader, int) run" where
  "GetInputDataBatchAlignSize i l = batch_align_size (InputNum l) (l_i_data_sizes l) (l_input_shapexs l) i l"

definition GetOutputDataBatchAlignSize :: "int \<Rightarrow> ModelLoader \<Rightarrow> (ModelLoader, int) run" where
  "GetOutputDataBatchAlignSize i l = batch_align_size (OutputNum l) (l_o_data_sizes l) (l_output_shapexs l) i l"

end
