(* ===== verification/Model_Loader_Props.thy ===== *)
theory Model_Loader_Props
  imports Model_Loader
begin

text \<open>
  What a loaded model looks like, what a failing load leaves behind, the invariant of the layouts on
  the host, the getters with every index, and the two notions of shape.
\<close>

subsection \<open>Loading\<close>

lemma ml_do_sel [simp]:
  "l_trace (ml_do a l) = a # l_trace l" "l_i_num (ml_do a l) = l_i_num l" "l_o_num (ml_do a l) = l_o_num l"
  by (simp_all add: ml_do_def)

lemma CHECK_CONDITION_simps [simp]:
  "CHECK_CONDITION True msg l = Ret () l" "CHECK_CONDITION False msg l = Exc (throw INTERNAL msg) l"
  by (simp_all add: CHECK_CONDITION_def)

lemma ml_check_cases:
  obtains (ok) "r = CNRT_RET_SUCCESS" "ml_check r msg l = Ret () l"
    | (exc) e where "r \<noteq> CNRT_RET_SUCCESS" "ml_check r msg l = Exc e l" "ErrorCode e = INTERNAL"
  by (cases "r = CNRT_RET_SUCCESS") (auto simp: ml_check_def)

text \<open>Models and functions that were created and not released.\<close>

fun ml_models :: "ml_act list \<Rightarrow> int" where
  "ml_models [] = 0"
| "ml_models (a # t) = ml_models t + (case a of ML_Load \<Rightarrow> 1 | ML_Unload \<Rightarrow> -1 | _ \<Rightarrow> 0)"

fun ml_functions :: "ml_act list \<Rightarrow> int" where
  "ml_functions [] = 0"
| "ml_functions (a # t) = ml_functions t + (case a of ML_Create_Function \<Rightarrow> 1 | ML_Destroy_Function \<Rightarrow> -1 | _ \<Rightarrow> 0)"

text \<open>Shapes \<open>i\<close> to \<open>i + n\<close> as the loop stores them.\<close>

definition loaded_shapes :: "(nat \<Rightarrow> cnrtRet \<times> ShapeEx) \<Rightarrow> nat \<Rightarrow> ShapeEx list \<Rightarrow> Shape list \<Rightarrow> bool" where
  "loaded_shapes ask n xs ss \<longleftrightarrow> xs = map (\<lambda>i. snd (ask i)) [0..<n] \<and> map Some ss = map shape_of_dims xs"

lemma load_shapes_outcome:
  "(\<exists>ss. load_shapes ask msg add i n l = Ret () (fold (\<lambda>(x, s). add x s) (zip (map (\<lambda>i. snd (ask i)) [i..<i + n]) ss) l) \<and>
      map Some ss = map (\<lambda>i. shape_of_dims (snd (ask i))) [i..<i + n]) \<or>
   (\<exists>e ps. load_shapes ask msg add i n l = Exc e (fold (\<lambda>(x, s). add x s) ps l) \<and> ErrorCode e = INTERNAL) \<or>
   (load_shapes ask msg add i n l = UB \<and> (\<exists>j<i + n. 4 < length (snd (ask j))))"
proof (induction n arbitrary: i l)
  case (Suc n)
  show ?case
  proof (cases rule: ml_check_cases [of "fst (ask i)" msg l, case_names ok exc])
    case (exc e)
    then show ?thesis by (intro disjI2 disjI1 exI [of _ e] exI [of _ "[]"]) simp
  next
    case ok
    show ?thesis
    proof (cases "shape_of_dims (snd (ask i))")
      case None
      then have "4 < length (snd (ask i))" by (auto simp: shape_of_dims_def Let_def split: if_splits)
      then have "\<exists>j<i + Suc n. 4 < length (snd (ask j))" by (intro exI [of _ i]) simp
      then show ?thesis using ok None by simp
    next
      case (Some s)
      let ?l = "add (snd (ask i)) s l"
      have upt: "[i..<i + Suc n] = i # [Suc i..<Suc i + n]" by (simp add: upt_conv_Cons)
      from Suc.IH [of "Suc i" ?l] consider
          (ret) ss where "load_shapes ask msg add (Suc i) n ?l =
              Ret () (fold (\<lambda>(x, s). add x s) (zip (map (\<lambda>i. snd (ask i)) [Suc i..<Suc i + n]) ss) ?l)"
            "map Some ss = map (\<lambda>i. shape_of_dims (snd (ask i))) [Suc i..<Suc i + n]"
        | (exc) e ps where "load_shapes ask msg add (Suc i) n ?l = Exc e (fold (\<lambda>(x, s). add x s) ps ?l)" "ErrorCode e = INTERNAL"
        | (ub) "load_shapes ask msg add (Suc i) n ?l = UB" "\<exists>j<Suc i + n. 4 < length (snd (ask j))" by blast
      then show ?thesis
      proof cases
        case ret
        then show ?thesis using ok Some unfolding upt
          by (intro disjI1 exI [of _ "s # ss"]) simp
      next
        case exc
        then show ?thesis using ok Some
          by (intro disjI2 disjI1 exI [of _ e] exI [of _ "(snd (ask i), s) # ps"]) simp
      next
        case ub
        then show ?thesis using ok Some by simp
      qed
    qed
  qed
qed simp

lemma fold_add_shapes:
  "l_input_shapexs (fold (\<lambda>(x, s). add_input_shape x s) ps l) = l_input_shapexs l @ map fst ps"
  "l_input_shapes (fold (\<lambda>(x, s). add_input_shape x s) ps l) = l_input_shapes l @ map snd ps"
  "l_output_shapexs (fold (\<lambda>(x, s). add_output_shape x s) ps l) = l_output_shapexs l @ map fst ps"
  "l_output_shapes (fold (\<lambda>(x, s). add_output_shape x s) ps l) = l_output_shapes l @ map snd ps"
  by (induction ps arbitrary: l) (auto simp: add_input_shape_def add_output_shape_def)

text \<open>What the loops over the shapes leave alone.\<close>

definition ml_other :: "ModelLoader \<Rightarrow> ModelLoader \<Rightarrow> bool" where
  "ml_other l t \<longleftrightarrow> l_trace t = l_trace l \<and> l_i_num t = l_i_num l \<and> l_o_num t = l_o_num l \<and> l_i_data_sizes t = l_i_data_sizes l \<and>
     l_o_data_sizes t = l_o_data_sizes l \<and> l_model_parallelism t = l_model_parallelism l"

lemma fold_add_other:
  "ml_other l (fold (\<lambda>(x, s). add_input_shape x s) ps l)" "ml_other l (fold (\<lambda>(x, s). add_output_shape x s) ps l)"
  "l_input_shapexs (fold (\<lambda>(x, s). add_output_shape x s) ps l) = l_input_shapexs l"
  "l_input_shapes (fold (\<lambda>(x, s). add_output_shape x s) ps l) = l_input_shapes l"
  by (induction ps arbitrary: l) (auto simp: ml_other_def add_input_shape_def add_output_shape_def)

lemma loaded_shapes_zip:
  assumes "map Some ss = map (\<lambda>i. shape_of_dims (snd (ask i))) [0..<n]"
  shows "loaded_shapes ask n (map fst (zip (map (\<lambda>i. snd (ask i)) [0..<n]) ss)) (map snd (zip (map (\<lambda>i. snd (ask i)) [0..<n]) ss))"
proof -
  have "length ss = n" using arg_cong [OF assms, of length] by simp
  then show ?thesis using assms by (simp add: loaded_shapes_def o_def)
qed

text \<open>The layouts of the device and of the host.\<close>

definition layouts_of :: "cnrtDataType list \<Rightarrow> DataLayout list \<Rightarrow> bool" where
  "layouts_of ts ls \<longleftrightarrow> map (\<lambda>l. CastDataType (dl_dtype l)) ls = ts \<and> (\<forall>l\<in>set ls. dl_order l = NHWC)"

lemma cast_layouts_outcome:
  "(\<exists>ls. cast_layouts ts = Inr ls \<and> layouts_of ts ls) \<or> (\<exists>e. cast_layouts ts = Inl e \<and> ErrorCode e = UNSUPPORTED)"
proof (induction ts)
  case (Cons t ts)
  have "(\<exists>d. cast_cnrt_type t = Inr d \<and> CastDataType d = t) \<or> (\<exists>e. cast_cnrt_type t = Inl e \<and> ErrorCode e = UNSUPPORTED)"
    by (cases t) simp_all
  with Cons.IH show ?case by (auto simp: layouts_of_def)
qed (simp add: layouts_of_def)

definition ml_loaded :: "ml_env \<Rightarrow> ModelLoader \<Rightarrow> bool" where
  "ml_loaded E l \<longleftrightarrow> l_i_data_sizes l = snd (a_input_sizes E) \<and> l_i_num l = length (snd (a_input_sizes E)) \<and>
     l_o_data_sizes l = snd (a_output_sizes E) \<and> l_o_num l = length (snd (a_output_sizes E)) \<and>
     l_model_parallelism l = snd (a_parallelism E) \<and>
     loaded_shapes (a_input_shape E) (l_i_num l) (l_input_shapexs l) (l_input_shapes l) \<and>
     loaded_shapes (a_output_shape E) (l_o_num l) (l_output_shapexs l) (l_output_shapes l) \<and>
     layouts_of (snd (a_input_types E)) (l_i_mlu_layouts l) \<and> layouts_of (snd (a_output_types E)) (l_o_mlu_layouts l) \<and>
     length (l_i_mlu_layouts l) = l_i_num l \<and> length (l_o_mlu_layouts l) = l_o_num l \<and>
     l_i_cpu_layouts l = replicate (l_i_num l) cpu_layout \<and> l_o_cpu_layouts l = replicate (l_o_num l) cpu_layout"

definition load_errors :: "exn \<Rightarrow> bool" where
  "load_errors e \<longleftrightarrow> ErrorCode e \<in> {INTERNAL, UNSUPPORTED}"

lemma layouts_of_length: "layouts_of ts ls \<Longrightarrow> length ls = length ts"
  by (auto simp: layouts_of_def)

definition same_shapes :: "ModelLoader \<Rightarrow> ModelLoader \<Rightarrow> bool" where
  "same_shapes l t \<longleftrightarrow> l_input_shapes t = l_input_shapes l \<and> l_input_shapexs t = l_input_shapexs l \<and>
     l_output_shapes t = l_output_shapes l \<and> l_output_shapexs t = l_output_shapexs l"

lemma load_layouts_outcome:
  assumes "l_i_num l = length (l_i_data_sizes l)" and "l_o_num l = length (l_o_data_sizes l)"
  shows "(\<exists>t. load_layouts E l = Ret () t \<and> ml_other l t \<and> same_shapes l t \<and>
      layouts_of (snd (a_input_types E)) (l_i_mlu_layouts t) \<and> layouts_of (snd (a_output_types E)) (l_o_mlu_layouts t) \<and>
      length (l_i_mlu_layouts t) = l_i_num l \<and> length (l_o_mlu_layouts t) = l_o_num l \<and>
      l_i_cpu_layouts t = replicate (l_i_num l) cpu_layout \<and> l_o_cpu_layouts t = replicate (l_o_num l) cpu_layout) \<or>
    (\<exists>e t. load_layouts E l = Exc e t \<and> load_errors e \<and> l_trace t = l_trace l)"
proof -
  have cond: "CHECK_CONDITION c msg t = (if c then Ret () t else Exc (throw INTERNAL msg) t)" for c msg t
    by (simp add: CHECK_CONDITION_def)
  have types: "(\<exists>ls. cast_layouts ts = Inr ls \<and> layouts_of ts ls \<and> length ls = length ts) \<or> (\<exists>e. cast_layouts ts = Inl e \<and> load_errors e)" for ts
    using cast_layouts_outcome [of ts] by (auto simp: load_errors_def layouts_of_length)
  show ?thesis
  proof (cases "fst (a_input_types E) = CNRT_RET_SUCCESS \<and> length (snd (a_input_types E)) = length (l_i_data_sizes l)")
    case False
    then show ?thesis by (auto simp: load_layouts_def ml_check_def cond load_errors_def)
  next
    case i: True
    show ?thesis
    proof (cases "fst (a_output_types E) = CNRT_RET_SUCCESS \<and> length (snd (a_output_types E)) = length (l_o_data_sizes l)")
      case False
      then show ?thesis using i assms types [of "snd (a_input_types E)"]
        by (cases "fst (a_output_types E) = CNRT_RET_SUCCESS") (auto simp: load_layouts_def ml_check_def cond load_errors_def Let_def)
    next
      case True
      then show ?thesis using i assms types [of "snd (a_input_types E)"] types [of "snd (a_output_types E)"]
        by (auto simp: load_layouts_def ml_check_def cond Let_def ml_other_def same_shapes_def)
    qed
  qed
qed

text \<open>The layouts are set as the answers say.\<close>

definition loaded_layouts :: "ml_env \<Rightarrow> ModelLoader \<Rightarrow> bool" where
  "loaded_layouts E t \<longleftrightarrow>
     layouts_of (snd (a_input_types E)) (l_i_mlu_layouts t) \<and> layouts_of (snd (a_output_types E)) (l_o_mlu_layouts t) \<and>
     length (l_i_mlu_layouts t) = l_i_num t \<and> length (l_o_mlu_layouts t) = l_o_num t \<and>
     l_i_cpu_layouts t = replicate (l_i_num t) cpu_layout \<and> l_o_cpu_layouts t = replicate (l_o_num t) cpu_layout"

lemma load_outputs_outcome:
  fixes E c
  defines "r \<equiv> call_then (load_shapes (a_output_shape E) ''Get output data shape'' add_output_shape 0 (l_o_num c) c) (\<lambda>_ l. load_layouts E l)"
  assumes nums: "l_i_num c = length (l_i_data_sizes c)" "l_o_num c = length (l_o_data_sizes c)"
    and empty: "l_output_shapexs c = []" "l_output_shapes c = []"
  shows "(\<exists>t. r = Ret () t \<and> ml_other c t \<and> l_input_shapexs t = l_input_shapexs c \<and> l_input_shapes t = l_input_shapes c \<and>
      loaded_shapes (a_output_shape E) (l_o_num c) (l_output_shapexs t) (l_output_shapes t) \<and> loaded_layouts E t) \<or>
    (\<exists>e t. r = Exc e t \<and> load_errors e \<and> l_trace t = l_trace c) \<or>
    (r = UB \<and> (\<exists>j<l_o_num c. 4 < length (snd (a_output_shape E j))))"
proof -
  let ?f = "\<lambda>qs. fold (\<lambda>(x, s). add_output_shape x s) qs c"
  let ?zip = "\<lambda>ts. zip (map (\<lambda>i. snd (a_output_shape E i)) [0..<l_o_num c]) ts"
  have other: "ml_other c (?f qs)" for qs by (rule fold_add_other)
  from load_shapes_outcome [of "a_output_shape E" "''Get output data shape''" add_output_shape 0 "l_o_num c" c]
  consider (ret) ts where "load_shapes (a_output_shape E) ''Get output data shape'' add_output_shape 0 (l_o_num c) c = Ret () (?f (?zip ts))"
      "map Some ts = map (\<lambda>i. shape_of_dims (snd (a_output_shape E i))) [0..<l_o_num c]"
    | (exc) e qs where "load_shapes (a_output_shape E) ''Get output data shape'' add_output_shape 0 (l_o_num c) c = Exc e (?f qs)"
        "ErrorCode e = INTERNAL"
    | (ub) "load_shapes (a_output_shape E) ''Get output data shape'' add_output_shape 0 (l_o_num c) c = UB"
        "\<exists>j<l_o_num c. 4 < length (snd (a_output_shape E j))" by auto
  then show ?thesis
  proof cases
    case exc
    then show ?thesis using other [of qs] by (simp add: r_def load_errors_def ml_other_def)
  next
    case ub
    then show ?thesis by (simp add: r_def)
  next
    case ret
    let ?d = "?f (?zip ts)"
    have d: "l_input_shapexs ?d = l_input_shapexs c" "l_input_shapes ?d = l_input_shapes c"
      "loaded_shapes (a_output_shape E) (l_o_num c) (l_output_shapexs ?d) (l_output_shapes ?d)"
      using loaded_shapes_zip [OF ret(2)] empty by (simp_all add: fold_add_other fold_add_shapes)
    have "l_i_num ?d = length (l_i_data_sizes ?d)" "l_o_num ?d = length (l_o_data_sizes ?d)"
      using other [of "?zip ts"] nums by (simp_all add: ml_other_def)
    from load_layouts_outcome [OF this, of E] show ?thesis
      using other [of "?zip ts"] d ret(1) by (auto simp: r_def ml_other_def same_shapes_def loaded_layouts_def)
  qed
qed

text \<open>The first part of \<open>LoadFunction\<close>, up to the shapes.\<close>

definition load_asks_ok :: "ml_env \<Rightarrow> bool" where
  "load_asks_ok E \<longleftrightarrow> a_create E = CNRT_RET_SUCCESS \<and> a_extract E = CNRT_RET_SUCCESS \<and> fst (a_parallelism E) = CNRT_RET_SUCCESS \<and>
     fst (a_input_sizes E) = CNRT_RET_SUCCESS \<and> fst (a_output_sizes E) = CNRT_RET_SUCCESS"

definition before_shapes :: "ml_env \<Rightarrow> ModelLoader \<Rightarrow> ModelLoader" where
  "before_shapes E l = (ml_do ML_Create_Function l)\<lparr>l_model_parallelism := snd (a_parallelism E),
      l_i_num := length (snd (a_input_sizes E)), l_i_data_sizes := snd (a_input_sizes E),
      l_o_num := length (snd (a_output_sizes E)), l_o_data_sizes := snd (a_output_sizes E), l_input_shapes := [], l_input_shapexs := []\<rparr>"

lemma LoadFunction_good:
  "load_asks_ok E \<Longrightarrow> LoadFunction E l =
     call_then (load_shapes (a_input_shape E) ''Get input data size'' add_input_shape 0 (length (snd (a_input_sizes E))) (before_shapes E l)) (\<lambda>_ l.
     let l = l\<lparr>l_output_shapes := [], l_output_shapexs := []\<rparr>
     in call_then (load_shapes (a_output_shape E) ''Get output data shape'' add_output_shape 0 (l_o_num l) l) (\<lambda>_ l. load_layouts E l))"
  by (simp add: LoadFunction_def load_asks_ok_def ml_check_def before_shapes_def Let_def)

lemma LoadFunction_bad:
  "\<not> load_asks_ok E \<Longrightarrow> \<exists>e t. LoadFunction E l = Exc e t \<and> load_errors e \<and>
     l_trace t = (if a_create E = CNRT_RET_SUCCESS then [ML_Create_Function] else []) @ l_trace l"
  by (auto simp: LoadFunction_def load_asks_ok_def ml_check_def CHECK_CONDITION_def load_errors_def Let_def)

definition too_many_dims :: "ml_env \<Rightarrow> bool" where
  "too_many_dims E \<longleftrightarrow> (\<exists>j<length (snd (a_input_sizes E)). 4 < length (snd (a_input_shape E j))) \<or>
     (\<exists>j<length (snd (a_output_sizes E)). 4 < length (snd (a_output_shape E j)))"

lemma LoadFunction_outcome:
  "(\<exists>t. LoadFunction E l = Ret () t \<and> ml_loaded E t \<and> l_trace t = ML_Create_Function # l_trace l \<and> a_create E = CNRT_RET_SUCCESS) \<or>
   (\<exists>e t. LoadFunction E l = Exc e t \<and> load_errors e \<and>
      l_trace t = (if a_create E = CNRT_RET_SUCCESS then [ML_Create_Function] else []) @ l_trace l) \<or>
   (LoadFunction E l = UB \<and> too_many_dims E)"
proof (cases "load_asks_ok E")
  case False
  then show ?thesis using LoadFunction_bad [of E l] by blast
next
  case ok: True
  let ?n = "length (snd (a_input_sizes E))" and ?m = "length (snd (a_output_sizes E))" and ?b = "before_shapes E l"
  have create: "a_create E = CNRT_RET_SUCCESS" using ok by (simp add: load_asks_ok_def)
  have b: "l_trace ?b = ML_Create_Function # l_trace l" "l_i_num ?b = ?n" "l_o_num ?b = ?m" "l_i_data_sizes ?b = snd (a_input_sizes E)"
    "l_o_data_sizes ?b = snd (a_output_sizes E)" "l_model_parallelism ?b = snd (a_parallelism E)" "l_input_shapes ?b = []" "l_input_shapexs ?b = []"
    by (simp_all add: before_shapes_def)
  have other: "ml_other ?b (fold (\<lambda>(x, s). add_input_shape x s) ps ?b)" for ps by (rule fold_add_other)
  from load_shapes_outcome [of "a_input_shape E" "''Get input data size''" add_input_shape 0 ?n ?b]
  consider (ret) ss where "load_shapes (a_input_shape E) ''Get input data size'' add_input_shape 0 ?n ?b =
        Ret () (fold (\<lambda>(x, s). add_input_shape x s) (zip (map (\<lambda>i. snd (a_input_shape E i)) [0..<?n]) ss) ?b)"
      "map Some ss = map (\<lambda>i. shape_of_dims (snd (a_input_shape E i))) [0..<?n]"
    | (exc) e ps where "load_shapes (a_input_shape E) ''Get input data size'' add_input_shape 0 ?n ?b =
        Exc e (fold (\<lambda>(x, s). add_input_shape x s) ps ?b)" "ErrorCode e = INTERNAL"
    | (ub) "load_shapes (a_input_shape E) ''Get input data size'' add_input_shape 0 ?n ?b = UB"
        "\<exists>j<?n. 4 < length (snd (a_input_shape E j))" by auto
  then show ?thesis
  proof cases
    case exc
    then show ?thesis using create LoadFunction_good [OF ok, of l] other [of ps] b by (simp add: load_errors_def ml_other_def)
  next
    case ub
    then show ?thesis using LoadFunction_good [OF ok, of l] by (simp add: too_many_dims_def)
  next
    case ret
    let ?ps = "zip (map (\<lambda>i. snd (a_input_shape E i)) [0..<?n]) ss"
    let ?c = "(fold (\<lambda>(x, s). add_input_shape x s) ?ps ?b)\<lparr>l_output_shapes := [], l_output_shapexs := []\<rparr>"
    have c: "ml_other ?b ?c" "loaded_shapes (a_input_shape E) ?n (l_input_shapexs ?c) (l_input_shapes ?c)"
      using other [of ?ps] loaded_shapes_zip [OF ret(2)] by (simp_all add: fold_add_shapes ml_other_def b)
    have load: "LoadFunction E l = call_then (load_shapes (a_output_shape E) ''Get output data shape'' add_output_shape 0 (l_o_num ?c) ?c)
        (\<lambda>_ l. load_layouts E l)"
      using LoadFunction_good [OF ok, of l] ret(1) by (simp add: Let_def)
    have nums: "l_i_num ?c = length (l_i_data_sizes ?c)" "l_o_num ?c = length (l_o_data_sizes ?c)" "l_output_shapexs ?c = []" "l_output_shapes ?c = []"
      using c(1) b by (simp_all add: ml_other_def)
    from load_outputs_outcome [OF nums, of E] show ?thesis unfolding load [symmetric]
      using c b create by (auto simp: ml_other_def ml_loaded_def loaded_layouts_def too_many_dims_def)
  qed
qed

lemma model_load_Ret: "ModelLoader_from_file E (ModelLoader0 l0) = Ret () l \<Longrightarrow> ml_loaded E l"
  using LoadFunction_outcome [of E "ml_do ML_Load (ModelLoader0 l0)"]
  by (auto simp: ModelLoader_from_file_def ml_check_def CHECK_CONDITION_def split: if_splits)


lemma uint_ucast_u64: "uint (ucast (x :: u32) :: u64) = uint x"
proof -
  have "uint x < 2 ^ 64" using uint_bounded [of x] by simp
  then show ?thesis by (simp add: unsigned_ucast_eq take_bit_int_eq_self [where n = 64])
qed

lemma partial_product_fits:
  fixes a b c d :: int
  assumes "0 < a" "0 < b" "0 < c" "0 < d" and "a * b * c * d < N"
  shows "a * b < N" "c * d < N" "b * c < N" "b * c * d < N"
proof -
  have le: "x * 1 \<le> x * y" if "0 < x" "0 < y" for x y :: int using that by (intro mult_left_mono) auto
  have "b * c * d \<le> a * b * c * d" using le [of "b * c * d" a] assms by (simp add: ac_simps)
  moreover have "a * b \<le> a * b * c * d" using le [of "a * b" "c * d"] assms by (simp add: ac_simps)
  moreover have "c * d \<le> a * b * c * d" using le [of "c * d" "a * b"] assms by (simp add: ac_simps)
  moreover have "b * c \<le> a * b * c * d" using le [of "b * c" "a * d"] assms by (simp add: ac_simps)
  ultimately show "a * b < N" "c * d < N" "b * c < N" "b * c * d < N" using assms by linarith+
qed

text \<open>C30: For a shape of four positive dimensions, the deprecated \<open>Shape\<close> and \<open>ShapeEx\<close> agree on all
  counts as long as the number of elements fits 32 bits; with more, \<open>nhwc\<close> silently counts modulo
  \<open>2^32\<close> what \<open>BatchDataCount\<close> counts exactly up to \<open>2^63\<close>.\<close>

theorem model_shape_counts:
  assumes "length ds = 4" and "dims_fit (2 ^ 63) ds"
  shows "\<exists>s n. shape_of_dims ds = Some s \<and> shx_BatchDataCount ds = Some n \<and> n = shx_N ds * shx_H ds * shx_W ds * shx_C ds \<and>
     uint (sh_nhwc s) = n mod 2 ^ 32 \<and>
     (n < 2 ^ 32 \<longrightarrow> uint (sh_DataCount s) = n \<and> shx_DataCount ds = Some (uint (sh_hwc s)))"
proof -
  obtain a b c d where ds: "ds = [a, b, c, d]" using assms(1) by (auto simp: numeral_eq_Suc length_Suc_conv)
  have pos: "0 < sint a" "0 < sint b" "0 < sint c" "0 < sint d" using assms(2) by (simp_all add: ds dims_fit_def)
  note eq = pos [THEN sint_pos_uint]
  have upos: "0 < uint a" "0 < uint b" "0 < uint c" "0 < uint d" using pos eq by simp_all
  define n where "n = uint a * uint b * uint c * uint d"
  define s where "s = new_Shape a b c d 1"
  have count: "shx_BatchDataCount ds = Some n"
    using shx_BatchDataCount_fits [OF assms(2)] by (simp add: ds n_def eq ac_simps)
  have nhwc: "uint (sh_nhwc s) = n mod 2 ^ 32"
    by (simp add: sh_nhwc_def s_def new_Shape_def n_def uint_word_ariths mod_simps unsigned_ucast_eq take_bit_eq_mod ac_simps)
  have "sh_Stride s = c"
    using upos(3) by (auto simp: sh_Stride_def s_def new_Shape_def word_less_def word_uint_eq_iff)
  then have step: "sh_Step s = ucast (c * d)" by (simp add: sh_Step_def s_def new_Shape_def)
  have sel: "sh_n s = a" "sh_h s = b" by (simp_all add: s_def new_Shape_def)
  have fit: "uint (sh_DataCount s) = n \<and> shx_DataCount ds = Some (uint (sh_hwc s))" if "n < 2 ^ 32"
  proof -
    note lt = partial_product_fits [OF upos that [unfolded n_def]]
    have ab: "uint (a * b) = uint a * uint b" and cd: "uint (c * d) = uint c * uint d" and bc: "uint (b * c) = uint b * uint c"
      using lt by (simp_all flip: uint_mult_lem)
    then have bcd: "uint (b * c * d) = uint b * uint c * uint d" using lt uint_mult_lem [of "b * c" d] by simp
    have "uint (ucast (a * b) :: u64) = uint a * uint b" "uint (ucast (c * d) :: u64) = uint c * uint d"
      by (simp_all add: ab cd uint_ucast_u64)
    then have "uint (sh_DataCount s) = n"
      using that uint_mult_lem [of "ucast (a * b) :: u64" "ucast (c * d)"]
      by (simp add: sh_DataCount_def step sel n_def ac_simps)
    moreover have "shx_DataCount ds = Some (uint (sh_hwc s))"
      using shx_count_fits [of "[b, c, d]" 1] pos lt bcd
      by (simp add: shx_DataCount_def ds sh_hwc_def s_def new_Shape_def uint_ucast_u64 eq ac_simps)
    ultimately show ?thesis by blast
  qed
  show ?thesis
    by (intro exI [of _ s] exI [of _ n]) (use count nhwc fit in \<open>simp add: ds s_def shape_of_dims_def n_def shx_N_def shx_H_def shx_W_def shx_C_def shx_dim_def shx_Size_def eq\<close>)
qed

subsection \<open>Getters and the layouts of the host\<close>

datatype ml_set = Set_Input DataLayout int | Set_Output DataLayout int

fun ml_set_call :: "ml_env \<Rightarrow> ml_set \<Rightarrow> ModelLoader \<Rightarrow> (ModelLoader, unit) run" where
  "ml_set_call E (Set_Input layout i) l = SetCpuInputLayout E layout i l"
| "ml_set_call E (Set_Output layout i) l = SetCpuOutputLayout E layout i l"

text \<open>A history of calls of the setters; an exception goes to the user, who keeps the loader.\<close>

fun ml_sets :: "ml_env \<Rightarrow> ml_set list \<Rightarrow> ModelLoader \<Rightarrow> ModelLoader" where
  "ml_sets E [] l = l"
| "ml_sets E (c # cs) l = ml_sets E cs (case ml_set_call E c l of Ret _ t \<Rightarrow> t | Exc _ t \<Rightarrow> t | _ \<Rightarrow> l)"

definition ml_ok :: "ModelLoader \<Rightarrow> bool" where
  "ml_ok l \<longleftrightarrow> l_i_num l < 2 ^ 31 \<and> l_o_num l < 2 ^ 31 \<and>
     length (l_i_data_sizes l) = l_i_num l \<and> length (l_o_data_sizes l) = l_o_num l \<and>
     length (l_i_mlu_layouts l) = l_i_num l \<and> length (l_o_mlu_layouts l) = l_o_num l \<and>
     length (l_i_cpu_layouts l) = l_i_num l \<and> length (l_o_cpu_layouts l) = l_o_num l \<and>
     length (l_input_shapexs l) = l_i_num l \<and> length (l_output_shapexs l) = l_o_num l \<and>
     (\<forall>x\<in>set (l_i_cpu_layouts l @ l_o_cpu_layouts l). dl_dtype x = FLOAT32)"

lemma ml_loaded_ok:
  "ml_loaded E l \<Longrightarrow> length (snd (a_input_sizes E)) < 2 ^ 31 \<Longrightarrow> length (snd (a_output_sizes E)) < 2 ^ 31 \<Longrightarrow> ml_ok l"
  by (auto simp: ml_loaded_def ml_ok_def loaded_shapes_def cpu_layout_def)

lemma ml_ok_set: "ml_ok l \<Longrightarrow> ensures ml_ok (ml_set_call E c l)"
  by (cases c)
    (auto simp: SetCpuInputLayout_def SetCpuOutputLayout_def log_layout_def ml_ok_def dest!: set_update_subset_insert [THEN subsetD]
      split: sum.split)

lemma ml_ok_sets: "ml_ok l \<Longrightarrow> ml_ok (ml_sets E cs l)"
proof (induction cs arbitrary: l)
  case (Cons c cs)
  have "ml_ok (case ml_set_call E c l of Ret _ t \<Rightarrow> t | Exc _ t \<Rightarrow> t | _ \<Rightarrow> l)"
    using ml_ok_set [OF Cons.prems, of E c] Cons.prems by (cases "ml_set_call E c l") simp_all
  then show ?case by (simp add: Cons.IH)
qed simp

text \<open>What the setters do not touch.\<close>

lemma ml_sets_nums: "l_i_num (ml_sets E cs l) = l_i_num l \<and> l_o_num (ml_sets E cs l) = l_o_num l"
proof (induction cs arbitrary: l)
  case (Cons c cs)
  have "ensures (\<lambda>t. l_i_num t = l_i_num l \<and> l_o_num t = l_o_num l) (ml_set_call E c l)"
    by (cases c) (auto simp: SetCpuInputLayout_def SetCpuOutputLayout_def log_layout_def split: sum.split)
  then show ?case by (cases "ml_set_call E c l") (simp_all add: Cons.IH)
qed simp

lemma ml_get_total:
  assumes "num < 2 ^ 31" and "length xs = num"
  shows "ml_get num dflt xs i l = Ret (if 0 \<le> i \<and> i < int num then xs ! nat i else dflt) l"
proof -
  have "sint (word_of_nat num :: i32) = int num"
    using assms(1) by (simp add: signed_of_nat signed_take_bit_int_eq_self)
  then show ?thesis using assms(2) by (auto simp: ml_get_def)
qed

text \<open>After any history of setting host layouts, exceptions included, every getter of a loaded model is
  defined for every index: inside its range it is the stored value, outside a default or an
  exception, with one exception: \<open>InputShape\<close> and \<open>OutputShape\<close> accept the index one past the end
  and read out of their vector. The layouts of the host always have float32 elements.\<close>

theorem model_getters:
  assumes "ModelLoader_from_file E (ModelLoader0 l0) = Ret () l"
    and "length (snd (a_input_sizes E)) < 2 ^ 31" and "length (snd (a_output_sizes E)) < 2 ^ 31"
  shows "let t = ml_sets E cs l; n = InputNum l in InputNum t = n \<and> OutputNum t = OutputNum l \<and>
     (\<exists>d. GetCpuInputLayout i t = Ret d t \<and> (if 0 \<le> i \<and> i < int n then dl_dtype d = FLOAT32 else d = DataLayout0)) \<and>
     (\<exists>d. GetCpuOutputLayout i t = Ret d t \<and> (if 0 \<le> i \<and> i < int (OutputNum l) then dl_dtype d = FLOAT32 else d = DataLayout0)) \<and>
     (\<exists>x. InputDataSize i t = Ret x t) \<and> (\<exists>x. OutputDataSize i t = Ret x t) \<and>
     (\<exists>x. GetMluInputLayout i t = Ret x t) \<and> (\<exists>x. GetMluOutputLayout i t = Ret x t) \<and>
     (InputShape j t = UB \<longleftrightarrow> j = n) \<and> (no_exc (InputShape j t) \<longleftrightarrow> j \<le> n) \<and>
     (OutputShape j t = UB \<longleftrightarrow> j = OutputNum l) \<and> (no_exc (OutputShape j t) \<longleftrightarrow> j \<le> OutputNum l)"
proof -
  have "ml_loaded E l" using model_load_Ret [OF assms(1)] .
  then have ok: "ml_ok (ml_sets E cs l)" using ml_loaded_ok [OF _ assms(2,3)] ml_ok_sets by blast
  note nums = ml_sets_nums [of E cs l]
  have f32: "dl_dtype (xs ! nat i) = FLOAT32"
    if "xs = l_i_cpu_layouts (ml_sets E cs l) \<or> xs = l_o_cpu_layouts (ml_sets E cs l)" "0 \<le> i" "i < int (length xs)" for xs
    using that ok unfolding ml_ok_def by (auto simp: nat_less_iff)
  show ?thesis using ok nums f32
    by (auto simp: Let_def ml_ok_def InputNum_def OutputNum_def GetCpuInputLayout_def GetCpuOutputLayout_def InputDataSize_def
        OutputDataSize_def GetMluInputLayout_def GetMluOutputLayout_def InputShape_def OutputShape_def ml_get_total)
qed

text \<open>A model with one input of 1 x 2 x 2 x 3 elements and one output of 2 elements.\<close>

definition demo_ml_env :: ml_env where
  "demo_ml_env = \<lparr>a_file_exists = True, a_load = CNRT_RET_SUCCESS, a_create = CNRT_RET_SUCCESS, a_extract = CNRT_RET_SUCCESS,
     a_parallelism = (CNRT_RET_SUCCESS, 1), a_input_sizes = (CNRT_RET_SUCCESS, [48]), a_output_sizes = (CNRT_RET_SUCCESS, [4]),
     a_input_shape = (\<lambda>_. (CNRT_RET_SUCCESS, [1, 2, 2, 3])), a_output_shape = (\<lambda>_. (CNRT_RET_SUCCESS, [1, 2])),
     a_input_types = (CNRT_RET_SUCCESS, [CNRT_FLOAT32]), a_output_types = (CNRT_RET_SUCCESS, [CNRT_FLOAT16]),
     a_stack_size = (CNRT_RET_SUCCESS, 1), a_stack_mem = (CNRT_RET_SUCCESS, 1), a_set_stack = (\<lambda>_. CNRT_RET_SUCCESS),
     a_destroy = CNRT_RET_SUCCESS, a_unload = CNRT_RET_SUCCESS, a_debug = False\<rparr>"

definition demo_model0 :: ModelLoader where
  "demo_model0 = \<lparr>l_i_data_sizes = [], l_o_data_sizes = [], l_i_mlu_layouts = [], l_o_mlu_layouts = [], l_o_num = 0, l_i_num = 0,
     l_model_parallelism = 0, l_i_cpu_layouts = [], l_o_cpu_layouts = [], l_input_shapes = [], l_output_shapes = [],
     l_input_shapexs = [], l_output_shapexs = [], l_trace = []\<rparr>"

definition demo_model :: ModelLoader where
  "demo_model = \<lparr>l_i_data_sizes = [48], l_o_data_sizes = [4], l_i_mlu_layouts = [\<lparr>dl_dtype = FLOAT32, dl_order = NHWC\<rparr>],
     l_o_mlu_layouts = [\<lparr>dl_dtype = FLOAT16, dl_order = NHWC\<rparr>], l_o_num = 1, l_i_num = 1, l_model_parallelism = 1,
     l_i_cpu_layouts = [cpu_layout], l_o_cpu_layouts = [cpu_layout], l_input_shapes = [new_Shape 1 2 2 3 1],
     l_output_shapes = [new_Shape 1 2 1 1 1], l_input_shapexs = [[1, 2, 2, 3]], l_output_shapexs = [[1, 2]],
     l_trace = [ML_Create_Function, ML_Load]\<rparr>"

lemma demo_model_loads: "ModelLoader_from_file demo_ml_env (ModelLoader0 demo_model0) = Ret () demo_model"
  by (simp add: ModelLoader_from_file_def demo_ml_env_def ml_check_def LoadFunction_def ModelLoader0_def demo_model0_def ml_do_def
      Let_def eval_nat_numeral shape_of_dims_def add_input_shape_def add_output_shape_def load_layouts_def cpu_layout_def demo_model_def)

lemma model_shape_counts_witness:
  "\<exists>s n. shape_of_dims [1, 2, 2, 3] = Some s \<and> shx_BatchDataCount [1, 2, 2, 3] = Some n \<and> n = 12 \<and> uint (sh_nhwc s) = n mod 2 ^ 32"
proof -
  have "dims_fit (2 ^ 63) [1, 2, 2, 3]" by (simp add: dims_fit_def)
  from model_shape_counts [OF _ this] show ?thesis
    by (auto simp: shx_N_def shx_H_def shx_W_def shx_C_def shx_dim_def shx_Size_def)
qed

lemma model_getters_witness:
  "InputShape 1 demo_model = UB \<and> (\<exists>x. InputDataSize 7 demo_model = Ret x demo_model)"
  using model_getters [OF demo_model_loads, of "[]" 7 1]
  by (auto simp: demo_ml_env_def Let_def InputNum_def demo_model_def)

end
