(* ===== verification/Model_Memory.thy ===== *)
theory Model_Memory
  imports Model_Loader_Props
begin

text \<open>
  The operations of MluMemoryOp that know a model (easydk/src/easyinfer/mlu_memory_op.cpp): buffers for
  all inputs or outputs on the host and on the device, and copies between them that convert the
  layout. The model is the argument \<open>model\<close>, \<open>None\<close> where none was set; arrays of pointers are
  lists of addresses, and an access past their end is undefined. The conversions of CNRT are an
  argument. A failing \<open>new\<close> throws \<open>bad_alloc\<close>; a failing \<open>CHECK\<close> ends the program.
\<close>

subsection \<open>Helpers\<close>

text \<open>The object holds nothing but the model.\<close>

definition new_MluMemoryOp :: "ModelLoader option" where
  "new_MluMemoryOp = None"

definition SetModel :: "ModelLoader option \<Rightarrow> ModelLoader option \<Rightarrow> ModelLoader option" where
  "SetModel model self = model"

definition MluMemoryOp_Model :: "ModelLoader option \<Rightarrow> ModelLoader option" where
  "MluMemoryOp_Model self = self"

text \<open>A question to a constant object, asked in the state \<open>s\<close>; \<open>f\<close> goes on with the answer.\<close>

fun query :: "'s \<Rightarrow> ('t, 'a) run \<Rightarrow> ('a \<Rightarrow> ('s, 'b) run) \<Rightarrow> ('s, 'b) run" where
  "query s (Ret x _) f = f x"
| "query s (Exc e _) f = Exc e s"
| "query s UB f = UB"
| "query s Terminate f = Terminate"
| "query s (Blocked _) f = Blocked s"

definition bad_alloc :: exn where
  "bad_alloc = throw MEMORY ''std::bad_alloc''"

definition new_bytes :: "nat \<Rightarrow> mach \<Rightarrow> (mach, addr) run" where
  "new_bytes n m = (let (p, m') = malloc n m in if p = 0 then Exc bad_alloc m' else Ret p m')"

definition size_t :: "int \<Rightarrow> nat" where
  "size_t n = nat (n mod 2 ^ 64)"

definition CHECK_MODEL_LOADER :: "ModelLoader option \<Rightarrow> mach \<Rightarrow> (ModelLoader \<Rightarrow> (mach, 'a) run) \<Rightarrow> (mach, 'a) run" where
  "CHECK_MODEL_LOADER model m f =
     (case model of None \<Rightarrow> Exc (throw UNAVAILABLE ''ModelLoader Not Set'') m | Some l \<Rightarrow> f l)"

fun check_layouts :: "(int \<Rightarrow> (ModelLoader, DataLayout) run) \<Rightarrow> nat \<Rightarrow> nat \<Rightarrow> mach \<Rightarrow> (mach, unit) run" where
  "check_layouts get i 0 m = Ret () m"
| "check_layouts get i (Suc n) m =
     query m (get (int i)) (\<lambda>layout.
     if dl_dtype layout \<noteq> FLOAT32 then Exc (throw INVALID_ARG ''Only support cpu layout with data type FLOAT32'') m
     else check_layouts get (Suc i) n m)"

definition ONLY_SUPPORT_FLOAT32_ON_CPU :: "ModelLoader \<Rightarrow> mach \<Rightarrow> (mach, unit) run" where
  "ONLY_SUPPORT_FLOAT32_ON_CPU l m =
     call_then (check_layouts (\<lambda>i. GetCpuInputLayout i l) 0 (InputNum l) m) (\<lambda>_ m.
     check_layouts (\<lambda>i. GetCpuOutputLayout i l) 0 (OutputNum l) m)"

subsection \<open>Allocation\<close>

fun alloc_cpu :: "(nat \<Rightarrow> (ModelLoader, ShapeEx) run) \<Rightarrow> nat \<Rightarrow> nat \<Rightarrow> mach \<Rightarrow> (mach, addr list) run" where
  "alloc_cpu shape i 0 m = Ret [] m"
| "alloc_cpu shape i (Suc n) m =
     query m (shape i) (\<lambda>s.
     case shx_BatchDataCount s of None \<Rightarrow> UB
     | Some c \<Rightarrow> call_then (new_bytes (4 * size_t c) m) (\<lambda>p m.
                 call_then (alloc_cpu shape (Suc i) n m) (\<lambda>ps m. Ret (p # ps) m)))"

definition AllocCpuInput :: "ModelLoader option \<Rightarrow> mach \<Rightarrow> (mach, addr list) run" where
  "AllocCpuInput model m = CHECK_MODEL_LOADER model m (\<lambda>l.
     call_then (ONLY_SUPPORT_FLOAT32_ON_CPU l m) (\<lambda>_ m. alloc_cpu (\<lambda>i. InputShape i l) 0 (InputNum l) m))"

definition AllocCpuOutput :: "ModelLoader option \<Rightarrow> mach \<Rightarrow> (mach, addr list) run" where
  "AllocCpuOutput model m = CHECK_MODEL_LOADER model m (\<lambda>l.
     call_then (ONLY_SUPPORT_FLOAT32_ON_CPU l m) (\<lambda>_ m. alloc_cpu (\<lambda>i. OutputShape i l) 0 (OutputNum l) m))"

fun alloc_mlu :: "cnrt \<Rightarrow> (int \<Rightarrow> (ModelLoader, int) run) \<Rightarrow> nat \<Rightarrow> nat \<Rightarrow> mach \<Rightarrow> (mach, addr list) run" where
  "alloc_mlu rt get_size i 0 m = Ret [] m"
| "alloc_mlu rt get_size i (Suc n) m =
     query m (get_size (int i)) (\<lambda>sz.
     call_then (AllocMlu rt (size_t sz) m) (\<lambda>p m.
     call_then (alloc_mlu rt get_size (Suc i) n m) (\<lambda>ps m. Ret (p # ps) m)))"

definition AllocMluInput :: "cnrt \<Rightarrow> ModelLoader option \<Rightarrow> mach \<Rightarrow> (mach, addr list) run" where
  "AllocMluInput rt model m = CHECK_MODEL_LOADER model m (\<lambda>l. alloc_mlu rt (\<lambda>i. InputDataSize i l) 0 (InputNum l) m)"

definition AllocMluOutput :: "cnrt \<Rightarrow> ModelLoader option \<Rightarrow> mach \<Rightarrow> (mach, addr list) run" where
  "AllocMluOutput rt model m = CHECK_MODEL_LOADER model m (\<lambda>l. alloc_mlu rt (\<lambda>i. OutputDataSize i l) 0 (OutputNum l) m)"

subsection \<open>Release\<close>

fun free_all :: "(addr \<Rightarrow> mach \<Rightarrow> (mach, unit) run) \<Rightarrow> nat \<Rightarrow> addr list \<Rightarrow> mach \<Rightarrow> (mach, unit) run" where
  "free_all release 0 ptr m = Ret () m"
| "free_all release (Suc n) [] m = UB"
| "free_all release (Suc n) (p # ptr) m = call_then (release p m) (\<lambda>_ m. free_all release n ptr m)"

definition FreeCpuInput :: "ModelLoader option \<Rightarrow> addr list \<Rightarrow> mach \<Rightarrow> (mach, unit) run" where
  "FreeCpuInput model ptr m = CHECK_MODEL_LOADER model m (\<lambda>l. free_all free (InputNum l) ptr m)"

definition FreeCpuOutput :: "ModelLoader option \<Rightarrow> addr list \<Rightarrow> mach \<Rightarrow> (mach, unit) run" where
  "FreeCpuOutput model ptr m = CHECK_MODEL_LOADER model m (\<lambda>l. free_all free (OutputNum l) ptr m)"

definition FreeMluInput :: "cnrt \<Rightarrow> ModelLoader option \<Rightarrow> addr list \<Rightarrow> mach \<Rightarrow> (mach, unit) run" where
  "FreeMluInput rt model ptr m = CHECK_MODEL_LOADER model m (\<lambda>l. free_all (FreeMlu rt) (InputNum l) ptr m)"

definition FreeMluOutput :: "cnrt \<Rightarrow> ModelLoader option \<Rightarrow> addr list \<Rightarrow> mach \<Rightarrow> (mach, unit) run" where
  "FreeMluOutput rt model ptr m = CHECK_MODEL_LOADER model m (\<lambda>l. free_all (FreeMlu rt) (OutputNum l) ptr m)"

subsection \<open>Layouts\<close>

text \<open>
  The conversions: source and destination, their types, a number of elements, or the dimensions and
  their order in the destination.
\<close>

record cnrt_trans =
  cnrtCastDataType :: "addr \<Rightarrow> cnrtDataType \<Rightarrow> addr \<Rightarrow> cnrtDataType \<Rightarrow> int \<Rightarrow> mach \<Rightarrow> cnrtRet \<times> mach"
  cnrtTransDataOrder :: "addr \<Rightarrow> cnrtDataType \<Rightarrow> addr \<Rightarrow> int list \<Rightarrow> nat list \<Rightarrow> mach \<Rightarrow> cnrtRet \<times> mach"
  cnrtTransOrderAndCast :: "addr \<Rightarrow> cnrtDataType \<Rightarrow> addr \<Rightarrow> cnrtDataType \<Rightarrow> int list \<Rightarrow> nat list \<Rightarrow> mach \<Rightarrow> cnrtRet \<times> mach"

definition host_copy :: "addr \<Rightarrow> addr \<Rightarrow> nat \<Rightarrow> mach \<Rightarrow> (mach, unit) run" where
  "host_copy dst src n m =
     (case (hmem m dst, hmem m src) of
        (Some d, Some s) \<Rightarrow>
          if n \<le> length d \<and> n \<le> length s then Ret () (m\<lparr>hmem := (hmem m)(dst := Some (copy_into d 0 s n))\<rparr>) else UB
      | _ \<Rightarrow> UB)"

definition TransLayout :: "cnrt_trans \<Rightarrow> DataLayout \<Rightarrow> DataLayout \<Rightarrow> addr \<Rightarrow> addr \<Rightarrow> ShapeEx \<Rightarrow> mach \<Rightarrow> (mach, unit) run" where
  "TransLayout ct src_layout dst_layout src_data dst_data shape m =
     (if dl_order src_layout \<notin> {NHWC, NCHW} then Exc (throw INVALID_ARG ''TransLayout: Unsupport data order(src).'') m
      else if dl_order dst_layout \<notin> {NHWC, NCHW} then Exc (throw INVALID_ARG ''TransLayout: Unsupport data order(dst).'') m
      else case shx_BatchDataCount shape of None \<Rightarrow> UB
      | Some count \<Rightarrow>
          let cast_it = (dl_dtype src_layout \<noteq> dl_dtype dst_layout); move = (dl_order src_layout \<noteq> dl_order dst_layout);
              size = sint (word_of_int count :: i32);
              dim_values = [shx_N shape, shx_H shape, shx_W shape, shx_C shape];
              dim_order = (if dl_order dst_layout = NHWC then [0, 2, 3, 1] else [0, 3, 1, 2]);
              st = CastDataType (dl_dtype src_layout); dt = CastDataType (dl_dtype dst_layout)
          in if cast_it \<and> \<not> move
             then (let (r, m) = cnrtCastDataType ct src_data st dst_data dt size m in CHECK_CNRT_RET r ''Cast data type failed.'' () m)
             else if move \<and> \<not> cast_it
             then (let (r, m) = cnrtTransDataOrder ct src_data st dst_data dim_values dim_order m
                   in CHECK_CNRT_RET r ''Trans data order failed.'' () m)
             else if cast_it \<and> move
             then (let (r, m) = cnrtTransOrderAndCast ct src_data st dst_data dt dim_values dim_order m
                   in CHECK_CNRT_RET r ''Trans data order and cast data type failed.'' () m)
             else host_copy dst_data src_data (size_t (size * int (TypeSize (dl_dtype src_layout)))) m)"

subsection \<open>Copies\<close>

text \<open>One input; an exception leaves the temporary buffer behind.\<close>

definition copy_input :: "cnrt \<Rightarrow> cnrt_trans \<Rightarrow> ModelLoader \<Rightarrow> nat \<Rightarrow> addr \<Rightarrow> addr \<Rightarrow> mach \<Rightarrow> (mach, unit) run" where
  "copy_input rt ct l i dst src m =
     query m (InputDataSize (int i) l) (\<lambda>size.
     query m (GetCpuInputLayout (int i) l) (\<lambda>cpu_layout.
     query m (GetMluInputLayout (int i) l) (\<lambda>mlu_layout.
     query m (InputShape i l) (\<lambda>sp.
     let (temp_data, m) = malloc (size_t size) m
     in if temp_data = 0 then Terminate
        else call_then (TransLayout ct cpu_layout mlu_layout src temp_data sp m) (\<lambda>_ m.
             call_then (MemcpyH2D rt dst temp_data (size_t size) m) (\<lambda>_ m. free temp_data m))))))"

fun copy_inputs :: "cnrt \<Rightarrow> cnrt_trans \<Rightarrow> ModelLoader \<Rightarrow> nat \<Rightarrow> nat \<Rightarrow> addr list \<Rightarrow> addr list \<Rightarrow> mach \<Rightarrow> (mach, unit) run" where
  "copy_inputs rt ct l i 0 mlu_dst cpu_src m = Ret () m"
| "copy_inputs rt ct l i (Suc n) mlu_dst cpu_src m =
     (if length cpu_src \<le> i \<or> length mlu_dst \<le> i then UB
      else call_then (copy_input rt ct l i (mlu_dst ! i) (cpu_src ! i) m) (\<lambda>_ m. copy_inputs rt ct l (Suc i) n mlu_dst cpu_src m))"

definition MemcpyInputH2D :: "cnrt \<Rightarrow> cnrt_trans \<Rightarrow> ModelLoader option \<Rightarrow> addr list \<Rightarrow> addr list \<Rightarrow> mach \<Rightarrow> (mach, unit) run" where
  "MemcpyInputH2D rt ct model mlu_dst cpu_src m = CHECK_MODEL_LOADER model m (\<lambda>l.
     call_then (ONLY_SUPPORT_FLOAT32_ON_CPU l m) (\<lambda>_ m. copy_inputs rt ct l 0 (InputNum l) mlu_dst cpu_src m))"

definition copy_output :: "cnrt \<Rightarrow> cnrt_trans \<Rightarrow> ModelLoader \<Rightarrow> nat \<Rightarrow> addr \<Rightarrow> addr \<Rightarrow> mach \<Rightarrow> (mach, unit) run" where
  "copy_output rt ct l i dst src m =
     query m (OutputDataSize (int i) l) (\<lambda>size.
     let (temp_data, m) = malloc (size_t size) m
     in if temp_data = 0 then Terminate
        else let (r, m) = cnrtMemcpy rt temp_data src (size_t size) DEV2HOST m
             in call_then (CHECK_CNRT_RET r ''Memcpy device to host failed.'' () m) (\<lambda>_ m.
                query m (GetCpuOutputLayout (int i) l) (\<lambda>cpu_layout.
                query m (GetMluOutputLayout (int i) l) (\<lambda>mlu_layout.
                query m (OutputShape i l) (\<lambda>sp.
                call_then (TransLayout ct mlu_layout cpu_layout temp_data dst sp m) (\<lambda>_ m. free temp_data m))))))"

fun copy_outputs :: "cnrt \<Rightarrow> cnrt_trans \<Rightarrow> ModelLoader \<Rightarrow> nat \<Rightarrow> nat \<Rightarrow> addr list \<Rightarrow> addr list \<Rightarrow> mach \<Rightarrow> (mach, unit) run" where
  "copy_outputs rt ct l i 0 cpu_dst mlu_src m = Ret () m"
| "copy_outputs rt ct l i (Suc n) cpu_dst mlu_src m =
     (if length mlu_src \<le> i \<or> length cpu_dst \<le> i then UB
      else call_then (copy_output rt ct l i (cpu_dst ! i) (mlu_src ! i) m) (\<lambda>_ m. copy_outputs rt ct l (Suc i) n cpu_dst mlu_src m))"

definition MemcpyOutputD2H :: "cnrt \<Rightarrow> cnrt_trans \<Rightarrow> ModelLoader option \<Rightarrow> addr list \<Rightarrow> addr list \<Rightarrow> mach \<Rightarrow> (mach, unit) run" where
  "MemcpyOutputD2H rt ct model cpu_dst mlu_src m = CHECK_MODEL_LOADER model m (\<lambda>l.
     call_then (ONLY_SUPPORT_FLOAT32_ON_CPU l m) (\<lambda>_ m. copy_outputs rt ct l 0 (OutputNum l) cpu_dst mlu_src m))"

end
