(* ===== verification/Model_Memory_Props.thy ===== *)
theory Model_Memory_Props
  imports Model_Memory
begin

text \<open>
  What the buffers and copies of a model do under the contract of the driver: allocation and release
  on both sides, and the copies where host and device agree on the layout.
\<close>

subsection \<open>A loaded model answers\<close>

lemma ml_answers:
  assumes "ml_ok l" and "i < InputNum l"
  shows "InputDataSize (int i) l = Ret (l_i_data_sizes l ! i) l" "GetCpuInputLayout (int i) l = Ret (l_i_cpu_layouts l ! i) l"
    "GetMluInputLayout (int i) l = Ret (l_i_mlu_layouts l ! i) l" "InputShape i l = Ret (l_input_shapexs l ! i) l"
  using assms
  by (simp_all add: InputDataSize_def GetCpuInputLayout_def GetMluInputLayout_def InputShape_def InputNum_def ml_ok_def ml_get_total)

lemma ml_answers_out:
  assumes "ml_ok l" and "i < OutputNum l"
  shows "OutputDataSize (int i) l = Ret (l_o_data_sizes l ! i) l" "GetCpuOutputLayout (int i) l = Ret (l_o_cpu_layouts l ! i) l"
    "GetMluOutputLayout (int i) l = Ret (l_o_mlu_layouts l ! i) l" "OutputShape i l = Ret (l_output_shapexs l ! i) l"
  using assms
  by (simp_all add: OutputDataSize_def GetCpuOutputLayout_def GetMluOutputLayout_def OutputShape_def OutputNum_def ml_ok_def ml_get_total)

lemma check_layouts_pass:
  "(\<And>j. i \<le> j \<Longrightarrow> j < i + n \<Longrightarrow> \<exists>x. get (int j) = Ret x l \<and> dl_dtype x = FLOAT32) \<Longrightarrow> check_layouts get i n m = Ret () m"
proof (induction n arbitrary: i)
  case (Suc n)
  from Suc.prems [of i] obtain x where "get (int i) = Ret x l" "dl_dtype x = FLOAT32" by auto
  moreover have "check_layouts get (Suc i) n m = Ret () m" using Suc.prems by (intro Suc.IH) auto
  ultimately show ?case by simp
qed simp

lemma float32_pass:
  assumes "ml_ok l"
  shows "ONLY_SUPPORT_FLOAT32_ON_CPU l m = Ret () m"
proof -
  have "check_layouts (\<lambda>i. GetCpuInputLayout i l) 0 (InputNum l) m = Ret () m"
    using assms ml_answers(2) [OF assms] by (intro check_layouts_pass [where l = l]) (auto simp: ml_ok_def InputNum_def)
  moreover have "check_layouts (\<lambda>i. GetCpuOutputLayout i l) 0 (OutputNum l) m = Ret () m"
    using assms ml_answers_out(2) [OF assms] by (intro check_layouts_pass [where l = l]) (auto simp: ml_ok_def OutputNum_def)
  ultimately show ?thesis by (simp add: ONLY_SUPPORT_FLOAT32_ON_CPU_def)
qed

subsection \<open>Buffers on the device\<close>

text \<open>\<open>ps\<close> are new blocks of the sizes \<open>ns\<close>, and nothing else changed between \<open>m\<close> and \<open>m'\<close>.\<close>

definition mlu_blocks :: "mach \<Rightarrow> addr list \<Rightarrow> nat list \<Rightarrow> mach \<Rightarrow> bool" where
  "mlu_blocks m ps ns m' \<longleftrightarrow> m' = m\<lparr>dmem := dmem m'\<rparr> \<and> distinct ps \<and> (\<forall>p\<in>set ps. p \<noteq> 0 \<and> dmem m p = None) \<and>
     list_all2 (\<lambda>p n. \<exists>b. dmem m' p = Some b \<and> length b = n) ps ns \<and> (\<forall>p. p \<notin> set ps \<longrightarrow> dmem m' p = dmem m p)"

lemma mlu_blocks_Nil [simp]: "mlu_blocks m [] [] m"
  by (simp add: mlu_blocks_def)

lemma mlu_blocks_Cons:
  assumes "p \<noteq> 0" and "dmem m p = None" and "length b = n" and "mlu_blocks (m\<lparr>dmem := (dmem m)(p := Some b)\<rparr>) ps ns m'"
  shows "mlu_blocks m (p # ps) (n # ns) m'"
proof -
  have "p \<notin> set ps" using assms(4) by (auto simp: mlu_blocks_def)
  then show ?thesis using assms unfolding mlu_blocks_def by (auto split: if_splits)
qed

lemma alloc_mlu_outcome:
  assumes "cnrt_ok rt" and "\<And>j. i \<le> j \<Longrightarrow> j < i + n \<Longrightarrow> get (int j) = Ret (sz j) l"
  shows "(\<exists>ps m'. alloc_mlu rt get i n m = Ret ps m' \<and> mlu_blocks m ps (map (\<lambda>j. size_t (sz j)) [i..<i + n]) m') \<or>
    (\<exists>e k ps m'. alloc_mlu rt get i n m = Exc e m' \<and> ErrorCode e = MEMORY \<and> k < n \<and>
       mlu_blocks m ps (map (\<lambda>j. size_t (sz j)) [i..<i + k]) m')"
  using assms(2)
proof (induction n arbitrary: i m)
  case (Suc n)
  have upt: "[i..<i + Suc k] = i # [Suc i..<Suc i + k]" for k by (simp add: upt_conv_Cons)
  have get: "get (int i) = Ret (sz i) l" using Suc.prems by simp
  have later: "get (int j) = Ret (sz j) l" if "Suc i \<le> j" "j < Suc i + n" for j using Suc.prems that by simp
  show ?case
  proof (cases rule: AllocMlu_cases [OF assms(1), of "size_t (sz i)" m, case_names ok exc])
    case (exc e)
    then have "alloc_mlu rt get i (Suc n) m = Exc e m" using get by simp
    moreover have "mlu_blocks m [] (map (\<lambda>j. size_t (sz j)) [i..<i + 0]) m" by simp
    ultimately show ?thesis using exc(2) by blast
  next
    case (ok p b)
    let ?m = "m\<lparr>dmem := (dmem m)(p := Some b)\<rparr>"
    note cons = mlu_blocks_Cons [OF ok(3,4) ok(2)]
    have "(\<exists>ps m'. alloc_mlu rt get (Suc i) n ?m = Ret ps m' \<and> mlu_blocks ?m ps (map (\<lambda>j. size_t (sz j)) [Suc i..<Suc i + n]) m') \<or>
      (\<exists>e k ps m'. alloc_mlu rt get (Suc i) n ?m = Exc e m' \<and> ErrorCode e = MEMORY \<and> k < n \<and>
         mlu_blocks ?m ps (map (\<lambda>j. size_t (sz j)) [Suc i..<Suc i + k]) m')"
      by (rule Suc.IH) (simp add: later)
    then show ?thesis
    proof (elim disjE exE conjE)
      fix ps m' assume "alloc_mlu rt get (Suc i) n ?m = Ret ps m'" "mlu_blocks ?m ps (map (\<lambda>j. size_t (sz j)) [Suc i..<Suc i + n]) m'"
      then show ?thesis using get ok(1) cons unfolding upt by (intro disjI1 exI [of _ "p # ps"]) simp
    next
      fix e k ps m' assume "alloc_mlu rt get (Suc i) n ?m = Exc e m'" "ErrorCode e = MEMORY" "k < n"
        "mlu_blocks ?m ps (map (\<lambda>j. size_t (sz j)) [Suc i..<Suc i + k]) m'"
      then show ?thesis using get ok(1) cons unfolding upt
        by (intro disjI2 exI [of _ e] exI [of _ "Suc k"] exI [of _ "p # ps"] exI [of _ m']) (simp add: upt [of k, simplified])
    qed
  qed
qed simp

text \<open>Releasing live device blocks: each is gone unless the driver refused, which is only logged.\<close>

lemma free_all_mlu:
  assumes "cnrt_ok rt" and "distinct ps" and "\<forall>p\<in>set ps. dmem m p \<noteq> None" and "n = length ps"
  shows "\<exists>m'. free_all (FreeMlu rt) n ps m = Ret () m' \<and> m' = m\<lparr>dmem := dmem m'\<rparr> \<and>
    (\<forall>p. dmem m' p = dmem m p \<or> p \<in> set ps \<and> dmem m' p = None)"
  using assms(2-4)
proof (induction ps arbitrary: m n)
  case (Cons p ps)
  from Cons.prems(2) have p: "dmem m p \<noteq> None" by simp
  have "\<exists>D. FreeMlu rt p m = Ret () (m\<lparr>dmem := D\<rparr>) \<and> (D = dmem m \<or> D = (dmem m)(p := None))"
  proof (cases rule: FreeMlu_cases [OF assms(1) p, case_names freed kept])
    case freed
    then show ?thesis by blast
  next
    case kept
    then show ?thesis by (intro exI [of _ "dmem m"]) simp
  qed
  then obtain D where D: "FreeMlu rt p m = Ret () (m\<lparr>dmem := D\<rparr>)" "D = dmem m \<or> D = (dmem m)(p := None)" by blast
  have "\<forall>q\<in>set ps. dmem (m\<lparr>dmem := D\<rparr>) q \<noteq> None" using Cons.prems D(2) by auto
  from Cons.IH [OF _ this refl] Cons.prems(1) obtain m' where
    m': "free_all (FreeMlu rt) (length ps) ps (m\<lparr>dmem := D\<rparr>) = Ret () m'" "m' = m\<lparr>dmem := dmem m'\<rparr>"
      "\<forall>q. dmem m' q = D q \<or> q \<in> set ps \<and> dmem m' q = None" by auto
  have "dmem m' q = dmem m q \<or> q \<in> set (p # ps) \<and> dmem m' q = None" for q
    using m'(3) [rule_format, of q] D(2) by (auto split: if_splits)
  with m'(1,2) D(1) Cons.prems(3) show ?case by (intro exI [of _ m']) simp
qed auto

lemma mlu_blocks_freed:
  assumes "cnrt_ok rt" and "mlu_blocks m ps ns t"
  shows "\<exists>u. free_all (FreeMlu rt) (length ps) ps t = Ret () u \<and> u = m\<lparr>dmem := dmem u\<rparr> \<and>
    (\<forall>p. dmem u p = dmem m p \<or> p \<in> set ps \<and> dmem u p = dmem t p)"
proof -
  note blocks = assms(2) [unfolded mlu_blocks_def]
  have live: "\<forall>p\<in>set ps. dmem t p \<noteq> None"
    using blocks by (fastforce simp: list_all2_conv_all_nth in_set_conv_nth)
  from blocks have "distinct ps" by simp
  from free_all_mlu [OF assms(1) this live refl] obtain u where u: "free_all (FreeMlu rt) (length ps) ps t = Ret () u"
    "u = t\<lparr>dmem := dmem u\<rparr>" "\<forall>p. dmem u p = dmem t p \<or> p \<in> set ps \<and> dmem u p = None" by blast
  have "u = m\<lparr>dmem := dmem u\<rparr>"
    using u(2) blocks by (metis (no_types, lifting) mach.surjective mach.update_convs(2) mach.select_convs)
  moreover have "dmem u p = dmem m p \<or> p \<in> set ps \<and> dmem u p = dmem t p" for p
    using blocks u(3) [rule_format, of p] by metis
  ultimately show ?thesis using u(1) by blast
qed


subsection \<open>Uploads where host and device agree\<close>

lemma copy_into_all: "length d = n \<Longrightarrow> length s = n \<Longrightarrow> copy_into d 0 s n = s"
  by (simp add: copy_into_def)

text \<open>Input \<open>i\<close> can be copied as it is: both layouts are the same, the size is that of the elements, and both blocks have it.\<close>

definition input_ready :: "ModelLoader \<Rightarrow> mach \<Rightarrow> nat \<Rightarrow> addr \<Rightarrow> addr \<Rightarrow> bool" where
  "input_ready l m i dst src \<longleftrightarrow>
     l_i_cpu_layouts l ! i = l_i_mlu_layouts l ! i \<and> dl_order (l_i_cpu_layouts l ! i) \<in> {NHWC, NCHW} \<and>
     (\<exists>c. shx_BatchDataCount (l_input_shapexs l ! i) = Some c \<and> 0 \<le> c \<and> c < 2 ^ 31 \<and> l_i_data_sizes l ! i = 4 * c) \<and>
     (\<exists>hb db. hmem m src = Some hb \<and> dmem m dst = Some db \<and> length hb = size_t (l_i_data_sizes l ! i) \<and> length db = length hb)"

lemma TransLayout_same:
  assumes "dl_order la \<in> {NHWC, NCHW}" and "shx_BatchDataCount s = Some c" and "0 \<le> c" "c < 2 ^ 31" and "dl_dtype la = FLOAT32"
  shows "TransLayout ct la la src dst s m = host_copy dst src (size_t (4 * c)) m"
proof -
  have "sint (word_of_int c :: i32) = c" using assms(3,4) by (simp add: signed_of_int signed_take_bit_int_eq_self)
  then show ?thesis using assms by (simp add: TransLayout_def Let_def ac_simps)
qed

lemma copy_input_ready:
  assumes "cnrt_ok rt" and "ml_ok l" and "i < InputNum l" and "mach_ok m" and "input_ready l m i dst src"
  shows "(copy_input rt ct l i dst src m = Ret () (m\<lparr>dmem := (dmem m)(dst := hmem m src), hnext := Suc (hnext m)\<rparr>)) \<or>
    (\<exists>e t. copy_input rt ct l i dst src m = Exc e t \<and> ErrorCode e = MEMORY \<and> dmem t = dmem m) \<or>
    (copy_input rt ct l i dst src m = Terminate \<and> hfree m < size_t (l_i_data_sizes l ! i))"
proof -
  obtain c hb db where r: "l_i_mlu_layouts l ! i = l_i_cpu_layouts l ! i" "dl_order (l_i_cpu_layouts l ! i) \<in> {NHWC, NCHW}"
    "shx_BatchDataCount (l_input_shapexs l ! i) = Some c" "0 \<le> c" "c < 2 ^ 31" "l_i_data_sizes l ! i = 4 * c"
    "hmem m src = Some hb" "dmem m dst = Some db" "length hb = size_t (4 * c)" "length db = length hb"
    using assms(5) by (auto simp: input_ready_def)
  have "dl_dtype (l_i_cpu_layouts l ! i) = FLOAT32"
    using assms(2,3) by (auto simp: ml_ok_def InputNum_def)
  note trans = TransLayout_same [OF r(2-5) this]
  note m = mach_ok_simps [OF assms(4)]
  let ?n = "size_t (4 * c)" and ?p = "hnext m"
  have src: "src \<noteq> ?p" using r(7) m(4) by auto
  show ?thesis
  proof (cases rule: malloc_cases [of ?n m, case_names ok fail])
    case fail
    then show ?thesis by (simp add: copy_input_def ml_answers [OF assms(2,3)] r(6))
  next
    case ok
    define t where "t = m\<lparr>hmem := (hmem m)(?p := Some hb), hfree := hfree m - ?n, hnext := Suc ?p\<rparr>"
    have copy: "host_copy ?p src ?n (m\<lparr>hmem := (hmem m)(?p := Some (replicate ?n (hjunk m))), hfree := hfree m - ?n, hnext := Suc ?p\<rparr>) = Ret () t"
      using src r(7,9) by (simp add: host_copy_def copy_into_all t_def)
    have call: "copy_input rt ct l i dst src m = call_then (MemcpyH2D rt dst ?p ?n t) (\<lambda>_ m. free ?p m)"
      by (simp add: copy_input_def ml_answers [OF assms(2,3)] r(1,6) ok(2) trans copy m(1))
    have live: "dmem t dst = Some db" "hmem t ?p = Some hb" "?n \<le> length db" "?n \<le> length hb"
      using r(8-10) by (simp_all add: t_def)
    show ?thesis
    proof (cases rule: MemcpyH2D_cases [OF assms(1) live, case_names copied exc])
      case copied
      have "free ?p (t\<lparr>dmem := (dmem t)(dst := Some hb)\<rparr>) = Ret () (m\<lparr>dmem := (dmem m)(dst := hmem m src), hnext := Suc ?p\<rparr>)"
        using m(1,4) ok(1) r(7,9) by (simp add: free_def t_def fun_upd_idem)
      then show ?thesis using copied r(9,10) by (simp add: call copy_into_all)
    next
      case exc
      then show ?thesis by (auto simp: call t_def)
    qed
  qed
qed

text \<open>All inputs are ready, in different blocks of the device.\<close>

definition inputs_ready :: "ModelLoader \<Rightarrow> mach \<Rightarrow> addr list \<Rightarrow> addr list \<Rightarrow> bool" where
  "inputs_ready l m mlu_dst cpu_src \<longleftrightarrow> length mlu_dst = InputNum l \<and> length cpu_src = InputNum l \<and> distinct mlu_dst \<and>
     (\<forall>i<InputNum l. input_ready l m i (mlu_dst ! i) (cpu_src ! i))"

lemma copy_inputs_ready:
  assumes "cnrt_ok rt" and "ml_ok l" and "length mlu_dst = InputNum l" "length cpu_src = InputNum l" and "distinct mlu_dst"
    and "i + n = InputNum l" and "mach_ok m" and "\<And>j. i \<le> j \<Longrightarrow> j < i + n \<Longrightarrow> input_ready l m j (mlu_dst ! j) (cpu_src ! j)"
  shows "(\<exists>t. copy_inputs rt ct l i n mlu_dst cpu_src m = Ret () t \<and> hmem t = hmem m \<and> hfree t = hfree m \<and>
      (\<forall>j. i \<le> j \<longrightarrow> j < i + n \<longrightarrow> dmem t (mlu_dst ! j) = hmem m (cpu_src ! j)) \<and>
      (\<forall>a. a \<notin> set (drop i mlu_dst) \<longrightarrow> dmem t a = dmem m a)) \<or>
    (\<exists>e t. copy_inputs rt ct l i n mlu_dst cpu_src m = Exc e t \<and> ErrorCode e = MEMORY) \<or>
    (copy_inputs rt ct l i n mlu_dst cpu_src m = Terminate \<and> (\<exists>j<i + n. hfree m < size_t (l_i_data_sizes l ! j)))"
  using assms(6-8)
proof (induction n arbitrary: i m)
  case 0
  then show ?case by auto
next
  case (Suc n)
  let ?d = "mlu_dst ! i" and ?s = "cpu_src ! i"
  have i: "i < InputNum l" using Suc.prems by simp
  have len: "i < length mlu_dst" "i < length cpu_src" using i assms(3,4) by simp_all
  have step: "copy_inputs rt ct l i (Suc n) mlu_dst cpu_src m =
      call_then (copy_input rt ct l i ?d ?s m) (\<lambda>_ m. copy_inputs rt ct l (Suc i) n mlu_dst cpu_src m)"
    using len by simp
  have ready: "input_ready l m i ?d ?s" using Suc.prems(3) by simp
  from copy_input_ready [OF assms(1,2) i Suc.prems(2) ready, of ct] show ?case
  proof (elim disjE exE conjE)
    fix e t assume "copy_input rt ct l i ?d ?s m = Exc e t" "ErrorCode e = MEMORY"
    then show ?thesis unfolding step by simp
  next
    assume "copy_input rt ct l i ?d ?s m = Terminate" "hfree m < size_t (l_i_data_sizes l ! i)"
    then show ?thesis unfolding step by (intro disjI2 conjI exI [of _ i]) simp_all
  next
    let ?m = "m\<lparr>dmem := (dmem m)(?d := hmem m ?s), hnext := Suc (hnext m)\<rparr>"
    assume r: "copy_input rt ct l i ?d ?s m = Ret () ?m"
    have other: "mlu_dst ! j \<noteq> ?d" if "Suc i \<le> j" "j < Suc i + n" for j
      using that assms(3,5) Suc.prems(1) len by (simp add: nth_eq_iff_index_eq)
    have "mach_ok ?m" using Suc.prems(2) ready by (auto simp: mach_ok_def input_ready_def)
    moreover have "input_ready l ?m j (mlu_dst ! j) (cpu_src ! j)" if "Suc i \<le> j" "j < Suc i + n" for j
      using Suc.prems(3) [of j] that other [OF that] by (auto simp: input_ready_def)
    ultimately have "(\<exists>t. copy_inputs rt ct l (Suc i) n mlu_dst cpu_src ?m = Ret () t \<and> hmem t = hmem ?m \<and> hfree t = hfree ?m \<and>
      (\<forall>j. Suc i \<le> j \<longrightarrow> j < Suc i + n \<longrightarrow> dmem t (mlu_dst ! j) = hmem ?m (cpu_src ! j)) \<and>
      (\<forall>a. a \<notin> set (drop (Suc i) mlu_dst) \<longrightarrow> dmem t a = dmem ?m a)) \<or>
    (\<exists>e t. copy_inputs rt ct l (Suc i) n mlu_dst cpu_src ?m = Exc e t \<and> ErrorCode e = MEMORY) \<or>
    (copy_inputs rt ct l (Suc i) n mlu_dst cpu_src ?m = Terminate \<and> (\<exists>j<Suc i + n. hfree ?m < size_t (l_i_data_sizes l ! j)))"
      using Suc.prems(1) by (intro Suc.IH) simp_all
    then consider (ret) t where "copy_inputs rt ct l (Suc i) n mlu_dst cpu_src ?m = Ret () t" "hmem t = hmem m" "hfree t = hfree m"
        "\<forall>j. Suc i \<le> j \<longrightarrow> j < Suc i + n \<longrightarrow> dmem t (mlu_dst ! j) = hmem m (cpu_src ! j)"
        "\<forall>a. a \<notin> set (drop (Suc i) mlu_dst) \<longrightarrow> dmem t a = dmem ?m a"
      | (exc) e t where "copy_inputs rt ct l (Suc i) n mlu_dst cpu_src ?m = Exc e t" "ErrorCode e = MEMORY"
      | (no_memory) j where "copy_inputs rt ct l (Suc i) n mlu_dst cpu_src ?m = Terminate" "j < Suc i + n" "hfree m < size_t (l_i_data_sizes l ! j)"
      by auto
    then show ?thesis
    proof cases
      case ret
      have drop: "drop i mlu_dst = ?d # drop (Suc i) mlu_dst" using len by (simp add: Cons_nth_drop_Suc)
      then have "?d \<notin> set (drop (Suc i) mlu_dst)" using distinct_drop [OF assms(5), of i] by simp
      then have "dmem t ?d = hmem m ?s" using ret(5) by simp
      then have "dmem t (mlu_dst ! j) = hmem m (cpu_src ! j)" if "i \<le> j" "j < Suc i + n" for j
        using ret(4) that by (cases "j = i") auto
      moreover have "dmem t a = dmem m a" if "a \<notin> set (drop i mlu_dst)" for a using ret(5) that drop by simp
      ultimately show ?thesis unfolding step r using ret(1-3) by simp
    next
      case no_memory
      then show ?thesis unfolding step r by (intro disjI2 conjI exI [of _ j]) simp_all
    next
      case exc
      then show ?thesis unfolding step r by simp
    qed
  qed
qed

text \<open>C32: Copying the inputs of a model to the device where both sides use the same layout. The copy either
  returns, every input block of the device then holds exactly the bytes of the host's block and
  nothing else changed on either side, the temporary buffers being released; or it throws MEMORY,
  because the driver refused; or the program ends because a temporary buffer cannot be allocated,
  which happens only when the host has less memory than one input needs.\<close>

theorem model_input_upload:
  assumes "cnrt_ok rt" and "ml_ok l" and "mach_ok m" and "inputs_ready l m mlu_dst cpu_src"
  shows "case MemcpyInputH2D rt ct (Some l) mlu_dst cpu_src m of
      Ret _ t \<Rightarrow> hmem t = hmem m \<and> hfree t = hfree m \<and>
        map (dmem t) mlu_dst = map (hmem m) cpu_src \<and> (\<forall>a. a \<notin> set mlu_dst \<longrightarrow> dmem t a = dmem m a)
    | Exc e _ \<Rightarrow> ErrorCode e = MEMORY
    | Terminate \<Rightarrow> \<exists>n\<in>set (l_i_data_sizes l). hfree m < size_t n
    | _ \<Rightarrow> False"
proof -
  note ready = assms(4) [unfolded inputs_ready_def]
  have len: "length (l_i_data_sizes l) = InputNum l" using assms(2) by (simp add: ml_ok_def InputNum_def)
  have call: "MemcpyInputH2D rt ct (Some l) mlu_dst cpu_src m = copy_inputs rt ct l 0 (InputNum l) mlu_dst cpu_src m"
    by (simp add: MemcpyInputH2D_def CHECK_MODEL_LOADER_def float32_pass [OF assms(2)])
  from copy_inputs_ready [OF assms(1,2), of mlu_dst cpu_src 0 "InputNum l" m ct] ready assms(3)
  consider (ret) t where "MemcpyInputH2D rt ct (Some l) mlu_dst cpu_src m = Ret () t" "hmem t = hmem m" "hfree t = hfree m"
      "\<forall>j<InputNum l. dmem t (mlu_dst ! j) = hmem m (cpu_src ! j)" "\<forall>a. a \<notin> set mlu_dst \<longrightarrow> dmem t a = dmem m a"
    | (exc) e t where "MemcpyInputH2D rt ct (Some l) mlu_dst cpu_src m = Exc e t" "ErrorCode e = MEMORY"
    | (no_memory) j where "MemcpyInputH2D rt ct (Some l) mlu_dst cpu_src m = Terminate" "j < InputNum l"
      "hfree m < size_t (l_i_data_sizes l ! j)"
    unfolding call by auto
  then show ?thesis
  proof cases
    case ret
    then have "map (dmem t) mlu_dst = map (hmem m) cpu_src" using ready by (intro nth_equalityI) simp_all
    with ret show ?thesis by simp
  next
    case no_memory
    then show ?thesis using len by (auto intro!: bexI [of _ "l_i_data_sizes l ! j"])
  qed simp
qed

definition demo_mach :: mach where
  "demo_mach = \<lparr>hmem = [1 \<mapsto> replicate 48 7], dmem = [1 \<mapsto> replicate 48 0], hfree = 100, hnext = 2, hjunk = 205\<rparr>"

lemma demo_model_ok: "ml_ok demo_model"
  by (simp add: ml_ok_def demo_model_def cpu_layout_def)


text \<open>Conversions that succeed and do nothing; the copy of the example needs none.\<close>

definition demo_trans :: cnrt_trans where
  "demo_trans = \<lparr>cnrtCastDataType = (\<lambda>src st dst dt n m. (CNRT_RET_SUCCESS, m)),
     cnrtTransDataOrder = (\<lambda>src st dst dims order m. (CNRT_RET_SUCCESS, m)),
     cnrtTransOrderAndCast = (\<lambda>src st dst dt dims order m. (CNRT_RET_SUCCESS, m))\<rparr>"

lemma demo_upload_returns: "no_exc (MemcpyInputH2D (ref_cnrt next_dev_addr) demo_trans (Some demo_model) [1] [1] demo_mach)"
  by (simp add: MemcpyInputH2D_def demo_model_def demo_mach_def CHECK_MODEL_LOADER_def ONLY_SUPPORT_FLOAT32_ON_CPU_def InputNum_def
      OutputNum_def GetCpuInputLayout_def ml_get_def cpu_layout_def GetCpuOutputLayout_def copy_input_def InputDataSize_def
      GetMluInputLayout_def InputShape_def malloc_def size_t_def TransLayout_def shx_BatchDataCount_def mul_i64_def host_copy_def
      MemcpyH2D_def ref_cnrt_def CHECK_CNRT_RET_def Let_def free_def copy_into_def)

lemma model_input_upload_witness:
  "case MemcpyInputH2D (ref_cnrt next_dev_addr) demo_trans (Some demo_model) [1] [1] demo_mach of
     Ret _ t \<Rightarrow> dmem t 1 = Some (replicate 48 7) \<and> hfree t = 100 | _ \<Rightarrow> False"
proof -
  have "mach_ok demo_mach" by (simp add: mach_ok_def demo_mach_def)
  moreover have "inputs_ready demo_model demo_mach [1] [1]"
    by (simp add: inputs_ready_def input_ready_def InputNum_def demo_model_def demo_mach_def cpu_layout_def
        shx_BatchDataCount_def mul_i64_def size_t_def)
  ultimately show ?thesis
    using model_input_upload [OF ref_cnrt_ok [of next_dev_addr] demo_model_ok, of demo_mach "[1]" "[1]" demo_trans] demo_upload_returns
    by (auto simp: demo_model_def demo_mach_def size_t_def split: outcome.splits)
qed

end
