(* ===== verification/Easy_Infer.thy ===== *)
theory Easy_Infer
  imports Model_Memory Mlu_Context
begin

text \<open>
  EasyInfer (easydk/src/easyinfer/easy_infer.cpp) and the part of \<open>MluTaskQueueProxy\<close> it uses
  (easydk/include/internal/mlu_task_queue.h): setting up the runtime context of a model, running it
  with or without time marks, and destruction. Every call of CNRT, and every array the object
  allocates, is an entry of \<open>ei_trace\<close>, the newest first; the argument \<open>L\<close> answers from it.
\<close>

subsection \<open>State\<close>

datatype infer_call = Infer_CreateFunction | Infer_CopyFunction | Infer_CreateContext nat | Infer_SetChannel nat
  | Infer_SetDeviceId nat int | Infer_InitContext nat | Infer_CreateQueue nat | Infer_NewArray nat | Infer_Queue queue_call
  | Infer_Invoke nat "addr list" nat bool | Infer_DestroyContext nat | Infer_DestroyFunction nat | Infer_DeleteArray
  | Infer_NotifierDestroy nat | Infer_QueueDestroy nat | Infer_QueueCreate

text \<open>
  \<open>il_ret\<close> answers the newest call of the trace; \<open>il_out\<close> is what its output argument holds after
  the call, given what it held before; \<open>il_shared\<close> says whether the user still holds the task queue
  at this point.
\<close>

record infer_lib =
  il_ret :: "infer_call list \<Rightarrow> cnrtRet"
  il_out :: "infer_call list \<Rightarrow> nat \<Rightarrow> nat"
  il_duration :: "infer_call list \<Rightarrow> int"
  il_shared :: "infer_call list \<Rightarrow> bool"

record EasyInfer =
  ei_model :: "ModelLoader option"
  ei_function :: nat
  ei_queue :: "MluTaskQueue option"
  ei_param :: "addr list option"
  ei_batch_size :: int
  ei_context :: nat
  ei_mark_start :: "nat option"
  ei_mark_end :: "nat option"
  ei_trace :: "infer_call list"

definition new_EasyInfer :: EasyInfer where
  "new_EasyInfer = \<lparr>ei_model = None, ei_function = 0, ei_queue = None, ei_param = None, ei_batch_size = 1, ei_context = 0,
     ei_mark_start = None, ei_mark_end = None, ei_trace = []\<rparr>"

definition infer_do :: "infer_call \<Rightarrow> EasyInfer \<Rightarrow> EasyInfer" where
  "infer_do c e = e\<lparr>ei_trace := c # ei_trace e\<rparr>"

definition infer_call :: "infer_lib \<Rightarrow> infer_call \<Rightarrow> string \<Rightarrow> EasyInfer \<Rightarrow> (EasyInfer, unit) run" where
  "infer_call L c msg e = (let e = infer_do c e in CALL_CNRT_FUNC (il_ret L (ei_trace e)) msg e)"

subsection \<open>The task queue and the time marks inside\<close>

text \<open>The driver as the task queue sees it, after the calls \<open>T\<close>; \<open>queue_then\<close> runs an operation of it.\<close>

definition queue_view :: "infer_lib \<Rightarrow> infer_call list \<Rightarrow> queue_lib" where
  "queue_view L T = \<lparr>ql_ret = (\<lambda>t. il_ret L (map Infer_Queue t @ T)), ql_handle = (\<lambda>t. il_out L (map Infer_Queue t @ T) 0),
     ql_duration = (\<lambda>t. il_duration L (map Infer_Queue t @ T))\<rparr>"

definition queue_done :: "MluTaskQueue \<Rightarrow> EasyInfer \<Rightarrow> EasyInfer" where
  "queue_done q e = e\<lparr>ei_trace := map Infer_Queue (tq_trace q) @ ei_trace e\<rparr>"

text \<open>The destructors of a list of time marks, and of the task queue's private part.\<close>

definition drop_marks :: "nat list \<Rightarrow> EasyInfer \<Rightarrow> EasyInfer" where
  "drop_marks ns e = fold (\<lambda>n e. if n \<noteq> 0 then infer_do (Infer_NotifierDestroy n) e else e) ns e"

definition MluTaskQueue_destroy :: "MluTaskQueue \<Rightarrow> EasyInfer \<Rightarrow> EasyInfer" where
  "MluTaskQueue_destroy q e =
     drop_marks (marks q) (if tq_queue q \<noteq> 0 then infer_do (Infer_QueueDestroy (tq_queue q)) e else e)"

text \<open>Giving up the reference to the task queue destroys it when the user holds none.\<close>

definition release_queue :: "infer_lib \<Rightarrow> EasyInfer \<Rightarrow> EasyInfer" where
  "release_queue L e =
     (case ei_queue e of None \<Rightarrow> e
      | Some q \<Rightarrow> (let e = e\<lparr>ei_queue := None\<rparr> in if il_shared L (ei_trace e) then e else MluTaskQueue_destroy q e))"

text \<open>\<open>queue_ = MluTaskQueueProxy::Wrap(cnrt_queue)\<close>; where a mark of the queue cannot be created, the others are destroyed.\<close>

definition wrap_queue :: "infer_lib \<Rightarrow> nat \<Rightarrow> EasyInfer \<Rightarrow> (EasyInfer, unit) run" where
  "wrap_queue L cnrt_q e =
     (case MluTaskQueue_new (queue_view L (ei_trace e)) cnrt_q of
        Ret _ q \<Rightarrow> Ret () ((release_queue L (queue_done q e))\<lparr>ei_queue := Some (q\<lparr>tq_trace := []\<rparr>)\<rparr>)
      | Exc x q \<Rightarrow> Exc x (drop_marks (marks q) (queue_done q e))
      | UB \<Rightarrow> UB | Terminate \<Rightarrow> Terminate | Blocked q \<Rightarrow> Blocked e)"

text \<open>A task queue for the user, with a queue of its own; where that cannot be created the marks are destroyed.\<close>

definition MluTaskQueue_Create :: "infer_lib \<Rightarrow> EasyInfer \<Rightarrow> (EasyInfer, MluTaskQueue) run" where
  "MluTaskQueue_Create L e =
     (case MluTaskQueue_new (queue_view L (ei_trace e)) 0 of
        Ret _ q \<Rightarrow>
          let e = infer_do Infer_QueueCreate (queue_done q e); q = q\<lparr>tq_trace := [], tq_queue := il_out L (ei_trace e) 0\<rparr>
          in if il_ret L (ei_trace e) \<noteq> CNRT_RET_SUCCESS
             then call_then (CALL_CNRT_FUNC (il_ret L (ei_trace e)) ''Create cnrtQueue failed.'' (MluTaskQueue_destroy q e)) (\<lambda>_. Ret q)
             else Ret q e
      | Exc x q \<Rightarrow> Exc x (drop_marks (marks q) (queue_done q e))
      | UB \<Rightarrow> UB | Terminate \<Rightarrow> Terminate | Blocked q \<Rightarrow> Blocked e)"

text \<open>
  A queue of the user put into a task queue: one that holds a queue gets a new private part first, and
  the old one is destroyed.
\<close>

definition SetCnrtQueue :: "infer_lib \<Rightarrow> MluTaskQueue \<Rightarrow> nat \<Rightarrow> EasyInfer \<Rightarrow> (EasyInfer, MluTaskQueue) run" where
  "SetCnrtQueue L q cnrt_q e =
     (if tq_queue q = 0 then Ret (q\<lparr>tq_queue := cnrt_q\<rparr>) e
      else case MluTaskQueue_new (queue_view L (ei_trace e)) cnrt_q of
        Ret _ n \<Rightarrow> Ret (n\<lparr>tq_trace := []\<rparr>) (MluTaskQueue_destroy q (queue_done n e))
      | Exc x n \<Rightarrow> Exc x (drop_marks (marks n) (queue_done n e))
      | UB \<Rightarrow> UB | Terminate \<Rightarrow> Terminate | Blocked n \<Rightarrow> Blocked e)"

text \<open>Moving a time mark, given by its notifier: the new value of this mark and of the other one.\<close>

definition TimeMark_move :: "nat \<Rightarrow> nat \<times> nat" where
  "TimeMark_move other = (other, 0)"

definition TimeMark_move_assign :: "nat \<Rightarrow> nat \<Rightarrow> nat \<times> nat" where
  "TimeMark_move_assign this other = (other, 0)"

text \<open>\<open>mark_.reset(new TimeMark)\<close>: the new notifier and the old mark.\<close>

definition new_TimeMark :: "infer_lib \<Rightarrow> EasyInfer \<Rightarrow> (EasyInfer, nat) run" where
  "new_TimeMark L e =
     call_then (infer_call L (Infer_Queue Call_NotifierCreate) ''Create notifier failed'' e) (\<lambda>_ e. Ret (il_out L (ei_trace e) 0) e)"

definition drop_TimeMark :: "nat option \<Rightarrow> EasyInfer \<Rightarrow> EasyInfer" where
  "drop_TimeMark n e = (case n of None \<Rightarrow> e | Some n \<Rightarrow> drop_marks [n] e)"

subsection \<open>Initialisation\<close>

text \<open>A call with an output argument, stored by \<open>put\<close> whatever the call returns.\<close>

definition infer_create :: "infer_lib \<Rightarrow> infer_call \<Rightarrow> string \<Rightarrow> (EasyInfer \<Rightarrow> nat) \<Rightarrow> (nat \<Rightarrow> EasyInfer \<Rightarrow> EasyInfer) \<Rightarrow> EasyInfer \<Rightarrow>
    (EasyInfer, unit) run" where
  "infer_create L c msg get put e =
     (let e = infer_do c e; e = put (il_out L (ei_trace e) (get e)) e in CALL_CNRT_FUNC (il_ret L (ei_trace e)) msg e)"

definition put_function :: "nat \<Rightarrow> EasyInfer \<Rightarrow> EasyInfer" where "put_function x e = e\<lparr>ei_function := x\<rparr>"

definition put_context :: "nat \<Rightarrow> EasyInfer \<Rightarrow> EasyInfer" where "put_context x e = e\<lparr>ei_context := x\<rparr>"

text \<open>The array of parameters, \<open>junk\<close> its first content; its size is an \<open>uint32_t\<close>.\<close>

definition new_params :: "infer_lib \<Rightarrow> addr \<Rightarrow> EasyInfer \<Rightarrow> (EasyInfer, unit) run" where
  "new_params L junk e =
     (case ei_model e of None \<Rightarrow> UB
      | Some l \<Rightarrow>
          let n = unat (word_of_nat (InputNum l) + word_of_nat (OutputNum l) :: u32); e = infer_do (Infer_NewArray n) e
          in if il_ret L (ei_trace e) \<noteq> CNRT_RET_SUCCESS then Exc bad_alloc e else Ret () (e\<lparr>ei_param := Some (replicate n junk)\<rparr>))"

text \<open>The time marks; \<open>cnrt_queue\<close>, a local variable, is \<open>junk\<close> before the call that fills it.\<close>

definition infer_marks :: "infer_lib \<Rightarrow> EasyInfer \<Rightarrow> (EasyInfer, unit) run" where
  "infer_marks L e =
     call_then (new_TimeMark L e) (\<lambda>n e.
     let old = ei_mark_start e; e = drop_TimeMark old (e\<lparr>ei_mark_start := Some n\<rparr>)
     in call_then (new_TimeMark L e) (\<lambda>n e.
        let old = ei_mark_end e in Ret () (drop_TimeMark old (e\<lparr>ei_mark_end := Some n\<rparr>))))"

definition infer_queue :: "infer_lib \<Rightarrow> nat \<Rightarrow> EasyInfer \<Rightarrow> (EasyInfer, unit) run" where
  "infer_queue L junk e =
     call_then (infer_call L (Infer_CreateQueue (ei_context e)) ''Runtime Context Create Queue failed'' e) (\<lambda>_ e.
     wrap_queue L (il_out L (ei_trace e) junk) e)"

definition EasyInfer_Init :: "infer_lib \<Rightarrow> nat \<Rightarrow> ModelLoader option \<Rightarrow> int \<Rightarrow> EasyInfer \<Rightarrow> (EasyInfer, unit) run" where
  "EasyInfer_Init L junk model dev_id e =
     call_then (infer_create L Infer_CreateFunction ''Create function failed.'' ei_function put_function (e\<lparr>ei_model := model\<rparr>)) (\<lambda>_ e.
     if ei_model e = None then UB
     else call_then (infer_create L Infer_CopyFunction ''Copy function failed.'' ei_function put_function e) (\<lambda>_ e.
     call_then (infer_create L (Infer_CreateContext (ei_function e)) ''Create runtime context failed!'' ei_context put_context
       (e\<lparr>ei_batch_size := 1\<rparr>)) (\<lambda>_ e.
     call_then (infer_call L (Infer_SetChannel (ei_context e)) ''Set Runtime Context Channel failed!'' e) (\<lambda>_ e.
     call_then (infer_call L (Infer_SetDeviceId (ei_context e) dev_id) ''Set Runtime Context Device Id failed!'' e) (\<lambda>_ e.
     call_then (infer_call L (Infer_InitContext (ei_context e)) ''Init runtime context failed!'' e) (\<lambda>_ e.
     call_then (infer_queue L junk e) (\<lambda>_ e.
     call_then (new_params L junk e) (\<lambda>_ e. infer_marks L e))))))))"

subsection \<open>Running\<close>

text \<open>One loop that fills the parameters; reading or writing out of an array is undefined.\<close>

fun fill_param :: "addr list \<Rightarrow> nat \<Rightarrow> nat \<Rightarrow> nat \<Rightarrow> addr list \<Rightarrow> addr list option" where
  "fill_param src off i 0 p = Some p"
| "fill_param src off i (Suc n) p =
     (if i < length src \<and> off + i < length p then fill_param src off (Suc i) n (p[off + i := src ! i]) else None)"

text \<open>\<open>int i_num = model->InputNum()\<close>\<close>

definition int_num :: "nat \<Rightarrow> nat" where
  "int_num n = nat (sint (word_of_nat n :: i32))"

definition prepare_params :: "addr list \<Rightarrow> addr list \<Rightarrow> EasyInfer \<Rightarrow> (EasyInfer, addr list) run" where
  "prepare_params input output e =
     (case ei_model e of None \<Rightarrow> UB
      | Some l \<Rightarrow>
          (let i_num = int_num (InputNum l); o_num = int_num (OutputNum l); p = (case ei_param e of None \<Rightarrow> [] | Some p \<Rightarrow> p)
           in case fill_param input 0 0 i_num p of None \<Rightarrow> UB
              | Some p \<Rightarrow> (case fill_param output i_num 0 o_num p of None \<Rightarrow> UB
                           | Some p \<Rightarrow> Ret p (e\<lparr>ei_param := (case ei_param e of None \<Rightarrow> None | Some _ \<Rightarrow> Some p)\<rparr>))))"

definition place_mark :: "infer_lib \<Rightarrow> bool \<Rightarrow> nat option \<Rightarrow> nat \<Rightarrow> EasyInfer \<Rightarrow> (EasyInfer, unit) run" where
  "place_mark L hw_time mark q e =
     (if \<not> hw_time then Ret () e
      else case mark of None \<Rightarrow> UB
      | Some n \<Rightarrow> infer_call L (Infer_Queue (Call_PlaceNotifier n q)) ''cnrt::PlaceNotifier failed'' e)"

text \<open>\<open>queue_->Sync()\<close>\<close>

definition sync_queue :: "infer_lib \<Rightarrow> EasyInfer \<Rightarrow> (EasyInfer, unit) run" where
  "sync_queue L e =
     (case ei_queue e of None \<Rightarrow> UB
      | Some q \<Rightarrow>
          (case queue_Sync (queue_view L (ei_trace e)) (q\<lparr>tq_trace := []\<rparr>) of
             Ret _ q \<Rightarrow> Ret () ((queue_done q e)\<lparr>ei_queue := Some (q\<lparr>tq_trace := []\<rparr>)\<rparr>)
           | Exc x q \<Rightarrow> Exc x ((queue_done q e)\<lparr>ei_queue := Some (q\<lparr>tq_trace := []\<rparr>)\<rparr>)
           | UB \<Rightarrow> UB | Terminate \<Rightarrow> Terminate | Blocked q \<Rightarrow> Blocked e))"

text \<open>\<open>hw_time\<close>: whether a pointer for the time is given; the result is the time in microseconds stored there.\<close>

definition count_time :: "infer_lib \<Rightarrow> bool \<Rightarrow> EasyInfer \<Rightarrow> (EasyInfer, int option) run" where
  "count_time L hw_time e =
     (if \<not> hw_time then Ret None e
      else case (ei_mark_start e, ei_mark_end e) of
        (Some s, Some t) \<Rightarrow>
          call_then (infer_call L (Infer_Queue (Call_NotifierDuration s t)) ''Calculate elapsed time failed.'' e) (\<lambda>_ e.
            Ret (Some (il_duration L (ei_trace e))) e)
      | _ \<Rightarrow> UB)"

definition EasyInfer_Run :: "infer_lib \<Rightarrow> addr list \<Rightarrow> addr list \<Rightarrow> bool \<Rightarrow> EasyInfer \<Rightarrow> (EasyInfer, int option) run" where
  "EasyInfer_Run L input output hw_time e =
     call_then (prepare_params input output e) (\<lambda>p e.
     case ei_queue e of None \<Rightarrow> UB
     | Some tq \<Rightarrow>
         let q = tq_queue tq
         in call_then (place_mark L hw_time (ei_mark_start e) q e) (\<lambda>_ e.
            call_then (infer_call L (Infer_Invoke (ei_context e) p q False) ''Invoke Runtime Context failed'' e) (\<lambda>_ e.
            call_then (place_mark L hw_time (ei_mark_end e) q e) (\<lambda>_ e.
            call_then (sync_queue L e) (\<lambda>_ e. count_time L hw_time e)))))"

text \<open>The asynchronous form, on a queue of the user; it passes extra parameters.\<close>

definition EasyInfer_RunAsync :: "infer_lib \<Rightarrow> addr list \<Rightarrow> addr list \<Rightarrow> MluTaskQueue option \<Rightarrow> EasyInfer \<Rightarrow> (EasyInfer, unit) run" where
  "EasyInfer_RunAsync L input output task_queue e =
     call_then (prepare_params input output e) (\<lambda>p e.
     case task_queue of None \<Rightarrow> UB
     | Some tq \<Rightarrow> infer_call L (Infer_Invoke (ei_context e) p (tq_queue tq) True) ''Invoke Runtime Context failed'' e)"

subsection \<open>Access and destruction\<close>

definition EasyInfer_Model :: "EasyInfer \<Rightarrow> ModelLoader option" where "EasyInfer_Model e = ei_model e"

definition GetMluQueue :: "EasyInfer \<Rightarrow> MluTaskQueue option" where "GetMluQueue e = ei_queue e"

definition EasyInfer_destroy :: "infer_lib \<Rightarrow> EasyInfer \<Rightarrow> EasyInfer" where
  "EasyInfer_destroy L e =
     (let e = (if ei_context e \<noteq> 0 then infer_do (Infer_DestroyContext (ei_context e)) e else e);
          e = (if ei_function e \<noteq> 0 then infer_do (Infer_DestroyFunction (ei_function e)) e else e);
          e = (if ei_param e \<noteq> None then infer_do Infer_DeleteArray e else e)
      in release_queue L (drop_TimeMark (ei_mark_start e) (drop_TimeMark (ei_mark_end e) e)))"

end
