(* ===== verification/Easy_Infer_Props.thy ===== *)
theory Easy_Infer_Props
  imports Easy_Infer Model_Memory_Props
begin

text \<open>
  What an EasyInfer object does with its driver: the calls of a run, in their order and with their
  parameters, and the balance of everything that initialisation creates and destruction releases.
\<close>

subsection \<open>A run as a sequence of calls\<close>

text \<open>Calls issued one after the other until one fails: the trace, and whether all succeeded.\<close>

fun issue :: "infer_lib \<Rightarrow> infer_call list \<Rightarrow> infer_call list \<Rightarrow> infer_call list \<times> bool" where
  "issue L [] T = (T, True)"
| "issue L (c # cs) T = (if il_ret L (c # T) = CNRT_RET_SUCCESS then issue L cs (c # T) else (c # T, False))"

lemma infer_call_cases:
  obtains (ok) "il_ret L (c # ei_trace e) = CNRT_RET_SUCCESS" "infer_call L c msg e = Ret () (infer_do c e)"
    | (exc) x where "il_ret L (c # ei_trace e) \<noteq> CNRT_RET_SUCCESS" "infer_call L c msg e = Exc x (infer_do c e)" "ErrorCode x = INTERNAL"
  by (cases "il_ret L (c # ei_trace e) = CNRT_RET_SUCCESS") (auto simp: infer_call_def infer_do_def Let_def CALL_CNRT_FUNC_def)

lemma infer_do_sel [simp]:
  "ei_trace (infer_do c e) = c # ei_trace e" "ei_model (infer_do c e) = ei_model e" "ei_function (infer_do c e) = ei_function e"
  "ei_queue (infer_do c e) = ei_queue e" "ei_param (infer_do c e) = ei_param e" "ei_context (infer_do c e) = ei_context e"
  "ei_mark_start (infer_do c e) = ei_mark_start e" "ei_mark_end (infer_do c e) = ei_mark_end e"
  by (simp_all add: infer_do_def)

lemma fill_param_done:
  "i + n \<le> length src \<Longrightarrow> off + i + n \<le> length p \<Longrightarrow>
     fill_param src off i n p = Some (take (off + i) p @ take n (drop i src) @ drop (off + i + n) p)"
proof (induction n arbitrary: i p)
  case (Suc n)
  have i: "i < length src" "off + i < length p" using Suc.prems by simp_all
  have src: "drop i src = src ! i # drop (Suc i) src" using i(1) by (simp add: Cons_nth_drop_Suc)
  have "take (Suc (off + i)) (p[off + i := src ! i]) = take (off + i) p @ [src ! i]"
    using i(2) by (simp add: take_Suc_conv_app_nth)
  then show ?case using Suc.IH [of "Suc i" "p[off + i := src ! i]"] Suc.prems i by (simp add: src)
qed simp

lemma int_num_eq: "n < 2 ^ 31 \<Longrightarrow> int_num n = n"
  by (simp add: int_num_def signed_of_nat signed_take_bit_int_eq_self)

text \<open>An object that was set up for the model \<open>l\<close>.\<close>

definition infer_ready :: "ModelLoader \<Rightarrow> EasyInfer \<Rightarrow> bool" where
  "infer_ready l e \<longleftrightarrow> ei_model e = Some l \<and> InputNum l < 2 ^ 31 \<and> OutputNum l < 2 ^ 31 \<and>
     (\<exists>p. ei_param e = Some p \<and> length p = InputNum l + OutputNum l) \<and>
     (\<exists>q. ei_queue e = Some q \<and> tq_queue q \<noteq> 0 \<and> tq_trace q = []) \<and> ei_mark_start e \<noteq> None \<and> ei_mark_end e \<noteq> None"

lemma prepare_params_ready:
  assumes "infer_ready l e" and "length input = InputNum l" and "length output = OutputNum l"
  shows "prepare_params input output e = Ret (input @ output) (e\<lparr>ei_param := Some (input @ output)\<rparr>)"
proof -
  obtain p where p: "ei_param e = Some p" "length p = InputNum l + OutputNum l"
    using assms(1) by (auto simp: infer_ready_def)
  have n: "int_num (InputNum l) = InputNum l" "int_num (OutputNum l) = OutputNum l"
    using assms(1) by (simp_all add: infer_ready_def int_num_eq)
  have "fill_param input 0 0 (InputNum l) p = Some (input @ drop (InputNum l) p)"
    using fill_param_done [of 0 "InputNum l" input 0 p] assms(2) p by simp
  moreover have "fill_param output (InputNum l) 0 (OutputNum l) (input @ drop (InputNum l) p) = Some (input @ output)"
    using fill_param_done [of 0 "OutputNum l" "output" "InputNum l" "input @ drop (InputNum l) p"] assms(2,3) p by simp
  ultimately show ?thesis using assms(1) p n by (simp add: prepare_params_def infer_ready_def Let_def)
qed

text \<open>The calls of one run: \<open>s\<close>, \<open>t\<close> are the time marks, \<open>q\<close> the queue.\<close>

definition run_calls :: "bool \<Rightarrow> nat \<Rightarrow> addr list \<Rightarrow> nat \<Rightarrow> nat \<Rightarrow> nat \<Rightarrow> infer_call list" where
  "run_calls hw_time context p q s t =
     (if hw_time then [Infer_Queue (Call_PlaceNotifier s q)] else []) @ [Infer_Invoke context p q False] @
     (if hw_time then [Infer_Queue (Call_PlaceNotifier t q)] else []) @ [Infer_Queue (Call_QueueSync q)] @
     (if hw_time then [Infer_Queue (Call_NotifierDuration s t)] else [])"

lemma sync_queue_ready:
  assumes "ei_queue e = Some q" and "tq_queue q \<noteq> 0" and "tq_trace q = []"
  shows "sync_queue L e = (case infer_call L (Infer_Queue (Call_QueueSync (tq_queue q))) ''Sync queue failed.'' e of
    Ret _ t \<Rightarrow> Ret () t | Exc x t \<Rightarrow> Exc x t | r \<Rightarrow> r)"
proof -
  have "q\<lparr>tq_trace := []\<rparr> = q" using assms(3) by simp
  moreover have "e\<lparr>ei_trace := T, ei_queue := Some q\<rparr> = e\<lparr>ei_trace := T\<rparr>" for T
    using assms(1) by simp
  ultimately show ?thesis using assms
    by (simp add: sync_queue_def queue_Sync_def queue_call_def queue_view_def infer_call_def infer_do_def queue_done_def
        CALL_CNRT_FUNC_def Let_def)
qed

text \<open>C33: A run of a set-up object, with one address per input and output of the model: the driver gets the
  calls of the specification in their order, up to the first that fails; the inference is invoked
  once, between the two time marks where the time is asked for, with the inputs followed by the
  outputs as its parameters, and the queue is synchronised after it. The run returns, with the time
  if it was asked for, exactly when all calls succeed; otherwise it throws INTERNAL. In both cases
  the object stays ready for the next run.\<close>

theorem infer_run:
  assumes "infer_ready l e" and "length input = InputNum l" and "length output = OutputNum l"
    and "ei_queue e = Some tq" and "ei_mark_start e = Some s" and "ei_mark_end e = Some t"
  shows "let calls = issue L (run_calls hw_time (ei_context e) (input @ output) (tq_queue tq) s t) (ei_trace e)
     in case EasyInfer_Run L input output hw_time e of
          Ret d e' \<Rightarrow> calls = (ei_trace e', True) \<and> d = (if hw_time then Some (il_duration L (ei_trace e')) else None) \<and> infer_ready l e'
        | Exc x e' \<Rightarrow> calls = (ei_trace e', False) \<and> ErrorCode x = INTERNAL \<and> infer_ready l e'
        | _ \<Rightarrow> False"
proof -
  have q: "tq_queue tq \<noteq> 0" "tq_trace tq = []" using assms(1,4) by (auto simp: infer_ready_def)
  have ready: "infer_ready l (e\<lparr>ei_param := Some (input @ output), ei_trace := T\<rparr>)" for T
    using assms by (simp add: infer_ready_def)
  show ?thesis
    unfolding EasyInfer_Run_def prepare_params_ready [OF assms(1-3)]
    using assms(4-6) q ready
    by (cases hw_time) (simp_all add: place_mark_def infer_call_def infer_do_def Let_def CALL_CNRT_FUNC_def count_time_def run_calls_def
        sync_queue_ready [of _ tq])
qed

subsection \<open>What is created and what is released\<close>

datatype resource = RFunction | RContext | RArray | RNotifier | RQueue

fun creates :: "infer_call \<Rightarrow> resource option" where
  "creates Infer_CreateFunction = Some RFunction"
| "creates (Infer_CreateContext f) = Some RContext"
| "creates (Infer_NewArray n) = Some RArray"
| "creates (Infer_CreateQueue c) = Some RQueue"
| "creates Infer_QueueCreate = Some RQueue"
| "creates (Infer_Queue Call_NotifierCreate) = Some RNotifier"
| "creates _ = None"

fun destroys :: "infer_call \<Rightarrow> resource option" where
  "destroys (Infer_DestroyFunction f) = Some RFunction"
| "destroys (Infer_DestroyContext c) = Some RContext"
| "destroys Infer_DeleteArray = Some RArray"
| "destroys (Infer_QueueDestroy q) = Some RQueue"
| "destroys (Infer_NotifierDestroy n) = Some RNotifier"
| "destroys _ = None"

text \<open>Created successfully and not destroyed in a trace.\<close>

fun alive :: "infer_lib \<Rightarrow> resource \<Rightarrow> infer_call list \<Rightarrow> int" where
  "alive L r [] = 0"
| "alive L r (c # T) = alive L r T + (if creates c = Some r \<and> il_ret L (c # T) = CNRT_RET_SUCCESS then 1 else 0) -
     (if destroys c = Some r then 1 else 0)"

definition queue_marks :: "EasyInfer \<Rightarrow> nat list" where
  "queue_marks e = (case ei_queue e of None \<Rightarrow> [] | Some q \<Rightarrow> marks q)"

text \<open>What the object owns.\<close>

fun owns :: "EasyInfer \<Rightarrow> resource \<Rightarrow> int" where
  "owns e RFunction = of_bool (ei_function e \<noteq> 0)"
| "owns e RContext = of_bool (ei_context e \<noteq> 0)"
| "owns e RArray = of_bool (ei_param e \<noteq> None)"
| "owns e RNotifier = int (length (filter (\<lambda>n. n \<noteq> 0) (case_option [] (\<lambda>n. [n]) (ei_mark_start e) @ case_option [] (\<lambda>n. [n]) (ei_mark_end e) @ queue_marks e)))"
| "owns e RQueue = (case ei_queue e of None \<Rightarrow> 0 | Some q \<Rightarrow> of_bool (tq_queue q \<noteq> 0))"

text \<open>Created by nobody's account: what is alive although the object does not own it.\<close>

definition leaked :: "infer_lib \<Rightarrow> EasyInfer \<Rightarrow> resource \<Rightarrow> int" where
  "leaked L e r = alive L r (ei_trace e) - owns e r"

text \<open>
  The driver gives a handle where it creates something, and leaves the output argument where it fails.
\<close>

definition infer_lib_ok :: "infer_lib \<Rightarrow> bool" where
  "infer_lib_ok L \<longleftrightarrow> (\<forall>c T old. creates c \<noteq> None \<or> c = Infer_CopyFunction \<longrightarrow>
     (if il_ret L (c # T) = CNRT_RET_SUCCESS then il_out L (c # T) old \<noteq> 0 else il_out L (c # T) old = old))"

lemma infer_lib_okD:
  assumes "infer_lib_ok L" and "creates c \<noteq> None \<or> c = Infer_CopyFunction"
  shows "il_ret L (c # T) = CNRT_RET_SUCCESS \<Longrightarrow> 0 < il_out L (c # T) old"
    and "il_ret L (c # T) \<noteq> CNRT_RET_SUCCESS \<Longrightarrow> il_out L (c # T) old = old"
  using assms(1) [unfolded infer_lib_ok_def, rule_format, OF assms(2), of T old] by (simp_all split: if_splits)

lemma drop_marks_alive:
  "alive L r (ei_trace (drop_marks ns e)) = alive L r (ei_trace e) - (if r = RNotifier then int (length (filter (\<lambda>n. n \<noteq> 0) ns)) else 0)"
  by (induction ns arbitrary: e) (auto simp: drop_marks_def)

lemma drop_marks_sel [simp]:
  "ei_model (drop_marks ns e) = ei_model e" "ei_function (drop_marks ns e) = ei_function e" "ei_queue (drop_marks ns e) = ei_queue e"
  "ei_param (drop_marks ns e) = ei_param e" "ei_context (drop_marks ns e) = ei_context e"
  "ei_mark_start (drop_marks ns e) = ei_mark_start e" "ei_mark_end (drop_marks ns e) = ei_mark_end e"
  by (induction ns arbitrary: e) (auto simp: drop_marks_def)

lemma owns_cong:
  "ei_function t = ei_function e \<Longrightarrow> ei_context t = ei_context e \<Longrightarrow> ei_param t = ei_param e \<Longrightarrow> ei_mark_start t = ei_mark_start e \<Longrightarrow>
     ei_mark_end t = ei_mark_end e \<Longrightarrow> ei_queue t = ei_queue e \<Longrightarrow> owns t r = owns e r"
  by (cases r) (simp_all add: queue_marks_def)

text \<open>Destruction releases exactly what the object owns.\<close>

lemma MluTaskQueue_destroy_alive:
  "alive L r (ei_trace (MluTaskQueue_destroy q e)) = alive L r (ei_trace e) -
     (if r = RNotifier then int (length (filter (\<lambda>n. n \<noteq> 0) (marks q))) else 0) - (if r = RQueue then of_bool (tq_queue q \<noteq> 0) else 0)"
  by (simp add: MluTaskQueue_destroy_def drop_marks_alive)

lemma drop_TimeMark_alive:
  "alive L r (ei_trace (drop_TimeMark n e)) = alive L r (ei_trace e) -
     (if r = RNotifier then int (length (filter (\<lambda>n. n \<noteq> 0) (case_option [] (\<lambda>n. [n]) n))) else 0)"
  by (cases n) (simp_all add: drop_TimeMark_def drop_marks_alive)

lemma drop_TimeMark_queue [simp]: "ei_queue (drop_TimeMark n e) = ei_queue e"
  by (cases n) (simp_all add: drop_TimeMark_def)

lemma destroy_alive:
  assumes "\<And>T. \<not> il_shared L T"
  shows "alive L r (ei_trace (EasyInfer_destroy L e)) = leaked L e r"
proof -
  define d where "d = (let e = (if ei_context e \<noteq> 0 then infer_do (Infer_DestroyContext (ei_context e)) e else e);
          e = (if ei_function e \<noteq> 0 then infer_do (Infer_DestroyFunction (ei_function e)) e else e)
      in if ei_param e \<noteq> None then infer_do Infer_DeleteArray e else e)"
  have d: "ei_mark_start d = ei_mark_start e" "ei_mark_end d = ei_mark_end e" "ei_queue d = ei_queue e"
    by (simp_all add: d_def Let_def)
  have alive: "alive L r (ei_trace d) = alive L r (ei_trace e) - (if r \<in> {RFunction, RContext, RArray} then owns e r else 0)" for r
    by (cases r) (simp_all add: d_def Let_def)
  have "EasyInfer_destroy L e = release_queue L (drop_TimeMark (ei_mark_start d) (drop_TimeMark (ei_mark_end d) d))"
    by (simp add: EasyInfer_destroy_def d_def Let_def drop_TimeMark_def split: option.split)
  then show ?thesis
    by (cases r; cases "ei_queue e") (simp_all add: release_queue_def assms Let_def MluTaskQueue_destroy_alive drop_TimeMark_alive d alive
        leaked_def queue_marks_def)
qed

subsection \<open>Initialisation and runs keep the balance\<close>

definition clean :: "infer_lib \<Rightarrow> EasyInfer \<Rightarrow> bool" where
  "clean L e \<longleftrightarrow> (\<forall>r. leaked L e r = 0)"

text \<open>An exception may leave a task queue that nobody owns.\<close>

definition init_ok :: "infer_lib \<Rightarrow> (EasyInfer, 'a) run \<Rightarrow> bool" where
  "init_ok L r \<longleftrightarrow> (case r of Ret _ t \<Rightarrow> clean L t | Exc _ t \<Rightarrow> (\<forall>r. leaked L t r = 0 \<or> (r = RQueue \<and> leaked L t r = 1)) | _ \<Rightarrow> False)"

lemma init_ok_Ret [simp]: "init_ok L (Ret a t) \<longleftrightarrow> clean L t"
  by (simp add: init_ok_def)

lemma init_ok_Exc: "clean L t \<Longrightarrow> init_ok L (Exc x t)"
  by (simp add: init_ok_def clean_def)

lemma init_ok_then: "init_ok L r \<Longrightarrow> (\<And>a t. r = Ret a t \<Longrightarrow> clean L t \<Longrightarrow> init_ok L (k a t)) \<Longrightarrow> init_ok L (call_then r k)"
  by (cases r) (simp_all add: init_ok_def)

lemma clean_owns: "clean L e \<longleftrightarrow> (\<forall>r. alive L r (ei_trace e) = owns e r)"
  by (simp add: clean_def leaked_def)

text \<open>A call that neither creates nor destroys.\<close>

lemma clean_neutral:
  assumes "creates c = None" and "destroys c = None"
  shows "clean L (infer_do c e) \<longleftrightarrow> clean L e"
proof -
  have "owns (infer_do c e) r = owns e r" for r by (rule owns_cong) simp_all
  then show ?thesis using assms by (simp add: clean_owns)
qed

lemma infer_call_ok:
  assumes "creates c = None" and "destroys c = None" and "clean L e"
  shows "init_ok L (infer_call L c msg e)"
  by (cases rule: infer_call_cases [of L c e msg]) (simp_all add: init_ok_Exc clean_neutral assms)

lemma infer_call_Ret: "infer_call L c msg e = Ret u t \<longleftrightarrow> il_ret L (c # ei_trace e) = CNRT_RET_SUCCESS \<and> t = infer_do c e"
  by (auto simp: infer_call_def infer_do_def Let_def)

text \<open>The calls that fill a handle of the object: \<open>get\<close> and \<open>put\<close> are the member, \<open>r\<close> its resource.\<close>

lemma owns_infer_do [simp]: "owns (infer_do c e) r = owns e r"
  by (rule owns_cong) simp_all

lemma owns_put:
  "owns (put_function x e) r = (if r = RFunction then of_bool (x \<noteq> 0) else owns e r)"
  "owns (put_context x e) r = (if r = RContext then of_bool (x \<noteq> 0) else owns e r)"
  by (cases r; simp add: put_function_def put_context_def queue_marks_def)+

lemma infer_create_cases:
  assumes lib: "infer_lib_ok L" and e: "clean L e"
    and c: "creates c = Some r \<and> get e = 0 \<or> c = Infer_CopyFunction \<and> get e \<noteq> 0" "destroys c = None"
    and get: "get (infer_do c e) = get e" "owns e r = of_bool (get e \<noteq> 0)"
    and put: "\<And>x t q. owns (put x t) q = (if q = r then of_bool (x \<noteq> 0) else owns t q)" "\<And>x t. ei_trace (put x t) = ei_trace t"
  obtains (ok) x where "infer_create L c msg get put e = Ret () (put x (infer_do c e))" "0 < x" "clean L (put x (infer_do c e))"
    | (exc) t where "infer_create L c msg get put e = Exc t (put (get e) (infer_do c e))" "clean L (put (get e) (infer_do c e))"
proof -
  have "creates c \<noteq> None \<or> c = Infer_CopyFunction" using c(1) by auto
  note out = infer_lib_okD [OF lib this, of "ei_trace e" "get e"]
  note cl = e [unfolded clean_owns, rule_format]
  show ?thesis
  proof (cases "il_ret L (c # ei_trace e) = CNRT_RET_SUCCESS")
    case True
    have "clean L (put (il_out L (c # ei_trace e) (get e)) (infer_do c e))"
      unfolding clean_owns using out(1) [OF True] cl c get True by (auto simp: put)
    then show ?thesis using True out(1) [OF True] get
      by (intro ok [of "il_out L (c # ei_trace e) (get e)"]) (simp_all add: infer_create_def Let_def put CALL_CNRT_FUNC_def)
  next
    case False
    have "clean L (put (get e) (infer_do c e))"
      unfolding clean_owns using cl c get False by (auto simp: put)
    then show ?thesis using False out(2) [OF False] get
      by (intro exc) (auto simp: infer_create_def Let_def put CALL_CNRT_FUNC_def)
  qed
qed

lemma put_sel [simp]:
  "ei_trace (put_function x e) = ei_trace e" "ei_trace (put_context x e) = ei_trace e" "ei_function (put_function x e) = x"
  "ei_function (put_context x e) = ei_function e" "ei_context (put_context x e) = x" "ei_context (put_function x e) = ei_context e"
  "ei_model (put_function x e) = ei_model e" "ei_model (put_context x e) = ei_model e"
  "ei_queue (put_function x e) = ei_queue e" "ei_queue (put_context x e) = ei_queue e"
  "ei_param (put_function x e) = ei_param e" "ei_param (put_context x e) = ei_param e"
  "ei_mark_start (put_function x e) = ei_mark_start e" "ei_mark_start (put_context x e) = ei_mark_start e"
  "ei_mark_end (put_function x e) = ei_mark_end e" "ei_mark_end (put_context x e) = ei_mark_end e"
  by (simp_all add: put_function_def put_context_def)

lemma create_function_ok:
  assumes "infer_lib_ok L" and "clean L e" and "c = Infer_CreateFunction \<and> ei_function e = 0 \<or> c = Infer_CopyFunction \<and> ei_function e \<noteq> 0"
  shows "init_ok L (infer_create L c msg ei_function put_function e)"
    and "infer_create L c msg ei_function put_function e = Ret u t \<Longrightarrow> \<exists>f>0. t = put_function f (infer_do c e)"
  by (cases rule: infer_create_cases [of L e c RFunction ei_function put_function msg];
      use assms in \<open>force simp: owns_put init_ok_Exc\<close>)+

lemma create_context_ok:
  assumes "infer_lib_ok L" and "clean L e" and "ei_context e = 0"
  shows "init_ok L (infer_create L (Infer_CreateContext f) msg ei_context put_context e)"
    and "infer_create L (Infer_CreateContext f) msg ei_context put_context e = Ret u t \<Longrightarrow>
      \<exists>x>0. t = put_context x (infer_do (Infer_CreateContext f) e)"
  by (cases rule: infer_create_cases [of L e "Infer_CreateContext f" RContext ei_context put_context msg];
      use assms in \<open>force simp: owns_put init_ok_Exc\<close>)+

text \<open>The task queue.\<close>

lemma MluTaskQueue_new_cases:
  assumes "infer_lib_ok L"
  obtains (ok) a b where "MluTaskQueue_new (queue_view L T) cq =
        Ret () \<lparr>tq_queue = cq, marks = [a, b], marks_valid = [True, True], tq_trace = [Call_NotifierCreate, Call_NotifierCreate]\<rparr>" "0 < a" "0 < b"
        "il_ret L (Infer_Queue Call_NotifierCreate # T) = CNRT_RET_SUCCESS"
        "il_ret L (Infer_Queue Call_NotifierCreate # Infer_Queue Call_NotifierCreate # T) = CNRT_RET_SUCCESS"
    | (first) x where "MluTaskQueue_new (queue_view L T) cq =
        Exc x \<lparr>tq_queue = 0, marks = [], marks_valid = [], tq_trace = [Call_NotifierCreate]\<rparr>"
        "il_ret L (Infer_Queue Call_NotifierCreate # T) \<noteq> CNRT_RET_SUCCESS"
    | (second) x a where "MluTaskQueue_new (queue_view L T) cq =
        Exc x \<lparr>tq_queue = 0, marks = [a], marks_valid = [True], tq_trace = [Call_NotifierCreate, Call_NotifierCreate]\<rparr>" "0 < a"
        "il_ret L (Infer_Queue Call_NotifierCreate # T) = CNRT_RET_SUCCESS"
        "il_ret L (Infer_Queue Call_NotifierCreate # Infer_Queue Call_NotifierCreate # T) \<noteq> CNRT_RET_SUCCESS"
proof -
  note out = infer_lib_okD [OF assms, of "Infer_Queue Call_NotifierCreate", simplified]
  show ?thesis
  proof (cases "il_ret L (Infer_Queue Call_NotifierCreate # T) = CNRT_RET_SUCCESS")
    case False
    then show ?thesis
      by (intro first) (simp_all add: MluTaskQueue_new_def emplace_mark_def queue_call_def queue_view_def CALL_CNRT_FUNC_def)
  next
    case one: True
    show ?thesis
    proof (cases "il_ret L (Infer_Queue Call_NotifierCreate # Infer_Queue Call_NotifierCreate # T) = CNRT_RET_SUCCESS")
      case True
      with one out(1) show ?thesis
        by (intro ok) (simp_all add: MluTaskQueue_new_def emplace_mark_def queue_call_def queue_view_def CALL_CNRT_FUNC_def)
    next
      case False
      with one out(1) show ?thesis
        by (intro second) (simp_all add: MluTaskQueue_new_def emplace_mark_def queue_call_def queue_view_def CALL_CNRT_FUNC_def)
    qed
  qed
qed

lemma infer_queue_ok:
  assumes lib: "infer_lib_ok L" and e: "clean L e" and q: "ei_queue e = None"
  shows "init_ok L (infer_queue L junk e)"
    and "infer_queue L junk e = Ret u t \<Longrightarrow> \<exists>T tq. t = e\<lparr>ei_trace := T, ei_queue := Some tq\<rparr> \<and> 0 < tq_queue tq \<and> tq_trace tq = []"
proof -
  let ?c = "Infer_CreateQueue (ei_context e)" and ?N = "Infer_Queue Call_NotifierCreate"
  let ?T = "?c # ei_trace e"
  note cl = e [unfolded clean_owns, rule_format]
  have marks: "queue_marks e = []" using q by (simp add: queue_marks_def)
  have "init_ok L (infer_queue L junk e) \<and> (infer_queue L junk e = Ret u t \<longrightarrow>
     (\<exists>T tq. t = e\<lparr>ei_trace := T, ei_queue := Some tq\<rparr> \<and> 0 < tq_queue tq \<and> tq_trace tq = []))"
  proof (cases rule: infer_call_cases [of L ?c e "''Runtime Context Create Queue failed''", case_names ok exc])
    case exc
    have "clean L (infer_do ?c e)" unfolding clean_owns using cl exc(1) by simp
    then show ?thesis using exc by (simp add: infer_queue_def init_ok_Exc)
  next
    case ok
    define x where "x = il_out L ?T junk"
    have x: "0 < x" using infer_lib_okD(1) [OF lib, of ?c "ei_trace e" junk] ok(1) by (simp add: x_def)
    have call: "infer_queue L junk e = wrap_queue L x (infer_do ?c e)" by (simp add: infer_queue_def ok(2) x_def)
    show ?thesis
    proof (cases rule: MluTaskQueue_new_cases [OF lib, of ?T x, case_names ok first second])
      case (ok a b)
      let ?q = "\<lparr>tq_queue = x, marks = [a, b], marks_valid = [True, True], tq_trace = []\<rparr>"
      let ?t = "e\<lparr>ei_trace := ?N # ?N # ?T, ei_queue := Some ?q\<rparr>"
      have r: "wrap_queue L x (infer_do ?c e) = Ret () ?t"
        using q by (simp add: wrap_queue_def ok(1) release_queue_def queue_done_def infer_do_def)
      have "alive L r (ei_trace ?t) = owns ?t r" for r
        using cl [of r] ok(2-5) x \<open>il_ret L ?T = CNRT_RET_SUCCESS\<close> q marks by (cases r) (simp_all add: queue_marks_def)
      then have "clean L ?t" by (simp add: clean_owns)
      moreover have "\<exists>T tq. ?t = e\<lparr>ei_trace := T, ei_queue := Some tq\<rparr> \<and> 0 < tq_queue tq \<and> tq_trace tq = []"
        using x by (intro exI [of _ "?N # ?N # ?T"] exI [of _ ?q]) simp
      ultimately show ?thesis unfolding call r init_ok_Ret outcome.inject by blast
    next
      case (first y)
      have "alive L r (ei_trace (drop_marks [] (queue_done \<lparr>tq_queue = 0, marks = [], marks_valid = [], tq_trace = [Call_NotifierCreate]\<rparr> (infer_do ?c e)))) =
          owns e r + (if r = RQueue then 1 else 0)" for r
        using cl [of r] first(2) \<open>il_ret L ?T = CNRT_RET_SUCCESS\<close> by (simp add: drop_marks_def queue_done_def)
      moreover have "owns (drop_marks [] (queue_done \<lparr>tq_queue = 0, marks = [], marks_valid = [], tq_trace = [Call_NotifierCreate]\<rparr> (infer_do ?c e))) r =
          owns e r" for r by (rule owns_cong) (simp_all add: queue_done_def)
      ultimately show ?thesis unfolding call by (simp add: wrap_queue_def first(1) init_ok_def leaked_def)
    next
      case (second y a)
      let ?p = "\<lparr>tq_queue = 0, marks = [a], marks_valid = [True], tq_trace = [Call_NotifierCreate, Call_NotifierCreate]\<rparr>"
      have "alive L r (ei_trace (drop_marks [a] (queue_done ?p (infer_do ?c e)))) = owns e r + (if r = RQueue then 1 else 0)" for r
        using cl [of r] second(2-4) \<open>il_ret L ?T = CNRT_RET_SUCCESS\<close> by (simp add: drop_marks_def queue_done_def)
      moreover have "owns (drop_marks [a] (queue_done ?p (infer_do ?c e))) r = owns e r" for r
        by (rule owns_cong) (simp_all add: queue_done_def)
      ultimately show ?thesis unfolding call by (simp add: wrap_queue_def second(1) init_ok_def leaked_def)
    qed
  qed
  then show "init_ok L (infer_queue L junk e)"
    and "infer_queue L junk e = Ret u t \<Longrightarrow> \<exists>T tq. t = e\<lparr>ei_trace := T, ei_queue := Some tq\<rparr> \<and> 0 < tq_queue tq \<and> tq_trace tq = []"
    by blast+
qed

lemma new_params_ok:
  assumes "clean L e" and "ei_param e = None" and "ei_model e = Some l"
  shows "init_ok L (new_params L junk e)"
    and "new_params L junk e = Ret u t \<Longrightarrow> \<exists>p T. t = e\<lparr>ei_trace := T, ei_param := Some p\<rparr> \<and>
      length p = unat (word_of_nat (InputNum l) + word_of_nat (OutputNum l) :: u32)"
proof -
  let ?n = "unat (word_of_nat (InputNum l) + word_of_nat (OutputNum l) :: u32)"
  let ?T = "Infer_NewArray ?n # ei_trace e" and ?p = "replicate ?n junk"
  note cl = assms(1) [unfolded clean_owns, rule_format]
  have "alive L r ?T = owns (e\<lparr>ei_trace := ?T, ei_param := Some ?p\<rparr>) r" if "il_ret L ?T = CNRT_RET_SUCCESS" for r
    using cl [of r] that assms(2) by (cases r) (simp_all add: queue_marks_def)
  then show "init_ok L (new_params L junk e)" using cl assms(3)
    by (simp add: new_params_def Let_def infer_do_def init_ok_def clean_owns leaked_def owns_infer_do [unfolded infer_do_def])
  assume "new_params L junk e = Ret u t"
  then show "\<exists>p T. t = e\<lparr>ei_trace := T, ei_param := Some p\<rparr> \<and> length p = ?n"
    using assms(3) by (auto simp: new_params_def Let_def infer_do_def split: if_splits intro!: exI [of _ ?p])
qed

text \<open>Both time marks.\<close>

lemma new_TimeMark_cases:
  assumes "infer_lib_ok L"
  obtains (ok) n where "new_TimeMark L e = Ret n (infer_do (Infer_Queue Call_NotifierCreate) e)" "0 < n"
      "il_ret L (Infer_Queue Call_NotifierCreate # ei_trace e) = CNRT_RET_SUCCESS"
    | (exc) x where "new_TimeMark L e = Exc x (infer_do (Infer_Queue Call_NotifierCreate) e)"
      "il_ret L (Infer_Queue Call_NotifierCreate # ei_trace e) \<noteq> CNRT_RET_SUCCESS"
proof (cases rule: infer_call_cases [of L "Infer_Queue Call_NotifierCreate" e "''Create notifier failed''", case_names ok exc])
  case ok
  then show ?thesis using infer_lib_okD(1) [OF assms, of "Infer_Queue Call_NotifierCreate" "ei_trace e" 0]
    by (intro that(1)) (simp_all add: new_TimeMark_def)
next
  case exc
  then show ?thesis by (intro that(2)) (simp_all add: new_TimeMark_def)
qed

lemma infer_marks_ok:
  assumes lib: "infer_lib_ok L" and e: "clean L e" and none: "ei_mark_start e = None" "ei_mark_end e = None"
  shows "init_ok L (infer_marks L e)"
    and "infer_marks L e = Ret u t \<Longrightarrow> \<exists>T a b. t = e\<lparr>ei_trace := T, ei_mark_start := Some a, ei_mark_end := Some b\<rparr>"
proof -
  let ?N = "Infer_Queue Call_NotifierCreate"
  note cl = e [unfolded clean_owns, rule_format]
  have failed: "clean L (infer_do ?N e)" if "clean L e" "il_ret L (?N # ei_trace e) \<noteq> CNRT_RET_SUCCESS" for e
    using that by (simp add: clean_owns)
  have "init_ok L (infer_marks L e) \<and> (infer_marks L e = Ret u t \<longrightarrow>
      (\<exists>T a b. t = e\<lparr>ei_trace := T, ei_mark_start := Some a, ei_mark_end := Some b\<rparr>))"
  proof (cases rule: new_TimeMark_cases [OF lib, of e, case_names ok exc])
    case exc
    then show ?thesis using failed [OF e exc(2)] by (simp add: infer_marks_def init_ok_Exc)
  next
    case (ok a)
    define d where "d = e\<lparr>ei_trace := ?N # ei_trace e, ei_mark_start := Some a\<rparr>"
    have d: "clean L d" unfolding clean_owns
    proof
      fix r show "alive L r (ei_trace d) = owns d r"
        using cl [of r] ok(2,3) none by (cases r) (simp_all add: d_def queue_marks_def)
    qed
    have call: "infer_marks L e = call_then (new_TimeMark L d) (\<lambda>n e. Ret () (drop_TimeMark (ei_mark_end e) (e\<lparr>ei_mark_end := Some n\<rparr>)))"
      using none by (simp add: infer_marks_def ok(1) d_def drop_TimeMark_def infer_do_def)
    show ?thesis
    proof (cases rule: new_TimeMark_cases [OF lib, of d, case_names ok exc])
      case exc
      then show ?thesis using failed [OF d exc(2)] by (simp add: call init_ok_Exc)
    next
      case (ok b)
      have r: "infer_marks L e = Ret () (d\<lparr>ei_trace := ?N # ei_trace d, ei_mark_end := Some b\<rparr>)"
        using none unfolding call ok(1) by (simp add: d_def drop_TimeMark_def infer_do_def)
      have "alive L r (?N # ei_trace d) = owns (d\<lparr>ei_trace := ?N # ei_trace d, ei_mark_end := Some b\<rparr>) r" for r
        using d [unfolded clean_owns, rule_format, of r] ok(2,3) none
        by (cases r) (simp_all add: d_def queue_marks_def)
      then have "clean L (d\<lparr>ei_trace := ?N # ei_trace d, ei_mark_end := Some b\<rparr>)" by (simp add: clean_owns)
      moreover have "\<exists>T a b'. d\<lparr>ei_trace := ?N # ei_trace d, ei_mark_end := Some b\<rparr> = e\<lparr>ei_trace := T, ei_mark_start := Some a, ei_mark_end := Some b'\<rparr>"
        by (intro exI [of _ "?N # ei_trace d"] exI [of _ a] exI [of _ b]) (cases e, simp add: d_def)
      ultimately show ?thesis unfolding r init_ok_Ret outcome.inject by blast
    qed
  qed
  then show "init_ok L (infer_marks L e)"
    and "infer_marks L e = Ret u t \<Longrightarrow> \<exists>T a b. t = e\<lparr>ei_trace := T, ei_mark_start := Some a, ei_mark_end := Some b\<rparr>"
    by blast+
qed

text \<open>The whole of initialisation, for an object that owns nothing yet.\<close>

lemma clean_model: "clean L (e\<lparr>ei_model := m\<rparr>) = clean L e" "clean L (e\<lparr>ei_batch_size := b\<rparr>) = clean L e"
proof -
  have "owns (e\<lparr>ei_model := m\<rparr>) r = owns e r" "owns (e\<lparr>ei_batch_size := b\<rparr>) r = owns e r" for r by (rule owns_cong; simp)+
  then show "clean L (e\<lparr>ei_model := m\<rparr>) = clean L e" "clean L (e\<lparr>ei_batch_size := b\<rparr>) = clean L e" by (simp_all add: clean_owns)
qed

definition unset :: "ModelLoader option \<Rightarrow> EasyInfer \<Rightarrow> bool" where
  "unset l e \<longleftrightarrow> ei_model e = l \<and> ei_queue e = None \<and> ei_param e = None \<and> ei_mark_start e = None \<and> ei_mark_end e = None"

lemma unset_simps [simp]:
  "unset l (infer_do c e) = unset l e" "unset l (put_function x e) = unset l e" "unset l (put_context x e) = unset l e"
  "unset l (e\<lparr>ei_batch_size := b\<rparr>) = unset l e"
  by (simp_all add: unset_def)

definition infer_built :: "ModelLoader \<Rightarrow> EasyInfer \<Rightarrow> bool" where
  "infer_built l e \<longleftrightarrow> ei_model e = Some l \<and> (\<exists>p. ei_param e = Some p \<and> length p = unat (word_of_nat (InputNum l) + word_of_nat (OutputNum l) :: u32)) \<and>
     (\<exists>q. ei_queue e = Some q \<and> 0 < tq_queue q \<and> tq_trace q = []) \<and> ei_mark_start e \<noteq> None \<and> ei_mark_end e \<noteq> None"

text \<open>The last steps, once the context exists.\<close>

definition infer_finish :: "infer_lib \<Rightarrow> nat \<Rightarrow> int \<Rightarrow> EasyInfer \<Rightarrow> (EasyInfer, unit) run" where
  "infer_finish L junk dev_id e =
     call_then (infer_call L (Infer_SetChannel (ei_context e)) ''Set Runtime Context Channel failed!'' e) (\<lambda>_ e.
     call_then (infer_call L (Infer_SetDeviceId (ei_context e) dev_id) ''Set Runtime Context Device Id failed!'' e) (\<lambda>_ e.
     call_then (infer_call L (Infer_InitContext (ei_context e)) ''Init runtime context failed!'' e) (\<lambda>_ e.
     call_then (infer_queue L junk e) (\<lambda>_ e.
     call_then (new_params L junk e) (\<lambda>_ e. infer_marks L e)))))"

text \<open>A step that keeps the balance and, when it returns, establishes \<open>P\<close>.\<close>

definition init_post :: "infer_lib \<Rightarrow> (EasyInfer \<Rightarrow> bool) \<Rightarrow> (EasyInfer, 'a) run \<Rightarrow> bool" where
  "init_post L P r \<longleftrightarrow> init_ok L r \<and> (\<forall>a t. r = Ret a t \<longrightarrow> P t)"

lemma init_postI: "init_ok L r \<Longrightarrow> (\<And>a t. r = Ret a t \<Longrightarrow> P t) \<Longrightarrow> init_post L P r"
  by (simp add: init_post_def)

lemma init_post_then:
  "init_post L P r \<Longrightarrow> (\<And>a t. P t \<Longrightarrow> clean L t \<Longrightarrow> init_post L Q (k a t)) \<Longrightarrow> init_post L Q (call_then r k)"
  unfolding init_post_def by (cases r) (auto simp: init_ok_def)

lemma infer_call_post:
  assumes "creates c = None" and "destroys c = None" and "clean L e" and "unset l e"
  shows "init_post L (unset l) (infer_call L c msg e)"
  using assms infer_call_ok [OF assms(1-3)] by (auto intro!: init_postI simp: infer_call_Ret)

lemma infer_finish_post:
  assumes lib: "infer_lib_ok L" and "clean L e" and "unset (Some l) e"
  shows "init_post L (infer_built l) (infer_finish L junk dev_id e)"
proof -
  let ?Q = "\<lambda>v. ei_param v = None \<and> ei_model v = Some l \<and> ei_mark_start v = None \<and> ei_mark_end v = None \<and>
    (\<exists>q. ei_queue v = Some q \<and> 0 < tq_queue q \<and> tq_trace q = [])"
  let ?R = "\<lambda>v. (\<exists>p. ei_param v = Some p \<and> length p = unat (word_of_nat (InputNum l) + word_of_nat (OutputNum l) :: u32)) \<and>
    ei_model v = Some l \<and> ei_mark_start v = None \<and> ei_mark_end v = None \<and> (\<exists>q. ei_queue v = Some q \<and> 0 < tq_queue q \<and> tq_trace q = [])"
  have queue: "init_post L ?Q (infer_queue L junk v)" if v: "unset (Some l) v" "clean L v" for v
    using infer_queue_ok [OF lib v(2)] v(1) by (intro init_postI) (fastforce simp: unset_def)+
  have params: "init_post L ?R (new_params L junk v)" if v: "?Q v" "clean L v" for v
    using new_params_ok [OF v(2), of l] v(1) by (intro init_postI) fastforce+
  have marks: "init_post L (infer_built l) (infer_marks L v)" if v: "?R v" "clean L v" for v
    using infer_marks_ok [OF lib v(2)] v(1) by (intro init_postI) (fastforce simp: infer_built_def)+
  show ?thesis
    unfolding infer_finish_def using assms(2,3)
    by (intro init_post_then [OF infer_call_post [where l = "Some l"]] init_post_then [OF queue] init_post_then [OF params] marks) simp_all
qed

lemma EasyInfer_Init_post:
  assumes lib: "infer_lib_ok L"
  shows "init_post L (infer_built l) (EasyInfer_Init L junk (Some l) dev_id new_EasyInfer)"
proof -
  let ?e = "new_EasyInfer\<lparr>ei_model := Some l\<rparr>"
  let ?P = "\<lambda>e. unset (Some l) e \<and> ei_function e \<noteq> 0 \<and> ei_context e = 0"
  have e: "clean L ?e" "unset (Some l) ?e" "ei_function ?e = 0" "ei_context ?e = 0"
  proof -
    have "alive L r (ei_trace ?e) = owns ?e r" for r by (cases r) (simp_all add: new_EasyInfer_def queue_marks_def)
    then show "clean L ?e" by (simp add: clean_owns)
  qed (simp_all add: new_EasyInfer_def unset_def)
  have create: "init_post L ?P (infer_create L Infer_CreateFunction msg ei_function put_function ?e)" for msg
    using create_function_ok [OF lib e(1), of Infer_CreateFunction] e by (intro init_postI) fastforce+
  have copy: "init_post L ?P (infer_create L Infer_CopyFunction msg ei_function put_function v)" if v: "?P v" "clean L v" for v msg
    using create_function_ok [OF lib v(2), of Infer_CopyFunction] v(1) by (intro init_postI) fastforce+
  have ctx: "init_post L (unset (Some l)) (infer_create L (Infer_CreateContext (ei_function v)) msg ei_context put_context (v\<lparr>ei_batch_size := 1\<rparr>))"
    if v: "?P v" "clean L v" for v msg
    using create_context_ok [OF lib, of "v\<lparr>ei_batch_size := 1\<rparr>"] v by (intro init_postI) (fastforce simp: clean_model)+
  have some: "ei_model v \<noteq> None" if "?P v" for v using that by (simp add: unset_def)
  have "EasyInfer_Init L junk (Some l) dev_id new_EasyInfer =
     call_then (infer_create L Infer_CreateFunction ''Create function failed.'' ei_function put_function ?e) (\<lambda>_ e.
     if ei_model e = None then UB
     else call_then (infer_create L Infer_CopyFunction ''Copy function failed.'' ei_function put_function e) (\<lambda>_ e.
     call_then (infer_create L (Infer_CreateContext (ei_function e)) ''Create runtime context failed!'' ei_context put_context
       (e\<lparr>ei_batch_size := 1\<rparr>)) (\<lambda>_ e. infer_finish L junk dev_id e)))"
    by (simp only: EasyInfer_Init_def infer_finish_def [abs_def])
  also have "init_post L (infer_built l) \<dots>"
  proof (rule init_post_then [OF create])
    fix v assume v: "?P v" "clean L v"
    then show "init_post L (infer_built l) (if ei_model v = None then UB
     else call_then (infer_create L Infer_CopyFunction ''Copy function failed.'' ei_function put_function v) (\<lambda>_ e.
     call_then (infer_create L (Infer_CreateContext (ei_function e)) ''Create runtime context failed!'' ei_context put_context
       (e\<lparr>ei_batch_size := 1\<rparr>)) (\<lambda>_ e. infer_finish L junk dev_id e)))"
      using some [OF v(1)]
      by (simp only: if_False simp_thms) (rule init_post_then [OF copy [OF v]], rule init_post_then [OF ctx], assumption+, rule infer_finish_post [OF lib])
  qed
  finally show ?thesis .
qed

text \<open>A run changes nothing the object owns and creates nothing.\<close>

definition same_account :: "infer_lib \<Rightarrow> EasyInfer \<Rightarrow> EasyInfer \<Rightarrow> bool" where
  "same_account L e t \<longleftrightarrow> (\<forall>r. leaked L t r = leaked L e r)"

lemma same_account_owns:
  "(\<And>r. owns t r = owns e r) \<Longrightarrow> (\<And>r. alive L r (ei_trace t) = alive L r (ei_trace e)) \<Longrightarrow> same_account L e t"
  by (simp add: same_account_def leaked_def)

lemma same_account_trans: "same_account L a b \<Longrightarrow> same_account L b c \<Longrightarrow> same_account L a c"
  by (simp add: same_account_def)

lemma same_account_neutral: "creates c = None \<Longrightarrow> destroys c = None \<Longrightarrow> same_account L e (infer_do c e)"
  by (rule same_account_owns) simp_all

lemma prepare_params_account: "ensures (same_account L e) (prepare_params input output e)"
proof -
  have "same_account L e (e\<lparr>ei_param := (case ei_param e of None \<Rightarrow> None | Some _ \<Rightarrow> Some p)\<rparr>)" for p
  proof (rule same_account_owns)
    fix r show "owns (e\<lparr>ei_param := (case ei_param e of None \<Rightarrow> None | Some _ \<Rightarrow> Some p)\<rparr>) r = owns e r"
      by (cases r) (simp_all add: queue_marks_def split: option.split)
  qed simp
  then show ?thesis by (cases "ei_param e") (simp_all add: prepare_params_def Let_def split: option.split)
qed

lemma infer_call_account:
  "creates c = None \<Longrightarrow> destroys c = None \<Longrightarrow> same_account L e s \<Longrightarrow> ensures (same_account L e) (infer_call L c msg s)"
  using same_account_trans [OF _ same_account_neutral]
  by (cases rule: infer_call_cases [of L c s msg]) simp_all

lemma place_mark_account: "same_account L e s \<Longrightarrow> ensures (same_account L e) (place_mark L hw mark q s)"
  by (simp add: place_mark_def infer_call_account split: option.split)

lemma count_time_account: "same_account L e s \<Longrightarrow> ensures (same_account L e) (count_time L hw s)"
  unfolding count_time_def
  by (cases hw; cases "ei_mark_start s"; cases "ei_mark_end s") (auto intro!: ensures_then infer_call_account)

lemma sync_queue_account:
  assumes "same_account L e s"
  shows "ensures (same_account L e) (sync_queue L s)"
proof (cases "ei_queue s")
  case (Some q)
  let ?t = "s\<lparr>ei_trace := Infer_Queue (Call_QueueSync (tq_queue q)) # ei_trace s, ei_queue := Some (q\<lparr>tq_trace := []\<rparr>)\<rparr>"
  have "same_account L s ?t"
  proof (rule same_account_owns)
    fix r show "owns ?t r = owns s r" using Some by (cases r) (simp_all add: queue_marks_def)
  qed simp
  from same_account_trans [OF assms this] show ?thesis using Some
    by (simp add: sync_queue_def queue_Sync_def queue_call_def CALL_CNRT_FUNC_def Let_def queue_done_def)
qed (simp add: sync_queue_def)

lemma EasyInfer_Run_account: "ensures (same_account L e) (EasyInfer_Run L input output hw_time e)"
proof -
  have k: "ensures (same_account L e) (case ei_queue t of None \<Rightarrow> UB
     | Some tq \<Rightarrow> let q = tq_queue tq
         in call_then (place_mark L hw_time (ei_mark_start t) q t) (\<lambda>_ e.
            call_then (infer_call L (Infer_Invoke (ei_context e) p q False) ''Invoke Runtime Context failed'' e) (\<lambda>_ e.
            call_then (place_mark L hw_time (ei_mark_end e) q e) (\<lambda>_ e.
            call_then (sync_queue L e) (\<lambda>_ e. count_time L hw_time e)))))" if "same_account L e t" for p t
    using that by (cases "ei_queue t") (auto simp: Let_def intro!: ensures_then place_mark_account infer_call_account sync_queue_account count_time_account)
  show ?thesis unfolding EasyInfer_Run_def by (rule ensures_then [OF prepare_params_account k])
qed

text \<open>Any number of runs; an exception goes to the user, who keeps the object.\<close>

fun infer_runs :: "infer_lib \<Rightarrow> (addr list \<times> addr list \<times> bool) list \<Rightarrow> EasyInfer \<Rightarrow> EasyInfer" where
  "infer_runs L [] e = e"
| "infer_runs L ((i, out, hw) # rs) e = infer_runs L rs (case EasyInfer_Run L i out hw e of Ret _ t \<Rightarrow> t | Exc _ t \<Rightarrow> t | _ \<Rightarrow> e)"

lemma infer_runs_account: "same_account L e (infer_runs L rs e)"
proof (induction L rs e rule: infer_runs.induct)
  case (2 L i out hw rs e)
  have "same_account L e (case EasyInfer_Run L i out hw e of Ret _ t \<Rightarrow> t | Exc _ t \<Rightarrow> t | _ \<Rightarrow> e)"
    using EasyInfer_Run_account [of L e i out hw] by (cases "EasyInfer_Run L i out hw e") (simp_all add: same_account_def)
  with 2 show ?case by (auto intro: same_account_trans)
qed (simp add: same_account_def)

lemma infer_built_ready: "infer_built l e \<Longrightarrow> InputNum l < 2 ^ 31 \<Longrightarrow> OutputNum l < 2 ^ 31 \<Longrightarrow> infer_ready l e"
proof -
  assume "infer_built l e" and n: "InputNum l < 2 ^ 31" "OutputNum l < 2 ^ 31"
  moreover have "unat (word_of_nat (InputNum l) + word_of_nat (OutputNum l) :: u32) = InputNum l + OutputNum l"
    using n by (simp add: unat_word_ariths unsigned_of_nat take_bit_nat_eq_self)
  ultimately show ?thesis by (auto simp: infer_built_def infer_ready_def)
qed


subsection \<open>Closed examples\<close>

definition demo_infer_lib :: infer_lib where
  "demo_infer_lib = \<lparr>il_ret = (\<lambda>_. CNRT_RET_SUCCESS), il_out = (\<lambda>T _. length T), il_duration = (\<lambda>T. int (length T)), il_shared = (\<lambda>_. False)\<rparr>"

lemma demo_infer_lib_ok: "infer_lib_ok demo_infer_lib" "\<not> il_shared demo_infer_lib T"
  by (simp_all add: infer_lib_ok_def demo_infer_lib_def)

definition demo_infer :: EasyInfer where
  "demo_infer = \<lparr>ei_model = Some demo_model, ei_function = 1,
     ei_queue = Some \<lparr>tq_queue = 7, marks = [8, 9], marks_valid = [True, True], tq_trace = []\<rparr>, ei_param = Some [0, 0],
     ei_batch_size = 1, ei_context = 3, ei_mark_start = Some 11, ei_mark_end = Some 12, ei_trace = []\<rparr>"

lemma infer_run_witness:
  "\<exists>e'. EasyInfer_Run demo_infer_lib [100] [200] True demo_infer = Ret (Some 5) e' \<and>
     rev (ei_trace e') = [Infer_Queue (Call_PlaceNotifier 11 7), Infer_Invoke 3 [100, 200] 7 False, Infer_Queue (Call_PlaceNotifier 12 7),
       Infer_Queue (Call_QueueSync 7), Infer_Queue (Call_NotifierDuration 11 12)]"
proof -
  have "infer_ready demo_model demo_infer" by (simp add: infer_ready_def demo_infer_def demo_model_def InputNum_def OutputNum_def)
  from infer_run [OF this, of "[100]" "[200]" "\<lparr>tq_queue = 7, marks = [8, 9], marks_valid = [True, True], tq_trace = []\<rparr>" 11 12 demo_infer_lib True]
  obtain e' where e': "EasyInfer_Run demo_infer_lib [100] [200] True demo_infer = Ret (Some (int (length (ei_trace e')))) e'"
    "ei_trace e' = [Infer_Queue (Call_NotifierDuration 11 12), Infer_Queue (Call_QueueSync 7), Infer_Queue (Call_PlaceNotifier 12 7),
       Infer_Invoke 3 [100, 200] 7 False, Infer_Queue (Call_PlaceNotifier 11 7)]"
    by (auto simp: demo_infer_def demo_model_def InputNum_def OutputNum_def demo_infer_lib_def run_calls_def Let_def split: outcome.splits)
  then show ?thesis by (intro exI [of _ e']) simp
qed


text \<open>A second initialisation of the same object loses the function, the context and the array of the first.\<close>

lemma second_Init_leaks:
  "case EasyInfer_Init demo_infer_lib 0 (Some demo_model) 0 demo_infer of
     Ret _ e \<Rightarrow> \<forall>r\<in>{RFunction, RContext, RArray}. leaked demo_infer_lib e r = 1 + leaked demo_infer_lib demo_infer r
   | _ \<Rightarrow> False"
  by (simp add: EasyInfer_Init_def demo_infer_def infer_create_def infer_do_def demo_infer_lib_def put_function_def put_context_def
        infer_call_def infer_queue_def wrap_queue_def MluTaskQueue_new_def emplace_mark_def queue_call_def queue_view_def
        release_queue_def queue_done_def new_params_def demo_model_def InputNum_def OutputNum_def infer_marks_def new_TimeMark_def
        drop_TimeMark_def CALL_CNRT_FUNC_def Let_def leaked_def MluTaskQueue_destroy_def drop_marks_def)

end
