(* ===== verification/Log_Filter.thy ===== *)
theory Log_Filter
  imports Prelude
begin

text \<open>
  Which messages are logged (the first part of easydk/src/cxxutil/log.cpp and the macros of
  easydk/include/cxxutil/log.h): the level and the filter read from the environment, the macros
  that log once in a while, and \<open>CHECK\<close>. A C string is the list of its characters without the
  final 0, a pointer into it the rest of it. The environment variables are an argument.
\<close>

subsection \<open>Strings of the C library\<close>

definition find_char :: "char \<Rightarrow> nat \<Rightarrow> string \<Rightarrow> nat option" where
  "find_char c i s = (let j = i + length (takeWhile (\<lambda>x. x \<noteq> c) (drop i s)) in if j < length s then Some j else None)"

definition erase_at :: "nat \<Rightarrow> string \<Rightarrow> string" where
  "erase_at i s = take i s @ drop (Suc i) s"

lemma find_char_less: "find_char c i s = Some j \<Longrightarrow> j < length s"
  by (auto simp: find_char_def Let_def split: if_splits)

function trim_from :: "nat \<Rightarrow> string \<Rightarrow> string" where
  "trim_from index result =
     (case find_char CHR '' '' index result of None \<Rightarrow> result | Some index \<Rightarrow> trim_from index (erase_at index result))"
  by auto
termination by (relation "measure (\<lambda>(i, s). length s)") (auto simp: erase_at_def dest: find_char_less)

declare trim_from.simps [simp del]

definition StringTrim :: "string \<Rightarrow> string" where
  "StringTrim str = trim_from 0 str"

text \<open>The first occurrence of a character, as the rest of the string from there on.\<close>

definition strchr :: "string \<Rightarrow> char \<Rightarrow> string option" where
  "strchr s c = (case dropWhile (\<lambda>x. x \<noteq> c) s of [] \<Rightarrow> None | t \<Rightarrow> Some t)"

fun strrchr :: "string \<Rightarrow> char \<Rightarrow> string option" where
  "strrchr [] c = None"
| "strrchr (x # s) c = (case strrchr s c of Some t \<Rightarrow> Some t | None \<Rightarrow> if x = c then Some (x # s) else None)"

definition const_basename :: "string \<Rightarrow> string" where
  "const_basename filepath = (case strrchr filepath (CHR ''/'') of None \<Rightarrow> filepath | Some base \<Rightarrow> tl base)"

definition is_space :: "char \<Rightarrow> bool" where
  "is_space c \<longleftrightarrow> of_char c = (32::nat) \<or> (9 \<le> (of_char c :: nat) \<and> (of_char c :: nat) \<le> 13)"

definition is_digit :: "char \<Rightarrow> bool" where
  "is_digit c \<longleftrightarrow> 48 \<le> (of_char c :: nat) \<and> (of_char c :: nat) \<le> 57"

definition digits_value :: "string \<Rightarrow> nat" where
  "digits_value ds = foldl (\<lambda>n c. 10 * n + (of_char c - 48)) 0 ds"

text \<open>\<open>strtol\<close> to the base 10: no value where there is no digit; what does not fit \<open>long\<close> is its nearest value.\<close>

definition strtol10 :: "string \<Rightarrow> int option" where
  "strtol10 s =
     (let s = dropWhile is_space s; neg = (s \<noteq> [] \<and> hd s = CHR ''-'');
          s = (if s \<noteq> [] \<and> hd s \<in> {CHR ''-'', CHR ''+''} then tl s else s); ds = takeWhile is_digit s
      in if ds = [] then None
         else let n = int (digits_value ds); n = (if neg then - n else n) in Some (max (- (2 ^ 63)) (min (2 ^ 63 - 1) n)))"

text \<open>\<open>long\<close> to \<open>int\<close>\<close>

definition to_int :: "int \<Rightarrow> int" where
  "to_int n = sint (word_of_int n :: 32 word)"

definition toupper :: "char \<Rightarrow> char" where
  "toupper c = (if 97 \<le> (of_char c :: nat) \<and> (of_char c :: nat) \<le> 122 then char_of ((of_char c :: nat) - 32) else c)"

subsection \<open>The level and the filter\<close>

datatype LogSeverity = LOG_FATAL | LOG_ERROR | LOG_WARNING | LOG_INFO | LOG_DEBUG | LOG_TRACE | LOG_ALL

fun severity_num :: "LogSeverity \<Rightarrow> int" where
  "severity_num LOG_FATAL = 0"
| "severity_num LOG_ERROR = 1"
| "severity_num LOG_WARNING = 2"
| "severity_num LOG_INFO = 3"
| "severity_num LOG_DEBUG = 4"
| "severity_num LOG_TRACE = 5"
| "severity_num LOG_ALL = 6"

fun LogSeverityNames :: "LogSeverity \<Rightarrow> string" where
  "LogSeverityNames LOG_FATAL = ''FATAL''"
| "LogSeverityNames LOG_ERROR = ''ERROR''"
| "LogSeverityNames LOG_WARNING = ''WARN''"
| "LogSeverityNames LOG_INFO = ''INFO''"
| "LogSeverityNames LOG_DEBUG = ''DEBUG''"
| "LogSeverityNames LOG_TRACE = ''TRACE''"
| "LogSeverityNames LOG_ALL = ''ALL''"

record log_vars =
  EDK_LOG_LEVEL :: "string option"
  EDK_LOG_FILTER :: "string option"

definition g_min_log_level :: "log_vars \<Rightarrow> int" where
  "g_min_log_level E = (case EDK_LOG_LEVEL E of None \<Rightarrow> 2 | Some v \<Rightarrow> to_int (case strtol10 v of None \<Rightarrow> 0 | Some n \<Rightarrow> n))"

definition g_enable_category_filter :: "log_vars \<Rightarrow> bool" where
  "g_enable_category_filter E \<longleftrightarrow> EDK_LOG_FILTER E \<noteq> None"

definition g_log_filter :: "log_vars \<Rightarrow> string" where
  "g_log_filter E = (case EDK_LOG_FILTER E of None \<Rightarrow> '''' | Some v \<Rightarrow> v)"

text \<open>\<open>sscanf(sep, ":%d", &category_level)\<close>, \<open>sep\<close> starting with a colon.\<close>

definition scan_level :: "string \<Rightarrow> int option" where
  "scan_level sep = map_option to_int (strtol10 (tl sep))"

text \<open>The loop over the entries. \<open>insert\<close> keeps an entry that is already there.\<close>

type_synonym filter_maps = "string \<Rightarrow> int option"

lemma strchr_Some: "strchr s c = Some t \<Longrightarrow> length t \<le> length s \<and> t \<noteq> [] \<and> hd t = c"
proof -
  assume "strchr s c = Some t"
  then have t: "t = dropWhile (\<lambda>x. x \<noteq> c) s" "t \<noteq> []" by (auto simp: strchr_def split: list.splits)
  then show ?thesis using hd_dropWhile [of "\<lambda>x. x \<noteq> c" s] by (auto simp: length_dropWhile_le)
qed

function parse_filters :: "int \<Rightarrow> string \<Rightarrow> filter_maps \<Rightarrow> filter_maps" where
  "parse_filters min_level category maps =
     (case strchr category (CHR '':'') of None \<Rightarrow> maps
      | Some sep \<Rightarrow>
          let pattern = map toupper (take (length category - length sep) category);
              category_level = (case scan_level sep of None \<Rightarrow> min_level | Some n \<Rightarrow> n);
              maps = (case maps pattern of None \<Rightarrow> maps(pattern \<mapsto> category_level) | Some _ \<Rightarrow> maps)
          in case strchr sep (CHR '','') of None \<Rightarrow> maps | Some c \<Rightarrow> parse_filters min_level (tl c) maps)"
  by auto
termination
proof (relation "measure (\<lambda>(l, s, m). length s)")
  fix min_level category maps sep x xa xb c
  assume "strchr category (CHR '':'') = Some sep" "strchr sep (CHR '','') = Some c"
  from strchr_Some [OF this(1)] strchr_Some [OF this(2)]
  show "((min_level, tl c, xb), min_level, category, maps) \<in> measure (\<lambda>(l, s, m). length s)"
    by (cases c) auto
qed simp

declare parse_filters.simps [simp del]

definition CreateFilterMaps :: "log_vars \<Rightarrow> filter_maps option" where
  "CreateFilterMaps E =
     (let filter_str = StringTrim (g_log_filter E)
      in if filter_str = [] then None else Some (parse_filters (g_min_log_level E) filter_str Map.empty))"

definition CategoryActivated :: "log_vars \<Rightarrow> string \<Rightarrow> LogSeverity \<Rightarrow> bool" where
  "CategoryActivated E category severity =
     (case (g_enable_category_filter E, CreateFilterMaps E) of
        (True, Some maps) \<Rightarrow> (case maps category of None \<Rightarrow> False | Some level \<Rightarrow> level \<ge> severity_num severity)
      | _ \<Rightarrow> g_min_log_level E \<ge> severity_num severity)"

definition LogActivated :: "log_vars \<Rightarrow> string \<Rightarrow> LogSeverity \<Rightarrow> bool" where
  "LogActivated E category severity =
     (if g_enable_category_filter E then CategoryActivated E category severity else g_min_log_level E \<ge> severity_num severity)"

subsection \<open>The macros\<close>

text \<open>The counters of \<open>LOG_EVERY_N\<close> and \<open>LOG_FIRST_N\<close>: the new counter and whether the condition holds.\<close>

definition log_every_n :: "int \<Rightarrow> int \<Rightarrow> int \<times> bool" where
  "log_every_n N counter = (let c = counter + 1; c = (if c > N then c - N else c) in (c, c = 1))"

definition log_first_n :: "int \<Rightarrow> int \<Rightarrow> int \<times> bool" where
  "log_first_n N counter = (let c = counter + 1; c = (if c > N + 1 then c - 1 else c) in (c, c \<le> N))"

text \<open>\<open>CHECK(category, condition)\<close> passes \<open>(category)\<close> on, parentheses included, and that is what gets its name.\<close>

definition check_name :: "string \<Rightarrow> string" where
  "check_name category = ''('' @ category @ '')''"

end
