(* ===== verification/Log_Filter_Props.thy ===== *)
theory Log_Filter_Props
  imports Log_Filter
begin

text \<open>
  The filter means what its syntax says: a filter written out of categories and levels is read
  back, and decides which messages are active. \<open>CHECK\<close> asks it too, under a name no filter of
  plain categories contains.
\<close>

subsection \<open>Spaces\<close>

lemma trim_from_filter:
  "\<forall>x\<in>set (take i s). x \<noteq> CHR '' '' \<Longrightarrow> trim_from i s = filter (\<lambda>x. x \<noteq> CHR '' '') s"
proof (induction i s rule: trim_from.induct)
  case (1 i s)
  define j where "j = i + length (takeWhile (\<lambda>x. x \<noteq> CHR '' '') (drop i s))"
  have "take j s = take i s @ takeWhile (\<lambda>x. x \<noteq> CHR '' '') (drop i s)"
    by (simp add: j_def take_add flip: takeWhile_eq_take)
  then have pre: "\<forall>x\<in>set (take j s). x \<noteq> CHR '' ''" using "1.prems" by (auto dest: set_takeWhileD)
  show ?case
  proof (cases "j < length s")
    case False
    then have "\<forall>x\<in>set s. x \<noteq> CHR '' ''" using pre by simp
    moreover have "find_char CHR '' '' i s = None" using False by (simp add: find_char_def j_def)
    ultimately show ?thesis by (subst trim_from.simps) (simp add: filter_id_conv)
  next
    case True
    then have f: "find_char CHR '' '' i s = Some j" by (simp add: find_char_def j_def)
    have "length (takeWhile (\<lambda>x. x \<noteq> CHR '' '') (drop i s)) < length (drop i s)" "drop i s \<noteq> []" using True by (auto simp: j_def)
    then have "s ! j = CHR '' ''" using nth_length_takeWhile [of "\<lambda>x. x \<noteq> CHR '' ''" "drop i s"] by (simp add: j_def)
    then have s: "s = take j s @ CHR '' '' # drop (Suc j) s" using True by (metis id_take_nth_drop)
    have "trim_from i s = trim_from j (erase_at j s)" using f by (subst trim_from.simps) simp
    also have "\<dots> = filter (\<lambda>x. x \<noteq> CHR '' '') (erase_at j s)"
      using "1.IH" [OF f] pre True by (simp add: erase_at_def)
    also have "\<dots> = filter (\<lambda>x. x \<noteq> CHR '' '') s" using arg_cong [OF s, of "filter (\<lambda>x. x \<noteq> CHR '' '')"] by (simp add: erase_at_def)
    finally show ?thesis .
  qed
qed

lemma StringTrim_filter: "StringTrim s = filter (\<lambda>x. x \<noteq> CHR '' '') s"
  by (simp add: StringTrim_def trim_from_filter)

subsection \<open>Numbers\<close>

lemma of_char_digit: "n < 10 \<Longrightarrow> (of_char (digit_char n) :: nat) = 48 + n"
  by (simp add: digit_char_def of_char_of)

lemma digits_value_snoc: "digits_value (ds @ [c]) = 10 * digits_value ds + (of_char c - 48)"
  by (simp add: digits_value_def)

lemma nat_to_string_digits: "(\<forall>c\<in>set (nat_to_string n). is_digit c) \<and> digits_value (nat_to_string n) = n"
proof (induction n rule: nat_to_string.induct)
  case (1 n)
  have d: "is_digit (digit_char m)" if "m < 10" for m using that by (simp add: is_digit_def of_char_digit)
  show ?case
  proof (cases "n < 10")
    case True
    then show ?thesis using d [of n] by (simp add: nat_to_string.simps [of n] digits_value_def of_char_digit)
  next
    case False
    then show ?thesis using d [of "n mod 10"] 1
      by (subst (1 2) nat_to_string.simps) (simp add: digits_value_snoc of_char_digit)
  qed
qed

lemma digit_not_space: "is_digit c \<Longrightarrow> \<not> is_space c \<and> c \<noteq> CHR ''-'' \<and> c \<noteq> CHR ''+'' \<and> c \<noteq> CHR '','' \<and> c \<noteq> CHR '':'' \<and> c \<noteq> CHR '' ''"
  by (auto simp: is_digit_def is_space_def)

lemma takeWhile_digits: "\<forall>c\<in>set ds. is_digit c \<Longrightarrow> rest = [] \<or> \<not> is_digit (hd rest) \<Longrightarrow> takeWhile is_digit (ds @ rest) = ds"
  by (cases rest) (auto simp: takeWhile_append)

lemma strtol10_digits:
  assumes "\<forall>c\<in>set ds. is_digit c" and "ds \<noteq> []" and "rest = [] \<or> \<not> is_digit (hd rest)"
  shows "strtol10 (ds @ rest) = Some (max (- (2 ^ 63)) (min (2 ^ 63 - 1) (int (digits_value ds))))"
    and "strtol10 (CHR ''-'' # ds @ rest) = Some (max (- (2 ^ 63)) (min (2 ^ 63 - 1) (- int (digits_value ds))))"
proof -
  obtain c cs where ds: "ds = c # cs" using assms(2) by (cases ds) auto
  have c: "\<not> is_space c" "c \<noteq> CHR ''-''" "c \<noteq> CHR ''+''" "is_digit c" using assms(1) digit_not_space [of c] by (simp_all add: ds)
  note take = takeWhile_digits [OF assms(1,3)]
  show "strtol10 (ds @ rest) = Some (max (- (2 ^ 63)) (min (2 ^ 63 - 1) (int (digits_value ds))))"
    using take c by (simp add: strtol10_def ds)
  have "\<not> is_space (CHR ''-'')" by (simp add: is_space_def)
  then show "strtol10 (CHR ''-'' # ds @ rest) = Some (max (- (2 ^ 63)) (min (2 ^ 63 - 1) (- int (digits_value ds))))"
    using take c by (simp add: strtol10_def ds)
qed

lemma strtol10_print:
  assumes "- (2 ^ 63) \<le> n" "n < 2 ^ 63" and "rest = [] \<or> \<not> is_digit (hd rest)"
  shows "strtol10 (int_to_string n @ rest) = Some n"
proof -
  note d = nat_to_string_digits [THEN conjunct1] nat_to_string_nonempty assms(3)
  show ?thesis
    using assms(1,2) strtol10_digits [OF d, of "nat n"] strtol10_digits [OF d, of "nat (- n)"] nat_to_string_digits
    by (cases "n < 0") (simp_all add: int_to_string_def)
qed

lemma to_int_fits: "- (2 ^ 31) \<le> n \<Longrightarrow> n < 2 ^ 31 \<Longrightarrow> to_int n = n"
  by (simp add: to_int_def signed_of_int signed_take_bit_int_eq_self)

subsection \<open>Reading a filter back\<close>

text \<open>A filter as the documentation writes it: categories and levels, separated by commas.\<close>

fun print_filter :: "(string \<times> int) list \<Rightarrow> string" where
  "print_filter [] = ''''"
| "print_filter [(c, l)] = c @ '':'' @ int_to_string l"
| "print_filter ((c, l) # es) = c @ '':'' @ int_to_string l @ '','' @ print_filter es"

definition filter_entry_ok :: "string \<times> int \<Rightarrow> bool" where
  "filter_entry_ok e \<longleftrightarrow> (\<forall>x\<in>set (fst e). x \<noteq> CHR '':'' \<and> x \<noteq> CHR '','' \<and> x \<noteq> CHR '' '') \<and> - (2 ^ 31) \<le> snd e \<and> snd e < 2 ^ 31"

lemma strchr_app: "\<forall>x\<in>set s. x \<noteq> c \<Longrightarrow> strchr (s @ c # t) c = Some (c # t)"
  by (induction s) (simp_all add: strchr_def)

lemma strchr_none: "\<forall>x\<in>set s. x \<noteq> c \<Longrightarrow> strchr s c = None"
  by (induction s) (simp_all add: strchr_def)

lemma int_to_string_chars: "x \<in> set (int_to_string n) \<Longrightarrow> x \<noteq> CHR '':'' \<and> x \<noteq> CHR '','' \<and> x \<noteq> CHR '' ''"
  using nat_to_string_digits digit_not_space by (auto simp: int_to_string_def split: if_splits)

lemma scan_level_print:
  assumes "- (2 ^ 31) \<le> l" "l < 2 ^ 31" and "rest = [] \<or> \<not> is_digit (hd rest)"
  shows "scan_level (CHR '':'' # int_to_string l @ rest) = Some l"
proof -
  have "strtol10 (int_to_string l @ rest) = Some l" using assms by (intro strtol10_print) simp_all
  then show ?thesis using to_int_fits [OF assms(1,2)] by (simp add: scan_level_def)
qed

definition filter_map :: "(string \<times> int) list \<Rightarrow> filter_maps" where
  "filter_map es = map_of (map (\<lambda>(c, l). (map toupper c, l)) es)"

lemma first_wins: "(case m k of None \<Rightarrow> m(k \<mapsto> v) | Some _ \<Rightarrow> m) = [k \<mapsto> v] ++ m"
  by (auto simp: map_add_def split: option.split)

text \<open>One entry, followed by the end or by a comma and the other entries.\<close>

lemma parse_entry:
  assumes "filter_entry_ok (c, l)" and "rest = [] \<or> (\<exists>r. rest = CHR '','' # r)"
  shows "parse_filters min_level (c @ CHR '':'' # int_to_string l @ rest) maps =
    (case rest of [] \<Rightarrow> [map toupper c \<mapsto> l] ++ maps | _ # r \<Rightarrow> parse_filters min_level r ([map toupper c \<mapsto> l] ++ maps))"
proof -
  let ?sep = "CHR '':'' # int_to_string l @ rest"
  have colon: "strchr (c @ ?sep) (CHR '':'') = Some ?sep" using assms(1) by (intro strchr_app) (simp add: filter_entry_ok_def)
  have bounds: "- (2 ^ 31) \<le> l" "l < 2 ^ 31" using assms(1) by (simp_all add: filter_entry_ok_def)
  have "rest = [] \<or> \<not> is_digit (hd rest)" using assms(2) by (auto simp: is_digit_def)
  note level = scan_level_print [OF bounds this]
  have comma: "strchr ?sep (CHR '','') = (case rest of [] \<Rightarrow> None | _ \<Rightarrow> Some rest)"
  proof (cases rest)
    case Nil
    have "\<forall>x\<in>set (CHR '':'' # int_to_string l). x \<noteq> CHR '',''" using int_to_string_chars [of _ l] by auto
    from strchr_none [OF this] Nil show ?thesis by simp
  next
    case (Cons x r)
    then have rest: "rest = CHR '','' # r" using assms(2) by auto
    have "\<forall>x\<in>set (CHR '':'' # int_to_string l). x \<noteq> CHR '',''" using int_to_string_chars [of _ l] by auto
    from strchr_app [OF this, of r] rest show ?thesis by simp
  qed
  show ?thesis
    using assms(2) by (subst parse_filters.simps) (auto simp: colon level comma Let_def first_wins split: list.split)
qed

lemma parse_print:
  assumes "\<forall>e\<in>set es. filter_entry_ok e"
  shows "parse_filters min_level (print_filter es) maps = filter_map es ++ maps"
  using assms
proof (induction es arbitrary: maps rule: print_filter.induct)
  case 1
  then show ?case by (simp add: parse_filters.simps [of _ "''''"] strchr_def filter_map_def)
next
  case (2 c l)
  then show ?case using parse_entry [of c l "[]"] by (simp add: filter_map_def fun_upd_def)
next
  case (3 c l e es)
  then show ?case using parse_entry [of c l "'','' @ print_filter (e # es)"] by (auto simp: filter_map_def fun_eq_iff map_add_def split: option.split prod.splits)
qed

lemma print_filter_empty: "print_filter es = [] \<longleftrightarrow> es = []"
  by (induction es rule: print_filter.induct) simp_all

lemma filter_maps_read:
  assumes "\<forall>e\<in>set es. filter_entry_ok e" and "es \<noteq> []" and "EDK_LOG_FILTER E = Some s"
    and "filter (\<lambda>x. x \<noteq> CHR '' '') s = print_filter es"
  shows "CreateFilterMaps E = Some (filter_map es)"
  using assms(2-4) parse_print [OF assms(1)]
  by (simp add: CreateFilterMaps_def g_log_filter_def StringTrim_filter print_filter_empty)

text \<open>C38: A filter written as the documentation says, with blanks anywhere in it, is read back as written: a
  category is active at a severity exactly when the first entry of its name, in upper case, gives a
  level at or above it; a category without an entry is never active.\<close>

theorem log_filter_roundtrip:
  assumes "\<forall>e\<in>set es. filter_entry_ok e" and "es \<noteq> []" and "EDK_LOG_FILTER E = Some s"
    and "filter (\<lambda>x. x \<noteq> CHR '' '') s = print_filter es"
  shows "CreateFilterMaps E = Some (map_of (map (\<lambda>(c, l). (map toupper c, l)) es)) \<and>
    (LogActivated E category severity \<longleftrightarrow>
      (\<exists>l. map_of (map (\<lambda>(c, l). (map toupper c, l)) es) category = Some l \<and> severity_num severity \<le> l))"
  using filter_maps_read [OF assms] assms(3)
  by (auto simp: LogActivated_def CategoryActivated_def g_enable_category_filter_def filter_map_def split: option.split)

lemma log_filter_roundtrip_witness:
  "LogActivated \<lparr>EDK_LOG_LEVEL = None, EDK_LOG_FILTER = Some ''infer: 5,DECODE :-1''\<rparr> ''INFER'' LOG_TRACE \<and>
   \<not> LogActivated \<lparr>EDK_LOG_LEVEL = None, EDK_LOG_FILTER = Some ''infer: 5,DECODE :-1''\<rparr> ''DECODE'' LOG_FATAL"
proof -
  let ?es = "[(''infer'', 5), (''DECODE'', -1)] :: (string \<times> int) list"
  have "\<forall>e\<in>set ?es. filter_entry_ok e" by (simp add: filter_entry_ok_def)
  moreover have "filter (\<lambda>x. x \<noteq> CHR '' '') ''infer: 5,DECODE :-1'' = print_filter ?es"
    by code_simp
  moreover have "map (\<lambda>(c, l). (map toupper c, l)) ?es = [(''INFER'', 5), (''DECODE'', -1)]" by code_simp
  ultimately show ?thesis
    using log_filter_roundtrip [of ?es "\<lparr>EDK_LOG_LEVEL = None, EDK_LOG_FILTER = Some ''infer: 5,DECODE :-1''\<rparr>" "''infer: 5,DECODE :-1''"]
    by (simp del: list.map)
qed

subsection \<open>The name of \<open>CHECK\<close>\<close>

lemma toupper_paren: "toupper x = CHR ''('' \<longleftrightarrow> x = CHR ''(''"
proof -
  have "toupper x \<noteq> CHR ''(''" if "97 \<le> (of_char x :: nat)" "(of_char x :: nat) \<le> 122"
  proof
    assume "toupper x = CHR ''(''"
    then have "char_of ((of_char x :: nat) - 32) = CHR ''(''" using that by (simp add: toupper_def)
    then have "of_char (char_of ((of_char x :: nat) - 32)) = (40 :: nat)" by simp
    then show False using that by simp
  qed
  then show ?thesis by (auto simp: toupper_def)
qed

text \<open>No filter of plain categories has an entry for it.\<close>

lemma check_not_active:
  assumes "\<forall>e\<in>set es. filter_entry_ok e \<and> CHR ''('' \<notin> set (fst e)" and "es \<noteq> []" and "EDK_LOG_FILTER E = Some s"
    and "filter (\<lambda>x. x \<noteq> CHR '' '') s = print_filter es"
  shows "\<not> CategoryActivated E (check_name category) severity"
proof -
  have "filter_map es (check_name category) = None"
  proof (rule ccontr)
    assume "filter_map es (check_name category) \<noteq> None"
    then obtain c l where "(c, l) \<in> set es" "map toupper c = check_name category"
      by (fastforce simp: filter_map_def dest: map_of_SomeD)
    then have "CHR ''('' \<in> toupper ` set c" "CHR ''('' \<notin> set c"
      using assms(1) by (fastforce simp: check_name_def simp flip: set_map)+
    then show False using toupper_paren by (metis imageE)
  qed
  moreover have "CreateFilterMaps E = Some (filter_map es)" using assms by (intro filter_maps_read) auto
  ultimately show ?thesis using assms(3) by (simp add: CategoryActivated_def g_enable_category_filter_def)
qed

subsection \<open>Once in a while\<close>

text \<open>The conditions of the first \<open>k\<close> executions of a macro.\<close>

fun executions :: "(int \<Rightarrow> int \<times> bool) \<Rightarrow> nat \<Rightarrow> int \<Rightarrow> bool list" where
  "executions f 0 c = []"
| "executions f (Suc k) c = snd (f c) # executions f k (fst (f c))"

lemma executions_first_n: "0 \<le> c \<Longrightarrow> c \<le> N + 1 \<Longrightarrow> executions (log_first_n N) k c = map (\<lambda>i. c + int i < N) [0..<k]"
proof (induction k arbitrary: c)
  case (Suc k)
  have upt: "[0..<Suc k] = 0 # map Suc [0..<k]" by (simp add: upt_conv_Cons map_Suc_upt)
  show ?case
  proof (cases "c = N + 1")
    case True
    then have "log_first_n N c = (c, False)" by (simp add: log_first_n_def)
    then show ?thesis using Suc.IH [of c] Suc.prems True unfolding upt by (auto simp: o_def)
  next
    case False
    then have "log_first_n N c = (c + 1, c < N)" using Suc.prems by (auto simp: log_first_n_def Let_def)
    then show ?thesis using Suc.IH [of "c + 1"] Suc.prems False unfolding upt by (auto simp: o_def)
  qed
qed simp

end
