(* ===== verification/Log_File.thy ===== *)
theory Log_File
  imports Prelude
begin

text \<open>
  The log file (class \<open>LogFile\<close> of easydk/src/cxxutil/log.cpp): a queue of messages that the
  program fills and a thread empties, into files that are replaced by new ones when they are full,
  the ten newest being kept. The steps of the thread and of the program interleave at the
  accesses to the queue and to the flags. What the C library answers is an argument of each step.
  \<open>None\<close> is undefined behaviour: writing to no file.
\<close>

subsection \<open>State\<close>

record tm =
  tm_year :: int
  tm_mon :: int
  tm_mday :: int
  tm_hour :: int
  tm_min :: int
  tm_sec :: int

text \<open>Where the thread is: before its loop, in it, asleep because the disk is full, in the final loop, ended.\<close>

datatype lf_pc = LF_Start | LF_Loop | LF_Sleep | LF_Drain | LF_Done

text \<open>
  \<open>lf_file\<close> is the path of the open file, \<open>lf_disk\<close> the content of every log file, \<open>lf_enospc\<close>
  whether \<open>errno\<close> of the thread is \<open>ENOSPC\<close>. Two fields only record history: \<open>lf_accepted\<close> the
  messages that entered the queue, \<open>lf_written\<close> those written, each with its file.
\<close>

record LogFile =
  lf_dir :: string
  lf_file :: "string option"
  lf_len :: nat
  lf_max :: nat
  lf_paths :: "string list"
  lf_msgq :: "string list"
  lf_stop :: bool
  lf_force :: bool
  lf_exit :: bool
  lf_bytes :: nat
  lf_next_flush :: nat
  lf_enospc :: bool
  lf_disk :: "string \<Rightarrow> string option"
  lf_link :: "(string \<times> string) option"
  lf_at :: lf_pc
  lf_accepted :: "string list"
  lf_written :: "(string \<times> string) list"

text \<open>
  The answers one step of the thread may need: the time, whether a file can be opened, what \<open>errno\<close>
  is after a call that failed, whether the disk is full.
\<close>

record lf_answer =
  an_tm :: tm
  an_usecs :: int
  an_clock :: nat
  an_open :: bool
  an_create_errno :: "bool option"
  an_full :: bool
  an_now :: nat
  an_flush_errno :: "bool option"
  an_interval :: nat

definition LogFile_new :: "string \<Rightarrow> nat \<Rightarrow> (string \<Rightarrow> string option) \<Rightarrow> LogFile" where
  "LogFile_new file_dir max_file_len disk =
     \<lparr>lf_dir = file_dir, lf_file = None, lf_len = 0, lf_max = max_file_len, lf_paths = [], lf_msgq = [], lf_stop = False,
      lf_force = False, lf_exit = False, lf_bytes = 0, lf_next_flush = 0, lf_enospc = False, lf_disk = disk, lf_link = None,
      lf_at = LF_Start, lf_accepted = [], lf_written = []\<rparr>"

subsection \<open>The program's side\<close>

definition LogFile_Write :: "string \<Rightarrow> bool \<Rightarrow> LogFile \<Rightarrow> LogFile" where
  "LogFile_Write msg force_flush f =
     (if force_flush then f\<lparr>lf_stop := True, lf_force := True\<rparr>
      else if \<not> lf_stop f then f\<lparr>lf_msgq := lf_msgq f @ [msg], lf_accepted := lf_accepted f @ [msg]\<rparr>
      else f)"

text \<open>The destructor up to its wait for the thread; the thread can run between the two.\<close>

definition LogFile_stop :: "LogFile \<Rightarrow> LogFile" where "LogFile_stop f = f\<lparr>lf_stop := True\<rparr>"

definition LogFile_exit :: "LogFile \<Rightarrow> LogFile" where "LogFile_exit f = f\<lparr>lf_exit := True\<rparr>"

subsection \<open>Creating a file\<close>

text \<open>\<open>std::setw\<close> and the fill character.\<close>

definition pad :: "nat \<Rightarrow> char \<Rightarrow> string \<Rightarrow> string" where
  "pad w c s = replicate (w - length s) c @ s"

definition setw0 :: "nat \<Rightarrow> int \<Rightarrow> string" where
  "setw0 w n = pad w (CHR ''0'') (int_to_string n)"

definition log_file_name :: "tm \<Rightarrow> int \<Rightarrow> string" where
  "log_file_name t usecs =
     ''edk_'' @ int_to_string (1900 + tm_year t) @ setw0 2 (1 + tm_mon t) @ setw0 2 (tm_mday t) @ ''-'' @
     setw0 2 (tm_hour t) @ setw0 2 (tm_min t) @ setw0 2 (tm_sec t) @ ''.'' @ setw0 6 usecs @ ''.log''"

definition log_dir :: "string \<Rightarrow> string" where
  "log_dir dir = (if dir \<noteq> [] then if last dir = CHR ''/'' then dir else dir @ ''/'' else ''/tmp/'')"

definition set_errno :: "bool option \<Rightarrow> LogFile \<Rightarrow> LogFile" where
  "set_errno e f = (case e of None \<Rightarrow> f | Some full \<Rightarrow> f\<lparr>lf_enospc := full\<rparr>)"

definition CreateLogFile :: "lf_answer \<Rightarrow> LogFile \<Rightarrow> LogFile \<times> bool" where
  "CreateLogFile a f =
     (let name = log_file_name (an_tm a) (an_usecs a); filepath = log_dir (lf_dir f) @ name; f = set_errno (an_create_errno a) (f\<lparr>lf_file := None\<rparr>)
      in if \<not> an_open a then (f, False)
         else let f = f\<lparr>lf_file := Some filepath, lf_disk := (lf_disk f)(filepath \<mapsto> ''''), lf_bytes := 0,
                        lf_next_flush := an_clock a + an_interval a * 1000000\<rparr>;
                  f = (if 10 \<le> length (lf_paths f)
                       then f\<lparr>lf_disk := (lf_disk f)(hd (lf_paths f) := None), lf_paths := tl (lf_paths f)\<rparr> else f)
              in (f\<lparr>lf_paths := lf_paths f @ [filepath], lf_link := Some (log_dir (lf_dir f) @ ''edk.log'', name)\<rparr>, True))"

subsection \<open>The thread's side\<close>

definition LogFile_Flush :: "lf_answer \<Rightarrow> LogFile \<Rightarrow> LogFile" where
  "LogFile_Flush a f =
     (let f = (if lf_file f \<noteq> None then set_errno (an_flush_errno a) (f\<lparr>lf_bytes := 0\<rparr>) else f)
      in f\<lparr>lf_next_flush := an_now a + an_interval a * 1000000\<rparr>)"

definition flush_if_due :: "lf_answer \<Rightarrow> LogFile \<Rightarrow> LogFile" where
  "flush_if_due a f = (if 1000000 \<le> lf_bytes f \<or> lf_next_flush f \<le> an_now a then LogFile_Flush a f else f)"

text \<open>\<open>fwrite\<close>: a full disk takes nothing and sets \<open>errno\<close>; a success leaves \<open>errno\<close> as it is.\<close>

definition fwrite_msg :: "lf_answer \<Rightarrow> string \<Rightarrow> LogFile \<Rightarrow> LogFile option" where
  "fwrite_msg a msg f =
     (case lf_file f of None \<Rightarrow> None
      | Some p \<Rightarrow>
          if an_full a then Some (f\<lparr>lf_enospc := True\<rparr>)
          else Some (f\<lparr>lf_disk := (lf_disk f)(p := map_option (\<lambda>c. c @ msg) (lf_disk f p)), lf_written := lf_written f @ [(p, msg)]\<rparr>))"

text \<open>A new file where the current one is too long: the second component says whether there is a file.\<close>

definition lf_rotate :: "lf_answer \<Rightarrow> LogFile \<Rightarrow> LogFile \<times> bool" where
  "lf_rotate a f =
     (if lf_len f > lf_max f
      then let (f, ok) = CreateLogFile a f in if ok then (f\<lparr>lf_len := 0\<rparr>, True) else (f, False)
      else (f, True))"

text \<open>One round of the main loop.\<close>

definition loop_step :: "lf_answer \<Rightarrow> LogFile \<Rightarrow> LogFile option" where
  "loop_step a f =
     (if lf_stop f then Some (f\<lparr>lf_at := LF_Drain\<rparr>)
      else case lf_msgq f of [] \<Rightarrow> Some (flush_if_due a f)
      | msg # q \<Rightarrow>
          (case lf_rotate a (f\<lparr>lf_msgq := q\<rparr>) of
             (f, False) \<Rightarrow> Some (f\<lparr>lf_stop := True, lf_at := LF_Done\<rparr>)
           | (f, True) \<Rightarrow>
               (case fwrite_msg a msg f of None \<Rightarrow> None
                | Some f \<Rightarrow>
                    if lf_enospc f then Some (f\<lparr>lf_stop := True, lf_at := LF_Sleep\<rparr>)
                    else Some (flush_if_due a (f\<lparr>lf_len := lf_len f + length msg, lf_bytes := lf_bytes f + length msg\<rparr>)))))"

text \<open>The end of the sleep: by timeout, unless the destructor asked to end.\<close>

definition wake_step :: "lf_answer \<Rightarrow> LogFile \<Rightarrow> LogFile option" where
  "wake_step a f =
     (if \<not> lf_exit f then Some (f\<lparr>lf_stop := False, lf_at := LF_Loop\<rparr>) else Some ((flush_if_due a f)\<lparr>lf_at := LF_Loop\<rparr>))"

text \<open>One round of the final loop, and what follows it.\<close>

definition drain_step :: "lf_answer \<Rightarrow> LogFile \<Rightarrow> LogFile option" where
  "drain_step a f =
     (if lf_force f \<or> lf_msgq f = []
      then if lf_file f = None then None else Some (f\<lparr>lf_file := None, lf_at := LF_Done\<rparr>)
      else let msg = hd (lf_msgq f)
           in case lf_rotate a (f\<lparr>lf_msgq := tl (lf_msgq f)\<rparr>) of
                (f, False) \<Rightarrow> Some (f\<lparr>lf_at := LF_Done\<rparr>)
              | (f, True) \<Rightarrow>
                  (case fwrite_msg a msg f of None \<Rightarrow> None
                   | Some f \<Rightarrow>
                       if lf_enospc f then Some (f\<lparr>lf_file := None, lf_at := LF_Done\<rparr>)
                       else Some (f\<lparr>lf_len := lf_len f + length msg\<rparr>)))"

definition WriteFileLoop :: "lf_answer \<Rightarrow> LogFile \<Rightarrow> LogFile option" where
  "WriteFileLoop a f =
     (case lf_at f of
        LF_Start \<Rightarrow> (case CreateLogFile a f of
            (f, False) \<Rightarrow> Some (f\<lparr>lf_stop := True, lf_at := LF_Done\<rparr>)
          | (f, True) \<Rightarrow> Some (f\<lparr>lf_at := LF_Loop\<rparr>))
      | LF_Loop \<Rightarrow> loop_step a f
      | LF_Sleep \<Rightarrow> wake_step a f
      | LF_Drain \<Rightarrow> drain_step a f
      | LF_Done \<Rightarrow> Some f)"

subsection \<open>Both sides\<close>

datatype lf_act = LA_Write string bool | LA_Stop | LA_Exit | LA_Thread lf_answer

fun lf_do :: "lf_act \<Rightarrow> LogFile \<Rightarrow> LogFile option" where
  "lf_do (LA_Write msg force) f = Some (LogFile_Write msg force f)"
| "lf_do LA_Stop f = Some (LogFile_stop f)"
| "lf_do LA_Exit f = Some (LogFile_exit f)"
| "lf_do (LA_Thread a) f = WriteFileLoop a f"

fun lf_run :: "lf_act list \<Rightarrow> LogFile \<Rightarrow> LogFile option" where
  "lf_run [] f = Some f"
| "lf_run (c # cs) f = (case lf_do c f of None \<Rightarrow> None | Some f \<Rightarrow> lf_run cs f)"

end
