(* ===== verification/Log_File_Props.thy ===== *)
theory Log_File_Props
  imports Log_File "HOL-Library.Sublist"
begin

text \<open>
  The log file under every interleaving of the program and its thread: what is written is what was
  logged, in its order; when nothing fails, all of it; and what happens when the program ends in
  the middle.
\<close>

subsection \<open>The invariant\<close>

text \<open>The open file holds exactly the last messages that were written, unless its name was reused and unlinked.\<close>

definition content_ok :: "LogFile \<Rightarrow> bool" where
  "content_ok f \<longleftrightarrow> (\<forall>p c. lf_file f = Some p \<longrightarrow> lf_disk f p = Some c \<longrightarrow>
     (\<exists>xs ys. lf_written f = xs @ ys \<and> c = concat (map snd ys) \<and> (\<forall>y\<in>set ys. fst y = p)))"

definition lf_inv :: "LogFile \<Rightarrow> bool" where
  "lf_inv f \<longleftrightarrow> length (lf_paths f) \<le> 10 \<and> (lf_at f \<in> {LF_Loop, LF_Sleep, LF_Drain} \<longleftrightarrow> lf_file f \<noteq> None) \<and>
     (\<forall>p. lf_file f = Some p \<longrightarrow> lf_paths f \<noteq> [] \<and> last (lf_paths f) = p) \<and> content_ok f \<and>
     subseq (map snd (lf_written f) @ lf_msgq f) (lf_accepted f)"

lemma set_errno_sel [simp]:
  "lf_dir (set_errno e f) = lf_dir f" "lf_file (set_errno e f) = lf_file f" "lf_len (set_errno e f) = lf_len f" "lf_max (set_errno e f) = lf_max f"
  "lf_paths (set_errno e f) = lf_paths f" "lf_msgq (set_errno e f) = lf_msgq f" "lf_stop (set_errno e f) = lf_stop f"
  "lf_force (set_errno e f) = lf_force f" "lf_exit (set_errno e f) = lf_exit f" "lf_disk (set_errno e f) = lf_disk f"
  "lf_at (set_errno e f) = lf_at f" "lf_accepted (set_errno e f) = lf_accepted f" "lf_written (set_errno e f) = lf_written f"
  "lf_bytes (set_errno e f) = lf_bytes f"
  by (simp_all add: set_errno_def split: option.split)

lemma flush_if_due_sel [simp]:
  "lf_dir (flush_if_due a f) = lf_dir f" "lf_file (flush_if_due a f) = lf_file f" "lf_len (flush_if_due a f) = lf_len f" "lf_max (flush_if_due a f) = lf_max f"
  "lf_paths (flush_if_due a f) = lf_paths f" "lf_msgq (flush_if_due a f) = lf_msgq f" "lf_stop (flush_if_due a f) = lf_stop f"
  "lf_force (flush_if_due a f) = lf_force f" "lf_exit (flush_if_due a f) = lf_exit f" "lf_disk (flush_if_due a f) = lf_disk f"
  "lf_at (flush_if_due a f) = lf_at f" "lf_accepted (flush_if_due a f) = lf_accepted f" "lf_written (flush_if_due a f) = lf_written f"
  by (simp_all add: flush_if_due_def LogFile_Flush_def Let_def)

lemma lf_inv_flush [simp]: "lf_inv (flush_if_due a f) = lf_inv f"
  by (simp add: lf_inv_def content_ok_def)

text \<open>What creating a file changes.\<close>

lemma CreateLogFile_cases:
  assumes "CreateLogFile a f = (g, ok)"
  obtains (opened) p where "ok" "an_open a" "lf_file g = Some p" "lf_disk g p \<in> {None, Some ''''}" "lf_paths g \<noteq> []" "last (lf_paths g) = p"
      "length (lf_paths f) \<le> 10 \<Longrightarrow> length (lf_paths g) \<le> 10"
    | (failed) "\<not> ok" "\<not> an_open a" "lf_file g = None" "lf_paths g = lf_paths f"
  using assms that by (cases "an_open a") (auto simp: CreateLogFile_def Let_def)

lemma CreateLogFile_sel:
  assumes "CreateLogFile a f = (g, ok)"
  shows "lf_msgq g = lf_msgq f" "lf_stop g = lf_stop f" "lf_force g = lf_force f" "lf_exit g = lf_exit f" "lf_at g = lf_at f"
    "lf_accepted g = lf_accepted f" "lf_written g = lf_written f" "lf_len g = lf_len f" "lf_max g = lf_max f" "lf_dir g = lf_dir f"
  using assms by (auto simp: CreateLogFile_def Let_def split: if_splits)

lemma content_empty: "lf_disk f p \<in> {None, Some ''''} \<Longrightarrow> lf_file f = Some p \<Longrightarrow> content_ok f"
  unfolding content_ok_def by (intro allI impI exI [of _ "lf_written f"] exI [of _ "[]"]) auto

text \<open>Rotation keeps the invariant of a file that is open, or closes it.\<close>

definition file_ok :: "LogFile \<Rightarrow> bool" where
  "file_ok f \<longleftrightarrow> length (lf_paths f) \<le> 10 \<and> content_ok f \<and> (\<exists>p. lf_file f = Some p \<and> lf_paths f \<noteq> [] \<and> last (lf_paths f) = p)"

lemma CreateLogFile_ok:
  assumes "CreateLogFile a f = (g, ok)" and "length (lf_paths f) \<le> 10"
  shows "ok \<Longrightarrow> file_ok g" and "\<not> ok \<Longrightarrow> lf_file g = None \<and> length (lf_paths g) \<le> 10" and "ok = an_open a"
  using assms by (cases rule: CreateLogFile_cases [OF assms(1)]; auto simp: file_ok_def intro: content_empty)+

lemma rotate_ok:
  assumes "lf_rotate a f = (g, ok)" and "file_ok f"
  shows "ok \<Longrightarrow> file_ok g" and "\<not> ok \<Longrightarrow> lf_file g = None \<and> length (lf_paths g) \<le> 10 \<and> \<not> an_open a"
    and "lf_msgq g = lf_msgq f" "lf_stop g = lf_stop f" "lf_force g = lf_force f" "lf_exit g = lf_exit f" "lf_at g = lf_at f"
    "lf_accepted g = lf_accepted f" "lf_written g = lf_written f"
proof -
  have "(ok \<longrightarrow> file_ok g) \<and> (\<not> ok \<longrightarrow> lf_file g = None \<and> length (lf_paths g) \<le> 10 \<and> \<not> an_open a) \<and>
    lf_msgq g = lf_msgq f \<and> lf_stop g = lf_stop f \<and> lf_force g = lf_force f \<and> lf_exit g = lf_exit f \<and> lf_at g = lf_at f \<and>
    lf_accepted g = lf_accepted f \<and> lf_written g = lf_written f"
  proof (cases "lf_max f < lf_len f")
    case False
    then show ?thesis using assms by (auto simp: lf_rotate_def)
  next
    case True
    obtain h k where c: "CreateLogFile a f = (h, k)" by fastforce
    have "length (lf_paths f) \<le> 10" using assms(2) by (simp add: file_ok_def)
    note h = CreateLogFile_ok [OF c this] CreateLogFile_sel [OF c]
    have "file_ok (h\<lparr>lf_len := 0\<rparr>) = file_ok h" by (simp add: file_ok_def content_ok_def)
    then show ?thesis using assms(1) True h c by (auto simp: lf_rotate_def split: if_splits)
  qed
  then show "ok \<Longrightarrow> file_ok g" and "\<not> ok \<Longrightarrow> lf_file g = None \<and> length (lf_paths g) \<le> 10 \<and> \<not> an_open a"
    and "lf_msgq g = lf_msgq f" "lf_stop g = lf_stop f" "lf_force g = lf_force f" "lf_exit g = lf_exit f" "lf_at g = lf_at f"
    "lf_accepted g = lf_accepted f" "lf_written g = lf_written f" by blast+
qed

lemma fwrite_ok:
  assumes "file_ok f"
  obtains g where "fwrite_msg a msg f = Some g" "file_ok g" "lf_msgq g = lf_msgq f" "lf_stop g = lf_stop f" "lf_force g = lf_force f"
    "lf_exit g = lf_exit f" "lf_at g = lf_at f" "lf_accepted g = lf_accepted f" "lf_file g = lf_file f"
    "if an_full a then lf_written g = lf_written f \<and> lf_enospc g else (\<exists>p. lf_written g = lf_written f @ [(p, msg)]) \<and> lf_enospc g = lf_enospc f"
proof (cases "an_full a")
  case True
  have "file_ok (f\<lparr>lf_enospc := True\<rparr>)" using assms by (simp add: file_ok_def content_ok_def)
  then show ?thesis using assms True by (intro that [of "f\<lparr>lf_enospc := True\<rparr>"]) (auto simp: fwrite_msg_def file_ok_def)
next
  case False
  obtain p where p: "lf_file f = Some p" using assms by (auto simp: file_ok_def)
  let ?g = "f\<lparr>lf_disk := (lf_disk f)(p := map_option (\<lambda>c. c @ msg) (lf_disk f p)), lf_written := lf_written f @ [(p, msg)]\<rparr>"
  have "content_ok ?g"
  proof -
    have "\<exists>xs ys. lf_written f @ [(p, msg)] = xs @ ys \<and> c @ msg = concat (map snd ys) \<and> (\<forall>y\<in>set ys. fst y = p)" if c: "lf_disk f p = Some c" for c
    proof -
      obtain xs ys where "lf_written f = xs @ ys" "c = concat (map snd ys)" "\<forall>y\<in>set ys. fst y = p"
        using assms p c unfolding file_ok_def content_ok_def by blast
      then show ?thesis by (intro exI [of _ xs] exI [of _ "ys @ [(p, msg)]"]) auto
    qed
    then show ?thesis using p by (auto simp: content_ok_def)
  qed
  then show ?thesis using assms False p by (intro that [of ?g]) (auto simp: fwrite_msg_def file_ok_def)
qed

text \<open>One round that takes a message: it keeps the file, and writes the message, loses it to a full disk, or ends.\<close>

lemma subseq_lose: "subseq (xs @ m # ys) zs \<Longrightarrow> subseq (xs @ ys) zs"
  by (rule subseq_order.order_trans [of _ "xs @ m # ys"]) (auto intro: list_emb_append_mono)

lemma lf_inv_alt: "lf_inv f \<longleftrightarrow> (if lf_at f \<in> {LF_Loop, LF_Sleep, LF_Drain} then file_ok f else lf_file f = None \<and> length (lf_paths f) \<le> 10) \<and>
    subseq (map snd (lf_written f) @ lf_msgq f) (lf_accepted f)"
  by (cases "lf_file f") (auto simp: lf_inv_def file_ok_def content_ok_def)

lemma file_ok_upd [simp]:
  "file_ok (f\<lparr>lf_stop := b\<rparr>) = file_ok f" "file_ok (f\<lparr>lf_at := x\<rparr>) = file_ok f" "file_ok (f\<lparr>lf_msgq := q\<rparr>) = file_ok f"
  "file_ok (f\<lparr>lf_len := n\<rparr>) = file_ok f" "file_ok (f\<lparr>lf_bytes := n\<rparr>) = file_ok f" "file_ok (f\<lparr>lf_force := b\<rparr>) = file_ok f"
  "file_ok (f\<lparr>lf_exit := b\<rparr>) = file_ok f" "file_ok (f\<lparr>lf_accepted := q\<rparr>) = file_ok f" "file_ok (flush_if_due a f) = file_ok f"
  by (simp_all add: file_ok_def content_ok_def)

lemma loop_step_inv:
  assumes "lf_inv f" and "lf_at f = LF_Loop"
  shows "\<exists>g. loop_step a f = Some g \<and> lf_inv g"
proof (cases "lf_stop f \<or> lf_msgq f = []")
  case True
  then show ?thesis using assms by (auto simp: loop_step_def lf_inv_alt split: list.split)
next
  case False
  then obtain msg q where q: "lf_msgq f = msg # q" "\<not> lf_stop f" by (cases "lf_msgq f") auto
  have f: "file_ok (f\<lparr>lf_msgq := q\<rparr>)" "subseq (map snd (lf_written f) @ msg # q) (lf_accepted f)"
    using assms q by (simp_all add: lf_inv_alt)
  note lose = subseq_lose [OF f(2)]
  obtain h ok where r: "lf_rotate a (f\<lparr>lf_msgq := q\<rparr>) = (h, ok)" by fastforce
  note h = rotate_ok [OF r f(1)]
  show ?thesis
  proof (cases ok)
    case False
    then show ?thesis using h q r lose by (simp add: loop_step_def lf_inv_alt)
  next
    case True
    with h(1) have "file_ok h" by simp
    then obtain g where g: "fwrite_msg a msg h = Some g" "file_ok g" "lf_msgq g = lf_msgq h" "lf_stop g = lf_stop h" "lf_force g = lf_force h"
      "lf_exit g = lf_exit h" "lf_at g = lf_at h" "lf_accepted g = lf_accepted h" "lf_file g = lf_file h"
      "if an_full a then lf_written g = lf_written h \<and> lf_enospc g else (\<exists>p. lf_written g = lf_written h @ [(p, msg)]) \<and> lf_enospc g = lf_enospc h"
      by (rule fwrite_ok)
    have "subseq (map snd (lf_written g) @ lf_msgq g) (lf_accepted g)"
      using g h q f(2) lose by (cases "an_full a") auto
    then show ?thesis using r True q g h assms(2) by (auto simp: loop_step_def lf_inv_alt)
  qed
qed

lemma drain_step_inv:
  assumes "lf_inv f" and "lf_at f = LF_Drain"
  shows "\<exists>g. drain_step a f = Some g \<and> lf_inv g"
proof (cases "lf_force f \<or> lf_msgq f = []")
  case True
  then show ?thesis using assms by (auto simp: drain_step_def lf_inv_alt file_ok_def)
next
  case False
  then obtain msg q where q: "lf_msgq f = msg # q" "\<not> lf_force f" by (cases "lf_msgq f") auto
  have f: "file_ok (f\<lparr>lf_msgq := q\<rparr>)" "subseq (map snd (lf_written f) @ msg # q) (lf_accepted f)"
    using assms q by (simp_all add: lf_inv_alt)
  note lose = subseq_lose [OF f(2)]
  obtain h ok where r: "lf_rotate a (f\<lparr>lf_msgq := q\<rparr>) = (h, ok)" by fastforce
  note h = rotate_ok [OF r f(1)]
  show ?thesis
  proof (cases ok)
    case False
    then show ?thesis using h q r lose by (simp add: drain_step_def lf_inv_alt)
  next
    case True
    with h(1) have "file_ok h" by simp
    then obtain g where g: "fwrite_msg a msg h = Some g" "file_ok g" "lf_msgq g = lf_msgq h" "lf_stop g = lf_stop h" "lf_force g = lf_force h"
      "lf_exit g = lf_exit h" "lf_at g = lf_at h" "lf_accepted g = lf_accepted h" "lf_file g = lf_file h"
      "if an_full a then lf_written g = lf_written h \<and> lf_enospc g else (\<exists>p. lf_written g = lf_written h @ [(p, msg)]) \<and> lf_enospc g = lf_enospc h"
      by (rule fwrite_ok)
    have "subseq (map snd (lf_written g) @ lf_msgq g) (lf_accepted g)"
      using g h q f(2) lose by (cases "an_full a") auto
    moreover have "length (lf_paths g) \<le> 10" using g(2) by (simp add: file_ok_def)
    ultimately show ?thesis using r True q g h assms(2) by (auto simp: drain_step_def lf_inv_alt)
  qed
qed

lemma lf_inv_do:
  assumes "lf_inv f"
  shows "\<exists>g. lf_do c f = Some g \<and> lf_inv g"
proof (cases c)
  case (LA_Write msg force)
  have "subseq (map snd (lf_written f) @ lf_msgq f @ [msg]) (lf_accepted f @ [msg])"
    using assms list_emb_append_mono [of "(=)" "map snd (lf_written f) @ lf_msgq f" "lf_accepted f" "[msg]" "[msg]"] by (simp add: lf_inv_alt)
  then show ?thesis using assms LA_Write by (simp add: LogFile_Write_def lf_inv_alt)
next
  case (LA_Thread a)
  consider "lf_at f = LF_Start" | "lf_at f = LF_Loop" | "lf_at f = LF_Sleep" | "lf_at f = LF_Drain" | "lf_at f = LF_Done" by (cases "lf_at f")
  then show ?thesis
  proof cases
    case 1
    obtain g ok where c: "CreateLogFile a f = (g, ok)" by fastforce
    have "length (lf_paths f) \<le> 10" using assms 1 by (simp add: lf_inv_alt)
    note g = CreateLogFile_ok [OF c this] CreateLogFile_sel [OF c]
    show ?thesis using assms 1 g c LA_Thread by (cases ok) (simp_all add: WriteFileLoop_def lf_inv_alt)
  next
    case 3
    then show ?thesis using assms LA_Thread by (simp add: WriteFileLoop_def wake_step_def lf_inv_alt)
  qed (use assms LA_Thread loop_step_inv drain_step_inv in \<open>simp_all add: WriteFileLoop_def\<close>)
qed (use assms in \<open>simp_all add: LogFile_stop_def LogFile_exit_def lf_inv_alt\<close>)

lemma lf_inv_run: "lf_inv f \<Longrightarrow> \<exists>g. lf_run cs f = Some g \<and> lf_inv g"
proof (induction cs arbitrary: f)
  case (Cons c cs)
  from lf_inv_do [OF Cons.prems, of c] obtain g where "lf_do c f = Some g" "lf_inv g" by blast
  then show ?case using Cons.IH by simp
qed simp

lemma lf_inv_new: "lf_inv (LogFile_new dir max_len disk)"
  by (simp add: lf_inv_def LogFile_new_def content_ok_def)

text \<open>Under every interleaving of logging, destruction and the thread, whatever the C library answers, the
  thread never writes to a file that is not open; the messages written are messages that were
  logged, in the order they were logged, none twice; the open file contains exactly the last of
  them; and no more than ten files are kept.\<close>

theorem log_file_safe:
  "\<exists>f. lf_run cs (LogFile_new dir max_len disk) = Some f \<and> subseq (map snd (lf_written f)) (lf_accepted f) \<and>
     length (lf_paths f) \<le> 10 \<and>
     (\<forall>p c. lf_file f = Some p \<longrightarrow> lf_disk f p = Some c \<longrightarrow>
        last (lf_paths f) = p \<and> (\<exists>xs ys. lf_written f = xs @ ys \<and> c = concat (map snd ys) \<and> (\<forall>y\<in>set ys. fst y = p)))"
proof -
  obtain f where f: "lf_run cs (LogFile_new dir max_len disk) = Some f" "lf_inv f" using lf_inv_run [OF lf_inv_new] by blast
  have "subseq (map snd (lf_written f)) (lf_accepted f)"
    using f(2) by (auto simp: lf_inv_def intro: subseq_order.order_trans [of _ "map snd (lf_written f) @ lf_msgq f"])
  then show ?thesis using f by (auto simp: lf_inv_def content_ok_def)
qed

subsection \<open>When nothing fails\<close>

definition good :: "lf_answer \<Rightarrow> bool" where
  "good a \<longleftrightarrow> an_open a \<and> \<not> an_full a \<and> an_create_errno a \<noteq> Some True \<and> an_flush_errno a \<noteq> Some True"

text \<open>Nothing was lost, and nothing asks to lose anything.\<close>

definition lf_good :: "LogFile \<Rightarrow> bool" where
  "lf_good f \<longleftrightarrow> lf_inv f \<and> \<not> lf_enospc f \<and> \<not> lf_force f \<and> lf_at f \<noteq> LF_Sleep \<and> map snd (lf_written f) @ lf_msgq f = lf_accepted f"

lemma set_errno_good: "e \<noteq> Some True \<Longrightarrow> \<not> lf_enospc f \<Longrightarrow> \<not> lf_enospc (set_errno e f)"
  by (auto simp: set_errno_def split: option.split)

lemma flush_good: "good a \<Longrightarrow> \<not> lf_enospc f \<Longrightarrow> \<not> lf_enospc (flush_if_due a f)"
  using set_errno_good [of "an_flush_errno a"] by (simp add: flush_if_due_def LogFile_Flush_def Let_def good_def)

lemma CreateLogFile_good: "good a \<Longrightarrow> \<not> lf_enospc f \<Longrightarrow> CreateLogFile a f = (g, ok) \<Longrightarrow> ok \<and> \<not> lf_enospc g"
  using set_errno_good [of "an_create_errno a" "f\<lparr>lf_file := None\<rparr>"] by (auto simp: CreateLogFile_def Let_def good_def split: if_splits)

lemma rotate_good: "good a \<Longrightarrow> \<not> lf_enospc f \<Longrightarrow> lf_rotate a f = (g, ok) \<Longrightarrow> ok \<and> \<not> lf_enospc g"
  using CreateLogFile_good [of a f] by (auto simp: lf_rotate_def split: prod.splits if_splits)

lemma take_good:
  assumes "good a" and "file_ok f" and "\<not> lf_enospc f"
  obtains h g p where "lf_rotate a (f\<lparr>lf_msgq := q\<rparr>) = (h, True)" "fwrite_msg a msg h = Some g" "\<not> lf_enospc g" "lf_msgq g = q"
    "lf_written g = lf_written f @ [(p, msg)]" "lf_at g = lf_at f" "lf_stop g = lf_stop f" "lf_force g = lf_force f" "lf_exit g = lf_exit f"
    "lf_accepted g = lf_accepted f" "file_ok g"
proof -
  obtain h ok where r: "lf_rotate a (f\<lparr>lf_msgq := q\<rparr>) = (h, ok)" by fastforce
  have ok: "ok \<and> \<not> lf_enospc h" using rotate_good [OF assms(1) _ r] assms(3) by simp
  have f: "file_ok (f\<lparr>lf_msgq := q\<rparr>)" using assms(2) by simp
  note h = rotate_ok [OF r f]
  from ok h(1) have "file_ok h" by simp
  then obtain g where g: "fwrite_msg a msg h = Some g" "file_ok g" "lf_msgq g = lf_msgq h" "lf_stop g = lf_stop h" "lf_force g = lf_force h"
      "lf_exit g = lf_exit h" "lf_at g = lf_at h" "lf_accepted g = lf_accepted h" "lf_file g = lf_file h"
      "if an_full a then lf_written g = lf_written h \<and> lf_enospc g else (\<exists>p. lf_written g = lf_written h @ [(p, msg)]) \<and> lf_enospc g = lf_enospc h"
    by (rule fwrite_ok)
  then show ?thesis using that [of h g] r ok h assms(1) by (auto simp: good_def)
qed

lemma lf_good_flush [simp]: "good a \<Longrightarrow> lf_good f \<Longrightarrow> lf_good (flush_if_due a f)"
  by (simp add: lf_good_def flush_good)

text \<open>A round of the thread, before the program ends and after.\<close>

lemma thread_good:
  assumes "good a" and "lf_good f" and "lf_at f \<noteq> LF_Done"
  obtains g where "WriteFileLoop a f = Some g" "lf_stop g = lf_stop f" "lf_exit g = lf_exit f" "lf_accepted g = lf_accepted f" "lf_good g"
    "\<not> lf_stop f \<Longrightarrow> lf_at f \<in> {LF_Start, LF_Loop} \<Longrightarrow> lf_at g = LF_Loop"
    "lf_stop f \<Longrightarrow> case lf_at f of LF_Start \<Rightarrow> lf_at g = LF_Loop \<and> lf_msgq g = lf_msgq f | LF_Loop \<Rightarrow> lf_at g = LF_Drain \<and> lf_msgq g = lf_msgq f
       | _ \<Rightarrow> if lf_msgq f = [] then lf_at g = LF_Done \<and> lf_msgq g = [] else lf_at g = LF_Drain \<and> lf_msgq g = tl (lf_msgq f)"
proof -
  note inv = assms(2) [unfolded lf_good_def lf_inv_alt]
  consider "lf_at f = LF_Start" | "lf_at f = LF_Loop" | "lf_at f = LF_Drain" using assms(2,3) by (cases "lf_at f") (auto simp: lf_good_def)
  then show ?thesis
  proof cases
    case 1
    obtain g ok where c: "CreateLogFile a f = (g, ok)" by fastforce
    then have ok: "ok" "\<not> lf_enospc g" using CreateLogFile_good [OF assms(1) _ c] inv by auto
    have "length (lf_paths f) \<le> 10" using inv 1 by simp
    note g = CreateLogFile_ok [OF c this] CreateLogFile_sel [OF c]
    show ?thesis using 1 inv c ok g by (intro that [of "g\<lparr>lf_at := LF_Loop\<rparr>"]) (auto simp: WriteFileLoop_def lf_good_def lf_inv_alt)
  next
    case 2
    show ?thesis
    proof (cases "lf_stop f")
      case True
      then show ?thesis using 2 inv by (intro that [of "f\<lparr>lf_at := LF_Drain\<rparr>"]) (auto simp: WriteFileLoop_def loop_step_def lf_good_def lf_inv_alt)
    next
      case False
      show ?thesis
      proof (cases "lf_msgq f")
        case Nil
        then show ?thesis using 2 False assms(1,2) by (intro that [of "flush_if_due a f"]) (auto simp: WriteFileLoop_def loop_step_def)
      next
        case (Cons msg q)
        have "file_ok f" "\<not> lf_enospc f" using inv 2 by simp_all
        from take_good [OF assms(1) this, of q msg] obtain h g p where g: "lf_rotate a (f\<lparr>lf_msgq := q\<rparr>) = (h, True)" "fwrite_msg a msg h = Some g"
          "\<not> lf_enospc g" "lf_msgq g = q" "lf_written g = lf_written f @ [(p, msg)]" "lf_at g = lf_at f" "lf_stop g = lf_stop f"
          "lf_force g = lf_force f" "lf_exit g = lf_exit f" "lf_accepted g = lf_accepted f" "file_ok g" by metis
        let ?g = "g\<lparr>lf_len := lf_len g + length msg, lf_bytes := lf_bytes g + length msg\<rparr>"
        have "lf_good ?g" using g inv 2 Cons by (simp add: lf_good_def lf_inv_alt)
        then show ?thesis using 2 False Cons g assms(1) by (intro that [of "flush_if_due a ?g"]) (auto simp: WriteFileLoop_def loop_step_def)
      qed
    qed
  next
    case 3
    show ?thesis
    proof (cases "lf_msgq f")
      case Nil
      then show ?thesis using 3 inv by (intro that [of "f\<lparr>lf_file := None, lf_at := LF_Done\<rparr>"])
          (auto simp: WriteFileLoop_def drain_step_def lf_good_def lf_inv_alt file_ok_def)
    next
      case (Cons msg q)
      have "file_ok f" "\<not> lf_enospc f" using inv 3 by simp_all
      from take_good [OF assms(1) this, of q msg] obtain h g p where g: "lf_rotate a (f\<lparr>lf_msgq := q\<rparr>) = (h, True)" "fwrite_msg a msg h = Some g"
        "\<not> lf_enospc g" "lf_msgq g = q" "lf_written g = lf_written f @ [(p, msg)]" "lf_at g = lf_at f" "lf_stop g = lf_stop f"
        "lf_force g = lf_force f" "lf_exit g = lf_exit f" "lf_accepted g = lf_accepted f" "file_ok g" by metis
      have "lf_good (g\<lparr>lf_len := lf_len g + length msg\<rparr>)" using g inv 3 Cons by (simp add: lf_good_def lf_inv_alt)
      then show ?thesis using 3 Cons g inv by (intro that [of "g\<lparr>lf_len := lf_len g + length msg\<rparr>"]) (auto simp: WriteFileLoop_def drain_step_def)
    qed
  qed
qed

text \<open>What a history logs.\<close>

fun logged :: "lf_act list \<Rightarrow> string list" where
  "logged [] = []"
| "logged (LA_Write msg force # cs) = msg # logged cs"
| "logged (_ # cs) = logged cs"

fun good_act :: "lf_act \<Rightarrow> bool" where
  "good_act (LA_Write msg force) = (\<not> force)"
| "good_act (LA_Thread a) = good a"
| "good_act _ = False"

definition logging :: "LogFile \<Rightarrow> bool" where
  "logging f \<longleftrightarrow> lf_good f \<and> \<not> lf_stop f \<and> lf_at f \<in> {LF_Start, LF_Loop}"

lemma good_history:
  assumes "\<forall>c\<in>set cs. good_act c" and "logging f"
  shows "\<exists>g. lf_run cs f = Some g \<and> logging g \<and> lf_accepted g = lf_accepted f @ logged cs"
  using assms
proof (induction cs arbitrary: f)
  case (Cons c cs)
  have "\<exists>g. lf_do c f = Some g \<and> logging g \<and> lf_accepted g = lf_accepted f @ logged [c]"
  proof (cases c)
    case (LA_Write msg force)
    have "lf_inv (LogFile_Write msg force f)" using lf_inv_do [of f c] Cons.prems LA_Write by (simp add: logging_def lf_good_def)
    moreover have "lf_accepted f @ [msg] = map snd (lf_written f) @ lf_msgq f @ [msg]"
      using Cons.prems by (simp add: logging_def lf_good_def flip: append_assoc)
    ultimately show ?thesis using Cons.prems LA_Write by (simp add: logging_def lf_good_def LogFile_Write_def)
  next
    case (LA_Thread a)
    have p: "good a" "lf_good f" "lf_at f \<noteq> LF_Done" using Cons.prems LA_Thread by (auto simp: logging_def)
    from thread_good [OF p] obtain g where "WriteFileLoop a f = Some g" "lf_stop g = lf_stop f" "lf_accepted g = lf_accepted f" "lf_good g"
      "\<not> lf_stop f \<Longrightarrow> lf_at f \<in> {LF_Start, LF_Loop} \<Longrightarrow> lf_at g = LF_Loop" by metis
    then show ?thesis using Cons.prems LA_Thread by (auto simp: logging_def)
  qed (use Cons.prems in auto)
  then obtain g where g: "lf_do c f = Some g" "logging g" "lf_accepted g = lf_accepted f @ logged [c]" by blast
  moreover have "logged (c # cs) = logged [c] @ logged cs" by (cases c) simp_all
  ultimately show ?case using Cons.IH [of g] Cons.prems(1) by auto
qed simp

text \<open>The rounds the thread needs to end.\<close>

definition rounds :: "LogFile \<Rightarrow> nat" where
  "rounds f = (case lf_at f of LF_Start \<Rightarrow> 3 + length (lf_msgq f) | LF_Loop \<Rightarrow> 2 + length (lf_msgq f) | LF_Done \<Rightarrow> 0 | _ \<Rightarrow> 1 + length (lf_msgq f))"

lemma good_end:
  assumes "\<forall>a\<in>set as. good a" and "lf_good f" and "lf_stop f" and "lf_at f = LF_Done \<longrightarrow> lf_msgq f = []" and "rounds f \<le> length as"
  shows "\<exists>g. lf_run (map LA_Thread as) f = Some g \<and> lf_at g = LF_Done \<and> lf_msgq g = [] \<and> lf_good g \<and> lf_accepted g = lf_accepted f"
  using assms
proof (induction as arbitrary: f)
  case Nil
  then show ?case by (auto simp: rounds_def split: lf_pc.splits)
next
  case (Cons a as)
  show ?case
  proof (cases "lf_at f = LF_Done")
    case True
    then show ?thesis using Cons.IH [of f] Cons.prems by (simp add: WriteFileLoop_def rounds_def)
  next
    case False
    have "good a" "lf_good f" using Cons.prems by simp_all
    from thread_good [OF this False] obtain g where g: "WriteFileLoop a f = Some g" "lf_stop g = lf_stop f" "lf_exit g = lf_exit f"
      "lf_accepted g = lf_accepted f" "lf_good g"
      "lf_stop f \<Longrightarrow> case lf_at f of LF_Start \<Rightarrow> lf_at g = LF_Loop \<and> lf_msgq g = lf_msgq f | LF_Loop \<Rightarrow> lf_at g = LF_Drain \<and> lf_msgq g = lf_msgq f
       | _ \<Rightarrow> if lf_msgq f = [] then lf_at g = LF_Done \<and> lf_msgq g = [] else lf_at g = LF_Drain \<and> lf_msgq g = tl (lf_msgq f)" by metis
    have "rounds g < rounds f \<and> (lf_at g = LF_Done \<longrightarrow> lf_msgq g = [])"
      using g(6) Cons.prems(2,3) False by (cases "lf_at f"; cases "lf_msgq f") (auto simp: rounds_def lf_good_def)
    then show ?thesis using Cons.IH [of g] Cons.prems g by auto
  qed
qed


subsection \<open>When the program ends in the middle\<close>

text \<open>The forced flush of a fatal message loses messages: unless the thread sleeps because of a full disk,
  nothing is written to a log file after it, whatever follows, so what is in the queue at that
  time, the fatal message itself in general, never gets into a file.\<close>

theorem log_forced_flush_drops:
  assumes "lf_at f \<noteq> LF_Sleep" and "lf_run cs (LogFile_Write msg True f) = Some g"
  shows "lf_written g = lf_written f"
proof -
  have "lf_written g = lf_written f" if "lf_run cs f = Some g" "lf_stop f" "lf_force f" "lf_at f \<noteq> LF_Sleep" for cs f
    using that
  proof (induction cs arbitrary: f)
    case (Cons c cs)
    obtain h where h: "lf_do c f = Some h" "lf_run cs h = Some g" using Cons.prems(1) by (auto split: option.splits)
    have "lf_written h = lf_written f \<and> lf_stop h \<and> lf_force h \<and> lf_at h \<noteq> LF_Sleep"
    proof (cases c)
      case (LA_Thread a)
      obtain k ok where k: "CreateLogFile a f = (k, ok)" by fastforce
      show ?thesis using h(1) LA_Thread Cons.prems(2-4) CreateLogFile_sel [OF k] k
        by (cases "lf_at f") (auto simp: WriteFileLoop_def loop_step_def drain_step_def split: if_splits bool.splits)
    qed (use h(1) Cons.prems in \<open>auto simp: LogFile_Write_def LogFile_stop_def LogFile_exit_def split: if_splits\<close>)
    then show ?case using Cons.IH h(2) by simp
  qed simp
  from this [OF assms(2)] assms(1) show ?thesis by (simp add: LogFile_Write_def)
qed

text \<open>The destructor of the log file can wait forever: where the disk fills up and the thread's sleep times
  out just between the destructor's two requests, the first request is forgotten. There is a
  history after which both requests were made, no message is queued, and however often the thread
  runs, with a disk that has space again, it never ends.\<close>

theorem log_file_shutdown_hangs:
  "\<exists>cs a f. lf_run (cs @ [LA_Stop, LA_Thread a, LA_Exit]) (LogFile_new dir max_len disk) = Some f \<and> lf_exit f \<and> lf_msgq f = [] \<and>
     (\<forall>as. \<exists>g. lf_run (map LA_Thread as) f = Some g \<and> lf_at g = LF_Loop)"
proof -
  define a where "a = \<lparr>an_tm = \<lparr>tm_year = 120, tm_mon = 0, tm_mday = 1, tm_hour = 0, tm_min = 0, tm_sec = 0\<rparr>, an_usecs = 0, an_clock = 0,
    an_open = True, an_create_errno = None, an_full = False, an_now = 0, an_flush_errno = None, an_interval = 30\<rparr>"
  let ?cs = "[LA_Thread a, LA_Write ''x'' False, LA_Thread (a\<lparr>an_full := True\<rparr>)]"
  have "\<exists>f. lf_run (?cs @ [LA_Stop, LA_Thread a, LA_Exit]) (LogFile_new dir max_len disk) = Some f \<and> lf_exit f \<and> lf_msgq f = [] \<and>
    lf_at f = LF_Loop \<and> \<not> lf_stop f"
    by (simp add: LogFile_new_def a_def WriteFileLoop_def CreateLogFile_def set_errno_def loop_step_def LogFile_Write_def lf_rotate_def
        fwrite_msg_def LogFile_stop_def LogFile_exit_def wake_step_def Let_def)
  then obtain f where f: "lf_run (?cs @ [LA_Stop, LA_Thread a, LA_Exit]) (LogFile_new dir max_len disk) = Some f" "lf_exit f" "lf_msgq f = []"
    "lf_at f = LF_Loop" "\<not> lf_stop f" by blast
  have "\<exists>g. lf_run (map LA_Thread as) f = Some g \<and> lf_at g = LF_Loop" if "lf_at f = LF_Loop" "\<not> lf_stop f" "lf_msgq f = []" for as f
    using that by (induction as arbitrary: f) (simp_all add: WriteFileLoop_def loop_step_def)
  with f show ?thesis by blast
qed

text \<open>After a full disk \<open>errno\<close> stays: each message that is taken while no call resets it puts the thread to sleep again.\<close>

lemma errno_is_never_cleared:
  assumes "lf_inv f" and "lf_at f = LF_Loop" and "\<not> lf_stop f" and "lf_msgq f = msg # q" and "lf_enospc f"
    and "lf_len f \<le> lf_max f"
  shows "\<exists>g. loop_step a f = Some g \<and> lf_at g = LF_Sleep \<and> lf_enospc g"
  using assms by (auto simp: loop_step_def lf_rotate_def fwrite_msg_def lf_inv_alt file_ok_def)


lemma log_forced_flush_drops_witness:
  "case lf_run [LA_Thread a, LA_Thread a, LA_Thread a] (LogFile_Write '''' True (LogFile_Write ''fatal'' False (LogFile_new ''/tmp/'' 100 Map.empty))) of
     Some g \<Rightarrow> lf_written g = [] | None \<Rightarrow> False"
proof -
  let ?f = "LogFile_Write ''fatal'' False (LogFile_new ''/tmp/'' 100 Map.empty)"
  have f: "lf_inv ?f" "lf_at ?f \<noteq> LF_Sleep" "lf_written ?f = []"
    using lf_inv_do [OF lf_inv_new, of "LA_Write ''fatal'' False" "''/tmp/''" 100 Map.empty]
    by (auto simp: LogFile_new_def LogFile_Write_def)
  obtain g where g: "lf_run [LA_Thread a, LA_Thread a, LA_Thread a] (LogFile_Write '''' True ?f) = Some g"
    using lf_inv_run [of "LogFile_Write '''' True ?f" "[LA_Thread a, LA_Thread a, LA_Thread a]"] lf_inv_do [OF f(1), of "LA_Write '''' True"] by auto
  show ?thesis using log_forced_flush_drops [OF f(2) g] f(3) g by simp
qed

end
