(* ===== verification/Log_Message.thy ===== *)
theory Log_Message
  imports Log_Filter Log_File "HOL-Library.Multiset"
begin

text \<open>
  From a logging statement to the outputs (classes \<open>LogMessage\<close> and \<open>LogDestination\<close> of
  easydk/src/cxxutil/log.cpp): formatting into a buffer of fixed size, the warning before
  initialisation, stderr, the sinks of the user, the log file, and the end of the program after a
  fatal message. The time, the thread's number and whether debugging is on are arguments.
\<close>

subsection \<open>State\<close>

text \<open>What is output; a sink gets the rest of the buffer from the message on, and a length.\<close>

datatype log_event = Ev_Stderr string
  | Ev_Send nat LogSeverity string string int tm int string nat
  | Ev_Wait nat

text \<open>
  The flags, the sinks by their addresses, the destination, whether the thread's own buffer is free
  and how many others are allocated; \<open>ls_out\<close> the outputs, the newest first, \<open>ls_closed\<close> the log files
  whose destruction was requested.
\<close>

record LogState =
  g_init_logging :: bool
  g_log_to_stderr :: bool
  g_log_to_file :: bool
  g_flush_interval :: nat
  sinks :: "nat list"
  log_destination :: "LogFile option"
  already_warned :: bool
  thread_msg_data_available :: bool
  allocated_data :: nat
  ls_out :: "log_event list"
  ls_closed :: "LogFile list"

definition LogState0 :: LogState where
  "LogState0 = \<lparr>g_init_logging = False, g_log_to_stderr = True, g_log_to_file = False, g_flush_interval = 30, sinks = [],
     log_destination = None, already_warned = False, thread_msg_data_available = True, allocated_data = 0, ls_out = [], ls_closed = []\<rparr>"

datatype log_end = Goes_On LogState | Aborts LogState | Log_UB

fun log_then :: "log_end \<Rightarrow> (LogState \<Rightarrow> log_end) \<Rightarrow> log_end" where
  "log_then (Goes_On s) k = k s"
| "log_then (Aborts s) k = Aborts s"
| "log_then Log_UB k = Log_UB"

definition ls_emit :: "log_event \<Rightarrow> LogState \<Rightarrow> LogState" where
  "ls_emit e s = s\<lparr>ls_out := e # ls_out s\<rparr>"

subsection \<open>The log destination\<close>

definition MAX_FILE_LEN :: nat where "MAX_FILE_LEN = 1024 * 1024 * 1024"

definition CreateLogDestination :: "(string \<Rightarrow> string option) \<Rightarrow> string \<Rightarrow> LogState \<Rightarrow> LogState" where
  "CreateLogDestination disk file_name s =
     (if log_destination s = None \<and> g_log_to_file s then s\<lparr>log_destination := Some (LogFile_new file_name MAX_FILE_LEN disk)\<rparr> else s)"

definition DeleteLogDestination :: "LogState \<Rightarrow> LogState" where
  "DeleteLogDestination s =
     (case log_destination s of None \<Rightarrow> s
      | Some f \<Rightarrow> s\<lparr>log_destination := None, ls_closed := LogFile_exit (LogFile_stop f) # ls_closed s\<rparr>)"

definition AddLogSink :: "nat \<Rightarrow> LogState \<Rightarrow> LogState" where
  "AddLogSink sink s = s\<lparr>sinks := sinks s @ [sink]\<rparr>"

text \<open>The search from the end; the last sink takes the place of the one found. \<open>n\<close> are left to look at.\<close>

fun remove_sink :: "nat \<Rightarrow> nat \<Rightarrow> nat list \<Rightarrow> nat list" where
  "remove_sink sink 0 ss = ss"
| "remove_sink sink (Suc i) ss =
     (if ss ! i = sink then butlast (ss[i := ss ! (length ss - 1)]) else remove_sink sink i ss)"

definition RemoveLogSink :: "nat \<Rightarrow> LogState \<Rightarrow> LogState" where
  "RemoveLogSink sink s = s\<lparr>sinks := remove_sink sink (length (sinks s)) (sinks s)\<rparr>"

definition InitLogging :: "(string \<Rightarrow> string option) \<Rightarrow> bool \<Rightarrow> bool \<Rightarrow> string \<Rightarrow> LogState \<Rightarrow> LogState" where
  "InitLogging disk log_to_stderr log_to_file dir s =
     (let s = s\<lparr>g_init_logging := True, g_log_to_stderr := log_to_stderr, g_log_to_file := log_to_file\<rparr>
      in if log_to_file then CreateLogDestination disk dir s else s)"

definition ShutdownLogging :: "LogState \<Rightarrow> LogState" where
  "ShutdownLogging s = (DeleteLogDestination s)\<lparr>g_init_logging := False\<rparr>"

definition SetFileFlushInterval :: "nat \<Rightarrow> LogState \<Rightarrow> LogState" where
  "SetFileFlushInterval time s = s\<lparr>g_flush_interval := time\<rparr>"

subsection \<open>Messages\<close>

record LogMessage =
  lm_buf :: string
  lm_severity :: LogSeverity
  lm_line :: int
  lm_tm :: tm
  lm_usecs :: int
  lm_prefix :: nat
  lm_filename :: string
  lm_category :: string
  lm_flushed :: bool
  lm_on_thread :: bool

definition MaxLogMsgLen :: nat where "MaxLogMsgLen = 1024"

text \<open>The stream writes as long as there is room, two characters being kept for the newline and the end.\<close>

definition stream_put :: "string \<Rightarrow> LogMessage \<Rightarrow> LogMessage" where
  "stream_put s m = m\<lparr>lm_buf := take (MaxLogMsgLen - 2) (lm_buf m @ s)\<rparr>"

record msg_env =
  me_tm :: tm
  me_usecs :: int
  me_tid :: nat
  me_ndebug :: bool

definition message_prefix :: "msg_env \<Rightarrow> LogSeverity \<Rightarrow> string \<Rightarrow> string \<Rightarrow> int \<Rightarrow> string" where
  "message_prefix env severity category filename line =
     ''[EasyDK-'' @ LogSeverityNames severity @ ''] '' @ category @ '' '' @ setw0 2 (1 + tm_mon (me_tm env)) @ setw0 2 (tm_mday (me_tm env)) @
     '' '' @ setw0 2 (tm_hour (me_tm env)) @ '':'' @ setw0 2 (tm_min (me_tm env)) @ '':'' @ setw0 2 (tm_sec (me_tm env)) @ ''.'' @
     setw0 6 (me_usecs env) @ '' '' @ pad 5 (CHR '' '') (nat_to_string (me_tid env)) @
     (if me_ndebug env then '''' else '' '' @ filename @ '':'' @ int_to_string line) @ ''] ''"

text \<open>The constructor: the thread's buffer if it is free, an allocated one otherwise.\<close>

definition LogMessage_Init :: "msg_env \<Rightarrow> string \<Rightarrow> string \<Rightarrow> int \<Rightarrow> LogSeverity \<Rightarrow> LogState \<Rightarrow> LogMessage \<times> LogState" where
  "LogMessage_Init env category file line severity s =
     (let on_thread = thread_msg_data_available s;
          s = (if on_thread then s\<lparr>thread_msg_data_available := False\<rparr> else s\<lparr>allocated_data := allocated_data s + 1\<rparr>);
          m = \<lparr>lm_buf = '''', lm_severity = severity, lm_line = line, lm_tm = me_tm env, lm_usecs = me_usecs env, lm_prefix = 0,
               lm_filename = const_basename file, lm_category = category, lm_flushed = False, lm_on_thread = on_thread\<rparr>;
          m = stream_put (message_prefix env severity category (const_basename file) line) m
      in (m\<lparr>lm_prefix := length (lm_buf m)\<rparr>, s))"

definition LogToStderr :: "string \<Rightarrow> LogState \<Rightarrow> LogState" where
  "LogToStderr message s = (if g_log_to_stderr s then ls_emit (Ev_Stderr message) s else s)"

text \<open>The sinks from the last to the first, each with the text and its length without the newline, an unsigned difference.\<close>

definition LogToSinks :: "LogMessage \<Rightarrow> LogState \<Rightarrow> LogState" where
  "LogToSinks m s =
     fold (\<lambda>sink s. ls_emit (Ev_Wait sink) (ls_emit (Ev_Send sink (lm_severity m) (lm_category m) (lm_filename m) (lm_line m) (lm_tm m)
         (lm_usecs m) (drop (lm_prefix m) (lm_buf m)) (nat ((int (length (lm_buf m)) - int (lm_prefix m) - 1) mod 2 ^ 64))) s))
       (rev (sinks s)) s"

definition LogToFile :: "string \<Rightarrow> bool \<Rightarrow> LogState \<Rightarrow> log_end" where
  "LogToFile message force_flush s =
     (if g_init_logging s \<and> g_log_to_file s
      then case log_destination s of None \<Rightarrow> Log_UB
           | Some f \<Rightarrow> Goes_On (s\<lparr>log_destination := Some (LogFile_Write message force_flush f)\<rparr>)
      else Goes_On s)"

definition SendToLog :: "LogMessage \<Rightarrow> LogState \<Rightarrow> log_end" where
  "SendToLog m s =
     (let s = (if \<not> already_warned s \<and> \<not> g_init_logging s
               then (ls_emit (Ev_Stderr (''WARNING: Logging before InitLogging() is written to STDERR'' @ [CHR 0x0A])) s)\<lparr>already_warned := True\<rparr>
               else s)
      in log_then (LogToFile (lm_buf m) False (LogToSinks m (LogToStderr (lm_buf m) s))) (\<lambda>s.
         if lm_severity m = LOG_FATAL then log_then (LogToFile '''' True s) Aborts else Goes_On s))"

definition LogMessage_Flush :: "log_vars \<Rightarrow> LogMessage \<Rightarrow> LogState \<Rightarrow> log_end" where
  "LogMessage_Flush E m s =
     (if lm_flushed m \<or> \<not> CategoryActivated E (lm_category m) (lm_severity m) then Goes_On s
      else if lm_buf m = [] then Log_UB
      else SendToLog (if last (lm_buf m) \<noteq> CHR 0x0A then m\<lparr>lm_buf := lm_buf m @ [CHR 0x0A]\<rparr> else m) s)"

definition LogMessage_destroy :: "log_vars \<Rightarrow> LogMessage \<Rightarrow> LogState \<Rightarrow> log_end" where
  "LogMessage_destroy E m s =
     log_then (LogMessage_Flush E m s) (\<lambda>s.
       Goes_On (if lm_on_thread m then s\<lparr>thread_msg_data_available := True\<rparr> else s\<lparr>allocated_data := allocated_data s - 1\<rparr>))"

text \<open>A statement: the message is made, its text streamed in, and it is destroyed.\<close>

definition log_stream :: "log_vars \<Rightarrow> msg_env \<Rightarrow> string \<Rightarrow> LogSeverity \<Rightarrow> string \<Rightarrow> int \<Rightarrow> string \<Rightarrow> LogState \<Rightarrow> log_end" where
  "log_stream E env category severity file line txt s =
     (let (m, s) = LogMessage_Init env category file line severity s in LogMessage_destroy E (stream_put txt m) s)"

text \<open>\<open>LOGE\<close> to \<open>LOGA\<close>, which ask first; \<open>LOGF\<close>, which does not; and \<open>CHECK\<close>, \<open>what\<close> being the text of its condition.\<close>

definition edk_log :: "log_vars \<Rightarrow> msg_env \<Rightarrow> string \<Rightarrow> LogSeverity \<Rightarrow> string \<Rightarrow> int \<Rightarrow> string \<Rightarrow> LogState \<Rightarrow> log_end" where
  "edk_log E env category severity file line txt s =
     (if \<not> LogActivated E category severity then Goes_On s else log_stream E env category severity file line txt s)"

definition LOGF :: "log_vars \<Rightarrow> msg_env \<Rightarrow> string \<Rightarrow> string \<Rightarrow> int \<Rightarrow> string \<Rightarrow> LogState \<Rightarrow> log_end" where
  "LOGF E env category file line txt s = log_stream E env category LOG_FATAL file line txt s"

definition CHECK :: "log_vars \<Rightarrow> msg_env \<Rightarrow> string \<Rightarrow> bool \<Rightarrow> string \<Rightarrow> string \<Rightarrow> int \<Rightarrow> string \<Rightarrow> LogState \<Rightarrow> log_end" where
  "CHECK E env category condition what file line txt s =
     (if condition then Goes_On s
      else LOGF E env (check_name category) file line (''Check condition ('' @ what @ '') failed'' @ txt) s)"

text \<open>The line a sink may make of what it gets.\<close>

definition LogSink_ToString :: "LogSeverity \<Rightarrow> string \<Rightarrow> string \<Rightarrow> int \<Rightarrow> tm \<Rightarrow> int \<Rightarrow> nat \<Rightarrow> string \<Rightarrow> string" where
  "LogSink_ToString severity category filename line t usecs tid message =
     ''[EasyDK-'' @ LogSeverityNames severity @ ''] '' @ category @ '' '' @ setw0 4 (1900 + tm_year t) @ setw0 2 (1 + tm_mon t) @
     setw0 2 (tm_mday t) @ '' '' @ setw0 2 (tm_hour t) @ '':'' @ setw0 2 (tm_min t) @ '':'' @ setw0 2 (tm_sec t) @ ''.'' @ setw0 6 usecs @
     '' '' @ pad 5 (CHR '' '') (nat_to_string tid) @ '' '' @ filename @ '':'' @ int_to_string line @ ''] '' @ message"

subsection \<open>Histories\<close>

text \<open>Calls of the program, and the rounds of the writing thread in between.\<close>

datatype log_op = Op_Init bool bool string | Op_Shutdown | Op_AddSink nat | Op_RemoveSink nat | Op_Interval nat
  | Op_Log msg_env string LogSeverity string int string | Op_Fatal msg_env string string int string
  | Op_Check msg_env string bool string string int string | Op_Thread lf_answer

fun log_do :: "log_vars \<Rightarrow> (string \<Rightarrow> string option) \<Rightarrow> log_op \<Rightarrow> LogState \<Rightarrow> log_end" where
  "log_do E disk (Op_Init err file dir) s = Goes_On (InitLogging disk err file dir s)"
| "log_do E disk Op_Shutdown s = Goes_On (ShutdownLogging s)"
| "log_do E disk (Op_AddSink k) s = Goes_On (AddLogSink k s)"
| "log_do E disk (Op_RemoveSink k) s = Goes_On (RemoveLogSink k s)"
| "log_do E disk (Op_Interval n) s = Goes_On (SetFileFlushInterval n s)"
| "log_do E disk (Op_Log env cat sev file line txt) s = edk_log E env cat sev file line txt s"
| "log_do E disk (Op_Fatal env cat file line txt) s = LOGF E env cat file line txt s"
| "log_do E disk (Op_Check env cat c what file line txt) s = CHECK E env cat c what file line txt s"
| "log_do E disk (Op_Thread a) s =
     (case log_destination s of None \<Rightarrow> Goes_On s
      | Some f \<Rightarrow> (case WriteFileLoop a f of None \<Rightarrow> Log_UB | Some f \<Rightarrow> Goes_On (s\<lparr>log_destination := Some f\<rparr>)))"

fun log_history :: "log_vars \<Rightarrow> (string \<Rightarrow> string option) \<Rightarrow> log_op list \<Rightarrow> LogState \<Rightarrow> log_end" where
  "log_history E disk [] s = Goes_On s"
| "log_history E disk (c # cs) s = log_then (log_do E disk c s) (log_history E disk cs)"

end
