(* ===== verification/Log_Message_Props.thy ===== *)
theory Log_Message_Props
  imports Log_Message Log_Filter_Props Log_File_Props
begin

text \<open>
  What a logging statement delivers, to whom, and that no history of the logging interface reaches
  undefined behaviour; and what \<open>CHECK\<close> does while a filter is set.
\<close>

subsection \<open>Sinks\<close>

lemma butlast_move_last:
  assumes "i < length ss"
  shows "mset (butlast (ss[i := ss ! (length ss - 1)])) = mset ss - {#ss ! i#}"
proof -
  let ?x = "ss ! (length ss - 1)" and ?t = "ss[i := ss ! (length ss - 1)]"
  have ne: "ss \<noteq> []" using assms by auto
  have "last ?t = ?x" using ne by (cases "i = length ss - 1") (simp_all add: last_conv_nth)
  then have "mset ?t = mset (butlast ?t) + {#?x#}" using ne by (metis append_butlast_last_id list_update_nonempty mset.simps(1,2) mset_append)
  moreover have "mset ?t = mset ss - {#ss ! i#} + {#?x#}" using mset_update [OF assms] by simp
  ultimately show ?thesis by simp
qed

lemma remove_sink_mset: "n \<le> length ss \<Longrightarrow> k \<notin> set (drop n ss) \<Longrightarrow> mset (remove_sink k n ss) = mset ss - {#k#}"
proof (induction n)
  case 0
  then show ?case by (simp add: diff_single_trivial)
next
  case (Suc n)
  show ?case
  proof (cases "ss ! n = k")
    case True
    then show ?thesis using Suc.prems butlast_move_last [of n ss] by simp
  next
    case False
    have "drop n ss = ss ! n # drop (Suc n) ss" using Suc.prems by (simp add: Cons_nth_drop_Suc)
    then show ?thesis using Suc False by simp
  qed
qed

lemma RemoveLogSink_mset: "mset (sinks (RemoveLogSink k s)) = mset (sinks s) - {#k#}"
  by (simp add: RemoveLogSink_def remove_sink_mset)

subsection \<open>The invariant\<close>

definition ls_ok :: "LogState \<Rightarrow> bool" where
  "ls_ok s \<longleftrightarrow> (g_init_logging s \<and> g_log_to_file s \<longrightarrow> log_destination s \<noteq> None) \<and> (\<forall>f. log_destination s = Some f \<longrightarrow> lf_inv f)"

text \<open>What every operation leaves as it is.\<close>

definition same_buffers :: "LogState \<Rightarrow> LogState \<Rightarrow> bool" where
  "same_buffers s t \<longleftrightarrow> thread_msg_data_available t = thread_msg_data_available s \<and> allocated_data t = allocated_data s"

lemma ls_emit_sel [simp]:
  "g_init_logging (ls_emit e s) = g_init_logging s" "g_log_to_stderr (ls_emit e s) = g_log_to_stderr s" "g_log_to_file (ls_emit e s) = g_log_to_file s"
  "sinks (ls_emit e s) = sinks s" "log_destination (ls_emit e s) = log_destination s" "already_warned (ls_emit e s) = already_warned s"
  "thread_msg_data_available (ls_emit e s) = thread_msg_data_available s" "allocated_data (ls_emit e s) = allocated_data s"
  "ls_out (ls_emit e s) = e # ls_out s" "g_flush_interval (ls_emit e s) = g_flush_interval s" "ls_closed (ls_emit e s) = ls_closed s"
  by (simp_all add: ls_emit_def)

text \<open>The events of the sinks, the newest first.\<close>

definition sink_events :: "LogMessage \<Rightarrow> nat list \<Rightarrow> log_event list" where
  "sink_events m ks = concat (map (\<lambda>k. [Ev_Wait k, Ev_Send k (lm_severity m) (lm_category m) (lm_filename m) (lm_line m) (lm_tm m)
     (lm_usecs m) (drop (lm_prefix m) (lm_buf m)) (nat ((int (length (lm_buf m)) - int (lm_prefix m) - 1) mod 2 ^ 64))]) ks)"

lemma LogToSinks_eq: "LogToSinks m s = s\<lparr>ls_out := sink_events m (sinks s) @ ls_out s\<rparr>"
proof -
  have "fold (\<lambda>sink s. ls_emit (Ev_Wait sink) (ls_emit (Ev_Send sink (lm_severity m) (lm_category m) (lm_filename m) (lm_line m) (lm_tm m)
         (lm_usecs m) (drop (lm_prefix m) (lm_buf m)) (nat ((int (length (lm_buf m)) - int (lm_prefix m) - 1) mod 2 ^ 64))) s)) (rev ks) s =
      s\<lparr>ls_out := sink_events m ks @ ls_out s\<rparr>" for ks s
    by (induction ks arbitrary: s) (simp_all add: sink_events_def ls_emit_def)
  then show ?thesis by (simp add: LogToSinks_def)
qed

text \<open>Where a message goes, when it is sent at all.\<close>

definition warning_line :: string where
  "warning_line = ''WARNING: Logging before InitLogging() is written to STDERR'' @ [CHR 0x0A]"

definition delivered :: "LogMessage \<Rightarrow> LogState \<Rightarrow> LogState \<Rightarrow> bool" where
  "delivered m s t \<longleftrightarrow> t = s\<lparr>ls_out := sink_events m (sinks s) @ (if g_log_to_stderr s then [Ev_Stderr (lm_buf m)] else []) @
        (if \<not> already_warned s \<and> \<not> g_init_logging s then [Ev_Stderr warning_line] else []) @ ls_out s,
     already_warned := already_warned s \<or> \<not> g_init_logging s,
     log_destination := (if g_init_logging s \<and> g_log_to_file s then map_option (LogFile_Write (lm_buf m) False) (log_destination s) else log_destination s)\<rparr>"

lemma SendToLog_outcome:
  assumes "ls_ok s"
  shows "if lm_severity m = LOG_FATAL then \<exists>t. SendToLog m s = Aborts t else \<exists>t. SendToLog m s = Goes_On t \<and> delivered m s t"
  using assms by (cases "log_destination s"; cases "already_warned s"; cases "g_init_logging s")
    (auto simp: SendToLog_def LogToSinks_eq LogToStderr_def LogToFile_def Let_def delivered_def warning_line_def ls_ok_def ls_emit_def)

subsection \<open>A whole statement\<close>

text \<open>The text of a message: what fits of prefix and text, ended by a newline.\<close>

definition log_line :: "msg_env \<Rightarrow> LogSeverity \<Rightarrow> string \<Rightarrow> string \<Rightarrow> int \<Rightarrow> string \<Rightarrow> string" where
  "log_line env severity category file line txt =
     (let body = take 1022 (message_prefix env severity category (const_basename file) line @ txt)
      in if last body \<noteq> CHR 0x0A then body @ [CHR 0x0A] else body)"

lemma take_take_append: "take n (take n xs @ ys) = take n (xs @ ys)"
  by (cases "n \<le> length xs") simp_all

lemma message_prefix_nonempty: "message_prefix env sev cat file line = CHR ''['' # tl (message_prefix env sev cat file line)"
  by (simp add: message_prefix_def)

text \<open>The message as its destructor sees it.\<close>

definition log_record :: "msg_env \<Rightarrow> LogSeverity \<Rightarrow> string \<Rightarrow> string \<Rightarrow> int \<Rightarrow> string \<Rightarrow> bool \<Rightarrow> LogMessage" where
  "log_record env severity category file line txt on_thread =
     \<lparr>lm_buf = log_line env severity category file line txt, lm_severity = severity, lm_line = line, lm_tm = me_tm env, lm_usecs = me_usecs env,
      lm_prefix = min 1022 (length (message_prefix env severity category (const_basename file) line)), lm_filename = const_basename file,
      lm_category = category, lm_flushed = False, lm_on_thread = on_thread\<rparr>"

definition take_buffer :: "LogState \<Rightarrow> LogState" where
  "take_buffer s = (if thread_msg_data_available s then s\<lparr>thread_msg_data_available := False\<rparr> else s\<lparr>allocated_data := allocated_data s + 1\<rparr>)"

definition give_buffer :: "bool \<Rightarrow> LogState \<Rightarrow> LogState" where
  "give_buffer on_thread s = (if on_thread then s\<lparr>thread_msg_data_available := True\<rparr> else s\<lparr>allocated_data := allocated_data s - 1\<rparr>)"

lemma log_stream_eq:
  "log_stream E env category severity file line txt s =
     (if CategoryActivated E category severity
      then log_then (SendToLog (log_record env severity category file line txt (thread_msg_data_available s)) (take_buffer s))
             (\<lambda>t. Goes_On (give_buffer (thread_msg_data_available s) t))
      else Goes_On s)"
proof -
  let ?p = "message_prefix env severity category (const_basename file) line"
  define b where "b = take 1022 (?p @ txt)"
  have ne: "b \<noteq> []" using message_prefix_nonempty [of env severity category "const_basename file" line]
    by (metis append_Cons b_def list.discI take_eq_Nil2 zero_neq_numeral)
  have restored: "give_buffer (thread_msg_data_available s) (take_buffer s) = s" by (simp add: give_buffer_def take_buffer_def)
  have stream: "log_line env severity category file line txt = (if last b \<noteq> CHR 0x0A then b @ [CHR 0x0A] else b)"
    by (simp only: log_line_def Let_def b_def)
  have "log_stream E env category severity file line txt s =
      log_then (LogMessage_Flush E (log_record env severity category file line txt (thread_msg_data_available s)\<lparr>lm_buf := b\<rparr>) (take_buffer s))
        (\<lambda>t. Goes_On (give_buffer (thread_msg_data_available s) t))"
    by (simp add: log_stream_def LogMessage_Init_def LogMessage_destroy_def stream_put_def MaxLogMsgLen_def log_record_def take_take_append
        take_buffer_def give_buffer_def min.commute b_def del: take_append)
  then show ?thesis using ne restored by (simp add: LogMessage_Flush_def log_record_def stream)
qed

lemma give_take:
  assumes "delivered m (take_buffer s) t"
  shows "delivered m s (give_buffer (thread_msg_data_available s) t)"
  using assms by (simp add: delivered_def take_buffer_def give_buffer_def)

lemma log_stream_outcome:
  assumes "ls_ok s"
  shows "if \<not> CategoryActivated E category severity then log_stream E env category severity file line txt s = Goes_On s
    else if severity = LOG_FATAL then \<exists>t. log_stream E env category severity file line txt s = Aborts t
    else \<exists>t m. log_stream E env category severity file line txt s = Goes_On t \<and>
      m = log_record env severity category file line txt (thread_msg_data_available s) \<and> delivered m s t"
proof -
  have "ls_ok (take_buffer s)" using assms by (simp add: ls_ok_def take_buffer_def)
  from SendToLog_outcome [OF this, of "log_record env severity category file line txt (thread_msg_data_available s)"]
  show ?thesis using give_take by (auto simp: log_stream_eq log_record_def)
qed

lemma delivered_ok: "ls_ok s \<Longrightarrow> delivered m s t \<Longrightarrow> ls_ok t \<and> same_buffers s t"
  using lf_inv_do [of _ "LA_Write (lm_buf m) False"] by (auto simp: ls_ok_def delivered_def same_buffers_def)

lemma log_stream_safe:
  assumes "ls_ok s"
  shows "case log_stream E env category severity file line txt s of Goes_On t \<Rightarrow> ls_ok t \<and> same_buffers s t | Aborts t \<Rightarrow> True | Log_UB \<Rightarrow> False"
  using log_stream_outcome [OF assms, of E category severity env "file" line "txt"] delivered_ok [OF assms] assms
  by (auto simp: same_buffers_def split: if_splits)

lemma log_do_safe:
  assumes "ls_ok s"
  shows "case log_do E disk c s of Goes_On t \<Rightarrow> ls_ok t \<and> same_buffers s t | Aborts t \<Rightarrow> True | Log_UB \<Rightarrow> False"
proof (cases c)
  case (Op_Thread a)
  show ?thesis
  proof (cases "log_destination s")
    case (Some f)
    then have "lf_inv f" using assms by (simp add: ls_ok_def)
    from lf_inv_do [OF this, of "LA_Thread a"] obtain g where "WriteFileLoop a f = Some g" "lf_inv g" by auto
    then show ?thesis using Op_Thread Some assms by (simp add: ls_ok_def same_buffers_def)
  qed (use Op_Thread assms in \<open>simp add: same_buffers_def\<close>)
next
  case (Op_Init err to_file dir)
  then show ?thesis using assms lf_inv_new by (auto simp: InitLogging_def CreateLogDestination_def ls_ok_def same_buffers_def Let_def)
next
  case Op_Shutdown
  then show ?thesis using assms by (auto simp: ShutdownLogging_def DeleteLogDestination_def ls_ok_def same_buffers_def split: option.split)
qed (use assms log_stream_safe [OF assms] in \<open>auto simp: AddLogSink_def RemoveLogSink_def SetFileFlushInterval_def ls_ok_def same_buffers_def
      edk_log_def LOGF_def CHECK_def\<close>)


text \<open>C37: An active message that is not fatal is delivered exactly once to everyone: one line on stderr if that
  is on, to each sink as often as it is registered and not removed, in the reverse order of the
  list, and one entry in the queue of the log file if there is one; the warning comes first, at most
  once. The line is the prefix and the text, cut to 1022 characters, with one newline added where
  it has none. An inactive message changes nothing.\<close>

theorem log_delivery:
  assumes "ls_ok s" and "severity \<noteq> LOG_FATAL"
  shows "if \<not> LogActivated E category severity then edk_log E env category severity file line txt s = Goes_On s
    else \<exists>t. edk_log E env category severity file line txt s = Goes_On t \<and>
      ls_out t = sink_events (log_record env severity category file line txt (thread_msg_data_available s)) (sinks s) @ (if g_log_to_stderr s then [Ev_Stderr (log_line env severity category file line txt)] else []) @
        (if \<not> already_warned s \<and> \<not> g_init_logging s then [Ev_Stderr warning_line] else []) @ ls_out s \<and>
      log_destination t = (if g_init_logging s \<and> g_log_to_file s
        then map_option (LogFile_Write (log_line env severity category file line txt) False) (log_destination s) else log_destination s) \<and>
      sinks t = sinks s \<and> already_warned t = (already_warned s \<or> \<not> g_init_logging s) \<and> g_init_logging t = g_init_logging s"
proof -
  have active: "LogActivated E category severity \<Longrightarrow> CategoryActivated E category severity"
    by (auto simp: LogActivated_def CategoryActivated_def split: if_splits)
  show ?thesis
    using log_stream_outcome [OF assms(1), of E category severity env "file" line "txt"] assms(2) active
    by (auto simp: edk_log_def delivered_def log_record_def split: if_splits)
qed

subsection \<open>\<open>CHECK\<close>\<close>

text \<open>Without a filter, and with a level that is not negative, a failing check ends the program.\<close>

lemma check_aborts:
  assumes "ls_ok s" and "EDK_LOG_FILTER E = None" and "0 \<le> g_min_log_level E"
  shows "\<exists>t. CHECK E env category False what file line txt s = Aborts t"
  using log_stream_outcome [OF assms(1), of E "check_name category" LOG_FATAL env "file" line "''Check condition ('' @ what @ '') failed'' @ txt"] assms(2,3)
  by (simp add: CHECK_def LOGF_def CategoryActivated_def g_enable_category_filter_def)

text \<open>A filter on categories switches the checks of the program off: while one is set whose entries are plain
  names, a \<open>CHECK\<close> whose condition is false prints nothing, does not end the program, and changes
  nothing; the same holds for a fatal message of a category without an entry. Without a filter, and
  with a level that is not negative, both end the program.\<close>

theorem filter_disables_checks:
  assumes "\<forall>e\<in>set es. filter_entry_ok e \<and> CHR ''('' \<notin> set (fst e)" and "es \<noteq> []" and "EDK_LOG_FILTER E = Some v"
    and "filter (\<lambda>x. x \<noteq> CHR '' '') v = print_filter es" and "ls_ok s"
  shows "CHECK E env category False what file line txt s = Goes_On s \<and>
    (\<exists>t. CHECK (E\<lparr>EDK_LOG_FILTER := None, EDK_LOG_LEVEL := None\<rparr>) env category False what file line txt s = Aborts t)"
proof -
  have "CHECK E env category False what file line txt s = Goes_On s"
    using log_stream_outcome [OF assms(5), of E "check_name category" LOG_FATAL env "file" line "''Check condition ('' @ what @ '') failed'' @ txt"]
      check_not_active [OF assms(1-4)]
    by (simp add: CHECK_def LOGF_def)
  then show ?thesis using check_aborts [OF assms(5), of "E\<lparr>EDK_LOG_FILTER := None, EDK_LOG_LEVEL := None\<rparr>"]
    by (simp add: g_min_log_level_def)
qed

lemma LogState0_ok: "ls_ok LogState0"
  by (simp add: ls_ok_def LogState0_def)

lemma filter_disables_checks_witness:
  "CHECK \<lparr>EDK_LOG_LEVEL = None, EDK_LOG_FILTER = Some ''INFER:3''\<rparr> env ''INFER'' False ''param'' ''a.cpp'' 1 '''' LogState0 = Goes_On LogState0"
proof -
  have entries: "\<forall>e\<in>set [(''INFER'', 3 :: int)]. filter_entry_ok e \<and> CHR ''('' \<notin> set (fst e)" by (simp add: filter_entry_ok_def)
  have spec: "filter (\<lambda>x. x \<noteq> CHR '' '') ''INFER:3'' = print_filter [(''INFER'', 3)]" by code_simp
  show ?thesis by (rule filter_disables_checks [OF entries _ _ spec LogState0_ok, THEN conjunct1]) simp_all
qed

definition demo_msg_env :: msg_env where
  "demo_msg_env = \<lparr>me_tm = \<lparr>tm_year = 124, tm_mon = 0, tm_mday = 31, tm_hour = 9, tm_min = 5, tm_sec = 0\<rparr>, me_usecs = 42,
     me_tid = 77, me_ndebug = True\<rparr>"

lemma log_delivery_witness:
  "\<exists>t. edk_log \<lparr>EDK_LOG_LEVEL = Some ''3'', EDK_LOG_FILTER = None\<rparr> demo_msg_env ''INFER'' LOG_INFO ''a.cpp'' 1 ''x'' (AddLogSink 7 LogState0) = Goes_On t \<and>
     length (ls_out t) = 4"
proof -
  have "g_min_log_level \<lparr>EDK_LOG_LEVEL = Some ''3'', EDK_LOG_FILTER = None\<rparr> = 3" by code_simp
  then have "LogActivated \<lparr>EDK_LOG_LEVEL = Some ''3'', EDK_LOG_FILTER = None\<rparr> ''INFER'' LOG_INFO"
    by (simp add: LogActivated_def g_enable_category_filter_def)
  moreover have "ls_ok (AddLogSink 7 LogState0)" by (simp add: ls_ok_def AddLogSink_def LogState0_def)
  ultimately show ?thesis
    using log_delivery [of "AddLogSink 7 LogState0" LOG_INFO "\<lparr>EDK_LOG_LEVEL = Some ''3'', EDK_LOG_FILTER = None\<rparr>" "''INFER''" demo_msg_env "''a.cpp''" 1 "''x''"]
    by (auto simp: sink_events_def AddLogSink_def LogState0_def)
qed

end
