(* ===== verification/Sync_Primitives.thy ===== *)
theory Sync_Primitives
  imports Prelude
begin

text \<open>
  The helpers for threads in easydk/include/cxxutil: the blocking queue (threadsafe_queue.h) with
  its mutex and condition variable, the spin lock (spinlock.h), the lock for many readers or one
  writer (rwlock.h), and their guards. A step is what one thread does while it holds the mutex, or
  one call of pthreads; threads are numbers. The locks are those of pthreads: an acquisition that
  would wait is not possible in that state, and releasing a lock one does not hold is undefined.
\<close>

subsection \<open>The blocking queue\<close>

text \<open>
  \<open>tsq_waiting\<close> are the threads asleep on the condition variable, \<open>tsq_woken\<close> those that were woken
  and have not yet looked at the queue again; both with whether they wait with a time limit.
\<close>

record 'a ThreadSafeQueue =
  tsq_q :: "'a list"
  tsq_waiting :: "(nat \<times> bool) list"
  tsq_woken :: "(nat \<times> bool) list"

definition ThreadSafeQueue_new :: "'a ThreadSafeQueue" where
  "ThreadSafeQueue_new = \<lparr>tsq_q = [], tsq_waiting = [], tsq_woken = []\<rparr>"

definition tsq_TryPop :: "'a ThreadSafeQueue \<Rightarrow> 'a option \<times> 'a ThreadSafeQueue" where
  "tsq_TryPop s = (case tsq_q s of [] \<Rightarrow> (None, s) | x # q \<Rightarrow> (Some x, s\<lparr>tsq_q := q\<rparr>))"

text \<open>\<open>notify_one\<close> wakes some sleeping thread, here the \<open>i\<close>-th.\<close>

definition notify_one :: "nat \<Rightarrow> 'a ThreadSafeQueue \<Rightarrow> 'a ThreadSafeQueue" where
  "notify_one i s =
     (if tsq_waiting s = [] then s
      else let w = tsq_waiting s; i = i mod length w
           in s\<lparr>tsq_waiting := take i w @ drop (Suc i) w, tsq_woken := w ! i # tsq_woken s\<rparr>)"

definition tsq_Push :: "nat \<Rightarrow> 'a \<Rightarrow> 'a ThreadSafeQueue \<Rightarrow> 'a ThreadSafeQueue" where
  "tsq_Push i new_value s = notify_one i (s\<lparr>tsq_q := tsq_q s @ [new_value]\<rparr>)"

text \<open>Looking at the queue with the condition of the wait: an element, or to sleep.\<close>

definition tsq_look :: "nat \<times> bool \<Rightarrow> 'a ThreadSafeQueue \<Rightarrow> 'a option \<times> 'a ThreadSafeQueue" where
  "tsq_look w s =
     (case tsq_q s of [] \<Rightarrow> (None, s\<lparr>tsq_waiting := tsq_waiting s @ [w]\<rparr>) | x # q \<Rightarrow> (Some x, s\<lparr>tsq_q := q\<rparr>))"

definition tsq_WaitAndPop :: "nat \<Rightarrow> 'a ThreadSafeQueue \<Rightarrow> 'a option \<times> 'a ThreadSafeQueue" where
  "tsq_WaitAndPop thread s = tsq_look (thread, False) s"

definition tsq_WaitAndTryPop :: "nat \<Rightarrow> 'a ThreadSafeQueue \<Rightarrow> 'a option \<times> 'a ThreadSafeQueue" where
  "tsq_WaitAndTryPop thread s = tsq_look (thread, True) s"

text \<open>A woken thread, and one whose time is up, look again; the latter returns whatever it finds.\<close>

definition tsq_resume :: "nat \<Rightarrow> 'a ThreadSafeQueue \<Rightarrow> 'a option \<times> 'a ThreadSafeQueue" where
  "tsq_resume i s =
     (if i < length (tsq_woken s)
      then tsq_look (tsq_woken s ! i) (s\<lparr>tsq_woken := take i (tsq_woken s) @ drop (Suc i) (tsq_woken s)\<rparr>)
      else (None, s))"

definition tsq_timeout :: "nat \<Rightarrow> 'a ThreadSafeQueue \<Rightarrow> 'a option \<times> 'a ThreadSafeQueue" where
  "tsq_timeout i s =
     (if i < length (tsq_waiting s) \<and> snd (tsq_waiting s ! i)
      then tsq_TryPop (s\<lparr>tsq_waiting := take i (tsq_waiting s) @ drop (Suc i) (tsq_waiting s)\<rparr>)
      else (None, s))"

definition tsq_Empty :: "'a ThreadSafeQueue \<Rightarrow> bool" where "tsq_Empty s \<longleftrightarrow> tsq_q s = []"

definition tsq_Size :: "'a ThreadSafeQueue \<Rightarrow> u32" where "tsq_Size s = word_of_nat (length (tsq_q s))"

text \<open>A history: every element that some call returned is recorded in the order of the returns.\<close>

datatype 'a tsq_op = Q_Push nat 'a | Q_TryPop | Q_WaitAndPop nat | Q_WaitAndTryPop nat | Q_Resume nat | Q_Timeout nat | Q_Spurious nat

fun tsq_do :: "'a tsq_op \<Rightarrow> 'a ThreadSafeQueue \<Rightarrow> 'a option \<times> 'a ThreadSafeQueue" where
  "tsq_do (Q_Push i x) s = (None, tsq_Push i x s)"
| "tsq_do Q_TryPop s = tsq_TryPop s"
| "tsq_do (Q_WaitAndPop t) s = tsq_WaitAndPop t s"
| "tsq_do (Q_WaitAndTryPop t) s = tsq_WaitAndTryPop t s"
| "tsq_do (Q_Resume i) s = tsq_resume i s"
| "tsq_do (Q_Timeout i) s = tsq_timeout i s"
| "tsq_do (Q_Spurious i) s = (None, notify_one i s)"

fun tsq_run :: "'a tsq_op list \<Rightarrow> 'a ThreadSafeQueue \<Rightarrow> 'a list \<times> 'a ThreadSafeQueue" where
  "tsq_run [] s = ([], s)"
| "tsq_run (c # cs) s =
     (let (x, s) = tsq_do c s; (xs, s) = tsq_run cs s in (case x of None \<Rightarrow> xs | Some x \<Rightarrow> x # xs, s))"

fun pushed :: "'a tsq_op list \<Rightarrow> 'a list" where
  "pushed [] = []"
| "pushed (Q_Push i x # cs) = x # pushed cs"
| "pushed (_ # cs) = pushed cs"

text \<open>Whoever sleeps, sleeps for good reason: there are no more elements than threads about to take one.\<close>

definition tsq_ok :: "'a ThreadSafeQueue \<Rightarrow> bool" where
  "tsq_ok s \<longleftrightarrow> (tsq_waiting s \<noteq> [] \<longrightarrow> length (tsq_q s) \<le> length (tsq_woken s))"

lemma notify_one_simps [simp]:
  "tsq_q (notify_one i s) = tsq_q s" "tsq_waiting s = [] \<Longrightarrow> notify_one i s = s"
  "length (tsq_woken (notify_one i s)) = length (tsq_woken s) + (if tsq_waiting s = [] then 0 else 1)"
  by (simp_all add: notify_one_def Let_def)

lemma tsq_do_ok:
  assumes "tsq_ok s" and "tsq_do c s = (x, t)"
  shows "tsq_ok t" and "tsq_q s @ pushed [c] = (case x of None \<Rightarrow> [] | Some x \<Rightarrow> [x]) @ tsq_q t"
  using assms by (cases c; cases "tsq_q s"; fastforce simp: tsq_ok_def tsq_Push_def tsq_TryPop_def tsq_WaitAndPop_def tsq_WaitAndTryPop_def
      tsq_look_def tsq_resume_def tsq_timeout_def split: if_splits)+

lemma tsq_run_ok:
  assumes "tsq_ok s" and "tsq_run cs s = (xs, t)"
  shows "tsq_ok t \<and> tsq_q s @ pushed cs = xs @ tsq_q t"
  using assms
proof (induction cs arbitrary: s xs)
  case (Cons c cs)
  obtain x u where c: "tsq_do c s = (x, u)" by fastforce
  obtain ys where r: "tsq_run cs u = (ys, t)" "xs = (case x of None \<Rightarrow> ys | Some x \<Rightarrow> x # ys)"
    using Cons.prems(2) c by (cases "tsq_run cs u") auto
  note u = tsq_do_ok [OF Cons.prems(1) c]
  have "tsq_q s @ pushed (c # cs) = (tsq_q s @ pushed [c]) @ pushed cs" by (cases c) simp_all
  also have "\<dots> = (case x of None \<Rightarrow> [] | Some x \<Rightarrow> [x]) @ tsq_q u @ pushed cs" by (simp add: u(2))
  also have "\<dots> = xs @ tsq_q t" using Cons.IH [OF u(1) r(1)] r(2) by (cases x) simp_all
  finally show ?case using Cons.IH [OF u(1) r(1)] by simp
qed simp

text \<open>C39: The blocking queue under any interleaving of its threads, spurious wake-ups and time-outs included:
  the elements returned, in the order they are returned, followed by those still queued, are exactly
  the elements pushed in their order; and no wake-up is lost: a thread sleeps only while there are
  at least as many woken threads as elements.\<close>

theorem queue_fifo:
  "case tsq_run cs ThreadSafeQueue_new of
     (xs, s) \<Rightarrow> xs @ tsq_q s = pushed cs \<and> (tsq_waiting s \<noteq> [] \<longrightarrow> length (tsq_q s) \<le> length (tsq_woken s))"
proof -
  obtain xs s where r: "tsq_run cs ThreadSafeQueue_new = (xs, s)" by fastforce
  have "tsq_ok (ThreadSafeQueue_new :: 'a ThreadSafeQueue)" "tsq_q (ThreadSafeQueue_new :: 'a ThreadSafeQueue) = []"
    by (simp_all add: tsq_ok_def ThreadSafeQueue_new_def)
  with tsq_run_ok [OF _ r] show ?thesis by (simp add: r tsq_ok_def)
qed

text \<open>Two threads wait, two elements arrive, the first thread that is woken takes one.\<close>

lemma queue_fifo_witness:
  "case tsq_run [Q_WaitAndPop 1, Q_WaitAndTryPop 2, Q_Push 0 ''a'', Q_Push 0 ''b'', Q_Resume 0, Q_WaitAndPop 3] ThreadSafeQueue_new of
     (xs, s) \<Rightarrow> xs = [''a'', ''b''] \<and> xs @ tsq_q s = [''a'', ''b''] \<and> length (tsq_q s) \<le> length (tsq_woken s)"
  using queue_fifo [of "[Q_WaitAndPop 1, Q_WaitAndTryPop 2, Q_Push 0 ''a'', Q_Push 0 ''b'', Q_Resume 0, Q_WaitAndPop 3]"]
  by (simp add: ThreadSafeQueue_new_def tsq_WaitAndPop_def tsq_WaitAndTryPop_def tsq_look_def tsq_Push_def notify_one_def tsq_resume_def)

subsection \<open>Locks and their guards\<close>

text \<open>
  What a guard relies on: acquiring by a client that does not hold the lock gives it to that client
  only; a client that holds it can release it, and nobody else's hold changes.
\<close>

locale guarded_lock =
  fixes acquire :: "'c \<Rightarrow> 's \<Rightarrow> 's option"
    and release :: "'c \<Rightarrow> 's \<Rightarrow> 's option"
    and holds :: "'s \<Rightarrow> 'c \<Rightarrow> bool"
    and compatible :: "'s \<Rightarrow> bool"
  assumes acquired: "compatible s \<Longrightarrow> acquire c s = Some t \<Longrightarrow> \<not> holds s c \<and> holds t = (holds s)(c := True) \<and> compatible t"
    and released: "compatible s \<Longrightarrow> holds s c \<Longrightarrow> \<exists>t. release c s = Some t \<and> holds t = (holds s)(c := False) \<and> compatible t"
begin

end

text \<open>
  Clients with one guard each: the flag of the guard, or \<open>None\<close> when the client has none. \<open>Lock\<close> and
  \<open>Unlock\<close> look at the flag; an acquisition that would wait leaves the state as it is.
\<close>

datatype 'c guard_op = G_Construct 'c | G_Lock 'c | G_Unlock 'c | G_Destroy 'c

definition guard_acquire :: "('c \<Rightarrow> 's \<Rightarrow> 's option) \<Rightarrow> 'c \<Rightarrow> 's \<times> ('c \<Rightarrow> bool option) \<Rightarrow> 's \<times> ('c \<Rightarrow> bool option)" where
  "guard_acquire acquire c = (\<lambda>(s, g). case acquire c s of None \<Rightarrow> (s, g) | Some t \<Rightarrow> (t, g(c \<mapsto> True)))"

text \<open>One operation of a client's guard: \<open>None\<close> is undefined behaviour. A client constructs a guard only when it has none.\<close>

fun guard_do :: "('c \<Rightarrow> 's \<Rightarrow> 's option) \<Rightarrow> ('c \<Rightarrow> 's \<Rightarrow> 's option) \<Rightarrow> 'c guard_op \<Rightarrow> 's \<times> ('c \<Rightarrow> bool option) \<Rightarrow>
    ('s \<times> ('c \<Rightarrow> bool option)) option" where
  "guard_do acquire release (G_Construct c) (s, g) = (if g c = None then Some (guard_acquire acquire c (s, g)) else Some (s, g))"
| "guard_do acquire release (G_Lock c) (s, g) = (if g c = Some False then Some (guard_acquire acquire c (s, g)) else Some (s, g))"
| "guard_do acquire release (G_Unlock c) (s, g) =
     (if g c = Some True then map_option (\<lambda>t. (t, g(c \<mapsto> False))) (release c s) else Some (s, g))"
| "guard_do acquire release (G_Destroy c) (s, g) =
     (if g c = Some True then map_option (\<lambda>t. (t, g(c := None))) (release c s) else Some (s, g(c := None)))"

fun guard_run :: "('c \<Rightarrow> 's \<Rightarrow> 's option) \<Rightarrow> ('c \<Rightarrow> 's \<Rightarrow> 's option) \<Rightarrow> 'c guard_op list \<Rightarrow> 's \<times> ('c \<Rightarrow> bool option) \<Rightarrow>
    ('s \<times> ('c \<Rightarrow> bool option)) option" where
  "guard_run acquire release [] sg = Some sg"
| "guard_run acquire release (c # cs) sg = (case guard_do acquire release c sg of None \<Rightarrow> None | Some sg \<Rightarrow> guard_run acquire release cs sg)"

context guarded_lock
begin

definition guards_ok :: "'s \<times> ('c \<Rightarrow> bool option) \<Rightarrow> bool" where
  "guards_ok sg \<longleftrightarrow> compatible (fst sg) \<and> (\<forall>c. holds (fst sg) c \<longleftrightarrow> snd sg c = Some True)"

lemma guard_do_ok:
  assumes "guards_ok sg"
  shows "\<exists>tg. guard_do acquire release op sg = Some tg \<and> guards_ok tg"
proof -
  obtain s g where sg: "sg = (s, g)" by (cases sg)
  have ok: "compatible s" "\<And>c. holds s c \<longleftrightarrow> g c = Some True" using assms by (simp_all add: sg guards_ok_def)
  have acq: "guards_ok (guard_acquire acquire c (s, g))" for c
    using acquired [OF ok(1), of c] ok by (auto simp: guard_acquire_def guards_ok_def split: option.split)
  have rel: "\<exists>t. release c s = Some t \<and> guards_ok (t, g(c := x))" if "g c = Some True" "x \<noteq> Some True" for c x
    using released [OF ok(1), of c] ok that by (auto simp: guards_ok_def)
  show ?thesis
  proof (cases op)
    case (G_Unlock c)
    then show ?thesis using rel [of c "Some False"] assms by (auto simp: sg)
  next
    case (G_Destroy c)
    then show ?thesis using rel [of c None] ok by (auto simp: sg guards_ok_def)
  qed (use acq assms in \<open>auto simp: sg simp del: split_paired_Ex\<close>)
qed

lemma guard_run_ok: "guards_ok sg \<Longrightarrow> \<exists>tg. guard_run acquire release ops sg = Some tg \<and> guards_ok tg"
proof (induction ops arbitrary: sg)
  case (Cons c cs)
  from guard_do_ok [OF Cons.prems, of c] obtain tg where "guard_do acquire release c sg = Some tg" "guards_ok tg" by blast
  then show ?case using Cons.IH by simp
qed simp

end

text \<open>The spin lock: who holds it.\<close>

type_synonym SpinLock = "nat option"

definition SpinLock_Lock :: "nat \<Rightarrow> SpinLock \<Rightarrow> SpinLock option" where
  "SpinLock_Lock t l = (if l = None then Some (Some t) else None)"

definition SpinLock_Unlock :: "nat \<Rightarrow> SpinLock \<Rightarrow> SpinLock option" where
  "SpinLock_Unlock t l = (if l = Some t then Some None else None)"

interpretation spin: guarded_lock SpinLock_Lock SpinLock_Unlock "\<lambda>l t. l = Some t" "\<lambda>l. True"
  by unfold_locales (auto simp: SpinLock_Lock_def SpinLock_Unlock_def fun_eq_iff split: if_splits)

text \<open>The read write lock: the writer, and the readers; a client is a thread with its mode of access.\<close>

record RwLock =
  rw_writer :: "nat option"
  rw_readers :: "nat set"

definition RwLock_WriteLock :: "nat \<Rightarrow> RwLock \<Rightarrow> RwLock option" where
  "RwLock_WriteLock t l = (if rw_writer l = None \<and> rw_readers l = {} then Some (l\<lparr>rw_writer := Some t\<rparr>) else None)"

definition RwLock_ReadLock :: "nat \<Rightarrow> RwLock \<Rightarrow> RwLock option" where
  "RwLock_ReadLock t l = (if rw_writer l = None \<and> t \<notin> rw_readers l then Some (l\<lparr>rw_readers := insert t (rw_readers l)\<rparr>) else None)"

definition RwLock_Unlock :: "nat \<Rightarrow> RwLock \<Rightarrow> RwLock option" where
  "RwLock_Unlock t l =
     (if rw_writer l = Some t then Some (l\<lparr>rw_writer := None\<rparr>)
      else if t \<in> rw_readers l then Some (l\<lparr>rw_readers := rw_readers l - {t}\<rparr>) else None)"

text \<open>A thread with a write guard or a read guard: \<open>True\<close> is writing.\<close>

fun rw_acquire :: "nat \<times> bool \<Rightarrow> RwLock \<Rightarrow> RwLock option" where
  "rw_acquire (t, True) l = RwLock_WriteLock t l"
| "rw_acquire (t, False) l = RwLock_ReadLock t l"

fun rw_release :: "nat \<times> bool \<Rightarrow> RwLock \<Rightarrow> RwLock option" where
  "rw_release (t, w) l = RwLock_Unlock t l"

definition rw_holds :: "RwLock \<Rightarrow> nat \<times> bool \<Rightarrow> bool" where
  "rw_holds l c \<longleftrightarrow> (if snd c then rw_writer l = Some (fst c) else fst c \<in> rw_readers l)"

definition rw_exclusive :: "RwLock \<Rightarrow> bool" where
  "rw_exclusive l \<longleftrightarrow> rw_writer l = None \<or> rw_readers l = {}"

interpretation rw: guarded_lock rw_acquire rw_release rw_holds rw_exclusive
proof
  fix s c t assume ok: "rw_exclusive s" and acq: "rw_acquire c s = Some t"
  show "\<not> rw_holds s c \<and> rw_holds t = (rw_holds s)(c := True) \<and> rw_exclusive t"
    using ok acq by (cases c; cases "snd c") (auto simp: rw_holds_def RwLock_WriteLock_def RwLock_ReadLock_def rw_exclusive_def fun_eq_iff split: if_splits)
next
  fix s c assume ok: "rw_exclusive s" and h: "rw_holds s c"
  show "\<exists>t. rw_release c s = Some t \<and> rw_holds t = (rw_holds s)(c := False) \<and> rw_exclusive t"
    using ok h by (cases c; cases "snd c") (auto simp: rw_holds_def RwLock_Unlock_def rw_exclusive_def fun_eq_iff split: if_splits)
qed

text \<open>Guards of a spin lock, one per thread and used in any order: whatever locking, unlocking and
  destroying the threads interleave, no lock is ever released by a thread that does not hold it, a
  guard's flag says exactly whether its thread holds the lock, and never two of them do; a thread
  without a guard does not hold it.\<close>

theorem spin_guards:
  "\<exists>l g. guard_run SpinLock_Lock SpinLock_Unlock ops (None, Map.empty) = Some (l, g) \<and>
     (\<forall>t. l = Some t \<longleftrightarrow> g t = Some True) \<and> (\<forall>t u. g t = Some True \<longrightarrow> g u = Some True \<longrightarrow> t = u)"
proof -
  have "spin.guards_ok (None, Map.empty)" by (simp add: spin.guards_ok_def)
  from spin.guard_run_ok [OF this, of ops] obtain tg where
    "guard_run SpinLock_Lock SpinLock_Unlock ops (None, Map.empty) = Some tg" "spin.guards_ok tg" by blast
  moreover obtain l g where tg: "tg = (l, g)" by (cases tg)
  ultimately have "\<And>t. l = Some t \<longleftrightarrow> g t = Some True" by (simp add: spin.guards_ok_def)
  moreover from this have "t = u" if "g t = Some True" "g u = Some True" for t u using that by (metis option.inject)
  ultimately show ?thesis using \<open>guard_run SpinLock_Lock SpinLock_Unlock ops (None, Map.empty) = Some tg\<close> tg by blast
qed

text \<open>Guards of the read write lock: under any interleaving, no release is undefined, each guard holds the
  lock in its own mode until it is destroyed, and while one thread writes nobody else reads or
  writes.\<close>

theorem rw_guards:
  "\<exists>l g. guard_run rw_acquire rw_release ops (\<lparr>rw_writer = None, rw_readers = {}\<rparr>, Map.empty) = Some (l, g) \<and>
     (\<forall>c. rw_holds l c \<longleftrightarrow> g c = Some True) \<and> (\<forall>t c. g (t, True) = Some True \<longrightarrow> g c = Some True \<longrightarrow> c = (t, True))"
proof -
  have "rw_holds \<lparr>rw_writer = None, rw_readers = {}\<rparr> c = False" for c by (simp add: rw_holds_def)
  then have "rw.guards_ok (\<lparr>rw_writer = None, rw_readers = {}\<rparr>, Map.empty)" by (simp add: rw.guards_ok_def rw_exclusive_def)
  from rw.guard_run_ok [OF this, of ops] obtain tg where
    tg: "guard_run rw_acquire rw_release ops (\<lparr>rw_writer = None, rw_readers = {}\<rparr>, Map.empty) = Some tg" "rw.guards_ok tg" by blast
  obtain l g where lg: "tg = (l, g)" by (cases tg)
  have r: "guard_run rw_acquire rw_release ops (\<lparr>rw_writer = None, rw_readers = {}\<rparr>, Map.empty) = Some (l, g)" "rw_exclusive l"
    "\<And>c. rw_holds l c \<longleftrightarrow> g c = Some True" using tg by (simp_all add: lg rw.guards_ok_def del: split_paired_All)
  have "c = (t, True)" if "g (t, True) = Some True" "g c = Some True" for t c
    using that r(2) r(3) [of "(t, True)"] r(3) [of c] by (cases c; cases "snd c") (auto simp: rw_exclusive_def rw_holds_def)
  with r show ?thesis by blast
qed



end
