(* ===== verification/Half_Float.thy ===== *)
theory Half_Float
  imports Prelude
begin

text \<open>
  The half precision numbers of the resize kernels (easydk/src/easybang/resize_and_convert/half.cpp
  and half.hpp): the conversions from and to \<open>float\<close> on their bits, and the operators, which compute
  in \<open>float\<close>. A \<open>float\<close> is its 32 bits; the operations of the processor on them are an argument.
\<close>

unbundle bit_operations_syntax

subsection \<open>Conversions\<close>

definition float2half :: "u32 \<Rightarrow> u16" where
  "float2half bytes =
     (let sign = ucast (drop_bit 31 bytes AND 1) :: u8; exp = ucast (drop_bit 23 bytes AND 0xFF) :: u8; eff = drop_bit 13 bytes AND 0x3FF
      in if exp = 0xFF
         then if eff \<noteq> 0 then if sign \<noteq> 0 then 0xFFFF else 0x7FFF else if sign \<noteq> 0 then 0xFC00 else 0x7C00
         else if exp = 0 then if sign \<noteq> 0 then 0x8000 else 0
         else if uint exp - 0x7F \<ge> 0x1F - 0x0F then if sign \<noteq> 0 then 0xFC00 else 0x7C00
         else if uint exp - 0x7F \<le> 0 - 0x0F
         then let shift = 0x7F - uint exp - 0x0E; shift = (if shift > 11 then 11 else shift)
              in ucast (push_bit 15 (ucast sign :: u32) OR drop_bit (nat shift) (0x400 OR eff))
         else let exp = ucast (ucast exp - 0x7F + 0x0F AND 0x1F :: u32) :: u8
              in ucast (push_bit 15 (ucast sign) OR push_bit 10 (ucast exp) OR eff :: u32))"

definition half2float :: "(u32 \<Rightarrow> u32 \<Rightarrow> u32) \<Rightarrow> u16 \<Rightarrow> u32" where
  "half2float sub f =
     (let sign = ucast (drop_bit 15 f AND 1) :: u8; exp = ucast (drop_bit 10 f AND 0x1F) :: u8; eff = ucast (f AND 0x3FF) :: u32
      in if exp = 0x1F
         then if eff \<noteq> 0 then if sign \<noteq> 0 then 0xFFFFFFFF else 0x7FFFFFFF else if sign \<noteq> 0 then 0xFF800000 else 0x7F800000
         else if exp = 0
         then if eff \<noteq> 0
              then let result = push_bit 31 (ucast sign) OR push_bit 23 (0x7F - 0x0E) OR push_bit 13 eff;
                       result_base = push_bit 31 (ucast sign) OR push_bit 23 (0x7F - 0x0E) OR push_bit 13 0
                   in sub result result_base
              else push_bit 31 (ucast sign) OR 0
         else let exp = ucast (ucast exp - 0x0F + 0x7F :: u32) :: u8
              in push_bit 31 (ucast sign) OR push_bit 23 (ucast exp) OR push_bit 13 eff)"

subsection \<open>Operators\<close>

text \<open>What the processor does with \<open>float\<close>: arithmetic, comparison (\<open>a > b\<close> is \<open>b < a\<close>), and conversion from and
  to \<open>int\<close>. The assertions of the operators test \<open>diffNotMuch\<close>, which returns true at once. The operators
  on streams and the conversion to \<open>double\<close> are left out.\<close>

record f32_ops =
  fs_add :: "u32 \<Rightarrow> u32 \<Rightarrow> u32"
  fs_sub :: "u32 \<Rightarrow> u32 \<Rightarrow> u32"
  fs_mul :: "u32 \<Rightarrow> u32 \<Rightarrow> u32"
  fs_div :: "u32 \<Rightarrow> u32 \<Rightarrow> u32"
  fs_less :: "u32 \<Rightarrow> u32 \<Rightarrow> bool"
  fs_le :: "u32 \<Rightarrow> u32 \<Rightarrow> bool"
  fs_of_int :: "int \<Rightarrow> u32"
  fs_to_int :: "u32 \<Rightarrow> int"

definition HALF_MAX :: int where "HALF_MAX = 65504"

definition HALF_MIN :: int where "HALF_MIN = -65504"

definition half_to_float :: "f32_ops \<Rightarrow> u16 \<Rightarrow> u32" where
  "half_to_float X h = half2float (fs_sub X) h"

definition half_to_int :: "f32_ops \<Rightarrow> u16 \<Rightarrow> int" where
  "half_to_int X h = fs_to_int X (half_to_float X h)"

definition half_clamp :: "f32_ops \<Rightarrow> u32 \<Rightarrow> u16" where
  "half_clamp X result =
     (let result = (if fs_less X (fs_of_int X HALF_MAX) result then fs_of_int X HALF_MAX else result);
          result = (if fs_less X result (fs_of_int X HALF_MIN) then fs_of_int X HALF_MIN else result)
      in float2half result)"

definition int_plus_half :: "f32_ops \<Rightarrow> int \<Rightarrow> u16 \<Rightarrow> u16" where
  "int_plus_half X a b = half_clamp X (fs_add X (fs_of_int X a) (half_to_float X b))"

definition half_plus :: "f32_ops \<Rightarrow> u16 \<Rightarrow> u16 \<Rightarrow> u16" where
  "half_plus X h a = half_clamp X (fs_add X (half_to_float X h) (half_to_float X a))"

definition half_minus :: "f32_ops \<Rightarrow> u16 \<Rightarrow> u16 \<Rightarrow> u16" where
  "half_minus X h a = half_clamp X (fs_sub X (half_to_float X h) (half_to_float X a))"

definition half_times :: "f32_ops \<Rightarrow> u16 \<Rightarrow> u16 \<Rightarrow> u16" where
  "half_times X h a = half_clamp X (fs_mul X (half_to_float X h) (half_to_float X a))"

definition half_divide :: "f32_ops \<Rightarrow> u16 \<Rightarrow> u16 \<Rightarrow> u16" where
  "half_divide X h a = half_clamp X (fs_div X (half_to_float X h) (half_to_float X a))"

definition half_uminus :: "f32_ops \<Rightarrow> u16 \<Rightarrow> u16" where
  "half_uminus X h = half_minus X (float2half (fs_of_int X 0)) h"

definition half_less :: "f32_ops \<Rightarrow> u16 \<Rightarrow> u16 \<Rightarrow> bool" where
  "half_less X h a = fs_less X (half_to_float X h) (half_to_float X a)"

definition half_le :: "f32_ops \<Rightarrow> u16 \<Rightarrow> u16 \<Rightarrow> bool" where
  "half_le X h a = fs_le X (half_to_float X h) (half_to_float X a)"

definition half_greater :: "f32_ops \<Rightarrow> u16 \<Rightarrow> u16 \<Rightarrow> bool" where
  "half_greater X h a = fs_less X (half_to_float X a) (half_to_float X h)"

definition half_ge :: "f32_ops \<Rightarrow> u16 \<Rightarrow> u16 \<Rightarrow> bool" where
  "half_ge X h a = fs_le X (half_to_float X a) (half_to_float X h)"

definition half_eq :: "u16 \<Rightarrow> u16 \<Rightarrow> bool" where
  "half_eq h a \<longleftrightarrow> h = a"

definition half_ne :: "u16 \<Rightarrow> u16 \<Rightarrow> bool" where
  "half_ne h a \<longleftrightarrow> h \<noteq> a"

text \<open>The assigning operators: the new content of the object on the left.\<close>

definition half_plus_assign :: "f32_ops \<Rightarrow> u16 \<Rightarrow> u16 \<Rightarrow> u16" where
  "half_plus_assign X h a = (let result = half_plus X h a in result)"

definition half_minus_assign :: "f32_ops \<Rightarrow> u16 \<Rightarrow> u16 \<Rightarrow> u16" where
  "half_minus_assign X h a = (let result = half_minus X h a in result)"

definition half_times_assign :: "f32_ops \<Rightarrow> u16 \<Rightarrow> u16 \<Rightarrow> u16" where
  "half_times_assign X h a = (let result = half_times X h a in result)"

definition half_divide_assign :: "f32_ops \<Rightarrow> u16 \<Rightarrow> u16 \<Rightarrow> u16" where
  "half_divide_assign X h a = (let result = half_divide X h a in result)"

subsection \<open>The fields of a number\<close>

definition f_sign :: "u32 \<Rightarrow> nat" where "f_sign f = unat f div 2 ^ 31"

definition f_exp :: "u32 \<Rightarrow> nat" where "f_exp f = unat f div 2 ^ 23 mod 2 ^ 8"

definition f_man :: "u32 \<Rightarrow> nat" where "f_man f = unat f mod 2 ^ 23"

text \<open>The bits of a half without its sign, from the exponent and the upper ten bits of the mantissa.\<close>

definition half_mag :: "nat \<Rightarrow> nat \<Rightarrow> nat" where
  "half_mag E F = (if E = 255 then if F = 0 then 0x7C00 else 0x7FFF else if E = 0 then 0 else if 143 \<le> E then 0x7C00
     else if E \<le> 112 then (1024 + F) div 2 ^ (min (113 - E) 11) else (E - 112) * 1024 + F)"

lemma or_plus:
  fixes a b :: "'a::len word"
  assumes "unat a < 2 ^ n"
  shows "push_bit n b OR a = push_bit n b + a"
proof -
  have "push_bit n b AND a = 0"
  proof (rule bit_eqI)
    fix k
    show "bit (push_bit n b AND a) k \<longleftrightarrow> bit 0 k"
    proof (cases "k < n")
      case False
      then have "unat a < 2 ^ k" using assms by (meson less_le_trans linorder_not_less one_le_numeral power_increasing)
      then have "\<not> bit (unat a) k" by (simp add: bit_iff_odd)
      then show ?thesis by (simp add: bit_simps)
    qed (simp add: bit_simps)
  qed
  then show ?thesis by (simp add: disjunctive_add_eq_or)
qed

lemma unat_field: "unat (drop_bit m w AND mask k) = unat w div 2 ^ m mod 2 ^ k"
proof -
  have "unat (drop_bit m w AND mask k) = take_bit k (drop_bit m (unat w))"
    by (simp only: unsigned_take_bit_eq unsigned_drop_bit_eq flip: take_bit_eq_mask) (simp add: take_bit_nat_eq_self unsigned_less)
  then show ?thesis by (simp add: drop_bit_eq_div take_bit_eq_mod)
qed

lemma div_mod_field: "(n::nat) div 2 ^ a mod 2 ^ b = n mod 2 ^ (a + b) div 2 ^ a"
  by (simp only: drop_bit_take_bit flip: drop_bit_eq_div take_bit_eq_mod) simp

lemma field_sign: "unat (drop_bit 31 f AND 1 :: u32) = f_sign f"
  using unat_field [of 31 f 1] unsigned_less [of f, where 'a = nat]
  by (simp add: f_sign_def less_mult_imp_div_less)

lemma field_exp: "unat (drop_bit 23 f AND 0xFF :: u32) = f_exp f"
  using unat_field [of 23 f 8] by (simp add: f_exp_def mask_eq_exp_minus_1)

lemma field_man: "unat (drop_bit 13 f AND 0x3FF :: u32) = f_man f div 2 ^ 13"
  using unat_field [of 13 f 10] div_mod_field [of "unat f" 13 10] by (simp add: f_man_def mask_eq_exp_minus_1)

lemma f_parts: "f_sign f < 2" "f_exp f < 256" "f_man f < 2 ^ 23" "unat f = f_sign f * 2 ^ 31 + f_exp f * 2 ^ 23 + f_man f"
proof -
  show "f_sign f < 2" using unsigned_less [of f, where 'a = nat] by (simp add: f_sign_def less_mult_imp_div_less)
  show "f_exp f < 256" "f_man f < 2 ^ 23" by (simp_all add: f_exp_def f_man_def)
  have "unat f = unat f div 2 ^ 23 * 2 ^ 23 + f_man f" by (simp add: f_man_def)
  moreover have "unat f div 2 ^ 23 = unat f div 2 ^ 23 div 2 ^ 8 * 2 ^ 8 + f_exp f" unfolding f_exp_def by presburger
  moreover have "unat f div 2 ^ 23 div 2 ^ 8 = f_sign f" by (simp add: f_sign_def flip: div_mult2_eq)
  ultimately show "unat f = f_sign f * 2 ^ 31 + f_exp f * 2 ^ 23 + f_man f" by simp
qed

lemma half_mag_less:
  assumes "F < 1024" and "E < 256"
  shows "half_mag E F < 2 ^ 15"
proof -
  define d where "d = (1024 + F) div 2 ^ min (113 - E) 11"
  have "d \<le> 1024 + F" unfolding d_def by (rule div_le_dividend)
  then show ?thesis using assms by (auto simp: half_mag_def simp flip: d_def)
qed

lemma unat_push_bit: "unat a < 2 ^ k \<Longrightarrow> k + n \<le> LENGTH('a) \<Longrightarrow> unat (push_bit n (a :: 'a::len word)) = unat a * 2 ^ n"
proof -
  assume a: "unat a < 2 ^ k" and k: "k + n \<le> LENGTH('a)"
  have "unat a * 2 ^ n < 2 ^ k * 2 ^ n" using a by simp
  also have "\<dots> = 2 ^ (k + n)" by (simp add: power_add)
  also have "\<dots> \<le> 2 ^ LENGTH('a)" using k by (rule power_increasing) simp
  finally have "take_bit LENGTH('a) (push_bit n (unat a)) = unat a * 2 ^ n" by (simp only: push_bit_eq_mult take_bit_nat_eq_self)
  then show ?thesis by (simp only: unsigned_push_bit_eq)
qed

lemma unat_or_push:
  fixes a b :: "'a::len word"
  assumes "unat a < 2 ^ n" and "unat b < 2 ^ k" and "k + n \<le> LENGTH('a)"
  shows "unat (push_bit n b OR a) = unat b * 2 ^ n + unat a"
proof -
  have "unat (push_bit n b) = unat b * 2 ^ n" using unat_push_bit assms by blast
  moreover have "unat b * 2 ^ n + unat a < 2 ^ LENGTH('a)"
  proof -
    have "unat b * 2 ^ n + unat a < (unat b + 1) * 2 ^ n" using assms(1) by simp
    also have "\<dots> \<le> 2 ^ k * 2 ^ n" using assms(2) by (intro mult_right_mono) simp_all
    also have "\<dots> \<le> 2 ^ LENGTH('a)" using assms(3) by (simp flip: power_add)
    finally show ?thesis .
  qed
  ultimately show ?thesis using or_plus [OF assms(1)] by (simp add: unat_word_ariths)
qed

lemma unat_byte: "unat (w :: u32) < 256 \<Longrightarrow> unat (ucast (ucast w :: u8) :: u32) = unat w"
  by (simp add: unsigned_ucast_eq unsigned_take_bit_eq take_bit_nat_eq_self)

lemma float2half_nat: "unat (float2half f) = f_sign f * 2 ^ 15 + half_mag (f_exp f) (f_man f div 2 ^ 13)"
proof -
  note parts = f_parts [of f]
  define sign where "sign = (ucast (drop_bit 31 f AND 1) :: u8)"
  define exp where "exp = (ucast (drop_bit 23 f AND 0xFF) :: u8)"
  define eff where "eff = drop_bit 13 f AND 0x3FF"
  have s: "unat sign = f_sign f" and e: "unat exp = f_exp f" and m: "unat eff = f_man f div 2 ^ 13"
    using parts by (simp_all add: sign_def exp_def eff_def unsigned_ucast_eq field_sign field_exp field_man take_bit_nat_eq_self)
  have ui: "uint exp = int (f_exp f)" by (simp flip: e)
  have F: "f_man f div 2 ^ 13 < 1024" using parts(3) by (simp add: less_mult_imp_div_less)
  have cases: "f_sign f = 0 \<or> f_sign f = 1" using parts(1) by auto
  have sz: "sign \<noteq> 0 \<longleftrightarrow> f_sign f = 1" using cases s by (auto simp: unat_eq_0 [symmetric])
  have ez: "exp = 0xFF \<longleftrightarrow> f_exp f = 255" "exp = 0 \<longleftrightarrow> f_exp f = 0" by (simp_all add: word_unat_eq_iff e)
  have mz: "eff = 0 \<longleftrightarrow> f_man f div 2 ^ 13 = 0" by (simp add: word_unat_eq_iff m)
  have eq: "float2half f = 
      (if f_exp f = 255
         then if f_man f div 2 ^ 13 \<noteq> 0 then if f_sign f = 1 then 0xFFFF else 0x7FFF else if f_sign f = 1 then 0xFC00 else 0x7C00
         else if f_exp f = 0 then if f_sign f = 1 then 0x8000 else 0
         else if 143 \<le> f_exp f then if f_sign f = 1 then 0xFC00 else 0x7C00
         else if f_exp f \<le> 112
         then ucast (push_bit 15 (ucast sign :: u32) OR drop_bit (min (113 - f_exp f) 11) (0x400 OR eff))
         else ucast (push_bit 15 (ucast sign) OR push_bit 10 (ucast (ucast (ucast exp - 0x7F + 0x0F AND 0x1F :: u32) :: u8)) OR eff :: u32))"
    unfolding float2half_def Let_def sign_def [symmetric] exp_def [symmetric] eff_def [symmetric] sz ez mz ui
    by (auto simp: min_def nat_diff_distrib)
  have us: "unat (ucast sign :: u32) = f_sign f" using parts(1) by (simp add: unsigned_ucast_eq s take_bit_nat_eq_self)
  have to16: "unat (ucast (x :: u32) :: u16) = unat x" if "unat x < 2 ^ 16" for x
    using that by (simp add: unsigned_ucast_eq take_bit_nat_eq_self)
  consider "f_exp f = 255 \<or> f_exp f = 0 \<or> 143 \<le> f_exp f" | "f_exp f \<noteq> 0" "f_exp f \<le> 112" | "113 \<le> f_exp f" "f_exp f \<le> 142" by linarith
  then show ?thesis
  proof cases
    case 1
    then show ?thesis using cases unfolding eq half_mag_def by auto
  next
    case 2
    define d where "d = drop_bit (min (113 - f_exp f) 11) (0x400 OR eff)"
    have "unat (push_bit 10 1 OR eff) = 1 * 2 ^ 10 + unat eff" using F m by (subst unat_or_push [where k = 1]) simp_all
    then have "unat (0x400 OR eff) = 1024 + f_man f div 2 ^ 13" using m by simp
    then have d: "unat d = (1024 + f_man f div 2 ^ 13) div 2 ^ min (113 - f_exp f) 11"
      unfolding d_def by (subst unat_drop_bit_eq) (simp add: drop_bit_eq_div)
    have "unat d < 2 ^ 15" using half_mag_less [OF F, of "f_exp f"] 2 unfolding d half_mag_def by simp
    then have "unat (push_bit 15 (ucast sign :: u32) OR d) = f_sign f * 2 ^ 15 + unat d"
      using us parts(1) by (subst unat_or_push [where k = 1]) simp_all
    moreover have "f_sign f * 2 ^ 15 + unat d < 2 ^ 16" using \<open>unat d < 2 ^ 15\<close> parts(1) cases by auto
    ultimately show ?thesis using 2 d to16 unfolding eq d_def [symmetric] half_mag_def by simp
  next
    case 3
    define n where "n = (ucast exp - 0x7F + 0x0F :: u32)"
    have "n = word_of_nat (f_exp f) - 112" by (simp add: n_def flip: e)
    also have "\<dots> = word_of_nat (f_exp f - 112)" using 3 by (simp add: of_nat_diff)
    finally have "unat n = (f_exp f - 112) mod 2 ^ LENGTH(32)" by (simp only: unat_of_nat)
    then have "unat n = f_exp f - 112" using 3 by simp
    then have "unat (n AND 0x1F) = f_exp f - 112"
      using 3 unat_field [of 0 n 5] by (simp add: mask_eq_exp_minus_1)
    then have x: "unat (ucast (ucast (n AND 0x1F) :: u8) :: u32) = f_exp f - 112"
      using 3 unat_byte [of "n AND 0x1F"] by simp
    have 1: "unat (push_bit 10 (ucast (ucast (n AND 0x1F) :: u8) :: u32) OR eff) = (f_exp f - 112) * 2 ^ 10 + f_man f div 2 ^ 13"
      using x m F 3 by (subst unat_or_push [where k = 5]) simp_all
    have less: "(f_exp f - 112) * 2 ^ 10 + f_man f div 2 ^ 13 < 2 ^ 15" using 3 F by simp
    have "unat (push_bit 15 (ucast sign :: u32) OR push_bit 10 (ucast (ucast (n AND 0x1F) :: u8)) OR eff) =
        f_sign f * 2 ^ 15 + ((f_exp f - 112) * 2 ^ 10 + f_man f div 2 ^ 13)"
      using us parts(1) less 1 by (subst unat_or_push [where k = 1]) simp_all
    moreover have "f_sign f * 2 ^ 15 + ((f_exp f - 112) * 2 ^ 10 + f_man f div 2 ^ 13) < 2 ^ 16" using less cases by auto
    ultimately show ?thesis using 3 to16 unfolding eq n_def [symmetric] half_mag_def by simp
  qed
qed

subsection \<open>Rounding\<close>

text \<open>The value of the magnitude \<open>m\<close> of a half in units of \<open>2\<close> to the \<open>-24\<close>, of a float in units of \<open>2\<close> to the \<open>-149\<close>.\<close>

definition half_units :: "nat \<Rightarrow> nat" where
  "half_units m = (if m div 2 ^ 10 = 0 then m else (2 ^ 10 + m mod 2 ^ 10) * 2 ^ (m div 2 ^ 10 - 1))"

definition f32_units :: "u32 \<Rightarrow> nat" where
  "f32_units f = (if f_exp f = 0 then f_man f else (2 ^ 23 + f_man f) * 2 ^ (f_exp f - 1))"

lemma half_units_normal: "1 \<le> e \<Longrightarrow> F \<le> 1024 \<Longrightarrow> half_units (e * 1024 + F) = (1024 + F) * 2 ^ (e - 1)"
proof -
  assume e: "1 \<le> e" and F: "F \<le> 1024"
  then obtain d where d: "e = Suc d" by (cases e) auto
  show ?thesis
  proof (cases "F = 1024")
    case True
    have "(e * 1024 + F) div 2 ^ 10 = e + 1" "(e * 1024 + F) mod 2 ^ 10 = 0"
      using div_mult_self1_is_m [of "2 ^ 10" "e + 1"] mod_mult_self1_is_0 [of "e + 1" "2 ^ 10"] by (simp_all add: True)
    then show ?thesis by (simp add: half_units_def True d)
  next
    case False
    then have "(e * 1024 + F) div 2 ^ 10 = e" "(e * 1024 + F) mod 2 ^ 10 = F"
      using F by simp_all
    then show ?thesis using e by (simp add: half_units_def)
  qed
qed

lemma half_units_small: "m \<le> 1024 \<Longrightarrow> half_units m = m"
  by (cases "m = 1024") (simp_all add: half_units_def)

lemma units_normal:
  assumes "113 \<le> E" and "M < 2 ^ 23"
  shows "half_units ((E - 112) * 1024 + M div 2 ^ 13) * 2 ^ 125 \<le> (2 ^ 23 + M) * 2 ^ (E - 1)"
    and "(2 ^ 23 + M) * 2 ^ (E - 1) < half_units (Suc ((E - 112) * 1024 + M div 2 ^ 13)) * 2 ^ 125"
proof -
  define F where "F = M div 2 ^ 13"
  have F: "F < 1024" using assms(2) by (simp add: F_def less_mult_imp_div_less)
  have M: "F * 2 ^ 13 \<le> M" "M < (F + 1) * 2 ^ 13"
    using div_mult_mod_eq [of M "2 ^ 13"] mod_less_divisor [of "2 ^ 13" M] unfolding F_def by simp_all
  obtain d where E: "E = 113 + d" using assms(1) le_Suc_ex by blast
  have p: "(2::nat) ^ (E - 1) = 2 ^ 112 * 2 ^ d" by (simp add: E power_add)
  have "half_units ((E - 112) * 1024 + F) * 2 ^ 125 = ((1024 + F) * 2 ^ 13) * (2 ^ 112 * 2 ^ d)"
    using half_units_normal [of "E - 112" F] F by (simp add: E)
  also have "\<dots> \<le> (2 ^ 23 + M) * (2 ^ 112 * 2 ^ d)" using M(1) by (intro mult_right_mono) simp_all
  finally show "half_units ((E - 112) * 1024 + F) * 2 ^ 125 \<le> (2 ^ 23 + M) * 2 ^ (E - 1)" by (simp only: p)
  have "(2 ^ 23 + M) * (2 ^ 112 * 2 ^ d) < ((1024 + (F + 1)) * 2 ^ 13) * (2 ^ 112 * 2 ^ d)"
    using M(2) by (intro mult_strict_right_mono) simp_all
  also have "\<dots> = half_units ((E - 112) * 1024 + (F + 1)) * 2 ^ 125"
    using half_units_normal [of "E - 112" "F + 1"] F by (simp add: E)
  finally show "(2 ^ 23 + M) * 2 ^ (E - 1) < half_units (Suc ((E - 112) * 1024 + F)) * 2 ^ 125"
    unfolding p by (simp only: Suc_eq_plus1 add.assoc)
qed

lemma units_denormal:
  assumes "1 \<le> E" and "E \<le> 112" and "M < 2 ^ 23"
  defines "m \<equiv> (1024 + M div 2 ^ 13) div 2 ^ min (113 - E) 11"
  shows "m < 1024" and "m * 2 ^ 125 \<le> (2 ^ 23 + M) * 2 ^ (E - 1)" and "(2 ^ 23 + M) * 2 ^ (E - 1) < Suc m * 2 ^ 125"
proof -
  define F where "F = M div 2 ^ 13"
  have F: "F < 1024" using assms(3) by (simp add: F_def less_mult_imp_div_less)
  have M: "F * 2 ^ 13 \<le> M" "M < (F + 1) * 2 ^ 13"
    using div_mult_mod_eq [of M "2 ^ 13"] mod_less_divisor [of "2 ^ 13" M] unfolding F_def by simp_all
  obtain j where j: "min (113 - E) 11 = Suc j" using assms(1,2) by (cases "min (113 - E) 11") auto
  have mj: "m = (1024 + F) div 2 ^ Suc j" by (simp only: m_def F_def j)
  have "(1024 + F) div 2 ^ Suc j = (1024 + F) div 2 div 2 ^ j" by (simp add: div_mult2_eq)
  also have "\<dots> \<le> (1024 + F) div 2" by (rule div_le_dividend)
  finally show "m < 1024" using F by (simp add: mj)
  have "m * 2 ^ 125 \<le> (2 ^ 23 + M) * 2 ^ (E - 1) \<and> (2 ^ 23 + M) * 2 ^ (E - 1) < Suc m * 2 ^ 125"
  proof (cases "102 \<le> E")
    case True
    define k where "k = 113 - E"
    have k: "min (113 - E) 11 = k" using True by (simp add: k_def)
    have p: "(2::nat) ^ 112 = 2 ^ k * 2 ^ (E - 1)" using assms(1,2) by (simp add: k_def flip: power_add)
    have m: "m * 2 ^ k \<le> 1024 + F" "1024 + F < Suc m * 2 ^ k"
      using div_times_less_eq_dividend [of "1024 + F" "2 ^ k"] dividend_less_div_times [of "2 ^ k" "1024 + F"]
      unfolding m_def F_def [symmetric] k by simp_all
    have "m * 2 ^ 125 = (m * 2 ^ k) * 2 ^ 13 * 2 ^ (E - 1)" using p by simp
    also have "\<dots> \<le> (1024 + F) * 2 ^ 13 * 2 ^ (E - 1)" using m(1) by (intro mult_right_mono) simp_all
    also have "\<dots> \<le> (2 ^ 23 + M) * 2 ^ (E - 1)" using M(1) by (intro mult_right_mono) simp_all
    finally have 1: "m * 2 ^ 125 \<le> (2 ^ 23 + M) * 2 ^ (E - 1)" .
    have "(2 ^ 23 + M) * 2 ^ (E - 1) < (1024 + F + 1) * 2 ^ 13 * 2 ^ (E - 1)" using M(2) by (intro mult_strict_right_mono) simp_all
    also have "\<dots> \<le> (Suc m * 2 ^ k) * 2 ^ 13 * 2 ^ (E - 1)" using m(2) by (intro mult_right_mono) simp_all
    also have "\<dots> = Suc m * 2 ^ 13 * (2 ^ k * 2 ^ (E - 1))" by (simp only: mult_ac)
    also have "\<dots> = Suc m * 2 ^ 125" unfolding p [symmetric] by simp
    finally show ?thesis using 1 by simp
  next
    case False
    have "(1024 + F) div 2 ^ 11 = 0" using F by simp
    moreover have "min (113 - E) 11 = 11" using False by simp
    ultimately have m: "m = 0" by (simp only: m_def F_def)
    have "(2 ^ 23 + M) * 2 ^ (E - 1) < 2 ^ 24 * 2 ^ (E - 1)" using assms(3) by (intro mult_strict_right_mono) simp_all
    also have "\<dots> \<le> 2 ^ 24 * 2 ^ 100" using False by (intro mult_left_mono power_increasing) simp_all
    finally show ?thesis by (simp add: m)
  qed
  then show "m * 2 ^ 125 \<le> (2 ^ 23 + M) * 2 ^ (E - 1)" "(2 ^ 23 + M) * 2 ^ (E - 1) < Suc m * 2 ^ 125" by simp_all
qed

lemma float2half_fields:
  "unat (float2half f) div 2 ^ 15 = f_sign f" "unat (float2half f) mod 2 ^ 15 = half_mag (f_exp f) (f_man f div 2 ^ 13)"
proof -
  have "half_mag (f_exp f) (f_man f div 2 ^ 13) < 2 ^ 15" using f_parts [of f] by (intro half_mag_less) (simp_all add: less_mult_imp_div_less)
  then show "unat (float2half f) div 2 ^ 15 = f_sign f" "unat (float2half f) mod 2 ^ 15 = half_mag (f_exp f) (f_man f div 2 ^ 13)"
    by (simp_all add: float2half_nat)
qed

text \<open>C40: Converting a float to a half keeps the sign and rounds towards zero: below \<open>2^16\<close> the result is the
  greatest half that is not greater in magnitude, denormal numbers included; from there on it is
  infinite. A NaN stays a NaN only if one of the upper ten bits of its mantissa is set, and
  otherwise becomes infinite.\<close>

theorem float2half_truncates:
  "let h = unat (float2half f); m = h mod 2 ^ 15
   in h div 2 ^ 15 = f_sign f \<and>
      (if f_exp f < 143 then half_units m * 2 ^ 125 \<le> f32_units f \<and> f32_units f < half_units (Suc m) * 2 ^ 125
       else m = (if f_exp f = 255 \<and> 2 ^ 13 \<le> f_man f then 0x7FFF else 0x7C00))"
proof -
  define m where "m = unat (float2half f) mod 2 ^ 15"
  have m: "m = half_mag (f_exp f) (f_man f div 2 ^ 13)" by (simp only: m_def float2half_fields)
  have M: "f_man f < 2 ^ 23" by (rule f_parts)
  have "if f_exp f < 143 then half_units m * 2 ^ 125 \<le> f32_units f \<and> f32_units f < half_units (Suc m) * 2 ^ 125
       else m = (if f_exp f = 255 \<and> 2 ^ 13 \<le> f_man f then 0x7FFF else 0x7C00)"
  proof -
    consider "f_exp f = 0" | "1 \<le> f_exp f" "f_exp f \<le> 112" | "113 \<le> f_exp f" "f_exp f < 143" | "143 \<le> f_exp f" by linarith
    then show ?thesis
    proof cases
      case 1
      have "f_man f < 2 ^ 125" using M by (rule less_le_trans) simp
      then show ?thesis using 1 by (simp add: m half_mag_def half_units_small f32_units_def)
    next
      case 2
      note d = units_denormal [OF 2 M]
      have "m = (1024 + f_man f div 2 ^ 13) div 2 ^ min (113 - f_exp f) 11" using 2 by (simp add: m half_mag_def)
      then show ?thesis using d 2 by (simp only: half_units_small f32_units_def) (simp add: half_units_small)
    next
      case 3
      have "m = (f_exp f - 112) * 1024 + f_man f div 2 ^ 13" using 3 by (simp add: m half_mag_def)
      then show ?thesis using units_normal [OF 3(1) M] 3 by (simp only: f32_units_def) simp
    next
      case 4
      then show ?thesis using f_parts(2) [of f] by (auto simp: m half_mag_def div_eq_0_iff)
    qed
  qed
  then show ?thesis unfolding Let_def m_def [symmetric] using float2half_fields(1) by blast
qed

subsection \<open>Round trip\<close>

definition h_sign :: "u16 \<Rightarrow> nat" where "h_sign h = unat h div 2 ^ 15"

definition h_exp :: "u16 \<Rightarrow> nat" where "h_exp h = unat h div 2 ^ 10 mod 2 ^ 5"

definition h_man :: "u16 \<Rightarrow> nat" where "h_man h = unat h mod 2 ^ 10"

lemma h_parts: "h_sign h < 2" "h_exp h < 32" "h_man h < 1024" "unat h = h_sign h * 2 ^ 15 + h_exp h * 2 ^ 10 + h_man h"
proof -
  show "h_sign h < 2" using unsigned_less [of h, where 'a = nat] by (simp add: h_sign_def less_mult_imp_div_less)
  show "h_exp h < 32" "h_man h < 1024" by (simp_all add: h_exp_def h_man_def)
  have "unat h = unat h div 2 ^ 10 * 2 ^ 10 + h_man h" by (simp add: h_man_def)
  moreover have "unat h div 2 ^ 10 = unat h div 2 ^ 10 div 2 ^ 5 * 2 ^ 5 + h_exp h" unfolding h_exp_def by presburger
  moreover have "unat h div 2 ^ 10 div 2 ^ 5 = h_sign h" by (simp add: h_sign_def flip: div_mult2_eq)
  ultimately show "unat h = h_sign h * 2 ^ 15 + h_exp h * 2 ^ 10 + h_man h" by simp
qed

text \<open>The float with the given fields.\<close>

definition f32_of :: "nat \<Rightarrow> nat \<Rightarrow> nat \<Rightarrow> u32" where
  "f32_of s E M = word_of_nat (s * 2 ^ 31 + E * 2 ^ 23 + M)"

lemma unat_f32_of: "s < 2 \<Longrightarrow> E < 256 \<Longrightarrow> M < 2 ^ 23 \<Longrightarrow> unat (f32_of s E M) = s * 2 ^ 31 + E * 2 ^ 23 + M"
  unfolding f32_of_def unat_of_nat by simp

lemma f32_of_parts [simp]:
  assumes "s < 2" and "E < 256" and "M < 2 ^ 23"
  shows "f_sign (f32_of s E M) = s" "f_exp (f32_of s E M) = E" "f_man (f32_of s E M) = M"
proof -
  note n = unat_f32_of [OF assms]
  have 1: "(s * 2 ^ 31 + E * 2 ^ 23 + M) div 2 ^ 23 = s * 2 ^ 8 + E" "(s * 2 ^ 31 + E * 2 ^ 23 + M) mod 2 ^ 23 = M"
  proof -
    have "s * 2 ^ 31 + E * 2 ^ 23 + M = M + (s * 2 ^ 8 + E) * 2 ^ 23" by simp
    then show "(s * 2 ^ 31 + E * 2 ^ 23 + M) div 2 ^ 23 = s * 2 ^ 8 + E" "(s * 2 ^ 31 + E * 2 ^ 23 + M) mod 2 ^ 23 = M"
      using assms(3) by (simp_all only: div_mult_self1 mod_mult_self1) simp_all
  qed
  show "f_man (f32_of s E M) = M" unfolding f_man_def n by (rule 1)
  show "f_exp (f32_of s E M) = E" unfolding f_exp_def n 1 using assms(2) by simp
  have "E * 2 ^ 23 + M < 2 ^ 31" using assms(2,3) by simp
  then show "f_sign (f32_of s E M) = s" unfolding f_sign_def n by (simp add: add.assoc)
qed

lemma f32_of_fields: "f32_of (f_sign f) (f_exp f) (f_man f) = f"
  using f_parts by (simp add: word_unat_eq_iff unat_f32_of)

lemma half2float_parts:
  "half2float sub h = (if h_exp h = 31 then f32_of (h_sign h) 255 (if h_man h = 0 then 0 else 2 ^ 23 - 1)
     else if h_exp h = 0
     then if h_man h = 0 then f32_of (h_sign h) 0 0 else sub (f32_of (h_sign h) 113 (h_man h * 2 ^ 13)) (f32_of (h_sign h) 113 0)
     else f32_of (h_sign h) (h_exp h + 112) (h_man h * 2 ^ 13))"
proof -
  note parts = h_parts [of h]
  define sign where "sign = (ucast (drop_bit 15 h AND 1) :: u8)"
  define exp where "exp = (ucast (drop_bit 10 h AND 0x1F) :: u8)"
  define eff where "eff = (ucast (h AND 0x3FF) :: u32)"
  have "unat (drop_bit 15 h AND 1) = h_sign h" using unat_field [of 15 h 1] parts(1) by (simp add: h_sign_def)
  then have s: "unat sign = h_sign h" using parts(1) by (simp add: sign_def unsigned_ucast_eq take_bit_nat_eq_self)
  have "unat (drop_bit 10 h AND 0x1F) = h_exp h" using unat_field [of 10 h 5] by (simp add: h_exp_def mask_eq_exp_minus_1)
  then have e: "unat exp = h_exp h" using parts(2) by (simp add: exp_def unsigned_ucast_eq take_bit_nat_eq_self)
  have "unat (h AND 0x3FF) = h_man h" using unat_field [of 0 h 10] by (simp add: h_man_def mask_eq_exp_minus_1)
  then have m: "unat eff = h_man h" using parts(3) by (simp add: eff_def unsigned_ucast_eq take_bit_nat_eq_self)
  have sc: "h_sign h = 0 \<or> h_sign h = 1" using parts(1) by auto
  have sz: "sign = 0 \<longleftrightarrow> h_sign h = 0" and ez: "exp = 0x1F \<longleftrightarrow> h_exp h = 31" "exp = 0 \<longleftrightarrow> h_exp h = 0" and mz: "eff = 0 \<longleftrightarrow> h_man h = 0"
    by (simp_all add: word_unat_eq_iff s e m)
  have us: "unat (ucast sign :: u32) = h_sign h" using parts(1) by (simp add: unsigned_ucast_eq s take_bit_nat_eq_self)
  have me: "unat (push_bit 13 eff) = h_man h * 2 ^ 13" using unat_push_bit [of eff 10 13] m parts(3) by simp
  have build: "push_bit 31 (ucast sign :: u32) OR push_bit 23 E OR M = f32_of (h_sign h) (unat E) (unat M)"
    if "unat E < 256" "unat M < 2 ^ 23" for E M :: u32
  proof -
    have 1: "unat (push_bit 23 E OR M) = unat E * 2 ^ 23 + unat M" using that by (subst unat_or_push [where k = 8]) simp_all
    have "unat E * 2 ^ 23 + unat M < 2 ^ 31" using that by simp
    then have "unat (push_bit 31 (ucast sign :: u32) OR push_bit 23 E OR M) = h_sign h * 2 ^ 31 + (unat E * 2 ^ 23 + unat M)"
      using us parts(1) 1 by (subst unat_or_push [where k = 1]) simp_all
    then show ?thesis using unat_f32_of [OF parts(1) that] by (simp add: word_unat_eq_iff)
  qed
  have M: "h_man h * 2 ^ 13 < 2 ^ 23" using parts(3) by simp
  consider "h_exp h = 31" | "h_exp h = 0" | "1 \<le> h_exp h" "h_exp h < 31" using parts(2) by linarith
  then show ?thesis
  proof cases
    case 1
    then show ?thesis unfolding half2float_def Let_def sign_def [symmetric] exp_def [symmetric] eff_def [symmetric] sz ez mz
      using sc by (auto simp: f32_of_def)
  next
    case 2
    have "push_bit 31 (ucast sign :: u32) OR 0 = f32_of (h_sign h) 0 0" using build [of 0 0] by simp
    moreover have "push_bit 31 (ucast sign :: u32) OR push_bit 23 (0x7F - 0x0E) OR push_bit 13 eff = f32_of (h_sign h) 113 (h_man h * 2 ^ 13)"
      using build [of "0x7F - 0x0E" "push_bit 13 eff"] me M by simp
    moreover have "push_bit 31 (ucast sign :: u32) OR push_bit 23 (0x7F - 0x0E) OR push_bit 13 0 = f32_of (h_sign h) 113 0"
      using build [of "0x7F - 0x0E" 0] by simp
    ultimately show ?thesis using 2 unfolding half2float_def Let_def sign_def [symmetric] exp_def [symmetric] eff_def [symmetric] ez mz by simp
  next
    case 3
    define n where "n = (ucast exp - 0x0F + 0x7F :: u32)"
    have "n = word_of_nat (h_exp h) + 112" by (simp add: n_def flip: e)
    also have "\<dots> = word_of_nat (h_exp h + 112)" by simp
    finally have "unat n = (h_exp h + 112) mod 2 ^ LENGTH(32)" by (simp only: unat_of_nat)
    then have "unat n = h_exp h + 112" using 3 by simp
    then have "unat (ucast (ucast n :: u8) :: u32) = h_exp h + 112" using 3 unat_byte [of n] by simp
    then show ?thesis using 3 build [of "ucast (ucast n :: u8)" "push_bit 13 eff"] me M
      unfolding half2float_def Let_def sign_def [symmetric] exp_def [symmetric] eff_def [symmetric] n_def [symmetric] ez mz by simp
  qed
qed

definition f32_value :: "u32 \<Rightarrow> int" where
  "f32_value f = (if f_sign f = 0 then int (f32_units f) else - int (f32_units f))"

lemma half_of_word: "unat (float2half f) = unat h \<Longrightarrow> float2half f = h"
  by (simp add: word_unat_eq_iff)

text \<open>The float whose magnitude is \<open>n\<close> units, where there is one: \<open>n\<close> has at most 24 significant bits.\<close>

definition f32_of_units :: "nat \<Rightarrow> nat \<Rightarrow> u32" where
  "f32_of_units s n =
     (let k = bit_len n
      in if k \<le> 23 then f32_of s 0 n else f32_of s (k - 23) (n div 2 ^ (k - 24) - 2 ^ 23))"

lemma f32_of_units_inv:
  assumes "f_exp c < 255" and "f32_units c \<noteq> 0"
  shows "f32_of_units (f_sign c) (f32_units c) = c"
proof (cases "f_exp c = 0")
  case True
  then have u: "f32_units c = f_man c" by (simp add: f32_units_def)
  have "bit_len (f_man c) \<le> 23" using f_parts(3) [of c] by (rule bit_len_le)
  then show ?thesis using f32_of_fields [of c] True by (simp add: f32_of_units_def u)
next
  case False
  define n where "n = 2 ^ 23 + f_man c"
  have n: "2 ^ 23 \<le> n" "n < 2 ^ 24" using f_parts(3) [of c] by (simp_all add: n_def)
  have u: "f32_units c = n * 2 ^ (f_exp c - 1)" using False by (simp add: f32_units_def n_def)
  have "2 ^ (22 + f_exp c) = (2::nat) ^ 23 * 2 ^ (f_exp c - 1)" "2 ^ Suc (22 + f_exp c) = (2::nat) ^ 24 * 2 ^ (f_exp c - 1)"
    using False by (cases "f_exp c"; simp add: power_add)+
  moreover have "2 ^ 23 * 2 ^ (f_exp c - 1) \<le> n * 2 ^ (f_exp c - 1)" "n * 2 ^ (f_exp c - 1) < 2 ^ 24 * 2 ^ (f_exp c - 1)"
    using n by (intro mult_right_mono mult_strict_right_mono; simp)+
  ultimately have "bit_len (f32_units c) = Suc (22 + f_exp c)" unfolding u by (intro bit_len_eq) (simp_all only:)
  then have k: "bit_len (f32_units c) = 23 + f_exp c" by simp
  have "f32_units c div 2 ^ (23 + f_exp c - 24) - 2 ^ 23 = f_man c" using False by (simp add: u n_def)
  then show ?thesis using f32_of_fields [of c] False by (simp add: f32_of_units_def k)
qed

text \<open>A subtraction that is exact where the difference can be represented.\<close>

definition exact_sub :: "u32 \<Rightarrow> u32 \<Rightarrow> u32" where
  "exact_sub a b = (let v = f32_value a - f32_value b in f32_of_units (if v < 0 then 1 else 0) (nat \<bar>v\<bar>))"

lemma exact_sub_law:
  assumes "f_exp c < 255" and "f32_value c \<noteq> 0" and "f32_value a - f32_value b = f32_value c"
  shows "exact_sub a b = c"
proof -
  have "f_sign c = 0 \<or> f_sign c = 1" using f_parts(1) [of c] by auto
  then have "(if f32_value c < 0 then 1 else 0) = f_sign c" "nat \<bar>f32_value c\<bar> = f32_units c" "f32_units c \<noteq> 0"
    using assms(2) by (auto simp: f32_value_def split: if_splits)
  then show ?thesis using assms f32_of_units_inv [of c] by (simp add: exact_sub_def)
qed

lemma denormal_units:
  assumes "0 < F" and "F < 1024"
  defines "k \<equiv> bit_len F"
  shows "1 \<le> k" and "k \<le> 10" and "2 ^ 10 \<le> F * 2 ^ (11 - k)" and "F * 2 ^ (11 - k) < 2 ^ 11"
proof -
  obtain j where j: "2 ^ j \<le> F" "F < 2 ^ Suc j" using assms(1) ex_power_ivl1 [of 2 F] by auto
  then have k: "k = Suc j" unfolding k_def by (rule bit_len_eq)
  have "(2::nat) ^ j < 2 ^ 10" using j(1) assms(2) by simp
  then have "j < 10" by (rule power_less_imp_less_exp [rotated]) simp
  then show "1 \<le> k" "k \<le> 10" by (simp_all add: k)
  have p: "2 ^ 10 = (2::nat) ^ j * 2 ^ (11 - k)" "2 ^ 11 = (2::nat) ^ Suc j * 2 ^ (11 - k)"
    using \<open>j < 10\<close> by (simp_all only: flip: power_add) (simp_all add: k)
  show "2 ^ 10 \<le> F * 2 ^ (11 - k)" unfolding p(1) using j(1) by (rule mult_right_mono) simp
  show "F * 2 ^ (11 - k) < 2 ^ 11" unfolding p(2) using j(2) by (rule mult_strict_right_mono) simp
qed

text \<open>Converting a half to a float and back gives the half again, for the denormal numbers because the
  float the code subtracts is exact; only the payload of a NaN is lost: it comes back with all its bits set.\<close>

theorem half_roundtrip:
  assumes sub: "\<And>a b c. f_exp a < 255 \<Longrightarrow> f_exp b < 255 \<Longrightarrow> f_exp c < 255 \<Longrightarrow> f32_value c \<noteq> 0 \<Longrightarrow>
    f32_value a - f32_value b = f32_value c \<Longrightarrow> sub a b = c"
  shows "unat (float2half (half2float sub h)) =
    (if unat h mod 2 ^ 15 > 0x7C00 then unat h div 2 ^ 15 * 2 ^ 15 + 0x7FFF else unat h)"
proof -
  define s e F where "s = h_sign h" and "e = h_exp h" and "F = h_man h"
  have b: "s < 2" "e < 32" "F < 1024" and h: "unat h = s * 2 ^ 15 + (e * 2 ^ 10 + F)"
    using h_parts [of h] by (simp_all add: s_def e_def F_def)
  have "e * 2 ^ 10 + F < 2 ^ 15" using b by simp
  then have hd: "unat h div 2 ^ 15 = s" and hm: "unat h mod 2 ^ 15 = e * 2 ^ 10 + F" by (simp_all add: h)
  have nan: "unat h mod 2 ^ 15 > 0x7C00 \<longleftrightarrow> e = 31 \<and> F \<noteq> 0" unfolding hm using b by auto
  have conv: "unat (float2half (f32_of s E M)) = s * 2 ^ 15 + half_mag E (M div 2 ^ 13)" if "E < 256" "M < 2 ^ 23" for E M
    using b(1) that by (simp add: float2half_nat)
  consider "e = 31" | "e = 0" "F = 0" | "e = 0" "0 < F" | "1 \<le> e" "e < 31" using b(2) by linarith
  then show ?thesis
  proof cases
    case 1
    have 0: "unat h = s * 2 ^ 15 + 0x7C00" if "F = 0" using h that 1 by simp
    show ?thesis using 1 0 conv [of 255 0] conv [of 255 "2 ^ 23 - 1"]
      unfolding nan hd half2float_parts s_def [symmetric] e_def [symmetric] F_def [symmetric]
      by (simp add: half_mag_def)
  next
    case 2
    then show ?thesis using conv [of 0 0] h
      unfolding nan hd half2float_parts s_def [symmetric] e_def [symmetric] F_def [symmetric] by (simp add: half_mag_def)
  next
    case 3
    define k where "k = bit_len F"
    note k = denormal_units [OF 3(2) b(3), folded k_def]
    define M where "M = (F * 2 ^ (11 - k) - 2 ^ 10) * 2 ^ 13"
    have M: "M < 2 ^ 23" "M div 2 ^ 13 = F * 2 ^ (11 - k) - 2 ^ 10" using k(3,4) by (simp_all add: M_def)
    define c where "c = f32_of s (102 + k) M"
    have E: "102 + k < 256" "102 + k < 255" using k(2) by simp_all
    have "f32_units c = (2 ^ 23 + M) * 2 ^ (101 + k)" using b(1) M(1) E by (simp add: f32_units_def c_def)
    also have "2 ^ 23 + M = F * 2 ^ (11 - k) * 2 ^ 13" using k(3) by (simp add: M_def diff_mult_distrib)
    also have "F * 2 ^ (11 - k) * 2 ^ 13 * 2 ^ (101 + k) = F * (2 ^ (11 - k) * 2 ^ 13 * 2 ^ (101 + k))" by (simp only: mult.assoc)
    also have "(2::nat) ^ (11 - k) * 2 ^ 13 * 2 ^ (101 + k) = 2 ^ 125" using k(2) by (simp only: flip: power_add) simp
    finally have u: "f32_units c = F * 2 ^ 125" .
    have "f32_units (f32_of s 113 (F * 2 ^ 13)) = (2 ^ 23 + F * 2 ^ 13) * 2 ^ 112" "f32_units (f32_of s 113 0) = 2 ^ 23 * 2 ^ 112"
      using b by (simp_all add: f32_units_def)
    then have "f32_value (f32_of s 113 (F * 2 ^ 13)) - f32_value (f32_of s 113 0) = f32_value c"
      using b(1,3) M(1) E u by (cases "s = 0") (simp_all add: f32_value_def c_def)
    moreover have "f32_value c \<noteq> 0" using 3(2) by (simp add: f32_value_def u)
    ultimately have sc: "sub (f32_of s 113 (F * 2 ^ 13)) (f32_of s 113 0) = c" using b M(1) E by (intro sub) (simp_all add: c_def)
    have "min (113 - (102 + k)) 11 = 11 - k" by simp
    then have "half_mag (102 + k) (M div 2 ^ 13) = F" using k M(2) by (simp add: half_mag_def)
    then have "unat (float2half c) = s * 2 ^ 15 + F" using conv [OF E(1) M(1)] by (simp add: c_def)
    then show ?thesis using 3 sc h
      unfolding nan hd half2float_parts s_def [symmetric] e_def [symmetric] F_def [symmetric] by simp
  next
    case 4
    have "unat (float2half (f32_of s (e + 112) (F * 2 ^ 13))) = s * 2 ^ 15 + (e * 1024 + F)"
      using conv [of "e + 112" "F * 2 ^ 13"] 4 b(3) by (simp add: half_mag_def)
    then show ?thesis using 4 h
      unfolding nan hd half2float_parts s_def [symmetric] e_def [symmetric] F_def [symmetric] by simp
  qed
qed

text \<open>A concrete exact subtraction, on a denormal half.\<close>

theorem half_roundtrip_witness:
  "unat (float2half (half2float exact_sub 0x8003)) = 0x8003"
proof -
  have "unat (float2half (half2float exact_sub 0x8003)) = (if unat (0x8003 :: u16) mod 2 ^ 15 > 0x7C00
      then unat (0x8003 :: u16) div 2 ^ 15 * 2 ^ 15 + 0x7FFF else unat (0x8003 :: u16))"
    by (rule half_roundtrip) (rule exact_sub_law)
  then show ?thesis by simp
qed

end
